(* ===== verification/Prelude.thy ===== *)
theory Prelude
  imports Main "HOL-Library.Word"
begin

text \<open>
  Shared vocabulary of the development: Go's fixed-width integers and instants, the error
  results of fallible operations, and the fact collections the component theories fill.

  \<^item> \<open>int64\<close> and \<open>int32\<close> values are integers; every addition, subtraction or product the
    source computes is followed by \<open>wrap64\<close> or \<open>wrap32\<close>, so overflow is the machine's.
    \<open>wrap64_word\<close> ties the definition to the 64-bit words of the library.
  \<^item> \<open>time\<close> is an instant in nanoseconds counted from Go's zero time, so \<open>IsZero\<close> is
    \<open>t = 0\<close>, \<open>Before\<close> and \<open>After\<close> are the order, \<open>UTC\<close> is the identity on instants.
  \<^item> a Go result \<open>(T, error)\<close> is a sum: \<open>Inl\<close> of the error, \<open>Inr\<close> of the value. The
    zero value the source returns beside an error is never used by a caller and is dropped.
  \<^item> a pointer that may be nil is an \<open>option\<close>; the copies the source makes of the pointee
    are identities here because nothing is shared.
\<close>

section \<open>Fact collections\<close>

named_theorems validators \<open>definitions of the validity predicates of the components\<close>
named_theorems operations \<open>definitions of the state-changing operations of the components\<close>
named_theorems limits \<open>numeric limits and string constants of the source\<close>

section \<open>Machine integers\<close>

type_synonym int64 = int
type_synonym int32 = int

definition max_int64 :: int64 where
  "max_int64 = 2 ^ 63 - 1"

definition wrap64 :: "int \<Rightarrow> int64" where
  "wrap64 x = (x + 2 ^ 63) mod 2 ^ 64 - 2 ^ 63"

definition wrap32 :: "int \<Rightarrow> int32" where
  "wrap32 x = (x + 2 ^ 31) mod 2 ^ 32 - 2 ^ 31"

definition is_int64 :: "int \<Rightarrow> bool" where
  "is_int64 x \<longleftrightarrow> - (2 ^ 63) \<le> x \<and> x \<le> max_int64"

definition is_int32 :: "int \<Rightarrow> bool" where
  "is_int32 x \<longleftrightarrow> - (2 ^ 31) \<le> x \<and> x < 2 ^ 31"

lemma max_int64_eq [simp]: "max_int64 = 9223372036854775807"
  by (simp add: max_int64_def)

lemma wrap64_id: "is_int64 x \<Longrightarrow> wrap64 x = x"
  by (simp add: wrap64_def is_int64_def)

lemma wrap64_in_range [simp]: "is_int64 (wrap64 x)"
  using pos_mod_bound [of "2 ^ 64" "x + 2 ^ 63"] pos_mod_sign [of "2 ^ 64" "x + 2 ^ 63"]
  by (simp add: wrap64_def is_int64_def)

lemma wrap32_id: "is_int32 x \<Longrightarrow> wrap32 x = x"
  by (simp add: wrap32_def is_int32_def)

lemma wrap64_word: "wrap64 x = sint (word_of_int x :: 64 word)"
  by (simp add: wrap64_def sint_sbintrunc' signed_take_bit_eq_take_bit_shift take_bit_eq_mod)

lemma wrap64_nonneg [simp]: "0 \<le> x \<Longrightarrow> x \<le> max_int64 \<Longrightarrow> wrap64 x = x"
  by (rule wrap64_id) (simp add: is_int64_def)

lemma wrap64_minus [simp]: "0 \<le> a \<Longrightarrow> a \<le> max_int64 \<Longrightarrow> 0 \<le> b \<Longrightarrow> b \<le> max_int64 \<Longrightarrow> wrap64 (a - b) = a - b"
  by (rule wrap64_id) (simp add: is_int64_def)

definition next_version :: "int64 \<Rightarrow> int64" where
  "next_version v = wrap64 (v + 1)"

lemma next_version_Suc [simp]: "0 \<le> v \<Longrightarrow> v < max_int64 \<Longrightarrow> next_version v = v + 1"
  by (simp add: next_version_def)

lemma next_version_neq [simp]: "is_int64 v \<Longrightarrow> next_version v \<noteq> v"
proof
  assume v: "is_int64 v" and eq: "next_version v = v"
  show False
  proof (cases "v = max_int64")
    case True
    with eq show False by (simp add: next_version_def wrap64_def)
  next
    case False
    with v have "is_int64 (v + 1)" by (auto simp: is_int64_def)
    with eq show False by (simp add: next_version_def wrap64_id)
  qed
qed

text \<open>Go's integer division truncates towards zero.\<close>

definition go_div :: "int \<Rightarrow> int \<Rightarrow> int" where
  "go_div a b = sgn a * sgn b * (\<bar>a\<bar> div \<bar>b\<bar>)"

lemma go_div_nonneg [simp]: "0 \<le> a \<Longrightarrow> 0 < b \<Longrightarrow> go_div a b = a div b"
  by (cases "a = 0") (auto simp: go_div_def)

section \<open>Instants and durations\<close>

type_synonym time = int
type_synonym duration = int

definition utc :: "time \<Rightarrow> time" where [simp]: "utc t = t"

definition is_zero :: "time \<Rightarrow> bool" where [simp]: "is_zero t \<longleftrightarrow> t = 0"

definition nanoseconds_per_second :: duration where "nanoseconds_per_second = 1000000000"

definition hour :: duration where "hour = 3600 * nanoseconds_per_second"

definition minute :: duration where "minute = 60 * nanoseconds_per_second"

lemmas duration_defs = hour_def minute_def nanoseconds_per_second_def

section \<open>Results\<close>

definition is_ok :: "'e + 'a \<Rightarrow> bool" where
  "is_ok r = (case r of Inl _ \<Rightarrow> False | Inr _ \<Rightarrow> True)"

lemma is_ok_simps [simp]: "\<not> is_ok (Inl e)" "is_ok (Inr x)"
  by (simp_all add: is_ok_def)

lemma is_ok_iff: "is_ok r \<longleftrightarrow> (\<exists>x. r = Inr x)"
  by (cases r) auto

text \<open>A guarded step: the error unless the guard holds.\<close>

lemma if_Inl_eq_Inr [simp]:
  "((if b then Inl e else r) = Inr x) \<longleftrightarrow> \<not> b \<and> r = Inr x"
  "((if b then r else Inl e) = Inr x) \<longleftrightarrow> b \<and> r = Inr x"
  by auto

lemma Inr_eq_if_Inl [simp]:
  "(Inr x = (if b then Inl e else r)) \<longleftrightarrow> \<not> b \<and> r = Inr x"
  by auto

text \<open>Sequencing: the first error ends the computation.\<close>

definition and_then :: "'e + 'a \<Rightarrow> ('a \<Rightarrow> 'e + 'b) \<Rightarrow> 'e + 'b" where
  "and_then r f = (case r of Inl e \<Rightarrow> Inl e | Inr x \<Rightarrow> f x)"

lemma and_then_simps [simp]: "and_then (Inl e) f = Inl e" "and_then (Inr x) f = f x"
  by (simp_all add: and_then_def)

lemma and_then_eq_Inr: "and_then r f = Inr y \<longleftrightarrow> (\<exists>x. r = Inr x \<and> f x = Inr y)"
  by (cases r) auto

lemma and_then_InrE:
  assumes "and_then r f = Inr y"
  obtains x where "r = Inr x" "f x = Inr y"
  using assms by (auto simp: and_then_eq_Inr)

lemma and_then_cong [fundef_cong]:
  "r = r' \<Longrightarrow> (\<And>x. r' = Inr x \<Longrightarrow> f x = g x) \<Longrightarrow> and_then r f = and_then r' g"
  by (cases r') auto

definition guard_that :: "bool \<Rightarrow> 'e \<Rightarrow> ('e + unit)" where
  "guard_that b e = (if b then Inr () else Inl e)"

lemma guard_that_eq [simp]: "guard_that b e = Inr u \<longleftrightarrow> b"
  by (simp add: guard_that_def)

section \<open>Optional pointers\<close>

fun opt_all :: "('a \<Rightarrow> bool) \<Rightarrow> 'a option \<Rightarrow> bool" where
  "opt_all P None = True"
| "opt_all P (Some x) = P x"

lemma opt_all_iff: "opt_all P v \<longleftrightarrow> (\<forall>x. v = Some x \<longrightarrow> P x)"
  by (cases v) auto

end
