(* ===== verification/Go_Strings.thy ===== *)
theory Go_Strings
  imports Prelude
begin

text \<open>
  The parts of Go's \<open>strings\<close>, \<open>unicode\<close>, \<open>unicode/utf8\<close> and \<open>strconv\<close> packages the
  modelled code calls. A Go string is its bytes, so it is a \<open>char list\<close> and \<open>len\<close> is
  \<open>length\<close>. Runes are decoded from UTF-8 as Go does it: an ill-formed sequence yields
  \<open>rune_error\<close> with width one. The lemmas give the trimming laws every validator of the
  code rests on (\<open>trim_space_idem\<close>) and the decimal round trip used by identifiers.
\<close>

section \<open>UTF-8\<close>

definition byte :: "char \<Rightarrow> nat" where
  "byte c = of_char c"

lemma byte_less [simp]: "byte c < 256"
  by (cases c) (simp add: byte_def of_char_def)

definition rune_error :: nat where
  "rune_error = 65533"

definition cont_byte :: "nat \<Rightarrow> bool" where
  "cont_byte b \<longleftrightarrow> 128 \<le> b \<and> b \<le> 191"

definition rune_size :: "nat \<Rightarrow> nat" where
  "rune_size b = (if 194 \<le> b \<and> b \<le> 223 then 2 else if 224 \<le> b \<and> b \<le> 239 then 3
                  else if 240 \<le> b \<and> b \<le> 244 then 4 else 1)"

definition second_ok :: "nat \<Rightarrow> nat \<Rightarrow> bool" where
  "second_ok b0 b1 \<longleftrightarrow>
     (if b0 = 224 then 160 \<le> b1 \<and> b1 \<le> 191
      else if b0 = 237 then 128 \<le> b1 \<and> b1 \<le> 159
      else if b0 = 240 then 144 \<le> b1 \<and> b1 \<le> 191
      else if b0 = 244 then 128 \<le> b1 \<and> b1 \<le> 143
      else cont_byte b1)"

definition decode_tail :: "nat \<Rightarrow> string \<Rightarrow> nat \<times> nat" where
  "decode_tail b0 s1 =
     (case s1 of [] \<Rightarrow> (rune_error, 1) | c1 # s2 \<Rightarrow>
        if rune_size b0 = 1 \<or> \<not> second_ok b0 (byte c1) then (rune_error, 1)
        else if rune_size b0 = 2 then ((b0 mod 32) * 64 + byte c1 mod 64, 2)
        else (case s2 of [] \<Rightarrow> (rune_error, 1) | c2 # s3 \<Rightarrow>
          if \<not> cont_byte (byte c2) then (rune_error, 1)
          else if rune_size b0 = 3
            then ((b0 mod 16) * 4096 + (byte c1 mod 64) * 64 + byte c2 mod 64, 3)
          else (case s3 of [] \<Rightarrow> (rune_error, 1) | c3 # _ \<Rightarrow>
            if \<not> cont_byte (byte c3) then (rune_error, 1)
            else ((b0 mod 8) * 262144 + (byte c1 mod 64) * 4096 + (byte c2 mod 64) * 64 + byte c3 mod 64, 4))))"

definition decode_rune :: "string \<Rightarrow> nat \<times> nat" where
  "decode_rune s =
     (case s of [] \<Rightarrow> (rune_error, 0)
      | c # s1 \<Rightarrow> (if byte c < 128 then (byte c, 1) else decode_tail (byte c) s1))"

lemma decode_rune_Nil [simp]: "decode_rune [] = (rune_error, 0)"
  by (simp add: decode_rune_def)

lemma decode_tail_size: "0 < snd (decode_tail b s)"
  by (auto simp: decode_tail_def split: list.split)

lemma decode_rune_size_pos [simp]: "s \<noteq> [] \<Longrightarrow> 0 < snd (decode_rune s)"
  by (cases s) (auto simp: decode_rune_def decode_tail_size)

lemma decode_tail_size_le: "snd (decode_tail b s) \<le> Suc (length s)"
  by (auto simp: decode_tail_def split: list.split)

lemma decode_rune_size_le: "snd (decode_rune s) \<le> length s"
  by (cases s) (auto simp: decode_rune_def decode_tail_size_le)

lemma drop_rune_shorter [simp]: "s \<noteq> [] \<Longrightarrow> length s - snd (decode_rune s) < length s"
  using decode_rune_size_pos [of s] by (cases s) (auto simp: decode_rune_size_le diff_less)

lemma decode_tail_truncated:
  "decode_tail b t = decode_tail b (t @ w) \<or> decode_tail b t = (rune_error, 1)"
  unfolding decode_tail_def by (auto split: list.split)

lemma decode_rune_truncated:
  "t \<noteq> [] \<Longrightarrow> decode_rune t = decode_rune (t @ w) \<or> decode_rune t = (rune_error, 1)"
  using decode_tail_truncated by (cases t) (auto simp: decode_rune_def)

section \<open>White space\<close>

definition is_space :: "nat \<Rightarrow> bool" where
  "is_space r \<longleftrightarrow> 9 \<le> r \<and> r \<le> 13 \<or> r = 32 \<or> r = 133 \<or> r = 160 \<or> r = 5760
     \<or> 8192 \<le> r \<and> r \<le> 8202 \<or> r = 8232 \<or> r = 8233 \<or> r = 8239 \<or> r = 8287 \<or> r = 12288"

function trim_left :: "string \<Rightarrow> string" where
  "trim_left s = (if s \<noteq> [] \<and> is_space (fst (decode_rune s))
                  then trim_left (drop (snd (decode_rune s)) s) else s)"
  by pat_completeness auto
termination
  by (relation "measure length") auto
declare trim_left.simps [simp del]

text \<open>\<open>DecodeLastRune\<close> looks back at most four bytes for a start byte.\<close>

definition last_start :: "string \<Rightarrow> nat option" where
  "last_start s = find (\<lambda>k. k \<le> length s \<and> \<not> cont_byte (byte (s ! (length s - k)))) [2, 3, 4]"

definition decode_last_rune :: "string \<Rightarrow> nat \<times> nat" where
  "decode_last_rune s =
     (if s = [] then (rune_error, 0)
      else if byte (last s) < 128 then (byte (last s), 1)
      else (case last_start s of
              None \<Rightarrow> (rune_error, 1)
            | Some k \<Rightarrow> (let (r, n) = decode_rune (drop (length s - k) s)
                        in if n = k then (r, n) else (rune_error, 1))))"

lemma find_Some_pred: "find P xs = Some x \<Longrightarrow> P x \<and> x \<in> set xs"
  by (induction xs) (auto split: if_splits)

lemma decode_last_rune_size_pos [simp]: "s \<noteq> [] \<Longrightarrow> 0 < snd (decode_last_rune s)"
  by (auto simp: decode_last_rune_def last_start_def Let_def split: option.split prod.split dest!: find_Some_pred)

function trim_right :: "string \<Rightarrow> string" where
  "trim_right s = (if s \<noteq> [] \<and> is_space (fst (decode_last_rune s))
                   then trim_right (take (length s - snd (decode_last_rune s)) s) else s)"
  by pat_completeness auto
termination
  by (relation "measure length") auto
declare trim_right.simps [simp del]

definition trim_space :: "string \<Rightarrow> string" where
  "trim_space s = trim_right (trim_left s)"

lemma not_space_error [simp]: "\<not> is_space rune_error"
  by (simp add: is_space_def rune_error_def)

lemma trim_left_fixed: "trim_left s = s \<longleftrightarrow> s = [] \<or> \<not> is_space (fst (decode_rune s))"
proof -
  have "length (trim_left (drop (snd (decode_rune s)) s)) < length s"
    if "s \<noteq> []" "is_space (fst (decode_rune s))"
  proof -
    have le: "length (trim_left u) \<le> length u" for u
      by (induction u rule: trim_left.induct) (subst trim_left.simps, auto)
    show ?thesis
      using le [of "drop (snd (decode_rune s)) s"] drop_rune_shorter [OF that(1)] by simp
  qed
  then show ?thesis
    by (subst trim_left.simps) force
qed

lemma trim_left_idem: "trim_left (trim_left s) = trim_left s"
  by (induction s rule: trim_left.induct) (metis trim_left.simps)

lemma trim_right_idem: "trim_right (trim_right s) = trim_right s"
  by (induction s rule: trim_right.induct) (metis trim_right.simps)

lemma trim_right_prefix: "\<exists>w. s = trim_right s @ w"
proof (induction s rule: trim_right.induct)
  case (1 s)
  show ?case
  proof (cases "s \<noteq> [] \<and> is_space (fst (decode_last_rune s))")
    case True
    let ?t = "take (length s - snd (decode_last_rune s)) s"
    from True 1 obtain w where "?t = trim_right ?t @ w" by blast
    then have "s = trim_right ?t @ w @ drop (length s - snd (decode_last_rune s)) s"
      by (metis append.assoc append_take_drop_id)
    with True show ?thesis by (metis trim_right.simps)
  next
    case False
    then have "trim_right s = s" by (subst trim_right.simps) auto
    then show ?thesis by simp
  qed
qed

lemma trim_left_trim_right:
  assumes "trim_left s = s"
  shows "trim_left (trim_right s) = trim_right s"
proof -
  obtain w where w: "s = trim_right s @ w" using trim_right_prefix by blast
  show ?thesis
  proof (cases "trim_right s = []")
    case False
    then have "s \<noteq> []" using w by auto
    then have "\<not> is_space (fst (decode_rune s))" using assms by (simp add: trim_left_fixed)
    then show ?thesis
      using decode_rune_truncated [OF False, of w] w [symmetric] by (auto simp: trim_left_fixed)
  qed (simp add: trim_left_fixed)
qed

lemma trim_space_idem [simp]: "trim_space (trim_space s) = trim_space s"
  by (simp add: trim_space_def trim_left_trim_right trim_left_idem trim_right_idem)


lemma trim_space_Nil [simp]: "trim_space [] = []"
  by (simp add: trim_space_def trim_left.simps trim_right.simps)

section \<open>Runes\<close>

function runes :: "string \<Rightarrow> nat list" where
  "runes s = (if s = [] then [] else fst (decode_rune s) # runes (drop (snd (decode_rune s)) s))"
  by pat_completeness auto
termination
  by (relation "measure length") auto
declare runes.simps [simp del]

definition rune_count :: "string \<Rightarrow> nat" where
  "rune_count s = length (runes s)"

function valid_utf8 :: "string \<Rightarrow> bool" where
  "valid_utf8 s = (if s = [] then True
                   else decode_rune s \<noteq> (rune_error, 1) \<and> valid_utf8 (drop (snd (decode_rune s)) s))"
  by pat_completeness auto
termination
  by (relation "measure length") auto
declare valid_utf8.simps [simp del]

lemma rune_count_le_length: "rune_count s \<le> length s"
proof (induction s rule: runes.induct)
  case (1 s)
  show ?case
  proof (cases "s = []")
    case False
    with 1 have "length (runes (drop (snd (decode_rune s)) s)) < length s"
      by (auto simp: rune_count_def intro: le_less_trans)
    with False show ?thesis by (simp add: rune_count_def runes.simps [of s])
  qed (simp add: rune_count_def runes.simps)
qed

section \<open>Plain ASCII text\<close>

definition graphic :: "char \<Rightarrow> bool" where
  "graphic c \<longleftrightarrow> 33 \<le> byte c \<and> byte c \<le> 126"

lemma decode_rune_ascii [simp]: "byte c < 128 \<Longrightarrow> decode_rune (c # s) = (byte c, 1)"
  by (simp add: decode_rune_def)

lemma not_space_graphic: "graphic c \<Longrightarrow> \<not> is_space (byte c)"
  by (auto simp: graphic_def is_space_def)

text \<open>A text that starts and ends with a graphic ASCII character is trimmed.\<close>

lemma trim_space_graphic: "s = [] \<or> graphic (hd s) \<and> graphic (last s) \<Longrightarrow> trim_space s = s"
proof (cases s)
  case (Cons c cs)
  assume "s = [] \<or> graphic (hd s) \<and> graphic (last s)"
  with Cons have g: "graphic c" "graphic (last s)" by auto
  then have "trim_left s = s"
    using Cons not_space_graphic [OF g(1)] by (simp add: trim_left_fixed graphic_def)
  moreover have "trim_right s = s"
    using Cons g(2) not_space_graphic [OF g(2)]
    by (subst trim_right.simps) (simp add: decode_last_rune_def graphic_def)
  ultimately show ?thesis by (simp add: trim_space_def)
qed simp

lemma runes_ascii: "list_all (\<lambda>c. byte c < 128) s \<Longrightarrow> runes s = map byte s"
  by (induction s) (simp_all add: runes.simps)

lemma valid_utf8_ascii: "list_all (\<lambda>c. byte c < 128) s \<Longrightarrow> valid_utf8 s"
proof (induction s)
  case (Cons c s)
  then show ?case by (subst valid_utf8.simps) (simp add: rune_error_def)
qed (simp add: valid_utf8.simps)

lemmas ascii_text = trim_space_graphic runes_ascii valid_utf8_ascii graphic_def byte_def

section \<open>Searching and replacing\<close>

definition has_prefix :: "string \<Rightarrow> string \<Rightarrow> bool" where
  "has_prefix s p \<longleftrightarrow> take (length p) s = p"

fun contains :: "string \<Rightarrow> string \<Rightarrow> bool" where
  "contains [] p = (p = [])"
| "contains (c # s) p = (has_prefix (c # s) p \<or> contains s p)"

definition contains_any :: "string \<Rightarrow> string \<Rightarrow> bool" where
  "contains_any s chars \<longleftrightarrow> list_ex (\<lambda>c. c \<in> set chars) s"

text \<open>\<open>strings.ReplaceAll\<close> for a non-empty pattern: leftmost, non-overlapping.\<close>

function replace_all :: "string \<Rightarrow> string \<Rightarrow> string \<Rightarrow> string" where
  "replace_all s old new =
     (case s of [] \<Rightarrow> []
      | c # cs \<Rightarrow> (if old \<noteq> [] \<and> has_prefix s old then new @ replace_all (drop (length old) s) old new
                   else c # replace_all cs old new))"
  by pat_completeness auto
termination
  by (relation "measure (\<lambda>(s, _). length s)") auto
declare replace_all.simps [simp del]

lemma has_prefix_append: "has_prefix s p \<longleftrightarrow> (\<exists>t. s = p @ t)"
  by (auto simp: has_prefix_def) (metis append_take_drop_id)

lemma contains_iff: "contains s p \<longleftrightarrow> (\<exists>u w. s = u @ p @ w)"
proof (induction s)
  case (Cons c s)
  show ?case
  proof
    assume "contains (c # s) p"
    then consider "has_prefix (c # s) p" | "contains s p" by auto
    then show "\<exists>u w. c # s = u @ p @ w"
    proof cases
      case 1
      then obtain t where "c # s = p @ t" by (auto simp: has_prefix_append)
      then have "c # s = [] @ p @ t" by simp
      then show ?thesis by blast
    next
      case 2
      with Cons.IH obtain u w where "s = u @ p @ w" by blast
      then have "c # s = (c # u) @ p @ w" by simp
      then show ?thesis by blast
    qed
  next
    assume "\<exists>u w. c # s = u @ p @ w"
    then obtain u w where e: "c # s = u @ p @ w" by blast
    show "contains (c # s) p"
    proof (cases u)
      case Nil
      with e have "has_prefix (c # s) p" by (auto simp: has_prefix_append)
      then show ?thesis by simp
    next
      case (Cons d u')
      with e have "s = u' @ p @ w" by simp
      with Cons.IH show ?thesis by auto
    qed
  qed
qed simp

section \<open>Decimal numbers\<close>

lemma byte_inject: "byte c = byte d \<longleftrightarrow> c = d"
  by (simp add: byte_def)


definition digit_char :: "nat \<Rightarrow> char" where
  "digit_char d = char_of (48 + d)"

definition is_digit :: "char \<Rightarrow> bool" where
  "is_digit c \<longleftrightarrow> 48 \<le> byte c \<and> byte c \<le> 57"

definition digit_value :: "char \<Rightarrow> nat" where
  "digit_value c = byte c - 48"

fun show_nat :: "nat \<Rightarrow> string" where
  "show_nat n = (if n < 10 then [digit_char n] else show_nat (n div 10) @ [digit_char (n mod 10)])"
declare show_nat.simps [simp del]

definition format_int :: "int \<Rightarrow> string" where
  "format_int i = (if i < 0 then CHR ''-'' # show_nat (nat (- i)) else show_nat (nat i))"

definition read_digits :: "string \<Rightarrow> nat" where
  "read_digits s = foldl (\<lambda>n c. 10 * n + digit_value c) 0 s"

text \<open>\<open>strconv.ParseInt(s, 10, 64)\<close> on a string of digits: an error when out of range.\<close>

definition parse_digits64 :: "string \<Rightarrow> int64 option" where
  "parse_digits64 s = (if s \<noteq> [] \<and> list_all is_digit s \<and> int (read_digits s) \<le> max_int64
                       then Some (int (read_digits s)) else None)"

lemma byte_digit_char [simp]: "d < 10 \<Longrightarrow> byte (digit_char d) = 48 + d"
  by (simp add: byte_def digit_char_def take_bit_eq_mod)

lemma digit_char_simps [simp]:
  "d < 10 \<Longrightarrow> is_digit (digit_char d)" "d < 10 \<Longrightarrow> digit_value (digit_char d) = d"
  by (simp_all add: is_digit_def digit_value_def)

lemma show_nat_digits: "list_all is_digit (show_nat n)"
proof (induction n rule: show_nat.induct)
  case (1 n)
  then show ?case by (cases "n < 10") (simp_all add: show_nat.simps [of n])
qed

lemma show_nat_not_Nil [simp]: "show_nat n \<noteq> []"
  by (subst show_nat.simps) simp

lemma read_digits_snoc [simp]: "read_digits (s @ [c]) = 10 * read_digits s + digit_value c"
  by (simp add: read_digits_def)

lemma read_show_nat [simp]: "read_digits (show_nat n) = n"
proof (induction n rule: show_nat.induct)
  case (1 n)
  show ?case
  proof (cases "n < 10")
    case True
    then show ?thesis by (simp add: show_nat.simps [of n] read_digits_def)
  next
    case False
    with 1 show ?thesis by (simp add: show_nat.simps [of n])
  qed
qed

lemma show_nat_inj: "show_nat m = show_nat n \<longleftrightarrow> m = n"
  by (metis read_show_nat)

lemma hd_show_nat: "0 < n \<Longrightarrow> hd (show_nat n) \<noteq> CHR ''0''"
proof (induction n rule: show_nat.induct)
  case (1 n)
  show ?case
  proof (cases "n < 10")
    case True
    have "digit_char n \<noteq> CHR ''0''"
    proof
      assume "digit_char n = CHR ''0''"
      then have "byte (digit_char n) = byte (CHR ''0'')" by simp
      moreover have "byte (CHR ''0'') = 48" by (simp add: byte_def)
      ultimately show False using True "1.prems" by simp
    qed
    with True show ?thesis by (simp add: show_nat.simps [of n])
  next
    case False
    with 1 show ?thesis by (simp add: show_nat.simps [of n])
  qed
qed

lemma parse_digits64_show: "0 \<le> i \<Longrightarrow> i \<le> max_int64 \<Longrightarrow> parse_digits64 (format_int i) = Some i"
  by (simp add: parse_digits64_def format_int_def show_nat_digits)

text \<open>Without a leading zero the digits are the only decimal spelling of their number.\<close>

lemma read_digits_le: "s \<noteq> [] \<Longrightarrow> list_all is_digit s \<Longrightarrow> hd s \<noteq> CHR ''0'' \<Longrightarrow> 0 < read_digits s"
proof (induction s rule: rev_induct)
  case (snoc c s)
  show ?case
  proof (cases "s = []")
    case True
    have "digit_value c \<noteq> 0"
    proof
      assume "digit_value c = 0"
      with snoc.prems True have "byte c = 48" by (simp add: is_digit_def digit_value_def)
      moreover have "byte (CHR ''0'') = 48" by (simp add: byte_def)
      ultimately have "c = CHR ''0''" by (simp flip: byte_inject)
      with snoc.prems True show False by simp
    qed
    with True show ?thesis by (simp add: read_digits_def)
  qed (use snoc in auto)
qed simp

lemma digit_char_value: "is_digit c \<Longrightarrow> digit_char (digit_value c) = c"
  by (simp add: is_digit_def digit_value_def digit_char_def byte_def)

lemma show_read_digits:
  "s \<noteq> [] \<Longrightarrow> list_all is_digit s \<Longrightarrow> hd s \<noteq> CHR ''0'' \<Longrightarrow> show_nat (read_digits s) = s"
proof (induction s rule: rev_induct)
  case (snoc c s)
  have dv: "digit_value c < 10" using snoc.prems by (auto simp: is_digit_def digit_value_def)
  show ?case
  proof (cases "s = []")
    case True
    with dv snoc.prems show ?thesis
      by (simp add: show_nat.simps [of "digit_value c"] read_digits_def digit_char_value)
  next
    case False
    with snoc have "0 < read_digits s" by (auto intro: read_digits_le)
    with dv snoc False show ?thesis
      by (simp add: show_nat.simps [of "10 * read_digits s + digit_value c"] digit_char_value)
  qed
qed simp

lemma parse_digits64_format:
  "parse_digits64 s = Some i \<Longrightarrow> hd s \<noteq> CHR ''0'' \<Longrightarrow> format_int i = s"
  by (auto simp: parse_digits64_def format_int_def show_read_digits split: if_splits)

end
