(* ===== verification/Versioned.thy ===== *)
theory Versioned
  imports Prelude
begin

text \<open>
  The contracts the aggregates of the code share, stated once as locales.

  \<^item> \<open>cas\<close>: an aggregate carries a version, every command names the version it read, and a
    command with a stale version is refused (compare-and-swap, the \<open>expectedVersion\<close>
    arguments of the source). \<open>cas_strict\<close> adds that every accepted command moves the
    version, which excludes lost updates.
  \<^item> \<open>guarded\<close>: every accepted command keeps the invariant, so a whole history does.
  \<^item> \<open>ranked\<close>: a status relation that only moves forward, so no status is entered twice.

  Each component interprets them on its own operations.
\<close>

section \<open>Histories of commands\<close>

text \<open>A run in which every command must succeed, and a run in which a refused command
  leaves the stored aggregate as it was (the caller returned the error).\<close>

fun run_all :: "('c \<Rightarrow> 's \<Rightarrow> 'e + 's) \<Rightarrow> 'c list \<Rightarrow> 's \<Rightarrow> 'e + 's" where
  "run_all f [] s = Inr s"
| "run_all f (c # cs) s = (case f c s of Inl e \<Rightarrow> Inl e | Inr t \<Rightarrow> run_all f cs t)"

fun run_history :: "('c \<Rightarrow> 's \<Rightarrow> 'e + 's) \<Rightarrow> 'c list \<Rightarrow> 's \<Rightarrow> 's" where
  "run_history f [] s = s"
| "run_history f (c # cs) s = run_history f cs (case f c s of Inl e \<Rightarrow> s | Inr t \<Rightarrow> t)"

lemma run_all_history: "run_all f cs s = Inr t \<Longrightarrow> run_history f cs s = t"
  by (induction cs arbitrary: s) (auto split: sum.splits)

lemma run_history_append: "run_history f (cs @ ds) s = run_history f ds (run_history f cs s)"
  by (induction cs arbitrary: s) auto

lemma run_history_preserves:
  assumes "\<And>c s t. P s \<Longrightarrow> f c s = Inr t \<Longrightarrow> P t"
  shows "P s \<Longrightarrow> P (run_history f cs s)"
  by (induction cs arbitrary: s) (auto split: sum.splits intro: assms)

section \<open>Optimistic concurrency\<close>

locale cas =
  fixes version :: "'s \<Rightarrow> int64"
    and expected :: "'c \<Rightarrow> int64"
    and exec :: "'c \<Rightarrow> 's \<Rightarrow> 'e + 's"
  assumes stale_rejected: "expected c \<noteq> version s \<Longrightarrow> \<not> is_ok (exec c s)"
    and version_step:
      "exec c s = Inr t \<Longrightarrow> version t = version s \<or> version t = next_version (version s)"
begin

lemma accepted_current: "exec c s = Inr t \<Longrightarrow> expected c = version s"
  using stale_rejected [of c s] by fastforce

text \<open>Two commands prepared from the same read: if the first moved the version, the second
  is refused.\<close>

lemma no_lost_update:
  assumes "exec c s = Inr t" "version t \<noteq> version s" "expected d = version s"
  shows "\<not> is_ok (exec d t)"
  using assms by (intro stale_rejected) simp

end

locale cas_strict = cas +
  assumes version_bump: "exec c s = Inr t \<Longrightarrow> version t = next_version (version s)"
begin

lemma single_winner:
  assumes "is_int64 (version s)" "exec c s = Inr t" "expected d = version s"
  shows "\<not> is_ok (exec d t)"
  using assms by (intro no_lost_update [of c s]) (simp_all add: version_bump)

lemma run_all_version:
  assumes "run_all exec cs s = Inr t" "0 \<le> version s" "version s + int (length cs) \<le> max_int64"
  shows "version t = version s + int (length cs)"
  using assms
proof (induction cs arbitrary: s)
  case (Cons c cs)
  then obtain u where u: "exec c s = Inr u" and rest: "run_all exec cs u = Inr t"
    by (auto split: sum.splits)
  from u Cons.prems have "version u = version s + 1" by (simp add: version_bump)
  with Cons.IH [OF rest] Cons.prems show ?case by simp
qed simp

end

section \<open>Invariants over histories\<close>

locale guarded =
  fixes exec :: "'c \<Rightarrow> 's \<Rightarrow> 'e + 's"
    and inv :: "'s \<Rightarrow> bool"
  assumes exec_inv: "inv s \<Longrightarrow> exec c s = Inr t \<Longrightarrow> inv t"
begin

lemma history_inv: "inv s \<Longrightarrow> inv (run_history exec cs s)"
  by (rule run_history_preserves) (auto intro: exec_inv)

end

text \<open>A relation between the first and the last state that every accepted command
  respects: what never changes, or only grows.\<close>

locale monotone_history = guarded +
  fixes rel :: "'s \<Rightarrow> 's \<Rightarrow> bool"
  assumes rel_refl: "rel s s"
    and rel_trans: "rel s t \<Longrightarrow> rel t u \<Longrightarrow> rel s u"
    and exec_rel: "inv s \<Longrightarrow> exec c s = Inr t \<Longrightarrow> rel s t"
begin

lemma history_rel: "inv s \<Longrightarrow> rel s (run_history exec cs s)"
proof (induction cs arbitrary: s)
  case (Cons c cs)
  show ?case
  proof (cases "exec c s")
    case (Inr t)
    with Cons show ?thesis by (auto intro: rel_trans exec_rel exec_inv)
  qed (use Cons in auto)
qed (simp add: rel_refl)

end

section \<open>Statuses that only move forward\<close>

locale ranked =
  fixes can :: "'q \<Rightarrow> 'q \<Rightarrow> bool"
    and rank :: "'q \<Rightarrow> nat"
  assumes can_rank: "can p q \<Longrightarrow> p = q \<or> rank p < rank q"
begin

lemma path_rank: "can\<^sup>*\<^sup>* p q \<Longrightarrow> p = q \<or> rank p < rank q"
  by (induction rule: rtranclp_induct) (auto dest: can_rank)

lemma no_return: "can\<^sup>*\<^sup>* p q \<Longrightarrow> can\<^sup>*\<^sup>* q p \<Longrightarrow> p = q"
  using path_rank [of p q] path_rank [of q p] by auto

end

end
