(* ===== verification/Order_Domain.thy ===== *)
theory Order_Domain
  imports Go_Strings Versioned
begin

text \<open>
  The canonical Order aggregate of \<open>internal/order/domain/order.go\<close>: construction, restoring
  from a snapshot, settlement and the attribution of a historical payer. The lemmas show
  that every operation yields a valid order, that the item total of a valid order is exact
  (no 64-bit overflow), that snapshots round-trip, and that the status machine only moves
  forward with the refunded amount inside the order's amount.
\<close>

section \<open>Data\<close>

text \<open>The named string types of the source are open: any other string is kept as such.\<close>

datatype provider = ProviderWeChatPay | ProviderWeChatShop | ProviderAlipay | ProviderOther string

datatype order_status =
  OrderPendingPayment | OrderPaid | OrderPartiallyRefunded | OrderRefunded
| OrderCancelled | OrderPaymentFailed | OrderClosed | OrderStatusOther string

datatype record_origin = OriginNative | OriginHistory | OriginOther string

record money =
  amount_minor :: int64
  currency :: string

record item_snapshot =
  line_no :: int32
  product_id :: "int64 option"
  product_version :: "int64 option"
  product_code :: string
  product_name :: string
  unit_amount_minor :: int64
  quantity :: int32
  line_amount_minor :: int64

record new_order_input =
  in_provider :: provider
  in_source_system :: string
  in_source_key :: string
  in_merchant_order_no :: string
  in_provider_transaction_no :: string
  in_payer :: "int64 option"
  in_beneficiary :: "int64 option"
  in_amount :: money
  in_items :: "item_snapshot list"
  in_record_origin :: record_origin
  in_effect_eligible :: bool
  in_created_at :: time

record order =
  ord_id :: int64
  ord_provider :: provider
  source_system :: string
  source_key :: string
  merchant_order_no :: string
  provider_transaction_no :: string
  payer_customer_id :: "int64 option"
  beneficiary_customer_id :: "int64 option"
  ord_amount :: money
  refunded_minor :: int64
  ord_status :: order_status
  ord_origin :: record_origin
  effect_eligible :: bool
  ord_version :: int64
  ord_created_at :: time
  ord_updated_at :: time
  ord_items :: "item_snapshot list"

record order_snapshot =
  snap_id :: int64
  snap_provider :: provider
  snap_source_system :: string
  snap_source_key :: string
  snap_merchant_order_no :: string
  snap_provider_transaction_no :: string
  snap_payer :: "int64 option"
  snap_beneficiary :: "int64 option"
  snap_amount :: money
  snap_refunded_minor :: int64
  snap_status :: order_status
  snap_items :: "item_snapshot list"
  snap_origin :: record_origin
  snap_effect_eligible :: bool
  snap_profit_sharing_required :: bool
  snap_version :: int64
  snap_created_at :: time
  snap_updated_at :: time

record status_event =
  ev_from :: order_status
  ev_to :: order_status
  ev_refunded_minor :: int64
  ev_version :: int64
  ev_occurred_at :: time

datatype order_error = ErrInvalidOrder | ErrInvalidSettlement | ErrInvalidTransition | ErrVersionConflict

section \<open>Validity\<close>

definition valid_currency :: "string \<Rightarrow> bool" where
  "valid_currency s \<longleftrightarrow> length s = 3 \<and> list_all (\<lambda>r. 65 \<le> r \<and> r \<le> 90) (runes s)"

definition new_money :: "int64 \<Rightarrow> string \<Rightarrow> order_error + money" where
  "new_money a c = (if a < 1 \<or> \<not> valid_currency c then Inl ErrInvalidOrder
                    else Inr \<lparr>amount_minor = a, currency = c\<rparr>)"

definition valid_order_text :: "string \<Rightarrow> nat \<Rightarrow> bool" where
  "valid_order_text s m \<longleftrightarrow> s = trim_space s \<and> 1 \<le> length s \<and> length s \<le> m"

definition valid_order_id :: "int64 option \<Rightarrow> bool" where
  "valid_order_id v \<longleftrightarrow> (case v of None \<Rightarrow> False | Some i \<Rightarrow> 0 < i)"

definition clone_id :: "int64 option \<Rightarrow> int64 option" where
  "clone_id v = (case v of None \<Rightarrow> None | Some i \<Rightarrow> Some i)"

definition clone_items :: "item_snapshot list \<Rightarrow> item_snapshot list" where
  "clone_items = map (\<lambda>it. it\<lparr>product_id := clone_id (product_id it)\<rparr>)"

definition valid_order_provider :: "provider \<Rightarrow> bool" where
  "valid_order_provider p \<longleftrightarrow> p = ProviderWeChatPay \<or> p = ProviderWeChatShop \<or> p = ProviderAlipay"

fun valid_settlement :: "order_status \<Rightarrow> int64 \<Rightarrow> int64 \<Rightarrow> bool" where
  "valid_settlement st refunded amount =
     (if refunded < 0 \<or> amount < refunded then False
      else case st of
             OrderPartiallyRefunded \<Rightarrow> 0 < refunded \<and> refunded < amount
           | OrderRefunded \<Rightarrow> refunded = amount
           | OrderStatusOther _ \<Rightarrow> False
           | _ \<Rightarrow> refunded = 0)"
declare valid_settlement.simps [simp del]

fun may_transition :: "order_status \<Rightarrow> order_status \<Rightarrow> bool" where
  "may_transition OrderPendingPayment q \<longleftrightarrow> q = OrderPaid \<or> q = OrderCancelled \<or> q = OrderPaymentFailed"
| "may_transition OrderPaid q \<longleftrightarrow> q = OrderPartiallyRefunded \<or> q = OrderRefunded \<or> q = OrderClosed"
| "may_transition OrderPartiallyRefunded q \<longleftrightarrow> q = OrderPartiallyRefunded \<or> q = OrderRefunded"
| "may_transition _ _ \<longleftrightarrow> False"

text \<open>The guard on one item, with the total accumulated before it; the disjuncts are
  evaluated left to right in the source, so the division is by a positive quantity.\<close>

definition bad_item :: "int64 \<Rightarrow> item_snapshot \<Rightarrow> bool" where
  "bad_item acc it \<longleftrightarrow>
     line_no it < 1 \<or> \<not> opt_all (\<lambda>i. 1 \<le> i) (product_id it) \<or> \<not> opt_all (\<lambda>i. 1 \<le> i) (product_version it)
     \<or> \<not> valid_order_text (product_code it) 200 \<or> \<not> valid_order_text (product_name it) 500
     \<or> unit_amount_minor it < 1 \<or> quantity it < 1
     \<or> go_div max_int64 (quantity it) < unit_amount_minor it
     \<or> line_amount_minor it \<noteq> wrap64 (unit_amount_minor it * quantity it)
     \<or> wrap64 (max_int64 - line_amount_minor it) < acc"

fun scan_items :: "item_snapshot list \<Rightarrow> int32 set \<Rightarrow> int64 \<Rightarrow> int64 option" where
  "scan_items [] seen acc = Some acc"
| "scan_items (it # its) seen acc =
     (if bad_item acc it then None
      else if line_no it \<in> seen then None
      else scan_items its (insert (line_no it) seen) (wrap64 (acc + line_amount_minor it)))"

definition valid_order :: "order \<Rightarrow> bool" where
  "valid_order x \<longleftrightarrow>
     \<not> (\<not> valid_order_provider (ord_provider x) \<or> \<not> valid_order_text (source_system x) 100
        \<or> \<not> valid_order_text (source_key x) 200 \<or> \<not> valid_order_text (merchant_order_no x) 200
        \<or> 200 < length (provider_transaction_no x)
        \<or> provider_transaction_no x \<noteq> trim_space (provider_transaction_no x)
        \<or> amount_minor (ord_amount x) < 1 \<or> \<not> valid_currency (currency (ord_amount x))
        \<or> ord_version x < 1 \<or> is_zero (ord_created_at x) \<or> ord_updated_at x < ord_created_at x
        \<or> ord_origin x \<noteq> OriginNative \<and> ord_origin x \<noteq> OriginHistory
        \<or> effect_eligible x \<noteq> (ord_origin x = OriginNative)
        \<or> \<not> valid_settlement (ord_status x) (refunded_minor x) (amount_minor (ord_amount x)))
   \<and> \<not> (ord_origin x = OriginNative
        \<and> (\<not> valid_order_id (payer_customer_id x) \<or> \<not> valid_order_id (beneficiary_customer_id x)))
   \<and> \<not> (ord_origin x = OriginNative \<and> ord_provider x = ProviderAlipay)
   \<and> opt_all (\<lambda>i. 1 \<le> i) (payer_customer_id x) \<and> opt_all (\<lambda>i. 1 \<le> i) (beneficiary_customer_id x)
   \<and> \<not> (length (ord_items x) < 1 \<or> 100 < length (ord_items x))
   \<and> scan_items (ord_items x) {} 0 = Some (amount_minor (ord_amount x))"

definition validate :: "order \<Rightarrow> order_error + order" where
  "validate x = (if valid_order x then Inr x else Inl ErrInvalidOrder)"

section \<open>Operations\<close>

definition new_order :: "new_order_input \<Rightarrow> order_error + order" where
  "new_order i =
     (let origin = (if in_record_origin i = OriginOther [] then OriginNative else in_record_origin i)
      in validate
        \<lparr>ord_id = 0, ord_provider = in_provider i, source_system = trim_space (in_source_system i),
         source_key = trim_space (in_source_key i), merchant_order_no = trim_space (in_merchant_order_no i),
         provider_transaction_no = trim_space (in_provider_transaction_no i),
         payer_customer_id = clone_id (in_payer i), beneficiary_customer_id = clone_id (in_beneficiary i),
         ord_amount = in_amount i, refunded_minor = 0, ord_status = OrderPendingPayment,
         ord_origin = origin, effect_eligible = (origin = OriginNative), ord_version = 1,
         ord_created_at = utc (in_created_at i), ord_updated_at = utc (in_created_at i),
         ord_items = clone_items (in_items i)\<rparr>)"

definition restore :: "order_snapshot \<Rightarrow> order_error + order" where
  "restore s =
     validate
       \<lparr>ord_id = snap_id s, ord_provider = snap_provider s, source_system = snap_source_system s,
        source_key = snap_source_key s, merchant_order_no = snap_merchant_order_no s,
        provider_transaction_no = snap_provider_transaction_no s,
        payer_customer_id = clone_id (snap_payer s), beneficiary_customer_id = clone_id (snap_beneficiary s),
        ord_amount = snap_amount s, refunded_minor = snap_refunded_minor s, ord_status = snap_status s,
        ord_origin = snap_origin s, effect_eligible = snap_effect_eligible s, ord_version = snap_version s,
        ord_created_at = utc (snap_created_at s), ord_updated_at = utc (snap_updated_at s),
        ord_items = clone_items (snap_items s)\<rparr>"

definition snapshot :: "order \<Rightarrow> order_snapshot" where
  "snapshot x =
     \<lparr>snap_id = ord_id x, snap_provider = ord_provider x, snap_source_system = source_system x,
      snap_source_key = source_key x, snap_merchant_order_no = merchant_order_no x,
      snap_provider_transaction_no = provider_transaction_no x,
      snap_payer = clone_id (payer_customer_id x), snap_beneficiary = clone_id (beneficiary_customer_id x),
      snap_amount = ord_amount x, snap_refunded_minor = refunded_minor x, snap_status = ord_status x,
      snap_items = clone_items (ord_items x), snap_origin = ord_origin x,
      snap_effect_eligible = effect_eligible x, snap_profit_sharing_required = False,
      snap_version = ord_version x, snap_created_at = ord_created_at x, snap_updated_at = ord_updated_at x\<rparr>"

definition refundable_minor :: "order \<Rightarrow> int64" where
  "refundable_minor x = (if amount_minor (ord_amount x) \<le> refunded_minor x then 0
                         else wrap64 (amount_minor (ord_amount x) - refunded_minor x))"

definition with_verified_provider_transaction :: "order \<Rightarrow> string \<Rightarrow> order_error + order" where
  "with_verified_provider_transaction x reference =
     (if ord_status x \<noteq> OrderPaid \<or> reference = [] \<or> 200 < length reference \<or> reference \<noteq> trim_space reference
      then Inl ErrInvalidSettlement
      else if provider_transaction_no x \<noteq> []
      then (if provider_transaction_no x = reference then Inr x else Inl ErrInvalidSettlement)
      else validate (x\<lparr>provider_transaction_no := reference\<rparr>))"

definition apply_settlement :: "order \<Rightarrow> int64 \<Rightarrow> order_status \<Rightarrow> int64 \<Rightarrow> time \<Rightarrow> order_error + (order \<times> status_event)" where
  "apply_settlement x expected nxt refunded at =
     (if expected \<noteq> ord_version x then Inl ErrVersionConflict
      else if is_zero at \<or> at < ord_updated_at x \<or> \<not> valid_settlement nxt refunded (amount_minor (ord_amount x))
      then Inl ErrInvalidSettlement
      else if nxt = ord_status x \<and> refunded = refunded_minor x
      then Inr (x, \<lparr>ev_from = ord_status x, ev_to = ord_status x, ev_refunded_minor = refunded,
                    ev_version = ord_version x, ev_occurred_at = utc at\<rparr>)
      else if \<not> may_transition (ord_status x) nxt then Inl ErrInvalidTransition
      else (let y = x\<lparr>ord_status := nxt, refunded_minor := refunded,
                      ord_version := next_version (ord_version x), ord_updated_at := utc at\<rparr>
            in Inr (y, \<lparr>ev_from = ord_status x, ev_to = nxt, ev_refunded_minor = refunded,
                        ev_version = ord_version y, ev_occurred_at = ord_updated_at y\<rparr>)))"

definition attribute_historical_payer :: "order \<Rightarrow> int64 \<Rightarrow> int64 \<Rightarrow> time \<Rightarrow> order_error + (order \<times> bool)" where
  "attribute_historical_payer x expected customer at =
     (if ord_origin x \<noteq> OriginHistory \<or> effect_eligible x \<or> expected \<noteq> ord_version x \<or> customer < 1
         \<or> is_zero at \<or> at < ord_updated_at x
      then Inl ErrInvalidOrder
      else case payer_customer_id x of
             Some p \<Rightarrow> (if p = customer then Inr (x, False) else Inl ErrInvalidOrder)
           | None \<Rightarrow>
               (let y = x\<lparr>payer_customer_id := Some customer, ord_version := next_version (ord_version x),
                          ord_updated_at := utc at\<rparr>
                in case validate y of Inl e \<Rightarrow> Inl e | Inr z \<Rightarrow> Inr (z, True)))"

lemmas [operations] = new_order_def restore_def with_verified_provider_transaction_def
  apply_settlement_def attribute_historical_payer_def

section \<open>Settlement commands\<close>

record settlement_command =
  sc_order_id :: int64
  sc_expected_version :: int64
  sc_status :: order_status
  sc_refunded_minor :: int64
  sc_occurred_at :: time
  sc_actor_scope :: string
  sc_idempotency_key :: string

definition settle :: "settlement_command \<Rightarrow> order \<Rightarrow> order_error + order" where
  "settle c x = map_sum id fst
     (apply_settlement x (sc_expected_version c) (sc_status c) (sc_refunded_minor c) (sc_occurred_at c))"

section \<open>Copies and item totals\<close>

lemma clone_id_eq [simp]: "clone_id v = v"
  by (cases v) (simp_all add: clone_id_def)

lemma clone_items_eq [simp]: "clone_items its = its"
  by (simp add: clone_items_def)

definition item_total :: "item_snapshot list \<Rightarrow> int" where
  "item_total its = sum_list (map (\<lambda>it. unit_amount_minor it * quantity it) its)"

lemma good_item:
  assumes "\<not> bad_item acc it" "0 \<le> acc"
  shows "line_amount_minor it = unit_amount_minor it * quantity it"
    and "acc + unit_amount_minor it * quantity it \<le> max_int64"
    and "0 < unit_amount_minor it * quantity it"
proof -
  let ?u = "unit_amount_minor it" and ?q = "quantity it"
  from assms have pos: "0 < ?u" "0 < ?q" and le: "?u \<le> max_int64 div ?q"
    and line: "line_amount_minor it = wrap64 (?u * ?q)"
    and room: "acc \<le> wrap64 (max_int64 - line_amount_minor it)"
    by (auto simp: bad_item_def)
  show prod_pos: "0 < ?u * ?q" using pos by simp
  have "?u * ?q \<le> (max_int64 div ?q) * ?q"
    using le pos by (intro mult_right_mono) auto
  also have "\<dots> \<le> max_int64"
    using pos_mod_sign [OF pos(2), of max_int64] minus_mod_eq_div_mult [of max_int64 ?q] by linarith
  finally have fits: "?u * ?q \<le> max_int64" .
  with prod_pos line show eq: "line_amount_minor it = ?u * ?q" by simp
  with room fits prod_pos show "acc + ?u * ?q \<le> max_int64"
    by (simp add: wrap64_minus)
qed

lemma scan_items_exact:
  assumes "scan_items its seen acc = Some tot" "0 \<le> acc" "acc \<le> max_int64"
  shows "tot = acc + item_total its \<and> tot \<le> max_int64 \<and> distinct (map line_no its)
         \<and> set (map line_no its) \<inter> seen = {}"
  using assms
proof (induction its arbitrary: seen acc)
  case (Cons it its)
  let ?line = "unit_amount_minor it * quantity it"
  from Cons.prems have good: "\<not> bad_item acc it" and new: "line_no it \<notin> seen"
    and rest: "scan_items its (insert (line_no it) seen) (wrap64 (acc + line_amount_minor it)) = Some tot"
    by (auto split: if_splits)
  note g = good_item [OF good \<open>0 \<le> acc\<close>]
  have w: "wrap64 (acc + line_amount_minor it) = acc + ?line"
    using g \<open>0 \<le> acc\<close> by simp
  have "tot = acc + ?line + item_total its \<and> tot \<le> max_int64 \<and> distinct (map line_no its)
        \<and> set (map line_no its) \<inter> insert (line_no it) seen = {}"
    using Cons.IH [OF rest] w g \<open>0 \<le> acc\<close> by simp
  with new show ?case by (auto simp: item_total_def)
qed (simp add: item_total_def)

section \<open>Validity is kept\<close>

lemma validate_ok [simp]: "validate x = Inr y \<longleftrightarrow> valid_order x \<and> y = x"
  by (auto simp: validate_def)

lemma valid_orderD:
  assumes "valid_order x"
  shows "valid_settlement (ord_status x) (refunded_minor x) (amount_minor (ord_amount x))"
    and "1 \<le> amount_minor (ord_amount x)" and "1 \<le> ord_version x"
    and "scan_items (ord_items x) {} 0 = Some (amount_minor (ord_amount x))"
    and "ord_created_at x \<le> ord_updated_at x"
  using assms by (auto simp: valid_order_def)

lemma valid_settlement_bounds: "valid_settlement st r a \<Longrightarrow> 0 \<le> r \<and> r \<le> a"
  by (auto simp: valid_settlement.simps split: if_splits)

text \<open>What the settlement operations keep of a valid order: everything but the version,
  which wraps at the end of its range.\<close>

definition sound_order :: "order \<Rightarrow> bool" where
  "sound_order x \<longleftrightarrow> valid_order (x\<lparr>ord_version := 1\<rparr>)"

lemma valid_order_sound: "valid_order x \<longleftrightarrow> sound_order x \<and> 1 \<le> ord_version x"
  by (auto simp: sound_order_def valid_order_def)

lemma valid_order_settled:
  assumes "valid_order (x\<lparr>ord_version := 1\<rparr>)" "valid_settlement st r (amount_minor (ord_amount x))"
    "ord_updated_at x \<le> t"
  shows "valid_order (x\<lparr>ord_status := st, refunded_minor := r, ord_updated_at := t, ord_version := 1\<rparr>)"
  using assms unfolding valid_order_def by simp

lemma apply_settlement_sound:
  "sound_order x \<Longrightarrow> apply_settlement x v st r at = Inr (y, e) \<Longrightarrow> sound_order y"
  by (auto simp: apply_settlement_def sound_order_def Let_def split: if_splits intro!: valid_order_settled)

lemma settle_sound: "sound_order x \<Longrightarrow> settle c x = Inr y \<Longrightarrow> sound_order y"
  by (auto simp: settle_def map_sum_def split: sum.splits intro: apply_settlement_sound)

text \<open>The facts a settlement freezes, and the order in which statuses follow each other.\<close>

definition frozen_facts :: "order \<Rightarrow> order \<Rightarrow> bool" where
  "frozen_facts x y \<longleftrightarrow>
     ord_items y = ord_items x \<and> ord_amount y = ord_amount x \<and> ord_provider y = ord_provider x
     \<and> payer_customer_id y = payer_customer_id x \<and> beneficiary_customer_id y = beneficiary_customer_id x
     \<and> ord_origin y = ord_origin x \<and> ord_updated_at x \<le> ord_updated_at y
     \<and> may_transition\<^sup>*\<^sup>* (ord_status x) (ord_status y)"

lemma apply_settlement_frozen: "apply_settlement x v st r at = Inr (y, e) \<Longrightarrow> frozen_facts x y"
  by (auto simp: apply_settlement_def frozen_facts_def Let_def split: if_splits)

lemma settle_frozen: "settle c x = Inr y \<Longrightarrow> frozen_facts x y"
  by (auto simp: settle_def map_sum_def split: sum.splits intro: apply_settlement_frozen)

fun status_rank :: "order_status \<Rightarrow> nat" where
  "status_rank OrderPendingPayment = 0"
| "status_rank OrderPaid = 1"
| "status_rank OrderPartiallyRefunded = 2"
| "status_rank _ = 3"

interpretation order_cas: cas ord_version sc_expected_version settle
  by unfold_locales
    (auto simp: settle_def apply_settlement_def map_sum_def Let_def split: if_splits)

interpretation order_history: monotone_history settle sound_order frozen_facts
  by unfold_locales
    (auto simp: frozen_facts_def intro: settle_sound dest: settle_frozen)

interpretation order_lifecycle: ranked may_transition status_rank
proof unfold_locales
  fix p q
  show "may_transition p q \<Longrightarrow> p = q \<or> status_rank p < status_rank q"
    by (cases p) auto
qed

definition final_status :: "order_status \<Rightarrow> bool" where
  "final_status st \<longleftrightarrow> (\<forall>q \<in> {OrderPendingPayment, OrderPaid, OrderPartiallyRefunded, OrderRefunded,
     OrderCancelled, OrderPaymentFailed, OrderClosed}. \<not> may_transition st q)"

lemma final_status_no_transition: "final_status st \<Longrightarrow> \<not> may_transition st q"
  by (cases st; cases q) (auto simp: final_status_def)

lemma settle_final: "final_status (ord_status x) \<Longrightarrow> settle c x = Inr y \<Longrightarrow> y = x"
  by (auto simp: settle_def apply_settlement_def map_sum_def Let_def final_status_no_transition split: if_splits)

section \<open>Properties\<close>

text \<open>A concrete order for the witnesses: one line of two units, native, paid by customer 7.\<close>

definition sample_item :: item_snapshot where
  "sample_item = \<lparr>line_no = 1, product_id = Some 5, product_version = Some 1, product_code = ''P5'',
     product_name = ''Plan'', unit_amount_minor = 600, quantity = 2, line_amount_minor = 1200\<rparr>"

definition sample_input :: new_order_input where
  "sample_input = \<lparr>in_provider = ProviderWeChatPay, in_source_system = ''h5'', in_source_key = '' K1'',
     in_merchant_order_no = ''M1'', in_provider_transaction_no = [], in_payer = Some 7, in_beneficiary = Some 8,
     in_amount = \<lparr>amount_minor = 1200, currency = ''CNY''\<rparr>, in_items = [sample_item],
     in_record_origin = OriginOther [], in_effect_eligible = False, in_created_at = 100\<rparr>"

definition sample_order :: order where
  "sample_order = \<lparr>ord_id = 0, ord_provider = ProviderWeChatPay, source_system = ''h5'', source_key = ''K1'',
     merchant_order_no = ''M1'', provider_transaction_no = [], payer_customer_id = Some 7,
     beneficiary_customer_id = Some 8, ord_amount = \<lparr>amount_minor = 1200, currency = ''CNY''\<rparr>,
     refunded_minor = 0, ord_status = OrderPendingPayment, ord_origin = OriginNative, effect_eligible = True,
     ord_version = 1, ord_created_at = 100, ord_updated_at = 100, ord_items = [sample_item]\<rparr>"

definition sample_settlement :: "int64 \<Rightarrow> order_status \<Rightarrow> int64 \<Rightarrow> settlement_command" where
  "sample_settlement v st r = \<lparr>sc_order_id = 0, sc_expected_version = v, sc_status = st, sc_refunded_minor = r,
     sc_occurred_at = 200, sc_actor_scope = ''worker'', sc_idempotency_key = ''settlement-000001''\<rparr>"

lemma sample_texts [simp]:
  "trim_space ''h5'' = ''h5''" "trim_space ''K1'' = ''K1''"
  "trim_space ''M1'' = ''M1''" "trim_space ''P5'' = ''P5''" "trim_space ''Plan'' = ''Plan''"
  "valid_currency ''CNY''"
  by (simp_all add: ascii_text valid_currency_def)

lemma sample_key [simp]: "trim_space '' K1'' = ''K1''"
  by code_simp

lemma sample_order_valid: "valid_order sample_order"
  by (simp add: sample_order_def sample_item_def valid_order_def valid_order_provider_def
      valid_order_text_def valid_order_id_def valid_settlement.simps bad_item_def)

lemma sample_new_order: "new_order sample_input = Inr sample_order"
  using sample_order_valid by (simp add: new_order_def sample_input_def sample_order_def validate_def)

text \<open>
  Every order the constructors accept is valid and its amount is exactly the sum of
  unit price times quantity over its lines, computed without 64-bit overflow, and no two
  lines share a number.
\<close>

theorem order_total_exact:
  assumes "new_order i = Inr x \<or> restore s = Inr x"
  shows "valid_order x \<and> amount_minor (ord_amount x) = item_total (ord_items x)
         \<and> item_total (ord_items x) \<le> max_int64 \<and> distinct (map line_no (ord_items x))"
proof -
  from assms have "valid_order x" by (auto simp: new_order_def restore_def Let_def)
  with scan_items_exact [OF valid_orderD(4)] show ?thesis by force
qed

theorem order_total_exact_witness:
  "valid_order sample_order \<and> amount_minor (ord_amount sample_order) = 1200 \<and> item_total [sample_item] = 1200"
  using order_total_exact [of sample_input sample_order undefined] sample_new_order
  by (simp add: sample_order_def)

text \<open>
  C30: A snapshot of a valid order restores to the same order, so persistence through
  snapshots neither loses nor invents a fact of the aggregate.
\<close>

theorem restore_snapshot_roundtrip: "valid_order x \<Longrightarrow> restore (snapshot x) = Inr x"
  by (cases x) (simp add: restore_def snapshot_def)

theorem restore_snapshot_roundtrip_witness: "restore (snapshot sample_order) = Inr sample_order"
  using restore_snapshot_roundtrip [OF sample_order_valid] .

text \<open>
  C28: Whatever settlement commands are sent to a valid order, accepted or refused, the
  refunded amount stays between zero and the order's amount and agrees with the status,
  items, amount and parties never change, time does not run backwards, and the status has
  only followed allowed transitions.
\<close>

theorem settlement_history_sound:
  assumes "valid_order x"
  shows "let y = run_history settle cs x in
           sound_order y \<and> frozen_facts x y
           \<and> 0 \<le> refunded_minor y \<and> refunded_minor y \<le> amount_minor (ord_amount x)
           \<and> refundable_minor y + refunded_minor y = amount_minor (ord_amount x)
           \<and> valid_settlement (ord_status y) (refunded_minor y) (amount_minor (ord_amount x))"
proof -
  let ?y = "run_history settle cs x"
  have s: "sound_order x" using assms by (simp add: valid_order_sound)
  have y: "sound_order ?y" "frozen_facts x ?y"
    using order_history.history_inv [OF s] order_history.history_rel [OF s] by blast+
  have amt: "ord_amount ?y = ord_amount x" using y(2) by (simp add: frozen_facts_def)
  have "amount_minor (ord_amount x) \<le> max_int64"
    using scan_items_exact [OF valid_orderD(4) [OF assms]] by simp
  moreover have vs: "valid_settlement (ord_status ?y) (refunded_minor ?y) (amount_minor (ord_amount x))"
    using valid_orderD(1) [OF y(1) [unfolded sound_order_def]] amt by simp
  ultimately show ?thesis
    using y valid_settlement_bounds [OF vs] amt by (auto simp: Let_def refundable_minor_def)
qed

theorem settlement_history_sound_witness:
  "refunded_minor (run_history settle
     [sample_settlement 1 OrderPaid 0, sample_settlement 1 OrderRefunded 1200,
      sample_settlement 2 OrderPartiallyRefunded 500] sample_order) = 500
   \<and> sound_order (run_history settle
     [sample_settlement 1 OrderPaid 0, sample_settlement 1 OrderRefunded 1200,
      sample_settlement 2 OrderPartiallyRefunded 500] sample_order)"
  using settlement_history_sound [OF sample_order_valid, of "[sample_settlement 1 OrderPaid 0,
      sample_settlement 1 OrderRefunded 1200, sample_settlement 2 OrderPartiallyRefunded 500]"]
  by (simp add: Let_def settle_def apply_settlement_def sample_settlement_def sample_order_def valid_settlement.simps)

text \<open>
  A refunded, cancelled, failed or closed order is final: no sequence of settlement
  commands changes it in any way.
\<close>

theorem final_order_unchanged:
  assumes "ord_status x \<in> {OrderRefunded, OrderCancelled, OrderPaymentFailed, OrderClosed}"
  shows "run_history settle cs x = x"
proof -
  from assms have "final_status (ord_status x)" by (auto simp: final_status_def)
  then show ?thesis by (induction cs) (auto dest: settle_final split: sum.split)
qed

theorem final_order_unchanged_witness:
  "run_history settle [sample_settlement 1 OrderPaid 0] (sample_order\<lparr>ord_status := OrderClosed\<rparr>)
   = sample_order\<lparr>ord_status := OrderClosed\<rparr>"
  by (rule final_order_unchanged) simp

text \<open>
  Two settlements prepared from the same version of an order cannot both change it: if
  the first is accepted with a new version, the second is refused with a version conflict.
\<close>

theorem settlement_no_lost_update:
  assumes "settle c x = Inr y" "ord_version y \<noteq> ord_version x" "sc_expected_version d = ord_version x"
  shows "settle d y = Inl ErrVersionConflict"
  using order_cas.no_lost_update [OF assms] assms(2,3)
  by (simp add: settle_def apply_settlement_def)

theorem settlement_no_lost_update_witness:
  "settle (sample_settlement 1 OrderCancelled 0)
     (sample_order\<lparr>ord_status := OrderPaid, ord_version := 2, ord_updated_at := 200\<rparr>) = Inl ErrVersionConflict"
  by (rule settlement_no_lost_update [where c = "sample_settlement 1 OrderPaid 0" and x = sample_order])
    (simp_all add: settle_def apply_settlement_def sample_settlement_def sample_order_def valid_settlement.simps)

end
