(* ===== verification/Go_Json.thy ===== *)
theory Go_Json
  imports Go_Strings
begin

text \<open>
  \<open>json.Valid\<close> of Go's standard library as a recursive-descent checker on bytes. The fuel is
  one more than twice the length of the text, which every call chain stays below: each call
  of \<open>json_value\<close> is followed by the consumption of a byte before the next one
  (\<open>json_fuel_enough\<close>). The first number a checker takes is its fuel, the second the
  containers it may still open: the scanner gives up beyond \<open>max_nesting\<close>.
\<close>

definition json_space :: "char \<Rightarrow> bool" where
  "json_space c \<longleftrightarrow> byte c = 32 \<or> byte c = 9 \<or> byte c = 10 \<or> byte c = 13"

definition skip_space :: "string \<Rightarrow> string" where
  "skip_space = dropWhile json_space"

definition json_hex :: "char \<Rightarrow> bool" where
  "json_hex c \<longleftrightarrow> is_digit c \<or> 97 \<le> byte c \<and> byte c \<le> 102 \<or> 65 \<le> byte c \<and> byte c \<le> 70"

text \<open>The rest of a string literal after its opening quote. Bytes from 32 up are accepted as
  they are; 92 is the backslash, 34 the quote.\<close>

fun json_string :: "string \<Rightarrow> string option" where
  "json_string [] = None"
| "json_string (c # s) =
     (if byte c = 34 then Some s
      else if byte c = 92 then
        (case s of
           [] \<Rightarrow> None
         | d # t \<Rightarrow>
             if d = CHR ''u'' then
               (case t of
                  h1 # h2 # h3 # h4 # r \<Rightarrow>
                    if json_hex h1 \<and> json_hex h2 \<and> json_hex h3 \<and> json_hex h4 then json_string r else None
                | _ \<Rightarrow> None)
             else if byte d \<in> {34, 92, 47, 98, 102, 110, 114, 116} then json_string t
             else None)
      else if byte c < 32 then None
      else json_string s)"

definition json_digits1 :: "string \<Rightarrow> string option" where
  "json_digits1 s = (case s of c # t \<Rightarrow> if is_digit c then Some (dropWhile is_digit t) else None | [] \<Rightarrow> None)"

definition drop_byte :: "char \<Rightarrow> string \<Rightarrow> string option" where
  "drop_byte c s = (case s of d # t \<Rightarrow> if d = c then Some t else None | [] \<Rightarrow> None)"

definition json_integer :: "string \<Rightarrow> string option" where
  "json_integer s = (case drop_byte CHR ''0'' s of Some t \<Rightarrow> Some t | None \<Rightarrow> json_digits1 s)"

definition json_fraction :: "string \<Rightarrow> string option" where
  "json_fraction s = (case drop_byte CHR ''.'' s of Some t \<Rightarrow> json_digits1 t | None \<Rightarrow> Some s)"

definition json_exponent :: "string \<Rightarrow> string option" where
  "json_exponent s =
     (case s of
        c # t \<Rightarrow> if c = CHR ''e'' \<or> c = CHR ''E''
                 then json_digits1 (case t of d # u \<Rightarrow> if d = CHR ''+'' \<or> d = CHR ''-'' then u else t | [] \<Rightarrow> t)
                 else Some s
      | [] \<Rightarrow> Some s)"

definition json_number :: "string \<Rightarrow> string option" where
  "json_number s =
     Option.bind (json_integer (case drop_byte CHR ''-'' s of Some t \<Rightarrow> t | None \<Rightarrow> s))
       (\<lambda>r. Option.bind (json_fraction r) json_exponent)"

definition json_literal :: "string \<Rightarrow> string \<Rightarrow> string option" where
  "json_literal w s = (if take (length w) s = w then Some (drop (length w) s) else None)"

text \<open>The key of a member up to its colon, and what follows a value in a container.\<close>

definition json_key :: "string \<Rightarrow> string option" where
  "json_key s =
     (case skip_space s of
        [] \<Rightarrow> None
      | q # t \<Rightarrow> if byte q = 34 then Option.bind (json_string t) (\<lambda>r. drop_byte CHR '':'' (skip_space r)) else None)"

definition json_next :: "char \<Rightarrow> (string \<Rightarrow> string option) \<Rightarrow> string \<Rightarrow> string option" where
  "json_next close rest s =
     (case skip_space s of
        [] \<Rightarrow> None
      | d # t \<Rightarrow> if d = CHR '','' then rest t else if d = close then Some t else None)"

definition max_nesting :: int where [limits]: "max_nesting = 10000"

fun json_value :: "nat \<Rightarrow> int \<Rightarrow> string \<Rightarrow> string option"
  and json_members :: "nat \<Rightarrow> int \<Rightarrow> string \<Rightarrow> string option"
  and json_elements :: "nat \<Rightarrow> int \<Rightarrow> string \<Rightarrow> string option" where
  "json_value 0 d s = None"
| "json_value (Suc n) d s =
     (case skip_space s of
        [] \<Rightarrow> None
      | c # t \<Rightarrow>
          if c = CHR ''{'' then
            (if d \<le> 0 then None else
             case drop_byte CHR ''}'' (skip_space t) of Some r \<Rightarrow> Some r | None \<Rightarrow> json_members n (d - 1) t)
          else if c = CHR ''['' then
            (if d \<le> 0 then None else
             case drop_byte CHR '']'' (skip_space t) of Some r \<Rightarrow> Some r | None \<Rightarrow> json_elements n (d - 1) t)
          else if byte c = 34 then json_string t
          else if c = CHR ''t'' then json_literal ''rue'' t
          else if c = CHR ''f'' then json_literal ''alse'' t
          else if c = CHR ''n'' then json_literal ''ull'' t
          else json_number (c # t))"
| "json_members 0 d s = None"
| "json_members (Suc n) d s =
     Option.bind (json_key s) (\<lambda>v. Option.bind (json_value n d v) (\<lambda>r. json_next CHR ''}'' (\<lambda>m. json_members n d m) r))"
| "json_elements 0 d s = None"
| "json_elements (Suc n) d s =
     Option.bind (json_value n d s) (\<lambda>r. json_next CHR '']'' (\<lambda>m. json_elements n d m) r)"

definition json_valid :: "string \<Rightarrow> bool" where
  "json_valid s = (case json_value (2 * length s + 1) max_nesting s of None \<Rightarrow> False | Some r \<Rightarrow> skip_space r = [])"

section \<open>Rests are shorter, and the fuel is enough\<close>

lemma skip_space_le: "length (skip_space s) \<le> length s"
  by (simp add: skip_space_def length_dropWhile_le)

lemma skip_space_less: "skip_space s = c # t \<Longrightarrow> length t < length s"
  using skip_space_le [of s] by simp

lemma drop_byte_less: "drop_byte c s = Some t \<Longrightarrow> length t < length s"
  by (auto simp: drop_byte_def split: list.splits if_splits)

lemma drop_byte_skip_less: "drop_byte c (skip_space s) = Some t \<Longrightarrow> length t < length s"
  using drop_byte_less [of c "skip_space s" t] skip_space_le [of s] by simp

lemma json_string_le: "json_string s = Some r \<Longrightarrow> length r < length s"
  by (induction s rule: json_string.induct) (auto split: if_splits list.splits, fastforce)

lemma json_digits1_le: "json_digits1 s = Some r \<Longrightarrow> length r < length s"
  by (auto simp: json_digits1_def le_imp_less_Suc length_dropWhile_le split: list.splits if_splits)

lemma json_integer_le: "json_integer s = Some r \<Longrightarrow> length r < length s"
  by (auto simp: json_integer_def dest: json_digits1_le drop_byte_less split: option.splits)

lemma json_fraction_le: "json_fraction s = Some r \<Longrightarrow> length r \<le> length s"
  by (auto simp: json_fraction_def dest!: json_digits1_le drop_byte_less split: option.splits)

lemma json_exponent_le: "json_exponent s = Some r \<Longrightarrow> length r \<le> length s"
  by (auto simp: json_exponent_def dest!: json_digits1_le split: list.splits if_splits)

lemma json_number_le: "json_number s = Some r \<Longrightarrow> length r < length s"
  by (auto simp: json_number_def dest!: json_integer_le json_fraction_le json_exponent_le drop_byte_less
      split: Option.bind_splits option.splits)

lemma json_literal_le: "json_literal w s = Some r \<Longrightarrow> length r \<le> length s"
  by (auto simp: json_literal_def split: if_splits)

lemma json_key_less: "json_key s = Some v \<Longrightarrow> length v < length s"
  by (auto simp: json_key_def Option.bind_eq_Some_conv split: list.splits if_splits
      dest!: skip_space_less json_string_le drop_byte_skip_less)

lemma json_next_less:
  "json_next c f s = Some r \<Longrightarrow> (\<And>t r. f t = Some r \<Longrightarrow> length r < length t) \<Longrightarrow> length r < length s"
  by (fastforce simp: json_next_def split: list.splits if_splits dest: skip_space_less)

lemma json_next_cong:
  "(\<And>t. length t < length s \<Longrightarrow> f t = g t) \<Longrightarrow> json_next c f s = json_next c g s"
  by (auto simp: json_next_def dest: skip_space_less split: list.split)

lemma json_shorter_value:
  assumes v: "json_value (Suc n) d s = Some r"
    and m: "\<And>t r. json_members n (d - 1) t = Some r \<Longrightarrow> length r < length t"
    and e: "\<And>t r. json_elements n (d - 1) t = Some r \<Longrightarrow> length r < length t"
  shows "length r < length s"
proof (cases "skip_space s")
  case (Cons c t)
  note less = skip_space_less [OF Cons]
  have num: "json_number (c # t) = Some r \<Longrightarrow> length r < length s"
    using json_number_le [of "c # t" r] less by simp
  have "length r < length s \<or> json_number (c # t) = Some r"
    using v Cons less drop_byte_skip_less [of _ t r] m [of t r] e [of t r] json_string_le [of t r]
      json_literal_le [of _ t r]
    by (fastforce split: if_splits option.splits)
  with num show ?thesis by blast
qed (use v in simp)

lemma json_shorter:
  "(\<forall>d s r. json_value n d s = Some r \<longrightarrow> length r < length s)
   \<and> (\<forall>d s r. json_members n d s = Some r \<longrightarrow> length r < length s)
   \<and> (\<forall>d s r. json_elements n d s = Some r \<longrightarrow> length r < length s)"
proof (induction n)
  case (Suc n)
  then have v: "\<And>d s r. json_value n d s = Some r \<Longrightarrow> length r < length s"
    and m: "\<And>d s r. json_members n d s = Some r \<Longrightarrow> length r < length s"
    and e: "\<And>d s r. json_elements n d s = Some r \<Longrightarrow> length r < length s"
    by blast+
  have "length r < length s" if "json_members (Suc n) d s = Some r" for d s r
    using that v m by (fastforce simp: Option.bind_eq_Some_conv dest!: json_key_less json_next_less)
  moreover have "length r < length s" if "json_elements (Suc n) d s = Some r" for d s r
    using that v e by (fastforce simp: Option.bind_eq_Some_conv dest!: json_next_less)
  ultimately show ?case using json_shorter_value [of n] v m e by blast
qed simp

lemma json_fuel_step:
  "(\<forall>d s. 2 * length s + 1 \<le> n \<longrightarrow> json_value (Suc n) d s = json_value n d s)
   \<and> (\<forall>d s. 2 * length s + 2 \<le> n \<longrightarrow> json_members (Suc n) d s = json_members n d s)
   \<and> (\<forall>d s. 2 * length s + 2 \<le> n \<longrightarrow> json_elements (Suc n) d s = json_elements n d s)"
proof (induction n)
  case (Suc n)
  then have v: "\<And>d s. 2 * length s + 1 \<le> n \<Longrightarrow> json_value (Suc n) d s = json_value n d s"
    and m: "\<And>d s. 2 * length s + 2 \<le> n \<Longrightarrow> json_members (Suc n) d s = json_members n d s"
    and e: "\<And>d s. 2 * length s + 2 \<le> n \<Longrightarrow> json_elements (Suc n) d s = json_elements n d s"
    by blast+
  note short = json_shorter [of n]
  have "json_value (Suc (Suc n)) d s = json_value (Suc n) d s" if "2 * length s + 1 \<le> Suc n" for d s
  proof (cases "skip_space s")
    case (Cons c t)
    from skip_space_less [OF Cons] that have "2 * length t + 2 \<le> n" by simp
    with m e have "json_members (Suc n) (d - 1) t = json_members n (d - 1) t" "json_elements (Suc n) (d - 1) t = json_elements n (d - 1) t"
      by blast+
    with Cons show ?thesis unfolding json_value.simps(2) by (simp only: list.case)
  qed simp
  moreover have "json_members (Suc (Suc n)) d s = json_members (Suc n) d s" if le: "2 * length s + 2 \<le> Suc n" for d s
    unfolding json_members.simps(2) [of "Suc n" d s] json_members.simps(2) [of n d s]
  proof (rule Option.bind_cong [OF refl])
    fix w assume "json_key s = Some w"
    from json_key_less [OF this] le have w: "2 * length w + 2 \<le> n" by simp
    show "Option.bind (json_value (Suc n) d w) (\<lambda>r. json_next CHR ''}'' (\<lambda>m. json_members (Suc n) d m) r)
        = Option.bind (json_value n d w) (\<lambda>r. json_next CHR ''}'' (\<lambda>m. json_members n d m) r)"
    proof (rule Option.bind_cong)
      fix r assume "json_value n d w = Some r"
      with short w have "2 * length r + 2 \<le> n" by fastforce
      then show "json_next CHR ''}'' (\<lambda>m. json_members (Suc n) d m) r = json_next CHR ''}'' (\<lambda>m. json_members n d m) r"
        by (intro json_next_cong m) simp
    qed (use v w in simp)
  qed
  moreover have "json_elements (Suc (Suc n)) d s = json_elements (Suc n) d s" if le: "2 * length s + 2 \<le> Suc n" for d s
    unfolding json_elements.simps(2) [of "Suc n" d s] json_elements.simps(2) [of n d s]
  proof (rule Option.bind_cong)
    fix r assume "json_value n d s = Some r"
    with short have "length r < length s" by blast
    with le show "json_next CHR '']'' (\<lambda>m. json_elements (Suc n) d m) r = json_next CHR '']'' (\<lambda>m. json_elements n d m) r"
      by (intro json_next_cong e) simp
  qed (use v le in simp)
  ultimately show ?case by blast
qed simp

lemma json_fuel_enough:
  "2 * length s + 1 \<le> n \<Longrightarrow> json_value n d s = json_value (2 * length s + 1) d s"
proof (induction n rule: nat_induct_at_least)
  case (Suc n)
  then show ?case using json_fuel_step [of n] by (simp del: json_value.simps)
qed simp

end
