(* ===== verification/Go_Sha256.thy ===== *)
theory Go_Sha256
  imports Go_Strings
begin

unbundle bit_operations_syntax

text \<open>
  \<open>crypto/sha256\<close> and \<open>encoding/hex\<close> of Go's standard library, executable, on strings of
  bytes. The kernel of external effects addresses every command by such a digest. The
  lemmas give the shape of a digest: 32 bytes, 64 hexadecimal characters.
\<close>

section \<open>SHA-256\<close>

type_synonym word32 = "32 word"

text \<open>The constants are the leading 32 bits of the fractional parts of the cube roots of the
  first 64 primes (rounds) and of the square roots of the first eight (initial state); they
  are computed here by bisection on integer roots.\<close>

fun root_floor :: "nat \<Rightarrow> nat \<Rightarrow> int \<Rightarrow> int \<Rightarrow> int" where
  "root_floor 0 e n r = r"
| "root_floor (Suc k) e n r = root_floor k e n (if (r + 2 ^ k) ^ e \<le> n then r + 2 ^ k else r)"

definition is_prime_nat :: "nat \<Rightarrow> bool" where
  "is_prime_nat p \<longleftrightarrow> 2 \<le> p \<and> list_all (\<lambda>d. p mod d \<noteq> 0) [2..<p]"

definition small_primes :: "nat list" where
  "small_primes = filter is_prime_nat [2..<312]"

definition root_word :: "nat \<Rightarrow> nat \<Rightarrow> word32" where
  "root_word e p = word_of_int (root_floor 40 e (int p * 2 ^ (32 * e)) 0)"

definition sha256_k :: "word32 list" where
  "sha256_k = map (root_word 3) small_primes"

definition sha256_h0 :: "word32 list" where
  "sha256_h0 = map (\<lambda>i. root_word 2 (small_primes ! i)) [0..<8]"

definition rotr32 :: "nat \<Rightarrow> word32 \<Rightarrow> word32" where
  "rotr32 n x = drop_bit n x OR push_bit (32 - n) x"

definition big_sigma0 :: "word32 \<Rightarrow> word32" where
  "big_sigma0 x = rotr32 2 x XOR rotr32 13 x XOR rotr32 22 x"

definition big_sigma1 :: "word32 \<Rightarrow> word32" where
  "big_sigma1 x = rotr32 6 x XOR rotr32 11 x XOR rotr32 25 x"

definition small_sigma0 :: "word32 \<Rightarrow> word32" where
  "small_sigma0 x = rotr32 7 x XOR rotr32 18 x XOR drop_bit 3 x"

definition small_sigma1 :: "word32 \<Rightarrow> word32" where
  "small_sigma1 x = rotr32 17 x XOR rotr32 19 x XOR drop_bit 10 x"

text \<open>The schedule of a block, newest word first.\<close>

fun extend_schedule :: "nat \<Rightarrow> word32 list \<Rightarrow> word32 list" where
  "extend_schedule 0 w = w"
| "extend_schedule (Suc n) w =
     extend_schedule n ((small_sigma1 (w ! 1) + w ! 6 + small_sigma0 (w ! 14) + w ! 15) # w)"

fun sha256_round :: "word32 \<times> word32 \<Rightarrow> word32 list \<Rightarrow> word32 list" where
  "sha256_round (k, w) [a, b, c, d, e, f, g, h] =
     (let t1 = h + big_sigma1 e + ((e AND f) XOR (NOT e AND g)) + k + w;
          t2 = big_sigma0 a + ((a AND b) XOR (a AND c) XOR (b AND c))
      in [t1 + t2, a, b, c, d + t1, e, f, g])"
| "sha256_round _ st = st"

definition sha256_block :: "word32 list \<Rightarrow> word32 list \<Rightarrow> word32 list" where
  "sha256_block st block =
     map2 (+) st (fold sha256_round (zip sha256_k (rev (extend_schedule 48 (rev block)))) st)"

definition word_of_bytes :: "nat list \<Rightarrow> word32" where
  "word_of_bytes bs = foldl (\<lambda>w b. 256 * w + of_nat b) 0 bs"

fun chunks :: "nat \<Rightarrow> 'a list \<Rightarrow> 'a list list" where
  "chunks n xs = (if xs = [] \<or> n = 0 then [] else take n xs # chunks n (drop n xs))"
declare chunks.simps [simp del]

definition big_endian :: "nat \<Rightarrow> int \<Rightarrow> nat list" where
  "big_endian k n = map (\<lambda>i. nat ((n div 256 ^ (k - 1 - i)) mod 256)) [0..<k]"

definition sha256_pad :: "nat list \<Rightarrow> nat list" where
  "sha256_pad m = m @ [128] @ replicate ((119 - length m mod 64) mod 64) 0 @ big_endian 8 ((8 * int (length m)) mod 2 ^ 64)"

definition sha256 :: "string \<Rightarrow> string" where
  "sha256 s =
     (let words = map word_of_bytes (chunks 4 (sha256_pad (map byte s)));
          h = foldl sha256_block sha256_h0 (chunks 16 words)
      in map char_of (concat (map (\<lambda>w. big_endian 4 (uint w)) h)))"

section \<open>Hexadecimal\<close>

definition hex_digit :: "nat \<Rightarrow> char" where
  "hex_digit d = (if d < 10 then char_of (48 + d) else char_of (87 + d))"

definition hex_encode :: "string \<Rightarrow> string" where
  "hex_encode s = concat (map (\<lambda>c. [hex_digit (byte c div 16), hex_digit (byte c mod 16)]) s)"

text \<open>\<open>hex.DecodeString\<close> succeeds on an even number of digits of either case.\<close>

definition is_hex :: "char \<Rightarrow> bool" where
  "is_hex c \<longleftrightarrow> (let b = byte c in 48 \<le> b \<and> b \<le> 57 \<or> 97 \<le> b \<and> b \<le> 102 \<or> 65 \<le> b \<and> b \<le> 70)"

definition hex_decodable :: "string \<Rightarrow> bool" where
  "hex_decodable s \<longleftrightarrow> even (length s) \<and> list_all is_hex s"

section \<open>The shape of a digest\<close>

lemma length_big_endian [simp]: "length (big_endian k n) = k"
  by (simp add: big_endian_def)

lemma length_sha256_round [simp]: "length (sha256_round kw st) = length st"
  by (cases "(kw, st)" rule: sha256_round.cases) (simp_all add: Let_def)

lemma length_fold_round [simp]: "length (fold sha256_round kws st) = length st"
  by (induction kws arbitrary: st) auto

lemma length_sha256_block [simp]: "length (sha256_block st b) = length st"
  by (simp add: sha256_block_def)

lemma length_foldl_block [simp]: "length (foldl sha256_block st bs) = length st"
  by (induction bs arbitrary: st) auto

lemma length_concat_const: "(\<And>x. x \<in> set xs \<Longrightarrow> length (f x) = k) \<Longrightarrow> length (concat (map f xs)) = k * length xs"
  by (induction xs) auto

lemma length_sha256 [simp]: "length (sha256 s) = 32"
  by (simp add: sha256_def Let_def length_concat_const [where k = 4] sha256_h0_def)

lemma length_hex_encode [simp]: "length (hex_encode s) = 2 * length s"
  by (simp add: hex_encode_def length_concat_const [where k = 2])

lemma is_hex_digit: "d < 16 \<Longrightarrow> is_hex (hex_digit d)"
  by (auto simp: is_hex_def hex_digit_def byte_def Let_def take_bit_eq_mod)

lemma hex_encode_hex: "list_all is_hex (hex_encode s)"
proof -
  have "is_hex (hex_digit (byte c div 16))" "is_hex (hex_digit (byte c mod 16))" for c
    using byte_less [of c] by (auto intro!: is_hex_digit simp: less_mult_imp_div_less)
  then show ?thesis by (induction s) (auto simp: hex_encode_def)
qed

lemma hex_decodable_encode [simp]: "hex_decodable (hex_encode s)"
  by (simp add: hex_decodable_def hex_encode_hex)

end
