(* ===== verification/Order_Service.thy ===== *)
theory Order_Service
  imports Order_Domain Go_Json Go_Sha256
begin

text \<open>
  The settlement path of the order application service (\<open>internal/order/app/service.go\<close>) on
  the rows of its PostgreSQL store (\<open>internal/order/store\<close>): a verified payment, failure or
  refund is applied to the order under its row lock, the status history, audit and outbox
  facts are appended, and the coupon, entitlement, paid-event and refund-event participants
  are called, all in one unit of work.

  A unit of work is a function from the store to an error (the transaction rolls back, the
  store is as before) or to the result and the new store. The participants are interfaces:
  what the service asks of them is the list \<open>os_calls\<close> of the calls it made, and whether a
  call fails is the parameter \<open>participant_error\<close>. Of a row's columns the model keeps those
  of the domain snapshot; the outbox and audit payloads repeat columns of the same row.
\<close>

section \<open>Data\<close>

datatype service_error = SvcConflict | SvcNotFound | SvcUnavailable | SvcParticipant string

record checkout_snapshot =
  co_order_id :: int64
  co_product_type :: string
  co_product_id :: int64
  co_product_code :: string
  co_product_name :: string
  co_product_version :: int64
  co_duration_days :: int32
  co_gross_minor :: int64
  co_discount_minor :: int64
  co_payable_minor :: int64
  co_currency :: string
  co_coupon_applied :: bool
  co_reservation_ref :: string
  co_coupon_claim_id :: int64
  co_coupon_id :: int64
  co_coupon_rule_version :: int64
  co_profit_sharing_required :: bool
  co_activity_digest :: string
  co_promotion_digest :: string
  co_post_purchase_action :: string
  co_reserved_at :: time

record payment_settlement =
  ps_order_id :: int64
  ps_refunded_delta :: int64
  ps_failed :: bool
  ps_provider_transaction_no :: string
  ps_occurred_at :: time
  ps_receipt_key :: string

record paid_event =
  pe_id :: int64
  pe_order_id :: int64
  pe_order_version :: int64
  pe_outbox_id :: int64
  pe_checkout_product_id :: int64
  pe_checkout_gross_minor :: int64
  pe_checkout_payable_minor :: int64
  pe_checkout_product_type :: string
  pe_activity_digest :: string
  pe_promotion_digest :: string
  pe_occurred_at :: time
  pe_source_digest :: string
  pe_order :: order_snapshot

record refund_event =
  re_order :: order_snapshot
  re_refunded_delta :: int64
  re_checkout_product_id :: int64
  re_checkout_product_type :: string
  re_occurred_at :: time
  re_receipt_key :: string

text \<open>The calls the service makes on the coupon and entitlement coordinators and on the paid
  and refund event consumers, with the fields of the command each call carries.\<close>

datatype participant_call =
  CouponRelease string string string string string time
| CouponConsume string string int64 string string string time
| EntitlementRefund int64 int64 time
| EntitlementGrant int64 int64 int64 string int32 time time
| PaidEventConsumed paid_event
| RefundConsumed refund_event

record status_row =
  sr_order_id :: int64
  sr_from :: "order_status option"
  sr_to :: order_status
  sr_refunded_minor :: int64
  sr_order_version :: int64
  sr_actor_scope :: string
  sr_occurred_at :: time

record audit_row =
  ar_event_type :: string
  ar_order_id :: int64
  ar_actor_scope :: string
  ar_occurred_at :: time

record outbox_row =
  ob_id :: int64
  ob_event_type :: string
  ob_key :: string
  ob_aggregate_id :: int64
  ob_occurred_at :: time

record paid_row =
  pr_id :: int64
  pr_order_id :: int64
  pr_order_version :: int64
  pr_source_digest :: string
  pr_occurred_at :: time

record order_store =
  os_orders :: "order_snapshot list"
  os_checkouts :: "int64 \<rightharpoonup> checkout_snapshot"
  os_history :: "status_row list"
  os_audit :: "audit_row list"
  os_outbox :: "outbox_row list"
  os_paid :: "paid_row list"
  os_next_outbox :: int64
  os_next_paid :: int64
  os_calls :: "participant_call list"

record wiring =
  has_coupons :: bool
  has_entitlements :: bool
  has_paid_events :: bool
  has_refund_events :: bool
  clock :: time
  participant_error :: "participant_call \<Rightarrow> string option"

section \<open>Validation and error classes\<close>

definition valid_key :: "string \<Rightarrow> bool" where
  "valid_key s \<longleftrightarrow> s = trim_space s \<and> 16 \<le> length s \<and> length s \<le> 200"

definition valid_scope :: "string \<Rightarrow> bool" where
  "valid_scope s \<longleftrightarrow> s = trim_space s \<and> 1 \<le> length s \<and> length s \<le> 200"

definition valid_payment_product_type :: "string \<Rightarrow> int32 \<Rightarrow> bool" where
  "valid_payment_product_type kind days \<longleftrightarrow>
     kind = ''standard_product'' \<and> days = 0 \<or> kind = ''service_period'' \<and> 0 < days"

definition valid_checkout_snapshot :: "checkout_snapshot \<Rightarrow> bool" where
  "valid_checkout_snapshot c \<longleftrightarrow>
     \<not> (co_order_id c < 1 \<or> co_product_id c < 1 \<or> co_product_code c = [] \<or> 200 < length (co_product_code c)
        \<or> co_product_name c = [] \<or> 500 < length (co_product_name c) \<or> co_product_version c < 1
        \<or> co_gross_minor c < 1 \<or> co_payable_minor c < 1 \<or> co_discount_minor c < 0
        \<or> co_payable_minor c \<noteq> wrap64 (co_gross_minor c - co_discount_minor c) \<or> co_currency c \<noteq> ''CNY''
        \<or> 0 < length (co_post_purchase_action c) \<and> \<not> json_valid (co_post_purchase_action c)
        \<or> 8192 < length (co_post_purchase_action c) \<or> is_zero (co_reserved_at c))
   \<and> \<not> (co_product_type c = ''standard_product'' \<and> co_duration_days c \<noteq> 0
        \<or> co_product_type c = ''service_period'' \<and> co_duration_days c < 1
        \<or> co_product_type c \<noteq> ''standard_product'' \<and> co_product_type c \<noteq> ''service_period'')
   \<and> (if \<not> co_coupon_applied c
      then co_reservation_ref c = [] \<and> co_coupon_claim_id c = 0 \<and> co_coupon_id c = 0
           \<and> co_coupon_rule_version c = 0 \<and> co_discount_minor c = 0 \<and> co_payable_minor c = co_gross_minor c
      else co_reservation_ref c \<noteq> [] \<and> length (co_reservation_ref c) \<le> 240 \<and> 0 < co_coupon_claim_id c
           \<and> 0 < co_coupon_id c \<and> 0 < co_coupon_rule_version c \<and> 0 < co_discount_minor c
           \<and> co_discount_minor c < co_gross_minor c)"

definition paid_event_source_digest :: "int64 \<Rightarrow> int64 \<Rightarrow> string" where
  "paid_event_source_digest i v =
     sha256 (''order.paid.v1'' @ [CHR 0x00] @ format_int i @ [CHR 0x00] @ format_int v)"

definition valid_order_fact :: "paid_event \<Rightarrow> bool" where
  "valid_order_fact e \<longleftrightarrow>
     0 < pe_id e \<and> 0 < pe_order_id e \<and> 0 < pe_order_version e \<and> \<not> is_zero (pe_occurred_at e)
     \<and> pe_source_digest e \<noteq> replicate 32 (CHR 0x00) \<and> snap_id (pe_order e) = pe_order_id e
     \<and> snap_version (pe_order e) = pe_order_version e \<and> snap_origin (pe_order e) = OriginNative
     \<and> snap_effect_eligible (pe_order e) \<and> snap_status (pe_order e) = OrderPaid"

definition valid_paid_event :: "paid_event \<Rightarrow> bool" where
  "valid_paid_event e \<longleftrightarrow>
     valid_order_fact e \<and> 0 < pe_outbox_id e
     \<and> (pe_checkout_product_id e = 0 \<and> pe_checkout_gross_minor e = 0
        \<or> 0 < pe_checkout_product_id e \<and> 0 < pe_checkout_gross_minor e
          \<and> (pe_checkout_product_type e = [] \<or> pe_checkout_product_type e = ''standard_product''
             \<or> pe_checkout_product_type e = ''service_period'')
          \<and> (pe_checkout_payable_minor e = 0 \<or> 0 < pe_checkout_payable_minor e))"

text \<open>\<open>classify\<close> on the errors the domain raises: each of them becomes a conflict.\<close>

fun classify_domain :: "order_error \<Rightarrow> service_error" where
  "classify_domain ErrInvalidOrder = SvcConflict"
| "classify_domain ErrInvalidSettlement = SvcConflict"
| "classify_domain ErrInvalidTransition = SvcConflict"
| "classify_domain ErrVersionConflict = SvcConflict"

section \<open>Rows\<close>

definition order_row :: "order_store \<Rightarrow> int64 \<Rightarrow> order_snapshot option" where
  "order_row st i = find (\<lambda>r. snap_id r = i) (os_orders st)"

definition store_get :: "order_store \<Rightarrow> int64 \<Rightarrow> service_error + order" where
  "store_get st i =
     (if i < 1 then Inl SvcNotFound
      else case order_row st i of
             None \<Rightarrow> Inl SvcNotFound
           | Some row \<Rightarrow> (case restore row of Inl _ \<Rightarrow> Inl SvcUnavailable | Inr x \<Rightarrow> Inr x))"

definition read_checkout_snapshot :: "order_store \<Rightarrow> int64 \<Rightarrow> service_error + checkout_snapshot" where
  "read_checkout_snapshot st i =
     (if i < 1 then Inl SvcNotFound
      else case os_checkouts st i of
             None \<Rightarrow> Inl SvcNotFound
           | Some c \<Rightarrow>
               if length (co_activity_digest c) \<noteq> 32 \<or> length (co_promotion_digest c) \<noteq> 32 then Inl SvcUnavailable
               else if \<not> valid_checkout_snapshot c then Inl SvcUnavailable
               else Inr c)"

text \<open>A PostgreSQL text value is valid UTF-8 without NUL; anything else fails the statement.\<close>

definition pg_text :: "string \<Rightarrow> bool" where
  "pg_text s \<longleftrightarrow> valid_utf8 s \<and> list_all (\<lambda>c. byte c \<noteq> 0) s"

text \<open>\<open>appendFacts\<close> with the constraints of its tables: the actor scope has 1 to 200
  characters, a version of an order has one history row, an outbox key is unique.\<close>

definition append_facts ::
  "order_snapshot \<Rightarrow> order_status option \<Rightarrow> string \<Rightarrow> string \<Rightarrow> time \<Rightarrow> order_store \<Rightarrow> service_error + order_store" where
  "append_facts s frm actor event at st =
     (let key = event @ '':'' @ format_int (snap_id s) @ '':'' @ format_int (snap_version s)
      in if \<not> pg_text actor then Inl SvcUnavailable
         else if rune_count actor < 1 \<or> 200 < rune_count actor then Inl SvcConflict
         else if list_ex (\<lambda>r. sr_order_id r = snap_id s \<and> sr_order_version r = snap_version s) (os_history st)
         then Inl SvcConflict
         else if list_ex (\<lambda>r. ob_key r = key) (os_outbox st) then Inl SvcConflict
         else Inr (st\<lparr>os_history := os_history st @
                        [\<lparr>sr_order_id = snap_id s, sr_from = frm, sr_to = snap_status s,
                          sr_refunded_minor = snap_refunded_minor s, sr_order_version = snap_version s,
                          sr_actor_scope = actor, sr_occurred_at = utc at\<rparr>],
                      os_audit := os_audit st @
                        [\<lparr>ar_event_type = event, ar_order_id = snap_id s, ar_actor_scope = actor,
                          ar_occurred_at = utc at\<rparr>],
                      os_outbox := os_outbox st @
                        [\<lparr>ob_id = os_next_outbox st, ob_event_type = event, ob_key = key,
                          ob_aggregate_id = snap_id s, ob_occurred_at = utc at\<rparr>],
                      os_next_outbox := os_next_outbox st + 1\<rparr>))"

definition settled_row :: "order_snapshot \<Rightarrow> order_snapshot \<Rightarrow> order_snapshot" where
  "settled_row s row = row\<lparr>snap_status := snap_status s, snap_refunded_minor := snap_refunded_minor s,
     snap_provider_transaction_no := snap_provider_transaction_no s, snap_version := snap_version s,
     snap_updated_at := snap_updated_at s\<rparr>"

text \<open>\<open>UPDATE orders SET ... WHERE id = $1 AND version = $7\<close>.\<close>

definition version_hit :: "order_snapshot \<Rightarrow> order_snapshot \<Rightarrow> bool" where
  "version_hit s r \<longleftrightarrow> snap_id r = snap_id s \<and> snap_version r = wrap64 (snap_version s - 1)"

definition write_order :: "order_snapshot \<Rightarrow> order_store \<Rightarrow> order_store" where
  "write_order s st = st\<lparr>os_orders := map (\<lambda>r. if version_hit s r then settled_row s r else r) (os_orders st)\<rparr>"

definition update_settlement ::
  "order \<Rightarrow> status_event \<Rightarrow> string \<Rightarrow> order_store \<Rightarrow> service_error + (order \<times> order_store)" where
  "update_settlement x e actor st =
     (let s = snapshot x
      in if snap_id s < 1 \<or> snap_version s < 2 \<or> actor = [] \<or> ev_version e \<noteq> snap_version s
         then Inl SvcUnavailable
         else if \<not> pg_text (snap_provider_transaction_no s) then Inl SvcUnavailable
         else if \<not> list_ex (version_hit s) (os_orders st) then Inl SvcConflict
         else if snap_provider_transaction_no s \<noteq> []
                 \<and> list_ex (\<lambda>r. snap_id r \<noteq> snap_id s \<and> snap_provider r = snap_provider s
                                \<and> snap_provider_transaction_no r = snap_provider_transaction_no s) (os_orders st)
         then Inl SvcConflict
         else and_then (append_facts s (Some (ev_from e)) actor ''order.status_changed'' (ev_occurred_at e)
                          (write_order s st))
                (\<lambda>st'. case restore s of Inl err \<Rightarrow> Inl (classify_domain err) | Inr y \<Rightarrow> Inr (y, st')))"

section \<open>The paid event\<close>

definition paid_row_of :: "order_store \<Rightarrow> int64 \<Rightarrow> paid_row option" where
  "paid_row_of st i = find (\<lambda>r. pr_order_id r = i) (os_paid st)"

text \<open>The insert with \<open>ON CONFLICT DO NOTHING\<close> and the read of the row that was there: the
  event row, whether it is new, and the store.\<close>

definition claim_paid_row :: "order_snapshot \<Rightarrow> order_store \<Rightarrow> service_error + (paid_row \<times> bool \<times> order_store)" where
  "claim_paid_row s st =
     (let source = paid_event_source_digest (snap_id s) (snap_version s)
      in case paid_row_of st (snap_id s) of
           None \<Rightarrow>
             (let row = \<lparr>pr_id = os_next_paid st, pr_order_id = snap_id s, pr_order_version = snap_version s,
                         pr_source_digest = source, pr_occurred_at = utc (snap_updated_at s)\<rparr>
              in Inr (row, True, st\<lparr>os_paid := os_paid st @ [row], os_next_paid := os_next_paid st + 1\<rparr>))
         | Some row \<Rightarrow>
             if length (pr_source_digest row) \<noteq> 32 \<or> pr_order_version row \<noteq> snap_version s
                \<or> pr_source_digest row \<noteq> source
             then Inl SvcConflict else Inr (row, False, st))"

definition bare_event :: "paid_row \<Rightarrow> order_snapshot \<Rightarrow> paid_event" where
  "bare_event row s =
     \<lparr>pe_id = pr_id row, pe_order_id = pr_order_id row, pe_order_version = pr_order_version row,
      pe_outbox_id = 0, pe_checkout_product_id = 0, pe_checkout_gross_minor = 0, pe_checkout_payable_minor = 0,
      pe_checkout_product_type = [], pe_activity_digest = replicate 32 (CHR 0x00),
      pe_promotion_digest = replicate 32 (CHR 0x00), pe_occurred_at = pr_occurred_at row,
      pe_source_digest = pr_source_digest row, pe_order = s\<rparr>"

definition with_checkout :: "checkout_snapshot \<Rightarrow> paid_event \<Rightarrow> paid_event" where
  "with_checkout c e =
     e\<lparr>pe_checkout_product_id := co_product_id c, pe_checkout_gross_minor := co_gross_minor c,
       pe_checkout_payable_minor := co_payable_minor c, pe_checkout_product_type := co_product_type c,
       pe_activity_digest := co_activity_digest c, pe_promotion_digest := co_promotion_digest c\<rparr>"

text \<open>A missing checkout is not an error for the event.\<close>

definition checkout_or_none :: "order_store \<Rightarrow> int64 \<Rightarrow> service_error + checkout_snapshot option" where
  "checkout_or_none st i =
     (case read_checkout_snapshot st i of
        Inr c \<Rightarrow> Inr (Some c)
      | Inl e \<Rightarrow> if e = SvcNotFound then Inr None else Inl e)"

definition paid_outbox_id :: "bool \<Rightarrow> paid_event \<Rightarrow> order_store \<Rightarrow> service_error + (int64 \<times> order_store)" where
  "paid_outbox_id created e st =
     (let key = ''order.paid.v1:'' @ format_int (pe_id e)
      in if created then
           (if list_ex (\<lambda>r. ob_key r = key) (os_outbox st) then Inl SvcConflict
            else Inr (os_next_outbox st,
                      st\<lparr>os_outbox := os_outbox st @
                           [\<lparr>ob_id = os_next_outbox st, ob_event_type = ''order.paid.v1'', ob_key = key,
                             ob_aggregate_id = pe_order_id e, ob_occurred_at = utc (pe_occurred_at e)\<rparr>],
                         os_next_outbox := os_next_outbox st + 1\<rparr>))
         else (case find (\<lambda>r. ob_event_type r = ''order.paid.v1'' \<and> ob_key r = key
                               \<and> ob_aggregate_id r = pe_order_id e) (os_outbox st) of
                 None \<Rightarrow> Inl SvcConflict
               | Some r \<Rightarrow> Inr (ob_id r, st)))"

definition append_paid_event :: "order_snapshot \<Rightarrow> order_store \<Rightarrow> service_error + (paid_event \<times> bool \<times> order_store)" where
  "append_paid_event s st =
     (if snap_id s < 1 \<or> snap_version s < 2 \<or> snap_status s \<noteq> OrderPaid \<or> snap_origin s \<noteq> OriginNative
         \<or> \<not> snap_effect_eligible s \<or> is_zero (snap_updated_at s)
      then Inl SvcUnavailable
      else and_then (claim_paid_row s st) (\<lambda>(row, created, st1).
        let e0 = bare_event row s in
        if \<not> valid_order_fact e0 then Inl SvcUnavailable
        else and_then (checkout_or_none st1 (pe_order_id e0)) (\<lambda>co.
          let e1 = (case co of None \<Rightarrow> e0 | Some c \<Rightarrow> with_checkout c e0) in
          and_then (paid_outbox_id created e1 st1) (\<lambda>(oid, st2).
            let e2 = e1\<lparr>pe_outbox_id := oid\<rparr> in
            if valid_paid_event e2 then Inr (e2, created, st2) else Inl SvcUnavailable))))"

section \<open>Participants\<close>

definition invoke :: "wiring \<Rightarrow> participant_call \<Rightarrow> order_store \<Rightarrow> service_error + order_store" where
  "invoke w c st =
     (case participant_error w c of
        Some e \<Rightarrow> Inl (SvcParticipant e)
      | None \<Rightarrow> Inr (st\<lparr>os_calls := os_calls st @ [c]\<rparr>))"

definition consume_first_native_paid_event ::
  "wiring \<Rightarrow> order_snapshot \<Rightarrow> order_snapshot \<Rightarrow> order_store \<Rightarrow> service_error + order_store" where
  "consume_first_native_paid_event w previous s st =
     (if snap_status previous = OrderPaid \<or> snap_status s \<noteq> OrderPaid \<or> snap_origin s \<noteq> OriginNative
         \<or> \<not> snap_effect_eligible s \<or> snap_version s = snap_version previous
      then Inr st
      else and_then (append_paid_event s st) (\<lambda>(e, created, st1).
        if \<not> valid_paid_event e then Inl SvcUnavailable
        else if \<not> has_paid_events w then Inr st1
        else if \<not> created \<and> pe_order_id e \<noteq> snap_id s then Inl SvcConflict
        else invoke w (PaidEventConsumed e) st1))"

definition actor_of :: "int64 \<Rightarrow> string" where
  "actor_of i = ''payment:order:'' @ format_int i"

definition apply_checkout_settlement ::
  "wiring \<Rightarrow> order_snapshot \<Rightarrow> payment_settlement \<Rightarrow> order_store \<Rightarrow> service_error + order_store" where
  "apply_checkout_settlement w s c st =
     (case read_checkout_snapshot st (snap_id s) of
        Inl e \<Rightarrow> if e = SvcNotFound then Inr st else Inl e
      | Inr co \<Rightarrow>
          if co_order_id co \<noteq> snap_id s \<or> co_payable_minor co \<noteq> amount_minor (snap_amount s)
             \<or> co_currency co \<noteq> currency (snap_amount s)
             \<or> \<not> valid_payment_product_type (co_product_type co) (co_duration_days co)
          then Inl SvcConflict
          else if ps_failed c then
            (if co_coupon_applied co \<and> has_coupons w
             then invoke w (CouponRelease (co_reservation_ref co) (snap_merchant_order_no s) ''payment_final_failed''
                              (actor_of (snap_id s)) (''payment.release:'' @ ps_receipt_key c) (utc (ps_occurred_at c))) st
             else Inr st)
          else if 0 < ps_refunded_delta c then
            (if co_product_type co = ''service_period'' \<and> has_entitlements w
             then invoke w (EntitlementRefund (snap_id s) (ps_refunded_delta c) (utc (ps_occurred_at c))) st
             else Inr st)
          else
            and_then
              (if co_coupon_applied co \<and> has_coupons w
               then invoke w (CouponConsume (co_reservation_ref co) (snap_merchant_order_no s) (co_payable_minor co)
                                (co_currency co) (actor_of (snap_id s)) (''payment.consume:'' @ ps_receipt_key c)
                                (utc (ps_occurred_at c))) st
               else Inr st)
              (\<lambda>st1.
                if co_product_type co = ''service_period'' \<and> has_entitlements w then
                  (case snap_beneficiary s of
                     None \<Rightarrow> Inl SvcConflict
                   | Some b \<Rightarrow>
                       if b < 1 then Inl SvcConflict
                       else invoke w (EntitlementGrant (snap_id s) b (co_product_id co) (co_product_name co)
                                        (co_duration_days co) (utc (ps_occurred_at c)) (utc (clock w))) st1)
                else Inr st1))"

definition notify_refund ::
  "wiring \<Rightarrow> order_snapshot \<Rightarrow> payment_settlement \<Rightarrow> order_store \<Rightarrow> service_error + order_store" where
  "notify_refund w s c st =
     (if 0 < ps_refunded_delta c \<and> has_refund_events w
      then and_then (checkout_or_none st (snap_id s)) (\<lambda>co.
             invoke w (RefundConsumed
               \<lparr>re_order = s, re_refunded_delta = ps_refunded_delta c,
                re_checkout_product_id = (case co of None \<Rightarrow> 0 | Some x \<Rightarrow> co_product_id x),
                re_checkout_product_type = (case co of None \<Rightarrow> [] | Some x \<Rightarrow> co_product_type x),
                re_occurred_at = utc (ps_occurred_at c), re_receipt_key = ps_receipt_key c\<rparr>) st)
      else Inr st)"

section \<open>The settlement\<close>

text \<open>The status and refunded total a settlement moves the current order to.\<close>

definition settlement_target :: "payment_settlement \<Rightarrow> order \<Rightarrow> service_error + (order_status \<times> int64)" where
  "settlement_target c x =
     (if ps_failed c then
        (if ord_status x \<noteq> OrderPendingPayment then Inl SvcConflict else Inr (OrderPaymentFailed, 0))
      else if 0 < ps_refunded_delta c then
        (if ord_status x \<noteq> OrderPaid \<and> ord_status x \<noteq> OrderPartiallyRefunded then Inl SvcConflict
         else let refunded = wrap64 (refunded_minor x + ps_refunded_delta c)
              in if refunded < refunded_minor x \<or> amount_minor (ord_amount x) < refunded then Inl SvcConflict
                 else Inr (if refunded = amount_minor (ord_amount x) then OrderRefunded else OrderPartiallyRefunded,
                           refunded))
      else if ord_status x \<noteq> OrderPendingPayment then Inl SvcConflict
      else Inr (OrderPaid, 0))"

definition apply_target :: "payment_settlement \<Rightarrow> order \<Rightarrow> order_status \<times> int64 \<Rightarrow> service_error + (order \<times> status_event)" where
  "apply_target c x target =
     (case apply_settlement x (ord_version x) (fst target) (snd target) (utc (ps_occurred_at c)) of
        Inl _ \<Rightarrow> Inl SvcConflict
      | Inr (y, e) \<Rightarrow>
          if \<not> ps_failed c \<and> ps_refunded_delta c = 0
          then (case with_verified_provider_transaction y (ps_provider_transaction_no c) of
                  Inl _ \<Rightarrow> Inl SvcConflict
                | Inr z \<Rightarrow> Inr (z, e))
          else Inr (y, e))"

definition settle_payment_within ::
  "wiring \<Rightarrow> payment_settlement \<Rightarrow> order_store \<Rightarrow> service_error + (order_snapshot \<times> order_store)" where
  "settle_payment_within w c st =
     (if ps_order_id c < 1 \<or> ps_refunded_delta c < 0 \<or> ps_failed c \<and> ps_refunded_delta c \<noteq> 0
         \<or> \<not> valid_key (ps_receipt_key c) \<or> is_zero (ps_occurred_at c)
      then Inl SvcConflict
      else and_then (store_get st (ps_order_id c)) (\<lambda>x.
        and_then (settlement_target c x) (\<lambda>target.
        and_then (apply_target c x target) (\<lambda>(y, e).
        and_then (update_settlement y e (''payment:'' @ ps_receipt_key c) st) (\<lambda>(z, st1).
        and_then (apply_checkout_settlement w (snapshot z) c st1) (\<lambda>st2.
        and_then (consume_first_native_paid_event w (snapshot x) (snapshot z) st2) (\<lambda>st3.
        and_then (notify_refund w (snapshot z) c st3) (\<lambda>st4.
          Inr (snapshot z, st4)))))))))"

section \<open>What a settlement does to the rows\<close>

lemma order_rowD: "order_row st i = Some r \<Longrightarrow> snap_id r = i \<and> r \<in> set (os_orders st)"
  by (auto simp: order_row_def find_Some_iff)

lemma append_facts_orders [simp]: "append_facts s f a e t st = Inr st' \<Longrightarrow> os_orders st' = os_orders st \<and> os_calls st' = os_calls st \<and> os_checkouts st' = os_checkouts st"
  by (auto simp: append_facts_def Let_def)

lemma invoke_ok:
  "invoke w c st = Inr st' \<longleftrightarrow> participant_error w c = None \<and> st' = st\<lparr>os_calls := os_calls st @ [c]\<rparr>"
  by (auto simp: invoke_def split: option.splits)

lemma append_paid_event_orders:
  assumes "append_paid_event s st = Inr (e, b, st')"
  shows "os_orders st' = os_orders st \<and> os_calls st' = os_calls st \<and> pe_order_id e = snap_id s"
proof -
  from assms obtain row created st1 co oid
    where 1: "claim_paid_row s st = Inr (row, created, st1)"
      and 2: "valid_order_fact (bare_event row s)"
      and 3: "paid_outbox_id created (case co of None \<Rightarrow> bare_event row s | Some c \<Rightarrow> with_checkout c (bare_event row s)) st1 = Inr (oid, st')"
      and 4: "e = (case co of None \<Rightarrow> bare_event row s | Some c \<Rightarrow> with_checkout c (bare_event row s))\<lparr>pe_outbox_id := oid\<rparr>"
    by (auto simp: append_paid_event_def and_then_eq_Inr Let_def split: prod.splits)
  from 1 have "os_orders st1 = os_orders st \<and> os_calls st1 = os_calls st"
    by (auto simp: claim_paid_row_def Let_def split: option.splits if_splits)
  moreover from 3 have "os_orders st' = os_orders st1 \<and> os_calls st' = os_calls st1"
    by (auto simp: paid_outbox_id_def Let_def split: option.splits if_splits)
  moreover have "pe_order_id e = snap_id s"
    using 2 4 by (auto simp: valid_order_fact_def bare_event_def with_checkout_def split: option.splits)
  ultimately show ?thesis by simp
qed

lemma consume_paid_calls:
  assumes "consume_first_native_paid_event w p s st = Inr st'"
  shows "os_orders st' = os_orders st \<and> (\<exists>cl. os_calls st' = os_calls st @ cl \<and>
           (cl = [] \<or> snap_status s = OrderPaid \<and> (\<exists>e. cl = [PaidEventConsumed e] \<and> pe_order_id e = snap_id s)))"
proof (cases "st' = st")
  case False
  with assms obtain e b st1 where
    a: "append_paid_event s st = Inr (e, b, st1)" and p: "snap_status s = OrderPaid"
    and r: "st' = st1 \<or> invoke w (PaidEventConsumed e) st1 = Inr st'"
    by (auto simp: consume_first_native_paid_event_def and_then_eq_Inr split: if_splits)
  from append_paid_event_orders [OF a] p r show ?thesis by (auto simp: invoke_ok)
qed simp

lemma notify_refund_calls:
  assumes "notify_refund w s c st = Inr st'"
  shows "os_orders st' = os_orders st"
    and "\<exists>cl. os_calls st' = os_calls st @ cl \<and> (cl = [] \<or> (\<exists>e. cl = [RefundConsumed e]))"
  using assms by (auto simp: notify_refund_def and_then_eq_Inr invoke_ok split: if_splits)

lemma apply_checkout_orders: "apply_checkout_settlement w s c st = Inr st' \<Longrightarrow> os_orders st' = os_orders st"
  by (auto simp: apply_checkout_settlement_def and_then_eq_Inr invoke_ok split: sum.splits if_splits option.splits)

text \<open>What the order is settled to, when the domain accepts it.\<close>

definition settles_to :: "payment_settlement \<Rightarrow> order \<Rightarrow> order \<Rightarrow> bool" where
  "settles_to c x y \<longleftrightarrow>
     (ps_failed c \<and> ord_status x = OrderPendingPayment \<and> ord_status y = OrderPaymentFailed \<and> refunded_minor y = 0
      \<or> \<not> ps_failed c \<and> 0 < ps_refunded_delta c \<and> ord_status x \<in> {OrderPaid, OrderPartiallyRefunded}
        \<and> refunded_minor y = refunded_minor x + ps_refunded_delta c \<and> refunded_minor y \<le> amount_minor (ord_amount x)
        \<and> ord_status y = (if refunded_minor y = amount_minor (ord_amount x) then OrderRefunded else OrderPartiallyRefunded)
      \<or> \<not> ps_failed c \<and> ps_refunded_delta c = 0 \<and> ord_status x = OrderPendingPayment \<and> ord_status y = OrderPaid
        \<and> refunded_minor y = 0)
     \<and> ord_version y = next_version (ord_version x) \<and> ord_id y = ord_id x \<and> ord_amount y = ord_amount x
     \<and> ord_updated_at y = ps_occurred_at c \<and> ord_updated_at x \<le> ord_updated_at y"

lemma wrap64_add_fits:
  assumes "0 \<le> a" "a \<le> max_int64" "0 \<le> b" "b \<le> max_int64" "a \<le> wrap64 (a + b)"
  shows "wrap64 (a + b) = a + b"
proof (cases "a + b \<le> max_int64")
  case False
  with assms have "wrap64 (a + b) = a + b - 2 ^ 64"
    unfolding wrap64_def by (subst mod_pos_geq) (auto simp: mod_pos_pos_trivial)
  with assms show ?thesis by simp
qed (use assms in simp)

lemma restore_fields:
  assumes "restore r = Inr x"
  shows "valid_order x" "ord_id x = snap_id r" "ord_version x = snap_version r" "ord_status x = snap_status r"
    "refunded_minor x = snap_refunded_minor r" "ord_amount x = snap_amount r" "ord_updated_at x = snap_updated_at r"
    "ord_origin x = snap_origin r" "effect_eligible x = snap_effect_eligible r"
  using assms by (auto simp: restore_def)

lemma valid_order_amounts:
  assumes "valid_order x"
  shows "0 \<le> refunded_minor x" "refunded_minor x \<le> amount_minor (ord_amount x)"
    "amount_minor (ord_amount x) \<le> max_int64" "1 \<le> ord_version x"
  using valid_settlement_bounds [OF valid_orderD(1) [OF assms]] valid_orderD(3) [OF assms]
    scan_items_exact [OF valid_orderD(4) [OF assms]] by auto

lemma with_transaction_fields:
  "with_verified_provider_transaction x p = Inr z \<Longrightarrow> z = x\<lparr>provider_transaction_no := provider_transaction_no z\<rparr>"
  by (auto simp: with_verified_provider_transaction_def split: if_splits)

lemma restore_snapshot_eq: "restore (snapshot y) = Inr z \<Longrightarrow> z = y"
  by (cases y) (simp add: restore_def snapshot_def)

text \<open>A command as the caller can send it: the refunded delta is a 64-bit integer.\<close>

definition typed_settlement :: "payment_settlement \<Rightarrow> bool" where
  "typed_settlement c \<longleftrightarrow> is_int64 (ps_refunded_delta c)"

lemma apply_target_settles:
  assumes x: "valid_order x" and d: "typed_settlement c" "0 \<le> ps_refunded_delta c"
    and t: "settlement_target c x = Inr target" and y: "apply_target c x target = Inr (y, e)"
  shows "settles_to c x y \<and> ev_from e = ord_status x \<and> ev_to e = ord_status y \<and> ev_refunded_minor e = refunded_minor y
         \<and> ev_version e = ord_version y \<and> ev_occurred_at e = ps_occurred_at c"
proof -
  note b = valid_order_amounts [OF x]
  have sum: "wrap64 (refunded_minor x + ps_refunded_delta c) = refunded_minor x + ps_refunded_delta c"
    if "\<not> wrap64 (refunded_minor x + ps_refunded_delta c) < refunded_minor x"
    using that b d by (intro wrap64_add_fits) (auto simp: typed_settlement_def is_int64_def)
  from y obtain y0 where
    s: "apply_settlement x (ord_version x) (fst target) (snd target) (utc (ps_occurred_at c)) = Inr (y0, e)"
    and y0: "y = y0\<lparr>provider_transaction_no := provider_transaction_no y\<rparr>"
    by (auto simp: apply_target_def split: sum.splits if_splits) (metis with_transaction_fields)
  have ne: "fst target \<noteq> ord_status x \<or> snd target \<noteq> refunded_minor x"
    using t sum d by (fastforce simp: settlement_target_def Let_def split: if_splits)
  from s ne have s': "y0 = x\<lparr>ord_status := fst target, refunded_minor := snd target,
                      ord_version := next_version (ord_version x), ord_updated_at := ps_occurred_at c\<rparr>"
    "e = \<lparr>ev_from = ord_status x, ev_to = fst target, ev_refunded_minor = snd target,
          ev_version = next_version (ord_version x), ev_occurred_at = ps_occurred_at c\<rparr>"
    "ord_updated_at x \<le> ps_occurred_at c"
    by (auto simp: apply_settlement_def Let_def split: if_splits)
  from t sum have "ps_failed c \<and> ord_status x = OrderPendingPayment \<and> target = (OrderPaymentFailed, 0)
    \<or> \<not> ps_failed c \<and> 0 < ps_refunded_delta c \<and> ord_status x \<in> {OrderPaid, OrderPartiallyRefunded}
      \<and> snd target = refunded_minor x + ps_refunded_delta c \<and> snd target \<le> amount_minor (ord_amount x)
      \<and> fst target = (if snd target = amount_minor (ord_amount x) then OrderRefunded else OrderPartiallyRefunded)
    \<or> \<not> ps_failed c \<and> ps_refunded_delta c = 0 \<and> ord_status x = OrderPendingPayment \<and> target = (OrderPaid, 0)"
    using d(2) by (auto simp: settlement_target_def Let_def split: if_splits)
  with s' show ?thesis by (subst (1 2 3 4) y0) (auto simp: settles_to_def)
qed

lemma find_map_key:
  "(\<And>r. key (f r) = key r) \<Longrightarrow> find (\<lambda>r. key r = k) (map f xs) = map_option f (find (\<lambda>r. key r = k) xs)"
  by (induction xs) auto

lemma order_row_write:
  "order_row (write_order s st) j = map_option (\<lambda>r. if version_hit s r then settled_row s r else r) (order_row st j)"
  unfolding order_row_def write_order_def by (simp add: find_map_key settled_row_def)

lemma snapshot_fields [simp]:
  "snap_id (snapshot y) = ord_id y" "snap_version (snapshot y) = ord_version y"
  "snap_status (snapshot y) = ord_status y" "snap_refunded_minor (snapshot y) = refunded_minor y"
  "snap_amount (snapshot y) = ord_amount y" "snap_updated_at (snapshot y) = ord_updated_at y"
  by (simp_all add: snapshot_def)

lemma update_settlementD:
  assumes "update_settlement y e a st = Inr (z, st')"
  shows "z = y" "2 \<le> ord_version y"
    "append_facts (snapshot y) (Some (ev_from e)) a ''order.status_changed'' (ev_occurred_at e)
       (write_order (snapshot y) st) = Inr st'"
proof (atomize (full), cases "restore (snapshot y)")
  case (Inr x)
  from restore_snapshot_eq [OF this] assms Inr
  show "z = y \<and> 2 \<le> ord_version y \<and> append_facts (snapshot y) (Some (ev_from e)) a ''order.status_changed''
      (ev_occurred_at e) (write_order (snapshot y) st) = Inr st'"
    unfolding update_settlement_def Let_def if_Inl_eq_Inr and_then_eq_Inr by auto
qed (use assms in \<open>auto simp: update_settlement_def Let_def and_then_eq_Inr\<close>)

lemma update_settlement_rows:
  assumes u: "update_settlement y e a st = Inr (z, st')" and r: "order_row st (ord_id y) = Some r"
    and v: "ord_version y = next_version (snap_version r)" "1 \<le> snap_version r" "is_int64 (snap_version r)"
  shows "order_row st' (ord_id y) = Some (settled_row (snapshot y) r)"
    and "j \<noteq> ord_id y \<Longrightarrow> order_row st' j = order_row st j"
    and "os_calls st' = os_calls st" and "os_checkouts st' = os_checkouts st"
proof -
  note D = update_settlementD [OF u]
  note orders = append_facts_orders [OF D(3)]
  from orders show "os_calls st' = os_calls st" "os_checkouts st' = os_checkouts st"
    by (auto simp: write_order_def)
  have row: "order_row st' j = map_option (\<lambda>r. if version_hit (snapshot y) r then settled_row (snapshot y) r else r) (order_row st j)" for j
    using orders order_row_write [of "snapshot y" st j] by (simp add: order_row_def)
  have "snap_version r < max_int64"
  proof (rule ccontr)
    assume "\<not> ?thesis"
    with v have "snap_version r = max_int64" by (simp add: is_int64_def)
    with v(1) D(2) show False by (simp add: next_version_def wrap64_def)
  qed
  with v have "wrap64 (ord_version y - 1) = snap_version r" by simp
  with r row [of "ord_id y"] order_rowD [OF r] show "order_row st' (ord_id y) = Some (settled_row (snapshot y) r)"
    by (simp add: version_hit_def)
  show "order_row st' j = order_row st j" if "j \<noteq> ord_id y"
    using row [of j] that order_rowD [of st j] by (cases "order_row st j") (auto simp: version_hit_def)
qed

section \<open>First-settlement effects\<close>

text \<open>The effects an order may cause once: settling its coupon (consumed or released),
  granting its service period, announcing that it was paid.\<close>

datatype first_effect = CouponSettled | PeriodGranted | PaidAnnounced

fun concerns :: "int64 \<Rightarrow> first_effect \<Rightarrow> participant_call \<Rightarrow> bool" where
  "concerns i CouponSettled (CouponRelease ref order reason actor key at) \<longleftrightarrow> actor = actor_of i"
| "concerns i CouponSettled (CouponConsume ref order amount cur actor key at) \<longleftrightarrow> actor = actor_of i"
| "concerns i PeriodGranted (EntitlementGrant order b p name days paid processed) \<longleftrightarrow> order = i"
| "concerns i PaidAnnounced (PaidEventConsumed e) \<longleftrightarrow> pe_order_id e = i"
| "concerns i k c \<longleftrightarrow> False"

definition effects_of :: "int64 \<Rightarrow> first_effect \<Rightarrow> participant_call list \<Rightarrow> participant_call list" where
  "effects_of i k = filter (concerns i k)"

lemma effects_append [simp]: "effects_of i k (xs @ ys) = effects_of i k xs @ effects_of i k ys"
  by (simp add: effects_of_def)

lemma format_int_inj: "0 \<le> i \<Longrightarrow> 0 \<le> j \<Longrightarrow> format_int i = format_int j \<longleftrightarrow> i = j"
  by (auto simp: format_int_def show_nat_inj)

lemma actor_of_inj [simp]: "0 \<le> i \<Longrightarrow> 0 \<le> j \<Longrightarrow> actor_of i = actor_of j \<longleftrightarrow> i = j"
  by (simp add: actor_of_def format_int_inj)

text \<open>The calls of the checkout participants: at most one of each kind, only for this order,
  and none of them for a refund.\<close>

definition modest_calls :: "int64 \<Rightarrow> bool \<Rightarrow> participant_call list \<Rightarrow> bool" where
  "modest_calls i first cl \<longleftrightarrow>
     (\<forall>j k. 0 \<le> j \<longrightarrow> length (effects_of j k cl) \<le> (if j = i \<and> first then 1 else 0))
     \<and> (\<forall>j. effects_of j PaidAnnounced cl = [])"

lemma modest_calls_simps [simp]:
  "modest_calls i b []"
  "0 \<le> i \<Longrightarrow> modest_calls i True [CouponRelease r o' w (actor_of i) y t]"
  "0 \<le> i \<Longrightarrow> modest_calls i True [CouponConsume r o' a c (actor_of i) y t]"
  "modest_calls i b [EntitlementRefund i' d t]"
  "modest_calls i True [EntitlementGrant i b' p n d t u]"
  "0 \<le> i \<Longrightarrow> modest_calls i True [CouponConsume r o' a c (actor_of i) y t,
                                   EntitlementGrant i b' p n d t' u]"
  by (auto simp: modest_calls_def effects_of_def elim: concerns.elims)

lemma apply_checkout_calls:
  assumes "apply_checkout_settlement w s c st = Inr st'" "0 \<le> snap_id s"
  shows "\<exists>cl. os_calls st' = os_calls st @ cl \<and> modest_calls (snap_id s) (ps_failed c \<or> \<not> 0 < ps_refunded_delta c) cl"
  using assms unfolding apply_checkout_settlement_def
  by (auto simp: and_then_eq_Inr invoke_ok split: sum.splits if_splits option.splits)


section \<open>One accepted settlement\<close>

lemma store_getD:
  assumes "store_get st i = Inr x"
  obtains r where "order_row st i = Some r" "restore r = Inr x" "1 \<le> i" "snap_id r = i"
  using assms order_rowD [of st i] by (auto simp: store_get_def split: if_splits option.splits sum.splits)

text \<open>The rows hold 64-bit versions.\<close>

definition typed_store :: "order_store \<Rightarrow> bool" where
  "typed_store st \<longleftrightarrow> (\<forall>i r. order_row st i = Some r \<longrightarrow> is_int64 (snap_version r))"

lemma settle_payment_calls:
  assumes st2: "apply_checkout_settlement w s c st1 = Inr st2"
    and st3: "consume_first_native_paid_event w p s st2 = Inr st3"
    and st4: "notify_refund w s c st3 = Inr st4"
    and i: "0 \<le> snap_id s" and first: "ps_failed c \<or> \<not> 0 < ps_refunded_delta c \<Longrightarrow> b" "snap_status s = OrderPaid \<Longrightarrow> b"
  shows "os_orders st4 = os_orders st1 \<and>
    (\<exists>cl. os_calls st4 = os_calls st1 @ cl \<and> (\<forall>j k. 0 \<le> j \<longrightarrow> length (effects_of j k cl) \<le> (if j = snap_id s \<and> b then 1 else 0)))"
proof -
  from apply_checkout_calls [OF st2 i] obtain c1 where
    c1: "os_calls st2 = os_calls st1 @ c1" "modest_calls (snap_id s) (ps_failed c \<or> \<not> 0 < ps_refunded_delta c) c1" by blast
  from consume_paid_calls [OF st3] obtain c2 where c2: "os_calls st3 = os_calls st2 @ c2"
    "c2 = [] \<or> snap_status s = OrderPaid \<and> (\<exists>e. c2 = [PaidEventConsumed e] \<and> pe_order_id e = snap_id s)" by blast
  from notify_refund_calls [OF st4] obtain c3 where c3: "os_calls st4 = os_calls st3 @ c3"
    "c3 = [] \<or> (\<exists>e. c3 = [RefundConsumed e])" by blast
  have 3: "effects_of j k c3 = []" for j k using c3(2) by (cases k) (auto simp: effects_of_def)
  have 2: "length (effects_of j k c2) \<le> (if j = snap_id s \<and> b \<and> k = PaidAnnounced then 1 else 0)" for j k
    using c2(2) first(2) by (cases k) (auto simp: effects_of_def)
  have 1: "length (effects_of j k c1) \<le> (if j = snap_id s \<and> b \<and> k \<noteq> PaidAnnounced then 1 else 0)" if "0 \<le> j" for j k
    using c1(2) first(1) that by (cases k) (fastforce simp: modest_calls_def split: if_splits)+
  have "length (effects_of j k (c1 @ c2 @ c3)) \<le> (if j = snap_id s \<and> b then 1 else 0)" if "0 \<le> j" for j k
    using 1 [OF that, of k] 2 [of j k] 3 [of j k] by (auto split: if_splits)
  moreover have "os_orders st4 = os_orders st1"
    using apply_checkout_orders [OF st2] consume_paid_calls [OF st3] notify_refund_calls(1) [OF st4] by simp
  ultimately show ?thesis using c1(1) c2(1) c3(1) by (intro conjI exI [of _ "c1 @ c2 @ c3"]) auto
qed

text \<open>Everything an accepted settlement does to the orders and to the participants.\<close>

lemma settle_payment_effect:
  assumes s: "settle_payment_within w c st = Inr (s, st')" and ty: "typed_settlement c" "typed_store st"
  obtains r x y cl where
    "order_row st (ps_order_id c) = Some r" "restore r = Inr x" "settles_to c x y" "s = snapshot y"
    "order_row st' (ps_order_id c) = Some (settled_row s r)"
    "\<And>j. j \<noteq> ps_order_id c \<Longrightarrow> order_row st' j = order_row st j"
    "os_calls st' = os_calls st @ cl"
    "\<And>j k. 0 \<le> j \<Longrightarrow> length (effects_of j k cl) \<le> (if j = ps_order_id c \<and> snap_status r = OrderPendingPayment then 1 else 0)"
    "1 \<le> ps_order_id c" "0 \<le> ps_refunded_delta c" "\<not> (ps_failed c \<and> 0 < ps_refunded_delta c)"
proof -
  let ?i = "ps_order_id c"
  from s obtain x target y e z st1 st2 st3 where
    g: "0 \<le> ps_refunded_delta c" "ps_failed c \<longrightarrow> ps_refunded_delta c = 0"
    and x: "store_get st ?i = Inr x" and t: "settlement_target c x = Inr target"
    and y: "apply_target c x target = Inr (y, e)"
    and u: "update_settlement y e (''payment:'' @ ps_receipt_key c) st = Inr (z, st1)"
    and st2: "apply_checkout_settlement w (snapshot z) c st1 = Inr st2"
    and st3: "consume_first_native_paid_event w (snapshot x) (snapshot z) st2 = Inr st3"
    and st4: "notify_refund w (snapshot z) c st3 = Inr st'" and sz: "s = snapshot z"
    unfolding settle_payment_within_def if_Inl_eq_Inr and_then_eq_Inr
    by (auto simp: and_then_eq_Inr split: prod.splits)
  from x obtain r where r: "order_row st ?i = Some r" "restore r = Inr x" "1 \<le> ?i" "snap_id r = ?i"
    by (rule store_getD)
  note rf = restore_fields [OF r(2)]
  from apply_target_settles [OF rf(1) ty(1) g(1) t y] have st: "settles_to c x y" by simp
  then have id: "ord_id y = ?i" using rf r by (simp add: settles_to_def)
  have v: "ord_version y = next_version (snap_version r)" "1 \<le> snap_version r" "is_int64 (snap_version r)"
    using st rf valid_order_amounts [OF rf(1)] ty(2) r(1) by (auto simp: settles_to_def typed_store_def)
  note zy = update_settlementD(1) [OF u]
  note rows = update_settlement_rows [OF u, unfolded id, OF r(1) v]
  have b: "ps_failed c \<or> \<not> 0 < ps_refunded_delta c \<Longrightarrow> snap_status r = OrderPendingPayment"
    "snap_status (snapshot z) = OrderPaid \<Longrightarrow> snap_status r = OrderPendingPayment"
    using st g rf(4) zy unfolding settles_to_def by (auto split: if_splits)
  have i: "snap_id (snapshot z) = ?i" using zy id by simp
  with r(3) have "0 \<le> snap_id (snapshot z)" by simp
  from settle_payment_calls [OF st2 st3 st4 this b, unfolded i]
  have orders: "os_orders st' = os_orders st1"
    and "\<exists>cl. os_calls st' = os_calls st1 @ cl \<and> (\<forall>j k. 0 \<le> j \<longrightarrow> length (effects_of j k cl) \<le> (if j = ?i \<and> snap_status r = OrderPendingPayment then 1 else 0))"
    by blast+
  then obtain cl where "os_calls st' = os_calls st @ cl"
    "\<And>j k. 0 \<le> j \<Longrightarrow> length (effects_of j k cl) \<le> (if j = ?i \<and> snap_status r = OrderPendingPayment then 1 else 0)"
    using rows(3) by metis
  moreover have "order_row st' j = order_row st1 j" for j using orders by (simp add: order_row_def)
  ultimately show thesis
    using rows r st sz zy g by (intro that [of r x y cl]) auto
qed

section \<open>The ledger an order service promises\<close>

text \<open>The abstract specification: per order an amount, a status and the amount refunded so
  far. A failure closes the order, a payment settles it, a refund adds up.\<close>

record ledger_entry =
  le_amount :: money
  le_status :: order_status
  le_refunded :: int64

definition ledger :: "order_store \<Rightarrow> int64 \<Rightarrow> ledger_entry option" where
  "ledger st i = map_option (\<lambda>r. \<lparr>le_amount = snap_amount r, le_status = snap_status r,
                                    le_refunded = snap_refunded_minor r\<rparr>) (order_row st i)"

definition entry_step :: "payment_settlement \<Rightarrow> ledger_entry \<Rightarrow> ledger_entry" where
  "entry_step c e =
     (if ps_failed c then e\<lparr>le_status := OrderPaymentFailed\<rparr>
      else if 0 < ps_refunded_delta c then
        e\<lparr>le_refunded := le_refunded e + ps_refunded_delta c,
          le_status := if le_refunded e + ps_refunded_delta c = amount_minor (le_amount e)
                       then OrderRefunded else OrderPartiallyRefunded\<rparr>
      else e\<lparr>le_status := OrderPaid\<rparr>)"

definition ledger_allows :: "payment_settlement \<Rightarrow> ledger_entry \<Rightarrow> bool" where
  "ledger_allows c e \<longleftrightarrow>
     (if 0 < ps_refunded_delta c
      then le_status e \<in> {OrderPaid, OrderPartiallyRefunded}
           \<and> le_refunded e + ps_refunded_delta c \<le> amount_minor (le_amount e)
      else le_status e = OrderPendingPayment)"

lemma pending_unrefunded: "restore r = Inr x \<Longrightarrow> snap_status r = OrderPendingPayment \<Longrightarrow> snap_refunded_minor r = 0"
  using valid_orderD(1) [of x] restore_fields [of r x] by (auto simp: valid_settlement.simps split: if_splits)

lemma settles_to_entry:
  assumes "restore r = Inr x" "settles_to c x y" "0 \<le> ps_refunded_delta c" "\<not> (ps_failed c \<and> 0 < ps_refunded_delta c)"
  shows "entry_step c \<lparr>le_amount = snap_amount r, le_status = snap_status r, le_refunded = snap_refunded_minor r\<rparr>
         = \<lparr>le_amount = ord_amount y, le_status = ord_status y, le_refunded = refunded_minor y\<rparr>"
    and "ledger_allows c \<lparr>le_amount = snap_amount r, le_status = snap_status r, le_refunded = snap_refunded_minor r\<rparr>"
  using assms(2-4) restore_fields(4-6) [OF assms(1)] pending_unrefunded [OF assms(1)]
  by (auto simp: settles_to_def entry_step_def ledger_allows_def)

lemma ledger_settled:
  assumes "settle_payment_within w c st = Inr (s, st')" "typed_settlement c" "typed_store st"
  obtains e where "ledger st (ps_order_id c) = Some e" "ledger_allows c e"
    "ledger st' = (ledger st)(ps_order_id c \<mapsto> entry_step c e)"
proof -
  from settle_payment_effect [OF assms] obtain r x y where
    r: "order_row st (ps_order_id c) = Some r" "restore r = Inr x" "settles_to c x y" "s = snapshot y"
    "order_row st' (ps_order_id c) = Some (settled_row s r)"
    and other: "\<And>j. j \<noteq> ps_order_id c \<Longrightarrow> order_row st' j = order_row st j" and d: "0 \<le> ps_refunded_delta c" "\<not> (ps_failed c \<and> 0 < ps_refunded_delta c)"
    by metis
  let ?e = "\<lparr>le_amount = snap_amount r, le_status = snap_status r, le_refunded = snap_refunded_minor r\<rparr>"
  have "snap_amount r = ord_amount y" using r restore_fields(6) [OF r(2)] by (simp add: settles_to_def)
  with r settles_to_entry [OF r(2,3) d] other
  have "ledger st' j = ((ledger st)(ps_order_id c \<mapsto> entry_step c ?e)) j" for j
    by (cases "j = ps_order_id c") (auto simp: ledger_def settled_row_def)
  then show thesis
    using r(1) settles_to_entry(2) [OF r(2,3) d] by (intro that [of ?e]) (auto simp: ledger_def)
qed

text \<open>Sending a command to the stored orders; a delta outside 64 bits cannot be sent. A
  refused command leaves the store as it was.\<close>

definition send :: "wiring \<Rightarrow> payment_settlement \<Rightarrow> order_store \<Rightarrow> service_error + order_store" where
  "send w c st = (if typed_settlement c then map_sum id snd (settle_payment_within w c st) else Inl SvcConflict)"

lemma sendD: "send w c st = Inr st' \<Longrightarrow> typed_settlement c \<and> (\<exists>s. settle_payment_within w c st = Inr (s, st'))"
  by (cases "settle_payment_within w c st") (auto simp: send_def split: if_splits)

lemma send_typed: "typed_store st \<Longrightarrow> send w c st = Inr st' \<Longrightarrow> typed_store st'"
proof -
  assume ty: "typed_store st" and s: "send w c st = Inr st'"
  from sendD [OF s] obtain s where c: "typed_settlement c" "settle_payment_within w c st = Inr (s, st')" by blast
  from settle_payment_effect [OF c(2,1) ty] obtain r x y where
    "order_row st' (ps_order_id c) = Some (settled_row s r)" "settles_to c x y" "s = snapshot y"
    and other: "\<And>j. j \<noteq> ps_order_id c \<Longrightarrow> order_row st' j = order_row st j" by metis
  then have "is_int64 (snap_version (settled_row s r))" "order_row st' (ps_order_id c) = Some (settled_row s r)"
    by (simp_all add: settled_row_def settles_to_def next_version_def)
  with ty other show ?thesis unfolding typed_store_def by (metis option.inject)
qed

definition ledger_grows :: "order_store \<Rightarrow> order_store \<Rightarrow> bool" where
  "ledger_grows st st' \<longleftrightarrow>
     (\<forall>i e. ledger st i = Some e \<longrightarrow> (\<exists>e'. ledger st' i = Some e' \<and> le_amount e' = le_amount e
        \<and> le_refunded e \<le> le_refunded e' \<and> may_transition\<^sup>*\<^sup>* (le_status e) (le_status e')))"

lemma entry_step_transition: "ledger_allows c e \<Longrightarrow> may_transition (le_status e) (le_status (entry_step c e)) \<or> ps_failed c"
  by (auto simp: ledger_allows_def entry_step_def)

lemma send_grows: "typed_store st \<Longrightarrow> send w c st = Inr st' \<Longrightarrow> ledger_grows st st'"
proof -
  assume ty: "typed_store st" and s: "send w c st = Inr st'"
  from sendD [OF s] obtain s where c: "typed_settlement c" "settle_payment_within w c st = Inr (s, st')" by blast
  from ledger_settled [OF c(2,1) ty] obtain e where
    e: "ledger st (ps_order_id c) = Some e" "ledger_allows c e"
      "ledger st' = (ledger st)(ps_order_id c \<mapsto> entry_step c e)" by blast
  have "ps_failed c \<Longrightarrow> \<not> 0 < ps_refunded_delta c" using c(2) by (auto simp: settle_payment_within_def)
  with e(2) have "le_refunded e \<le> le_refunded (entry_step c e)" "le_amount (entry_step c e) = le_amount e"
    "may_transition (le_status e) (le_status (entry_step c e))"
    by (auto simp: ledger_allows_def entry_step_def)
  with e(1,3) show ?thesis by (auto simp: ledger_grows_def)
qed

lemma ledger_grows_trans: "ledger_grows s t \<Longrightarrow> ledger_grows t u \<Longrightarrow> ledger_grows s u"
  unfolding ledger_grows_def by (fastforce intro: rtranclp_trans)

interpretation payments: monotone_history "send w" typed_store ledger_grows for w
  by unfold_locales
    (auto simp: ledger_grows_def [of s s for s] intro: send_typed send_grows ledger_grows_trans)

section \<open>Properties\<close>

text \<open>What the accepted refunds of one order add up to over a history.\<close>

fun accepted_refunds :: "wiring \<Rightarrow> int64 \<Rightarrow> payment_settlement list \<Rightarrow> order_store \<Rightarrow> int" where
  "accepted_refunds w i [] st = 0"
| "accepted_refunds w i (c # cs) st =
     (case send w c st of
        Inl _ \<Rightarrow> accepted_refunds w i cs st
      | Inr st' \<Rightarrow> (if ps_order_id c = i then ps_refunded_delta c else 0) + accepted_refunds w i cs st')"

lemma entry_step_refunded:
  "ledger_allows c e \<Longrightarrow> 0 \<le> ps_refunded_delta c \<Longrightarrow> \<not> (ps_failed c \<and> 0 < ps_refunded_delta c) \<Longrightarrow>
   le_refunded (entry_step c e) = le_refunded e + ps_refunded_delta c \<and> le_amount (entry_step c e) = le_amount e
   \<and> (le_refunded e \<le> amount_minor (le_amount e) \<longrightarrow> le_refunded (entry_step c e) \<le> amount_minor (le_amount e))"
  by (auto simp: entry_step_def ledger_allows_def)

lemma send_ledger:
  assumes "send w c st = Inr st'" "typed_store st"
  obtains e where "ledger st (ps_order_id c) = Some e" "ledger_allows c e"
    "ledger st' = (ledger st)(ps_order_id c \<mapsto> entry_step c e)"
    "0 \<le> ps_refunded_delta c" "\<not> (ps_failed c \<and> 0 < ps_refunded_delta c)"
proof -
  from sendD [OF assms(1)] obtain s where c: "typed_settlement c" "settle_payment_within w c st = Inr (s, st')" by blast
  have "0 \<le> ps_refunded_delta c" "\<not> (ps_failed c \<and> 0 < ps_refunded_delta c)"
    using c(2) by (auto simp: settle_payment_within_def)
  with ledger_settled [OF c(2,1) assms(2)] that show thesis by blast
qed

lemma effects_history_inv:
  assumes "typed_store st" "order_row st i = Some r" "0 \<le> i" "length (effects_of i k (os_calls st)) \<le> (if snap_status r = OrderPendingPayment then 0 else 1)"
  shows "length (effects_of i k (os_calls (run_history (send w) cs st))) \<le> 1"
  using assms
proof (induction cs arbitrary: st r)
  case Nil
  then show ?case by (auto split: if_splits)
next
  case (Cons c cs)
  show ?case
  proof (cases "send w c st")
    case (Inl e)
    with Cons show ?thesis by simp
  next
    case (Inr st')
    from sendD [OF Inr] obtain s where c: "typed_settlement c" "settle_payment_within w c st = Inr (s, st')" by blast
    from settle_payment_effect [OF c(2,1) Cons.prems(1)] obtain r0 x y cl where
      r0: "order_row st (ps_order_id c) = Some r0" "settles_to c x y" "s = snapshot y" "order_row st' (ps_order_id c) = Some (settled_row s r0)"
      and other: "\<And>j. j \<noteq> ps_order_id c \<Longrightarrow> order_row st' j = order_row st j"
      and cl: "os_calls st' = os_calls st @ cl"
        "\<And>j k. 0 \<le> j \<Longrightarrow> length (effects_of j k cl) \<le> (if j = ps_order_id c \<and> snap_status r0 = OrderPendingPayment then 1 else 0)"
      by metis
    have "snap_status (settled_row s r0) \<noteq> OrderPendingPayment"
      using r0 by (auto simp: settled_row_def settles_to_def split: if_splits)
    with Cons.prems r0 other cl(1) cl(2) [of i k]
    obtain r' where "order_row st' i = Some r'"
      "length (effects_of i k (os_calls st')) \<le> (if snap_status r' = OrderPendingPayment then 0 else 1)"
      by (cases "i = ps_order_id c") (auto split: if_splits)
    from Cons.IH [OF send_typed [OF Cons.prems(1) Inr] this(1) Cons.prems(3) this(2)] Inr show ?thesis by simp
  qed
qed

text \<open>A paid order of 12.00 for the witnesses, in a store with no other rows.\<close>

definition sample_store :: order_store where
  "sample_store = \<lparr>os_orders = [snapshot (sample_order\<lparr>ord_id := 7, ord_status := OrderPaid, ord_version := 2\<rparr>)],
     os_checkouts = Map.empty, os_history = [], os_audit = [], os_outbox = [], os_paid = [], os_next_outbox = 1,
     os_next_paid = 1, os_calls = []\<rparr>"

definition sample_wiring :: wiring where
  "sample_wiring = \<lparr>has_coupons = True, has_entitlements = True, has_paid_events = True, has_refund_events = False,
     clock = 500, participant_error = (\<lambda>_. None)\<rparr>"

definition sample_refund :: "int64 \<Rightarrow> payment_settlement" where
  "sample_refund d = \<lparr>ps_order_id = 7, ps_refunded_delta = d, ps_failed = False, ps_provider_transaction_no = [],
     ps_occurred_at = 300, ps_receipt_key = ''refund-receipt-00001''\<rparr>"

definition sample_paid :: order where
  "sample_paid = sample_order\<lparr>ord_id := 7, ord_status := OrderPaid, ord_version := 2\<rparr>"

definition sample_refunded :: order where
  "sample_refunded = sample_order\<lparr>ord_id := 7, ord_status := OrderPartiallyRefunded, refunded_minor := 500,
     ord_version := 3, ord_updated_at := 300\<rparr>"

definition sample_event :: status_event where
  "sample_event = \<lparr>ev_from = OrderPaid, ev_to = OrderPartiallyRefunded, ev_refunded_minor = 500,
     ev_version = 3, ev_occurred_at = 300\<rparr>"

lemma sample_valid: "valid_order sample_paid" "valid_order sample_refunded"
  using sample_order_valid
  by (simp_all add: sample_paid_def sample_refunded_def sample_order_def valid_order_def valid_settlement.simps)

lemma sample_row: "order_row sample_store 7 = Some (snapshot sample_paid)"
  by (simp add: order_row_def sample_store_def snapshot_def sample_paid_def)

lemma sample_get: "store_get sample_store 7 = Inr sample_paid"
  using restore_snapshot_roundtrip [OF sample_valid(1)] by (simp add: store_get_def sample_row)

lemma sample_update:
  "\<exists>st. update_settlement sample_refunded sample_event ''payment:refund-receipt-00001'' sample_store
        = Inr (sample_refunded, st)"
proof -
  have "is_ok (append_facts (snapshot sample_refunded) f ''payment:refund-receipt-00001'' e t (write_order s sample_store))"
    for f e t s
    by (simp add: append_facts_def Let_def write_order_def sample_store_def pg_text_def ascii_text is_ok_def rune_count_def)
  from this [of "Some (ev_from sample_event)" "''order.status_changed''" "ev_occurred_at sample_event" "snapshot sample_refunded"]
  obtain st where "append_facts (snapshot sample_refunded) (Some (ev_from sample_event))
      ''payment:refund-receipt-00001'' ''order.status_changed'' (ev_occurred_at sample_event)
      (write_order (snapshot sample_refunded) sample_store) = Inr st"
    unfolding is_ok_iff by blast
  then show ?thesis using restore_snapshot_roundtrip [OF sample_valid(2)]
    by (simp add: update_settlement_def Let_def pg_text_def ascii_text sample_event_def sample_refunded_def
        sample_order_def snapshot_def sample_store_def version_hit_def)
qed

lemma sample_settles:
  "\<exists>st. settle_payment_within sample_wiring (sample_refund 500) sample_store = Inr (snapshot sample_refunded, st)"
proof -
  obtain st where u: "update_settlement sample_refunded sample_event ''payment:refund-receipt-00001'' sample_store
        = Inr (sample_refunded, st)" using sample_update by blast
  have t: "settlement_target (sample_refund 500) sample_paid = Inr (OrderPartiallyRefunded, 500)"
    by (simp add: settlement_target_def sample_refund_def sample_paid_def sample_order_def)
  have y: "apply_target (sample_refund 500) sample_paid (OrderPartiallyRefunded, 500) = Inr (sample_refunded, sample_event)"
    by (simp add: apply_target_def apply_settlement_def sample_refund_def sample_paid_def sample_order_def
        sample_refunded_def sample_event_def valid_settlement.simps)
  have "os_checkouts st = Map.empty"
    using update_settlementD(3) [OF u] append_facts_orders by (fastforce simp: write_order_def sample_store_def)
  then show ?thesis
    using u t y sample_get
    by (simp add: settle_payment_within_def sample_refund_def valid_key_def ascii_text apply_checkout_settlement_def
        read_checkout_snapshot_def consume_first_native_paid_event_def sample_refunded_def sample_paid_def notify_refund_def
        sample_wiring_def)
qed

lemma sample_typed: "typed_store sample_store"
  by (simp add: typed_store_def order_row_def sample_store_def is_int64_def snapshot_def)


definition sample_entry :: ledger_entry where
  "sample_entry = \<lparr>le_amount = \<lparr>amount_minor = 1200, currency = ''CNY''\<rparr>, le_status = OrderPaid, le_refunded = 0\<rparr>"

lemma sample_ledger: "ledger sample_store 7 = Some sample_entry"
  by (simp add: ledger_def sample_row sample_paid_def sample_order_def sample_entry_def)

text \<open>
  C26: Every accepted settlement does to the stored orders exactly what the abstract ledger
  does: the settled order existed and was in a status that admits the settlement, its entry
  takes the ledger's step, and no other order's entry changes.
\<close>

theorem settlement_refines_ledger:
  assumes "settle_payment_within w c st = Inr (s, st')" "typed_settlement c" "typed_store st"
  shows "\<exists>e. ledger st (ps_order_id c) = Some e \<and> ledger_allows c e
             \<and> ledger st' = (ledger st)(ps_order_id c \<mapsto> entry_step c e)"
  by (rule ledger_settled [OF assms]) blast

theorem settlement_refines_ledger_witness:
  "\<exists>s st'. settle_payment_within sample_wiring (sample_refund 500) sample_store = Inr (s, st')
     \<and> ledger st' 7 = Some (sample_entry\<lparr>le_status := OrderPartiallyRefunded, le_refunded := 500\<rparr>)"
proof -
  from sample_settles obtain st' where s:
    "settle_payment_within sample_wiring (sample_refund 500) sample_store = Inr (snapshot sample_refunded, st')" by blast
  have "typed_settlement (sample_refund 500)" by (simp add: typed_settlement_def sample_refund_def is_int64_def)
  from settlement_refines_ledger [OF s this sample_typed] have
    "ledger st' 7 = Some (sample_entry\<lparr>le_status := OrderPartiallyRefunded, le_refunded := 500\<rparr>)"
    using sample_ledger by (auto simp: sample_refund_def entry_step_def sample_entry_def)
  with s show ?thesis by blast
qed

text \<open>
  C27: Over any history of settlements, the refunded total of a stored order is exactly its
  initial total plus the accepted refunds of that order, it never passes the order's
  amount, and the amount never changes; retried, refused and other orders' commands add
  nothing.
\<close>

theorem refunds_conserved:
  assumes "typed_store st" "ledger st i = Some e" "le_refunded e \<le> amount_minor (le_amount e)"
  shows "\<exists>e'. ledger (run_history (send w) cs st) i = Some e' \<and> le_amount e' = le_amount e
              \<and> le_refunded e' = le_refunded e + accepted_refunds w i cs st
              \<and> le_refunded e' \<le> amount_minor (le_amount e)"
  using assms
proof (induction cs arbitrary: st e)
  case (Cons c cs)
  show ?case
  proof (cases "send w c st")
    case (Inr st')
    from send_ledger [OF Inr Cons.prems(1)] obtain e0 where
      e0: "ledger st (ps_order_id c) = Some e0" "ledger_allows c e0"
        "ledger st' = (ledger st)(ps_order_id c \<mapsto> entry_step c e0)"
        "0 \<le> ps_refunded_delta c" "\<not> (ps_failed c \<and> 0 < ps_refunded_delta c)" by blast
    note step = entry_step_refunded [OF e0(2,4,5)]
    from Cons.prems e0 step have "\<exists>e1. ledger st' i = Some e1 \<and> le_amount e1 = le_amount e
        \<and> le_refunded e1 = le_refunded e + (if ps_order_id c = i then ps_refunded_delta c else 0)
        \<and> le_refunded e1 \<le> amount_minor (le_amount e1)" by auto
    with Cons.IH [OF send_typed [OF Cons.prems(1) Inr]] Inr show ?thesis by fastforce
  qed (use Cons in simp)
qed simp

theorem refunds_conserved_witness:
  "\<exists>e'. ledger (run_history (send sample_wiring) [sample_refund 500, sample_refund 900, sample_refund 700] sample_store) 7
        = Some e' \<and> le_refunded e' \<le> 1200"
  using refunds_conserved [OF sample_typed sample_ledger,
      of sample_wiring "[sample_refund 500, sample_refund 900, sample_refund 700]"]
  by (auto simp: sample_entry_def)

text \<open>
  C29: An order that awaits payment settles its coupon (consumed or released, never both),
  grants its service period and announces its payment at most once each, whatever
  sequence of payment, failure and refund commands arrives and however often they are
  repeated.
\<close>

theorem first_effects_once:
  assumes "typed_store st" "order_row st i = Some r" "0 \<le> i" "snap_status r = OrderPendingPayment"
    "\<And>k. effects_of i k (os_calls st) = []"
  shows "length (effects_of i k (os_calls (run_history (send w) cs st))) \<le> 1"
  by (rule effects_history_inv [OF assms(1-3)]) (simp add: assms(4,5))

theorem first_effects_once_witness:
  "length (effects_of 7 CouponSettled (os_calls (run_history (send sample_wiring) [sample_refund 0, sample_refund 0]
     (sample_store\<lparr>os_orders := [snapshot (sample_paid\<lparr>ord_status := OrderPendingPayment\<rparr>)]\<rparr>)))) \<le> 1"
  by (rule first_effects_once [where r = "snapshot (sample_paid\<lparr>ord_status := OrderPendingPayment\<rparr>)"])
    (auto simp: typed_store_def order_row_def sample_store_def sample_paid_def is_int64_def effects_of_def
      split: if_splits)

text \<open>
  A refund that would take the refunded total past the amount of the order is refused
  with a conflict and changes nothing, also when the sum does not fit in 64 bits.
\<close>

theorem over_refund_refused:
  assumes "order_row st (ps_order_id c) = Some r" "restore r = Inr x" "1 \<le> ps_order_id c"
    "0 < ps_refunded_delta c" "typed_settlement c"
    "amount_minor (ord_amount x) < refunded_minor x + ps_refunded_delta c"
  shows "settle_payment_within w c st = Inl SvcConflict \<and> run_history (send w) [c] st = st"
proof -
  from restore_fields(1) [OF assms(2)] have x: "valid_order x" .
  let ?r = "wrap64 (refunded_minor x + ps_refunded_delta c)"
  have "?r = refunded_minor x + ps_refunded_delta c" if "\<not> ?r < refunded_minor x"
    using that valid_order_amounts [OF x] assms(4,5)
    by (intro wrap64_add_fits) (auto simp: typed_settlement_def is_int64_def)
  with assms(4,6) have "settlement_target c x = Inl SvcConflict \<or> ps_failed c"
    by (auto simp: settlement_target_def Let_def)
  with assms have "settle_payment_within w c st = Inl SvcConflict"
    by (auto simp: settle_payment_within_def store_get_def)
  with assms(5) show ?thesis by (simp add: send_def)
qed

theorem over_refund_refused_witness:
  "settle_payment_within sample_wiring (sample_refund max_int64) sample_store = Inl SvcConflict"
  using over_refund_refused [of sample_store "sample_refund max_int64" "snapshot sample_paid" sample_paid sample_wiring]
    restore_snapshot_roundtrip [OF sample_valid(1)] sample_row
  by (simp add: sample_refund_def typed_settlement_def is_int64_def sample_paid_def sample_order_def)

end
