(* ===== verification/Payment_Domain.thy ===== *)
theory Payment_Domain
  imports Order_Domain
begin

text \<open>
  Payments, refunds and profit sharing of \<open>internal/payment/domain\<close>: \<open>payment.go\<close>
  (construction from an order, effect binding, settlement, the repair of a missing
  confirmation time, refunds), \<open>profit_sharing.go\<close> (receivers, instructions, funding) and
  \<open>status.go\<close>. The lemmas show that every accepted command moves the version, so of two
  commands prepared from one read only one is accepted, that a paid payment stays paid with
  its first confirmation time, and that a refund's outcome is reported once.
\<close>

section \<open>Data\<close>

datatype payment_channel =
  ChannelMiniProgram | ChannelH5Official | ChannelAlipayWap | ChannelAlipayPage | ChannelOther string

datatype payment_status =
  PayAwaitingPrepay | PayAwaitingPayment | PayPaid | PayFailed | PayCancelled | PayStatusOther string

datatype refund_status =
  RefundRequested | RefundEffectAccepted | RefundOutcomeUnknown | RefundCompleted | RefundFinalFailed
| RefundHistoryRequested | RefundHistoryProcessing | RefundHistoryFailed | RefundHistoryClosed
| RefundStatusOther string

datatype effect_state_value =
  EffAccepted | EffQueued | EffAttempted | EffExecuted | EffOutcomeUnknown | EffRetryableFailed
| EffFinalFailed | EffReconciled | EffOther string

record payment =
  pay_historical :: bool
  pay_source_status :: string
  pay_history_reason :: string
  pay_id :: int64
  pay_order_id :: int64
  pay_provider :: provider
  pay_channel :: payment_channel
  pay_merchant_order_no :: string
  pay_payer_identity_id :: int64
  pay_payer_customer_id :: int64
  pay_beneficiary_customer_id :: int64
  pay_amount_minor :: int64
  pay_profit_sharing_marked :: bool
  pay_currency :: string
  pay_status :: payment_status
  pay_effect_id :: string
  pay_provider_transaction_reference :: string
  pay_provider_transaction_digest :: string
  pay_version :: int64
  pay_paid_confirmed_at :: "time option"
  pay_created_at :: time
  pay_updated_at :: time

record refund =
  rf_id :: int64
  rf_payment_id :: int64
  rf_provider :: provider
  rf_refund_no :: string
  rf_reason :: string
  rf_amount_minor :: int64
  rf_status :: refund_status
  rf_effect_id :: string
  rf_provider_refund_reference :: string
  rf_provider_refund_digest :: string
  rf_version :: int64
  rf_created_at :: time
  rf_updated_at :: time

datatype payment_error = PayErrInvalid | PayErrTransition | PayErrVersion | PayErrProfitSharing

section \<open>Payments\<close>

text \<open>\<open>NewPayment\<close> and \<open>NewPaymentWithProfitSharing\<close> share this constructor; the requested
  channel is an optional argument.\<close>

definition new_payment_marked ::
  "order_snapshot \<Rightarrow> int64 \<Rightarrow> time \<Rightarrow> bool \<Rightarrow> payment_channel list \<Rightarrow> payment_error + payment" where
  "new_payment_marked s payer_identity now marked requested =
     (case (snap_payer s, snap_beneficiary s) of
        (Some payer, Some beneficiary) \<Rightarrow>
          (let channel = (case requested of [] \<Rightarrow> ChannelMiniProgram | ch # _ \<Rightarrow> ch)
           in if snap_id s < 1 \<or> snap_origin s \<noteq> OriginNative \<or> \<not> snap_effect_eligible s \<or> payer_identity < 1
                 \<or> is_zero now \<or> currency (snap_amount s) \<noteq> ''CNY''
              then Inl PayErrInvalid
              else if snap_provider s \<noteq> ProviderWeChatPay \<and> snap_provider s \<noteq> ProviderWeChatShop
                      \<and> snap_provider s \<noteq> ProviderAlipay
              then Inl PayErrInvalid
              else if channel \<noteq> ChannelMiniProgram \<and> channel \<noteq> ChannelH5Official \<and> channel \<noteq> ChannelAlipayWap
                      \<and> channel \<noteq> ChannelAlipayPage
              then Inl PayErrInvalid
              else if marked \<and> snap_provider s \<noteq> ProviderWeChatPay then Inl PayErrInvalid
              else Inr \<lparr>pay_historical = False, pay_source_status = [], pay_history_reason = [], pay_id = 0,
                        pay_order_id = snap_id s, pay_provider = snap_provider s, pay_channel = channel,
                        pay_merchant_order_no = snap_merchant_order_no s, pay_payer_identity_id = payer_identity,
                        pay_payer_customer_id = payer, pay_beneficiary_customer_id = beneficiary,
                        pay_amount_minor = amount_minor (snap_amount s), pay_profit_sharing_marked = marked,
                        pay_currency = currency (snap_amount s), pay_status = PayAwaitingPrepay,
                        pay_effect_id = [], pay_provider_transaction_reference = [],
                        pay_provider_transaction_digest = [], pay_version = 1, pay_paid_confirmed_at = None,
                        pay_created_at = utc now, pay_updated_at = utc now\<rparr>)
      | _ \<Rightarrow> Inl PayErrInvalid)"

definition new_payment :: "order_snapshot \<Rightarrow> int64 \<Rightarrow> time \<Rightarrow> payment_channel list \<Rightarrow> payment_error + payment" where
  "new_payment s payer_identity now requested = new_payment_marked s payer_identity now False requested"

definition new_payment_with_profit_sharing ::
  "order_snapshot \<Rightarrow> int64 \<Rightarrow> bool \<Rightarrow> time \<Rightarrow> payment_channel list \<Rightarrow> payment_error + payment" where
  "new_payment_with_profit_sharing s payer_identity marked now requested =
     new_payment_marked s payer_identity now marked requested"

definition valid_effect_id :: "string \<Rightarrow> bool" where
  "valid_effect_id s \<longleftrightarrow>
     has_prefix s ''eer_'' \<and> 5 \<le> length s \<and> list_all (\<lambda>r. 48 \<le> r \<and> r \<le> 57) (runes (drop 4 s)) \<and> s ! 4 \<noteq> CHR ''0''"

definition payment_bind_effect :: "payment \<Rightarrow> int64 \<Rightarrow> string \<Rightarrow> time \<Rightarrow> payment_error + payment" where
  "payment_bind_effect p expected effect_id now =
     (if expected \<noteq> pay_version p then Inl PayErrVersion
      else if pay_status p \<noteq> PayAwaitingPrepay \<or> \<not> valid_effect_id effect_id \<or> now < pay_updated_at p
      then Inl PayErrTransition
      else Inr (p\<lparr>pay_effect_id := effect_id, pay_version := next_version (pay_version p), pay_updated_at := utc now\<rparr>))"

definition payment_settle :: "payment \<Rightarrow> int64 \<Rightarrow> payment_status \<Rightarrow> time \<Rightarrow> payment_error + payment" where
  "payment_settle p expected status now =
     (if expected \<noteq> pay_version p then Inl PayErrVersion
      else if now < pay_updated_at p \<or> (pay_status p \<noteq> PayAwaitingPrepay \<and> pay_status p \<noteq> PayAwaitingPayment)
              \<or> (status \<noteq> PayAwaitingPayment \<and> status \<noteq> PayPaid \<and> status \<noteq> PayFailed \<and> status \<noteq> PayCancelled)
      then Inl PayErrTransition
      else Inr (p\<lparr>pay_status := status, pay_version := next_version (pay_version p), pay_updated_at := utc now\<rparr>))"

definition restore_paid_confirmation :: "payment \<Rightarrow> int64 \<Rightarrow> time \<Rightarrow> time \<Rightarrow> payment_error + payment" where
  "restore_paid_confirmation p expected confirmed_at reconciled_at =
     (if expected \<noteq> pay_version p \<or> pay_status p \<noteq> PayPaid \<or> pay_paid_confirmed_at p \<noteq> None
         \<or> is_zero confirmed_at \<or> is_zero reconciled_at \<or> confirmed_at < pay_created_at p
         \<or> reconciled_at < pay_updated_at p \<or> reconciled_at < confirmed_at
      then Inl PayErrTransition
      else Inr (p\<lparr>pay_paid_confirmed_at := Some (utc confirmed_at), pay_version := next_version (pay_version p),
                  pay_updated_at := utc reconciled_at\<rparr>))"

section \<open>Refunds\<close>

definition new_refund :: "payment \<Rightarrow> string \<Rightarrow> int64 \<Rightarrow> string \<Rightarrow> time \<Rightarrow> payment_error + refund" where
  "new_refund p refund_no amount reason now =
     (let no = trim_space refund_no; why = trim_space reason
      in if pay_historical p \<or> pay_id p < 1 \<or> pay_status p \<noteq> PayPaid \<or> no = [] \<or> 200 < length no \<or> amount < 1
            \<or> pay_amount_minor p < amount \<or> why = [] \<or> 500 < length why \<or> is_zero now
         then Inl PayErrInvalid
         else Inr \<lparr>rf_id = 0, rf_payment_id = pay_id p, rf_provider = pay_provider p, rf_refund_no = no,
                   rf_reason = why, rf_amount_minor = amount, rf_status = RefundRequested, rf_effect_id = [],
                   rf_provider_refund_reference = [], rf_provider_refund_digest = [], rf_version = 1,
                   rf_created_at = utc now, rf_updated_at = utc now\<rparr>)"

definition refund_bind_effect :: "refund \<Rightarrow> int64 \<Rightarrow> string \<Rightarrow> time \<Rightarrow> payment_error + refund" where
  "refund_bind_effect r expected effect_id now =
     (if expected \<noteq> rf_version r then Inl PayErrVersion
      else if rf_status r \<noteq> RefundRequested \<or> \<not> valid_effect_id effect_id \<or> now < rf_updated_at r
      then Inl PayErrTransition
      else Inr (r\<lparr>rf_status := RefundEffectAccepted, rf_effect_id := effect_id,
                  rf_version := next_version (rf_version r), rf_updated_at := utc now\<rparr>))"

definition refund_complete :: "refund \<Rightarrow> int64 \<Rightarrow> refund_status \<Rightarrow> time \<Rightarrow> payment_error + refund" where
  "refund_complete r expected status now =
     (if expected \<noteq> rf_version r then Inl PayErrVersion
      else if now < rf_updated_at r \<or> (rf_status r \<noteq> RefundEffectAccepted \<and> rf_status r \<noteq> RefundOutcomeUnknown)
              \<or> (status \<noteq> RefundOutcomeUnknown \<and> status \<noteq> RefundCompleted \<and> status \<noteq> RefundFinalFailed)
      then Inl PayErrTransition
      else Inr (r\<lparr>rf_status := status, rf_version := next_version (rf_version r), rf_updated_at := utc now\<rparr>))"

definition historical_importable :: "refund_status \<Rightarrow> bool" where
  "historical_importable s \<longleftrightarrow>
     s = RefundCompleted \<or> s = RefundHistoryRequested \<or> s = RefundHistoryProcessing \<or> s = RefundHistoryFailed
     \<or> s = RefundHistoryClosed"

definition valid_effect_state_value :: "effect_state_value \<Rightarrow> bool" where
  "valid_effect_state_value s \<longleftrightarrow> (case s of EffOther _ \<Rightarrow> False | _ \<Rightarrow> True)"

section \<open>Profit sharing\<close>

datatype receiver_state = ReceiverAccepted | ReceiverReady | ReceiverOutcomeUnknown | ReceiverFinalFailed | ReceiverOther string

datatype sharing_state =
  SharingAccepted | SharingSettling | SharingOutcomeUnknown | SharingPaid | SharingCancelled | SharingException
| SharingOther string

record sharing_receiver =
  psr_id :: int64
  psr_customer_id :: int64
  psr_identity_id :: int64
  psr_app_id :: string
  psr_app_scope :: string
  psr_channel :: payment_channel
  psr_account_digest :: string
  psr_failure_class :: string
  psr_state :: receiver_state
  psr_effect_id :: string
  psr_version :: int64
  psr_created_at :: time
  psr_updated_at :: time

record sharing_instruction =
  psi_id :: int64
  psi_payment_id :: int64
  psi_receiver_id :: int64
  psi_settlement_ref :: string
  psi_provider_order_no :: string
  psi_idempotency_key_digest :: string
  psi_source_ref_digest :: string
  psi_payload_digest :: string
  psi_policy_version_hash :: string
  psi_amount_minor :: int64
  psi_currency :: string
  psi_state :: sharing_state
  psi_failure_class :: string
  psi_effect_id :: string
  psi_deadline_at :: time
  psi_receiver_confirmed_success :: bool
  psi_outcome_known :: bool
  psi_version :: int64
  psi_created_at :: time
  psi_updated_at :: time

record sharing_funding =
  fund_successful_refund_minor :: int64
  fund_requested_refund_minor :: int64
  fund_processing_refund_minor :: int64
  fund_outcome_unknown_refund_minor :: int64
  fund_reserved_split_minor :: int64

definition valid_receiver_state :: "receiver_state \<Rightarrow> bool" where
  "valid_receiver_state s \<longleftrightarrow>
     s = ReceiverAccepted \<or> s = ReceiverReady \<or> s = ReceiverOutcomeUnknown \<or> s = ReceiverFinalFailed"

definition valid_receiver_failure_class :: "string \<Rightarrow> bool" where
  "valid_receiver_failure_class s \<longleftrightarrow> s = [] \<or> s = ''provider_permission_denied''"

definition valid_instruction_failure_class :: "string \<Rightarrow> bool" where
  "valid_instruction_failure_class s \<longleftrightarrow>
     s \<in> {[], ''receiver_account_abnormal'', ''receiver_relation_removed'', ''receiver_high_risk'',
          ''receiver_real_name_unverified'', ''merchant_permission_revoked'', ''receiver_receipt_limit'',
          ''payer_account_abnormal'', ''invalid_split_request''}"

definition valid_sharing_state :: "sharing_state \<Rightarrow> bool" where
  "valid_sharing_state s \<longleftrightarrow> (case s of SharingOther _ \<Rightarrow> False | _ \<Rightarrow> True)"

definition reserving :: "sharing_state \<Rightarrow> bool" where
  "reserving s \<longleftrightarrow> s = SharingAccepted \<or> s = SharingSettling \<or> s = SharingOutcomeUnknown"

definition funding_refund_exposure :: "sharing_funding \<Rightarrow> bool" where
  "funding_refund_exposure f \<longleftrightarrow>
     0 < fund_requested_refund_minor f \<or> 0 < fund_processing_refund_minor f \<or> 0 < fund_outcome_unknown_refund_minor f"

definition cancel_instruction ::
  "sharing_instruction \<Rightarrow> int64 \<Rightarrow> string \<Rightarrow> time \<Rightarrow> payment_error + sharing_instruction" where
  "cancel_instruction v expected reason now =
     (if expected \<noteq> psi_version v \<or> \<not> reserving (psi_state v) \<or> trim_space reason \<noteq> reason \<or> reason = []
         \<or> 500 < length reason \<or> now < psi_updated_at v
      then Inl PayErrProfitSharing
      else Inr (v\<lparr>psi_state := SharingCancelled, psi_outcome_known := True,
                  psi_version := next_version (psi_version v), psi_updated_at := utc now\<rparr>))"

lemmas [operations] = new_payment_marked_def payment_bind_effect_def payment_settle_def restore_paid_confirmation_def
  new_refund_def refund_bind_effect_def refund_complete_def cancel_instruction_def

section \<open>Commands\<close>

datatype payment_command =
  PayBind int64 string time
| PaySettle int64 payment_status time
| PayRestore int64 time time

fun payment_exec :: "payment_command \<Rightarrow> payment \<Rightarrow> payment_error + payment" where
  "payment_exec (PayBind v e t) p = payment_bind_effect p v e t"
| "payment_exec (PaySettle v s t) p = payment_settle p v s t"
| "payment_exec (PayRestore v c t) p = restore_paid_confirmation p v c t"

fun payment_expected :: "payment_command \<Rightarrow> int64" where
  "payment_expected (PayBind v _ _) = v"
| "payment_expected (PaySettle v _ _) = v"
| "payment_expected (PayRestore v _ _) = v"

datatype refund_command = RfBind int64 string time | RfComplete int64 refund_status time

fun refund_exec :: "refund_command \<Rightarrow> refund \<Rightarrow> payment_error + refund" where
  "refund_exec (RfBind v e t) r = refund_bind_effect r v e t"
| "refund_exec (RfComplete v s t) r = refund_complete r v s t"

fun refund_expected :: "refund_command \<Rightarrow> int64" where
  "refund_expected (RfBind v _ _) = v"
| "refund_expected (RfComplete v _ _) = v"

interpretation payment_cas: cas_strict pay_version payment_expected payment_exec
proof unfold_locales
  show "\<not> is_ok (payment_exec c s)" if "payment_expected c \<noteq> pay_version s" for c s
    using that by (cases c) (auto simp: operations)
  show "pay_version t = pay_version s \<or> pay_version t = next_version (pay_version s)" "pay_version t = next_version (pay_version s)"
    if "payment_exec c s = Inr t" for c s t
    using that by (cases c; auto simp: operations)+
qed

interpretation refund_cas: cas_strict rf_version refund_expected refund_exec
proof unfold_locales
  show "\<not> is_ok (refund_exec c s)" if "refund_expected c \<noteq> rf_version s" for c s
    using that by (cases c) (auto simp: operations)
  show "rf_version t = rf_version s \<or> rf_version t = next_version (rf_version s)" "rf_version t = next_version (rf_version s)"
    if "refund_exec c s = Inr t" for c s t
    using that by (cases c; auto simp: operations)+
qed

section \<open>What a history of commands keeps\<close>

definition payment_kept :: "payment \<Rightarrow> payment \<Rightarrow> bool" where
  "payment_kept p q \<longleftrightarrow>
     pay_amount_minor q = pay_amount_minor p \<and> pay_currency q = pay_currency p \<and> pay_order_id q = pay_order_id p
     \<and> pay_payer_customer_id q = pay_payer_customer_id p \<and> pay_provider q = pay_provider p
     \<and> pay_profit_sharing_marked q = pay_profit_sharing_marked p
     \<and> pay_updated_at p \<le> pay_updated_at q
     \<and> (pay_status p = PayPaid \<longrightarrow> pay_status q = PayPaid)
     \<and> (pay_status p \<in> {PayFailed, PayCancelled} \<longrightarrow> q = p)
     \<and> (pay_paid_confirmed_at p \<noteq> None \<longrightarrow> pay_paid_confirmed_at q = pay_paid_confirmed_at p)"

lemma payment_exec_kept: "payment_exec c p = Inr q \<Longrightarrow> payment_kept p q"
  by (cases c) (auto simp: operations payment_kept_def)

interpretation payment_history: monotone_history payment_exec "\<lambda>_. True" payment_kept
  by unfold_locales (auto intro: payment_exec_kept, auto simp: payment_kept_def)

fun refund_rank :: "refund_status \<Rightarrow> nat" where
  "refund_rank RefundRequested = 0"
| "refund_rank RefundEffectAccepted = 1"
| "refund_rank RefundOutcomeUnknown = 2"
| "refund_rank _ = 3"

definition refund_step :: "refund_status \<Rightarrow> refund_status \<Rightarrow> bool" where
  "refund_step s s' \<longleftrightarrow>
     s = RefundRequested \<and> s' = RefundEffectAccepted
     \<or> s \<in> {RefundEffectAccepted, RefundOutcomeUnknown} \<and> s' \<in> {RefundOutcomeUnknown, RefundCompleted, RefundFinalFailed}"

interpretation refund_lifecycle: ranked refund_step refund_rank
  by unfold_locales (auto simp: refund_step_def)

definition refund_kept :: "refund \<Rightarrow> refund \<Rightarrow> bool" where
  "refund_kept r q \<longleftrightarrow>
     rf_amount_minor q = rf_amount_minor r \<and> rf_payment_id q = rf_payment_id r \<and> rf_refund_no q = rf_refund_no r
     \<and> refund_step\<^sup>*\<^sup>* (rf_status r) (rf_status q)
     \<and> (rf_effect_id r \<noteq> [] \<and> rf_status r \<noteq> RefundRequested \<longrightarrow> rf_effect_id q = rf_effect_id r)"

lemma refund_exec_status: "refund_exec c r = Inr q \<Longrightarrow> refund_step (rf_status r) (rf_status q)"
  by (cases c) (auto simp: operations refund_step_def)

lemma refund_exec_kept: "refund_exec c r = Inr q \<Longrightarrow> refund_kept r q"
  using refund_exec_status [of c r q]
  by (cases c) (auto simp: operations refund_kept_def)

lemma refund_not_back: "refund_step\<^sup>*\<^sup>* s RefundRequested \<Longrightarrow> s = RefundRequested"
  using refund_lifecycle.path_rank [of s RefundRequested] by simp

interpretation refund_history: monotone_history refund_exec "\<lambda>_. True" refund_kept
proof unfold_locales
  show "refund_kept s u" if "refund_kept s t" "refund_kept t u" for s t u
    using that refund_not_back [of "rf_status s"] unfolding refund_kept_def by (metis rtranclp_trans)
qed (auto intro: refund_exec_kept, auto simp: refund_kept_def)

lemma refund_final_stuck:
  "rf_status r \<in> {RefundCompleted, RefundFinalFailed} \<Longrightarrow> run_history refund_exec cs r = r"
proof (induction cs)
  case (Cons c cs)
  then have "\<not> is_ok (refund_exec c r)" by (cases c) (auto simp: operations)
  with Cons show ?case by (cases "refund_exec c r") auto
qed simp

section \<open>Properties\<close>

definition sample_payment :: payment where
  "sample_payment = \<lparr>pay_historical = False, pay_source_status = [], pay_history_reason = [], pay_id = 3,
     pay_order_id = 7, pay_provider = ProviderWeChatPay, pay_channel = ChannelMiniProgram,
     pay_merchant_order_no = ''M1'', pay_payer_identity_id = 11, pay_payer_customer_id = 7,
     pay_beneficiary_customer_id = 8, pay_amount_minor = 1200, pay_profit_sharing_marked = False,
     pay_currency = ''CNY'', pay_status = PayPaid, pay_effect_id = ''eer_9'',
     pay_provider_transaction_reference = [], pay_provider_transaction_digest = [], pay_version = 3,
     pay_paid_confirmed_at = None, pay_created_at = 100, pay_updated_at = 200\<rparr>"

definition sample_refund_row :: refund where
  "sample_refund_row = \<lparr>rf_id = 0, rf_payment_id = 3, rf_provider = ProviderWeChatPay, rf_refund_no = ''R1'',
     rf_reason = ''ask'', rf_amount_minor = 500, rf_status = RefundRequested, rf_effect_id = [],
     rf_provider_refund_reference = [], rf_provider_refund_digest = [], rf_version = 1,
     rf_created_at = 300, rf_updated_at = 300\<rparr>"

lemma sample_new_refund: "new_refund sample_payment ''R1'' 500 ''ask'' 300 = Inr sample_refund_row"
  by (simp add: new_refund_def sample_payment_def sample_refund_row_def ascii_text)

text \<open>
  Of two payment commands prepared from the same version at most one is accepted:
  whatever the first accepted command was, the second is refused.
\<close>

theorem payment_single_winner:
  assumes "is_int64 (pay_version p)" "payment_exec c p = Inr q" "payment_expected d = pay_version p"
  shows "\<not> is_ok (payment_exec d q)"
  by (rule payment_cas.single_winner [OF assms])

theorem payment_single_winner_witness:
  "\<not> is_ok (payment_exec (PayRestore 3 160 260)
     (sample_payment\<lparr>pay_paid_confirmed_at := Some 150, pay_version := 4, pay_updated_at := 250\<rparr>))"
  by (rule payment_single_winner [where p = sample_payment and c = "PayRestore 3 150 250"])
    (simp_all add: sample_payment_def is_int64_def restore_paid_confirmation_def)

text \<open>
  Whatever commands a payment receives, its amount, currency, order and payer never
  change; once paid it stays paid, once failed or cancelled nothing about it changes, and a
  confirmation time, once known, is never replaced.
\<close>

theorem payment_facts_kept: "payment_kept p (run_history payment_exec cs p)"
  by (rule payment_history.history_rel) simp

text \<open>
  C34: A refund created from a payment asks for between one unit and the paid amount and
  keeps that amount and its payment over any history of commands; its status only advances,
  and once it is completed or failed no command changes it any more.
\<close>

theorem refund_reported_once:
  assumes "new_refund p no amount why now = Inr r"
  shows "let q = run_history refund_exec cs r in
           1 \<le> amount \<and> rf_amount_minor q = amount \<and> amount \<le> pay_amount_minor p \<and> rf_payment_id q = pay_id p
           \<and> refund_step\<^sup>*\<^sup>* RefundRequested (rf_status q)
           \<and> (rf_status q \<in> {RefundCompleted, RefundFinalFailed} \<longrightarrow> run_history refund_exec ds q = q)"
proof -
  from assms have r: "1 \<le> amount" "rf_amount_minor r = amount" "amount \<le> pay_amount_minor p"
    "rf_payment_id r = pay_id p" "rf_status r = RefundRequested"
    by (auto simp: new_refund_def Let_def)
  have "refund_kept r (run_history refund_exec cs r)"
    by (rule refund_history.history_rel) simp
  with r show ?thesis using refund_final_stuck by (auto simp: refund_kept_def Let_def)
qed

theorem refund_reported_once_witness:
  "run_history refund_exec [RfBind 1 ''eer_7'' 310, RfComplete 2 RefundCompleted 320] sample_refund_row
     = sample_refund_row\<lparr>rf_status := RefundCompleted, rf_effect_id := ''eer_7'', rf_version := 3, rf_updated_at := 320\<rparr>
   \<and> run_history refund_exec [RfComplete 3 RefundFinalFailed 330]
       (run_history refund_exec [RfBind 1 ''eer_7'' 310, RfComplete 2 RefundCompleted 320] sample_refund_row)
     = run_history refund_exec [RfBind 1 ''eer_7'' 310, RfComplete 2 RefundCompleted 320] sample_refund_row"
proof -
  have v: "valid_effect_id ''eer_7''" by (simp add: valid_effect_id_def has_prefix_def ascii_text)
  then have run: "run_history refund_exec [RfBind 1 ''eer_7'' 310, RfComplete 2 RefundCompleted 320] sample_refund_row
     = sample_refund_row\<lparr>rf_status := RefundCompleted, rf_effect_id := ''eer_7'', rf_version := 3, rf_updated_at := 320\<rparr>"
    by (simp add: refund_bind_effect_def refund_complete_def sample_refund_row_def)
  from refund_reported_once [OF sample_new_refund, of "[RfBind 1 ''eer_7'' 310, RfComplete 2 RefundCompleted 320]"
      "[RfComplete 3 RefundFinalFailed 330]"] run show ?thesis
    unfolding Let_def run by (simp del: run_history.simps)
qed

end
