(* ===== verification/Distribution_Domain.thy ===== *)
theory Distribution_Domain
  imports Go_Strings Versioned
begin

text \<open>
  First-level distribution, \<open>internal/distribution/domain/distribution.go\<close>: product policies,
  distributors and their qualification, promotion credentials, order attributions and the
  commission each attribution earns. The lemmas show that a commission is the exact rounded
  share of what the buyer effectively paid, that it is paid at most once and only with the
  frozen amount, and that a cancelled commission is never resurrected.
\<close>

section \<open>Data\<close>

datatype product_type = TypeStandard | TypeServicePeriod | TypeOther string

datatype qualification_state =
  QualEligible | QualIneligible | QualSuspended | QualConflict | QualUnavailable | QualOther string

datatype credential_status = CredActive | CredRevoked | CredExpired | CredOther string

datatype commission_status =
  ComPending | ComHeld | ComSettling | ComPaid | ComCancelled | ComException | ComZero | ComOther string

datatype distribution_error = DistErrInvalid | DistErrTransition | DistErrVersion

record policy =
  pol_product_id :: int64
  pol_product_type :: product_type
  pol_enabled :: bool
  pol_rate :: int32
  pol_wait_days :: int32
  pol_version :: int64
  pol_created_at :: time
  pol_updated_at :: time

record distributor =
  dst_id :: int64
  dst_customer_id :: int64
  dst_public_no :: string
  dst_agreement_version :: string
  dst_enabled :: bool
  dst_registered_at :: time
  dst_version :: int64

record qualification =
  ql_state :: qualification_state
  ql_reason :: string
  ql_evidence_ref :: string
  ql_checked_at :: time

record credential =
  cr_id :: int64
  cr_distributor_id :: int64
  cr_product_id :: int64
  cr_product_type :: product_type
  cr_token_digest :: string
  cr_status :: credential_status
  cr_created_at :: time
  cr_expires_at :: time
  cr_revoked_at :: "time option"

record attribution =
  at_id :: int64
  at_order_id :: int64
  at_order_item_line :: int32
  at_product_code :: string
  at_product_name :: string
  at_distributor_id :: int64
  at_credential_id :: int64
  at_evidence_ref :: string
  at_qualification_state :: qualification_state
  at_policy_version :: int64
  at_rate :: int32
  at_wait_days :: int32
  at_attributed_at :: time

record commission =
  com_id :: int64
  com_attribution_id :: int64
  com_order_id :: int64
  com_order_item_line :: int32
  com_distributor_id :: int64
  com_original_paid_minor :: int64
  com_refunded_minor :: int64
  com_initial_minor :: int64
  com_payable_minor :: int64
  com_paid_minor :: int64
  com_rate :: int32
  com_paid_confirmed_at :: time
  com_due_at :: time
  com_status :: commission_status
  com_hold_reason :: string
  com_cancel_reason :: string
  com_exception_reason :: string
  com_version :: int64
  com_created_at :: time
  com_updated_at :: time

section \<open>Validity\<close>

definition max_rate :: int32 where "max_rate = 3000"

definition max_wait_days :: int32 where "max_wait_days = 29"

lemmas [limits] = max_rate_def max_wait_days_def

definition valid_product_type :: "product_type \<Rightarrow> bool" where
  "valid_product_type p \<longleftrightarrow> p = TypeStandard \<or> p = TypeServicePeriod"

definition valid_policy :: "policy \<Rightarrow> bool" where
  "valid_policy p \<longleftrightarrow>
     0 < pol_product_id p \<and> valid_product_type (pol_product_type p) \<and> 0 \<le> pol_rate p \<and> pol_rate p \<le> max_rate
     \<and> 0 \<le> pol_wait_days p \<and> pol_wait_days p \<le> max_wait_days \<and> 0 < pol_version p
     \<and> \<not> is_zero (pol_created_at p) \<and> \<not> pol_updated_at p < pol_created_at p"

definition valid_distributor :: "distributor \<Rightarrow> bool" where
  "valid_distributor d \<longleftrightarrow>
     0 < dst_id d \<and> 0 < dst_customer_id d \<and> dst_public_no d = trim_space (dst_public_no d)
     \<and> 6 \<le> length (dst_public_no d) \<and> length (dst_public_no d) \<le> 64
     \<and> dst_agreement_version d = trim_space (dst_agreement_version d) \<and> 1 \<le> length (dst_agreement_version d)
     \<and> length (dst_agreement_version d) \<le> 100 \<and> \<not> is_zero (dst_registered_at d) \<and> 0 < dst_version d"

definition valid_qualification_state :: "qualification_state \<Rightarrow> bool" where
  "valid_qualification_state s \<longleftrightarrow> (case s of QualOther _ \<Rightarrow> False | _ \<Rightarrow> True)"

definition allows_promotion :: "qualification \<Rightarrow> bool" where
  "allows_promotion q \<longleftrightarrow> ql_state q = QualEligible"

definition valid_qualification :: "qualification \<Rightarrow> bool" where
  "valid_qualification q \<longleftrightarrow>
     valid_qualification_state (ql_state q) \<and> ql_reason q = trim_space (ql_reason q) \<and> length (ql_reason q) \<le> 200
     \<and> ql_evidence_ref q = trim_space (ql_evidence_ref q) \<and> length (ql_evidence_ref q) \<le> 200
     \<and> \<not> is_zero (ql_checked_at q) \<and> (ql_state q \<noteq> QualEligible \<or> ql_evidence_ref q \<noteq> [])"

definition valid_credential :: "credential \<Rightarrow> bool" where
  "valid_credential c \<longleftrightarrow>
     0 < cr_id c \<and> 0 < cr_distributor_id c \<and> 0 < cr_product_id c \<and> valid_product_type (cr_product_type c)
     \<and> (cr_status c = CredActive \<or> cr_status c = CredRevoked \<or> cr_status c = CredExpired)
     \<and> \<not> is_zero (cr_created_at c) \<and> cr_created_at c < cr_expires_at c
     \<and> (cr_status c \<noteq> CredRevoked \<or> cr_revoked_at c \<noteq> None)"

definition credential_valid_for_insert :: "credential \<Rightarrow> bool" where
  "credential_valid_for_insert c \<longleftrightarrow>
     cr_id c = 0 \<and> 0 < cr_distributor_id c \<and> 0 < cr_product_id c \<and> valid_product_type (cr_product_type c)
     \<and> cr_status c = CredActive \<and> \<not> is_zero (cr_created_at c) \<and> cr_created_at c < cr_expires_at c
     \<and> cr_revoked_at c = None"

text \<open>The two validity checks of an attribution differ in the identity only.\<close>

definition attribution_facts_valid :: "attribution \<Rightarrow> bool" where
  "attribution_facts_valid a \<longleftrightarrow>
     0 < at_order_id a \<and> 0 < at_order_item_line a \<and> at_product_code a = trim_space (at_product_code a)
     \<and> 1 \<le> length (at_product_code a) \<and> length (at_product_code a) \<le> 200
     \<and> at_product_name a = trim_space (at_product_name a) \<and> 1 \<le> length (at_product_name a)
     \<and> length (at_product_name a) \<le> 500 \<and> 0 < at_distributor_id a \<and> 0 < at_credential_id a
     \<and> at_evidence_ref a = trim_space (at_evidence_ref a) \<and> at_evidence_ref a \<noteq> []
     \<and> length (at_evidence_ref a) \<le> 200 \<and> at_qualification_state a = QualEligible \<and> 0 < at_policy_version a
     \<and> 0 \<le> at_rate a \<and> at_rate a \<le> max_rate \<and> 0 \<le> at_wait_days a \<and> at_wait_days a \<le> max_wait_days
     \<and> \<not> is_zero (at_attributed_at a)"

definition valid_attribution :: "attribution \<Rightarrow> bool" where
  "valid_attribution a \<longleftrightarrow> 0 < at_id a \<and> attribution_facts_valid a"

definition attribution_valid_for_insert :: "attribution \<Rightarrow> bool" where
  "attribution_valid_for_insert a \<longleftrightarrow> at_id a = 0 \<and> attribution_facts_valid a"

definition valid_commission_status :: "commission_status \<Rightarrow> bool" where
  "valid_commission_status s \<longleftrightarrow> (case s of ComOther _ \<Rightarrow> False | _ \<Rightarrow> True)"

section \<open>Policies\<close>

definition new_policy :: "int64 \<Rightarrow> product_type \<Rightarrow> bool \<Rightarrow> int32 \<Rightarrow> int32 \<Rightarrow> time \<Rightarrow> distribution_error + policy" where
  "new_policy product kind enabled rate wait now =
     (let p = \<lparr>pol_product_id = product, pol_product_type = kind, pol_enabled = enabled, pol_rate = rate,
               pol_wait_days = wait, pol_version = 1, pol_created_at = utc now, pol_updated_at = utc now\<rparr>
      in if \<not> valid_policy p then Inl DistErrInvalid else Inr p)"

definition update_policy :: "policy \<Rightarrow> int64 \<Rightarrow> bool \<Rightarrow> int32 \<Rightarrow> int32 \<Rightarrow> time \<Rightarrow> distribution_error + policy" where
  "update_policy p expected enabled rate wait now =
     (if expected \<noteq> pol_version p then Inl DistErrVersion
      else if is_zero now \<or> now < pol_updated_at p then Inl DistErrInvalid
      else let q = p\<lparr>pol_enabled := enabled, pol_rate := rate, pol_wait_days := wait,
                     pol_version := next_version (pol_version p), pol_updated_at := utc now\<rparr>
           in if \<not> valid_policy q then Inl DistErrInvalid else Inr q)"

section \<open>Commissions\<close>

definition calculate_commission :: "int64 \<Rightarrow> int32 \<Rightarrow> distribution_error + int64" where
  "calculate_commission remaining rate =
     (if remaining < 0 \<or> rate < 0 \<or> max_rate < rate \<or> go_div max_int64 max_rate < remaining
      then Inl DistErrInvalid
      else Inr (go_div (wrap64 (remaining * rate)) 10000))"

definition new_commission :: "attribution \<Rightarrow> int64 \<Rightarrow> time \<Rightarrow> distribution_error + commission" where
  "new_commission a paid_minor paid_at =
     (if \<not> valid_attribution a \<or> paid_minor < 0 \<or> is_zero paid_at then Inl DistErrInvalid
      else and_then (calculate_commission paid_minor (at_rate a)) (\<lambda>initial.
        Inr \<lparr>com_id = 0, com_attribution_id = at_id a, com_order_id = at_order_id a,
             com_order_item_line = at_order_item_line a, com_distributor_id = at_distributor_id a,
             com_original_paid_minor = paid_minor, com_refunded_minor = 0, com_initial_minor = initial,
             com_payable_minor = initial, com_paid_minor = 0, com_rate = at_rate a,
             com_paid_confirmed_at = utc paid_at, com_due_at = utc paid_at + at_wait_days a * 24 * hour,
             com_status = (if initial = 0 then ComZero else ComPending), com_hold_reason = [],
             com_cancel_reason = [], com_exception_reason = [], com_version = 1,
             com_created_at = utc paid_at, com_updated_at = utc paid_at\<rparr>))"

text \<open>The version, the reason and the instant every later command checks.\<close>

definition bad_reason :: "string \<Rightarrow> bool" where
  "bad_reason s \<longleftrightarrow> trim_space s = [] \<or> 200 < length s"

definition bad_instant :: "commission \<Rightarrow> time \<Rightarrow> bool" where
  "bad_instant c at \<longleftrightarrow> is_zero at \<or> at < com_updated_at c"

definition touch :: "time \<Rightarrow> commission \<Rightarrow> commission" where
  "touch at c = c\<lparr>com_version := next_version (com_version c), com_updated_at := utc at\<rparr>"

definition reprice :: "commission \<Rightarrow> int64 \<Rightarrow> int64 \<Rightarrow> int64 \<Rightarrow> time \<Rightarrow> distribution_error + commission" where
  "reprice c expected original refunded at =
     (if expected \<noteq> com_version c \<or> original < 0 \<or> refunded < 0 \<or> original < refunded \<or> bad_instant c at
         \<or> (com_status c \<noteq> ComPending \<and> com_status c \<noteq> ComHeld)
      then Inl DistErrTransition
      else and_then (calculate_commission (wrap64 (original - refunded)) (com_rate c)) (\<lambda>payable.
        let n = touch at (c\<lparr>com_payable_minor := payable, com_refunded_minor := refunded\<rparr>)
        in Inr (if payable = 0 then n\<lparr>com_status := ComCancelled, com_cancel_reason := ''buyer_refund''\<rparr> else n)))"

definition refund_after_submission ::
  "commission \<Rightarrow> int64 \<Rightarrow> int64 \<Rightarrow> string \<Rightarrow> time \<Rightarrow> distribution_error + commission" where
  "refund_after_submission c expected refunded reason at =
     (if expected \<noteq> com_version c
         \<or> (com_status c \<noteq> ComSettling \<and> com_status c \<noteq> ComPaid \<and> com_status c \<noteq> ComException)
         \<or> refunded < com_refunded_minor c \<or> com_original_paid_minor c < refunded \<or> bad_reason reason \<or> bad_instant c at
      then Inl DistErrTransition
      else and_then (calculate_commission (wrap64 (com_original_paid_minor c - refunded)) (com_rate c)) (\<lambda>payable.
        let n = c\<lparr>com_refunded_minor := refunded, com_payable_minor := payable\<rparr>
        in Inr (touch at (if com_status c \<noteq> ComException
                          then n\<lparr>com_status := ComException, com_exception_reason := trim_space reason\<rparr> else n))))"

definition refund_after_finalization ::
  "commission \<Rightarrow> int64 \<Rightarrow> int64 \<Rightarrow> time \<Rightarrow> distribution_error + commission" where
  "refund_after_finalization c expected refunded at =
     (if expected \<noteq> com_version c \<or> (com_status c \<noteq> ComCancelled \<and> com_status c \<noteq> ComZero)
         \<or> refunded < com_refunded_minor c \<or> com_original_paid_minor c < refunded \<or> bad_instant c at
      then Inl DistErrTransition
      else Inr (touch at (c\<lparr>com_refunded_minor := refunded\<rparr>)))"

definition hold :: "commission \<Rightarrow> int64 \<Rightarrow> string \<Rightarrow> time \<Rightarrow> distribution_error + commission" where
  "hold c expected reason at =
     (if expected \<noteq> com_version c \<or> com_status c \<noteq> ComPending \<or> bad_reason reason \<or> bad_instant c at
      then Inl DistErrTransition
      else Inr (touch at (c\<lparr>com_status := ComHeld, com_hold_reason := trim_space reason\<rparr>)))"

definition resume :: "commission \<Rightarrow> int64 \<Rightarrow> time \<Rightarrow> distribution_error + commission" where
  "resume c expected at =
     (if expected \<noteq> com_version c \<or> com_status c \<noteq> ComHeld \<or> com_payable_minor c < 1 \<or> bad_instant c at
      then Inl DistErrTransition
      else Inr (touch at (c\<lparr>com_status := ComPending, com_hold_reason := []\<rparr>)))"

text \<open>The fields both cancellations write.\<close>

definition cancelled :: "string \<Rightarrow> commission \<Rightarrow> commission" where
  "cancelled reason c = c\<lparr>com_status := ComCancelled, com_cancel_reason := trim_space reason,
     com_exception_reason := [], com_payable_minor := 0\<rparr>"

definition cancel_unsettled :: "commission \<Rightarrow> int64 \<Rightarrow> string \<Rightarrow> time \<Rightarrow> distribution_error + commission" where
  "cancel_unsettled c expected reason at =
     (if expected \<noteq> com_version c \<or> (com_status c \<noteq> ComPending \<and> com_status c \<noteq> ComHeld)
         \<or> bad_reason reason \<or> bad_instant c at
      then Inl DistErrTransition
      else Inr (touch at (cancelled reason c)))"

definition confirm_instruction_unpaid :: "commission \<Rightarrow> int64 \<Rightarrow> string \<Rightarrow> time \<Rightarrow> distribution_error + commission" where
  "confirm_instruction_unpaid c expected reason at =
     (if expected \<noteq> com_version c
         \<or> (com_status c \<noteq> ComSettling \<and> \<not> (com_status c = ComException \<and> com_paid_minor c = 0))
         \<or> com_paid_minor c \<noteq> 0 \<or> bad_reason reason \<or> bad_instant c at
      then Inl DistErrTransition
      else Inr (touch at (cancelled reason c)))"

definition begin_settlement :: "commission \<Rightarrow> int64 \<Rightarrow> time \<Rightarrow> distribution_error + commission" where
  "begin_settlement c expected at =
     (if expected \<noteq> com_version c \<or> com_status c \<noteq> ComPending \<or> com_payable_minor c < 1 \<or> at < com_due_at c
         \<or> at < com_updated_at c
      then Inl DistErrTransition
      else Inr (touch at (c\<lparr>com_status := ComSettling\<rparr>)))"

definition confirm_receiver_paid :: "commission \<Rightarrow> int64 \<Rightarrow> int64 \<Rightarrow> time \<Rightarrow> distribution_error + commission" where
  "confirm_receiver_paid c expected actual at =
     (if expected \<noteq> com_version c
         \<or> (com_status c \<noteq> ComSettling \<and> \<not> (com_status c = ComException \<and> com_paid_minor c = 0))
         \<or> actual < 1 \<or> (com_status c = ComSettling \<and> actual \<noteq> com_payable_minor c)
         \<or> (com_status c = ComException \<and> actual < com_payable_minor c) \<or> bad_instant c at
      then Inl DistErrTransition
      else Inr (touch at (c\<lparr>com_status := ComPaid, com_paid_minor := actual\<rparr>)))"

definition mark_exception :: "commission \<Rightarrow> int64 \<Rightarrow> string \<Rightarrow> time \<Rightarrow> distribution_error + commission" where
  "mark_exception c expected reason at =
     (if expected \<noteq> com_version c
         \<or> (com_status c \<noteq> ComPending \<and> com_status c \<noteq> ComHeld \<and> com_status c \<noteq> ComSettling \<and> com_status c \<noteq> ComPaid)
         \<or> bad_reason reason \<or> bad_instant c at
      then Inl DistErrTransition
      else Inr (touch at (c\<lparr>com_status := ComException, com_exception_reason := trim_space reason\<rparr>)))"

lemmas commission_ops = reprice_def refund_after_submission_def refund_after_finalization_def hold_def resume_def
  cancel_unsettled_def confirm_instruction_unpaid_def begin_settlement_def confirm_receiver_paid_def
  mark_exception_def Let_def and_then_eq_Inr

lemma touch_fields [simp]:
  "com_version (touch at c) = next_version (com_version c)" "com_updated_at (touch at c) = at"
  "com_status (touch at c) = com_status c" "com_paid_minor (touch at c) = com_paid_minor c"
  "com_payable_minor (touch at c) = com_payable_minor c" "com_refunded_minor (touch at c) = com_refunded_minor c"
  "com_original_paid_minor (touch at c) = com_original_paid_minor c" "com_rate (touch at c) = com_rate c"
  "com_due_at (touch at c) = com_due_at c" "com_initial_minor (touch at c) = com_initial_minor c"
  "com_order_id (touch at c) = com_order_id c" "com_distributor_id (touch at c) = com_distributor_id c"
  by (simp_all add: touch_def)

lemma touch_status [simp]: "(touch at c)\<lparr>com_status := s, com_cancel_reason := r\<rparr> = touch at (c\<lparr>com_status := s, com_cancel_reason := r\<rparr>)"
  by (simp add: touch_def)

lemma cancelled_fields [simp]:
  "com_version (cancelled r c) = com_version c" "com_status (cancelled r c) = ComCancelled"
  "com_payable_minor (cancelled r c) = 0" "com_paid_minor (cancelled r c) = com_paid_minor c"
  "com_refunded_minor (cancelled r c) = com_refunded_minor c"
  "com_original_paid_minor (cancelled r c) = com_original_paid_minor c" "com_rate (cancelled r c) = com_rate c"
  "com_due_at (cancelled r c) = com_due_at c" "com_initial_minor (cancelled r c) = com_initial_minor c"
  "com_order_id (cancelled r c) = com_order_id c" "com_distributor_id (cancelled r c) = com_distributor_id c"
  "com_updated_at (cancelled r c) = com_updated_at c"
  by (simp_all add: cancelled_def)

section \<open>Commands\<close>

datatype commission_command =
  Reprice int64 int64 int64 time
| RefundSubmitted int64 int64 string time
| RefundFinalized int64 int64 time
| Hold int64 string time
| Resume int64 time
| CancelUnsettled int64 string time
| ConfirmUnpaid int64 string time
| BeginSettlement int64 time
| ConfirmPaid int64 int64 time
| MarkException int64 string time

fun commission_exec :: "commission_command \<Rightarrow> commission \<Rightarrow> distribution_error + commission" where
  "commission_exec (Reprice v orig r t) c = reprice c v orig r t"
| "commission_exec (RefundSubmitted v r why t) c = refund_after_submission c v r why t"
| "commission_exec (RefundFinalized v r t) c = refund_after_finalization c v r t"
| "commission_exec (Hold v why t) c = hold c v why t"
| "commission_exec (Resume v t) c = resume c v t"
| "commission_exec (CancelUnsettled v why t) c = cancel_unsettled c v why t"
| "commission_exec (ConfirmUnpaid v why t) c = confirm_instruction_unpaid c v why t"
| "commission_exec (BeginSettlement v t) c = begin_settlement c v t"
| "commission_exec (ConfirmPaid v a t) c = confirm_receiver_paid c v a t"
| "commission_exec (MarkException v why t) c = mark_exception c v why t"

fun commission_expected :: "commission_command \<Rightarrow> int64" where
  "commission_expected (Reprice v _ _ _) = v"
| "commission_expected (RefundSubmitted v _ _ _) = v"
| "commission_expected (RefundFinalized v _ _) = v"
| "commission_expected (Hold v _ _) = v"
| "commission_expected (Resume v _) = v"
| "commission_expected (CancelUnsettled v _ _) = v"
| "commission_expected (ConfirmUnpaid v _ _) = v"
| "commission_expected (BeginSettlement v _) = v"
| "commission_expected (ConfirmPaid v _ _) = v"
| "commission_expected (MarkException v _ _) = v"

lemma commission_exec_version:
  "commission_exec k c = Inr d \<Longrightarrow> com_version d = next_version (com_version c) \<and> commission_expected k = com_version c"
  by (cases k) (auto simp: commission_ops split: if_splits)

interpretation commission_cas: cas_strict com_version commission_expected commission_exec
proof unfold_locales
  show "\<not> is_ok (commission_exec c s)" if "commission_expected c \<noteq> com_version s" for c s
    using that commission_exec_version [of c s] by (auto simp: is_ok_iff)
qed (auto dest: commission_exec_version)

section \<open>What commands keep\<close>

lemma calculate_commission_exact:
  assumes "calculate_commission remaining rate = Inr m"
  shows "0 \<le> remaining" "0 \<le> rate" "rate \<le> 3000" "m = remaining * rate div 10000" "0 \<le> m" "10 * m \<le> 3 * remaining"
proof -
  from assms have b: "0 \<le> remaining" "0 \<le> rate" "rate \<le> 3000" "remaining \<le> max_int64 div 3000"
    and m: "m = go_div (wrap64 (remaining * rate)) 10000"
    by (auto simp: calculate_commission_def limits)
  have "remaining * rate \<le> remaining * 3000" using b by (intro mult_left_mono) auto
  moreover from b(4) have "remaining * 3000 \<le> max_int64" by simp
  ultimately have "wrap64 (remaining * rate) = remaining * rate" using b by simp
  with m b show eq: "m = remaining * rate div 10000" by simp
  with b show "0 \<le> m" by (simp add: pos_imp_zdiv_nonneg_iff)
  from eq have "10000 * m \<le> remaining * rate" by linarith
  with \<open>remaining * rate \<le> remaining * 3000\<close> show "10 * m \<le> 3 * remaining" by linarith
  from b show "0 \<le> remaining" "0 \<le> rate" "rate \<le> 3000" by auto
qed

definition commission_inv :: "commission \<Rightarrow> bool" where
  "commission_inv c \<longleftrightarrow> 0 \<le> com_paid_minor c \<and> 0 \<le> com_payable_minor c \<and>
     (case com_status c of
        ComPending \<Rightarrow> com_paid_minor c = 0
      | ComHeld \<Rightarrow> com_paid_minor c = 0
      | ComSettling \<Rightarrow> com_paid_minor c = 0 \<and> 1 \<le> com_payable_minor c \<and> com_due_at c \<le> com_updated_at c
      | ComPaid \<Rightarrow> 1 \<le> com_paid_minor c
      | ComCancelled \<Rightarrow> com_paid_minor c = 0 \<and> com_payable_minor c = 0
      | ComZero \<Rightarrow> com_paid_minor c = 0 \<and> com_payable_minor c = 0
      | ComException \<Rightarrow> True
      | ComOther _ \<Rightarrow> False)"

definition commission_kept :: "commission \<Rightarrow> commission \<Rightarrow> bool" where
  "commission_kept c d \<longleftrightarrow>
     com_order_id d = com_order_id c \<and> com_distributor_id d = com_distributor_id c
     \<and> com_initial_minor d = com_initial_minor c \<and> com_rate d = com_rate c
     \<and> com_original_paid_minor d = com_original_paid_minor c \<and> com_due_at d = com_due_at c
     \<and> com_updated_at c \<le> com_updated_at d
     \<and> (0 < com_paid_minor c \<longrightarrow> com_paid_minor d = com_paid_minor c)
     \<and> (com_status c = ComCancelled \<longrightarrow> com_status d = ComCancelled)
     \<and> (com_status c = ComZero \<longrightarrow> com_status d = ComZero)"

lemma commission_exec_inv: "commission_inv c \<Longrightarrow> commission_exec k c = Inr d \<Longrightarrow> commission_inv d"
  by (cases k)
    (auto simp: commission_ops commission_inv_def bad_instant_def dest!: calculate_commission_exact(5) split: if_splits)

lemma commission_exec_kept: "commission_inv c \<Longrightarrow> commission_exec k c = Inr d \<Longrightarrow> commission_kept c d"
  by (cases k)
    (auto simp: commission_ops commission_inv_def commission_kept_def bad_instant_def split: if_splits)

interpretation commission_history: monotone_history commission_exec commission_inv commission_kept
  by unfold_locales
    (auto intro: commission_exec_inv commission_exec_kept simp: commission_kept_def [of s s for s],
     auto simp: commission_kept_def)

lemma new_commission_inv: "new_commission a p t = Inr c \<Longrightarrow> commission_inv c"
  by (auto simp: new_commission_def and_then_eq_Inr commission_inv_def dest: calculate_commission_exact(5))

section \<open>Properties\<close>

definition sample_attribution :: attribution where
  "sample_attribution = \<lparr>at_id = 4, at_order_id = 7, at_order_item_line = 1, at_product_code = ''P5'',
     at_product_name = ''Plan'', at_distributor_id = 2, at_credential_id = 3, at_evidence_ref = ''E1'',
     at_qualification_state = QualEligible, at_policy_version = 1, at_rate = 1500, at_wait_days = 7,
     at_attributed_at = 50\<rparr>"

definition sample_commission :: commission where
  "sample_commission = \<lparr>com_id = 0, com_attribution_id = 4, com_order_id = 7, com_order_item_line = 1,
     com_distributor_id = 2, com_original_paid_minor = 1299, com_refunded_minor = 0, com_initial_minor = 194,
     com_payable_minor = 194, com_paid_minor = 0, com_rate = 1500, com_paid_confirmed_at = 100,
     com_due_at = 604800000000100, com_status = ComPending, com_hold_reason = [], com_cancel_reason = [],
     com_exception_reason = [], com_version = 1, com_created_at = 100, com_updated_at = 100\<rparr>"

lemma sample_new_commission: "new_commission sample_attribution 1299 100 = Inr sample_commission"
  by (simp add: new_commission_def valid_attribution_def attribution_facts_valid_def sample_attribution_def ascii_text
      calculate_commission_def limits sample_commission_def duration_defs)

lemma sample_commission_inv: "commission_inv sample_commission"
  by (rule new_commission_inv [OF sample_new_commission])

text \<open>
  A new commission is worth exactly the paid amount times the attributed rate, rounded
  down, at most three tenths of what was paid, computed without overflow, and falls due the
  attributed number of days after the payment; repricing after a refund gives the same share
  of what is left.
\<close>

theorem commission_exact:
  assumes "new_commission a paid t = Inr c"
  shows "com_initial_minor c = paid * at_rate a div 10000 \<and> com_payable_minor c = com_initial_minor c
         \<and> 10 * com_initial_minor c \<le> 3 * paid \<and> (com_status c = ComZero \<longleftrightarrow> com_initial_minor c = 0)
         \<and> com_due_at c = t + at_wait_days a * 24 * hour
         \<and> (\<forall>v refunded at d. paid \<le> max_int64 \<and> reprice c v paid refunded at = Inr d \<longrightarrow>
              com_payable_minor d = (paid - refunded) * at_rate a div 10000 \<and> com_payable_minor d \<le> com_initial_minor c)"
proof -
  from assms obtain m where m: "calculate_commission paid (at_rate a) = Inr m"
    and c: "com_initial_minor c = m" "com_payable_minor c = m" "com_status c = (if m = 0 then ComZero else ComPending)"
      "com_due_at c = t + at_wait_days a * 24 * hour" "com_rate c = at_rate a"
    by (auto simp: new_commission_def and_then_eq_Inr)
  note e = calculate_commission_exact [OF m]
  have "com_payable_minor d = (paid - refunded) * at_rate a div 10000 \<and> com_payable_minor d \<le> com_initial_minor c"
    if "paid \<le> max_int64" "reprice c v paid refunded at = Inr d" for v refunded at d
  proof -
    from that(2) obtain p where g: "0 \<le> refunded" "refunded \<le> paid"
      and p: "calculate_commission (wrap64 (paid - refunded)) (at_rate a) = Inr p" "com_payable_minor d = p"
      by (auto simp: reprice_def and_then_eq_Inr Let_def c(5) split: if_splits)
    from g that(1) e(1) have "wrap64 (paid - refunded) = paid - refunded" by simp
    with p calculate_commission_exact(4) [OF p(1)] have "com_payable_minor d = (paid - refunded) * at_rate a div 10000" by simp
    moreover have "(paid - refunded) * at_rate a div 10000 \<le> paid * at_rate a div 10000"
      using g e by (intro zdiv_mono1 mult_right_mono) auto
    ultimately show ?thesis using c(1) e(4) by simp
  qed
  then have "\<forall>v refunded at d. paid \<le> max_int64 \<and> reprice c v paid refunded at = Inr d \<longrightarrow>
      com_payable_minor d = (paid - refunded) * at_rate a div 10000 \<and> com_payable_minor d \<le> com_initial_minor c" by blast
  moreover have "com_initial_minor c = paid * at_rate a div 10000" "com_payable_minor c = com_initial_minor c"
    "10 * com_initial_minor c \<le> 3 * paid" "com_status c = ComZero \<longleftrightarrow> com_initial_minor c = 0"
    using c e by auto
  ultimately show ?thesis using c(4) by blast
qed

theorem commission_exact_witness: "com_initial_minor sample_commission = 1299 * 1500 div 10000 \<and> com_due_at sample_commission = 100 + 7 * 24 * hour"
  using commission_exact [OF sample_new_commission] by (simp add: sample_attribution_def)

text \<open>
  Over any history of commands, a commission is paid at most once: once an amount is
  recorded as paid, no later command changes it, a pending, held, settling, cancelled or zero
  commission has nothing paid, and the order, distributor, rate and initial amount never
  change.
\<close>

theorem commission_paid_once:
  assumes "new_commission a paid t = Inr c"
  shows "let d = run_history commission_exec cs c; e = run_history commission_exec ds d in
           (0 < com_paid_minor d \<longrightarrow> com_paid_minor e = com_paid_minor d)
           \<and> (com_paid_minor e = 0 \<or> com_status e = ComPaid \<or> com_status e = ComException)
           \<and> commission_kept c e"
proof -
  note c = new_commission_inv [OF assms]
  let ?d = "run_history commission_exec cs c" and ?e = "run_history commission_exec (cs @ ds) c"
  note d = commission_history.history_inv [OF c, of cs]
  have "commission_kept ?d ?e"
    using commission_history.history_rel [OF d, of ds] by (simp add: run_history_append)
  moreover have "commission_kept c ?e" by (rule commission_history.history_rel [OF c])
  moreover have "commission_inv ?e" by (rule commission_history.history_inv [OF c])
  ultimately show ?thesis
    by (auto simp: Let_def commission_kept_def commission_inv_def run_history_append split: commission_status.splits)
qed

definition sample_due :: time where "sample_due = 604800000000100"

theorem commission_paid_once_witness:
  "com_paid_minor (run_history commission_exec [MarkException 3 ''refund'' (sample_due + 2)]
     (run_history commission_exec [BeginSettlement 1 sample_due, ConfirmPaid 2 194 (sample_due + 1)] sample_commission)) = 194"
proof -
  have "com_paid_minor (run_history commission_exec [BeginSettlement 1 sample_due, ConfirmPaid 2 194 (sample_due + 1)] sample_commission) = 194"
    by (simp add: begin_settlement_def confirm_receiver_paid_def sample_commission_def touch_def bad_instant_def sample_due_def)
  with commission_paid_once [OF sample_new_commission, of "[BeginSettlement 1 sample_due, ConfirmPaid 2 194 (sample_due + 1)]"
      "[MarkException 3 ''refund'' (sample_due + 2)]"]
  show ?thesis by (simp add: Let_def del: run_history.simps)
qed

text \<open>
  A cancelled or zero commission is never resurrected: whatever commands follow, it keeps
  that status, nothing is payable on it and nothing is paid.
\<close>

theorem cancelled_commission_final:
  assumes "new_commission a paid t = Inr c" "d = run_history commission_exec cs c" "com_status d \<in> {ComCancelled, ComZero}"
  shows "com_status (run_history commission_exec ds d) = com_status d
         \<and> com_payable_minor (run_history commission_exec ds d) = 0 \<and> com_paid_minor (run_history commission_exec ds d) = 0"
proof -
  have d: "commission_inv d"
    using commission_history.history_inv [OF new_commission_inv [OF assms(1)], of cs] assms(2) by simp
  from commission_history.history_rel [OF this, of ds] commission_history.history_inv [OF this, of ds] assms(3)
  show ?thesis by (auto simp: commission_kept_def commission_inv_def)
qed

theorem cancelled_commission_final_witness:
  "com_status (run_history commission_exec [Resume 2 300] (run_history commission_exec [CancelUnsettled 1 ''stop'' 200] sample_commission))
   = ComCancelled"
proof -
  have "com_status (run_history commission_exec [CancelUnsettled 1 ''stop'' 200] sample_commission) = ComCancelled"
    by (simp add: cancel_unsettled_def sample_commission_def bad_reason_def bad_instant_def ascii_text)
  with cancelled_commission_final [OF sample_new_commission refl, of "[CancelUnsettled 1 ''stop'' 200]" "[Resume 2 300]"]
  show ?thesis by (simp del: run_history.simps)
qed

text \<open>
  The version of a commission counts its accepted commands exactly, so of two commands
  prepared from the same version at most one is accepted.
\<close>

theorem commission_versions_count:
  assumes "new_commission a paid t = Inr c" "run_all commission_exec cs c = Inr d" "int (length cs) < max_int64"
    "commission_exec k d = Inr e" "commission_expected l = com_version d"
  shows "com_version d = 1 + int (length cs) \<and> \<not> is_ok (commission_exec l e)"
proof -
  from assms(1) have v: "com_version c = 1" by (auto simp: new_commission_def and_then_eq_Inr)
  from commission_cas.run_all_version [OF assms(2)] v assms(3) have d: "com_version d = 1 + int (length cs)" by simp
  moreover have "\<not> is_ok (commission_exec l e)"
    using commission_cas.single_winner [OF _ assms(4,5)] d assms(3) by (simp add: is_int64_def)
  ultimately show ?thesis by simp
qed

theorem commission_versions_count_witness:
  "\<not> is_ok (commission_exec (CancelUnsettled 2 ''stop'' 300)
     (sample_commission\<lparr>com_version := 3, com_updated_at := 200\<rparr>))"
proof -
  have h: "run_all commission_exec [Hold 1 ''check'' 150] sample_commission
     = Inr (sample_commission\<lparr>com_status := ComHeld, com_hold_reason := ''check'', com_version := 2, com_updated_at := 150\<rparr>)"
    by (simp add: hold_def sample_commission_def bad_reason_def bad_instant_def ascii_text touch_def)
  have r: "commission_exec (Resume 2 200)
      (sample_commission\<lparr>com_status := ComHeld, com_hold_reason := ''check'', com_version := 2, com_updated_at := 150\<rparr>)
     = Inr (sample_commission\<lparr>com_version := 3, com_updated_at := 200\<rparr>)"
    by (simp add: resume_def sample_commission_def bad_instant_def touch_def)
  from commission_versions_count [OF sample_new_commission h _ r, of "CancelUnsettled 2 ''stop'' 300"]
  show ?thesis by (simp add: sample_commission_def)
qed

end
