(* ===== verification/Referral_Domain.thy ===== *)
theory Referral_Domain
  imports Go_Strings Versioned
begin

text \<open>
  Referral campaigns, \<open>internal/referral/domain/referral.go\<close> and \<open>product_sales.go\<close>: the
  campaign with its configuration and lifecycle, teams, participations, invitations,
  relationships, score events, sales facts and product sale events. The lemmas show that a
  started campaign cannot be reconfigured, that an ended or disabled one is frozen, when a
  campaign accepts participants, and how far the refund arithmetic of a sales fact is exact.
\<close>

section \<open>Campaign configuration\<close>

datatype team_mode = TeamModeTeam | TeamModeIndividual | TeamModeOther string

datatype qualification_mode = QualFreeSignup | QualProductPurchase | QualModeOther string

datatype leaderboard_metric = LbInvites | LbSalesAmount | LbSalesOrders | LbOther string

datatype campaign_state = CampDraft | CampScheduled | CampActive | CampEnded | CampDisabled | CampOther string

datatype referral_error = RefErrInvalid | RefErrTransition | RefErrVersion

record campaign_config =
  cfg_team_mode :: team_mode
  cfg_qualification_mode :: qualification_mode
  cfg_product_id :: int64
  cfg_product_type :: string
  cfg_leaderboard :: leaderboard_metric

definition valid_team_mode :: "team_mode \<Rightarrow> bool" where
  "valid_team_mode m \<longleftrightarrow> m = TeamModeTeam \<or> m = TeamModeIndividual"

definition valid_qualification_mode :: "qualification_mode \<Rightarrow> bool" where
  "valid_qualification_mode m \<longleftrightarrow> m = QualFreeSignup \<or> m = QualProductPurchase"

definition valid_leaderboard :: "leaderboard_metric \<Rightarrow> bool" where
  "valid_leaderboard m \<longleftrightarrow> m = LbInvites \<or> m = LbSalesAmount \<or> m = LbSalesOrders \<or> m = LbOther ''sales''"

definition default_campaign_config :: campaign_config where
  "default_campaign_config = \<lparr>cfg_team_mode = TeamModeTeam, cfg_qualification_mode = QualFreeSignup,
     cfg_product_id = 0, cfg_product_type = [], cfg_leaderboard = LbInvites\<rparr>"

text \<open>Empty settings take the default; the old metric name \<open>sales\<close> means the sales amount.\<close>

definition normalized :: "campaign_config \<Rightarrow> campaign_config" where
  "normalized c =
     (let c1 = (if cfg_team_mode c = TeamModeOther []
                then c\<lparr>cfg_team_mode := cfg_team_mode default_campaign_config\<rparr> else c);
          c2 = (if cfg_qualification_mode c1 = QualModeOther []
                then c1\<lparr>cfg_qualification_mode := cfg_qualification_mode default_campaign_config\<rparr> else c1);
          c3 = (if cfg_leaderboard c2 = LbOther []
                then c2\<lparr>cfg_leaderboard := cfg_leaderboard default_campaign_config\<rparr> else c2)
      in if cfg_leaderboard c3 = LbOther ''sales'' then c3\<lparr>cfg_leaderboard := LbSalesAmount\<rparr> else c3)"

definition valid_campaign_config :: "campaign_config \<Rightarrow> bool" where
  "valid_campaign_config cfg =
     (let c = normalized cfg
      in if \<not> valid_team_mode (cfg_team_mode c) \<or> \<not> valid_qualification_mode (cfg_qualification_mode c)
            \<or> \<not> valid_leaderboard (cfg_leaderboard c)
         then False
         else if cfg_qualification_mode c = QualProductPurchase
         then 0 < cfg_product_id c \<and> (cfg_product_type c = ''standard_product'' \<or> cfg_product_type c = ''service_period'')
         else cfg_product_id c = 0 \<and> cfg_product_type c = [])"

lemma normalized_idem [simp]: "normalized (normalized c) = normalized c"
  by (cases c) (auto simp: normalized_def Let_def default_campaign_config_def)

section \<open>Campaigns\<close>

definition valid_campaign_state :: "campaign_state \<Rightarrow> bool" where
  "valid_campaign_state s \<longleftrightarrow> (case s of CampOther _ \<Rightarrow> False | _ \<Rightarrow> True)"

record campaign =
  camp_id :: int64
  camp_name :: string
  camp_cover_url :: string
  camp_description :: string
  camp_reward_rules :: string
  camp_state :: campaign_state
  camp_starts_at :: time
  camp_ends_at :: time
  camp_version :: int64
  camp_created_by :: int64
  camp_created_at :: time
  camp_updated_at :: time
  camp_team_mode :: team_mode
  camp_qualification_mode :: qualification_mode
  camp_product_id :: int64
  camp_product_type :: string
  camp_leaderboard :: leaderboard_metric

definition valid_text :: "string \<Rightarrow> nat \<Rightarrow> bool \<Rightarrow> bool" where
  "valid_text s maximum required \<longleftrightarrow> s = trim_space s \<and> length s \<le> maximum \<and> (\<not> required \<or> s \<noteq> [])"

definition campaign_config_of :: "campaign \<Rightarrow> campaign_config" where
  "campaign_config_of c = normalized
     \<lparr>cfg_team_mode = camp_team_mode c, cfg_qualification_mode = camp_qualification_mode c,
      cfg_product_id = camp_product_id c, cfg_product_type = camp_product_type c,
      cfg_leaderboard = camp_leaderboard c\<rparr>"

definition valid_campaign :: "campaign \<Rightarrow> bool" where
  "valid_campaign c \<longleftrightarrow>
     0 < camp_id c \<and> valid_text (camp_name c) 200 True \<and> valid_text (camp_cover_url c) 2000 False
     \<and> valid_text (camp_description c) 5000 False \<and> valid_text (camp_reward_rules c) 5000 False
     \<and> valid_campaign_state (camp_state c) \<and> \<not> is_zero (camp_starts_at c) \<and> \<not> is_zero (camp_ends_at c)
     \<and> camp_starts_at c < camp_ends_at c \<and> 0 < camp_version c \<and> 0 \<le> camp_created_by c
     \<and> \<not> is_zero (camp_created_at c) \<and> \<not> camp_updated_at c < camp_created_at c
     \<and> valid_campaign_config (campaign_config_of c)"

definition campaign_valid_for_insert :: "campaign \<Rightarrow> bool" where
  "campaign_valid_for_insert c \<longleftrightarrow>
     \<not> (camp_id c \<noteq> 0 \<or> camp_version c \<noteq> 1) \<and> valid_campaign (c\<lparr>camp_id := 1\<rparr>)"

definition accepting_at :: "campaign \<Rightarrow> time \<Rightarrow> bool" where
  "accepting_at c at =
     (if \<not> valid_campaign c \<or> is_zero at then False
      else (camp_state c = CampScheduled \<or> camp_state c = CampActive) \<and> \<not> at < camp_starts_at c \<and> at < camp_ends_at c)"

definition effective_state :: "campaign \<Rightarrow> time \<Rightarrow> campaign_state" where
  "effective_state c at =
     (if \<not> valid_campaign c \<or> is_zero at \<or> camp_state c = CampDraft \<or> camp_state c = CampDisabled
         \<or> camp_state c = CampEnded
      then camp_state c
      else if \<not> at < camp_ends_at c then CampEnded
      else if at < camp_starts_at c then CampScheduled
      else CampActive)"

record campaign_texts =
  new_name :: string
  new_cover_url :: string
  new_description :: string
  new_reward_rules :: string
  new_starts_at :: time
  new_ends_at :: time

definition campaign_updated :: "campaign \<Rightarrow> campaign_texts \<Rightarrow> campaign_config \<Rightarrow> time \<Rightarrow> campaign" where
  "campaign_updated c n cfg at = c\<lparr>camp_name := new_name n, camp_cover_url := new_cover_url n,
     camp_description := new_description n, camp_reward_rules := new_reward_rules n,
     camp_starts_at := utc (new_starts_at n), camp_ends_at := utc (new_ends_at n),
     camp_version := next_version (camp_version c), camp_updated_at := utc at,
     camp_team_mode := cfg_team_mode cfg, camp_qualification_mode := cfg_qualification_mode cfg,
     camp_product_id := cfg_product_id cfg, camp_product_type := cfg_product_type cfg,
     camp_leaderboard := cfg_leaderboard cfg\<rparr>"

definition update_with_config ::
  "campaign \<Rightarrow> int64 \<Rightarrow> campaign_texts \<Rightarrow> campaign_config \<Rightarrow> time \<Rightarrow> referral_error + campaign" where
  "update_with_config c expected n config at =
     (if expected \<noteq> camp_version c then Inl RefErrVersion
      else if camp_state c = CampDisabled \<or> effective_state c at = CampEnded then Inl RefErrTransition
      else let cfg = normalized config
           in if \<not> valid_campaign_config cfg then Inl RefErrInvalid
              else if \<not> at < camp_starts_at c
                      \<and> (cfg \<noteq> campaign_config_of c \<or> new_starts_at n \<noteq> camp_starts_at c \<or> new_ends_at n \<noteq> camp_ends_at c)
              then Inl RefErrTransition
              else if cfg \<noteq> campaign_config_of c \<and> \<not> at < utc (new_starts_at n) then Inl RefErrTransition
              else if is_zero at \<or> at < camp_updated_at c \<or> \<not> valid_campaign (campaign_updated c n cfg at)
              then Inl RefErrInvalid
              else Inr (campaign_updated c n cfg at))"

definition update_campaign :: "campaign \<Rightarrow> int64 \<Rightarrow> campaign_texts \<Rightarrow> time \<Rightarrow> referral_error + campaign" where
  "update_campaign c expected n at = update_with_config c expected n (campaign_config_of c) at"

fun transition_allowed :: "campaign_state \<Rightarrow> campaign_state \<Rightarrow> bool" where
  "transition_allowed CampDraft t \<longleftrightarrow> t = CampScheduled \<or> t = CampActive \<or> t = CampDisabled"
| "transition_allowed CampScheduled t \<longleftrightarrow> t = CampActive \<or> t = CampDisabled \<or> t = CampEnded"
| "transition_allowed CampActive t \<longleftrightarrow> t = CampEnded \<or> t = CampDisabled"
| "transition_allowed _ t \<longleftrightarrow> False"

definition transition :: "campaign \<Rightarrow> int64 \<Rightarrow> campaign_state \<Rightarrow> time \<Rightarrow> referral_error + campaign" where
  "transition c expected target at =
     (if expected \<noteq> camp_version c then Inl RefErrVersion
      else if is_zero at \<or> at < camp_updated_at c \<or> \<not> valid_campaign_state target then Inl RefErrInvalid
      else if \<not> transition_allowed (camp_state c) target then Inl RefErrTransition
      else Inr (c\<lparr>camp_state := target, camp_version := next_version (camp_version c), camp_updated_at := utc at\<rparr>))"

section \<open>Teams, participations, invitations and relationships\<close>

record team =
  team_id :: int64
  team_campaign_id :: int64
  team_captain_customer_id :: int64
  team_name :: string
  team_logo_url :: string
  team_version :: int64
  team_created_at :: time
  team_updated_at :: time

definition valid_team :: "team \<Rightarrow> bool" where
  "valid_team t \<longleftrightarrow>
     0 < team_id t \<and> 0 < team_campaign_id t \<and> 0 < team_captain_customer_id t \<and> valid_text (team_name t) 100 True
     \<and> valid_text (team_logo_url t) 2000 False \<and> 0 < team_version t \<and> \<not> is_zero (team_created_at t)
     \<and> \<not> team_updated_at t < team_created_at t"

definition team_valid_for_insert :: "team \<Rightarrow> bool" where
  "team_valid_for_insert t \<longleftrightarrow> \<not> (team_id t \<noteq> 0 \<or> team_version t \<noteq> 1) \<and> valid_team (t\<lparr>team_id := 1\<rparr>)"

datatype participation_state = PartActive | PartReversed | PartOther string

definition valid_participation_state :: "participation_state \<Rightarrow> bool" where
  "valid_participation_state s \<longleftrightarrow> s = PartActive \<or> s = PartReversed"

record participation =
  part_id :: int64
  part_campaign_id :: int64
  part_customer_id :: int64
  part_team_id :: int64
  part_invitation_id :: int64
  part_inviter_customer_id :: int64
  part_inviter_team_id :: int64
  part_state :: participation_state
  part_joined_at :: time

definition valid_participation :: "participation \<Rightarrow> bool" where
  "valid_participation p \<longleftrightarrow>
     0 < part_id p \<and> 0 < part_campaign_id p \<and> 0 < part_customer_id p \<and> 0 \<le> part_team_id p
     \<and> 0 \<le> part_invitation_id p \<and> 0 \<le> part_inviter_customer_id p \<and> 0 \<le> part_inviter_team_id p
     \<and> valid_participation_state (part_state p) \<and> \<not> is_zero (part_joined_at p)
     \<and> (part_invitation_id p = 0 \<and> part_inviter_customer_id p = 0 \<and> part_inviter_team_id p = 0
        \<or> 0 < part_invitation_id p \<and> 0 < part_inviter_customer_id p \<and> 0 \<le> part_inviter_team_id p)"

datatype invitation_state = InvActive | InvRevoked | InvExpired | InvOther string

definition valid_invitation_state :: "invitation_state \<Rightarrow> bool" where
  "valid_invitation_state s \<longleftrightarrow> s = InvActive \<or> s = InvRevoked \<or> s = InvExpired"

record invitation =
  inv_id :: int64
  inv_campaign_id :: int64
  inv_inviter_customer_id :: int64
  inv_token_digest :: string
  inv_state :: invitation_state
  inv_created_at :: time
  inv_expires_at :: time
  inv_revoked_at :: "time option"

definition valid_invitation :: "invitation \<Rightarrow> bool" where
  "valid_invitation i \<longleftrightarrow>
     0 < inv_id i \<and> 0 < inv_campaign_id i \<and> 0 < inv_inviter_customer_id i \<and> valid_invitation_state (inv_state i)
     \<and> \<not> is_zero (inv_created_at i) \<and> inv_created_at i < inv_expires_at i
     \<and> (inv_state i = InvRevoked) = (inv_revoked_at i \<noteq> None)"

record relationship =
  rel_id :: int64
  rel_customer_id :: int64
  rel_referrer_customer_id :: int64
  rel_source_campaign_id :: int64
  rel_invitation_id :: int64
  rel_version :: int64
  rel_effective_at :: time

definition valid_relationship :: "relationship \<Rightarrow> bool" where
  "valid_relationship r \<longleftrightarrow>
     0 < rel_id r \<and> 0 < rel_customer_id r \<and> 0 < rel_referrer_customer_id r
     \<and> rel_customer_id r \<noteq> rel_referrer_customer_id r \<and> 0 < rel_source_campaign_id r \<and> 0 < rel_invitation_id r
     \<and> 0 < rel_version r \<and> \<not> is_zero (rel_effective_at r)"

record relationship_history =
  rh_id :: int64
  rh_relationship_id :: int64
  rh_version :: int64
  rh_customer_id :: int64
  rh_previous_referrer_customer_id :: int64
  rh_referrer_customer_id :: int64
  rh_source_campaign_id :: int64
  rh_invitation_id :: int64
  rh_accepted_at :: time

definition valid_relationship_history :: "relationship_history \<Rightarrow> bool" where
  "valid_relationship_history h \<longleftrightarrow>
     0 < rh_id h \<and> 0 < rh_relationship_id h \<and> 0 < rh_version h \<and> 0 < rh_customer_id h
     \<and> 0 < rh_referrer_customer_id h \<and> rh_customer_id h \<noteq> rh_referrer_customer_id h
     \<and> 0 < rh_source_campaign_id h \<and> 0 < rh_invitation_id h \<and> \<not> is_zero (rh_accepted_at h)"

section \<open>Scores, rewards and sales\<close>

datatype score_kind = ScoreCredit | ScoreReverse | ScoreOther string

definition valid_score_kind :: "score_kind \<Rightarrow> bool" where
  "valid_score_kind k \<longleftrightarrow> k = ScoreCredit \<or> k = ScoreReverse"

record score_event =
  sc_id :: int64
  sc_campaign_id :: int64
  sc_participation_id :: int64
  sc_inviter_customer_id :: int64
  sc_team_id :: int64
  sc_delta :: int64
  sc_reverses :: int64
  sc_kind :: score_kind
  sc_reason :: string
  sc_event_at :: time

definition valid_score_event :: "score_event \<Rightarrow> bool" where
  "valid_score_event e =
     (if sc_id e < 1 \<or> sc_campaign_id e < 1 \<or> sc_participation_id e < 1 \<or> sc_inviter_customer_id e < 1
         \<or> sc_team_id e < 0 \<or> \<not> valid_score_kind (sc_kind e) \<or> is_zero (sc_event_at e)
      then False
      else if sc_kind e = ScoreCredit then sc_delta e = 1 \<and> sc_reverses e = 0 \<and> sc_reason e = []
      else sc_delta e = -1 \<and> 0 < sc_reverses e \<and> valid_text (sc_reason e) 500 True)"

datatype reward_state = RewardRecorded | RewardNeedsReview | RewardOther string

definition valid_reward_state :: "reward_state \<Rightarrow> bool" where
  "valid_reward_state s \<longleftrightarrow> s = RewardRecorded \<or> s = RewardNeedsReview"

record reward_record =
  rw_id :: int64
  rw_campaign_id :: int64
  rw_customer_id :: int64
  rw_score_event_id :: int64
  rw_period :: string
  rw_reward :: string
  rw_evidence_reference :: string
  rw_state :: reward_state
  rw_recorded_by :: int64
  rw_recorded_at :: time

definition valid_reward_record :: "reward_record \<Rightarrow> bool" where
  "valid_reward_record r \<longleftrightarrow>
     0 < rw_id r \<and> 0 < rw_campaign_id r \<and> 0 < rw_customer_id r \<and> 0 \<le> rw_score_event_id r
     \<and> valid_text (rw_period r) 32 True \<and> valid_text (rw_reward r) 500 True
     \<and> valid_text (rw_evidence_reference r) 500 False \<and> valid_reward_state (rw_state r)
     \<and> 0 < rw_recorded_by r \<and> \<not> is_zero (rw_recorded_at r)"

record sales_fact =
  sf_id :: int64
  sf_campaign_id :: int64
  sf_order_id :: int64
  sf_product_id :: int64
  sf_promoter_customer_id :: int64
  sf_team_id :: int64
  sf_order_item_line :: int32
  sf_product_type :: string
  sf_source_reference :: string
  sf_original_paid_minor :: int64
  sf_refunded_minor :: int64
  sf_paid_at :: time
  sf_created_at :: time
  sf_updated_at :: time
  sf_version :: int64

definition net_paid_minor :: "sales_fact \<Rightarrow> int64" where
  "net_paid_minor s = wrap64 (sf_original_paid_minor s - sf_refunded_minor s)"

definition valid_sales_fact :: "sales_fact \<Rightarrow> bool" where
  "valid_sales_fact s \<longleftrightarrow>
     0 < sf_id s \<and> 0 < sf_campaign_id s \<and> 0 < sf_order_id s \<and> 0 < sf_order_item_line s \<and> 0 < sf_product_id s
     \<and> 0 < sf_promoter_customer_id s \<and> 0 \<le> sf_team_id s
     \<and> (sf_product_type s = ''standard_product'' \<or> sf_product_type s = ''service_period'')
     \<and> sf_source_reference s = trim_space (sf_source_reference s) \<and> 1 \<le> length (sf_source_reference s)
     \<and> length (sf_source_reference s) \<le> 200 \<and> 0 < sf_original_paid_minor s \<and> 0 \<le> sf_refunded_minor s
     \<and> sf_refunded_minor s \<le> sf_original_paid_minor s \<and> \<not> is_zero (sf_paid_at s) \<and> \<not> is_zero (sf_created_at s)
     \<and> \<not> sf_updated_at s < sf_created_at s \<and> 0 < sf_version s"

definition sales_fact_valid_for_insert :: "sales_fact \<Rightarrow> bool" where
  "sales_fact_valid_for_insert s \<longleftrightarrow> \<not> (sf_id s \<noteq> 0 \<or> sf_version s \<noteq> 1) \<and> valid_sales_fact (s\<lparr>sf_id := 1\<rparr>)"

definition apply_successful_refund :: "sales_fact \<Rightarrow> int64 \<Rightarrow> int64 \<Rightarrow> time \<Rightarrow> referral_error + sales_fact" where
  "apply_successful_refund s expected delta at =
     (if \<not> valid_sales_fact s \<or> expected \<noteq> sf_version s \<or> delta \<le> 0
         \<or> sf_original_paid_minor s < wrap64 (sf_refunded_minor s + delta) \<or> is_zero at \<or> at < sf_updated_at s
      then Inl RefErrInvalid
      else Inr (s\<lparr>sf_refunded_minor := wrap64 (sf_refunded_minor s + delta),
                  sf_version := next_version (sf_version s), sf_updated_at := utc at\<rparr>))"

datatype sale_kind = SaleCredit | SaleReversal | SaleOther string

definition valid_sale_kind :: "sale_kind \<Rightarrow> bool" where
  "valid_sale_kind k \<longleftrightarrow> k = SaleCredit \<or> k = SaleReversal"

record product_sale_event =
  se_id :: int64
  se_campaign_id :: int64
  se_order_id :: int64
  se_order_version :: int64
  se_product_id :: int64
  se_product_type :: string
  se_product_code :: string
  se_product_name :: string
  se_product_version :: int64
  se_participation_id :: int64
  se_team_id :: int64
  se_promoter_customer_id :: int64
  se_promotion_credential_ref :: string
  se_policy_version :: int64
  se_rate :: int32
  se_wait_days :: int32
  se_buyer_customer_id :: int64
  se_beneficiary_customer_id :: int64
  se_kind :: sale_kind
  se_amount_delta_minor :: int64
  se_order_count_delta :: int64
  se_source_paid_event_id :: int64
  se_reverses :: int64
  se_refund_receipt_key :: string
  se_currency :: string
  se_source_digest :: string
  se_occurred_at :: time

definition valid_product_sale_event :: "product_sale_event \<Rightarrow> bool" where
  "valid_product_sale_event e =
     (if se_id e < 1 \<or> se_campaign_id e < 1 \<or> se_order_id e < 1 \<or> se_order_version e < 1 \<or> se_product_id e < 1
         \<or> (se_product_type e \<noteq> ''standard_product'' \<and> se_product_type e \<noteq> ''service_period'')
         \<or> se_product_code e = [] \<or> 200 < length (se_product_code e) \<or> se_product_name e = []
         \<or> 500 < length (se_product_name e) \<or> se_product_version e < 1 \<or> se_participation_id e < 0
         \<or> se_buyer_customer_id e < 1 \<or> se_beneficiary_customer_id e < 1 \<or> \<not> valid_sale_kind (se_kind e)
         \<or> se_source_paid_event_id e < 1 \<or> se_currency e \<noteq> ''CNY'' \<or> se_source_digest e = replicate 32 (CHR 0x00)
         \<or> is_zero (se_occurred_at e)
      then False
      else if se_kind e = SaleCredit
      then 0 < se_amount_delta_minor e \<and> se_order_count_delta e = 1 \<and> se_reverses e = 0 \<and> se_refund_receipt_key e = []
      else se_amount_delta_minor e < 0 \<and> (se_order_count_delta e = 0 \<or> se_order_count_delta e = -1)
           \<and> 0 < se_reverses e \<and> se_refund_receipt_key e \<noteq> [])"

section \<open>Commands of a campaign\<close>

datatype campaign_command =
  UpdateCampaign int64 campaign_texts campaign_config time
| UpdateTexts int64 campaign_texts time
| TransitionCampaign int64 campaign_state time

fun campaign_exec :: "campaign_command \<Rightarrow> campaign \<Rightarrow> referral_error + campaign" where
  "campaign_exec (UpdateCampaign v n cfg t) c = update_with_config c v n cfg t"
| "campaign_exec (UpdateTexts v n t) c = update_campaign c v n t"
| "campaign_exec (TransitionCampaign v s t) c = transition c v s t"

fun campaign_expected :: "campaign_command \<Rightarrow> int64" where
  "campaign_expected (UpdateCampaign v _ _ _) = v"
| "campaign_expected (UpdateTexts v _ _) = v"
| "campaign_expected (TransitionCampaign v _ _) = v"

text \<open>What an accepted command is: an update of a campaign that is neither disabled nor over,
  or a lifecycle transition.\<close>

lemma update_with_configD:
  assumes "update_with_config c v n cfg t = Inr d"
  shows "v = camp_version c" "d = campaign_updated c n (normalized cfg) t" "camp_state c \<noteq> CampDisabled"
    "effective_state c t \<noteq> CampEnded" "camp_updated_at c \<le> t" "valid_campaign d"
    "camp_starts_at c \<le> t \<Longrightarrow> normalized cfg = campaign_config_of c \<and> new_starts_at n = camp_starts_at c \<and> new_ends_at n = camp_ends_at c"
  using assms by (auto simp: update_with_config_def Let_def)

lemma transitionD:
  assumes "transition c v s t = Inr d"
  shows "v = camp_version c" "transition_allowed (camp_state c) s" "camp_updated_at c \<le> t"
    "d = c\<lparr>camp_state := s, camp_version := next_version (camp_version c), camp_updated_at := t\<rparr>"
  using assms by (auto simp: transition_def)

lemma campaign_updated_fields [simp]:
  "camp_version (campaign_updated c n cfg t) = next_version (camp_version c)"
  "camp_state (campaign_updated c n cfg t) = camp_state c"
  "camp_updated_at (campaign_updated c n cfg t) = t"
  "camp_starts_at (campaign_updated c n cfg t) = new_starts_at n"
  "camp_ends_at (campaign_updated c n cfg t) = new_ends_at n"
  "camp_id (campaign_updated c n cfg t) = camp_id c"
  "campaign_config_of (campaign_updated c n cfg t) = normalized cfg"
  by (cases cfg; simp add: campaign_updated_def campaign_config_of_def)+

lemma normalized_config_of [simp]: "normalized (campaign_config_of c) = campaign_config_of c"
  by (simp add: campaign_config_of_def)

lemma campaign_exec_cases:
  assumes "campaign_exec k c = Inr d"
  obtains (update) n cfg t where "update_with_config c (campaign_expected k) n cfg t = Inr d"
  | (transition) s t where "transition c (campaign_expected k) s t = Inr d"
  using assms by (cases k) (auto simp: update_campaign_def)

lemma campaign_exec_version:
  "campaign_exec k c = Inr d \<Longrightarrow> camp_version d = next_version (camp_version c) \<and> campaign_expected k = camp_version c"
  by (erule campaign_exec_cases) (auto dest: update_with_configD(1,2) transitionD)

interpretation campaign_cas: cas_strict camp_version campaign_expected campaign_exec
proof unfold_locales
  show "\<not> is_ok (campaign_exec c s)" if "campaign_expected c \<noteq> camp_version s" for c s
    using that campaign_exec_version [of c s] by (auto simp: is_ok_iff)
qed (auto dest: campaign_exec_version)

fun campaign_rank :: "campaign_state \<Rightarrow> nat" where
  "campaign_rank CampDraft = 0"
| "campaign_rank CampScheduled = 1"
| "campaign_rank CampActive = 2"
| "campaign_rank _ = 3"

interpretation campaign_lifecycle: ranked transition_allowed campaign_rank
proof unfold_locales
  show "transition_allowed p q \<Longrightarrow> p = q \<or> campaign_rank p < campaign_rank q" for p q
    by (cases p) auto
qed

section \<open>What commands keep\<close>

text \<open>Once the last accepted command of a campaign lies at or after its start, its
  configuration and its period are settled.\<close>

definition campaign_kept :: "campaign \<Rightarrow> campaign \<Rightarrow> bool" where
  "campaign_kept c d \<longleftrightarrow>
     camp_id d = camp_id c \<and> camp_updated_at c \<le> camp_updated_at d \<and> transition_allowed\<^sup>*\<^sup>* (camp_state c) (camp_state d)
     \<and> (camp_starts_at c \<le> camp_updated_at c \<longrightarrow>
          campaign_config_of d = campaign_config_of c \<and> camp_starts_at d = camp_starts_at c \<and> camp_ends_at d = camp_ends_at c)"

lemma campaign_exec_kept: "campaign_exec k c = Inr d \<Longrightarrow> campaign_kept c d"
proof (erule campaign_exec_cases)
  fix n cfg t assume u: "update_with_config c (campaign_expected k) n cfg t = Inr d"
  from update_with_configD(2,5,7) [OF u] show ?thesis by (auto simp: campaign_kept_def)
next
  fix s t assume "transition c (campaign_expected k) s t = Inr d"
  from transitionD [OF this] show ?thesis
    by (auto simp: campaign_kept_def campaign_config_of_def)
qed

interpretation campaign_history: monotone_history campaign_exec "\<lambda>_. True" campaign_kept
proof unfold_locales
  show "campaign_kept s u" if "campaign_kept s t" "campaign_kept t u" for s t u
    using that unfolding campaign_kept_def by (metis order_trans rtranclp_trans)
qed (auto intro: campaign_exec_kept, auto simp: campaign_kept_def)

lemma closed_refuses: "camp_state c \<in> {CampEnded, CampDisabled} \<Longrightarrow> \<not> is_ok (campaign_exec k c)"
proof
  assume c: "camp_state c \<in> {CampEnded, CampDisabled}" and "is_ok (campaign_exec k c)"
  then obtain d where "campaign_exec k c = Inr d" by (auto simp: is_ok_iff)
  then show False
    by (rule campaign_exec_cases)
      (use c in \<open>auto dest: update_with_configD(3,4) transitionD(2) simp: effective_state_def\<close>)
qed

section \<open>Properties\<close>

definition sample_campaign :: campaign where
  "sample_campaign = \<lparr>camp_id = 5, camp_name = ''Spring'', camp_cover_url = [], camp_description = [],
     camp_reward_rules = [], camp_state = CampActive, camp_starts_at = 100, camp_ends_at = 900, camp_version = 2,
     camp_created_by = 1, camp_created_at = 10, camp_updated_at = 120, camp_team_mode = TeamModeTeam,
     camp_qualification_mode = QualFreeSignup, camp_product_id = 0, camp_product_type = [],
     camp_leaderboard = LbInvites\<rparr>"

lemma sample_campaign_valid: "valid_campaign sample_campaign"
  by (simp add: valid_campaign_def sample_campaign_def valid_text_def ascii_text valid_campaign_state_def
      valid_campaign_config_def campaign_config_of_def normalized_def valid_team_mode_def
      valid_qualification_mode_def valid_leaderboard_def)

text \<open>
  Once a campaign has started (an accepted command at or after its start time), no
  sequence of updates and transitions changes its team mode, qualification, product,
  leaderboard metric, start or end; before and after that its state only moves forward.
\<close>

theorem started_campaign_settled:
  assumes "camp_starts_at c \<le> camp_updated_at c"
  shows "let d = run_history campaign_exec ks c in
           campaign_config_of d = campaign_config_of c \<and> camp_starts_at d = camp_starts_at c
           \<and> camp_ends_at d = camp_ends_at c \<and> transition_allowed\<^sup>*\<^sup>* (camp_state c) (camp_state d)
           \<and> (transition_allowed\<^sup>*\<^sup>* (camp_state d) (camp_state c) \<longrightarrow> camp_state d = camp_state c)"
  using campaign_history.history_rel [of c ks] assms campaign_lifecycle.no_return
  by (auto simp: campaign_kept_def Let_def)

theorem started_campaign_settled_witness:
  "camp_ends_at (run_history campaign_exec
     [UpdateTexts 2 \<lparr>new_name = ''Fall'', new_cover_url = [], new_description = [], new_reward_rules = [],
        new_starts_at = 100, new_ends_at = 5000\<rparr> 130, TransitionCampaign 2 CampEnded 140] sample_campaign) = 900"
  using started_campaign_settled [of sample_campaign "[UpdateTexts 2 \<lparr>new_name = ''Fall'', new_cover_url = [],
      new_description = [], new_reward_rules = [], new_starts_at = 100, new_ends_at = 5000\<rparr> 130,
      TransitionCampaign 2 CampEnded 140]"]
  by (simp add: Let_def sample_campaign_def del: run_history.simps)

text \<open>
  An ended or disabled campaign is frozen: every update and every transition is refused,
  so no history changes anything about it.
\<close>

theorem closed_campaign_frozen:
  assumes "camp_state c = CampEnded \<or> camp_state c = CampDisabled"
  shows "run_history campaign_exec ks c = c"
proof (induction ks)
  case (Cons k ks)
  from closed_refuses [of c k] assms Cons show ?case by (cases "campaign_exec k c") auto
qed simp

theorem closed_campaign_frozen_witness:
  "run_history campaign_exec [TransitionCampaign 2 CampActive 150] (sample_campaign\<lparr>camp_state := CampDisabled\<rparr>)
   = sample_campaign\<lparr>camp_state := CampDisabled\<rparr>"
  by (rule closed_campaign_frozen) simp

text \<open>
  The gate for new participants and the public lifecycle agree: a valid campaign accepts
  participants at an instant exactly if its effective state at that instant is active, which
  is a matter of its period alone once it is scheduled or active.
\<close>

theorem accepting_iff_effectively_active:
  assumes "valid_campaign c" "at \<noteq> 0"
  shows "(accepting_at c at \<longleftrightarrow> effective_state c at = CampActive)
    \<and> (camp_state c \<in> {CampScheduled, CampActive} \<longrightarrow>
         (accepting_at c at \<longleftrightarrow> camp_starts_at c \<le> at \<and> at < camp_ends_at c))"
  using assms
  by (auto simp: accepting_at_def effective_state_def valid_campaign_def valid_campaign_state_def
      split: campaign_state.splits)

theorem accepting_iff_effectively_active_witness:
  "accepting_at sample_campaign 500 \<and> \<not> accepting_at sample_campaign 900"
proof -
  have "camp_state sample_campaign = CampActive" "camp_starts_at sample_campaign = 100" "camp_ends_at sample_campaign = 900"
    by (simp_all add: sample_campaign_def)
  with accepting_iff_effectively_active [OF sample_campaign_valid, of 500]
    accepting_iff_effectively_active [OF sample_campaign_valid, of 900]
  show ?thesis by auto
qed

lemma apply_refund_exact:
  assumes "apply_successful_refund s v delta t = Inr s'" "delta \<le> max_int64 - sf_original_paid_minor s"
  shows "sf_refunded_minor s' = sf_refunded_minor s + delta" "sf_refunded_minor s' \<le> sf_original_paid_minor s"
    "sf_original_paid_minor s' = sf_original_paid_minor s" "0 < delta" "valid_sales_fact s"
proof -
  from assms(1) have g: "valid_sales_fact s" "0 < delta" "wrap64 (sf_refunded_minor s + delta) \<le> sf_original_paid_minor s"
    and s': "s' = s\<lparr>sf_refunded_minor := wrap64 (sf_refunded_minor s + delta),
                  sf_version := next_version (sf_version s), sf_updated_at := t\<rparr>"
    by (auto simp: apply_successful_refund_def)
  from g(1) have b: "0 \<le> sf_refunded_minor s" "sf_refunded_minor s \<le> sf_original_paid_minor s"
    by (auto simp: valid_sales_fact_def)
  with assms(2) g(2) have w: "wrap64 (sf_refunded_minor s + delta) = sf_refunded_minor s + delta"
    by (intro wrap64_nonneg) auto
  with s' g show "sf_refunded_minor s' = sf_refunded_minor s + delta" "sf_refunded_minor s' \<le> sf_original_paid_minor s"
    "sf_original_paid_minor s' = sf_original_paid_minor s" "0 < delta" "valid_sales_fact s" by simp_all
qed

definition sample_sales_fact :: sales_fact where
  "sample_sales_fact = \<lparr>sf_id = 1, sf_campaign_id = 5, sf_order_id = 7, sf_product_id = 5, sf_promoter_customer_id = 2,
     sf_team_id = 0, sf_order_item_line = 1, sf_product_type = ''standard_product'', sf_source_reference = ''order-7'',
     sf_original_paid_minor = 1200, sf_refunded_minor = 200, sf_paid_at = 100, sf_created_at = 100,
     sf_updated_at = 150, sf_version = 2\<rparr>"

lemma sample_sales_valid: "valid_sales_fact sample_sales_fact"
  by (simp add: valid_sales_fact_def sample_sales_fact_def ascii_text)

text \<open>
  C35: The refunds of a sales fact add up exactly and stay within the paid amount as long as
  the delta leaves room in 64 bits; but the guard is computed with wrap-around, so a delta
  that overflows passes it and leaves a negative refunded total, a fact that is no longer
  valid.
\<close>

theorem sales_refund_guard:
  assumes "valid_sales_fact s" "sf_original_paid_minor s \<le> max_int64" "sf_updated_at s \<le> t" "t \<noteq> 0"
  shows "(\<forall>delta s'. delta \<le> max_int64 - sf_original_paid_minor s \<and> apply_successful_refund s (sf_version s) delta t = Inr s' \<longrightarrow>
            sf_refunded_minor s' = sf_refunded_minor s + delta \<and> sf_refunded_minor s' \<le> sf_original_paid_minor s)
    \<and> (0 < sf_refunded_minor s \<longrightarrow>
         (\<exists>s'. apply_successful_refund s (sf_version s) max_int64 t = Inr s' \<and> sf_refunded_minor s' < 0 \<and> \<not> valid_sales_fact s'))"
proof (intro conjI impI allI)
  assume pos: "0 < sf_refunded_minor s"
  have r: "sf_refunded_minor s \<le> max_int64" using assms(1,2) by (auto simp: valid_sales_fact_def)
  with pos have w: "wrap64 (sf_refunded_minor s + max_int64) = sf_refunded_minor s + max_int64 - 2 ^ 64"
    unfolding wrap64_def by (subst mod_pos_geq) (auto simp: mod_pos_pos_trivial)
  let ?s = "s\<lparr>sf_refunded_minor := wrap64 (sf_refunded_minor s + max_int64),
              sf_version := next_version (sf_version s), sf_updated_at := t\<rparr>"
  have neg: "wrap64 (sf_refunded_minor s + max_int64) < 0" using w r by simp
  have "0 < sf_original_paid_minor s" using assms(1) by (simp add: valid_sales_fact_def)
  with neg assms have "apply_successful_refund s (sf_version s) max_int64 t = Inr ?s"
    by (auto simp: apply_successful_refund_def simp del: max_int64_eq)
  moreover have "\<not> valid_sales_fact ?s" using neg by (simp add: valid_sales_fact_def del: max_int64_eq)
  ultimately show "\<exists>s'. apply_successful_refund s (sf_version s) max_int64 t = Inr s' \<and> sf_refunded_minor s' < 0 \<and> \<not> valid_sales_fact s'"
    using neg by (intro exI [of _ ?s]) simp
qed (auto dest: apply_refund_exact)

theorem sales_refund_guard_witness:
  "\<exists>s'. apply_successful_refund sample_sales_fact 2 max_int64 200 = Inr s' \<and> sf_refunded_minor s' < 0"
  using sales_refund_guard [OF sample_sales_valid, of 200] by (auto simp: sample_sales_fact_def)

end
