(* ===== verification/Go_Time.thy ===== *)
theory Go_Time
  imports Go_Strings
begin

text \<open>
  Calendar time of Go's \<open>time\<close> package for instants in UTC: the proleptic Gregorian date and
  the clock of an instant counted in nanoseconds from 1 January of year 1, and the layout
  \<open>RFC3339Nano\<close>, whose fraction drops trailing zeros.
\<close>

definition nanoseconds_per_day :: int where "nanoseconds_per_day = 86400 * 1000000000"

definition leap_year :: "int \<Rightarrow> bool" where
  "leap_year y \<longleftrightarrow> y mod 4 = 0 \<and> (y mod 100 \<noteq> 0 \<or> y mod 400 = 0)"

text \<open>Year and day of the year, from 0, of a day counted from 1 January of year 1.\<close>

definition year_day :: "int \<Rightarrow> int \<times> int" where
  "year_day d =
     (let n400 = d div 146097; r400 = d mod 146097;
          n100 = min 3 (r400 div 36524); r100 = r400 - 36524 * n100;
          n4 = r100 div 1461; r4 = r100 mod 1461;
          n1 = min 3 (r4 div 365)
      in (400 * n400 + 100 * n100 + 4 * n4 + n1 + 1, r4 - 365 * n1))"

definition month_lengths :: "bool \<Rightarrow> int list" where
  "month_lengths leap = [31, if leap then 29 else 28, 31, 30, 31, 30, 31, 31, 30, 31, 30, 31]"

fun month_day :: "int list \<Rightarrow> int \<Rightarrow> int \<Rightarrow> int \<times> int" where
  "month_day [] m d = (m, d + 1)"
| "month_day (l # ls) m d = (if d < l then (m, d + 1) else month_day ls (m + 1) (d - l))"

definition civil_date :: "time \<Rightarrow> int \<times> int \<times> int" where
  "civil_date t =
     (let (y, yd) = year_day (t div nanoseconds_per_day);
          (m, d) = month_day (month_lengths (leap_year y)) 1 yd
      in (y, m, d))"

text \<open>Seconds of the day and nanoseconds of the second.\<close>

definition clock_of :: "time \<Rightarrow> int \<times> int \<times> int \<times> int" where
  "clock_of t =
     (let r = t mod nanoseconds_per_day; s = r div 1000000000
      in (s div 3600, s div 60 mod 60, s mod 60, r mod 1000000000))"

definition pad_left :: "nat \<Rightarrow> int \<Rightarrow> string" where
  "pad_left k i = (let s = format_int i in replicate (k - length s) CHR ''0'' @ s)"

definition fraction :: "int \<Rightarrow> string" where
  "fraction ns = (if ns = 0 then [] else CHR ''.'' # rev (dropWhile (\<lambda>c. c = CHR ''0'') (rev (pad_left 9 ns))))"

definition rfc3339_nano :: "time \<Rightarrow> string" where
  "rfc3339_nano t =
     (let (y, m, d) = civil_date t; (h, mi, s, ns) = clock_of t
      in pad_left 4 y @ ''-'' @ pad_left 2 m @ ''-'' @ pad_left 2 d @ ''T'' @ pad_left 2 h @ '':'' @ pad_left 2 mi
         @ '':'' @ pad_left 2 s @ fraction ns @ ''Z'')"

end
