(* ===== verification/Effect_Port.thy ===== *)
theory Effect_Port
  imports Go_Sha256 Go_Time Versioned
begin

text \<open>
  The contract of the external-effect kernel (\<open>internal/externaleffects/port/port.go\<close>,
  \<open>payment_v1.go\<close> and \<open>runtime.go\<close>): owners, kinds, lanes and states, the digest-only envelope
  of an intent, the acceptance and control commands with their digests, artifacts and the
  transition table. The digests are the real ones, SHA-256 over the parts joined by zero
  bytes; the lemmas show that each of them is a valid digest and that effect identifiers
  round-trip.
\<close>

section \<open>Digests\<close>

fun join_nul :: "string list \<Rightarrow> string" where
  "join_nul [] = []"
| "join_nul [p] = p"
| "join_nul (p # ps) = p @ [CHR 0x00] @ join_nul ps"

definition hash_parts :: "string list \<Rightarrow> string" where
  "hash_parts ps = ''sha256:'' @ hex_encode (sha256 (join_nul ps))"

definition valid_digest :: "string \<Rightarrow> bool" where
  "valid_digest d \<longleftrightarrow> has_prefix d ''sha256:'' \<and> length d = 71 \<and> hex_decodable (drop 7 d)"

lemma valid_digest_hash [simp]: "valid_digest (hash_parts ps)"
  by (simp add: valid_digest_def hash_parts_def has_prefix_def)

section \<open>Owners, kinds, lanes and states\<close>

datatype owner = OwnerOutbound | OwnerPayment | OwnerAutomation | OwnerAdminOps | OwnerSegment | OwnerOther string

datatype kind =
  KindOutboundMessage | KindAutomationMessage | KindOutboundMedia | KindWeComTagCatalog
| KindWeComTagCatalogMutation | KindWeComContactDescription | KindGroupMessage | KindChannelAsset
| KindChannelWelcome | KindChannelEntryTag | KindCustomerTagCommand | KindCustomerOwnerHandoff
| KindCommerceProductPush | KindInvitationCode | KindChannelLink | KindSidebarJSSDKSend | KindSurveyCompletion
| KindAIAgentGenerate | KindAIRecommend | KindFeishuOpsNotification | KindWeChatPayPrepay | KindWeChatPayRefund
| KindWeChatShopRefund | KindWeChatPayReceiverAdd | KindWeChatPayProfitSharing | KindWeChatPayProfitUnfreeze
| KindAlipayWapPay | KindAlipayPagePay | KindAlipayRefund | KindOther string

datatype lane = LaneNone | LaneOutboundExcel | LaneOutboundMedia | LaneOpsNotification | LaneOther string

datatype state =
  StateAccepted | StateQueued | StateAttempted | StateExecuted | StateUnknown | StateReconciled
| StateRetryable | StateFinalFailed | StateCancelled | StateOther string

fun owner_text :: "owner \<Rightarrow> string" where
  "owner_text OwnerOutbound = ''outbound''"
| "owner_text OwnerPayment = ''payment''"
| "owner_text OwnerAutomation = ''automation''"
| "owner_text OwnerAdminOps = ''adminops''"
| "owner_text OwnerSegment = ''segment''"
| "owner_text (OwnerOther s) = s"

fun kind_text :: "kind \<Rightarrow> string" where
  "kind_text KindOutboundMessage = ''outbound_message''"
| "kind_text KindAutomationMessage = ''automation_message''"
| "kind_text KindOutboundMedia = ''outbound_media''"
| "kind_text KindWeComTagCatalog = ''wecom_tag_catalog''"
| "kind_text KindWeComTagCatalogMutation = ''wecom_tag_catalog_mutation''"
| "kind_text KindWeComContactDescription = ''wecom_contact_description''"
| "kind_text KindGroupMessage = ''group_message''"
| "kind_text KindChannelAsset = ''channel_acquisition_asset''"
| "kind_text KindChannelWelcome = ''channel_welcome_message''"
| "kind_text KindChannelEntryTag = ''channel_entry_tag''"
| "kind_text KindCustomerTagCommand = ''customer_tag_command''"
| "kind_text KindCustomerOwnerHandoff = ''customer_owner_handoff''"
| "kind_text KindCommerceProductPush = ''commerce_product_push''"
| "kind_text KindInvitationCode = ''group_invitation_code''"
| "kind_text KindChannelLink = ''channel_acquisition_link_mutation''"
| "kind_text KindSidebarJSSDKSend = ''sidebar_jssdk_send''"
| "kind_text KindSurveyCompletion = ''survey_completion''"
| "kind_text KindAIAgentGenerate = ''ai_agent_generate''"
| "kind_text KindAIRecommend = ''ai_audience_recommend''"
| "kind_text KindFeishuOpsNotification = ''feishu_ops_notification_v1''"
| "kind_text KindWeChatPayPrepay = ''wechat_pay_prepay_v1''"
| "kind_text KindWeChatPayRefund = ''wechat_pay_refund_v1''"
| "kind_text KindWeChatShopRefund = ''wechat_shop_refund_v1''"
| "kind_text KindWeChatPayReceiverAdd = ''wechat_pay_profit_sharing_receiver_v1''"
| "kind_text KindWeChatPayProfitSharing = ''wechat_pay_profit_sharing_order_v1''"
| "kind_text KindWeChatPayProfitUnfreeze = ''wechat_pay_profit_sharing_unfreeze_v1''"
| "kind_text KindAlipayWapPay = ''alipay_wap_pay_v1''"
| "kind_text KindAlipayPagePay = ''alipay_page_pay_v1''"
| "kind_text KindAlipayRefund = ''alipay_refund_v1''"
| "kind_text (KindOther s) = s"

fun lane_text :: "lane \<Rightarrow> string" where
  "lane_text LaneNone = []"
| "lane_text LaneOutboundExcel = ''outbound_excel''"
| "lane_text LaneOutboundMedia = ''outbound_media''"
| "lane_text LaneOpsNotification = ''ops_notification''"
| "lane_text (LaneOther s) = s"

fun state_text :: "state \<Rightarrow> string" where
  "state_text StateAccepted = ''accepted''"
| "state_text StateQueued = ''queued''"
| "state_text StateAttempted = ''attempted''"
| "state_text StateExecuted = ''executed''"
| "state_text StateUnknown = ''outcome_unknown''"
| "state_text StateReconciled = ''reconciled''"
| "state_text StateRetryable = ''retryable_failed''"
| "state_text StateFinalFailed = ''final_failed''"
| "state_text StateCancelled = ''cancelled''"
| "state_text (StateOther s) = s"

section \<open>Intents and commands\<close>

record envelope =
  env_owner :: owner
  env_kind :: kind
  env_source :: string
  env_target :: string
  env_payload :: string
  env_policy :: string

definition outbound_kinds :: "kind set" where
  "outbound_kinds = {KindOutboundMessage, KindAutomationMessage, KindOutboundMedia, KindWeComTagCatalog,
     KindWeComTagCatalogMutation, KindWeComContactDescription, KindGroupMessage, KindChannelAsset,
     KindChannelWelcome, KindChannelEntryTag, KindCustomerTagCommand, KindCustomerOwnerHandoff,
     KindCommerceProductPush, KindInvitationCode, KindChannelLink, KindSidebarJSSDKSend, KindSurveyCompletion}"

definition payment_kinds :: "kind set" where
  "payment_kinds = {KindWeChatPayPrepay, KindWeChatPayRefund, KindWeChatShopRefund, KindWeChatPayReceiverAdd,
     KindWeChatPayProfitSharing, KindWeChatPayProfitUnfreeze, KindAlipayWapPay, KindAlipayPagePay, KindAlipayRefund}"

definition kind_owned :: "owner \<Rightarrow> kind \<Rightarrow> bool" where
  "kind_owned w k \<longleftrightarrow>
     w = OwnerOutbound \<and> k \<in> outbound_kinds \<or> w = OwnerPayment \<and> k \<in> payment_kinds
     \<or> w = OwnerAutomation \<and> k = KindAIAgentGenerate \<or> w = OwnerAdminOps \<and> k = KindFeishuOpsNotification
     \<or> w = OwnerSegment \<and> k = KindAIRecommend"

definition valid_envelope :: "envelope \<Rightarrow> bool" where
  "valid_envelope e \<longleftrightarrow> kind_owned (env_owner e) (env_kind e) \<and> valid_digest (env_source e)
     \<and> valid_digest (env_target e) \<and> valid_digest (env_payload e) \<and> valid_digest (env_policy e)"

definition fingerprint :: "envelope \<Rightarrow> string" where
  "fingerprint e =
     (if \<not> valid_envelope e then []
      else hash_parts [owner_text (env_owner e), kind_text (env_kind e), env_source e, env_target e,
                       env_payload e, env_policy e])"

record accept_command =
  ac_receipt_key :: string
  ac_envelope :: envelope
  ac_lane :: lane
  ac_scheduled_at :: time

definition valid_accept :: "accept_command \<Rightarrow> bool" where
  "valid_accept c =
     (if env_owner (ac_envelope c) = OwnerAdminOps
      then valid_digest (ac_receipt_key c) \<and> valid_envelope (ac_envelope c) \<and> ac_lane c = LaneOpsNotification
      else valid_digest (ac_receipt_key c) \<and> valid_envelope (ac_envelope c)
           \<and> (ac_lane c = LaneNone \<or> ac_lane c = LaneOutboundExcel \<or> ac_lane c = LaneOutboundMedia))"

definition accept_digest :: "accept_command \<Rightarrow> string" where
  "accept_digest c =
     (if \<not> valid_accept c then []
      else if is_zero (ac_scheduled_at c)
      then hash_parts [''accept'', ac_receipt_key c, fingerprint (ac_envelope c), lane_text (ac_lane c)]
      else hash_parts [''accept'', ac_receipt_key c, fingerprint (ac_envelope c), lane_text (ac_lane c),
                       rfc3339_nano (utc (ac_scheduled_at c))])"

record payment_intent =
  pin_kind :: kind
  pin_receipt_key :: string
  pin_source :: string
  pin_target :: string
  pin_payload :: string
  pin_policy :: string

definition payment_accept_command :: "payment_intent \<Rightarrow> accept_command \<times> bool" where
  "payment_accept_command i =
     (let c = \<lparr>ac_receipt_key = pin_receipt_key i,
               ac_envelope = \<lparr>env_owner = OwnerPayment, env_kind = pin_kind i, env_source = pin_source i,
                              env_target = pin_target i, env_payload = pin_payload i, env_policy = pin_policy i\<rparr>,
               ac_lane = LaneNone, ac_scheduled_at = 0\<rparr>
      in (c, valid_accept c))"

record control_actor =
  ca_admin_user_id :: int64
  ca_system_ref :: string

definition due_worker :: string where "due_worker = ''system:payment_profit_sharing_due''"

definition valid_actor :: "control_actor \<Rightarrow> bool" where
  "valid_actor a \<longleftrightarrow>
     0 < ca_admin_user_id a \<and> ca_system_ref a = [] \<or> ca_admin_user_id a = 0 \<and> ca_system_ref a = due_worker"

definition system_actor :: "control_actor \<Rightarrow> bool" where
  "system_actor a \<longleftrightarrow> ca_system_ref a \<noteq> []"

record artifact =
  art_kind :: string
  art_digest :: string
  art_payload :: string

definition no_artifact :: artifact where
  "no_artifact = \<lparr>art_kind = [], art_digest = [], art_payload = []\<rparr>"

definition valid_artifact :: "artifact \<Rightarrow> bool" where
  "valid_artifact a =
     (if art_kind a = [] \<or> 120 < length (art_kind a) \<or> art_payload a = [] \<or> 262144 < length (art_payload a)
         \<or> \<not> valid_digest (art_digest a)
      then False
      else art_digest a = hash_parts [''external-effect.artifact.v1'', art_kind a, art_payload a])"

record control_command =
  cc_effect_id :: string
  cc_receipt_key :: string
  cc_evidence :: string
  cc_actor :: int64
  cc_generation :: int64
  cc_fence :: int64
  cc_lease_expires_at :: time
  cc_outcome :: string
  cc_artifact :: artifact

definition valid_control :: "control_command \<Rightarrow> bool" where
  "valid_control c \<longleftrightarrow> has_prefix (cc_effect_id c) ''eer_'' \<and> valid_digest (cc_receipt_key c) \<and> 0 < cc_actor c"

definition control_digest :: "control_command \<Rightarrow> string \<Rightarrow> string" where
  "control_digest c op =
     (if \<not> valid_control c \<or> op = ''reconcile'' \<and> \<not> valid_digest (cc_evidence c) then []
      else hash_parts [op, cc_effect_id c, cc_receipt_key c, cc_evidence c, format_int (cc_actor c), cc_outcome c,
                       art_digest (cc_artifact c)])"

fun can_transition :: "state \<Rightarrow> state \<Rightarrow> bool" where
  "can_transition StateAccepted t \<longleftrightarrow> t = StateQueued \<or> t = StateCancelled"
| "can_transition StateQueued t \<longleftrightarrow> t = StateAttempted \<or> t = StateCancelled"
| "can_transition StateAttempted t \<longleftrightarrow> t = StateExecuted \<or> t = StateUnknown \<or> t = StateRetryable \<or> t = StateFinalFailed"
| "can_transition StateRetryable t \<longleftrightarrow> t = StateQueued"
| "can_transition StateUnknown t \<longleftrightarrow> t = StateReconciled"
| "can_transition _ t \<longleftrightarrow> False"

section \<open>Effect identifiers, queues and delays\<close>

datatype effect_error = EffInvalid | EffNotFound | EffPayloadMismatch | EffTransition | EffReconcileRequired | EffUnavailable

definition effect_id :: "int64 \<Rightarrow> string" where
  "effect_id i = ''eer_'' @ format_int i"

definition parse_effect_id :: "string \<Rightarrow> effect_error + int64" where
  "parse_effect_id s =
     (if \<not> has_prefix s ''eer_'' then Inl EffInvalid
      else let digits = drop 4 s
           in if digits = [] \<or> hd digits = CHR ''0'' then Inl EffInvalid
              else if \<not> list_all (\<lambda>r. 48 \<le> r \<and> r \<le> 57) (runes digits) then Inl EffInvalid
              else case parse_digits64 digits of
                     None \<Rightarrow> Inl EffInvalid
                   | Some i \<Rightarrow> if i < 1 then Inl EffInvalid else Inr i)"

datatype queue = OutboundQueue | OutboundWelcomeQueue | OutboundExcelQueue | OutboundMediaQueue | OpsNotificationQueue

definition effect_queue :: "kind \<Rightarrow> lane \<Rightarrow> queue" where
  "effect_queue k l =
     (if k = KindFeishuOpsNotification \<and> l = LaneOpsNotification then OpsNotificationQueue
      else if l = LaneOutboundExcel then OutboundExcelQueue
      else if l = LaneOutboundMedia then OutboundMediaQueue
      else if k = KindChannelWelcome then OutboundWelcomeQueue
      else OutboundQueue)"

definition automatic_retry_delay :: "int32 \<Rightarrow> duration" where
  "automatic_retry_delay n =
     (if n = 1 then nanoseconds_per_second
      else if n = 2 then 5 * nanoseconds_per_second
      else if n = 3 then 30 * nanoseconds_per_second
      else 2 * minute)"

definition projects_stale_attempt :: "kind \<Rightarrow> bool" where
  "projects_stale_attempt k \<longleftrightarrow>
     k \<in> {KindFeishuOpsNotification, KindInvitationCode, KindOutboundMedia, KindWeComTagCatalog,
          KindWeComTagCatalogMutation, KindGroupMessage, KindChannelAsset, KindOutboundMessage,
          KindAutomationMessage, KindSurveyCompletion, KindCustomerTagCommand, KindCustomerOwnerHandoff,
          KindCommerceProductPush, KindAIAgentGenerate, KindAIRecommend, KindSidebarJSSDKSend}"

record attempt =
  att_effect_id :: string
  att_number :: int32
  att_generation :: int64
  att_fence :: int64

record adapter_result =
  ar_completion :: state
  ar_receipt :: string
  ar_failure_code :: string
  ar_call_attempted :: bool
  ar_real_call :: bool
  ar_safe_to_retry_rejected :: bool
  ar_artifact :: artifact

lemma valid_digest_accept: "valid_accept c \<Longrightarrow> valid_digest (accept_digest c)"
  by (simp add: accept_digest_def)

lemma valid_digest_fingerprint: "valid_envelope e \<Longrightarrow> valid_digest (fingerprint e)"
  by (simp add: fingerprint_def)

lemma digits_runes: "list_all is_digit s \<Longrightarrow> list_all (\<lambda>r. 48 \<le> r \<and> r \<le> 57) (runes s)"
  by (subst runes_ascii) (auto simp: is_digit_def list_all_iff dest!: bspec)

lemma format_int_digits:
  assumes "0 < i"
  shows "format_int i \<noteq> []" "hd (format_int i) \<noteq> CHR ''0''" "list_all (\<lambda>r. 48 \<le> r \<and> r \<le> 57) (runes (format_int i))"
  using assms hd_show_nat [of "nat i"] digits_runes [OF show_nat_digits [of "nat i"]]
  by (simp_all add: format_int_def)

section \<open>Properties\<close>

lemma prefixed_split: "has_prefix s p \<Longrightarrow> s = p @ drop (length p) s"
  by (metis append_take_drop_id has_prefix_def)

lemma parse_effect_id_id:
  assumes "1 \<le> i" "i \<le> max_int64" shows "parse_effect_id (effect_id i) = Inr i"
  using assms format_int_digits [of i] parse_digits64_show [of i]
  by (simp add: parse_effect_id_def effect_id_def has_prefix_def Let_def)

text \<open>
  Effect identifiers are canonical: the identifier of a positive 64-bit id parses back to
  it, and any text that parses is the identifier of the number it parses to, so no two texts
  name the same effect.
\<close>

theorem effect_id_roundtrip:
  shows "(1 \<le> i \<and> i \<le> max_int64 \<longrightarrow> parse_effect_id (effect_id i) = Inr i)
    \<and> (parse_effect_id s = Inr j \<longrightarrow> effect_id j = s \<and> 1 \<le> j)"
proof (intro conjI impI)
  assume "1 \<le> i \<and> i \<le> max_int64"
  then show "parse_effect_id (effect_id i) = Inr i" by (simp add: parse_effect_id_id)
next
  assume p: "parse_effect_id s = Inr j"
  then have parts: "has_prefix s ''eer_''" "hd (drop 4 s) \<noteq> CHR ''0''" "parse_digits64 (drop 4 s) = Some j"
    by (auto simp: parse_effect_id_def Let_def split: option.splits)
  have "length ''eer_'' = 4" by simp
  with prefixed_split [OF parts(1)] have "s = ''eer_'' @ drop 4 s" by argo
  with parse_digits64_format [OF parts(3,2)] show "effect_id j = s" unfolding effect_id_def by argo
  from p show "1 \<le> j" by (auto simp: parse_effect_id_def Let_def split: option.splits if_splits)
qed

theorem effect_id_roundtrip_witness: "parse_effect_id (effect_id 42) = Inr 42"
  using effect_id_roundtrip [of 42 "[]" 0] by simp

end
