(* ===== verification/Effect_Kernel.thy ===== *)
theory Effect_Kernel
  imports Effect_Port
begin

text \<open>
  The repository of the external-effect kernel (\<open>internal/externaleffects/store.go\<close>,
  \<open>tag_catalog_retry.go\<close>, \<open>stopped_attempt.go\<close>, \<open>final_failure_proof.go\<close>, \<open>worker.go\<close>) on the
  rows of its PostgreSQL tables. A transaction is a function from the store to an error, with
  the store unchanged, or to its result and the new store. \<open>RunAttempt\<close> is not one transaction:
  it claims the attempt and commits, calls the provider with no transaction open, and records
  the outcome in a second transaction; the three parts are separate definitions and the next
  theory interleaves them.

  Parameters: the clocks of the database and of the process, the completion sink (absent, or
  deciding whether a completion is taken; a refusal fails the transaction) and the adapter's
  answer. The constraints of the tables that a well-formed command can violate are written
  out; their violation is the error \<open>EffUnavailable\<close>, as is a failing sink.
\<close>

section \<open>Rows\<close>

record effect_row =
  ef_id :: int64
  ef_envelope :: envelope
  ef_fingerprint :: string
  ef_lane :: lane
  ef_state :: state
  ef_attempts :: int32
  ef_generation :: int64
  ef_fence :: int64
  ef_lease :: "time option"
  ef_updated_at :: time

record attempt_row =
  ea_effect :: int64
  ea_number :: int32
  ea_generation :: int64
  ea_fence :: int64
  ea_state :: state
  ea_receipt :: string
  ea_evidence :: string
  ea_called :: bool
  ea_real :: bool
  ea_completed_at :: "time option"

datatype operation = OpAccept | OpQueue | OpRetry | OpCancel | OpComplete | OpReconcile

record op_receipt =
  or_id :: int64
  or_operation :: operation
  or_effect :: int64
  or_key :: string
  or_digest :: string
  or_admin :: "int64 option"
  or_system :: string
  or_state :: state
  or_completed_at :: time

record job_row =
  jb_effect :: int64
  jb_generation :: int64
  jb_river_id :: int64
  jb_queue :: queue
  jb_scheduled_at :: time

record completion =
  cp_effect_id :: string
  cp_envelope :: envelope
  cp_attempt :: attempt
  cp_result :: adapter_result

record eer =
  eer_effects :: "effect_row list"
  eer_attempts :: "attempt_row list"
  eer_receipts :: "op_receipt list"
  eer_jobs :: "job_row list"
  eer_next_effect :: int64
  eer_next_receipt :: int64
  eer_next_job :: int64
  eer_completions :: "completion list"

record projection =
  pj_id :: string
  pj_owner :: owner
  pj_kind :: kind
  pj_state :: state
  pj_attempts :: int32
  pj_generation :: int64
  pj_updated_at :: time
  pj_queue_job :: int64

record receipt =
  rc_id :: string
  rc_effect_id :: string
  rc_digest :: string
  rc_admin :: "int64 option"
  rc_state :: state
  rc_completed_at :: time
  rc_queue_receipt_id :: string

record clocks =
  db_now :: time
  app_now :: time

type_synonym sink = "(completion \<Rightarrow> bool) option"

section \<open>Access to the rows\<close>

definition effect_of :: "eer \<Rightarrow> int64 \<Rightarrow> effect_row option" where
  "effect_of st i = find (\<lambda>r. ef_id r = i) (eer_effects st)"

definition put_effect :: "effect_row \<Rightarrow> eer \<Rightarrow> eer" where
  "put_effect e st = st\<lparr>eer_effects := map (\<lambda>r. if ef_id r = ef_id e then e else r) (eer_effects st)\<rparr>"

definition job_of :: "eer \<Rightarrow> int64 \<Rightarrow> int64 \<Rightarrow> job_row option" where
  "job_of st i g = find (\<lambda>j. jb_effect j = i \<and> jb_generation j = g) (eer_jobs st)"

definition receipt_of :: "eer \<Rightarrow> operation \<Rightarrow> int64 \<Rightarrow> string \<Rightarrow> op_receipt option" where
  "receipt_of st op i key = find (\<lambda>r. or_operation r = op \<and> or_effect r = i \<and> or_key r = key) (eer_receipts st)"

definition receipt_ref :: "int64 \<Rightarrow> string" where
  "receipt_ref i = ''eerop_'' @ format_int i"

definition projection_of :: "effect_row \<Rightarrow> projection" where
  "projection_of e = \<lparr>pj_id = effect_id (ef_id e), pj_owner = env_owner (ef_envelope e), pj_kind = env_kind (ef_envelope e),
     pj_state = ef_state e, pj_attempts = ef_attempts e, pj_generation = ef_generation e,
     pj_updated_at = utc (ef_updated_at e), pj_queue_job = 0\<rparr>"

text \<open>The digest columns hold lower-case hexadecimal only.\<close>

definition is_lower_hex :: "char \<Rightarrow> bool" where
  "is_lower_hex c \<longleftrightarrow> 48 \<le> byte c \<and> byte c \<le> 57 \<or> 97 \<le> byte c \<and> byte c \<le> 102"

definition pg_digest :: "string \<Rightarrow> bool" where
  "pg_digest d \<longleftrightarrow> valid_digest d \<and> list_all is_lower_hex (drop 7 d)"

text \<open>Inserting an operation receipt, with the uniqueness constraints of the table.\<close>

definition insert_receipt ::
  "operation \<Rightarrow> int64 \<Rightarrow> string \<Rightarrow> string \<Rightarrow> int64 option \<Rightarrow> string \<Rightarrow> state \<Rightarrow> time \<Rightarrow> eer \<Rightarrow> effect_error + (op_receipt \<times> eer)" where
  "insert_receipt op i key digest admin system s at st =
     (let r = \<lparr>or_id = eer_next_receipt st, or_operation = op, or_effect = i, or_key = key, or_digest = digest,
               or_admin = admin, or_system = system, or_state = s, or_completed_at = at\<rparr>
      in if \<not> pg_digest key \<or> \<not> pg_digest digest
            \<or> list_ex (\<lambda>q. or_operation q = op \<and> or_effect q = i \<and> (or_key q = key \<or> or_digest q = digest)) (eer_receipts st)
            \<or> op = OpAccept \<and> list_ex (\<lambda>q. or_operation q = OpAccept \<and> or_key q = key) (eer_receipts st)
         then Inl EffUnavailable
         else Inr (r, st\<lparr>eer_receipts := eer_receipts st @ [r], eer_next_receipt := eer_next_receipt st + 1\<rparr>))"

text \<open>A new generation with its River job; both tables are keyed by effect and generation.\<close>

definition insert_job :: "int64 \<Rightarrow> int64 \<Rightarrow> queue \<Rightarrow> time \<Rightarrow> eer \<Rightarrow> effect_error + (int64 \<times> eer)" where
  "insert_job i g q at st =
     (if job_of st i g \<noteq> None \<or> g < 1 then Inl EffUnavailable
      else Inr (eer_next_job st,
                st\<lparr>eer_jobs := eer_jobs st @ [\<lparr>jb_effect = i, jb_generation = g, jb_river_id = eer_next_job st,
                     jb_queue = q, jb_scheduled_at = at\<rparr>], eer_next_job := eer_next_job st + 1\<rparr>))"

definition complete_effect :: "sink \<Rightarrow> completion \<Rightarrow> eer \<Rightarrow> effect_error + eer" where
  "complete_effect sink c st =
     (case sink of
        None \<Rightarrow> Inr st
      | Some takes \<Rightarrow> if takes c then Inr (st\<lparr>eer_completions := eer_completions st @ [c]\<rparr>) else Inl EffUnavailable)"

definition completion_of :: "effect_row \<Rightarrow> int32 \<Rightarrow> int64 \<Rightarrow> int64 \<Rightarrow> adapter_result \<Rightarrow> completion" where
  "completion_of e number generation fence res =
     \<lparr>cp_effect_id = effect_id (ef_id e), cp_envelope = ef_envelope e,
      cp_attempt = \<lparr>att_effect_id = effect_id (ef_id e), att_number = number, att_generation = generation, att_fence = fence\<rparr>,
      cp_result = res\<rparr>"

definition local_result :: "state \<Rightarrow> string \<Rightarrow> bool \<Rightarrow> adapter_result" where
  "local_result s d called = \<lparr>ar_completion = s, ar_receipt = d, ar_failure_code = [], ar_call_attempted = called,
     ar_real_call = False, ar_safe_to_retry_rejected = False, ar_artifact = no_artifact\<rparr>"

section \<open>Acceptance\<close>

definition accepted_reply :: "eer \<Rightarrow> effect_row \<Rightarrow> op_receipt \<Rightarrow> effect_error + (projection \<times> receipt \<times> eer)" where
  "accepted_reply st e r =
     (case (job_of st (ef_id e) (ef_generation e),
            find (\<lambda>q. or_operation q = OpQueue \<and> or_effect q = ef_id e) (eer_receipts st)) of
        (Some j, Some q) \<Rightarrow>
          Inr ((projection_of e)\<lparr>pj_queue_job := jb_river_id j\<rparr>,
               \<lparr>rc_id = receipt_ref (or_id r), rc_effect_id = effect_id (ef_id e), rc_digest = or_digest r,
                rc_admin = None, rc_state = or_state r, rc_completed_at = or_completed_at r,
                rc_queue_receipt_id = receipt_ref (or_id q)\<rparr>, st)
      | _ \<Rightarrow> Inl EffUnavailable)"

definition new_effect :: "accept_command \<Rightarrow> time \<Rightarrow> eer \<Rightarrow> effect_row" where
  "new_effect c now st = \<lparr>ef_id = eer_next_effect st, ef_envelope = ac_envelope c,
     ef_fingerprint = fingerprint (ac_envelope c), ef_lane = ac_lane c, ef_state = StateAccepted, ef_attempts = 0,
     ef_generation = 1, ef_fence = 0, ef_lease = None, ef_updated_at = now\<rparr>"

definition insert_effect :: "effect_row \<Rightarrow> eer \<Rightarrow> effect_error + eer" where
  "insert_effect e st =
     (let v = ef_envelope e
      in if \<not> pg_digest (env_source v) \<or> \<not> pg_digest (env_target v) \<or> \<not> pg_digest (env_payload v)
            \<or> \<not> pg_digest (env_policy v) \<or> \<not> pg_digest (ef_fingerprint e)
         then Inl EffUnavailable
         else Inr (st\<lparr>eer_effects := eer_effects st @ [e], eer_next_effect := eer_next_effect st + 1\<rparr>))"

definition accept_new :: "clocks \<Rightarrow> accept_command \<Rightarrow> eer \<Rightarrow> effect_error + (projection \<times> receipt \<times> eer)" where
  "accept_new clk c st =
     (let e = new_effect c (db_now clk) st; i = ef_id e; q = effect_queue (env_kind (ac_envelope c)) (ac_lane c)
      in and_then (insert_effect e st) (\<lambda>st1.
         and_then (insert_receipt OpAccept i (ac_receipt_key c) (accept_digest c) None [] StateAccepted (db_now clk) st1) (\<lambda>(r, st2).
         and_then (insert_job i 1 q (if is_zero (ac_scheduled_at c) then db_now clk else utc (ac_scheduled_at c)) st2) (\<lambda>(job, st3).
         let queued = e\<lparr>ef_state := StateQueued, ef_updated_at := db_now clk\<rparr>; st4 = put_effect queued st3
         in and_then (insert_receipt OpQueue i (hash_parts [''queue'', effect_id i])
                        (hash_parts [''queue'', effect_id i, format_int job]) None [] StateQueued (db_now clk) st4) (\<lambda>(qr, st5).
         Inr ((projection_of queued)\<lparr>pj_queue_job := job\<rparr>,
              \<lparr>rc_id = receipt_ref (or_id r), rc_effect_id = effect_id i, rc_digest = accept_digest c, rc_admin = None,
               rc_state = StateAccepted, rc_completed_at = or_completed_at r, rc_queue_receipt_id = receipt_ref (or_id qr)\<rparr>,
              st5))))))"

definition accept_and_queue :: "clocks \<Rightarrow> accept_command \<Rightarrow> eer \<Rightarrow> effect_error + (projection \<times> receipt \<times> eer)" where
  "accept_and_queue clk c st =
     (if \<not> valid_accept c then Inl EffInvalid
      else case find (\<lambda>r. or_operation r = OpAccept \<and> or_key r = ac_receipt_key c
                          \<and> effect_of st (or_effect r) \<noteq> None) (eer_receipts st) of
        Some r \<Rightarrow>
          (case effect_of st (or_effect r) of
             None \<Rightarrow> Inl EffUnavailable
           | Some e \<Rightarrow> if or_digest r \<noteq> accept_digest c then Inl EffPayloadMismatch else accepted_reply st e r)
      | None \<Rightarrow>
          (case find (\<lambda>e. ef_fingerprint e = fingerprint (ac_envelope c)) (eer_effects st) of
             Some e \<Rightarrow>
               (case receipt_of st OpAccept (ef_id e) (ac_receipt_key c) of
                  None \<Rightarrow> Inl EffPayloadMismatch
                | Some r \<Rightarrow> if or_digest r \<noteq> accept_digest c then Inl EffPayloadMismatch else accepted_reply st e r)
           | None \<Rightarrow> accept_new clk c st))"

section \<open>Owner cancellation and client completion\<close>

record cancel_command =
  cn_effect_id :: string
  cn_receipt_key :: string
  cn_reason :: string
  cn_actor :: control_actor

definition cancel_digest :: "cancel_command \<Rightarrow> string" where
  "cancel_digest c = hash_parts [''cancel'', cn_effect_id c, cn_receipt_key c, cn_reason c,
     format_int (ca_admin_user_id (cn_actor c)), ca_system_ref (cn_actor c)]"

text \<open>The writes of a cancellation that was admitted.\<close>

definition cancel_write :: "clocks \<Rightarrow> cancel_command \<Rightarrow> effect_row \<Rightarrow> eer \<Rightarrow> effect_error + (projection \<times> eer)" where
  "cancel_write clk c e st =
     (let e' = e\<lparr>ef_state := StateCancelled, ef_updated_at := db_now clk\<rparr>
      in and_then (insert_receipt OpCancel (ef_id e) (cn_receipt_key c) (cancel_digest c)
                     (if ca_admin_user_id (cn_actor c) = 0 then None else Some (ca_admin_user_id (cn_actor c)))
                     (ca_system_ref (cn_actor c)) StateCancelled (db_now clk) (put_effect e' st))
           (\<lambda>(_, st'). Inr (projection_of e', st')))"

definition cancel_queued :: "clocks \<Rightarrow> cancel_command \<Rightarrow> eer \<Rightarrow> effect_error + (projection \<times> eer)" where
  "cancel_queued clk c st =
     (if cn_effect_id c = [] \<or> \<not> valid_digest (cn_receipt_key c) \<or> cn_reason c = [] \<or> 80 < length (cn_reason c)
         \<or> \<not> valid_actor (cn_actor c)
      then Inl EffInvalid
      else and_then (parse_effect_id (cn_effect_id c)) (\<lambda>i.
        case effect_of st i of
          None \<Rightarrow> Inl EffNotFound
        | Some e \<Rightarrow>
            (case receipt_of st OpCancel i (cn_receipt_key c) of
               Some r \<Rightarrow>
                 if or_digest r \<noteq> cancel_digest c \<or> ef_state e \<noteq> StateCancelled then Inl EffPayloadMismatch
                 else Inr (projection_of e, st)
             | None \<Rightarrow>
                 if ef_state e \<noteq> StateQueued then Inl EffTransition
                 else if system_actor (cn_actor c)
                         \<and> (env_owner (ef_envelope e) \<noteq> OwnerPayment \<or> env_kind (ef_envelope e) \<noteq> KindWeChatPayProfitSharing)
                 then Inl EffInvalid
                 else cancel_write clk c e st)))"

record client_completion =
  cl_effect_id :: string
  cl_receipt_key :: string
  cl_evidence :: string
  cl_state :: state

definition client_digest :: "client_completion \<Rightarrow> string" where
  "client_digest c = hash_parts [''client-complete'', cl_effect_id c, cl_receipt_key c, cl_evidence c, state_text (cl_state c)]"

text \<open>Inserting an attempt row: numbers are positive and unique within a generation, digests
  are well-formed, an executed call was attempted.\<close>

definition insert_attempt :: "attempt_row \<Rightarrow> eer \<Rightarrow> effect_error + eer" where
  "insert_attempt a st =
     (if ea_number a < 1 \<or> (ea_receipt a \<noteq> [] \<and> \<not> pg_digest (ea_receipt a)) \<or> (ea_evidence a \<noteq> [] \<and> \<not> pg_digest (ea_evidence a))
         \<or> ea_real a \<and> \<not> ea_called a
         \<or> list_ex (\<lambda>b. ea_effect b = ea_effect a \<and> ea_number b = ea_number a \<and> ea_generation b = ea_generation a) (eer_attempts st)
      then Inl EffUnavailable
      else Inr (st\<lparr>eer_attempts := eer_attempts st @ [a]\<rparr>))"

definition client_attempt :: "clocks \<Rightarrow> client_completion \<Rightarrow> effect_row \<Rightarrow> attempt_row" where
  "client_attempt clk c e = \<lparr>ea_effect = ef_id e, ea_number = wrap32 (ef_attempts e + 1), ea_generation = ef_generation e,
     ea_fence = 0, ea_state = cl_state c, ea_receipt = cl_evidence c, ea_evidence = cl_evidence c, ea_called = True,
     ea_real = (cl_state c = StateExecuted \<or> cl_state c = StateUnknown), ea_completed_at = Some (db_now clk)\<rparr>"

definition complete_write :: "clocks \<Rightarrow> client_completion \<Rightarrow> effect_row \<Rightarrow> eer \<Rightarrow> effect_error + (projection \<times> eer)" where
  "complete_write clk c e st =
     (let a = client_attempt clk c e;
          e' = e\<lparr>ef_state := cl_state c, ef_attempts := ea_number a, ef_updated_at := db_now clk\<rparr>
      in and_then (insert_attempt a st) (\<lambda>st1.
         and_then (insert_receipt OpComplete (ef_id e) (cl_receipt_key c) (client_digest c) None [] (cl_state c)
                     (db_now clk) (put_effect e' st1))
           (\<lambda>(_, st'). Inr (projection_of e', st'))))"

definition complete_client :: "clocks \<Rightarrow> client_completion \<Rightarrow> eer \<Rightarrow> effect_error + (projection \<times> eer)" where
  "complete_client clk c st =
     (if cl_effect_id c = [] \<or> \<not> valid_digest (cl_receipt_key c) \<or> \<not> valid_digest (cl_evidence c)
         \<or> (cl_state c \<noteq> StateExecuted \<and> cl_state c \<noteq> StateUnknown \<and> cl_state c \<noteq> StateFinalFailed)
      then Inl EffInvalid
      else and_then (parse_effect_id (cl_effect_id c)) (\<lambda>i.
        case effect_of st i of
          None \<Rightarrow> Inl EffNotFound
        | Some e \<Rightarrow>
            if env_kind (ef_envelope e) \<noteq> KindSidebarJSSDKSend then Inl EffInvalid
            else (case receipt_of st OpComplete i (cl_receipt_key c) of
               Some r \<Rightarrow>
                 if or_digest r \<noteq> client_digest c then Inl EffPayloadMismatch else Inr (projection_of e, st)
             | None \<Rightarrow>
                 if ef_state e \<noteq> StateQueued then Inl EffTransition
                 else complete_write clk c e st)))"

section \<open>Manual control\<close>

text \<open>The outcome an operator states for an upload whose result was unknown.\<close>

definition reconciliation_stated :: "effect_row \<Rightarrow> control_command \<Rightarrow> bool" where
  "reconciliation_stated e c \<longleftrightarrow>
     \<not> (env_kind (ef_envelope e) = KindOutboundMedia \<and> ef_lane e = LaneOutboundMedia)
     \<or> (if cc_outcome c = ''no_effect''
        then art_kind (cc_artifact c) = [] \<and> art_payload (cc_artifact c) = [] \<and> art_digest (cc_artifact c) = []
        else if cc_outcome c = ''confirmed_effect''
        then valid_artifact (cc_artifact c) \<and> art_kind (cc_artifact c) = ''outbound.material.upload.v1''
        else False)"

definition fenced :: "control_command \<Rightarrow> bool" where
  "fenced c \<longleftrightarrow> cc_generation c \<noteq> 0 \<or> cc_fence c \<noteq> 0 \<or> \<not> is_zero (cc_lease_expires_at c)"

definition fence_matches :: "clocks \<Rightarrow> effect_row \<Rightarrow> control_command \<Rightarrow> bool" where
  "fence_matches clk e c \<longleftrightarrow>
     \<not> (cc_generation c < 1 \<or> cc_fence c < 1 \<or> is_zero (cc_lease_expires_at c) \<or> ef_generation e \<noteq> cc_generation c
        \<or> ef_fence e \<noteq> cc_fence c)
     \<and> (case ef_lease e of None \<Rightarrow> False | Some l \<Rightarrow> l = utc (cc_lease_expires_at c) \<and> \<not> app_now clk < l)"

definition op_text :: "operation \<Rightarrow> string" where
  "op_text op = (case op of OpAccept \<Rightarrow> ''accept'' | OpQueue \<Rightarrow> ''queue'' | OpRetry \<Rightarrow> ''retry'' | OpCancel \<Rightarrow> ''cancel''
     | OpComplete \<Rightarrow> ''complete'' | OpReconcile \<Rightarrow> ''reconcile'')"

text \<open>The state an operation moves an effect to, or why it may not.\<close>

definition control_target :: "operation \<Rightarrow> state \<Rightarrow> effect_error + state" where
  "control_target op s =
     (case op of
        OpCancel \<Rightarrow> if s \<noteq> StateAccepted \<and> s \<noteq> StateQueued then Inl EffTransition else Inr StateCancelled
      | OpRetry \<Rightarrow> if s \<noteq> StateRetryable then Inl EffTransition else Inr StateQueued
      | OpReconcile \<Rightarrow> if s \<noteq> StateUnknown then Inl EffReconcileRequired else Inr StateReconciled
      | _ \<Rightarrow> Inl EffInvalid)"

text \<open>\<open>UPDATE external_effect_attempts ... WHERE ...\<close>: the rows a condition selects, and the
  store with them replaced when there is exactly one.\<close>

definition update_one_attempt ::
  "(attempt_row \<Rightarrow> bool) \<Rightarrow> (attempt_row \<Rightarrow> attempt_row) \<Rightarrow> effect_error \<Rightarrow> eer \<Rightarrow> effect_error + eer" where
  "update_one_attempt sel f err st =
     (if length (filter sel (eer_attempts st)) \<noteq> 1 then Inl err
      else Inr (st\<lparr>eer_attempts := map (\<lambda>a. if sel a then f a else a) (eer_attempts st)\<rparr>))"

definition projects_control :: "kind \<Rightarrow> lane \<Rightarrow> bool" where
  "projects_control k l \<longleftrightarrow>
     k \<in> {KindWeComTagCatalog, KindWeComTagCatalogMutation, KindOutboundMessage, KindAutomationMessage,
          KindAIAgentGenerate, KindAIRecommend, KindFeishuOpsNotification, KindInvitationCode}
     \<or> k = KindOutboundMedia \<and> l = LaneOutboundMedia"

definition control_completion :: "effect_row \<Rightarrow> control_command \<Rightarrow> state \<Rightarrow> string \<Rightarrow> adapter_result" where
  "control_completion e c s digest =
     (let r = local_result s digest False
      in if env_kind (ef_envelope e) = KindOutboundMedia \<and> ef_lane e = LaneOutboundMedia
         then (if cc_outcome c = ''no_effect'' then r\<lparr>ar_failure_code := ''reconciled_no_effect''\<rparr>
               else r\<lparr>ar_completion := StateExecuted, ar_artifact := cc_artifact c\<rparr>)
         else r)"

definition retry_rows :: "clocks \<Rightarrow> effect_row \<Rightarrow> int64 \<Rightarrow> eer \<Rightarrow> effect_error + eer" where
  "retry_rows clk e g st = map_sum id snd
     (insert_job (ef_id e) g (effect_queue (env_kind (ef_envelope e)) (ef_lane e)) (db_now clk) st)"

definition reconcile_rows :: "clocks \<Rightarrow> effect_row \<Rightarrow> control_command \<Rightarrow> eer \<Rightarrow> effect_error + eer" where
  "reconcile_rows clk e c st =
     (if \<not> pg_digest (cc_evidence c) then Inl EffUnavailable
      else update_one_attempt
        (\<lambda>a. ea_effect a = ef_id e \<and> ea_generation a = ef_generation e \<and> ea_fence a = ef_fence e \<and> ea_state a = StateUnknown
             \<and> (fenced c \<longrightarrow> (case ef_lease e of None \<Rightarrow> True | Some l \<Rightarrow> l \<le> db_now clk)))
        (\<lambda>a. a\<lparr>ea_state := StateReconciled, ea_evidence := cc_evidence c, ea_completed_at := Some (db_now clk)\<rparr>)
        EffReconcileRequired st)"

text \<open>The writes of a control operation that was admitted with the new state \<open>s\<close>.\<close>

definition control_write ::
  "sink \<Rightarrow> clocks \<Rightarrow> operation \<Rightarrow> control_command \<Rightarrow> effect_row \<Rightarrow> state \<Rightarrow> eer
     \<Rightarrow> effect_error + (projection \<times> receipt \<times> eer)" where
  "control_write sink clk op c e s st =
     (let digest = control_digest c (op_text op);
          g = (if op = OpRetry then wrap64 (ef_generation e + 1) else ef_generation e);
          e' = e\<lparr>ef_state := s, ef_generation := g, ef_updated_at := db_now clk\<rparr>
      in and_then (if op = OpRetry then retry_rows clk e g st else Inr st) (\<lambda>st1.
         and_then (if op = OpReconcile then reconcile_rows clk e c st1 else Inr st1) (\<lambda>st2.
         and_then (insert_receipt op (ef_id e) (cc_receipt_key c) digest (Some (cc_actor c)) [] s (db_now clk)
                     (put_effect e' st2)) (\<lambda>(r, st3).
         and_then (if projects_control (env_kind (ef_envelope e)) (ef_lane e)
                   then complete_effect sink (completion_of e (ef_attempts e) g (ef_fence e)
                          (control_completion e c s digest)) st3
                   else Inr st3) (\<lambda>st4.
         Inr (projection_of e',
              \<lparr>rc_id = receipt_ref (or_id r), rc_effect_id = cc_effect_id c, rc_digest = digest,
               rc_admin = Some (cc_actor c), rc_state = s, rc_completed_at = or_completed_at r,
               rc_queue_receipt_id = []\<rparr>, st4))))))"

definition control_within ::
  "sink \<Rightarrow> clocks \<Rightarrow> operation \<Rightarrow> control_command \<Rightarrow> eer \<Rightarrow> effect_error + (projection \<times> receipt \<times> eer)" where
  "control_within sink clk op c st =
     (if \<not> valid_control c \<or> op = OpReconcile \<and> \<not> valid_digest (cc_evidence c) then Inl EffInvalid
      else and_then (parse_effect_id (cc_effect_id c)) (\<lambda>i.
        case effect_of st i of
          None \<Rightarrow> Inl EffNotFound
        | Some e \<Rightarrow>
          if op = OpReconcile \<and> \<not> reconciliation_stated e c then Inl EffReconcileRequired
          else if op = OpReconcile \<and> fenced c \<and> \<not> fence_matches clk e c then Inl EffReconcileRequired
          else let digest = control_digest c (op_text op)
               in case receipt_of st op i (cc_receipt_key c) of
                    Some r \<Rightarrow>
                      if or_digest r \<noteq> digest then Inl EffPayloadMismatch
                      else Inr (projection_of e,
                                \<lparr>rc_id = receipt_ref (or_id r), rc_effect_id = cc_effect_id c, rc_digest = or_digest r,
                                 rc_admin = or_admin r, rc_state = or_state r, rc_completed_at = or_completed_at r,
                                 rc_queue_receipt_id = []\<rparr>, st)
                  | None \<Rightarrow>
                      and_then (control_target op (ef_state e)) (\<lambda>s. control_write sink clk op c e s st)))"

record reconcile_command =
  rk_effect_id :: string
  rk_receipt_key :: string
  rk_evidence :: string
  rk_actor :: int64
  rk_generation :: int64
  rk_fence :: int64
  rk_lease_expires_at :: time

definition reconcile_control :: "reconcile_command \<Rightarrow> time \<Rightarrow> control_command" where
  "reconcile_control k lease = \<lparr>cc_effect_id = rk_effect_id k, cc_receipt_key = rk_receipt_key k,
     cc_evidence = rk_evidence k, cc_actor = rk_actor k, cc_generation = rk_generation k, cc_fence = rk_fence k,
     cc_lease_expires_at = lease, cc_outcome = [], cc_artifact = no_artifact\<rparr>"

text \<open>\<open>ReconcileUnknownWithin\<close> reads the lease under the caller's fence first.\<close>

definition reconcile_unknown ::
  "sink \<Rightarrow> clocks \<Rightarrow> reconcile_command \<Rightarrow> eer \<Rightarrow> effect_error + (projection \<times> receipt \<times> eer)" where
  "reconcile_unknown sink clk k st =
     (if rk_effect_id k = [] \<or> \<not> valid_digest (rk_receipt_key k) \<or> \<not> valid_digest (rk_evidence k) \<or> rk_actor k < 1
         \<or> rk_generation k < 1 \<or> rk_fence k < 1
      then Inl EffInvalid
      else and_then (parse_effect_id (rk_effect_id k)) (\<lambda>i.
        case effect_of st i of
          None \<Rightarrow> Inl EffReconcileRequired
        | Some e \<Rightarrow>
            if ef_state e \<noteq> StateUnknown \<or> ef_generation e \<noteq> rk_generation k \<or> ef_fence e \<noteq> rk_fence k
            then Inl EffReconcileRequired
            else (case ef_lease e of
                    None \<Rightarrow> Inl EffReconcileRequired
                  | Some l \<Rightarrow> control_within sink clk OpReconcile (reconcile_control k l) st)))"

datatype port_error = PortNotFound | PortConflict | PortOther effect_error

text \<open>\<open>ReconcileEffectWithin\<close> passes the fence the caller gives and translates the errors.\<close>

definition reconcile_effect ::
  "sink \<Rightarrow> clocks \<Rightarrow> reconcile_command \<Rightarrow> eer \<Rightarrow> port_error + (projection \<times> receipt \<times> eer)" where
  "reconcile_effect sink clk k st =
     (case control_within sink clk OpReconcile (reconcile_control k (rk_lease_expires_at k)) st of
        Inr r \<Rightarrow> Inr r
      | Inl EffNotFound \<Rightarrow> Inl PortNotFound
      | Inl EffReconcileRequired \<Rightarrow> Inl PortConflict
      | Inl EffTransition \<Rightarrow> Inl PortConflict
      | Inl EffPayloadMismatch \<Rightarrow> Inl PortConflict
      | Inl err \<Rightarrow> Inl (PortOther err))"

definition reconciliation_candidate :: "string \<Rightarrow> eer \<Rightarrow> port_error + (projection \<times> int64 \<times> time)" where
  "reconciliation_candidate s st =
     (case parse_effect_id s of
        Inl err \<Rightarrow> Inl (PortOther err)
      | Inr i \<Rightarrow>
          (case effect_of st i of
             None \<Rightarrow> Inl PortNotFound
           | Some e \<Rightarrow>
               (case ef_lease e of
                  None \<Rightarrow> Inl PortConflict
                | Some l \<Rightarrow>
                    if ef_state e \<noteq> StateUnknown \<or> ef_generation e < 1 \<or> ef_fence e < 1 then Inl PortConflict
                    else Inr (projection_of e, ef_fence e, utc l))))"

definition get_effect :: "string \<Rightarrow> eer \<Rightarrow> effect_error + projection" where
  "get_effect s st =
     and_then (parse_effect_id s) (\<lambda>i. case effect_of st i of None \<Rightarrow> Inl EffNotFound | Some e \<Rightarrow> Inr (projection_of e))"

section \<open>Running an attempt\<close>

record claim =
  clm_effect :: int64
  clm_generation :: int64
  clm_number :: int32
  clm_fence :: int64
  clm_queue :: queue

datatype attempt_begin = BeginSkipped | BeginSnoozed duration | BeginRecovered | BeginClaimed claim

definition attempt_key :: "int64 \<Rightarrow> int32 \<Rightarrow> int64 \<Rightarrow> int64 \<Rightarrow> attempt_row \<Rightarrow> bool" where
  "attempt_key i n g f a \<longleftrightarrow> ea_effect a = i \<and> ea_number a = n \<and> ea_generation a = g \<and> ea_fence a = f \<and> ea_state a = StateAttempted"

definition recovery_digest :: "effect_row \<Rightarrow> string" where
  "recovery_digest e = hash_parts [''attempt-lease-expired'', effect_id (ef_id e), format_int (ef_generation e),
     format_int (ef_attempts e), format_int (ef_fence e)]"

text \<open>An attempt whose worker vanished: unknown once the lease has expired, never a new call.\<close>

definition recover_attempt :: "sink \<Rightarrow> clocks \<Rightarrow> effect_row \<Rightarrow> eer \<Rightarrow> effect_error + (attempt_begin \<times> eer)" where
  "recover_attempt sink clk e st =
     (if (case ef_lease e of None \<Rightarrow> False | Some l \<Rightarrow> app_now clk < l)
      then Inr (BeginSnoozed (max nanoseconds_per_second (the (ef_lease e) - app_now clk)), st)
      else and_then
        (update_one_attempt (attempt_key (ef_id e) (ef_attempts e) (ef_generation e) (ef_fence e))
           (\<lambda>a. a\<lparr>ea_state := StateUnknown, ea_receipt := recovery_digest e, ea_completed_at := Some (db_now clk)\<rparr>)
           EffTransition st) (\<lambda>st1.
        if (case ef_lease e of None \<Rightarrow> False | Some l \<Rightarrow> db_now clk < l) then Inl EffTransition
        else and_then
          (if projects_stale_attempt (env_kind (ef_envelope e))
           then complete_effect sink (completion_of e (ef_attempts e) (ef_generation e) (ef_fence e)
                  (local_result StateUnknown (recovery_digest e) (env_kind (ef_envelope e) \<noteq> KindSidebarJSSDKSend)))
                  (put_effect (e\<lparr>ef_state := StateUnknown, ef_updated_at := db_now clk\<rparr>) st1)
           else Inr (put_effect (e\<lparr>ef_state := StateUnknown, ef_updated_at := db_now clk\<rparr>) st1))
          (\<lambda>st2. Inr (BeginRecovered, st2))))"

definition claim_attempt :: "clocks \<Rightarrow> effect_row \<Rightarrow> queue \<Rightarrow> eer \<Rightarrow> effect_error + (attempt_begin \<times> eer)" where
  "claim_attempt clk e q st =
     (let n = wrap32 (ef_attempts e + 1); f = wrap64 (ef_fence e + 1);
          e' = e\<lparr>ef_state := StateAttempted, ef_attempts := n, ef_fence := f, ef_lease := Some (db_now clk + 5 * minute),
                 ef_updated_at := db_now clk\<rparr>;
          a = \<lparr>ea_effect = ef_id e, ea_number = n, ea_generation = ef_generation e, ea_fence = f, ea_state = StateAttempted,
               ea_receipt = [], ea_evidence = [], ea_called = False, ea_real = False, ea_completed_at = None\<rparr>
      in if f < 0 then Inl EffUnavailable
         else and_then (insert_attempt a (put_effect e' st)) (\<lambda>st'.
           Inr (BeginClaimed \<lparr>clm_effect = ef_id e, clm_generation = ef_generation e, clm_number = n, clm_fence = f,
                             clm_queue = q\<rparr>, st')))"

definition begin_attempt :: "sink \<Rightarrow> clocks \<Rightarrow> int64 \<Rightarrow> int64 \<Rightarrow> int64 \<Rightarrow> eer \<Rightarrow> effect_error + (attempt_begin \<times> eer)" where
  "begin_attempt sink clk i generation river_job st =
     (case (effect_of st i, job_of st i generation) of
        (Some e, Some j) \<Rightarrow>
          if ef_generation e \<noteq> generation \<or> jb_river_id j \<noteq> river_job then Inr (BeginSkipped, st)
          else if ef_state e = StateAttempted then recover_attempt sink clk e st
          else if ef_state e \<noteq> StateQueued then Inr (BeginSkipped, st)
          else claim_attempt clk e (jb_queue j) st
      | _ \<Rightarrow> Inr (BeginSkipped, st))"

text \<open>The envelope the adapter is given after the claim was committed.\<close>

definition claimed_envelope :: "claim \<Rightarrow> eer \<Rightarrow> envelope option" where
  "claimed_envelope c st =
     (case effect_of st (clm_effect c) of
        None \<Rightarrow> None
      | Some e \<Rightarrow> if ef_generation e = clm_generation c then Some (ef_envelope e) else None)"

text \<open>What comes back from the provider boundary: nothing when no adapter is configured, a
  result with or without a Go error otherwise.\<close>

datatype provider_answer = NoAdapter | Answered adapter_result | Failed adapter_result

fun answer_result :: "provider_answer \<Rightarrow> adapter_result" where
  "answer_result NoAdapter = local_result (StateOther []) [] False"
| "answer_result (Answered r) = r"
| "answer_result (Failed r) = r"

definition called :: "provider_answer \<Rightarrow> bool" where
  "called a = ar_call_attempted (answer_result a)"

definition retry_lane :: "kind \<Rightarrow> queue \<Rightarrow> bool" where
  "retry_lane k q \<longleftrightarrow> k = KindOutboundMedia \<and> q = OutboundMediaQueue
     \<or> (k = KindOutboundMessage \<or> k = KindAutomationMessage) \<and> q = OutboundExcelQueue"

definition outcome_digest :: "string \<Rightarrow> claim \<Rightarrow> string" where
  "outcome_digest what c = hash_parts [what, format_int (clm_effect c), format_int (clm_number c)]"

definition provider_outcome :: "claim \<Rightarrow> kind \<Rightarrow> provider_answer \<Rightarrow> state \<times> string" where
  "provider_outcome c k answer =
     (case answer of
        NoAdapter \<Rightarrow> (StateFinalFailed, outcome_digest ''provider-disabled'' c)
      | Failed r \<Rightarrow> (if ar_call_attempted r then StateUnknown else StateRetryable, outcome_digest ''provider-error'' c)
      | Answered r \<Rightarrow>
          if \<not> valid_digest (ar_receipt r) \<or> ar_real_call r \<and> \<not> ar_call_attempted r
          then (if ar_call_attempted r then StateUnknown else StateFinalFailed, outcome_digest ''provider-invalid'' c)
          else if ar_completion r = StateExecuted \<and> ar_call_attempted r \<and> ar_real_call r
          then (StateExecuted, ar_receipt r)
          else if ar_completion r = StateExecuted \<and> k = KindWeComContactDescription \<and> ar_call_attempted r
                  \<and> \<not> ar_real_call r \<and> valid_artifact (ar_artifact r)
          then (StateExecuted, ar_receipt r)
          else if ar_completion r = StateUnknown \<and> (ar_call_attempted r \<or> k = KindSidebarJSSDKSend)
          then (StateUnknown, ar_receipt r)
          else if ar_completion r = StateRetryable
                  \<and> (\<not> ar_call_attempted r
                     \<or> retry_lane k (clm_queue c) \<and> ar_call_attempted r \<and> \<not> ar_real_call r \<and> ar_safe_to_retry_rejected r)
          then (StateRetryable, ar_receipt r)
          else if ar_completion r = StateFinalFailed then (StateFinalFailed, ar_receipt r)
          else (if ar_call_attempted r then StateUnknown else StateFinalFailed, outcome_digest ''provider-invalid'' c))"

definition artifact_kinds :: "kind set" where
  "artifact_kinds = {KindOutboundMedia, KindWeComTagCatalog, KindWeComTagCatalogMutation, KindChannelAsset,
     KindChannelLink, KindCustomerOwnerHandoff, KindAIAgentGenerate, KindAIRecommend}"

definition attempt_outcome :: "sink \<Rightarrow> claim \<Rightarrow> kind \<Rightarrow> provider_answer \<Rightarrow> state \<times> string" where
  "attempt_outcome sink c k answer =
     (let (s, d) = provider_outcome c k answer
      in if s = StateExecuted \<and> k \<in> artifact_kinds \<and> (sink = None \<or> \<not> valid_artifact (ar_artifact (answer_result answer)))
         then (StateUnknown, outcome_digest ''provider-artifact-invalid'' c) else (s, d))"

definition auto_retry :: "claim \<Rightarrow> kind \<Rightarrow> provider_answer \<Rightarrow> state \<Rightarrow> bool" where
  "auto_retry c k answer s \<longleftrightarrow>
     (retry_lane k (clm_queue c)
      \<or> k = KindFeishuOpsNotification \<and> clm_queue c = OpsNotificationQueue \<and> \<not> called answer)
     \<and> s = StateRetryable \<and> clm_number c < 5"

definition completion_kinds :: "kind set" where
  "completion_kinds = {KindOutboundMedia, KindGroupMessage, KindWeComTagCatalog, KindWeComTagCatalogMutation,
     KindWeComContactDescription, KindChannelAsset, KindChannelWelcome, KindChannelEntryTag, KindCustomerTagCommand,
     KindCustomerOwnerHandoff, KindCommerceProductPush, KindInvitationCode, KindChannelLink, KindOutboundMessage,
     KindAutomationMessage, KindSidebarJSSDKSend, KindSurveyCompletion, KindAIAgentGenerate, KindAIRecommend,
     KindFeishuOpsNotification}"

definition should_complete :: "envelope \<Rightarrow> bool" where
  "should_complete v \<longleftrightarrow> env_kind v \<in> completion_kinds \<or> env_owner v = OwnerPayment"

definition reported_result :: "provider_answer \<Rightarrow> state \<Rightarrow> string \<Rightarrow> adapter_result" where
  "reported_result answer persisted d =
     (let r = answer_result answer
      in r\<lparr>ar_completion := persisted, ar_receipt := (if valid_digest (ar_receipt r) then ar_receipt r else d)\<rparr>)"

text \<open>What follows the update of the attempt row: the effect row, then the completion.\<close>

definition finish_write ::
  "sink \<Rightarrow> clocks \<Rightarrow> claim \<Rightarrow> envelope \<Rightarrow> adapter_result \<Rightarrow> state \<Rightarrow> effect_row \<Rightarrow> eer \<Rightarrow> effect_error + eer" where
  "finish_write sink clk c v r p e st =
     (let st1 = put_effect (e\<lparr>ef_state := p, ef_updated_at := db_now clk\<rparr>) st
      in if should_complete v
         then complete_effect sink
                \<lparr>cp_effect_id = effect_id (clm_effect c), cp_envelope = v,
                 cp_attempt = \<lparr>att_effect_id = effect_id (clm_effect c), att_number = clm_number c,
                               att_generation = clm_generation c, att_fence = clm_fence c\<rparr>,
                 cp_result = r\<rparr> st1
         else Inr st1)"

definition finish_attempt ::
  "sink \<Rightarrow> clocks \<Rightarrow> claim \<Rightarrow> envelope \<Rightarrow> provider_answer \<Rightarrow> eer \<Rightarrow> effect_error + (duration option \<times> eer)" where
  "finish_attempt sink clk c v answer st =
     (let (s, d) = attempt_outcome sink c (env_kind v) answer;
          r = answer_result answer; again = auto_retry c (env_kind v) answer s;
          p = (if again then StateQueued else s)
      in if \<not> pg_digest d \<or> ar_real_call r \<and> \<not> ar_call_attempted r then Inl EffUnavailable
         else and_then
           (update_one_attempt (attempt_key (clm_effect c) (clm_number c) (clm_generation c) (clm_fence c))
              (\<lambda>a. a\<lparr>ea_state := s, ea_receipt := d, ea_called := ar_call_attempted r, ea_real := ar_real_call r,
                     ea_completed_at := Some (db_now clk)\<rparr>) EffTransition st) (\<lambda>st1.
         case effect_of st1 (clm_effect c) of
           None \<Rightarrow> Inl EffTransition
         | Some e \<Rightarrow>
             if ef_generation e \<noteq> clm_generation c \<or> ef_fence e \<noteq> clm_fence c \<or> ef_state e \<noteq> StateAttempted
             then Inl EffTransition
             else and_then (finish_write sink clk c v (reported_result answer p d) p e st1) (\<lambda>st2.
                  Inr (if again then Some (automatic_retry_delay (clm_number c)) else None, st2))))"

section \<open>The worker\<close>

definition queued_envelope :: "int64 \<Rightarrow> int64 \<Rightarrow> int64 \<Rightarrow> eer \<Rightarrow> envelope option" where
  "queued_envelope i generation river_job st =
     (case (effect_of st i, job_of st i generation) of
        (Some e, Some j) \<Rightarrow>
          if ef_generation e = generation \<and> jb_river_id j = river_job \<and> ef_state e = StateQueued
          then Some (ef_envelope e) else None
      | _ \<Rightarrow> None)"

text \<open>A preflight decides on an envelope and an effect identifier: ready, or to be asked again
  after a delay. \<open>Work\<close> snoozes the job, or hands it to \<open>RunAttempt\<close>.\<close>

datatype work_next = WorkSnooze duration | WorkRun

type_synonym preflight = "(envelope \<Rightarrow> string \<Rightarrow> bool \<times> duration) option"

definition work_gate :: "preflight \<Rightarrow> int64 \<Rightarrow> int64 \<Rightarrow> int64 \<Rightarrow> eer \<Rightarrow> work_next" where
  "work_gate pre i generation river_job st =
     (case pre of
        None \<Rightarrow> WorkRun
      | Some check \<Rightarrow>
          (case queued_envelope i generation river_job st of
             None \<Rightarrow> WorkRun
           | Some v \<Rightarrow>
               (let (ready, after) = check v (effect_id i)
                in if ready then WorkRun
                   else WorkSnooze (if after < nanoseconds_per_second then nanoseconds_per_second else after))))"

section \<open>Evidence read under the effect lock\<close>

text \<open>\<open>SELECT ... FROM external_effect_attempts WHERE effect_id=$1 ORDER BY number\<close>.\<close>

definition attempts_of :: "eer \<Rightarrow> int64 \<Rightarrow> attempt_row list" where
  "attempts_of st i = sort_key ea_number (filter (\<lambda>a. ea_effect a = i) (eer_attempts st))"

definition stopped_attempt :: "string \<Rightarrow> eer \<Rightarrow> port_error + (projection \<times> time)" where
  "stopped_attempt s st =
     (case parse_effect_id s of
        Inl err \<Rightarrow> Inl (PortOther err)
      | Inr i \<Rightarrow>
          (case effect_of st i of
             None \<Rightarrow> Inl (PortOther EffNotFound)
           | Some e \<Rightarrow>
               (case find (\<lambda>a. ea_effect a = i \<and> ea_number a = ef_attempts e \<and> ea_generation a = ef_generation e)
                       (eer_attempts st) of
                  None \<Rightarrow> Inl (PortOther EffNotFound)
                | Some a \<Rightarrow>
                    (case ea_completed_at a of
                       None \<Rightarrow> Inl PortConflict
                     | Some at \<Rightarrow>
                         if ef_state e \<noteq> StateUnknown \<or> ea_state a \<noteq> StateUnknown \<or> ef_attempts e \<noteq> 1 then Inl PortConflict
                         else Inr (projection_of e, utc at)))))"

text \<open>\<open>number <> seen\<close> over the rows in order, with the further test of the caller; the result is
  the number of rows when none fails.\<close>

fun scan_attempts :: "(attempt_row \<Rightarrow> bool) \<Rightarrow> int32 \<Rightarrow> attempt_row list \<Rightarrow> int32 option" where
  "scan_attempts ok seen [] = Some seen"
| "scan_attempts ok seen (a # rest) =
     (let seen = wrap32 (seen + 1) in if ea_number a \<noteq> seen \<or> \<not> ok a then None else scan_attempts ok seen rest)"

definition uncalled_failure :: "attempt_row \<Rightarrow> bool" where
  "uncalled_failure a \<longleftrightarrow>
     ea_state a = StateFinalFailed \<and> \<not> ea_called a \<and> \<not> ea_real a \<and> ea_completed_at a \<noteq> None"

fun latest_end :: "time \<Rightarrow> attempt_row list \<Rightarrow> time" where
  "latest_end t [] = t"
| "latest_end t (a # rest) =
     latest_end (case ea_completed_at a of None \<Rightarrow> t | Some u \<Rightarrow> if is_zero t \<or> t < u then utc u else t) rest"

definition final_failure_without_external_call ::
  "string \<Rightarrow> owner \<Rightarrow> kind \<Rightarrow> eer \<Rightarrow> port_error + (projection \<times> time)" where
  "final_failure_without_external_call s w k st =
     (case parse_effect_id s of
        Inl _ \<Rightarrow> Inl PortConflict
      | Inr i \<Rightarrow>
          if owner_text w = [] \<or> kind_text k = [] then Inl PortConflict
          else (case effect_of st i of
             None \<Rightarrow> Inl (PortOther EffNotFound)
           | Some e \<Rightarrow>
               if env_owner (ef_envelope e) \<noteq> w \<or> env_kind (ef_envelope e) \<noteq> k \<or> ef_state e \<noteq> StateFinalFailed
                  \<or> ef_attempts e < 1 then Inl PortConflict
               else (case scan_attempts uncalled_failure 0 (attempts_of st i) of
                       None \<Rightarrow> Inl PortConflict
                     | Some seen \<Rightarrow>
                         (let completed = latest_end 0 (attempts_of st i)
                          in if seen \<noteq> ef_attempts e \<or> is_zero completed then Inl PortConflict
                             else Inr (projection_of e, completed)))))"

section \<open>Retrying a tag-catalogue mutation\<close>

record tag_retry_command =
  tr_effect_id :: string
  tr_receipt_key :: string
  tr_source :: string
  tr_actor :: int64

definition safe_tag_catalog_retry_attempt :: "int64 \<Rightarrow> string \<Rightarrow> string \<Rightarrow> attempt_row \<Rightarrow> bool" where
  "safe_tag_catalog_retry_attempt i ref fp a =
     (let n = format_int (ea_number a); r = ea_receipt a
      in if ea_completed_at a = None \<or> ea_real a \<or> \<not> valid_digest r then False
         else if ea_state a = StateRetryable then \<not> ea_called a
         else if ea_state a \<noteq> StateFinalFailed then False
         else r = hash_parts [''wecom.tag.catalog.mutation.rejected'', ref, n]
              \<or> \<not> ea_called a
                \<and> (r = hash_parts [''provider-disabled'', format_int i, n]
                   \<or> r = hash_parts [''outbound.provider.not-configured'', kind_text KindWeComTagCatalogMutation]
                   \<or> valid_digest fp \<and> r = hash_parts [''wecom.tag.catalog.mutation.dispatch_changed'', fp]))"

definition tag_retry_control :: "tag_retry_command \<Rightarrow> control_command" where
  "tag_retry_control c = \<lparr>cc_effect_id = tr_effect_id c, cc_receipt_key = tr_receipt_key c, cc_evidence = [],
     cc_actor = tr_actor c, cc_generation = 0, cc_fence = 0, cc_lease_expires_at = 0, cc_outcome = [],
     cc_artifact = no_artifact\<rparr>"

definition tag_retry_reply ::
  "effect_error + (projection \<times> receipt \<times> eer) \<Rightarrow> port_error + (projection \<times> eer)" where
  "tag_retry_reply r =
     (case r of
        Inr (p, _, st) \<Rightarrow> Inr (p, st)
      | Inl err \<Rightarrow> if err = EffTransition \<or> err = EffPayloadMismatch then Inl PortConflict else Inl (PortOther err))"

definition retry_tag_catalog_mutation ::
  "sink \<Rightarrow> clocks \<Rightarrow> tag_retry_command \<Rightarrow> eer \<Rightarrow> port_error + (projection \<times> eer)" where
  "retry_tag_catalog_mutation sink clk c st =
     (if \<not> valid_control (tag_retry_control c) \<or> \<not> valid_digest (tr_source c) then Inl PortConflict
      else case parse_effect_id (tr_effect_id c) of
        Inl _ \<Rightarrow> Inl PortConflict
      | Inr i \<Rightarrow>
          (case effect_of st i of
             None \<Rightarrow> Inl PortNotFound
           | Some e \<Rightarrow>
               if env_owner (ef_envelope e) \<noteq> OwnerOutbound \<or> env_kind (ef_envelope e) \<noteq> KindWeComTagCatalogMutation
                  \<or> env_source (ef_envelope e) \<noteq> tr_source c then Inl PortConflict
               else if receipt_of st OpRetry i (tr_receipt_key c) \<noteq> None
               then tag_retry_reply (control_within sink clk OpRetry (tag_retry_control c) st)
               else if (ef_state e \<noteq> StateFinalFailed \<and> ef_state e \<noteq> StateRetryable) \<or> ef_attempts e < 1 then Inl PortConflict
               else if scan_attempts (safe_tag_catalog_retry_attempt i (tr_effect_id c) (ef_fingerprint e)) 0 (attempts_of st i)
                       \<noteq> Some (ef_attempts e) then Inl PortConflict
               else tag_retry_reply (control_within sink clk OpRetry (tag_retry_control c)
                      (put_effect (e\<lparr>ef_state := StateRetryable\<rparr>) st))))"

end
