(* ===== verification/Effect_Life.thy ===== *)
theory Effect_Life
  imports Effect_Kernel
begin

text \<open>
  What the transactions of the effect kernel do to one effect. The abstract specification is
  the relation \<open>quiet\<close> on an effect and its attempts: the steps other than recording a
  provider's answer. Every transaction of \<open>Effect_Kernel\<close> is shown to be, for each effect, at
  most one such step (refinement); the recording of an answer is the step \<open>recorded\<close>.
  The invariant \<open>lived\<close> of this life cycle says what the attempts of an effect look like in
  each of its states.
\<close>

section \<open>One effect and its attempts\<close>

type_synonym life = "effect_row \<times> attempt_row list"

definition rows :: "eer \<Rightarrow> int64 \<Rightarrow> attempt_row list" where
  "rows st i = filter (\<lambda>a. ea_effect a = i) (eer_attempts st)"

definition view :: "eer \<Rightarrow> int64 \<Rightarrow> life option" where
  "view st i = map_option (\<lambda>e. (e, rows st i)) (effect_of st i)"

text \<open>An attempt after which another one may follow: it executed nothing, and either it was
  reported as retryable (after a call only on the lanes whose provider rejects safely) or it
  is a failed tag-catalogue mutation.\<close>

definition repeatable :: "kind \<Rightarrow> attempt_row \<Rightarrow> bool" where
  "repeatable k a \<longleftrightarrow> \<not> ea_real a
     \<and> (ea_state a = StateRetryable \<and> (ea_called a \<longrightarrow> k \<in> {KindOutboundMedia, KindOutboundMessage, KindAutomationMessage})
        \<or> ea_state a = StateFinalFailed \<and> k = KindWeComTagCatalogMutation)"

section \<open>The steps of an effect's life\<close>

definition advanced :: "effect_row \<Rightarrow> state \<Rightarrow> time \<Rightarrow> effect_row" where
  "advanced e s t = e\<lparr>ef_state := s, ef_updated_at := t\<rparr>"

inductive quiet :: "life \<Rightarrow> life \<Rightarrow> bool" where
  quiet_cancel: "ef_state e = StateAccepted \<or> ef_state e = StateQueued \<Longrightarrow> quiet (e, as) (advanced e StateCancelled t, as)"
| quiet_retry: "ef_state e = StateRetryable
      \<or> ef_state e = StateFinalFailed \<and> env_kind (ef_envelope e) = KindWeComTagCatalogMutation
        \<and> list_all (repeatable KindWeComTagCatalogMutation) as
    \<Longrightarrow> quiet (e, as) (advanced (e\<lparr>ef_generation := wrap64 (ef_generation e + 1)\<rparr>) StateQueued t, as)"
| quiet_reconcile: "ef_state e = StateUnknown \<Longrightarrow> as = bs @ a # cs \<Longrightarrow> ea_state a = StateUnknown
    \<Longrightarrow> quiet (e, as)
          (advanced e StateReconciled t, bs @ a\<lparr>ea_state := StateReconciled, ea_evidence := d, ea_completed_at := u\<rparr> # cs)"
| quiet_complete: "ef_state e = StateQueued \<Longrightarrow> env_kind (ef_envelope e) = KindSidebarJSSDKSend
    \<Longrightarrow> s = StateExecuted \<or> s = StateUnknown \<or> s = StateFinalFailed \<Longrightarrow> ea_number a = wrap32 (ef_attempts e + 1)
    \<Longrightarrow> 1 \<le> ea_number a \<Longrightarrow> ea_state a = s
    \<Longrightarrow> quiet (e, as) (advanced (e\<lparr>ef_attempts := ea_number a\<rparr>) s t, as @ [a])"
| quiet_claim: "ef_state e = StateQueued \<Longrightarrow> ea_number a = wrap32 (ef_attempts e + 1) \<Longrightarrow> 1 \<le> ea_number a
    \<Longrightarrow> ea_state a = StateAttempted \<Longrightarrow> ea_generation a = ef_generation e \<Longrightarrow> ea_fence a = f
    \<Longrightarrow> quiet (e, as)
          (advanced (e\<lparr>ef_attempts := ea_number a, ef_fence := f, ef_lease := l\<rparr>) StateAttempted t, as @ [a])"
| quiet_recover: "ef_state e = StateAttempted \<Longrightarrow> as = bs @ a # cs \<Longrightarrow> ea_state a = StateAttempted
    \<Longrightarrow> ea_number a = ef_attempts e
    \<Longrightarrow> quiet (e, as)
          (advanced e StateUnknown t, bs @ a\<lparr>ea_state := StateUnknown, ea_receipt := d, ea_completed_at := u\<rparr> # cs)"

text \<open>The recording of a provider's answer on the attempt \<open>a\<close>, which becomes \<open>b\<close>.\<close>

definition retried_kinds :: "kind set" where
  "retried_kinds = {KindOutboundMedia, KindOutboundMessage, KindAutomationMessage, KindFeishuOpsNotification}"

inductive recorded :: "attempt_row \<Rightarrow> attempt_row \<Rightarrow> life \<Rightarrow> life \<Rightarrow> bool" where
  recordedI: "ef_state e = StateAttempted \<Longrightarrow> as = bs @ a # cs \<Longrightarrow> ea_state a = StateAttempted
    \<Longrightarrow> ea_fence a = ef_fence e \<Longrightarrow> ea_generation a = ef_generation e
    \<Longrightarrow> b = a\<lparr>ea_state := s, ea_receipt := d, ea_called := tried, ea_real := real, ea_completed_at := u\<rparr>
    \<Longrightarrow> s = StateExecuted \<or> s = StateUnknown \<or> s = StateFinalFailed \<or> s = StateRetryable
    \<Longrightarrow> s = StateRetryable \<longrightarrow> repeatable (env_kind (ef_envelope e)) b
    \<Longrightarrow> p = s \<or> s = StateRetryable \<and> p = StateQueued \<and> ea_number a < 5 \<and> env_kind (ef_envelope e) \<in> retried_kinds
    \<Longrightarrow> recorded a b (e, as) (advanced e p t, bs @ b # cs)"

inductive_cases quietE: "quiet (e, as) y"
inductive_cases recordedE: "recorded a b (e, as) y"

section \<open>The invariant\<close>

definition lived :: "life \<Rightarrow> bool" where
  "lived x \<longleftrightarrow> (let e = fst x; as = snd x; k = env_kind (ef_envelope e) in
     0 \<le> ef_attempts e \<and> is_int32 (ef_attempts e) \<and> map ea_number as = [1..ef_attempts e]
     \<and> (case ef_state e of
          StateAccepted \<Rightarrow> False
        | StateQueued \<Rightarrow> list_all (repeatable k) as
        | StateCancelled \<Rightarrow> list_all (repeatable k) as
        | StateRetryable \<Rightarrow> list_all (repeatable k) as
        | StateAttempted \<Rightarrow> as \<noteq> [] \<and> list_all (repeatable k) (butlast as) \<and> ea_state (last as) = StateAttempted
             \<and> ea_generation (last as) = ef_generation e \<and> ea_fence (last as) = ef_fence e
        | StateOther _ \<Rightarrow> False
        | s \<Rightarrow> as \<noteq> [] \<and> list_all (repeatable k) (butlast as) \<and> ea_state (last as) = s))"

lemma advanced_simps [simp]:
  "ef_id (advanced e s t) = ef_id e" "ef_envelope (advanced e s t) = ef_envelope e" "ef_state (advanced e s t) = s"
  "ef_attempts (advanced e s t) = ef_attempts e" "ef_generation (advanced e s t) = ef_generation e"
  "ef_fence (advanced e s t) = ef_fence e" "ef_fingerprint (advanced e s t) = ef_fingerprint e" "ef_lane (advanced e s t) = ef_lane e"
  "ef_lease (advanced e s t) = ef_lease e"
  by (simp_all add: advanced_def)

lemma repeatable_state: "repeatable k a \<Longrightarrow> ea_state a = StateRetryable \<or> ea_state a = StateFinalFailed"
  by (auto simp: repeatable_def)

text \<open>An attempt in another state can only be the last one.\<close>

lemma only_last:
  assumes "list_all (repeatable k) (butlast (bs @ a # cs))" "\<not> repeatable k a"
  shows "cs = []" "last (bs @ a # cs) = a" "list_all (repeatable k) bs"
  using assms by (cases cs rule: rev_cases; auto simp: butlast_append list_all_append)+

lemma only_last_ok:
  assumes "list_all (repeatable k) as" "as = bs @ a # cs" shows "repeatable k a"
  using assms by (simp add: list_all_append)

lemma wrap32_succ:
  assumes "0 \<le> n" "is_int32 n" "1 \<le> wrap32 (n + 1)"
  shows "wrap32 (n + 1) = n + 1" "is_int32 (n + 1)"
proof -
  have "n + 1 < 2 ^ 31 \<or> n + 1 = 2 ^ 31" using assms(2) by (auto simp: is_int32_def)
  with assms(3) have "n + 1 < 2 ^ 31" by (auto simp: wrap32_def)
  then show "is_int32 (n + 1)" using assms(1) by (simp add: is_int32_def)
  then show "wrap32 (n + 1) = n + 1" by (rule wrap32_id)
qed

lemma upto_snoc: "0 \<le> n \<Longrightarrow> [1..n + 1] = [1..n] @ [n + 1]"
  using upto_rec2 [of 1 "n + 1"] by simp


lemma lived_numbers:
  assumes "lived (e, as)"
  shows "map ea_number as = [1..ef_attempts e]" "0 \<le> ef_attempts e" "is_int32 (ef_attempts e)" "a \<in> set as \<Longrightarrow> ea_number a \<le> ef_attempts e"
proof -
  from assms show n: "map ea_number as = [1..ef_attempts e]" "0 \<le> ef_attempts e" "is_int32 (ef_attempts e)"
    by (simp_all add: lived_def Let_def)
  show "ea_number a \<le> ef_attempts e" if "a \<in> set as"
  proof -
    from that have "ea_number a \<in> set (map ea_number as)" by simp
    then show ?thesis unfolding n(1) by simp
  qed
qed

text \<open>The attempt a step changes in place is the last one.\<close>

lemma lived_changed:
  assumes "lived (e, bs @ a # cs)" "ea_state a = StateAttempted \<or> ea_state a = StateUnknown"
    "ef_state e = StateAttempted \<or> ef_state e = StateUnknown"
  shows "cs = []" "list_all (repeatable (env_kind (ef_envelope e))) bs"
proof -
  let ?k = "env_kind (ef_envelope e)"
  have a: "\<not> repeatable ?k a" using repeatable_state [of ?k a] assms(2) by auto
  have "list_all (repeatable ?k) (butlast (bs @ a # cs))"
    using assms(1,3) by (auto simp: lived_def Let_def)
  from only_last [OF this a] show "cs = []" "list_all (repeatable ?k) bs" by simp_all
qed

lemma lived_replaced:
  assumes "lived (e, bs @ [a])" "list_all (repeatable (env_kind (ef_envelope e))) bs"
    "ea_number b = ea_number a" "ea_state b = s"
    "s = StateExecuted \<or> s = StateUnknown \<or> s = StateFinalFailed \<or> s = StateReconciled"
  shows "lived (advanced e s t, bs @ [b])"
  using assms by (auto simp: lived_def Let_def)

lemma lived_extended:
  assumes "lived (e, as)" "ef_state e = StateQueued" "ea_number a = wrap32 (ef_attempts e + 1)" "1 \<le> ea_number a"
  shows "list_all (repeatable (env_kind (ef_envelope e))) as" "map ea_number (as @ [a]) = [1..ea_number a]"
    "is_int32 (ea_number a)"
proof -
  show "list_all (repeatable (env_kind (ef_envelope e))) as" using assms(1,2) by (simp add: lived_def Let_def)
  note n = lived_numbers [OF assms(1)]
  note w = wrap32_succ [OF n(2,3)]
  show "map ea_number (as @ [a]) = [1..ea_number a]" "is_int32 (ea_number a)"
    using assms(3,4) n(1) w upto_snoc [OF n(2)] by simp_all
qed

lemma quiet_lived: "quiet x y \<Longrightarrow> lived x \<Longrightarrow> lived y"
proof (induction rule: quiet.induct)
  case (quiet_reconcile e as bs a cs t d u)
  from lived_changed [of e bs a cs] quiet_reconcile have c: "cs = []" "list_all (repeatable (env_kind (ef_envelope e))) bs" by auto
  with quiet_reconcile have "lived (e, bs @ [a])" by simp
  from lived_replaced [OF this c(2)] c(1) show ?case by simp
next
  case (quiet_recover e as bs a cs t d u)
  from lived_changed [of e bs a cs] quiet_recover have c: "cs = []" "list_all (repeatable (env_kind (ef_envelope e))) bs" by auto
  with quiet_recover have "lived (e, bs @ [a])" by simp
  from lived_replaced [OF this c(2)] c(1) show ?case by simp
next
  case (quiet_complete e s a as t)
  note x = lived_extended [OF quiet_complete.prems quiet_complete.hyps(1,4,5)]
  from quiet_complete.hyps(3,5,6) x show ?case by (elim disjE) (simp_all add: lived_def Let_def)
next
  case (quiet_claim e a f as l t)
  note x = lived_extended [OF quiet_claim.prems quiet_claim.hyps(1,2,3)]
  from quiet_claim.hyps x show ?case by (simp add: lived_def Let_def)
qed (auto simp: lived_def Let_def)

lemma recorded_lived: "recorded a b x y \<Longrightarrow> lived x \<Longrightarrow> lived y"
proof (induction rule: recorded.induct)
  case (recordedI e as bs a cs b u real tried d s p t)
  from lived_changed [of e bs a cs] recordedI have c: "cs = []" "list_all (repeatable (env_kind (ef_envelope e))) bs" by auto
  with recordedI have l: "lived (e, bs @ [a])" by simp
  have b: "ea_number b = ea_number a" "ea_state b = s" using recordedI.hyps(6) by simp_all
  show ?case
  proof (cases "s = StateRetryable")
    case True
    with recordedI.hyps(8,9) l b c show ?thesis by (auto simp: lived_def Let_def)
  next
    case False
    with recordedI.hyps(7,9) lived_replaced [OF l c(2) b] c(1) show ?thesis by auto
  qed
qed

text \<open>What the steps do to attempts that are there: they keep their number, generation and
  fence, and a quiet step changes them only from attempted to unknown and from unknown to
  reconciled.\<close>

definition settling :: "attempt_row \<Rightarrow> attempt_row \<Rightarrow> bool" where
  "settling a b \<longleftrightarrow> b = a \<or> (ea_number b = ea_number a \<and> ea_generation b = ea_generation a \<and> ea_fence b = ea_fence a
     \<and> (ea_state a = StateAttempted \<or> ea_state a = StateUnknown) \<and> (ea_state b = StateUnknown \<or> ea_state b = StateReconciled))"

lemma settling_refl [simp]: "settling a a"
  by (simp add: settling_def)

lemma settling_trans: "settling a b \<Longrightarrow> settling b c \<Longrightarrow> settling a c"
  by (auto simp: settling_def)

lemma quiet_settling:
  "quiet x y \<Longrightarrow> a \<in> set (snd x) \<Longrightarrow> \<exists>b \<in> set (snd y). settling a b"
  by (induction rule: quiet.induct) (auto simp: settling_def)

lemma quiets_settling: "quiet\<^sup>=\<^sup>= x y \<Longrightarrow> a \<in> set (snd x) \<Longrightarrow> \<exists>b \<in> set (snd y). settling a b"
  using quiet_settling settling_refl by blast

lemma quiets_lived: "quiet\<^sup>=\<^sup>= x y \<Longrightarrow> lived x \<Longrightarrow> lived y"
  by (auto intro: quiet_lived)

end
