(* ===== verification/Effect_Refinement.thy ===== *)
theory Effect_Refinement
  imports Effect_Life
begin

text \<open>
  Every transaction of the effect kernel refines the life cycle of \<open>Effect_Life\<close>: seen through
  \<open>view\<close>, an accepted transaction leaves each effect as it is, or takes it through one \<open>quiet\<close>
  step, or adds a queued effect without attempts; recording a provider's answer is a
  \<open>recorded\<close> step of one effect.
\<close>

section \<open>What an operation touches\<close>

definition core :: "eer \<Rightarrow> effect_row list \<times> attempt_row list \<times> int64" where
  "core st = (eer_effects st, eer_attempts st, eer_next_effect st)"

definition coherent :: "eer \<Rightarrow> bool" where
  "coherent st \<longleftrightarrow> list_all (\<lambda>e. ef_id e < eer_next_effect st) (eer_effects st)
                 \<and> list_all (\<lambda>a. ea_effect a < eer_next_effect st) (eer_attempts st)"

definition newborn :: "effect_row \<Rightarrow> bool" where
  "newborn e \<longleftrightarrow> ef_state e = StateQueued \<and> ef_attempts e = 0"

definition evolves :: "eer \<Rightarrow> eer \<Rightarrow> bool" where
  "evolves st st' \<longleftrightarrow> coherent st' \<and> (\<forall>i. case view st i of
       None \<Rightarrow> (case view st' i of None \<Rightarrow> True | Some y \<Rightarrow> newborn (fst y) \<and> snd y = [])
     | Some x \<Rightarrow> (\<exists>y. view st' i = Some y \<and> quiet\<^sup>=\<^sup>= x y))"

lemma view_core: "core st' = core st \<Longrightarrow> view st' = view st"
  by (auto simp: core_def view_def rows_def effect_of_def fun_eq_iff)

lemma coherent_core: "core st' = core st \<Longrightarrow> coherent st' \<longleftrightarrow> coherent st"
  by (auto simp: core_def coherent_def)

lemma effect_of_core: "core st' = core st \<Longrightarrow> effect_of st' = effect_of st"
  by (auto simp: core_def effect_of_def fun_eq_iff)

lemma effect_ofD: "effect_of st i = Some e \<Longrightarrow> ef_id e = i \<and> e \<in> set (eer_effects st)"
  by (auto simp: effect_of_def dest: find_Some_pred simp: find_Some_iff)

lemma effect_of_replace:
  "ef_id e' = i \<Longrightarrow> find (\<lambda>r. ef_id r = j) (map (\<lambda>r. if ef_id r = i then e' else r) xs)
     = (if j = i then map_option (\<lambda>_. e') (find (\<lambda>r. ef_id r = i) xs) else find (\<lambda>r. ef_id r = j) xs)"
  by (induction xs) auto

lemma effect_of_put:
  "effect_of (put_effect e' st) j = (if j = ef_id e' then map_option (\<lambda>_. e') (effect_of st j) else effect_of st j)"
  by (simp add: effect_of_def put_effect_def effect_of_replace)

lemma core_put [simp]:
  "core (put_effect e st) = (map (\<lambda>r. if ef_id r = ef_id e then e else r) (eer_effects st), eer_attempts st, eer_next_effect st)"
  by (simp add: core_def put_effect_def)

section \<open>The primitive writes\<close>

lemma complete_effect_core: "complete_effect sink c st = Inr st' \<Longrightarrow> core st' = core st"
  by (auto simp: complete_effect_def core_def split: option.splits if_splits)

lemma insert_receipt_core: "insert_receipt op i k d adm sys s t st = Inr (r, st') \<Longrightarrow> core st' = core st"
  by (auto simp: insert_receipt_def core_def Let_def split: if_splits)

lemma insert_job_core: "insert_job i g q t st = Inr (j, st') \<Longrightarrow> core st' = core st"
  by (auto simp: insert_job_def core_def split: if_splits)

lemma insert_effect_core:
  "insert_effect e st = Inr st' \<Longrightarrow> core st' = (eer_effects st @ [e], eer_attempts st, eer_next_effect st + 1)"
  by (auto simp: insert_effect_def core_def Let_def split: if_splits)

lemma insert_attempt_core:
  "insert_attempt a st = Inr st' \<Longrightarrow>
     core st' = (eer_effects st, eer_attempts st @ [a], eer_next_effect st) \<and> 1 \<le> ea_number a"
  by (auto simp: insert_attempt_def core_def split: if_splits)

lemma filter_single:
  assumes "length (filter p xs) = 1"
  obtains bs a cs where "xs = bs @ a # cs" "p a" "list_all (\<lambda>b. \<not> p b) bs" "list_all (\<lambda>b. \<not> p b) cs"
proof -
  from assms obtain a where "filter p xs = [a]" by (cases "filter p xs") auto
  then obtain bs cs where x: "xs = bs @ a # cs" "\<forall>b\<in>set bs. \<not> p b" "p a" "[] = filter p cs"
    by (auto simp: filter_eq_Cons_iff)
  then have "\<forall>b\<in>set cs. \<not> p b" by (metis filter_empty_conv)
  with that x show thesis by (simp add: list_all_iff)
qed

lemma map_unselected: "list_all (\<lambda>b. \<not> p b) xs \<Longrightarrow> map (\<lambda>b. if p b then f b else b) xs = xs"
  by (induction xs) auto

lemma update_one_attempt_core:
  assumes "update_one_attempt p f err st = Inr st'"
  obtains bs a cs where "eer_attempts st = bs @ a # cs" "p a"
    "core st' = (eer_effects st, bs @ f a # cs, eer_next_effect st)"
proof -
  from assms have l: "length (filter p (eer_attempts st)) = 1"
    and st': "st' = st\<lparr>eer_attempts := map (\<lambda>a. if p a then f a else a) (eer_attempts st)\<rparr>"
    by (auto simp: update_one_attempt_def split: if_splits)
  from filter_single [OF l] obtain bs a cs where x: "eer_attempts st = bs @ a # cs" "p a"
    "list_all (\<lambda>b. \<not> p b) bs" "list_all (\<lambda>b. \<not> p b) cs" .
  from x st' that show thesis by (simp add: core_def map_unselected)
qed

section \<open>From one effect to the store\<close>

lemma rows_other:
  assumes "eer_attempts st = bs @ a # cs" "ea_effect a = i" "ea_effect b = i"
  shows "j \<noteq> i \<Longrightarrow> filter (\<lambda>a. ea_effect a = j) (bs @ b # cs) = rows st j"
    "rows st i = filter (\<lambda>a. ea_effect a = i) bs @ a # filter (\<lambda>a. ea_effect a = i) cs"
    "filter (\<lambda>a. ea_effect a = i) (bs @ b # cs) = filter (\<lambda>a. ea_effect a = i) bs @ b # filter (\<lambda>a. ea_effect a = i) cs"
  using assms by (auto simp: rows_def)

lemma changed_one:
  assumes "coherent st" "effect_of st i = Some e" "ef_id e' = i"
    "core st' = (map (\<lambda>r. if ef_id r = i then e' else r) (eer_effects st), ats, eer_next_effect st)"
    "\<And>j. j \<noteq> i \<Longrightarrow> filter (\<lambda>a. ea_effect a = j) ats = rows st j"
  shows "coherent st'" "view st' i = Some (e', filter (\<lambda>a. ea_effect a = i) ats)" "j \<noteq> i \<Longrightarrow> view st' j = view st j"
proof -
  from assms(4) have st': "eer_effects st' = map (\<lambda>r. if ef_id r = i then e' else r) (eer_effects st)"
    "eer_attempts st' = ats" "eer_next_effect st' = eer_next_effect st" by (simp_all add: core_def)
  have i: "i < eer_next_effect st" using assms(1) effect_ofD [OF assms(2)] by (auto simp: coherent_def list_all_iff)
  have "ea_effect a < eer_next_effect st" if "a \<in> set ats" for a
  proof (cases "ea_effect a = i")
    case False
    from that have "a \<in> set (filter (\<lambda>b. ea_effect b = ea_effect a) ats)" by simp
    with assms(5) [OF False] have "a \<in> set (eer_attempts st)" by (auto simp: rows_def)
    with assms(1) show ?thesis by (simp add: coherent_def list_all_iff)
  qed (simp add: i)
  with assms(1) i assms(3) st' show "coherent st'" by (auto simp: coherent_def list_all_iff)
  from assms(2,3) st' show "view st' i = Some (e', filter (\<lambda>a. ea_effect a = i) ats)"
    by (simp add: view_def rows_def effect_of_def effect_of_replace)
  from assms(3,5) st' show "j \<noteq> i \<Longrightarrow> view st' j = view st j"
    by (simp add: view_def rows_def effect_of_def effect_of_replace)
qed

lemma evolves_one:
  assumes "coherent st" "effect_of st i = Some e" "ef_id e' = i"
    "core st' = (map (\<lambda>r. if ef_id r = i then e' else r) (eer_effects st), ats, eer_next_effect st)"
    "\<And>j. j \<noteq> i \<Longrightarrow> filter (\<lambda>a. ea_effect a = j) ats = rows st j"
    "quiet\<^sup>=\<^sup>= (e, rows st i) (e', filter (\<lambda>a. ea_effect a = i) ats)"
  shows "evolves st st'"
proof -
  note c = changed_one [OF assms(1-5)]
  have "case view st j of None \<Rightarrow> (case view st' j of None \<Rightarrow> True | Some y \<Rightarrow> newborn (fst y) \<and> snd y = [])
     | Some x \<Rightarrow> (\<exists>y. view st' j = Some y \<and> quiet\<^sup>=\<^sup>= x y)" for j
  proof (cases "j = i")
    case True
    with assms(2,6) c(2) show ?thesis by (simp add: view_def)
  next
    case False
    with c(3) show ?thesis by (simp split: option.split)
  qed
  with c(1) show ?thesis by (simp add: evolves_def)
qed

lemma evolves_same: "coherent st \<Longrightarrow> core st' = core st \<Longrightarrow> evolves st st'"
  using view_core [of st' st] coherent_core [of st' st] by (auto simp: evolves_def split: option.split)

lemma evolves_state:
  assumes "coherent st" "effect_of st i = Some e" "ef_id e' = i"
    "core st' = (map (\<lambda>r. if ef_id r = i then e' else r) (eer_effects st), eer_attempts st, eer_next_effect st)"
    "quiet\<^sup>=\<^sup>= (e, rows st i) (e', rows st i)"
  shows "evolves st st'"
  using assms(5) by (intro evolves_one [OF assms(1-4)]) (simp_all add: rows_def)


section \<open>Acceptance, cancellation, completion by the client\<close>

lemma find_snoc: "find p (xs @ [x]) = (case find p xs of None \<Rightarrow> if p x then Some x else None | Some y \<Rightarrow> Some y)"
  by (induction xs) auto

lemma evolves_newborn:
  assumes "coherent st" "ef_id e = eer_next_effect st" "newborn e"
    "core st' = (eer_effects st @ [e], eer_attempts st, eer_next_effect st + 1)"
  shows "evolves st st'"
proof -
  let ?n = "eer_next_effect st"
  from assms(4) have st': "eer_effects st' = eer_effects st @ [e]" "eer_attempts st' = eer_attempts st"
    "eer_next_effect st' = ?n + 1" by (simp_all add: core_def)
  from assms(1) have none: "effect_of st ?n = None" and rows: "rows st ?n = []"
    by (auto simp: coherent_def effect_of_def rows_def find_None_iff list_all_iff filter_empty_conv)
  from assms(1,2) st' have "coherent st'" by (auto simp: coherent_def list_all_iff)
  moreover have "effect_of st' i = (if i = ?n then Some e else effect_of st i)" for i
    using st'(1) none assms(2) by (auto simp: effect_of_def find_snoc split: option.splits)
  moreover have "rows st' i = rows st i" for i using st'(2) by (simp add: rows_def)
  ultimately show ?thesis using none rows assms(3)
    by (auto simp: evolves_def view_def split: option.split)
qed

lemma accept_new_evolves:
  assumes "coherent st" "accept_new clk c st = Inr (p, r, st')" shows "evolves st st'"
proof -
  let ?e = "new_effect c (db_now clk) st"
  let ?q = "?e\<lparr>ef_state := StateQueued, ef_updated_at := db_now clk\<rparr>"
  from assms(2) obtain st1 st2 st3 rr job qr where s:
    "insert_effect ?e st = Inr st1"
    "insert_receipt OpAccept (ef_id ?e) (ac_receipt_key c) (accept_digest c) None [] StateAccepted (db_now clk) st1 = Inr (rr, st2)"
    "\<exists>q t. insert_job (ef_id ?e) 1 q t st2 = Inr (job, st3)"
    "\<exists>k d. insert_receipt OpQueue (ef_id ?e) k d None [] StateQueued (db_now clk) (put_effect ?q st3) = Inr (qr, st')"
    unfolding accept_new_def Let_def by (force simp: and_then_eq_Inr)
  have ids: "ef_id ?e = eer_next_effect st" "ef_id ?q = eer_next_effect st" by (simp_all add: new_effect_def)
  from s(1,2,3) have c3: "core st3 = (eer_effects st @ [?e], eer_attempts st, eer_next_effect st + 1)"
    using insert_effect_core insert_receipt_core insert_job_core by metis
  from s(4) have "core st' = core (put_effect ?q st3)" using insert_receipt_core by metis
  also have "\<dots> = (map (\<lambda>r. if ef_id r = ef_id ?q then ?q else r) (eer_effects st @ [?e]), eer_attempts st, eer_next_effect st + 1)"
    using c3 by (simp add: core_def put_effect_def)
  also have "map (\<lambda>r. if ef_id r = ef_id ?q then ?q else r) (eer_effects st @ [?e]) = eer_effects st @ [?q]"
    using assms(1) ids by (auto simp: coherent_def list_all_iff intro!: map_idI)
  finally show ?thesis
    using assms(1) ids by (intro evolves_newborn [of _ ?q]) (simp_all add: newborn_def new_effect_def)
qed

lemma accepted_reply_store: "accepted_reply st e r = Inr (p, rc, st') \<Longrightarrow> st' = st"
  by (auto simp: accepted_reply_def split: option.splits)

lemma accept_evolves:
  assumes "coherent st" "accept_and_queue clk c st = Inr (p, r, st')" shows "evolves st st'"
proof -
  from assms(2) have "st' = st \<or> accept_new clk c st = Inr (p, r, st')"
    by (auto simp: accept_and_queue_def dest: accepted_reply_store split: if_splits option.splits)
  then show ?thesis using accept_new_evolves [OF assms(1)] evolves_same [OF assms(1)] by blast
qed

lemma cancel_queuedD:
  assumes "cancel_queued clk c st = Inr (p, st')"
  obtains i e where "effect_of st i = Some e" "st' = st \<or> ef_state e = StateQueued \<and> cancel_write clk c e st = Inr (p, st')"
proof (cases "parse_effect_id (cn_effect_id c)")
  case (Inr i)
  show thesis
  proof (cases "effect_of st i")
    case (Some e)
    with Inr assms that [OF Some] show ?thesis by (auto simp: cancel_queued_def split: if_splits option.splits)
  qed (use Inr assms in \<open>auto simp: cancel_queued_def split: if_splits\<close>)
qed (use assms in \<open>auto simp: cancel_queued_def split: if_splits\<close>)

lemma cancel_evolves:
  assumes "coherent st" "cancel_queued clk c st = Inr (p, st')" shows "evolves st st'"
proof -
  let ?e = "\<lambda>e. advanced e StateCancelled (db_now clk)"
  from cancel_queuedD [OF assms(2)] obtain i e where e: "effect_of st i = Some e"
    and s: "st' = st \<or> ef_state e = StateQueued \<and> cancel_write clk c e st = Inr (p, st')" .
  from s show ?thesis
  proof (elim disjE conjE)
    assume q: "ef_state e = StateQueued" and "cancel_write clk c e st = Inr (p, st')"
    then have "core st' = core (put_effect (?e e) st)"
      by (auto simp: cancel_write_def and_then_eq_Inr Let_def advanced_def [symmetric] dest: insert_receipt_core)
    with q effect_ofD [OF e] show ?thesis
      by (intro evolves_state [OF assms(1) e, of "?e e"]) (auto intro: quiet_cancel)
  qed (simp add: evolves_same assms(1))
qed

lemma rows_snoc:
  assumes "ea_effect a = i"
  shows "j \<noteq> i \<Longrightarrow> filter (\<lambda>b. ea_effect b = j) (eer_attempts st @ [a]) = rows st j"
    "filter (\<lambda>b. ea_effect b = i) (eer_attempts st @ [a]) = rows st i @ [a]"
  using assms by (simp_all add: rows_def)

lemma complete_clientD:
  assumes "complete_client clk c st = Inr (p, st')"
  obtains i e where "effect_of st i = Some e"
    "st' = st \<or> ef_state e = StateQueued \<and> env_kind (ef_envelope e) = KindSidebarJSSDKSend
       \<and> (cl_state c = StateExecuted \<or> cl_state c = StateUnknown \<or> cl_state c = StateFinalFailed)
       \<and> complete_write clk c e st = Inr (p, st')"
proof (cases "parse_effect_id (cl_effect_id c)")
  case (Inr i)
  show thesis
  proof (cases "effect_of st i")
    case (Some e)
    with Inr assms that [OF Some] show ?thesis by (auto simp: complete_client_def split: if_splits option.splits)
  qed (use Inr assms in \<open>auto simp: complete_client_def split: if_splits\<close>)
qed (use assms in \<open>auto simp: complete_client_def split: if_splits\<close>)

lemma complete_client_evolves:
  assumes "coherent st" "complete_client clk c st = Inr (p, st')" shows "evolves st st'"
proof -
  from complete_clientD [OF assms(2)] obtain i e where e: "effect_of st i = Some e"
    and s: "st' = st \<or> ef_state e = StateQueued \<and> env_kind (ef_envelope e) = KindSidebarJSSDKSend
       \<and> (cl_state c = StateExecuted \<or> cl_state c = StateUnknown \<or> cl_state c = StateFinalFailed)
       \<and> complete_write clk c e st = Inr (p, st')" .
  let ?a = "client_attempt clk c e"
  let ?e = "advanced (e\<lparr>ef_attempts := ea_number ?a\<rparr>) (cl_state c) (db_now clk)"
  show ?thesis
  proof (cases "st' = st")
    case False
    with s have q: "ef_state e = StateQueued" "env_kind (ef_envelope e) = KindSidebarJSSDKSend"
      and w: "complete_write clk c e st = Inr (p, st')"
      and cs: "cl_state c = StateExecuted \<or> cl_state c = StateUnknown \<or> cl_state c = StateFinalFailed" by auto
    have e': "?e = e\<lparr>ef_state := cl_state c, ef_attempts := ea_number ?a, ef_updated_at := db_now clk\<rparr>"
      by (simp add: advanced_def)
    from w obtain st1 r where st1: "insert_attempt ?a st = Inr st1" "core st' = core (put_effect ?e st1)"
      unfolding complete_write_def Let_def e' [symmetric] by (auto simp: and_then_eq_Inr dest: insert_receipt_core)
    note c1 = insert_attempt_core [OF st1(1)]
    have a: "ea_effect ?a = i" "ea_number ?a = wrap32 (ef_attempts e + 1)" "ea_state ?a = cl_state c"
      using effect_ofD [OF e] by (simp_all add: client_attempt_def)
    have "core st' = (map (\<lambda>r. if ef_id r = i then ?e else r) (eer_effects st), eer_attempts st @ [?a], eer_next_effect st)"
      using st1(2) c1 effect_ofD [OF e] by (simp add: core_def put_effect_def)
    moreover have "quiet (e, rows st i) (?e, rows st i @ [?a])"
      using c1 by (intro quiet_complete q cs a) simp
    ultimately show ?thesis
      using effect_ofD [OF e] rows_snoc [OF a(1)] by (intro evolves_one [OF assms(1) e, of ?e]) auto
  qed (simp add: evolves_same assms(1))
qed


section \<open>Control, reconciliation, tag-catalogue retry\<close>

lemma control_withinD:
  assumes "control_within sink clk op c st = Inr (p, r, st')"
  obtains i e s where "parse_effect_id (cc_effect_id c) = Inr i" "effect_of st i = Some e"
    "st' = st \<and> receipt_of st op i (cc_receipt_key c) \<noteq> None
     \<or> control_target op (ef_state e) = Inr s \<and> control_write sink clk op c e s st = Inr (p, r, st')"
proof (cases "parse_effect_id (cc_effect_id c)")
  case (Inr i)
  show thesis
  proof (cases "effect_of st i")
    case (Some e)
    with Inr assms that [OF Inr Some] show ?thesis
      by (auto simp: control_within_def and_then_eq_Inr Let_def split: if_splits option.splits)
  qed (use Inr assms in \<open>auto simp: control_within_def split: if_splits\<close>)
qed (use assms in \<open>auto simp: control_within_def split: if_splits\<close>)

lemma control_target_cases:
  assumes "control_target op s = Inr s'"
  obtains (cancel) "op = OpCancel" "s = StateAccepted \<or> s = StateQueued" "s' = StateCancelled"
    | (retry) "op = OpRetry" "s = StateRetryable" "s' = StateQueued"
    | (reconcile) "op = OpReconcile" "s = StateUnknown" "s' = StateReconciled"
  using assms by (cases op) (auto simp: control_target_def split: if_splits)

lemma retry_rows_core: "retry_rows clk e g st = Inr st' \<Longrightarrow> core st' = core st"
  by (cases "insert_job (ef_id e) g (effect_queue (env_kind (ef_envelope e)) (ef_lane e)) (db_now clk) st")
    (auto simp: retry_rows_def dest: insert_job_core)

lemma core_put_cong: "core st1 = core st \<Longrightarrow> core (put_effect e st1) = core (put_effect e st)"
  by (simp add: core_def put_effect_def)

lemma next_generation: "e\<lparr>ef_state := s, ef_generation := g, ef_updated_at := t\<rparr> = advanced (e\<lparr>ef_generation := g\<rparr>) s t"
  by (simp add: advanced_def)

text \<open>The rows written after the effect row carry the core unchanged.\<close>

lemma control_tail_core:
  assumes "and_then (insert_receipt op i k d a y s t st) (\<lambda>(r, st3). and_then (if b then complete_effect sink (f r) st3 else Inr st3)
             (\<lambda>st4. Inr (q r, g r, st4))) = Inr (p, rc, st')"
  shows "core st' = core st"
  using assms by (auto simp: and_then_eq_Inr dest!: insert_receipt_core complete_effect_core split: if_splits)

lemma control_write_core:
  assumes "control_write sink clk op c e s st = Inr (p, r, st')"
  shows "op = OpCancel \<Longrightarrow> core st' = core (put_effect (advanced e s (db_now clk)) st)"
    "op = OpRetry \<Longrightarrow> core st' = core (put_effect (advanced (e\<lparr>ef_generation := wrap64 (ef_generation e + 1)\<rparr>) s (db_now clk)) st)"
    "op = OpReconcile \<Longrightarrow> \<exists>st2. reconcile_rows clk e c st = Inr st2 \<and> core st' = core (put_effect (advanced e s (db_now clk)) st2)"
proof -
  show "core st' = core (put_effect (advanced e s (db_now clk)) st)" if "op = OpCancel"
    using assms that by (auto simp: control_write_def Let_def advanced_def [symmetric] dest!: control_tail_core)
  show "core st' = core (put_effect (advanced (e\<lparr>ef_generation := wrap64 (ef_generation e + 1)\<rparr>) s (db_now clk)) st)" if "op = OpRetry"
  proof -
    let ?g = "wrap64 (ef_generation e + 1)"
    from assms that obtain st1 where "retry_rows clk e ?g st = Inr st1"
      "core st' = core (put_effect (advanced (e\<lparr>ef_generation := ?g\<rparr>) s (db_now clk)) st1)"
      by (auto simp: control_write_def Let_def next_generation and_then_eq_Inr [of "retry_rows _ _ _ _"] dest!: control_tail_core)
    with core_put_cong [OF retry_rows_core] show ?thesis by metis
  qed
  show "\<exists>st2. reconcile_rows clk e c st = Inr st2 \<and> core st' = core (put_effect (advanced e s (db_now clk)) st2)" if "op = OpReconcile"
    using assms that
    by (auto simp: control_write_def Let_def advanced_def [symmetric] and_then_eq_Inr [of "reconcile_rows _ _ _ _"] dest!: control_tail_core)
qed

lemma reconcile_rows_core:
  assumes "reconcile_rows clk e c st = Inr st'"
  obtains bs a cs where "eer_attempts st = bs @ a # cs" "ea_effect a = ef_id e" "ea_state a = StateUnknown"
    "core st' = (eer_effects st, bs @ a\<lparr>ea_state := StateReconciled, ea_evidence := cc_evidence c,
                   ea_completed_at := Some (db_now clk)\<rparr> # cs, eer_next_effect st)"
proof -
  from assms have u: "update_one_attempt
        (\<lambda>a. ea_effect a = ef_id e \<and> ea_generation a = ef_generation e \<and> ea_fence a = ef_fence e \<and> ea_state a = StateUnknown
             \<and> (fenced c \<longrightarrow> (case ef_lease e of None \<Rightarrow> True | Some l \<Rightarrow> l \<le> db_now clk)))
        (\<lambda>a. a\<lparr>ea_state := StateReconciled, ea_evidence := cc_evidence c, ea_completed_at := Some (db_now clk)\<rparr>)
        EffReconcileRequired st = Inr st'"
    by (simp add: reconcile_rows_def split: if_splits)
  from update_one_attempt_core [OF u] that show thesis by blast
qed

text \<open>An effect whose row is replaced while one of its attempts changes in place.\<close>

lemma evolves_attempt:
  assumes "coherent st" "effect_of st i = Some e" "ef_id e' = i"
    "eer_attempts st = bs @ a # cs" "ea_effect a = i" "ea_effect b = i"
    "core st1 = (eer_effects st, bs @ b # cs, eer_next_effect st)" "core st' = core (put_effect e' st1)"
    "\<And>bs cs. rows st i = bs @ a # cs \<Longrightarrow> quiet (e, bs @ a # cs) (e', bs @ b # cs)"
  shows "evolves st st'"
proof -
  note r = rows_other [OF assms(4-6)]
  have "core st' = (map (\<lambda>r. if ef_id r = i then e' else r) (eer_effects st), bs @ b # cs, eer_next_effect st)"
    using assms(3,7,8) by (simp add: core_def put_effect_def)
  with assms(9) [OF r(2)] r show ?thesis
    by (intro evolves_one [OF assms(1-3)]) auto
qed

lemma control_evolves:
  assumes "coherent st" "control_within sink clk op c st = Inr (p, r, st')" shows "evolves st st'"
proof -
  from control_withinD [OF assms(2)] obtain i e s where e: "effect_of st i = Some e"
    and w: "st' = st \<and> receipt_of st op i (cc_receipt_key c) \<noteq> None
      \<or> control_target op (ef_state e) = Inr s \<and> control_write sink clk op c e s st = Inr (p, r, st')" by metis
  note i = effect_ofD [OF e]
  show ?thesis
  proof (cases "st' = st")
    case False
    with w have s: "control_target op (ef_state e) = Inr s" and w: "control_write sink clk op c e s st = Inr (p, r, st')" by auto
    note k = control_write_core [OF w]
    from s show ?thesis
    proof (cases rule: control_target_cases)
      case cancel
      with k(1) i show ?thesis
        by (intro evolves_state [OF assms(1) e, of "advanced e s (db_now clk)"]) (auto intro: quiet_cancel)
    next
      case a: retry
      with k(2) i show ?thesis
        by (intro evolves_state [OF assms(1) e, of "advanced (e\<lparr>ef_generation := wrap64 (ef_generation e + 1)\<rparr>) s (db_now clk)"])
          (auto intro: quiet_retry)
    next
      case a: reconcile
      with k(3) obtain st2 where st2: "reconcile_rows clk e c st = Inr st2"
        "core st' = core (put_effect (advanced e s (db_now clk)) st2)" by auto
      from reconcile_rows_core [OF st2(1)] obtain bs a cs where x: "eer_attempts st = bs @ a # cs" "ea_effect a = i"
        "ea_state a = StateUnknown" "core st2 = (eer_effects st, bs @ a\<lparr>ea_state := StateReconciled, ea_evidence := cc_evidence c,
                   ea_completed_at := Some (db_now clk)\<rparr> # cs, eer_next_effect st)" using i by metis
      show ?thesis
        by (rule evolves_attempt [OF assms(1) e _ x(1,2) _ x(4) st2(2)]) (use a i x in \<open>auto intro: quiet_reconcile\<close>)
    qed
  qed (simp add: evolves_same assms(1))
qed


lemma reconcile_unknown_evolves:
  assumes "coherent st" "reconcile_unknown sink clk k st = Inr (p, r, st')" shows "evolves st st'"
proof -
  from assms(2) obtain c where "control_within sink clk OpReconcile c st = Inr (p, r, st')"
    by (auto simp: reconcile_unknown_def and_then_eq_Inr split: if_splits option.splits)
  with assms(1) show ?thesis by (rule control_evolves)
qed

lemma reconcile_effect_evolves:
  assumes "coherent st" "reconcile_effect sink clk k st = Inr (p, r, st')" shows "evolves st st'"
  using assms by (auto simp: reconcile_effect_def split: sum.splits effect_error.splits intro: control_evolves)

lemma view_replaced: "view st i = Some (e, rows st i) \<longleftrightarrow> effect_of st i = Some e"
  by (auto simp: view_def)

lemma safe_attempt_repeatable:
  "safe_tag_catalog_retry_attempt i ref fp a \<Longrightarrow> repeatable KindWeComTagCatalogMutation a"
  by (auto simp: safe_tag_catalog_retry_attempt_def repeatable_def Let_def split: if_splits)

lemma scan_attempts_all: "scan_attempts ok n as = Some m \<Longrightarrow> list_all ok as"
  by (induction as arbitrary: n) (auto simp: Let_def split: if_splits)

lemma attempts_of_set: "set (attempts_of st i) = set (rows st i)"
  by (simp add: attempts_of_def rows_def)

lemma tag_retryD:
  assumes "retry_tag_catalog_mutation sink clk c st = Inr (p, st')"
  obtains i e st0 r where "effect_of st i = Some e"
    "parse_effect_id (cc_effect_id (tag_retry_control c)) = Inr i"
    "st0 = st \<or> (ef_state e = StateFinalFailed \<or> ef_state e = StateRetryable)
       \<and> env_kind (ef_envelope e) = KindWeComTagCatalogMutation
       \<and> list_all (repeatable KindWeComTagCatalogMutation) (rows st i) \<and> st0 = put_effect (e\<lparr>ef_state := StateRetryable\<rparr>) st
       \<and> receipt_of st OpRetry i (cc_receipt_key (tag_retry_control c)) = None"
    "control_within sink clk OpRetry (tag_retry_control c) st0 = Inr (p, r, st')"
proof -
  have reply: "\<exists>r. x = Inr (p, r, st')" if "tag_retry_reply x = Inr (p, st')" for x
    using that by (auto simp: tag_retry_reply_def split: sum.splits if_splits)
  from assms obtain i where i: "parse_effect_id (tr_effect_id c) = Inr i"
    by (auto simp: retry_tag_catalog_mutation_def split: if_splits sum.splits)
  then have parse: "parse_effect_id (cc_effect_id (tag_retry_control c)) = Inr i" by (simp add: tag_retry_control_def)
  from assms i obtain e where e: "effect_of st i = Some e"
    by (auto simp: retry_tag_catalog_mutation_def split: if_splits option.splits)
  show thesis
  proof (cases "receipt_of st OpRetry i (tr_receipt_key c) = None")
    case False
    with assms i e have "tag_retry_reply (control_within sink clk OpRetry (tag_retry_control c) st) = Inr (p, st')"
      by (auto simp: retry_tag_catalog_mutation_def split: if_splits)
    with reply e parse that show ?thesis by blast
  next
    case True
    let ?st = "put_effect (e\<lparr>ef_state := StateRetryable\<rparr>) st"
    from assms i e True have k: "tag_retry_reply (control_within sink clk OpRetry (tag_retry_control c) ?st) = Inr (p, st')"
      "ef_state e = StateFinalFailed \<or> ef_state e = StateRetryable" "env_kind (ef_envelope e) = KindWeComTagCatalogMutation"
      "scan_attempts (safe_tag_catalog_retry_attempt i (tr_effect_id c) (ef_fingerprint e)) 0 (attempts_of st i) = Some (ef_attempts e)"
      by (auto simp: retry_tag_catalog_mutation_def split: if_splits)
    from scan_attempts_all [OF k(4)] have "list_all (repeatable KindWeComTagCatalogMutation) (rows st i)"
      using safe_attempt_repeatable by (auto simp: list_all_iff attempts_of_set)
    with reply [OF k(1)] k(2,3) e parse True that [OF e parse] show ?thesis by (auto simp: tag_retry_control_def)
  qed
qed

lemma tag_retry_evolves:
  assumes "coherent st" "retry_tag_catalog_mutation sink clk c st = Inr (p, st')" shows "evolves st st'"
proof -
  from tag_retryD [OF assms(2)] obtain i e st0 r where e: "effect_of st i = Some e"
    and i: "parse_effect_id (cc_effect_id (tag_retry_control c)) = Inr i"
    and s: "st0 = st \<or> (ef_state e = StateFinalFailed \<or> ef_state e = StateRetryable)
       \<and> env_kind (ef_envelope e) = KindWeComTagCatalogMutation
       \<and> list_all (repeatable KindWeComTagCatalogMutation) (rows st i) \<and> st0 = put_effect (e\<lparr>ef_state := StateRetryable\<rparr>) st
       \<and> receipt_of st OpRetry i (cc_receipt_key (tag_retry_control c)) = None"
    and c: "control_within sink clk OpRetry (tag_retry_control c) st0 = Inr (p, r, st')" .
  show ?thesis
  proof (cases "st0 = st")
    case True
    with control_evolves [OF assms(1)] c show ?thesis by blast
  next
    case False
    let ?old = "e\<lparr>ef_state := StateRetryable\<rparr>" and ?e = "advanced (e\<lparr>ef_generation := wrap64 (ef_generation e + 1)\<rparr>) StateQueued (db_now clk)"
    note id = effect_ofD [OF e]
    from False s have st0: "st0 = put_effect ?old st" by blast
    then have e0: "effect_of st0 i = Some ?old" using e id by (simp add: effect_of_put)
    from st0 False s have none: "receipt_of st0 OpRetry i (cc_receipt_key (tag_retry_control c)) = None"
      by (simp add: receipt_of_def put_effect_def)
    from control_withinD [OF c] i e0 none obtain s' where w: "control_target OpRetry (ef_state ?old) = Inr s'"
      "control_write sink clk OpRetry (tag_retry_control c) ?old s' st0 = Inr (p, r, st')" by force
    then have "s' = StateQueued" by (simp add: control_target_def)
    with control_write_core(2) [OF w(2)] have "core st' = core (put_effect ?e st0)" by (simp add: advanced_def)
    then have x: "core st' = (map (\<lambda>r. if ef_id r = i then ?e else r) (eer_effects st), eer_attempts st, eer_next_effect st)"
      using st0 id by (auto simp: core_def put_effect_def)
    have "quiet (e, rows st i) (?e, rows st i)" using False s by (intro quiet_retry) auto
    then show ?thesis by (intro evolves_state [OF assms(1) e _ x]) (use id in auto)
  qed
qed


section \<open>Attempts\<close>

lemma recover_attempt_evolves:
  assumes "coherent st" "effect_of st i = Some e" "ef_state e = StateAttempted" "recover_attempt sink clk e st = Inr (b, st')"
  shows "evolves st st' \<and> (\<forall>c. b \<noteq> BeginClaimed c)"
proof (cases "b = BeginRecovered")
  case False
  with assms(4) have "st' = st" "\<forall>c. b \<noteq> BeginClaimed c"
    by (auto simp: recover_attempt_def and_then_eq_Inr split: if_splits)
  then show ?thesis by (simp add: evolves_same assms(1))
next
  case True
  let ?e = "advanced e StateUnknown (db_now clk)"
  have fold: "e\<lparr>ef_state := StateUnknown, ef_updated_at := db_now clk\<rparr> = ?e" by (simp add: advanced_def)
  from assms(4) True obtain st1 where u: "update_one_attempt (attempt_key (ef_id e) (ef_attempts e) (ef_generation e) (ef_fence e))
           (\<lambda>a. a\<lparr>ea_state := StateUnknown, ea_receipt := recovery_digest e, ea_completed_at := Some (db_now clk)\<rparr>)
           EffTransition st = Inr st1" and c: "core st' = core (put_effect ?e st1)"
    by (auto simp: recover_attempt_def and_then_eq_Inr fold dest!: complete_effect_core split: if_splits)
  note i = effect_ofD [OF assms(2)]
  from update_one_attempt_core [OF u] obtain bs a cs where s: "eer_attempts st = bs @ a # cs"
    and k: "attempt_key (ef_id e) (ef_attempts e) (ef_generation e) (ef_fence e) a"
    and x: "core st1 = (eer_effects st, bs @ a\<lparr>ea_state := StateUnknown, ea_receipt := recovery_digest e,
       ea_completed_at := Some (db_now clk)\<rparr> # cs, eer_next_effect st)" .
  from k i have a: "ea_effect a = i" "ea_number a = ef_attempts e" "ea_state a = StateAttempted"
    by (simp_all add: attempt_key_def)
  have "evolves st st'"
    by (rule evolves_attempt [OF assms(1,2) _ s a(1) _ x c]) (use i a assms(3) in \<open>auto intro: quiet_recover\<close>)
  with True show ?thesis by simp
qed

definition claim_row :: "claim \<Rightarrow> attempt_row" where
  "claim_row c = \<lparr>ea_effect = clm_effect c, ea_number = clm_number c, ea_generation = clm_generation c,
     ea_fence = clm_fence c, ea_state = StateAttempted, ea_receipt = [], ea_evidence = [], ea_called = False,
     ea_real = False, ea_completed_at = None\<rparr>"

lemma claim_attempt_evolves:
  assumes "coherent st" "effect_of st i = Some e" "ef_state e = StateQueued" "claim_attempt clk e q st = Inr (b, st')"
  obtains c where "b = BeginClaimed c" "clm_effect c = i" "clm_number c = wrap32 (ef_attempts e + 1)" "1 \<le> clm_number c"
    "evolves st st'" "rows st' i = rows st i @ [claim_row c]"
proof -
  let ?n = "wrap32 (ef_attempts e + 1)" and ?f = "wrap64 (ef_fence e + 1)"
  let ?c = "\<lparr>clm_effect = ef_id e, clm_generation = ef_generation e, clm_number = ?n, clm_fence = ?f, clm_queue = q\<rparr>"
  let ?e = "advanced (e\<lparr>ef_attempts := ?n, ef_fence := ?f, ef_lease := Some (db_now clk + 5 * minute)\<rparr>) StateAttempted (db_now clk)"
  note i = effect_ofD [OF assms(2)]
  have e: "?e = e\<lparr>ef_state := StateAttempted, ef_attempts := ?n, ef_fence := ?f, ef_lease := Some (db_now clk + 5 * minute),
                 ef_updated_at := db_now clk\<rparr>" by (simp add: advanced_def)
  have a: "claim_row ?c = \<lparr>ea_effect = ef_id e, ea_number = ?n, ea_generation = ef_generation e, ea_fence = ?f,
      ea_state = StateAttempted, ea_receipt = [], ea_evidence = [], ea_called = False, ea_real = False, ea_completed_at = None\<rparr>"
    by (simp add: claim_row_def)
  from assms(4) have b: "b = BeginClaimed ?c" and w: "insert_attempt (claim_row ?c) (put_effect ?e st) = Inr st'"
    unfolding claim_attempt_def Let_def e [symmetric] a [symmetric] by (auto simp: and_then_eq_Inr split: if_splits)
  from insert_attempt_core [OF w] have c: "core st' = (map (\<lambda>r. if ef_id r = i then ?e else r) (eer_effects st),
      eer_attempts st @ [claim_row ?c], eer_next_effect st)" and pos: "1 \<le> ?n"
    using i by (auto simp: core_def put_effect_def claim_row_def)
  have row: "ea_effect (claim_row ?c) = i" "ea_number (claim_row ?c) = ?n" using i by (simp_all add: claim_row_def)
  have "quiet (e, rows st i) (?e, rows st i @ [claim_row ?c])"
    using quiet_claim [OF assms(3), of "claim_row ?c" ?f "rows st i" "Some (db_now clk + 5 * minute)" "db_now clk"] pos
    by (simp add: claim_row_def)
  then have "evolves st st'"
    using i rows_snoc [OF row(1)] by (intro evolves_one [OF assms(1,2) _ c]) auto
  moreover have "rows st' i = rows st i @ [claim_row ?c]"
    using c rows_snoc(2) [OF row(1), of st] by (simp add: core_def rows_def)
  ultimately show thesis using that [OF b] i pos by simp
qed

lemma begin_attempt_evolves:
  assumes "coherent st" "begin_attempt sink clk i g j st = Inr (b, st')" shows "evolves st st'"
proof -
  from assms(2) have "st' = st \<or> (\<exists>e q. effect_of st i = Some e
      \<and> (ef_state e = StateAttempted \<and> recover_attempt sink clk e st = Inr (b, st')
         \<or> ef_state e = StateQueued \<and> claim_attempt clk e q st = Inr (b, st')))"
    by (auto simp: begin_attempt_def split: if_splits option.splits)
  then show ?thesis
  proof (elim disjE exE conjE)
    fix e q assume e: "effect_of st i = Some e" "ef_state e = StateQueued" "claim_attempt clk e q st = Inr (b, st')"
    from claim_attempt_evolves [OF assms(1) e] show ?thesis by blast
  qed (use recover_attempt_evolves [OF assms(1)] evolves_same [OF assms(1)] in auto)
qed

lemma begin_claimed:
  assumes "coherent st" "begin_attempt sink clk i g j st = Inr (BeginClaimed c, st')"
  obtains e where "effect_of st i = Some e" "clm_effect c = i" "clm_number c = wrap32 (ef_attempts e + 1)" "1 \<le> clm_number c"
    "rows st' i = rows st i @ [claim_row c]"
proof -
  from assms(2) obtain e q where e: "effect_of st i = Some e" and
    "ef_state e = StateAttempted \<and> recover_attempt sink clk e st = Inr (BeginClaimed c, st')
         \<or> ef_state e = StateQueued \<and> claim_attempt clk e q st = Inr (BeginClaimed c, st')"
    by (auto simp: begin_attempt_def split: if_splits option.splits)
  then have q: "ef_state e = StateQueued" "claim_attempt clk e q st = Inr (BeginClaimed c, st')"
    using recover_attempt_evolves [OF assms(1) e, of sink clk "BeginClaimed c" st'] by auto
  from claim_attempt_evolves [OF assms(1) e q] that [OF e] show thesis by auto
qed


section \<open>Recording an answer\<close>

lemma provider_outcome_cases:
  assumes "provider_outcome c k answer = (s, d)"
  shows "s = StateExecuted \<or> s = StateUnknown \<or> s = StateFinalFailed \<or> s = StateRetryable"
  using assms by (auto simp: provider_outcome_def Let_def split: provider_answer.splits if_splits)

lemma provider_outcome_retryable:
  assumes "provider_outcome c k answer = (StateRetryable, d)"
    "ar_real_call (answer_result answer) \<longrightarrow> ar_call_attempted (answer_result answer)"
  shows "\<not> ar_real_call (answer_result answer)
    \<and> (ar_call_attempted (answer_result answer) \<longrightarrow> k \<in> {KindOutboundMedia, KindOutboundMessage, KindAutomationMessage})"
  using assms by (auto simp: provider_outcome_def retry_lane_def split: provider_answer.splits if_splits)

lemma attempt_outcome_cases:
  assumes "attempt_outcome sink c k answer = (s, d)"
  shows "s = StateExecuted \<or> s = StateUnknown \<or> s = StateFinalFailed \<or> s = StateRetryable"
    "s = StateRetryable \<Longrightarrow> provider_outcome c k answer = (s, d)"
  using assms provider_outcome_cases [of c k answer] by (auto simp: attempt_outcome_def Let_def split: prod.splits if_splits)

definition recorded_row :: "attempt_row \<Rightarrow> state \<Rightarrow> string \<Rightarrow> provider_answer \<Rightarrow> time \<Rightarrow> attempt_row" where
  "recorded_row a s d answer t = a\<lparr>ea_state := s, ea_receipt := d, ea_called := ar_call_attempted (answer_result answer),
     ea_real := ar_real_call (answer_result answer), ea_completed_at := Some t\<rparr>"

lemma finish_attemptD:
  assumes "finish_attempt sink clk c v answer st = Inr (w, st')"
  obtains s d e st1 p where "attempt_outcome sink c (env_kind v) answer = (s, d)"
    "ar_real_call (answer_result answer) \<longrightarrow> ar_call_attempted (answer_result answer)"
    "p = s \<or> p = StateQueued \<and> auto_retry c (env_kind v) answer s"
    "update_one_attempt (attempt_key (clm_effect c) (clm_number c) (clm_generation c) (clm_fence c))
       (\<lambda>a. recorded_row a s d answer (db_now clk)) EffTransition st = Inr st1"
    "effect_of st1 (clm_effect c) = Some e" "ef_generation e = clm_generation c" "ef_fence e = clm_fence c"
    "ef_state e = StateAttempted" "core st' = core (put_effect (advanced e p (db_now clk)) st1)"
proof -
  obtain s d where o: "attempt_outcome sink c (env_kind v) answer = (s, d)" by fastforce
  let ?p = "if auto_retry c (env_kind v) answer s then StateQueued else s"
  from assms o have real: "ar_real_call (answer_result answer) \<longrightarrow> ar_call_attempted (answer_result answer)"
    by (auto simp: finish_attempt_def Let_def split: if_splits)
  from assms o obtain st1 where st1: "update_one_attempt (attempt_key (clm_effect c) (clm_number c) (clm_generation c) (clm_fence c))
       (\<lambda>a. recorded_row a s d answer (db_now clk)) EffTransition st = Inr st1"
    by (auto simp: finish_attempt_def recorded_row_def Let_def and_then_eq_Inr split: if_splits)
  have row: "(\<lambda>a. a\<lparr>ea_state := s, ea_receipt := d, ea_called := ar_call_attempted (answer_result answer),
      ea_real := ar_real_call (answer_result answer), ea_completed_at := Some (db_now clk)\<rparr>)
     = (\<lambda>a. recorded_row a s d answer (db_now clk))" by (simp add: recorded_row_def)
  from assms o st1 have "\<exists>e. effect_of st1 (clm_effect c) = Some e \<and> ef_generation e = clm_generation c
      \<and> ef_fence e = clm_fence c \<and> ef_state e = StateAttempted
      \<and> finish_write sink clk c v (reported_result answer ?p d) ?p e st1 = Inr st'"
    unfolding finish_attempt_def Let_def row
    by (simp add: row split: if_split_asm option.split_asm) (auto simp: row and_then_eq_Inr)
  then obtain e where e: "effect_of st1 (clm_effect c) = Some e" "ef_generation e = clm_generation c"
    "ef_fence e = clm_fence c" "ef_state e = StateAttempted"
    and w: "finish_write sink clk c v (reported_result answer ?p d) ?p e st1 = Inr st'" by blast
  have f: "core st' = core (put_effect (advanced e ?p (db_now clk)) st1)"
    using w unfolding finish_write_def Let_def advanced_def [symmetric]
    by (auto simp del: core_put dest!: complete_effect_core split: if_split_asm)
  have "?p = s \<or> ?p = StateQueued \<and> auto_retry c (env_kind v) answer s" by simp
  with that [OF o real _ st1 e] f show thesis by blast
qed

text \<open>The recording changes one attempt of one effect, the one of the claim.\<close>

lemma finish_recorded:
  assumes "coherent st" "finish_attempt sink clk c v answer st = Inr (w, st')"
    "\<And>e. effect_of st (clm_effect c) = Some e \<Longrightarrow> ef_envelope e = v"
  obtains x y bs a cs s d where "view st (clm_effect c) = Some x" "view st' (clm_effect c) = Some y"
    "snd x = bs @ a # cs" "snd y = bs @ recorded_row a s d answer (db_now clk) # cs"
    "ea_number a = clm_number c" "ea_state a = StateAttempted"
    "recorded a (recorded_row a s d answer (db_now clk)) x y" "coherent st'" "\<And>j. j \<noteq> clm_effect c \<Longrightarrow> view st' j = view st j"
proof -
  let ?i = "clm_effect c"
  from finish_attemptD [OF assms(2)] obtain s d e st1 p where o: "attempt_outcome sink c (env_kind v) answer = (s, d)"
    and real: "ar_real_call (answer_result answer) \<longrightarrow> ar_call_attempted (answer_result answer)"
    and again: "p = s \<or> p = StateQueued \<and> auto_retry c (env_kind v) answer s"
    and u: "update_one_attempt (attempt_key ?i (clm_number c) (clm_generation c) (clm_fence c))
       (\<lambda>a. recorded_row a s d answer (db_now clk)) EffTransition st = Inr st1"
    and e1: "effect_of st1 ?i = Some e" and f: "ef_generation e = clm_generation c" "ef_fence e = clm_fence c"
      "ef_state e = StateAttempted" and st': "core st' = core (put_effect (advanced e p (db_now clk)) st1)" .
  let ?b = "\<lambda>a. recorded_row a s d answer (db_now clk)" and ?e = "advanced e p (db_now clk)"
  from update_one_attempt_core [OF u] obtain bs a cs where x: "eer_attempts st = bs @ a # cs"
    "attempt_key ?i (clm_number c) (clm_generation c) (clm_fence c) a"
    "core st1 = (eer_effects st, bs @ ?b a # cs, eer_next_effect st)" .
  then have a: "ea_effect a = ?i" "ea_number a = clm_number c" "ea_generation a = clm_generation c" "ea_fence a = clm_fence c"
    "ea_state a = StateAttempted" by (simp_all add: attempt_key_def)
  from e1 x(3) have e: "effect_of st ?i = Some e" by (simp add: effect_of_def core_def)
  note i = effect_ofD [OF e]
  have b: "ea_effect (?b a) = ?i" using a(1) by (simp add: recorded_row_def)
  note r = rows_other [OF x(1) a(1) b]
  have c': "core st' = (map (\<lambda>r. if ef_id r = ?i then ?e else r) (eer_effects st), bs @ ?b a # cs, eer_next_effect st)"
    using i x(3) st' by (simp add: core_def put_effect_def)
  have id: "ef_id ?e = ?i" using i by simp
  note ch = changed_one [OF assms(1) e id c' r(1)]
  let ?bs = "filter (\<lambda>a. ea_effect a = ?i) bs" and ?cs = "filter (\<lambda>a. ea_effect a = ?i) cs"
  have p: "p = s \<or> s = StateRetryable \<and> p = StateQueued \<and> ea_number a < 5 \<and> env_kind (ef_envelope e) \<in> retried_kinds"
    using again a(2) assms(3) [OF e] by (auto simp: auto_retry_def retry_lane_def retried_kinds_def)
  have rep: "s = StateRetryable \<longrightarrow> repeatable (env_kind (ef_envelope e)) (?b a)"
    using provider_outcome_retryable [OF _ real, of c "env_kind v" d] attempt_outcome_cases(2) [OF o] assms(3) [OF e]
    by (auto simp: repeatable_def recorded_row_def)
  have "recorded a (?b a) (e, ?bs @ a # ?cs) (?e, ?bs @ ?b a # ?cs)"
    by (rule recordedI [OF f(3) refl a(5) _ _ recorded_row_def attempt_outcome_cases(1) [OF o] rep p])
      (use a f in simp_all)
  moreover have "view st ?i = Some (e, ?bs @ a # ?cs)" using e r(2) by (simp add: view_def)
  moreover have "view st' ?i = Some (?e, ?bs @ ?b a # ?cs)" using ch(2) r(3) by simp
  ultimately show thesis using that [of "(e, ?bs @ a # ?cs)" "(?e, ?bs @ ?b a # ?cs)" ?bs a ?cs s d] a ch(1,3) by simp
qed

end
