(* ===== verification/Effect_System.thy ===== *)
theory Effect_System
  imports Effect_Refinement
begin

text \<open>
  The effect kernel at work: transactions, claims, provider calls, recordings and lost workers
  in any order. A worker that has committed its claim is in flight until it records the
  answer it got or is lost; nothing is assumed about how long it takes, so its lease may
  expire, be recovered and be reconciled while it still talks to the provider. The call log
  keeps every answer an adapter gave, which no table of the program does; the theorems relate
  it to what the tables say.
\<close>

section \<open>The system and its steps\<close>

datatype worker = Claimed claim | Called claim envelope provider_answer

fun worker_claim :: "worker \<Rightarrow> claim" where
  "worker_claim (Claimed c) = c"
| "worker_claim (Called c v a) = c"

definition worker_key :: "worker \<Rightarrow> int64 \<times> int32" where
  "worker_key w = (clm_effect (worker_claim w), clm_number (worker_claim w))"

type_synonym call = "int64 \<times> int32 \<times> provider_answer"

record system =
  sy_store :: eer
  sy_workers :: "worker list"
  sy_calls :: "call list"

text \<open>The transactions, other than the two of a running attempt.\<close>

inductive transaction :: "sink \<Rightarrow> eer \<Rightarrow> eer \<Rightarrow> bool" for sink where
  tx_accept: "accept_and_queue clk c st = Inr (p, r, st') \<Longrightarrow> transaction sink st st'"
| tx_cancel: "cancel_queued clk cn st = Inr (p, st') \<Longrightarrow> transaction sink st st'"
| tx_complete: "complete_client clk cl st = Inr (p, st') \<Longrightarrow> transaction sink st st'"
| tx_control: "control_within sink clk op cc st = Inr (p, r, st') \<Longrightarrow> transaction sink st st'"
| tx_reconcile_unknown: "reconcile_unknown sink clk k st = Inr (p, r, st') \<Longrightarrow> transaction sink st st'"
| tx_reconcile_effect: "reconcile_effect sink clk k st = Inr (p, r, st') \<Longrightarrow> transaction sink st st'"
| tx_tag_retry: "retry_tag_catalog_mutation sink clk t st = Inr (p, st') \<Longrightarrow> transaction sink st st'"
| tx_begin: "begin_attempt sink clk i g j st = Inr (b, st') \<Longrightarrow> (\<And>c. b \<noteq> BeginClaimed c) \<Longrightarrow> transaction sink st st'"

inductive step :: "sink \<Rightarrow> system \<Rightarrow> system \<Rightarrow> bool" for sink where
  step_transaction: "transaction sink (sy_store s) st' \<Longrightarrow> step sink s (s\<lparr>sy_store := st'\<rparr>)"
| step_claim: "begin_attempt sink clk i g j (sy_store s) = Inr (BeginClaimed c, st') \<Longrightarrow>
    step sink s (s\<lparr>sy_store := st', sy_workers := sy_workers s @ [Claimed c]\<rparr>)"
| step_call: "sy_workers s = ws @ Claimed c # us \<Longrightarrow> claimed_envelope c (sy_store s) = Some v \<Longrightarrow>
    step sink s (s\<lparr>sy_workers := ws @ Called c v a # us, sy_calls := sy_calls s @ [(clm_effect c, clm_number c, a)]\<rparr>)"
| step_finish: "sy_workers s = ws @ Called c v a # us \<Longrightarrow> finish_attempt sink clk c v a (sy_store s) = Inr (d, st') \<Longrightarrow>
    step sink s (s\<lparr>sy_store := st', sy_workers := ws @ us\<rparr>)"
| step_lost: "sy_workers s = ws @ w # us \<Longrightarrow> step sink s (s\<lparr>sy_workers := ws @ us\<rparr>)"

definition boot :: system where
  "boot = \<lparr>sy_store = \<lparr>eer_effects = [], eer_attempts = [], eer_receipts = [], eer_jobs = [], eer_next_effect = 1,
     eer_next_receipt = 1, eer_next_job = 1, eer_completions = []\<rparr>, sy_workers = [], sy_calls = []\<rparr>"

definition reachable :: "sink \<Rightarrow> system \<Rightarrow> bool" where
  "reachable sink s \<longleftrightarrow> (step sink)\<^sup>*\<^sup>* boot s"

inductive_cases stepE: "step sink s s'"

lemma transaction_evolves: "transaction sink st st' \<Longrightarrow> coherent st \<Longrightarrow> evolves st st'"
  by (induction rule: transaction.induct)
    (auto intro: accept_evolves cancel_evolves complete_client_evolves control_evolves reconcile_unknown_evolves
      reconcile_effect_evolves tag_retry_evolves begin_attempt_evolves)

section \<open>More on the life of an effect\<close>

definition in_flight :: "attempt_row \<Rightarrow> bool" where
  "in_flight a \<longleftrightarrow> ea_state a = StateAttempted \<or> ea_state a = StateUnknown \<or> ea_state a = StateReconciled"

lemma in_flight_not_repeatable: "in_flight a \<Longrightarrow> \<not> repeatable k a"
  by (auto simp: in_flight_def repeatable_def)

lemma settling_in_flight: "settling a b \<Longrightarrow> in_flight a \<Longrightarrow> in_flight b"
  by (auto simp: settling_def in_flight_def)

lemma settling_number: "settling a b \<Longrightarrow> ea_number b = ea_number a"
  by (auto simp: settling_def)

lemma settling_recorded: "settling a b \<Longrightarrow> \<not> in_flight b \<Longrightarrow> b = a"
  by (auto simp: settling_def in_flight_def)

lemma lived_prefix:
  assumes "lived (e, as)"
  shows "list_all (repeatable (env_kind (ef_envelope e))) (butlast as)"
proof -
  let ?k = "env_kind (ef_envelope e)"
  have "list_all (repeatable ?k) as \<or> list_all (repeatable ?k) (butlast as)"
    using assms by (cases "ef_state e") (auto simp: lived_def Let_def)
  then show ?thesis by (auto simp: list_all_iff dest: in_set_butlastD)
qed

lemma lived_last_number:
  assumes "lived (e, as)" "as \<noteq> []" shows "ea_number (last as) = ef_attempts e"
proof -
  note n = lived_numbers [OF assms(1)]
  from n(1) assms(2) have "1 \<le> ef_attempts e" by (cases "1 \<le> ef_attempts e") auto
  then have "last (map ea_number as) = ef_attempts e" unfolding n(1) using upto_snoc [of "ef_attempts e - 1"] by simp
  with assms(2) show ?thesis by (simp add: last_map)
qed

lemma lived_in_flight:
  assumes "lived (e, as)" "a \<in> set as" "in_flight a" shows "ea_number a = ef_attempts e" "a = last as"
proof -
  from lived_prefix [OF assms(1)] in_flight_not_repeatable [OF assms(3)] have "a \<notin> set (butlast as)"
    by (auto simp: list_all_iff)
  with assms(2) show "a = last as" by (cases as rule: rev_cases) auto
  moreover from assms(2) have "as \<noteq> []" by auto
  ultimately show "ea_number a = ef_attempts e" using lived_last_number [OF assms(1)] by simp
qed

lemma lived_in_flight_state:
  assumes "lived (e, as)" "a \<in> set as" "in_flight a" shows "ef_state e = ea_state a"
proof -
  let ?k = "env_kind (ef_envelope e)"
  from in_flight_not_repeatable [OF assms(3)] assms(2) have "\<not> list_all (repeatable ?k) as" by (auto simp: list_all_iff)
  with assms(1) have "ea_state (last as) = ef_state e" by (cases "ef_state e") (simp_all add: lived_def Let_def)
  with lived_in_flight(2) [OF assms] show ?thesis by simp
qed

lemma lived_earlier:
  assumes "lived (e, as)" "a \<in> set as" "ea_number a < ef_attempts e"
  shows "repeatable (env_kind (ef_envelope e)) a"
proof -
  from lived_last_number [OF assms(1)] assms(2,3) have "a \<in> set (butlast as)"
    by (cases as rule: rev_cases) auto
  with lived_prefix [OF assms(1)] show ?thesis by (auto simp: list_all_iff)
qed

lemma newborn_lived: "newborn e \<Longrightarrow> lived (e, [])"
  by (simp add: newborn_def lived_def is_int32_def)

lemma quiet_envelope: "quiet x y \<Longrightarrow> ef_envelope (fst y) = ef_envelope (fst x) \<and> ef_id (fst y) = ef_id (fst x)"
  by (induction rule: quiet.induct) simp_all

lemma quiets_envelope: "quiet\<^sup>=\<^sup>= x y \<Longrightarrow> ef_envelope (fst y) = ef_envelope (fst x) \<and> ef_id (fst y) = ef_id (fst x)"
  by (auto dest: quiet_envelope)

lemma recorded_envelope: "recorded a b x y \<Longrightarrow> ef_envelope (fst y) = ef_envelope (fst x) \<and> ef_id (fst y) = ef_id (fst x)"
  by (induction rule: recorded.induct) simp_all

lemma evolves_Some:
  assumes "evolves st st'" "view st i = Some x"
  obtains y where "view st' i = Some y" "quiet\<^sup>=\<^sup>= x y"
  using assms by (auto simp: evolves_def dest!: spec [of _ i])

lemma evolves_lived:
  assumes "evolves st st'" "\<And>x. view st i = Some x \<Longrightarrow> lived x" "view st' i = Some y" shows "lived y"
proof (cases "view st i")
  case None
  with assms(1,3) have "newborn (fst y)" "snd y = []" by (auto simp: evolves_def dest!: spec [of _ i])
  with newborn_lived [of "fst y"] show ?thesis by (metis prod.collapse)
next
  case (Some x)
  with evolves_Some [OF assms(1) Some] assms(2,3) quiets_lived show ?thesis by (metis option.inject)
qed


section \<open>The invariant of the system\<close>

definition store_inv :: "eer \<Rightarrow> bool" where
  "store_inv st \<longleftrightarrow> coherent st \<and> (\<forall>i x. view st i = Some x \<longrightarrow> lived x)"

text \<open>The row a worker is running still waits for an answer, or has been given up on.\<close>

definition stage_ok :: "call list \<Rightarrow> envelope \<Rightarrow> worker \<Rightarrow> bool" where
  "stage_ok calls u w = (case w of
      Claimed c \<Rightarrow> worker_key w \<notin> set (map (\<lambda>(i, n, _). (i, n)) calls)
    | Called c v answer \<Rightarrow> v = u \<and> (clm_effect c, clm_number c, answer) \<in> set calls)"

definition worker_ok :: "eer \<Rightarrow> call list \<Rightarrow> worker \<Rightarrow> bool" where
  "worker_ok st calls w \<longleftrightarrow> (\<exists>e as a. view st (fst (worker_key w)) = Some (e, as) \<and> a \<in> set as
     \<and> ea_number a = snd (worker_key w) \<and> in_flight a \<and> stage_ok calls (ef_envelope e) w)"

definition answered :: "attempt_row \<Rightarrow> provider_answer \<Rightarrow> bool" where
  "answered a answer \<longleftrightarrow> in_flight a
     \<or> ea_real a = ar_real_call (answer_result answer) \<and> ea_called a = called answer"

definition call_ok :: "eer \<Rightarrow> call \<Rightarrow> bool" where
  "call_ok st = (\<lambda>(i, n, answer). \<exists>e as a. view st i = Some (e, as) \<and> a \<in> set as \<and> ea_number a = n \<and> answered a answer)"

lemma worker_okI:
  assumes "view st (fst (worker_key w)) = Some (e, as)" "a \<in> set as" "ea_number a = snd (worker_key w)" "in_flight a"
    "stage_ok calls (ef_envelope e) w"
  shows "worker_ok st calls w"
  unfolding worker_ok_def using assms by blast

lemma worker_okE:
  assumes "worker_ok st calls w"
  obtains e as a where "view st (fst (worker_key w)) = Some (e, as)" "a \<in> set as" "ea_number a = snd (worker_key w)"
    "in_flight a" "stage_ok calls (ef_envelope e) w"
  using assms unfolding worker_ok_def by blast

lemma call_okI:
  assumes "view st i = Some (e, as)" "a \<in> set as" "ea_number a = n" "answered a answer"
  shows "call_ok st (i, n, answer)"
  unfolding call_ok_def using assms by blast

lemma call_okE:
  assumes "call_ok st (i, n, answer)"
  obtains e as a where "view st i = Some (e, as)" "a \<in> set as" "ea_number a = n" "answered a answer"
  using assms unfolding call_ok_def by blast

definition call_order :: "call \<Rightarrow> call \<Rightarrow> bool" where
  "call_order = (\<lambda>(i, n, _) (j, m, _). i = j \<longrightarrow> n < m)"

definition system_inv :: "system \<Rightarrow> bool" where
  "system_inv s \<longleftrightarrow> store_inv (sy_store s) \<and> list_all (worker_ok (sy_store s) (sy_calls s)) (sy_workers s)
     \<and> distinct (map worker_key (sy_workers s)) \<and> list_all (call_ok (sy_store s)) (sy_calls s)
     \<and> sorted_wrt call_order (sy_calls s)"

lemma system_invD:
  assumes "system_inv s"
  shows "store_inv (sy_store s)" "w \<in> set (sy_workers s) \<Longrightarrow> worker_ok (sy_store s) (sy_calls s) w"
    "distinct (map worker_key (sy_workers s))" "k \<in> set (sy_calls s) \<Longrightarrow> call_ok (sy_store s) k"
    "sorted_wrt call_order (sy_calls s)"
  using assms by (simp_all add: system_inv_def list_all_iff)

lemma store_invD:
  assumes "store_inv st" shows "coherent st" "view st i = Some x \<Longrightarrow> lived x"
  using assms unfolding store_inv_def by blast+

lemma evolves_store_inv: "store_inv st \<Longrightarrow> evolves st st' \<Longrightarrow> store_inv st'"
  unfolding store_inv_def using evolves_lived [of st st'] by (metis evolves_def)

text \<open>A step that settles the attempts of an effect keeps what workers and calls know of it.\<close>

lemma evolves_row:
  assumes "evolves st st'" "view st i = Some (e, as)" "a \<in> set as"
  obtains e' as' b where "view st' i = Some (e', as')" "ef_envelope e' = ef_envelope e" "b \<in> set as'" "settling a b"
proof -
  from evolves_Some [OF assms(1,2)] obtain y where y: "view st' i = Some y" "quiet\<^sup>=\<^sup>= (e, as) y" .
  obtain e' as' where p: "y = (e', as')" by fastforce
  from quiets_settling [OF y(2), of a] assms(3) p obtain b where b: "b \<in> set as'" "settling a b" by auto
  from quiets_envelope [OF y(2)] p have "ef_envelope e' = ef_envelope e" by simp
  with that y(1) p b show thesis by blast
qed

lemma evolves_worker_ok:
  assumes "evolves st st'" "worker_ok st calls w" shows "worker_ok st' calls w"
proof -
  from worker_okE [OF assms(2)] obtain e as a where w: "view st (fst (worker_key w)) = Some (e, as)" "a \<in> set as"
    "ea_number a = snd (worker_key w)" "in_flight a" "stage_ok calls (ef_envelope e) w" .
  from evolves_row [OF assms(1) w(1,2)] obtain e' as' b where r: "view st' (fst (worker_key w)) = Some (e', as')"
    "ef_envelope e' = ef_envelope e" "b \<in> set as'" "settling a b" .
  show ?thesis
    by (rule worker_okI [OF r(1,3)]) (use r w settling_number [OF r(4)] settling_in_flight [OF r(4)] in simp_all)
qed

lemma evolves_call_ok:
  assumes "evolves st st'" "call_ok st k" shows "call_ok st' k"
proof -
  obtain i n answer where k: "k = (i, n, answer)" by (cases k)
  from call_okE [OF assms(2) [unfolded k]] obtain e as a where c: "view st i = Some (e, as)" "a \<in> set as" "ea_number a = n"
    "answered a answer" .
  from evolves_row [OF assms(1) c(1,2)] obtain e' as' b where r: "view st' i = Some (e', as')" "b \<in> set as'" "settling a b" .
  have "answered b answer" using settling_recorded [OF r(3)] c(4) by (auto simp: answered_def)
  with r c(3) settling_number [OF r(3)] show ?thesis unfolding k by (intro call_okI) auto
qed

lemma transaction_inv:
  assumes "system_inv s" "transaction sink (sy_store s) st'" shows "system_inv (s\<lparr>sy_store := st'\<rparr>)"
proof -
  note i = system_invD [OF assms(1)]
  note e = transaction_evolves [OF assms(2) store_invD(1) [OF i(1)]]
  from i evolves_store_inv [OF i(1) e] evolves_worker_ok [OF e] evolves_call_ok [OF e]
  show ?thesis by (simp add: system_inv_def list_all_iff)
qed

text \<open>A worker's key, and a call's, name an attempt the store knows.\<close>

lemma worker_ok_bound:
  assumes "worker_ok st calls w" "store_inv st" "view st (fst (worker_key w)) = Some (e, as)"
  shows "snd (worker_key w) = ef_attempts e"
proof -
  from worker_okE [OF assms(1)] assms(3) obtain a where "a \<in> set as" "ea_number a = snd (worker_key w)" "in_flight a" by auto
  with lived_in_flight(1) [OF store_invD(2) [OF assms(2,3)]] show ?thesis by auto
qed

lemma call_ok_bound:
  assumes "call_ok st (i, n, a)" "store_inv st" "view st i = Some (e, as)"
  shows "n \<le> ef_attempts e"
proof -
  from call_okE [OF assms(1)] assms(3) obtain b where "b \<in> set as" "ea_number b = n" by auto
  with lived_numbers(4) [OF store_invD(2) [OF assms(2,3)]] show ?thesis by auto
qed

lemma claim_inv:
  assumes "system_inv s" "begin_attempt sink clk i g j (sy_store s) = Inr (BeginClaimed c, st')"
  shows "system_inv (s\<lparr>sy_store := st', sy_workers := sy_workers s @ [Claimed c]\<rparr>)"
proof -
  let ?st = "sy_store s" and ?as = "rows (sy_store s) i"
  note inv = system_invD [OF assms(1)]
  note coh = store_invD(1) [OF inv(1)]
  note ev = begin_attempt_evolves [OF coh assms(2)]
  from begin_claimed [OF coh assms(2)] obtain e where e: "effect_of ?st i = Some e" "clm_effect c = i"
    "clm_number c = wrap32 (ef_attempts e + 1)" "1 \<le> clm_number c" "rows st' i = ?as @ [claim_row c]" .
  have v: "view ?st i = Some (e, ?as)" using e(1) by (simp add: view_def)
  note l = lived_numbers [OF store_invD(2) [OF inv(1) v]]
  from wrap32_succ [OF l(2,3)] e(3,4) have n: "clm_number c = ef_attempts e + 1" by simp
  have key: "worker_key (Claimed c) = (i, clm_number c)" using e(2) by (simp add: worker_key_def)
  have fresh: "worker_key w \<noteq> (i, clm_number c)" if "w \<in> set (sy_workers s)" for w
  proof
    assume k: "worker_key w = (i, clm_number c)"
    with worker_ok_bound [OF inv(2) [OF that] inv(1), of e ?as] v n show False by simp
  qed
  then have unused: "worker_key (Claimed c) \<notin> worker_key ` set (sy_workers s)" unfolding key by force
  have "(i, clm_number c, a) \<notin> set (sy_calls s)" for a
    using call_ok_bound [OF inv(4) inv(1) v] n by force
  then have new: "stage_ok (sy_calls s) u (Claimed c)" for u using key by (auto simp: stage_ok_def)
  from evolves_Some [OF ev v] obtain y where y: "view st' i = Some y" .
  obtain e' as' where p: "y = (e', as')" by fastforce
  with y e(5) have as': "as' = ?as @ [claim_row c]" by (auto simp: view_def)
  have "worker_ok st' (sy_calls s) (Claimed c)"
    by (rule worker_okI [of _ _ e' as' "claim_row c"]) (use y p as' key new in \<open>auto simp: claim_row_def in_flight_def\<close>)
  with inv unused evolves_store_inv [OF inv(1) ev] evolves_worker_ok [OF ev] evolves_call_ok [OF ev] show ?thesis
    by (auto simp: system_inv_def list_all_iff)
qed

lemma stage_claimed: "stage_ok calls u (Claimed c) \<Longrightarrow> (clm_effect c, clm_number c, b) \<notin> set calls"
  by (force simp: stage_ok_def worker_key_def)

lemma stage_ok_later: "worker_key w \<noteq> (i, n) \<Longrightarrow> stage_ok calls u w \<Longrightarrow> stage_ok (calls @ [(i, n, a)]) u w"
  by (auto simp: stage_ok_def split: worker.splits)

lemma call_inv:
  assumes "system_inv s" "sy_workers s = ws @ Claimed c # us" "claimed_envelope c (sy_store s) = Some v"
  shows "system_inv (s\<lparr>sy_workers := ws @ Called c v answer # us, sy_calls := sy_calls s @ [(clm_effect c, clm_number c, answer)]\<rparr>)"
proof -
  let ?st = "sy_store s" and ?call = "(clm_effect c, clm_number c, answer)"
  let ?calls = "sy_calls s @ [?call]"
  note inv = system_invD [OF assms(1)]
  have keys: "worker_key (Claimed c) = (clm_effect c, clm_number c)" "worker_key (Called c v answer) = (clm_effect c, clm_number c)"
    by (simp_all add: worker_key_def)
  from assms(2) inv(2) [of "Claimed c"] have ok: "worker_ok ?st (sy_calls s) (Claimed c)" by simp
  from worker_okE [OF this] obtain e as a where w: "view ?st (clm_effect c) = Some (e, as)" "a \<in> set as"
    "ea_number a = clm_number c" "in_flight a" "stage_ok (sy_calls s) (ef_envelope e) (Claimed c)"
    unfolding keys by auto
  from w(1) assms(3) have v: "v = ef_envelope e" by (auto simp: claimed_envelope_def view_def split: if_splits)
  have n: "clm_number c = ef_attempts e"
    using worker_ok_bound [OF ok inv(1)] w(1) keys by simp
  have called: "worker_ok ?st ?calls (Called c v answer)"
    by (rule worker_okI [of _ _ e as a]) (use w keys v in \<open>auto simp: stage_ok_def\<close>)
  have others: "worker_ok ?st ?calls w" if "w \<in> set ws \<union> set us" for w
  proof -
    from that have "worker_key w \<in> worker_key ` (set ws \<union> set us)" by blast
    with assms(2) inv(3) keys(1) have k: "worker_key w \<noteq> (clm_effect c, clm_number c)" by auto
    from that assms(2) inv(2) have "worker_ok ?st (sy_calls s) w" by auto
    from worker_okE [OF this] stage_ok_later [OF k] show ?thesis by (metis worker_okI)
  qed
  have call: "call_ok ?st ?call"
    by (rule call_okI [OF w(1,2,3)]) (simp add: answered_def w(4))
  have "call_order k ?call" if "k \<in> set (sy_calls s)" for k
  proof -
    obtain i m b where k: "k = (i, m, b)" by (cases k)
    have "m < clm_number c" if i: "i = clm_effect c"
    proof -
      from \<open>k \<in> set (sy_calls s)\<close> k i stage_claimed [OF w(5), of b] have "m \<noteq> clm_number c" by auto
      moreover have "m \<le> ef_attempts e" using call_ok_bound [OF inv(4) [OF \<open>k \<in> _\<close>, unfolded k] inv(1)] w(1) i by simp
      ultimately show ?thesis using n by simp
    qed
    with k show ?thesis by (simp add: call_order_def)
  qed
  with inv(5) have "sorted_wrt call_order ?calls" by (simp add: sorted_wrt_append)
  with called others call inv(1,3,4) assms(2) keys show ?thesis
    by (auto simp: system_inv_def list_all_iff)
qed


lemma lost_inv:
  assumes "system_inv s" "sy_workers s = ws @ w # us"
  shows "system_inv (s\<lparr>sy_workers := ws @ us\<rparr>)"
  using assms by (auto simp: system_inv_def)

lemma call_answers_agree:
  assumes "sorted_wrt call_order calls" "(i, n, a) \<in> set calls" "(i, n, b) \<in> set calls"
  shows "a = b"
  using assms by (induction calls) (auto simp: call_order_def)

lemma recorded_row_simps [simp]:
  "ea_number (recorded_row a s d answer t) = ea_number a" "ea_state (recorded_row a s d answer t) = s"
  "ea_real (recorded_row a s d answer t) = ar_real_call (answer_result answer)"
  "ea_called (recorded_row a s d answer t) = called answer"
  by (simp_all add: recorded_row_def called_def)

lemma finish_inv:
  assumes "system_inv s" "sy_workers s = ws @ Called c v answer # us" "finish_attempt sink clk c v answer (sy_store s) = Inr (w, st')"
  shows "system_inv (s\<lparr>sy_store := st', sy_workers := ws @ us\<rparr>)"
proof -
  let ?st = "sy_store s" and ?i = "clm_effect c"
  note inv = system_invD [OF assms(1)]
  have keys: "worker_key (Called c v answer) = (?i, clm_number c)" by (simp add: worker_key_def)
  from assms(2) inv(2) [of "Called c v answer"] have ok: "worker_ok ?st (sy_calls s) (Called c v answer)" by simp
  from worker_okE [OF this] obtain e0 as0 where w: "view ?st ?i = Some (e0, as0)"
    "stage_ok (sy_calls s) (ef_envelope e0) (Called c v answer)" unfolding keys fst_conv snd_conv by blast
  then have v: "ef_envelope e = v" if "effect_of ?st ?i = Some e" for e
    using that by (auto simp: stage_ok_def view_def)
  have logged: "(?i, clm_number c, answer) \<in> set (sy_calls s)" using w(2) by (simp add: stage_ok_def)
  from finish_recorded [OF store_invD(1) [OF inv(1)] assms(3) v] obtain x y bs a cs s' d where
    x: "view ?st ?i = Some x" and y: "view st' ?i = Some y" and as: "snd x = bs @ a # cs"
    and bs: "snd y = bs @ recorded_row a s' d answer (db_now clk) # cs" and a: "ea_number a = clm_number c"
    and rec: "recorded a (recorded_row a s' d answer (db_now clk)) x y"
    and coh: "coherent st'" and other: "\<And>j. j \<noteq> ?i \<Longrightarrow> view st' j = view ?st j" by metis
  let ?b = "recorded_row a s' d answer (db_now clk)"
  obtain e as where xp: "x = (e, as)" by fastforce
  obtain e' as' where yp: "y = (e', as')" by fastforce
  have st': "store_inv st'"
  proof -
    have "lived z" if "view st' j = Some z" for j z
    proof (cases "j = ?i")
      case True
      with that y recorded_lived [OF rec] store_invD(2) [OF inv(1) x] show ?thesis by simp
    qed (use that other store_invD(2) [OF inv(1)] in auto)
    with coh show ?thesis by (simp add: store_inv_def)
  qed
  have envelope: "ef_envelope e' = ef_envelope e" using recorded_envelope [OF rec] xp yp by simp
  text \<open>A row with another number is untouched.\<close>
  have keep: "\<exists>e2 as2. view st' j = Some (e2, as2) \<and> ef_envelope e2 = ef_envelope e1 \<and> r \<in> set as2"
    if "view ?st j = Some (e1, as1)" "r \<in> set as1" "j = ?i \<Longrightarrow> ea_number r \<noteq> clm_number c" for j e1 as1 r
  proof (cases "j = ?i")
    case True
    with that x xp as a have "r \<in> set bs \<union> set cs" by auto
    with True that x xp y yp bs envelope show ?thesis by auto
  qed (use that other in auto)
  have workers: "worker_ok st' (sy_calls s) u" if "u \<in> set ws \<union> set us" for u
  proof -
    from that have "worker_key u \<in> worker_key ` (set ws \<union> set us)" by blast
    with assms(2) inv(3) keys have k: "worker_key u \<noteq> (?i, clm_number c)" by auto
    from that assms(2) inv(2) have "worker_ok ?st (sy_calls s) u" by auto
    from worker_okE [OF this] obtain e1 as1 r where r: "view ?st (fst (worker_key u)) = Some (e1, as1)" "r \<in> set as1"
      "ea_number r = snd (worker_key u)" "in_flight r" "stage_ok (sy_calls s) (ef_envelope e1) u" .
    from keep [OF r(1,2)] k r(3) obtain e2 as2 where "view st' (fst (worker_key u)) = Some (e2, as2)"
      "ef_envelope e2 = ef_envelope e1" "r \<in> set as2" by (metis prod.collapse)
    with r show ?thesis by (metis worker_okI)
  qed
  have calls: "call_ok st' k" if "k \<in> set (sy_calls s)" for k
  proof -
    obtain j n b where k: "k = (j, n, b)" by (cases k)
    from call_okE [OF inv(4) [OF that, unfolded k]] obtain e1 as1 r where r: "view ?st j = Some (e1, as1)" "r \<in> set as1"
      "ea_number r = n" "answered r b" .
    show ?thesis
    proof (cases "(j, n) = (?i, clm_number c)")
      case True
      with call_answers_agree [OF inv(5) logged] that k have "b = answer" by auto
      with True k y yp bs a show ?thesis by (auto simp: answered_def intro!: call_okI [of _ _ e' as' ?b])
    next
      case False
      with keep [OF r(1,2)] r(3) obtain e2 as2 where "view st' j = Some (e2, as2)" "r \<in> set as2" by blast
      with r k show ?thesis by (auto intro: call_okI)
    qed
  qed
  from st' workers calls inv(3,5) assms(2) show ?thesis by (auto simp: system_inv_def list_all_iff)
qed

lemma boot_inv: "system_inv boot"
  by (simp add: system_inv_def boot_def store_inv_def coherent_def view_def effect_of_def)

lemma step_inv: "step sink s s' \<Longrightarrow> system_inv s \<Longrightarrow> system_inv s'"
  by (erule stepE) (auto intro: transaction_inv claim_inv call_inv finish_inv lost_inv)

lemma reachable_inv: "reachable sink s \<Longrightarrow> system_inv s"
  unfolding reachable_def by (induction rule: rtranclp_induct) (auto intro: boot_inv step_inv)

end
