(* ===== verification/Effect_Safety.thy ===== *)
theory Effect_Safety
  imports Effect_System
begin

text \<open>
  What the effect kernel guarantees of every reachable system: how often a provider is called
  and after which answers, that settled effects stay settled, how a step may move an effect,
  that the stored evidence of a failure without a call is true, and that an abandoned attempt
  is given up on. The last section runs a concrete system for the witnesses.
\<close>

section \<open>Calls\<close>

lemma call_recorded:
  assumes "system_inv s" "(i, n, a) \<in> set (sy_calls s)"
  obtains e as r where "view (sy_store s) i = Some (e, as)" "lived (e, as)" "r \<in> set as" "ea_number r = n" "answered r a"
  using call_okE [OF system_invD(4) [OF assms]] store_invD(2) [OF system_invD(1) [OF assms(1)]] by metis

definition recalled_kinds :: "kind set" where
  "recalled_kinds = {KindOutboundMedia, KindOutboundMessage, KindAutomationMessage, KindWeComTagCatalogMutation}"

lemma repeatable_answer:
  assumes "repeatable k r" "answered r a"
  shows "\<not> ar_real_call (answer_result a)" "called a \<Longrightarrow> k \<in> recalled_kinds"
  using assms by (auto simp: repeatable_def answered_def in_flight_def recalled_kinds_def)

lemma earlier_call:
  assumes "system_inv s" "sy_calls s = l1 @ (i, n, a) # l2" "(i, m, b) \<in> set l2"
  shows "n < m" "\<not> ar_real_call (answer_result a)"
    "called a \<Longrightarrow> \<exists>e. effect_of (sy_store s) i = Some e \<and> env_kind (ef_envelope e) \<in> recalled_kinds"
proof -
  note inv = system_invD [OF assms(1)]
  from inv(5) assms(2,3) show nm: "n < m" by (auto simp: sorted_wrt_append call_order_def)
  from assms(2) have "(i, n, a) \<in> set (sy_calls s)" by simp
  from call_recorded [OF assms(1) this] obtain e as r where r: "view (sy_store s) i = Some (e, as)" "lived (e, as)"
    "r \<in> set as" "ea_number r = n" "answered r a" .
  from assms(2,3) inv(4) have "call_ok (sy_store s) (i, m, b)" by auto
  from call_ok_bound [OF this inv(1) r(1)] nm r(4) have "ea_number r < ef_attempts e" by simp
  note rep = lived_earlier [OF r(2,3) this]
  from repeatable_answer [OF rep r(5)] r(1) show "\<not> ar_real_call (answer_result a)"
    "called a \<Longrightarrow> \<exists>e. effect_of (sy_store s) i = Some e \<and> env_kind (ef_envelope e) \<in> recalled_kinds"
    by (auto simp: view_def)
qed

section \<open>Settled effects\<close>

definition settled :: "state \<Rightarrow> bool" where
  "settled s \<longleftrightarrow> s = StateExecuted \<or> s = StateReconciled \<or> s = StateCancelled"

lemma quiet_settled: "quiet x y \<Longrightarrow> \<not> settled (ef_state (fst x))"
  by (induction rule: quiet.induct) (auto simp: settled_def)

lemma quiets_settled:
  assumes "quiet\<^sup>=\<^sup>= x y" "settled (ef_state (fst x))" shows "y = x"
  using assms by (auto dest: quiet_settled)

lemma evolves_settled:
  assumes "evolves st st'" "view st i = Some (e, as)" "settled (ef_state e)"
  shows "view st' i = Some (e, as)"
  using evolves_Some [OF assms(1,2)] quiets_settled assms(3) by (metis fst_conv)

definition calls_of :: "system \<Rightarrow> int64 \<Rightarrow> call list" where
  "calls_of s i = filter (\<lambda>k. fst k = i) (sy_calls s)"

lemma finish_view:
  assumes "system_inv s" "sy_workers s = ws @ Called c v a # us" "finish_attempt sink clk c v a (sy_store s) = Inr (d, st')"
  obtains x y r r' where "view (sy_store s) (clm_effect c) = Some x" "view st' (clm_effect c) = Some y" "recorded r r' x y"
    "\<And>j. j \<noteq> clm_effect c \<Longrightarrow> view st' j = view (sy_store s) j"
proof -
  from assms(2) system_invD(2) [OF assms(1), of "Called c v a"] have "worker_ok (sy_store s) (sy_calls s) (Called c v a)" by simp
  from worker_okE [OF this] have v: "\<And>e. effect_of (sy_store s) (clm_effect c) = Some e \<Longrightarrow> ef_envelope e = v"
    by (auto simp: stage_ok_def worker_key_def view_def)
  from finish_recorded [OF store_invD(1) [OF system_invD(1) [OF assms(1)]] assms(3) v] that show thesis by metis
qed

lemma step_settled:
  assumes "step sink s s'" "system_inv s" "view (sy_store s) i = Some (e, as)" "settled (ef_state e)"
  shows "view (sy_store s') i = Some (e, as) \<and> (ef_state e \<noteq> StateReconciled \<longrightarrow> calls_of s' i = calls_of s i)"
  using assms(1)
proof (cases rule: step.cases)
  case (step_transaction st')
  from transaction_evolves [OF step_transaction(2) store_invD(1) [OF system_invD(1) [OF assms(2)]]]
  show ?thesis using step_transaction evolves_settled assms(3,4) by (auto simp: calls_of_def)
next
  case (step_claim clk j g k c st')
  from begin_attempt_evolves [OF store_invD(1) [OF system_invD(1) [OF assms(2)]] step_claim(2)]
  show ?thesis using step_claim evolves_settled assms(3,4) by (auto simp: calls_of_def)
next
  case (step_call ws c us v a)
  have "clm_effect c \<noteq> i" if ns: "ef_state e \<noteq> StateReconciled"
  proof
    assume c: "clm_effect c = i"
    from step_call(2) system_invD(2) [OF assms(2), of "Claimed c"] have "worker_ok (sy_store s) (sy_calls s) (Claimed c)" by simp
    from worker_okE [OF this] c assms(3) obtain r where r: "r \<in> set as" "in_flight r" by (auto simp: worker_key_def)
    from lived_in_flight_state [OF store_invD(2) [OF system_invD(1) [OF assms(2)] assms(3)] r] r(2) ns assms(4)
    show False by (auto simp: settled_def in_flight_def)
  qed
  with step_call assms(3) show ?thesis by (auto simp: calls_of_def)
next
  case (step_finish ws c v a us clk d st')
  from finish_view [OF assms(2) step_finish(2,3)] obtain x y r r' where
    x: "view (sy_store s) (clm_effect c) = Some x" "recorded r r' x y"
    "\<And>j. j \<noteq> clm_effect c \<Longrightarrow> view st' j = view (sy_store s) j" by metis
  from x(2) have "ef_state (fst x) = StateAttempted" by (cases rule: recorded.cases) simp
  with x(1) assms(3,4) have "i \<noteq> clm_effect c" by (auto simp: settled_def)
  with x(3) step_finish assms(3) show ?thesis by (auto simp: calls_of_def)
next
  case (step_lost ws w us)
  with assms(3) show ?thesis by (auto simp: calls_of_def)
qed

lemma steps_settled:
  assumes "(step sink)\<^sup>*\<^sup>* s s'" "system_inv s" "view (sy_store s) i = Some (e, as)" "settled (ef_state e)"
  shows "system_inv s' \<and> view (sy_store s') i = Some (e, as) \<and> (ef_state e \<noteq> StateReconciled \<longrightarrow> calls_of s' i = calls_of s i)"
  using assms(1)
proof (induction rule: rtranclp_induct)
  case base
  show ?case using assms by simp
next
  case (step s1 s2)
  with step_inv step_settled [OF step.hyps(2) _ _ assms(4)] show ?case by auto
qed

section \<open>State changes\<close>

text \<open>
  How one step may move an effect, by the state it is in: the counters move with the state, and
  two of the moves are open to some kinds of effect only.
\<close>

definition kernel_move :: "effect_row \<Rightarrow> effect_row \<Rightarrow> bool" where
  "kernel_move e e' \<longleftrightarrow>
     ef_envelope e' = ef_envelope e \<and>
     (case ef_state e of
        StateQueued \<Rightarrow> ef_generation e' = ef_generation e
          \<and> (ef_state e' = StateCancelled \<and> ef_attempts e' = ef_attempts e
             \<or> ef_attempts e' = ef_attempts e + 1
               \<and> (ef_state e' = StateAttempted
                  \<or> env_kind (ef_envelope e) = KindSidebarJSSDKSend
                    \<and> (ef_state e' = StateExecuted \<or> ef_state e' = StateUnknown \<or> ef_state e' = StateFinalFailed)))
      | StateAttempted \<Rightarrow> ef_generation e' = ef_generation e \<and> ef_attempts e' = ef_attempts e
          \<and> (ef_state e' = StateExecuted \<or> ef_state e' = StateUnknown \<or> ef_state e' = StateFinalFailed \<or> ef_state e' = StateRetryable
             \<or> ef_state e' = StateQueued \<and> ef_attempts e < 5 \<and> env_kind (ef_envelope e) \<in> retried_kinds)
      | StateUnknown \<Rightarrow> ef_generation e' = ef_generation e \<and> ef_attempts e' = ef_attempts e \<and> ef_state e' = StateReconciled
      | StateRetryable \<Rightarrow> ef_generation e' = wrap64 (ef_generation e + 1) \<and> ef_attempts e' = ef_attempts e \<and> ef_state e' = StateQueued
      | StateFinalFailed \<Rightarrow> env_kind (ef_envelope e) = KindWeComTagCatalogMutation
          \<and> ef_generation e' = wrap64 (ef_generation e + 1) \<and> ef_attempts e' = ef_attempts e \<and> ef_state e' = StateQueued
      | _ \<Rightarrow> False)"

lemma lived_next_attempt:
  assumes "lived (e, as)" "1 \<le> wrap32 (ef_attempts e + 1)" shows "wrap32 (ef_attempts e + 1) = ef_attempts e + 1"
  using wrap32_succ [OF lived_numbers(2,3) [OF assms(1)] assms(2)] by blast

lemma quiet_move: "quiet x y \<Longrightarrow> lived x \<Longrightarrow> kernel_move (fst x) (fst y)"
proof (induction rule: quiet.induct)
  case (quiet_cancel e as t)
  then show ?case by (auto simp: kernel_move_def lived_def Let_def)
next
  case (quiet_complete e s a as t)
  then show ?case using lived_next_attempt [of e as] by (auto simp: kernel_move_def)
next
  case (quiet_claim e a f as l t)
  then show ?case using lived_next_attempt [of e as] by (auto simp: kernel_move_def)
qed (auto simp: kernel_move_def)

lemma recorded_move: "recorded a b x y \<Longrightarrow> lived x \<Longrightarrow> kernel_move (fst x) (fst y)"
proof (induction rule: recorded.induct)
  case (recordedI e as bs a cs b s d tried real u p t)
  have "in_flight a" using recordedI.hyps(3) by (simp add: in_flight_def)
  with lived_in_flight(1) [OF recordedI.prems] recordedI.hyps(2) have "ea_number a = ef_attempts e" by simp
  with recordedI.hyps(1,7,9) show ?case by (auto simp: kernel_move_def)
qed

text \<open>One step of the system, seen from one effect.\<close>

text \<open>The step in which a worker hands in the answer it got for the effect, and ends.\<close>

definition handed_in :: "int64 \<Rightarrow> system \<Rightarrow> system \<Rightarrow> bool" where
  "handed_in i s s' \<longleftrightarrow>
     (\<exists>ws c v a us. sy_workers s = ws @ Called c v a # us \<and> clm_effect c = i \<and> sy_workers s' = ws @ us)"

lemma step_view:
  assumes "step sink s s'" "system_inv s" "view (sy_store s) i = Some x"
  obtains y where "view (sy_store s') i = Some y" "quiet\<^sup>=\<^sup>= x y \<or> (\<exists>r r'. recorded r r' x y) \<and> handed_in i s s'"
proof -
  note coh = store_invD(1) [OF system_invD(1) [OF assms(2)]]
  from assms(1) show thesis
  proof (cases rule: step.cases)
    case (step_transaction st')
    from evolves_Some [OF transaction_evolves [OF step_transaction(2) coh] assms(3)] step_transaction that show ?thesis by auto
  next
    case (step_claim clk j g k c st')
    from evolves_Some [OF begin_attempt_evolves [OF coh step_claim(2)] assms(3)] step_claim that show ?thesis by auto
  next
    case (step_call ws c us v a)
    with assms(3) that show ?thesis by auto
  next
    case (step_finish ws c v a us clk d st')
    from finish_view [OF assms(2) step_finish(2,3)] obtain x' y r r' where
      f: "view (sy_store s) (clm_effect c) = Some x'" "view st' (clm_effect c) = Some y" "recorded r r' x' y"
      "\<And>j. j \<noteq> clm_effect c \<Longrightarrow> view st' j = view (sy_store s) j" by metis
    show ?thesis
    proof (cases "i = clm_effect c")
      case True
      moreover from this step_finish(1,2) have "handed_in i s s'"
        unfolding handed_in_def by (intro exI [of _ ws] exI [of _ c] exI [of _ v] exI [of _ a] exI [of _ us]) simp
      ultimately show ?thesis using f assms(3) step_finish(1) that [of y] by auto
    next
      case False
      with f(4) assms(3) step_finish(1) that [of x] show ?thesis by simp
    qed
  next
    case (step_lost ws w us)
    with assms(3) that show ?thesis by auto
  qed
qed


section \<open>Stored evidence\<close>

lemma final_failureD:
  assumes "final_failure_without_external_call ref w k st = Inr (p, t)"
  obtains i e where "parse_effect_id ref = Inr i" "effect_of st i = Some e" "ef_state e = StateFinalFailed"
    "\<And>r. r \<in> set (rows st i) \<Longrightarrow> uncalled_failure r"
proof -
  from assms obtain i e where i: "parse_effect_id ref = Inr i" "effect_of st i = Some e" "ef_state e = StateFinalFailed"
    "scan_attempts uncalled_failure 0 (attempts_of st i) \<noteq> None"
    by (auto simp: final_failure_without_external_call_def Let_def split: sum.splits if_splits option.splits)
  then have "list_all uncalled_failure (attempts_of st i)" using scan_attempts_all by blast
  with that i(1-3) show thesis by (auto simp: list_all_iff attempts_of_set)
qed

lemma uncalled_failure_not_in_flight: "uncalled_failure r \<Longrightarrow> \<not> in_flight r"
  by (auto simp: uncalled_failure_def in_flight_def)

lemma no_flight_without_row:
  assumes "system_inv s" "effect_of (sy_store s) i = Some e" "\<And>r. r \<in> set (rows (sy_store s) i) \<Longrightarrow> \<not> in_flight r"
    "w \<in> set (sy_workers s)"
  shows "fst (worker_key w) \<noteq> i"
proof
  assume i: "fst (worker_key w) = i"
  from worker_okE [OF system_invD(2) [OF assms(1,4)]] i obtain e' as r where
    "view (sy_store s) i = Some (e', as)" "r \<in> set as" "in_flight r" by metis
  with assms(3) show False by (auto simp: view_def)
qed

section \<open>An abandoned attempt\<close>

definition takes_all :: "sink \<Rightarrow> bool" where
  "takes_all sink \<longleftrightarrow> (case sink of None \<Rightarrow> True | Some takes \<Rightarrow> (\<forall>c. takes c))"

lemma complete_effect_ok: "takes_all sink \<Longrightarrow> \<exists>st'. complete_effect sink c st = Inr st'"
  by (auto simp: takes_all_def complete_effect_def split: option.splits)

lemma attempted_row_unique:
  assumes "lived (e, rows st i)" "effect_of st i = Some e" "ef_state e = StateAttempted"
  shows "length (filter (attempt_key (ef_id e) (ef_attempts e) (ef_generation e) (ef_fence e)) (eer_attempts st)) = 1"
proof -
  let ?k = "attempt_key (ef_id e) (ef_attempts e) (ef_generation e) (ef_fence e)"
  note i = effect_ofD [OF assms(2)]
  from assms(1,3) have l: "rows st i \<noteq> []" "list_all (repeatable (env_kind (ef_envelope e))) (butlast (rows st i))"
    "ea_state (last (rows st i)) = StateAttempted" "ea_generation (last (rows st i)) = ef_generation e"
    "ea_fence (last (rows st i)) = ef_fence e" by (simp_all add: lived_def Let_def)
  have "filter ?k (eer_attempts st) = filter ?k (rows st i)"
    using i by (auto simp: rows_def attempt_key_def intro!: filter_cong)
  also have "rows st i = butlast (rows st i) @ [last (rows st i)]" using l(1) by simp
  also have "filter ?k \<dots> = [last (rows st i)]"
  proof -
    have "filter ?k (butlast (rows st i)) = []"
      using l(2) by (auto simp: list_all_iff attempt_key_def filter_empty_conv repeatable_def)
    moreover have "ea_effect (last (rows st i)) = i" using last_in_set [OF l(1)] by (simp add: rows_def)
    then have "?k (last (rows st i))"
      using l i lived_last_number [OF assms(1) l(1)] by (simp add: attempt_key_def)
    ultimately show ?thesis by simp
  qed
  finally show ?thesis by simp
qed

lemma recover_abandoned:
  assumes "lived (e, rows st i)" "effect_of st i = Some e" "ef_state e = StateAttempted" "takes_all sink"
    "\<And>l. ef_lease e = Some l \<Longrightarrow> l \<le> app_now clk \<and> l \<le> db_now clk"
  shows "\<exists>st'. recover_attempt sink clk e st = Inr (BeginRecovered, st')
              \<and> effect_of st' i = Some (e\<lparr>ef_state := StateUnknown, ef_updated_at := db_now clk\<rparr>)"
proof -
  let ?e = "e\<lparr>ef_state := StateUnknown, ef_updated_at := db_now clk\<rparr>"
  note i = effect_ofD [OF assms(2)]
  from attempted_row_unique [OF assms(1-3)] obtain st1 where st1: "update_one_attempt
      (attempt_key (ef_id e) (ef_attempts e) (ef_generation e) (ef_fence e))
      (\<lambda>a. a\<lparr>ea_state := StateUnknown, ea_receipt := recovery_digest e, ea_completed_at := Some (db_now clk)\<rparr>)
      EffTransition st = Inr st1" "eer_effects st1 = eer_effects st"
    by (auto simp: update_one_attempt_def)
  have lease: "\<not> (case ef_lease e of None \<Rightarrow> False | Some l \<Rightarrow> app_now clk < l)"
    "\<not> (case ef_lease e of None \<Rightarrow> False | Some l \<Rightarrow> db_now clk < l)"
    using assms(5) by (auto split: option.splits)
  have put: "effect_of (put_effect ?e st1) i = Some ?e"
    using i assms(2) st1(2) by (simp add: effect_of_put) (simp add: effect_of_def)
  let ?c = "completion_of e (ef_attempts e) (ef_generation e) (ef_fence e)
    (local_result StateUnknown (recovery_digest e) (env_kind (ef_envelope e) \<noteq> KindSidebarJSSDKSend))"
  show ?thesis
  proof (cases "projects_stale_attempt (env_kind (ef_envelope e))")
    case True
    from complete_effect_ok [OF assms(4)] obtain st2 where st2: "complete_effect sink ?c (put_effect ?e st1) = Inr st2" by blast
    with effect_of_core [OF complete_effect_core [OF st2]] put True lease st1(1) show ?thesis
      by (simp add: recover_attempt_def)
  next
    case False
    with put lease st1(1) show ?thesis by (simp add: recover_attempt_def)
  qed
qed

end
