(* ===== verification/Effect_Acceptance.thy ===== *)
theory Effect_Acceptance
  imports Effect_Safety
begin

text \<open>
  Acceptance as an idempotent operation: the receipts, jobs and fingerprints of the store.
  Receipts and jobs are only appended, an effect keeps its envelope and fingerprint, and an
  effect's current generation always has its job; so a repeated acceptance finds what the
  first one wrote.
\<close>

section \<open>What every transaction keeps\<close>

definition same_intent :: "effect_row \<Rightarrow> effect_row \<Rightarrow> bool" where
  "same_intent e e' \<longleftrightarrow> ef_id e' = ef_id e \<and> ef_envelope e' = ef_envelope e \<and> ef_fingerprint e' = ef_fingerprint e"

definition is_accept :: "op_receipt \<Rightarrow> bool" where
  "is_accept r \<longleftrightarrow> or_operation r = OpAccept"

definition keeps :: "eer \<Rightarrow> eer \<Rightarrow> bool" where
  "keeps st st' \<longleftrightarrow> eer_next_effect st' = eer_next_effect st
     \<and> (\<exists>rs. eer_receipts st' = eer_receipts st @ rs \<and> list_all (\<lambda>r. \<not> is_accept r \<and> effect_of st (or_effect r) \<noteq> None) rs)
     \<and> (\<exists>js. eer_jobs st' = eer_jobs st @ js)
     \<and> (\<forall>i. case effect_of st i of None \<Rightarrow> effect_of st' i = None
          | Some e \<Rightarrow> (\<exists>e'. effect_of st' i = Some e' \<and> same_intent e e'
               \<and> (ef_generation e' = ef_generation e \<or> job_of st' i (ef_generation e') \<noteq> None)))"

lemma keeps_refl [simp]: "keeps st st"
  by (auto simp: keeps_def same_intent_def split: option.split)

lemma find_append_Some: "find p xs = Some x \<Longrightarrow> find p (xs @ ys) = Some x"
  by (induction xs) (auto split: if_splits)

lemma job_of_append: "eer_jobs st' = eer_jobs st @ js \<Longrightarrow> job_of st i g = Some j \<Longrightarrow> job_of st' i g = Some j"
  by (simp add: job_of_def find_append_Some)

lemma keepsE:
  assumes "keeps st st'" "effect_of st i = Some e"
  obtains e' where "effect_of st' i = Some e'" "same_intent e e'"
    "ef_generation e' = ef_generation e \<or> job_of st' i (ef_generation e') \<noteq> None"
  using assms by (auto simp: keeps_def dest!: spec [of _ i])

lemma keeps_None: "keeps st st' \<Longrightarrow> effect_of st' i = None \<longleftrightarrow> effect_of st i = None"
  by (auto simp: keeps_def dest!: spec [of _ i] split: option.splits)

lemma keeps_trans:
  assumes "keeps st st1" "keeps st1 st2" shows "keeps st st2"
proof -
  from assms obtain rs rs' js js' where r: "eer_receipts st1 = eer_receipts st @ rs" "eer_receipts st2 = eer_receipts st1 @ rs'"
    "list_all (\<lambda>r. \<not> is_accept r \<and> effect_of st (or_effect r) \<noteq> None) rs"
    "list_all (\<lambda>r. \<not> is_accept r \<and> effect_of st1 (or_effect r) \<noteq> None) rs'"
    and j: "eer_jobs st1 = eer_jobs st @ js" "eer_jobs st2 = eer_jobs st1 @ js'"
    and n: "eer_next_effect st2 = eer_next_effect st"
    by (auto simp: keeps_def)
  have "case effect_of st i of None \<Rightarrow> effect_of st2 i = None
      | Some e \<Rightarrow> (\<exists>e'. effect_of st2 i = Some e' \<and> same_intent e e'
           \<and> (ef_generation e' = ef_generation e \<or> job_of st2 i (ef_generation e') \<noteq> None))" for i
  proof (cases "effect_of st i")
    case (Some e)
    from keepsE [OF assms(1) Some] obtain e1 where e1: "effect_of st1 i = Some e1" "same_intent e e1"
      "ef_generation e1 = ef_generation e \<or> job_of st1 i (ef_generation e1) \<noteq> None" .
    from keepsE [OF assms(2) e1(1)] obtain e2 where e2: "effect_of st2 i = Some e2" "same_intent e1 e2"
      "ef_generation e2 = ef_generation e1 \<or> job_of st2 i (ef_generation e2) \<noteq> None" .
    from e1(3) e2(3) job_of_append [OF j(2)] have "ef_generation e2 = ef_generation e \<or> job_of st2 i (ef_generation e2) \<noteq> None"
      by (metis option.exhaust_sel option.discI)
    with Some e1(2) e2(1,2) show ?thesis by (auto simp: same_intent_def)
  qed (use keeps_None [OF assms(1)] keeps_None [OF assms(2)] in simp)
  moreover have "list_all (\<lambda>r. \<not> is_accept r \<and> effect_of st (or_effect r) \<noteq> None) (rs @ rs')"
    using r(3,4) keeps_None [OF assms(1)] by (auto simp: list_all_iff)
  ultimately show ?thesis using r j n by (auto simp: keeps_def)
qed

text \<open>The primitive writes.\<close>

lemma keeps_same:
  assumes "eer_effects st' = eer_effects st" "eer_next_effect st' = eer_next_effect st"
    "eer_receipts st' = eer_receipts st @ rs" "list_all (\<lambda>r. \<not> is_accept r \<and> effect_of st (or_effect r) \<noteq> None) rs"
    "eer_jobs st' = eer_jobs st @ js"
  shows "keeps st st'"
proof -
  have "effect_of st' = effect_of st" using assms(1) by (simp add: effect_of_def fun_eq_iff)
  with assms show ?thesis by (auto simp: keeps_def same_intent_def split: option.split)
qed

lemma keeps_complete: "complete_effect sink c st = Inr st' \<Longrightarrow> keeps st st'"
  by (rule keeps_same [where rs = "[]" and js = "[]"]) (auto simp: complete_effect_def split: option.splits if_splits)

lemma keeps_receipt:
  assumes "insert_receipt op i k d a y s t st = Inr (r, st')" "op \<noteq> OpAccept" "effect_of st i \<noteq> None"
  shows "keeps st st'"
  by (rule keeps_same [where rs = "[r]" and js = "[]"])
    (use assms in \<open>auto simp: insert_receipt_def is_accept_def Let_def split: if_splits\<close>)

lemma keeps_job: "insert_job i g q t st = Inr (j, st') \<Longrightarrow> keeps st st'"
  by (rule keeps_same [where rs = "[]" and js = "drop (length (eer_jobs st)) (eer_jobs st')"])
    (auto simp: insert_job_def split: if_splits)

lemma keeps_attempts: "eer_attempts st' = as \<Longrightarrow> st' = st\<lparr>eer_attempts := as\<rparr> \<Longrightarrow> keeps st st'"
  by (rule keeps_same [where rs = "[]" and js = "[]"]) simp_all

lemma keeps_insert_attempt: "insert_attempt a st = Inr st' \<Longrightarrow> keeps st st'"
  by (rule keeps_same [where rs = "[]" and js = "[]"]) (auto simp: insert_attempt_def split: if_splits)

lemma keeps_update_attempt: "update_one_attempt p f err st = Inr st' \<Longrightarrow> keeps st st'"
  by (rule keeps_same [where rs = "[]" and js = "[]"]) (auto simp: update_one_attempt_def split: if_splits)

lemma keeps_put:
  assumes "effect_of st (ef_id e') = Some e" "same_intent e e'"
    "ef_generation e' = ef_generation e \<or> job_of st (ef_id e') (ef_generation e') \<noteq> None"
  shows "keeps st (put_effect e' st)"
proof -
  have "job_of (put_effect e' st) i g = job_of st i g" for i g by (simp add: job_of_def put_effect_def)
  moreover have "eer_receipts (put_effect e' st) = eer_receipts st" "eer_jobs (put_effect e' st) = eer_jobs st"
    "eer_next_effect (put_effect e' st) = eer_next_effect st" by (simp_all add: put_effect_def)
  ultimately show ?thesis using assms
    by (auto simp: keeps_def effect_of_put same_intent_def split: option.split)
qed


lemma keeps_advance:
  assumes "effect_of st i = Some e" "eer_effects st' = eer_effects st" "keeps st st'"
  shows "keeps st (put_effect (e\<lparr>ef_state := s, ef_updated_at := t\<rparr>) st')"
proof -
  from assms(1,2) have "effect_of st' (ef_id e) = Some e" using effect_ofD [OF assms(1)] by (simp add: effect_of_def)
  then show ?thesis
    by (intro keeps_trans [OF assms(3)] keeps_put [where e = e]) (simp_all add: same_intent_def)
qed

lemma effect_of_put_Some: "effect_of st i = Some e \<Longrightarrow> ef_id e' = i \<Longrightarrow> effect_of (put_effect e' st) i \<noteq> None"
  by (simp add: effect_of_put)

lemma effects_update_attempt: "update_one_attempt p f err st = Inr st' \<Longrightarrow> eer_effects st' = eer_effects st"
  by (auto simp: update_one_attempt_def split: if_splits)

lemma effects_insert_attempt: "insert_attempt a st = Inr st' \<Longrightarrow> eer_effects st' = eer_effects st"
  by (auto simp: insert_attempt_def split: if_splits)

section \<open>The transactions keep it\<close>

lemma cancel_keeps:
  assumes "cancel_queued clk c st = Inr (p, st')" shows "keeps st st'"
proof -
  from cancel_queuedD [OF assms] obtain i e where e: "effect_of st i = Some e"
    and s: "st' = st \<or> ef_state e = StateQueued \<and> cancel_write clk c e st = Inr (p, st')" .
  note i = effect_ofD [OF e]
  let ?e = "e\<lparr>ef_state := StateCancelled, ef_updated_at := db_now clk\<rparr>"
  show ?thesis
  proof (cases "st' = st")
    case False
    with s have "cancel_write clk c e st = Inr (p, st')" by simp
    then obtain r where r: "insert_receipt OpCancel (ef_id e) (cn_receipt_key c) (cancel_digest c)
        (if ca_admin_user_id (cn_actor c) = 0 then None else Some (ca_admin_user_id (cn_actor c)))
        (ca_system_ref (cn_actor c)) StateCancelled (db_now clk) (put_effect ?e st) = Inr (r, st')"
      by (auto simp: cancel_write_def Let_def and_then_eq_Inr)
    have "keeps st (put_effect ?e st)" by (rule keeps_advance [OF e refl keeps_refl])
    moreover have "keeps (put_effect ?e st) st'"
      using keeps_receipt [OF r] i effect_of_put_Some [OF e, of ?e] by simp
    ultimately show ?thesis by (rule keeps_trans)
  qed simp
qed

lemma complete_client_keeps:
  assumes "complete_client clk c st = Inr (p, st')" shows "keeps st st'"
proof -
  from complete_clientD [OF assms] obtain i e where e: "effect_of st i = Some e"
    and s: "st' = st \<or> complete_write clk c e st = Inr (p, st')" by metis
  note i = effect_ofD [OF e]
  let ?a = "client_attempt clk c e"
  let ?e = "(e\<lparr>ef_attempts := ea_number ?a\<rparr>)\<lparr>ef_state := cl_state c, ef_updated_at := db_now clk\<rparr>"
  have e': "?e = e\<lparr>ef_state := cl_state c, ef_attempts := ea_number ?a, ef_updated_at := db_now clk\<rparr>" by simp
  show ?thesis
  proof (cases "st' = st")
    case False
    with s have "complete_write clk c e st = Inr (p, st')" by simp
    then obtain st1 r where w: "insert_attempt ?a st = Inr st1"
      "insert_receipt OpComplete (ef_id e) (cl_receipt_key c) (client_digest c) None [] (cl_state c) (db_now clk) (put_effect ?e st1)
         = Inr (r, st')"
      unfolding complete_write_def Let_def e' [symmetric] by (auto simp: and_then_eq_Inr)
    from effects_insert_attempt [OF w(1)] e have e1: "effect_of st1 i = Some e" by (simp add: effect_of_def)
    have "keeps st1 (put_effect ?e st1)" using e1 i by (intro keeps_put [where e = e]) (simp_all add: same_intent_def)
    with keeps_insert_attempt [OF w(1)] have "keeps st (put_effect ?e st1)" by (rule keeps_trans)
    moreover have "keeps (put_effect ?e st1) st'"
      using keeps_receipt [OF w(2)] i effect_of_put_Some [OF e1, of ?e] by simp
    ultimately show ?thesis by (rule keeps_trans)
  qed simp
qed

lemma insert_job_of: "insert_job i g q t st = Inr (j, st') \<Longrightarrow> job_of st' i g \<noteq> None"
  by (auto simp: insert_job_def job_of_def find_snoc split: if_splits option.splits)

lemma retry_rows_keeps:
  assumes "retry_rows clk e g st = Inr st'"
  shows "keeps st st'" "effect_of st' = effect_of st" "job_of st' (ef_id e) g \<noteq> None"
proof -
  from assms obtain j where j: "insert_job (ef_id e) g (effect_queue (env_kind (ef_envelope e)) (ef_lane e)) (db_now clk) st = Inr (j, st')"
    by (auto simp: retry_rows_def map_sum_def split: sum.splits)
  then show "keeps st st'" "effect_of st' = effect_of st" "job_of st' (ef_id e) g \<noteq> None"
    by (auto intro: keeps_job simp: effect_of_core [OF insert_job_core] dest: insert_job_of)
qed

lemma reconcile_rows_keeps:
  assumes "reconcile_rows clk e c st = Inr st'" shows "keeps st st'" "effect_of st' = effect_of st"
  using assms keeps_update_attempt effects_update_attempt
  by (auto simp: reconcile_rows_def effect_of_def fun_eq_iff split: if_splits)

lemma control_tail_keeps:
  assumes "and_then (insert_receipt op i k d a y s t st) (\<lambda>(r, st3). and_then (if b then complete_effect sink (f r) st3 else Inr st3)
             (\<lambda>st4. Inr (q r, g r, st4))) = Inr (p, rc, st')" "op \<noteq> OpAccept" "effect_of st i \<noteq> None"
  shows "keeps st st'"
proof -
  from assms(1) obtain r st3 where "insert_receipt op i k d a y s t st = Inr (r, st3)"
    "st' = st3 \<or> complete_effect sink (f r) st3 = Inr st'"
    by (auto simp: and_then_eq_Inr split: if_splits)
  with keeps_receipt assms(2,3) keeps_complete keeps_trans show ?thesis by metis
qed

lemma control_write_keeps:
  assumes "control_write sink clk op c e s st = Inr (p, r, st')" "effect_of st (ef_id e) = Some e" "op \<noteq> OpAccept"
  shows "keeps st st'"
proof -
  let ?g = "if op = OpRetry then wrap64 (ef_generation e + 1) else ef_generation e"
  let ?e = "e\<lparr>ef_state := s, ef_generation := ?g, ef_updated_at := db_now clk\<rparr>"
  from assms(1) obtain st1 st2 where w: "(if op = OpRetry then retry_rows clk e ?g st else Inr st) = Inr st1"
    "(if op = OpReconcile then reconcile_rows clk e c st1 else Inr st1) = Inr st2"
    and t: "and_then (insert_receipt op (ef_id e) (cc_receipt_key c) (control_digest c (op_text op)) (Some (cc_actor c)) [] s (db_now clk)
                     (put_effect ?e st2)) (\<lambda>(r, st3).
         and_then (if projects_control (env_kind (ef_envelope e)) (ef_lane e)
                   then complete_effect sink (completion_of e (ef_attempts e) ?g (ef_fence e)
                          (control_completion e c s (control_digest c (op_text op)))) st3
                   else Inr st3) (\<lambda>st4.
         Inr (projection_of ?e,
              \<lparr>rc_id = receipt_ref (or_id r), rc_effect_id = cc_effect_id c, rc_digest = control_digest c (op_text op),
               rc_admin = Some (cc_actor c), rc_state = s, rc_completed_at = or_completed_at r,
               rc_queue_receipt_id = []\<rparr>, st4))) = Inr (p, r, st')"
    unfolding control_write_def Let_def and_then_eq_Inr [of "if op = OpRetry then _ else _"]
      and_then_eq_Inr [of "if op = OpReconcile then _ else _"] by blast
  from w(1) have k1: "keeps st st1" "effect_of st1 = effect_of st" "op = OpRetry \<longrightarrow> job_of st1 (ef_id e) ?g \<noteq> None"
    using retry_rows_keeps [of clk e ?g st st1] by (auto split: if_splits)
  from w(2) have k2: "keeps st1 st2" "effect_of st2 = effect_of st1" "op = OpRetry \<longrightarrow> st2 = st1"
    using reconcile_rows_keeps [of clk e c st1 st2] by (auto split: if_splits)
  from k1 k2 assms(2) have e2: "effect_of st2 (ef_id e) = Some e" by simp
  have "keeps st2 (put_effect ?e st2)"
    using e2 k1(3) k2(3) by (intro keeps_put [where e = e]) (auto simp: same_intent_def)
  then have "keeps st (put_effect ?e st2)" using k1(1) k2(1) keeps_trans by blast
  moreover have "keeps (put_effect ?e st2) st'"
    using control_tail_keeps [OF t assms(3)] effect_of_put_Some [OF e2, of ?e] by simp
  ultimately show ?thesis by (rule keeps_trans)
qed

lemma control_keeps:
  assumes "control_within sink clk op c st = Inr (p, r, st')" shows "keeps st st'"
proof -
  from control_withinD [OF assms] obtain i e s where e: "effect_of st i = Some e"
    and w: "st' = st \<or> control_target op (ef_state e) = Inr s \<and> control_write sink clk op c e s st = Inr (p, r, st')" by metis
  show ?thesis
  proof (cases "st' = st")
    case False
    with w have t: "control_target op (ef_state e) = Inr s" "control_write sink clk op c e s st = Inr (p, r, st')" by auto
    from t(1) have "op \<noteq> OpAccept" by (auto simp: control_target_def)
    with control_write_keeps [OF t(2)] e effect_ofD [OF e] show ?thesis by simp
  qed simp
qed


lemma reconcile_unknown_keeps: "reconcile_unknown sink clk k st = Inr (p, r, st') \<Longrightarrow> keeps st st'"
  by (auto simp: reconcile_unknown_def and_then_eq_Inr dest: control_keeps split: if_splits option.splits)

lemma reconcile_effect_keeps: "reconcile_effect sink clk k st = Inr (p, r, st') \<Longrightarrow> keeps st st'"
  by (auto simp: reconcile_effect_def dest: control_keeps split: sum.splits effect_error.splits)

lemma tag_retry_keeps:
  assumes "retry_tag_catalog_mutation sink clk c st = Inr (p, st')" shows "keeps st st'"
proof -
  from tag_retryD [OF assms] obtain i e st0 r where e: "effect_of st i = Some e"
    and s: "st0 = st \<or> st0 = put_effect (e\<lparr>ef_state := StateRetryable\<rparr>) st"
    and c: "control_within sink clk OpRetry (tag_retry_control c) st0 = Inr (p, r, st')" by metis
  have "keeps st (put_effect (e\<lparr>ef_state := StateRetryable\<rparr>) st)"
    using e effect_ofD [OF e] by (intro keeps_put [where e = e]) (simp_all add: same_intent_def)
  with s control_keeps [OF c] keeps_trans show ?thesis by auto
qed

lemma recover_attempt_keeps:
  assumes "recover_attempt sink clk e st = Inr (b, st')" "effect_of st i = Some e" shows "keeps st st'"
proof (cases "st' = st")
  case False
  let ?e = "e\<lparr>ef_state := StateUnknown, ef_updated_at := db_now clk\<rparr>"
  from assms(1) False obtain st1 where u: "update_one_attempt (attempt_key (ef_id e) (ef_attempts e) (ef_generation e) (ef_fence e))
           (\<lambda>a. a\<lparr>ea_state := StateUnknown, ea_receipt := recovery_digest e, ea_completed_at := Some (db_now clk)\<rparr>)
           EffTransition st = Inr st1" "st' = put_effect ?e st1 \<or> (\<exists>c. complete_effect sink c (put_effect ?e st1) = Inr st')"
    by (auto simp: recover_attempt_def and_then_eq_Inr split: if_splits)
  from keeps_advance [OF assms(2) effects_update_attempt [OF u(1)] keeps_update_attempt [OF u(1)]]
  have "keeps st (put_effect ?e st1)" .
  with u(2) keeps_complete keeps_trans show ?thesis by blast
qed simp

lemma claim_attempt_keeps:
  assumes "claim_attempt clk e q st = Inr (b, st')" "effect_of st i = Some e" shows "keeps st st'"
proof -
  let ?e = "e\<lparr>ef_state := StateAttempted, ef_attempts := wrap32 (ef_attempts e + 1), ef_fence := wrap64 (ef_fence e + 1),
     ef_lease := Some (db_now clk + 5 * minute), ef_updated_at := db_now clk\<rparr>"
  from assms(1) obtain a where a: "insert_attempt a (put_effect ?e st) = Inr st'"
    by (auto simp: claim_attempt_def Let_def and_then_eq_Inr split: if_splits)
  have "keeps st (put_effect ?e st)"
    using assms(2) effect_ofD [OF assms(2)] by (intro keeps_put [where e = e]) (simp_all add: same_intent_def)
  with keeps_insert_attempt [OF a] show ?thesis by (rule keeps_trans [rotated])
qed

lemma begin_attempt_keeps:
  assumes "begin_attempt sink clk i g j st = Inr (b, st')" shows "keeps st st'"
proof -
  from assms have "st' = st \<or> (\<exists>e q. effect_of st i = Some e
      \<and> (recover_attempt sink clk e st = Inr (b, st') \<or> claim_attempt clk e q st = Inr (b, st')))"
    by (auto simp: begin_attempt_def split: if_splits option.splits)
  with recover_attempt_keeps claim_attempt_keeps show ?thesis by auto
qed

lemma finish_attempt_keeps:
  assumes "finish_attempt sink clk c v answer st = Inr (w, st')" shows "keeps st st'"
proof -
  from assms obtain f e st1 r p where u: "update_one_attempt (attempt_key (clm_effect c) (clm_number c) (clm_generation c) (clm_fence c))
       f EffTransition st = Inr st1" and e: "effect_of st1 (clm_effect c) = Some e"
    and w: "finish_write sink clk c v r p e st1 = Inr st'"
    by (auto simp: finish_attempt_def Let_def and_then_eq_Inr split: prod.splits if_split_asm option.split_asm)
  have "keeps st1 (put_effect (e\<lparr>ef_state := p, ef_updated_at := db_now clk\<rparr>) st1)"
    by (rule keeps_advance [OF e refl keeps_refl])
  moreover from w have "keeps (put_effect (e\<lparr>ef_state := p, ef_updated_at := db_now clk\<rparr>) st1) st'"
    by (auto simp: finish_write_def Let_def dest: keeps_complete split: if_splits)
  ultimately show ?thesis using keeps_update_attempt [OF u] keeps_trans by blast
qed

lemma transaction_keeps:
  "transaction sink st st' \<Longrightarrow> keeps st st' \<or> (\<exists>clk c p r. accept_and_queue clk c st = Inr (p, r, st'))"
  by (induction rule: transaction.induct)
    (auto intro: cancel_keeps complete_client_keeps control_keeps reconcile_unknown_keeps
      reconcile_effect_keeps tag_retry_keeps begin_attempt_keeps)

lemma step_keeps:
  assumes "step sink s s'"
  shows "keeps (sy_store s) (sy_store s')
    \<or> (\<exists>clk c p r. accept_and_queue clk c (sy_store s) = Inr (p, r, sy_store s'))"
  using assms
  by (cases rule: step.cases) (auto dest: transaction_keeps begin_attempt_keeps finish_attempt_keeps)


section \<open>The books of a reachable system\<close>

definition queue_receipt :: "op_receipt list \<Rightarrow> int64 \<Rightarrow> op_receipt option" where
  "queue_receipt rs i = find (\<lambda>q. or_operation q = OpQueue \<and> or_effect q = i) rs"

definition books :: "eer \<Rightarrow> bool" where
  "books st \<longleftrightarrow> coherent st
     \<and> (\<forall>i e. effect_of st i = Some e \<longrightarrow> job_of st i (ef_generation e) \<noteq> None \<and> queue_receipt (eer_receipts st) i \<noteq> None)
     \<and> list_all (\<lambda>r. effect_of st (or_effect r) \<noteq> None) (eer_receipts st)
     \<and> distinct (map or_key (filter is_accept (eer_receipts st)))
     \<and> (\<forall>i j e f. effect_of st i = Some e \<longrightarrow> effect_of st j = Some f \<longrightarrow> ef_fingerprint e = ef_fingerprint f \<longrightarrow> i = j)"

lemma booksD:
  assumes "books st"
  shows "coherent st" "effect_of st i = Some e \<Longrightarrow> job_of st i (ef_generation e) \<noteq> None"
    "effect_of st i = Some e \<Longrightarrow> queue_receipt (eer_receipts st) i \<noteq> None"
    "r \<in> set (eer_receipts st) \<Longrightarrow> effect_of st (or_effect r) \<noteq> None"
    "distinct (map or_key (filter is_accept (eer_receipts st)))"
    "effect_of st i = Some e \<Longrightarrow> effect_of st j = Some f \<Longrightarrow> ef_fingerprint e = ef_fingerprint f \<Longrightarrow> i = j"
  using assms unfolding books_def list_all_iff by blast+

lemma queue_receipt_append: "queue_receipt rs i = Some q \<Longrightarrow> queue_receipt (rs @ rs') i = Some q"
  by (simp add: queue_receipt_def find_append_Some)

lemma keeps_books:
  assumes "books st" "keeps st st'" "coherent st'" shows "books st'"
proof -
  note b = booksD [OF assms(1)]
  from assms(2) obtain rs js where k: "eer_receipts st' = eer_receipts st @ rs"
    "list_all (\<lambda>r. \<not> is_accept r \<and> effect_of st (or_effect r) \<noteq> None) rs" "eer_jobs st' = eer_jobs st @ js"
    by (auto simp: keeps_def)
  have old: "\<exists>e. effect_of st i = Some e \<and> same_intent e e' \<and> (ef_generation e' = ef_generation e \<or> job_of st' i (ef_generation e') \<noteq> None)"
    if "effect_of st' i = Some e'" for i e'
    using that keeps_None [OF assms(2), of i] keepsE [OF assms(2), of i] by (metis option.exhaust option.inject option.distinct(1))
  have "job_of st' i (ef_generation e') \<noteq> None \<and> queue_receipt (eer_receipts st') i \<noteq> None" if e': "effect_of st' i = Some e'" for i e'
  proof -
    from old [OF e'] obtain e where e: "effect_of st i = Some e"
      "ef_generation e' = ef_generation e \<or> job_of st' i (ef_generation e') \<noteq> None" by blast
    from b(2) [OF e(1)] job_of_append [OF k(3)] e(2) have "job_of st' i (ef_generation e') \<noteq> None" by auto
    moreover from b(3) [OF e(1)] queue_receipt_append k(1) have "queue_receipt (eer_receipts st') i \<noteq> None" by auto
    ultimately show ?thesis by blast
  qed
  moreover have "filter is_accept rs = []" using k(2) by (auto simp: list_all_iff filter_empty_conv)
  then have "distinct (map or_key (filter is_accept (eer_receipts st')))" using b(5) k(1) by simp
  moreover have "list_all (\<lambda>r. effect_of st' (or_effect r) \<noteq> None) (eer_receipts st')"
    using k(1,2) b(4) keeps_None [OF assms(2)] by (auto simp: list_all_iff)
  moreover have "i = j" if "effect_of st' i = Some e" "effect_of st' j = Some f" "ef_fingerprint e = ef_fingerprint f" for i j e f
    using old [OF that(1)] old [OF that(2)] that(3) b(6) by (auto simp: same_intent_def)
  ultimately show ?thesis using assms(3) unfolding books_def by blast
qed

text \<open>The records of an acceptance, and the reply they give.\<close>

definition accept_reply :: "op_receipt \<Rightarrow> op_receipt \<Rightarrow> receipt" where
  "accept_reply r q = \<lparr>rc_id = receipt_ref (or_id r), rc_effect_id = effect_id (or_effect r), rc_digest = or_digest r,
     rc_admin = None, rc_state = or_state r, rc_completed_at = or_completed_at r, rc_queue_receipt_id = receipt_ref (or_id q)\<rparr>"

definition accepted_as :: "eer \<Rightarrow> accept_command \<Rightarrow> int64 \<Rightarrow> receipt \<Rightarrow> bool" where
  "accepted_as st c i rc \<longleftrightarrow> (\<exists>r q. r \<in> set (eer_receipts st) \<and> is_accept r \<and> or_key r = ac_receipt_key c
     \<and> or_digest r = accept_digest c \<and> or_effect r = i \<and> queue_receipt (eer_receipts st) i = Some q \<and> rc = accept_reply r q)"

lemma accepted_as_append:
  "accepted_as st c i rc \<Longrightarrow> eer_receipts st' = eer_receipts st @ rs \<Longrightarrow> accepted_as st' c i rc"
  using queue_receipt_append by (fastforce simp: accepted_as_def)

lemma accepted_replyD:
  assumes "accepted_reply st e r = Inr (p, rc, st')" "or_effect r = ef_id e"
  obtains q where "st' = st" "queue_receipt (eer_receipts st) (ef_id e) = Some q" "rc = accept_reply r q" "pj_id p = effect_id (ef_id e)"
  using assms by (auto simp: accepted_reply_def queue_receipt_def accept_reply_def projection_of_def split: option.splits)


lemma insert_receiptD:
  assumes "insert_receipt op i k d a y s t st = Inr (r, st')"
  shows "or_operation r = op" "or_effect r = i" "or_key r = k" "or_digest r = d" "or_state r = s"
    "eer_receipts st' = eer_receipts st @ [r]" "eer_jobs st' = eer_jobs st"
    "op = OpAccept \<Longrightarrow> k \<notin> or_key ` set (filter is_accept (eer_receipts st))"
  using assms by (auto simp: insert_receipt_def is_accept_def list_ex_iff Let_def split: if_splits)

lemma insert_jobD:
  assumes "insert_job i g q t st = Inr (j, st')"
  shows "eer_receipts st' = eer_receipts st" "\<exists>x. eer_jobs st' = eer_jobs st @ [x] \<and> jb_effect x = i \<and> jb_generation x = g"
  using assms by (auto simp: insert_job_def split: if_splits)

text \<open>What an acceptance that found nothing writes.\<close>

lemma accept_newD:
  assumes "coherent st" "accept_new clk c st = Inr (p, rc, st')"
  obtains r q e x where "eer_receipts st' = eer_receipts st @ [r, q]" "eer_jobs st' = eer_jobs st @ [x]"
    "eer_effects st' = eer_effects st @ [e]"
    "is_accept r" "or_key r = ac_receipt_key c" "or_digest r = accept_digest c" "or_effect r = eer_next_effect st"
    "ac_receipt_key c \<notin> or_key ` set (filter is_accept (eer_receipts st))"
    "or_operation q = OpQueue" "or_effect q = eer_next_effect st" "rc = accept_reply r q" "pj_id p = effect_id (eer_next_effect st)"
    "ef_id e = eer_next_effect st" "ef_generation e = 1" "ef_fingerprint e = fingerprint (ac_envelope c)"
    "jb_effect x = eer_next_effect st" "jb_generation x = 1"
proof -
  let ?e = "new_effect c (db_now clk) st"
  let ?q = "?e\<lparr>ef_state := StateQueued, ef_updated_at := db_now clk\<rparr>"
  from assms(2) obtain st1 st2 st3 r job qr qt qk qd where s:
    "insert_effect ?e st = Inr st1"
    "insert_receipt OpAccept (ef_id ?e) (ac_receipt_key c) (accept_digest c) None [] StateAccepted (db_now clk) st1 = Inr (r, st2)"
    "insert_job (ef_id ?e) 1 (effect_queue (env_kind (ac_envelope c)) (ac_lane c)) qt st2 = Inr (job, st3)"
    "insert_receipt OpQueue (ef_id ?e) qk qd None [] StateQueued (db_now clk) (put_effect ?q st3) = Inr (qr, st')"
    and p: "pj_id p = effect_id (ef_id ?e)"
    and rc: "rc = \<lparr>rc_id = receipt_ref (or_id r), rc_effect_id = effect_id (ef_id ?e), rc_digest = accept_digest c, rc_admin = None,
               rc_state = StateAccepted, rc_completed_at = or_completed_at r, rc_queue_receipt_id = receipt_ref (or_id qr)\<rparr>"
    unfolding accept_new_def Let_def by (force simp: and_then_eq_Inr projection_of_def)
  have id: "ef_id ?e = eer_next_effect st" by (simp add: new_effect_def)
  note r = insert_receiptD [OF s(2)] and j = insert_jobD [OF s(3)] and q = insert_receiptD [OF s(4)]
  have "eer_receipts st1 = eer_receipts st" "eer_jobs st1 = eer_jobs st"
    using s(1) by (auto simp: insert_effect_def Let_def split: if_splits)
  moreover have "eer_receipts (put_effect ?q st3) = eer_receipts st3" "eer_jobs (put_effect ?q st3) = eer_jobs st3"
    by (simp_all add: put_effect_def)
  ultimately have rs: "eer_receipts st' = eer_receipts st @ [r, qr]" and js: "eer_jobs st' = eer_jobs st3" "eer_jobs st2 = eer_jobs st"
    and fresh: "ac_receipt_key c \<notin> or_key ` set (filter is_accept (eer_receipts st))"
    using r(6-8) j(1) q(6,7) by simp_all
  have "eer_effects st3 = eer_effects st @ [?e]" using s(1)
    insert_effect_core [OF s(1)] insert_receipt_core [OF s(2)] insert_job_core [OF s(3)] by (simp add: core_def)
  moreover have "eer_effects st' = eer_effects (put_effect ?q st3)" using insert_receipt_core [OF s(4)] by (simp add: core_def put_effect_def)
  ultimately have "eer_effects st' = map (\<lambda>r. if ef_id r = ef_id ?q then ?q else r) (eer_effects st @ [?e])"
    by (simp add: put_effect_def)
  also have "\<dots> = eer_effects st @ [?q]"
    using assms(1) id by (auto simp: coherent_def list_all_iff intro!: map_idI)
  finally have es: "eer_effects st' = eer_effects st @ [?q]" .
  from j(2) js obtain x where x: "eer_jobs st' = eer_jobs st @ [x]" "jb_effect x = ef_id ?e" "jb_generation x = 1" by auto
  have st: "or_state r = StateAccepted" by (rule r(5))
  show thesis
    by (rule that [OF rs x(1) es]) (use r q x id fresh p rc in \<open>simp_all add: is_accept_def accept_reply_def new_effect_def\<close>)
qed

lemma accept_new_books:
  assumes "books st" "accept_new clk c st = Inr (p, rc, st')" "coherent st'"
    "find (\<lambda>e. ef_fingerprint e = fingerprint (ac_envelope c)) (eer_effects st) = None"
  shows "books st' \<and> accepted_as st' c (eer_next_effect st) rc \<and> (\<exists>rs. eer_receipts st' = eer_receipts st @ rs)"
proof -
  note b = booksD [OF assms(1)]
  let ?n = "eer_next_effect st"
  from accept_newD [OF b(1) assms(2)] obtain r q e x where a: "eer_receipts st' = eer_receipts st @ [r, q]"
    "eer_jobs st' = eer_jobs st @ [x]" "eer_effects st' = eer_effects st @ [e]"
    "is_accept r" "or_key r = ac_receipt_key c" "or_digest r = accept_digest c" "or_effect r = ?n"
    "ac_receipt_key c \<notin> or_key ` set (filter is_accept (eer_receipts st))"
    "or_operation q = OpQueue" "or_effect q = ?n" "rc = accept_reply r q" "pj_id p = effect_id ?n"
    "ef_id e = ?n" "ef_generation e = 1" "ef_fingerprint e = fingerprint (ac_envelope c)" "jb_effect x = ?n" "jb_generation x = 1" .
  have none: "effect_of st ?n = None" using b(1) by (auto simp: coherent_def effect_of_def find_None_iff list_all_iff)
  have look: "effect_of st' i = (if i = ?n then Some e else effect_of st i)" for i
    using a(3,13) none by (auto simp: effect_of_def find_snoc split: option.splits)
  have fresh: "queue_receipt (eer_receipts st) ?n = None"
    using b(4) none by (force simp: queue_receipt_def find_None_iff)
  have q: "queue_receipt (eer_receipts st') ?n = Some q"
    using fresh a(1,4,9,10) find_snoc [of _ "eer_receipts st @ [r]" q] find_snoc [of _ "eer_receipts st" r]
    by (auto simp: queue_receipt_def is_accept_def)
  have job: "job_of st' ?n 1 \<noteq> None" using a(2,16,17) by (auto simp: job_of_def find_snoc split: option.splits)
  have "job_of st' i (ef_generation f) \<noteq> None \<and> queue_receipt (eer_receipts st') i \<noteq> None" if f: "effect_of st' i = Some f" for i f
  proof (cases "i = ?n")
    case True
    with f look job q a(14) show ?thesis by auto
  next
    case False
    with f look have "effect_of st i = Some f" by simp
    with b(2,3) job_of_append [OF a(2)] queue_receipt_append a(1) show ?thesis by (metis option.exhaust option.distinct(1))
  qed
  moreover have "list_all (\<lambda>r. effect_of st' (or_effect r) \<noteq> None) (eer_receipts st')"
    using b(4) a(1,7,10) look by (auto simp: list_all_iff)
  moreover have "distinct (map or_key (filter is_accept (eer_receipts st')))"
    using b(5) a(1,4,5,8,9) by (simp add: is_accept_def)
  moreover have "i = j" if "effect_of st' i = Some f" "effect_of st' j = Some g" "ef_fingerprint f = ef_fingerprint g" for i j f g
  proof -
    have new: "ef_fingerprint h \<noteq> ef_fingerprint e" if "effect_of st k = Some h" for h k
      using that effect_ofD [OF that] assms(4) a(15) by (auto simp: find_None_iff)
    show ?thesis using that look new b(6) by (metis option.inject)
  qed
  ultimately have "books st'" using assms(3) unfolding books_def by blast
  moreover have "accepted_as st' c ?n rc" unfolding accepted_as_def
    using a q by (intro exI [of _ r] exI [of _ q]) simp
  ultimately show ?thesis using a(1) by blast
qed

text \<open>An acceptance either writes a new effect or replies from the books.\<close>

lemma accept_cases:
  assumes "books st" "accept_and_queue clk c st = Inr (p, rc, st')"
  shows "books st' \<and> (\<exists>i. accepted_as st' c i rc \<and> pj_id p = effect_id i) \<and> (\<exists>rs. eer_receipts st' = eer_receipts st @ rs)"
proof -
  have coh: "coherent st'" using accept_evolves [OF booksD(1) [OF assms(1)] assms(2)] by (simp add: evolves_def)
  have reply: ?thesis if e: "effect_of st i = Some e \<or> e \<in> set (eer_effects st)" "r \<in> set (eer_receipts st)" "is_accept r"
      "or_key r = ac_receipt_key c" "or_digest r = accept_digest c" "or_effect r = ef_id e" "accepted_reply st e r = Inr (p, rc, st')"
    for i e r
  proof -
    from accepted_replyD [OF e(7,6)] obtain q where "st' = st" "queue_receipt (eer_receipts st) (ef_id e) = Some q"
      "rc = accept_reply r q" "pj_id p = effect_id (ef_id e)" .
    with e assms(1) show ?thesis by (auto simp: accepted_as_def)
  qed
  show ?thesis
  proof (cases "find (\<lambda>r. or_operation r = OpAccept \<and> or_key r = ac_receipt_key c \<and> effect_of st (or_effect r) \<noteq> None) (eer_receipts st)")
    case (Some r)
    from find_Some_pred [OF Some]
    have r: "r \<in> set (eer_receipts st)" "is_accept r" "or_key r = ac_receipt_key c" "effect_of st (or_effect r) \<noteq> None"
      by (simp_all add: is_accept_def)
    then obtain e where e: "effect_of st (or_effect r) = Some e" by blast
    from assms(2) have "or_digest r = accept_digest c" "accepted_reply st e r = Inr (p, rc, st')"
      unfolding accept_and_queue_def Some option.case e by (simp_all split: if_split_asm)
    then show ?thesis using e effect_ofD [OF e] r by (intro reply [of "or_effect r" e r]) auto
  next
    case none: None
    show ?thesis
    proof (cases "find (\<lambda>e. ef_fingerprint e = fingerprint (ac_envelope c)) (eer_effects st)")
      case None
      from assms(2) have n: "accept_new clk c st = Inr (p, rc, st')"
        unfolding accept_and_queue_def none None option.case by (simp split: if_split_asm)
      from accept_new_books [OF assms(1) n coh None] accept_newD [OF booksD(1) [OF assms(1)] n] show ?thesis by metis
    next
      case (Some e)
      from assms(2) obtain r where r: "receipt_of st OpAccept (ef_id e) (ac_receipt_key c) = Some r"
        "or_digest r = accept_digest c" "accepted_reply st e r = Inr (p, rc, st')"
        unfolding accept_and_queue_def none Some option.case by (auto split: if_split_asm option.split_asm)
      from r(1) have "r \<in> set (eer_receipts st)" "is_accept r" "or_key r = ac_receipt_key c" "or_effect r = ef_id e"
        using find_Some_pred [OF r(1) [unfolded receipt_of_def]] by (simp_all add: is_accept_def)
      then show ?thesis using r(2,3) find_Some_pred [OF Some] by (intro reply [of 0 e r]) auto
    qed
  qed
qed


section \<open>Replays and drift\<close>

lemma accept_found:
  assumes "books st" "r \<in> set (eer_receipts st)" "is_accept r" "or_key r = ac_receipt_key c"
  shows "find (\<lambda>r. or_operation r = OpAccept \<and> or_key r = ac_receipt_key c \<and> effect_of st (or_effect r) \<noteq> None) (eer_receipts st) = Some r"
proof -
  let ?p = "\<lambda>r. or_operation r = OpAccept \<and> or_key r = ac_receipt_key c \<and> effect_of st (or_effect r) \<noteq> None"
  from booksD(4) [OF assms(1,2)] assms(3,4) have "?p r" by (auto simp: is_accept_def)
  with assms(2) obtain q where q: "find ?p (eer_receipts st) = Some q" by (cases "find ?p (eer_receipts st)") (auto simp: find_None_iff)
  from find_Some_pred [OF q] have "q \<in> set (filter is_accept (eer_receipts st))" "or_key q = or_key r"
    using assms(4) by (auto simp: is_accept_def)
  moreover have "r \<in> set (filter is_accept (eer_receipts st))" using assms(2,3) by simp
  ultimately have "q = r" using booksD(5) [OF assms(1)] by (auto simp: distinct_map dest: inj_onD)
  with q show ?thesis by simp
qed

lemma accept_replay:
  assumes "books st" "valid_accept c" "accepted_as st c i rc"
  shows "\<exists>p. accept_and_queue clk c st = Inr (p, rc, st) \<and> pj_id p = effect_id i"
proof -
  from assms(3) obtain r q where r: "r \<in> set (eer_receipts st)" "is_accept r" "or_key r = ac_receipt_key c"
    "or_digest r = accept_digest c" "or_effect r = i" "queue_receipt (eer_receipts st) i = Some q" "rc = accept_reply r q"
    by (auto simp: accepted_as_def)
  from booksD(4) [OF assms(1) r(1)] r(5) obtain e where e: "effect_of st i = Some e" by blast
  note id = effect_ofD [OF e]
  from booksD(2) [OF assms(1) e] obtain j where j: "job_of st i (ef_generation e) = Some j" by blast
  have q: "find (\<lambda>q. or_operation q = OpQueue \<and> or_effect q = ef_id e) (eer_receipts st) = Some q"
    using r(6) id by (simp add: queue_receipt_def)
  have "accepted_reply st e r = Inr ((projection_of e)\<lparr>pj_queue_job := jb_river_id j\<rparr>, rc, st)"
    unfolding accepted_reply_def q using id j r(5,7) by (simp add: accept_reply_def)
  then have "accept_and_queue clk c st = Inr ((projection_of e)\<lparr>pj_queue_job := jb_river_id j\<rparr>, rc, st)"
    unfolding accept_and_queue_def accept_found [OF assms(1) r(1-3)] option.case r(5) e using assms(2) r(4) by simp
  then show ?thesis using id by (simp add: projection_of_def)
qed

lemma accept_drift:
  assumes "books st" "valid_accept c" "r \<in> set (eer_receipts st)" "is_accept r" "or_key r = ac_receipt_key c"
    "or_digest r \<noteq> accept_digest c"
  shows "accept_and_queue clk c st = Inl EffPayloadMismatch"
proof -
  from booksD(4) [OF assms(1,3)] obtain e where e: "effect_of st (or_effect r) = Some e" by blast
  show ?thesis
    unfolding accept_and_queue_def accept_found [OF assms(1,3-5)] option.case e using assms(2,6) by simp
qed

lemma boot_books: "books (sy_store boot)"
  by (simp add: books_def boot_def coherent_def effect_of_def)

lemma step_books:
  assumes "step sink s s'" "system_inv s" "books (sy_store s)"
  shows "books (sy_store s') \<and> (\<exists>rs. eer_receipts (sy_store s') = eer_receipts (sy_store s) @ rs)"
proof -
  have coh: "coherent (sy_store s')"
    using store_invD(1) [OF system_invD(1) [OF step_inv [OF assms(1,2)]]] .
  from step_keeps [OF assms(1)] show ?thesis
  proof (elim disjE exE)
    assume k: "keeps (sy_store s) (sy_store s')"
    with keeps_books [OF assms(3) k coh] show ?thesis by (auto simp: keeps_def)
  next
    fix clk c p r assume "accept_and_queue clk c (sy_store s) = Inr (p, r, sy_store s')"
    from accept_cases [OF assms(3) this] show ?thesis by simp
  qed
qed

lemma steps_books:
  assumes "(step sink)\<^sup>*\<^sup>* s s'" "system_inv s" "books (sy_store s)"
  shows "system_inv s' \<and> books (sy_store s') \<and> (\<exists>rs. eer_receipts (sy_store s') = eer_receipts (sy_store s) @ rs)"
  using assms(1)
proof (induction rule: rtranclp_induct)
  case base
  show ?case using assms by simp
next
  case (step s1 s2)
  then have s1: "system_inv s1" "books (sy_store s1)" by auto
  from step_books [OF step.hyps(2) s1] step_inv [OF step.hyps(2) s1(1)] step.IH show ?case by auto
qed

lemma reachable_books: "reachable sink s \<Longrightarrow> books (sy_store s)"
  unfolding reachable_def using steps_books boot_inv boot_books by blast

end
