(* ===== verification/Effect_Properties.thy ===== *)
theory Effect_Properties
  imports Effect_Acceptance
begin

text \<open>
  The properties of the external-effect kernel over every reachable system, and a concrete
  run for their witnesses: a message on the spreadsheet lane is accepted, its first attempt
  is rejected by the provider before any call, retried automatically, and executed.
\<close>

section \<open>A run\<close>

definition at_time :: "time \<Rightarrow> clocks" where "at_time t = \<lparr>db_now = t, app_now = t\<rparr>"

definition demo_envelope :: envelope where
  "demo_envelope = \<lparr>env_owner = OwnerOutbound, env_kind = KindOutboundMessage, env_source = hash_parts [''source''],
     env_target = hash_parts [''target''], env_payload = hash_parts [''payload''], env_policy = hash_parts [''policy'']\<rparr>"

definition demo_command :: accept_command where
  "demo_command = \<lparr>ac_receipt_key = hash_parts [''key''], ac_envelope = demo_envelope, ac_lane = LaneOutboundExcel,
     ac_scheduled_at = 0\<rparr>"

definition demo_effect :: "state \<Rightarrow> int32 \<Rightarrow> time option \<Rightarrow> time \<Rightarrow> effect_row" where
  "demo_effect s n lease t = \<lparr>ef_id = 1, ef_envelope = demo_envelope, ef_fingerprint = fingerprint demo_envelope,
     ef_lane = LaneOutboundExcel, ef_state = s, ef_attempts = n, ef_generation = 1, ef_fence = n, ef_lease = lease,
     ef_updated_at = t\<rparr>"

definition demo_store :: "effect_row \<Rightarrow> attempt_row list \<Rightarrow> op_receipt list \<Rightarrow> eer" where
  "demo_store e as rs = \<lparr>eer_effects = [e], eer_attempts = as, eer_receipts = rs,
     eer_jobs = [\<lparr>jb_effect = 1, jb_generation = 1, jb_river_id = 1, jb_queue = OutboundExcelQueue, jb_scheduled_at = 100\<rparr>],
     eer_next_effect = 2, eer_next_receipt = 3, eer_next_job = 2, eer_completions = []\<rparr>"

definition demo_claim :: "int32 \<Rightarrow> claim" where
  "demo_claim n = \<lparr>clm_effect = 1, clm_generation = 1, clm_number = n, clm_fence = n, clm_queue = OutboundExcelQueue\<rparr>"

definition busy_answer :: provider_answer where
  "busy_answer = Answered \<lparr>ar_completion = StateRetryable, ar_receipt = hash_parts [''busy''], ar_failure_code = [],
     ar_call_attempted = False, ar_real_call = False, ar_safe_to_retry_rejected = False, ar_artifact = no_artifact\<rparr>"

definition sent_answer :: provider_answer where
  "sent_answer = Answered \<lparr>ar_completion = StateExecuted, ar_receipt = hash_parts [''sent''], ar_failure_code = [],
     ar_call_attempted = True, ar_real_call = True, ar_safe_to_retry_rejected = False, ar_artifact = no_artifact\<rparr>"

lemma is_lower_hex_digit: "n < 16 \<Longrightarrow> is_lower_hex (hex_digit n)"
  by (auto simp: is_lower_hex_def hex_digit_def byte_def Let_def take_bit_eq_mod)

lemma hex_encode_lower: "list_all is_lower_hex (hex_encode s)"
proof -
  have "is_lower_hex (hex_digit (byte c div 16))" "is_lower_hex (hex_digit (byte c mod 16))" for c
    using byte_less [of c] by (auto intro!: is_lower_hex_digit simp: less_mult_imp_div_less)
  then show ?thesis by (induction s) (auto simp: hex_encode_def)
qed

lemma pg_digest_hash [simp]: "pg_digest (hash_parts ps)"
proof -
  have "drop 7 (hash_parts ps) = hex_encode (sha256 (join_nul ps))" by (simp add: hash_parts_def)
  then show ?thesis by (simp add: pg_digest_def hex_encode_lower)
qed

lemma valid_demo: "valid_accept demo_command" "valid_envelope demo_envelope"
  by (simp_all add: valid_accept_def valid_envelope_def kind_owned_def outbound_kinds_def demo_command_def demo_envelope_def)

lemma demo_accepted:
  "\<exists>p r rs. accept_and_queue (at_time 100) demo_command (sy_store boot) = Inr (p, r, demo_store (demo_effect StateQueued 0 None 100) [] rs)"
  using valid_demo
  by (simp add: accept_and_queue_def boot_def accept_new_def Let_def new_effect_def insert_effect_def insert_receipt_def
      insert_job_def job_of_def put_effect_def demo_store_def demo_effect_def at_time_def effect_queue_def is_zero_def
      fingerprint_def accept_digest_def demo_command_def demo_envelope_def)

lemmas demo_defs = demo_store_def demo_effect_def demo_claim_def at_time_def demo_envelope_def

abbreviation demo_row :: "int32 \<Rightarrow> attempt_row" where "demo_row n \<equiv> claim_row (demo_claim n)"

definition busy_row :: attempt_row where
  "busy_row = recorded_row (demo_row 1) StateRetryable (hash_parts [''busy'']) busy_answer 300"

definition sent_row :: attempt_row where
  "sent_row = recorded_row (demo_row 2) StateExecuted (hash_parts [''sent'']) sent_answer 500"

lemma demo_claims:
  "begin_attempt sink (at_time 200) 1 1 1 (demo_store (demo_effect StateQueued 0 None 100) [] rs)
     = Inr (BeginClaimed (demo_claim 1), demo_store (demo_effect StateAttempted 1 (Some 300000000200) 200) [demo_row 1] rs)"
  "begin_attempt sink (at_time 400) 1 1 1 (demo_store (demo_effect StateQueued 1 (Some 300000000200) 300) [busy_row] rs)
     = Inr (BeginClaimed (demo_claim 2), demo_store (demo_effect StateAttempted 2 (Some 300000000400) 400) [busy_row, demo_row 2] rs)"
  by (simp_all add: begin_attempt_def claim_attempt_def effect_of_def job_of_def put_effect_def insert_attempt_def claim_row_def
      demo_defs wrap32_id wrap64_id is_int32_def is_int64_def minute_def nanoseconds_per_second_def busy_row_def recorded_row_def Let_def)

lemma demo_envelope_read:
  "claimed_envelope (demo_claim n) (demo_store (demo_effect s m l t) as rs) = Some demo_envelope"
  by (simp add: claimed_envelope_def effect_of_def demo_defs)

lemma demo_outcomes:
  "attempt_outcome sink (demo_claim n) KindOutboundMessage busy_answer = (StateRetryable, hash_parts [''busy''])"
  "attempt_outcome sink (demo_claim n) KindOutboundMessage sent_answer = (StateExecuted, hash_parts [''sent''])"
  by (simp_all add: attempt_outcome_def provider_outcome_def busy_answer_def sent_answer_def artifact_kinds_def)

lemma demo_finishes:
  "\<exists>d. finish_attempt None (at_time 300) (demo_claim 1) demo_envelope busy_answer
         (demo_store (demo_effect StateAttempted 1 (Some 300000000200) 200) [demo_row 1] rs)
     = Inr (d, demo_store (demo_effect StateQueued 1 (Some 300000000200) 300) [busy_row] rs)"
  "\<exists>d. finish_attempt None (at_time 500) (demo_claim 2) demo_envelope sent_answer
         (demo_store (demo_effect StateAttempted 2 (Some 300000000400) 400) [busy_row, demo_row 2] rs)
     = Inr (d, demo_store (demo_effect StateExecuted 2 (Some 300000000400) 500) [busy_row, sent_row] rs)"
proof -
  have k: "env_kind demo_envelope = KindOutboundMessage" by (simp add: demo_envelope_def)
  show "\<exists>d. finish_attempt None (at_time 300) (demo_claim 1) demo_envelope busy_answer
         (demo_store (demo_effect StateAttempted 1 (Some 300000000200) 200) [demo_row 1] rs)
     = Inr (d, demo_store (demo_effect StateQueued 1 (Some 300000000200) 300) [busy_row] rs)"
    unfolding finish_attempt_def k demo_outcomes prod.case Let_def
    by (simp add: auto_retry_def retry_lane_def update_one_attempt_def attempt_key_def
        effect_of_def finish_write_def should_complete_def completion_kinds_def complete_effect_def put_effect_def
        demo_defs busy_row_def recorded_row_def claim_row_def busy_answer_def)
  show "\<exists>d. finish_attempt None (at_time 500) (demo_claim 2) demo_envelope sent_answer
         (demo_store (demo_effect StateAttempted 2 (Some 300000000400) 400) [busy_row, demo_row 2] rs)
     = Inr (d, demo_store (demo_effect StateExecuted 2 (Some 300000000400) 500) [busy_row, sent_row] rs)"
    unfolding finish_attempt_def k demo_outcomes prod.case Let_def
    by (simp add: auto_retry_def update_one_attempt_def attempt_key_def
        effect_of_def finish_write_def should_complete_def completion_kinds_def complete_effect_def put_effect_def
        demo_defs busy_row_def sent_row_def recorded_row_def claim_row_def busy_answer_def sent_answer_def)
qed


definition demo_answers :: "call list" where
  "demo_answers = [(1, 1, busy_answer), (1, 2, sent_answer)]"

text \<open>The states of the run: accepted, running for the first time, queued again, executed.\<close>

definition demo_system :: "effect_row \<Rightarrow> attempt_row list \<Rightarrow> op_receipt list \<Rightarrow> worker list \<Rightarrow> call list \<Rightarrow> system" where
  "demo_system e as rs ws cs = \<lparr>sy_store = demo_store e as rs, sy_workers = ws, sy_calls = cs\<rparr>"

definition demo_run :: "op_receipt list \<Rightarrow> bool" where
  "demo_run rs \<longleftrightarrow>
     (\<exists>p r. accept_and_queue (at_time 100) demo_command (sy_store boot) = Inr (p, r, demo_store (demo_effect StateQueued 0 None 100) [] rs))"

lemma demo_reaches:
  assumes "demo_run rs"
  shows "reachable None (demo_system (demo_effect StateQueued 0 None 100) [] rs [] [])"
    "step None (demo_system (demo_effect StateAttempted 1 (Some 300000000200) 200) [demo_row 1] rs
                  [Called (demo_claim 1) demo_envelope busy_answer] [(1, 1, busy_answer)])
               (demo_system (demo_effect StateQueued 1 (Some 300000000200) 300) [busy_row] rs [] [(1, 1, busy_answer)])"
    "reachable None (demo_system (demo_effect StateAttempted 1 (Some 300000000200) 200) [demo_row 1] rs
                  [Called (demo_claim 1) demo_envelope busy_answer] [(1, 1, busy_answer)])"
    "reachable None (demo_system (demo_effect StateExecuted 2 (Some 300000000400) 500) [busy_row, sent_row] rs [] demo_answers)"
proof -
  let ?e0 = "demo_effect StateQueued 0 None 100" and ?e1 = "demo_effect StateAttempted 1 (Some 300000000200) 200"
    and ?e2 = "demo_effect StateQueued 1 (Some 300000000200) 300" and ?e3 = "demo_effect StateAttempted 2 (Some 300000000400) 400"
    and ?e4 = "demo_effect StateExecuted 2 (Some 300000000400) 500"
  let ?c1 = "Called (demo_claim 1) demo_envelope busy_answer" and ?c2 = "Called (demo_claim 2) demo_envelope sent_answer"
  let ?l1 = "[(1, 1, busy_answer)] :: call list"
  note sys = demo_system_def
  have key: "clm_effect (demo_claim n) = 1" "clm_number (demo_claim n) = n" for n by (simp_all add: demo_claim_def)
  from assms have "transaction None (sy_store boot) (demo_store ?e0 [] rs)"
    unfolding demo_run_def by (auto intro: tx_accept)
  from step_transaction [OF this] have s0: "step None boot (demo_system ?e0 [] rs [] [])" by (simp add: boot_def sys)
  have s1: "step None (demo_system ?e0 [] rs [] []) (demo_system ?e1 [demo_row 1] rs [Claimed (demo_claim 1)] [])"
    using step_claim [of None "at_time 200" 1 1 1 "demo_system ?e0 [] rs [] []"] demo_claims(1) by (simp add: sys)
  have s2: "step None (demo_system ?e1 [demo_row 1] rs [Claimed (demo_claim 1)] []) (demo_system ?e1 [demo_row 1] rs [?c1] ?l1)"
    using step_call [of "demo_system ?e1 [demo_row 1] rs [Claimed (demo_claim 1)] []" "[]" "demo_claim 1" "[]" demo_envelope None busy_answer]
    by (simp add: sys demo_envelope_read key)
  obtain d1 where d1: "finish_attempt None (at_time 300) (demo_claim 1) demo_envelope busy_answer (demo_store ?e1 [demo_row 1] rs)
      = Inr (d1, demo_store ?e2 [busy_row] rs)" using demo_finishes(1) by blast
  show s3: "step None (demo_system ?e1 [demo_row 1] rs [?c1] ?l1) (demo_system ?e2 [busy_row] rs [] ?l1)"
    using step_finish [of "demo_system ?e1 [demo_row 1] rs [?c1] ?l1" "[]" "demo_claim 1" demo_envelope busy_answer "[]" None "at_time 300"] d1
    by (simp add: sys)
  have s4: "step None (demo_system ?e2 [busy_row] rs [] ?l1) (demo_system ?e3 [busy_row, demo_row 2] rs [Claimed (demo_claim 2)] ?l1)"
    using step_claim [of None "at_time 400" 1 1 1 "demo_system ?e2 [busy_row] rs [] ?l1"] demo_claims(2) by (simp add: sys)
  have s5: "step None (demo_system ?e3 [busy_row, demo_row 2] rs [Claimed (demo_claim 2)] ?l1)
      (demo_system ?e3 [busy_row, demo_row 2] rs [?c2] demo_answers)"
    using step_call [of "demo_system ?e3 [busy_row, demo_row 2] rs [Claimed (demo_claim 2)] ?l1" "[]" "demo_claim 2" "[]" demo_envelope None sent_answer]
    by (simp add: sys demo_envelope_read key demo_answers_def)
  obtain d2 where d2: "finish_attempt None (at_time 500) (demo_claim 2) demo_envelope sent_answer (demo_store ?e3 [busy_row, demo_row 2] rs)
      = Inr (d2, demo_store ?e4 [busy_row, sent_row] rs)" using demo_finishes(2) by blast
  have s6: "step None (demo_system ?e3 [busy_row, demo_row 2] rs [?c2] demo_answers) (demo_system ?e4 [busy_row, sent_row] rs [] demo_answers)"
    using step_finish [of "demo_system ?e3 [busy_row, demo_row 2] rs [?c2] demo_answers" "[]" "demo_claim 2" demo_envelope sent_answer "[]" None "at_time 500"] d2
    by (simp add: sys)
  show r0: "reachable None (demo_system ?e0 [] rs [] [])" unfolding reachable_def using s0 by (rule r_into_rtranclp)
  show r2: "reachable None (demo_system ?e1 [demo_row 1] rs [?c1] ?l1)"
    using r0 s1 s2 unfolding reachable_def by (meson rtranclp.rtrancl_into_rtrancl)
  show "reachable None (demo_system ?e4 [busy_row, sent_row] rs [] demo_answers)"
    using r2 s3 s4 s5 s6 unfolding reachable_def by (meson rtranclp.rtrancl_into_rtrancl)
qed

lemma demo_exists: obtains rs where "demo_run rs"
  using demo_accepted unfolding demo_run_def by blast


lemma finish_recording:
  assumes "finish_attempt sink clk c v a st = Inr (d, st')" "attempt_outcome sink c (env_kind v) a = (s, r)"
  shows "d \<noteq> None \<longleftrightarrow> auto_retry c (env_kind v) a s"
    "\<exists>st1 e. eer_effects st1 = eer_effects st \<and> effect_of st1 (clm_effect c) = Some e \<and> ef_state e = StateAttempted
       \<and> core st' = core (put_effect (advanced e (if d = None then s else StateQueued) (db_now clk)) st1)"
proof -
  let ?p = "if auto_retry c (env_kind v) a s then StateQueued else s"
  from assms show d: "d \<noteq> None \<longleftrightarrow> auto_retry c (env_kind v) a s"
    by (auto simp: finish_attempt_def Let_def and_then_eq_Inr split: if_split_asm option.split_asm)
  from assms obtain K F st1 e where u: "update_one_attempt K F EffTransition st = Inr st1"
    and w: "effect_of st1 (clm_effect c) = Some e" "ef_state e = StateAttempted"
      "finish_write sink clk c v (reported_result a ?p r) ?p e st1 = Inr st'"
    by (auto simp: finish_attempt_def Let_def and_then_eq_Inr split: if_split_asm option.split_asm)
  have same: "eer_effects st1 = eer_effects st" using u by (auto simp: update_one_attempt_def split: if_splits)
  have "core st' = core (put_effect (advanced e ?p (db_now clk)) st1)"
    using w(3) unfolding finish_write_def Let_def advanced_def [symmetric]
    by (auto simp del: core_put dest!: complete_effect_core split: if_split_asm)
  moreover have "?p = (if d = None then s else StateQueued)" using d by auto
  ultimately show "\<exists>st1 e. eer_effects st1 = eer_effects st \<and> effect_of st1 (clm_effect c) = Some e \<and> ef_state e = StateAttempted
       \<and> core st' = core (put_effect (advanced e (if d = None then s else StateQueued) (db_now clk)) st1)" using w(1,2) same by auto
qed

section \<open>Properties\<close>

text \<open>
  C2: However transactions, workers, lease expiries, recoveries, retries and lost workers
  interleave, the provider is called for an effect in the order of its attempt numbers, each
  number at most once, and again only when every earlier answer said that nothing was
  executed; if an earlier call was even attempted, the effect is a message or an upload on a
  lane whose provider rejects safely, or a tag-catalogue mutation.
\<close>

theorem no_call_after_execution:
  assumes "reachable sink s" "sy_calls s = before @ (i, n, a) # later" "(i, m, b) \<in> set later"
  shows "n < m \<and> \<not> ar_real_call (answer_result a)
    \<and> (called a \<longrightarrow> (\<exists>e. effect_of (sy_store s) i = Some e \<and> env_kind (ef_envelope e) \<in> recalled_kinds))"
  using earlier_call [OF reachable_inv [OF assms(1)] assms(2,3)] by blast

theorem no_call_after_execution_witness:
  "\<exists>s. reachable None s \<and> sy_calls s = [(1, 1, busy_answer), (1, 2, sent_answer)]
     \<and> ar_real_call (answer_result sent_answer) \<and> \<not> ar_real_call (answer_result busy_answer)"
proof -
  obtain rs where "demo_run rs" by (rule demo_exists)
  note r = demo_reaches(4) [OF this]
  have calls: "sy_calls (demo_system e as rs ws demo_answers) = [] @ (1, 1, busy_answer) # [(1, 2, sent_answer)]" for e as ws
    by (simp add: demo_system_def demo_answers_def)
  from no_call_after_execution [OF r calls, of 2 sent_answer] r calls show ?thesis
    by (auto simp: sent_answer_def)
qed

text \<open>
  C6: An executed, reconciled or cancelled effect is settled for good: whatever happens next,
  its row and all its attempts stay as they are; and after an execution or a cancellation
  the provider is never called for it again.
\<close>

theorem settled_effect_frozen:
  assumes "reachable sink s" "(step sink)\<^sup>*\<^sup>* s s'" "effect_of (sy_store s) i = Some e"
    "ef_state e \<in> {StateExecuted, StateReconciled, StateCancelled}"
  shows "effect_of (sy_store s') i = Some e \<and> rows (sy_store s') i = rows (sy_store s) i
    \<and> (ef_state e \<noteq> StateReconciled \<longrightarrow> calls_of s' i = calls_of s i)"
proof -
  have "view (sy_store s) i = Some (e, rows (sy_store s) i)" using assms(3) by (simp add: view_def)
  from steps_settled [OF assms(2) reachable_inv [OF assms(1)] this] assms(4) show ?thesis
    by (auto simp: settled_def view_def)
qed

theorem settled_effect_frozen_witness:
  "\<exists>s e. reachable None s \<and> effect_of (sy_store s) 1 = Some e \<and> ef_state e = StateExecuted
     \<and> (\<forall>s'. (step None)\<^sup>*\<^sup>* s s' \<longrightarrow> effect_of (sy_store s') 1 = Some e)"
proof -
  obtain rs where rs: "demo_run rs" by (rule demo_exists)
  let ?e = "demo_effect StateExecuted 2 (Some 300000000400) 500"
  let ?s = "demo_system ?e [busy_row, sent_row] rs [] demo_answers"
  note r = demo_reaches(4) [OF rs]
  have e: "effect_of (sy_store ?s) 1 = Some ?e" by (simp add: effect_of_def demo_system_def demo_store_def demo_effect_def)
  have x: "ef_state ?e = StateExecuted" by (simp add: demo_effect_def)
  from r e x settled_effect_frozen [OF r _ e] show ?thesis by blast
qed

text \<open>
  C16: One step of the system, whichever, moves an effect along a fixed table. Its intent never
  changes. A queued effect is cancelled, or claimed with the next attempt number, or, only when it is
  a send of the sidebar, gets the outcome a client reports as that attempt; an attempted one
  gets an outcome, or is queued again if it is of a kind that is retried automatically and this is
  one of its first four attempts; an unknown outcome is only ever reconciled; a retryable effect, and a final
  failure only of a tag-catalogue mutation, is queued under the next generation; all others
  stay as they are. Other than to an unknown outcome, an attempted effect moves only when a worker hands in
  the answer it got for it.
\<close>

theorem kernel_transitions:
  assumes "reachable sink s" "step sink s s'" "effect_of (sy_store s) i = Some e"
  shows "\<exists>e'. effect_of (sy_store s') i = Some e' \<and> (e' = e \<or> kernel_move e e')
     \<and> (ef_state e = StateAttempted \<longrightarrow> ef_state e' = StateAttempted \<or> ef_state e' = StateUnknown \<or> handed_in i s s')"
proof -
  note inv = reachable_inv [OF assms(1)]
  have v: "view (sy_store s) i = Some (e, rows (sy_store s) i)" using assms(3) by (simp add: view_def)
  note l = store_invD(2) [OF system_invD(1) [OF inv] v]
  from step_view [OF assms(2) inv v] obtain y where y: "view (sy_store s') i = Some y"
    "quiet\<^sup>=\<^sup>= (e, rows (sy_store s) i) y \<or> (\<exists>r r'. recorded r r' (e, rows (sy_store s) i) y) \<and> handed_in i s s'" .
  then have "fst y = e \<or> kernel_move e (fst y)"
    using quiet_move [OF _ l, of y] recorded_move [OF _ l, of _ _ y] by auto
  moreover have "ef_state (fst y) = StateUnknown" if "quiet (e, rows (sy_store s) i) y" "ef_state e = StateAttempted"
    using that by (auto elim!: quietE)
  ultimately show ?thesis using y by (auto simp: view_def)
qed

theorem kernel_transitions_witness:
  "\<exists>s s' e e'. reachable None s \<and> step None s s' \<and> effect_of (sy_store s) 1 = Some e \<and> effect_of (sy_store s') 1 = Some e'
     \<and> ef_state e = StateAttempted \<and> ef_state e' = StateQueued \<and> kernel_move e e' \<and> handed_in 1 s s'"
proof -
  obtain rs where rs: "demo_run rs" by (rule demo_exists)
  let ?e = "demo_effect StateAttempted 1 (Some 300000000200) 200" and ?e' = "demo_effect StateQueued 1 (Some 300000000200) 300"
  let ?s = "demo_system ?e [demo_row 1] rs [Called (demo_claim 1) demo_envelope busy_answer] [(1, 1, busy_answer)]"
  let ?s' = "demo_system ?e' [busy_row] rs [] [(1, 1, busy_answer)]"
  have e: "effect_of (sy_store ?s) 1 = Some ?e" "effect_of (sy_store ?s') 1 = Some ?e'"
    by (simp_all add: effect_of_def demo_system_def demo_store_def demo_effect_def)
  have x: "ef_state ?e = StateAttempted" "ef_state ?e' = StateQueued" "?e' \<noteq> ?e" by (simp_all add: demo_effect_def)
  from kernel_transitions [OF demo_reaches(3) [OF rs] demo_reaches(2) [OF rs] e(1)] e(2) x
  have "kernel_move ?e ?e' \<and> handed_in 1 ?s ?s'" by auto
  with demo_reaches(2,3) [OF rs] e x(1,2) show ?thesis by blast
qed

text \<open>
  C40: The published transition table leaves out the automatic retry, and nothing else of the
  recording of an answer. Whenever the answer of a claim is recorded, whatever it is, the effect
  was attempted; it gets the outcome of the answer, which the table admits, unless the attempt is
  to be retried automatically; then, and only then, the job is given a delay and the effect goes
  from attempted back to queued, which the table forbids.
\<close>

theorem transition_table_incomplete:
  assumes "finish_attempt sink clk c v a st = Inr (d, st')"
  shows "\<exists>e e'. effect_of st (clm_effect c) = Some e \<and> effect_of st' (clm_effect c) = Some e' \<and> ef_state e = StateAttempted
     \<and> ef_state e' = (if d = None then fst (attempt_outcome sink c (env_kind v) a) else StateQueued)
     \<and> (d \<noteq> None \<longleftrightarrow> auto_retry c (env_kind v) a (fst (attempt_outcome sink c (env_kind v) a)))
     \<and> (can_transition (ef_state e) (ef_state e') \<longleftrightarrow> d = None)"
proof -
  obtain s r where o: "attempt_outcome sink c (env_kind v) a = (s, r)" by fastforce
  note f = finish_recording [OF assms o]
  from f(2) obtain st1 e where st1: "eer_effects st1 = eer_effects st" "effect_of st1 (clm_effect c) = Some e" "ef_state e = StateAttempted"
    "core st' = core (put_effect (advanced e (if d = None then s else StateQueued) (db_now clk)) st1)" by blast
  have "effect_of st (clm_effect c) = Some e" using st1(1,2) by (simp add: effect_of_def)
  moreover have "effect_of st' (clm_effect c) = Some (advanced e (if d = None then s else StateQueued) (db_now clk))"
    using effect_of_core [OF st1(4)] st1(2) effect_ofD [OF st1(2)] by (simp add: effect_of_put)
  moreover have "can_transition StateAttempted (if d = None then s else StateQueued) \<longleftrightarrow> d = None"
    using attempt_outcome_cases(1) [OF o] by auto
  ultimately show ?thesis using st1(3) f(1) o by auto
qed

theorem transition_table_incomplete_witness:
  "\<exists>d st' e'. finish_attempt None (at_time 300) (demo_claim 1) demo_envelope busy_answer
       (demo_store (demo_effect StateAttempted 1 (Some 300000000200) 200) [demo_row 1] []) = Inr (d, st')
     \<and> d \<noteq> None \<and> effect_of st' 1 = Some e' \<and> \<not> can_transition StateAttempted (ef_state e')"
proof -
  obtain d where d: "finish_attempt None (at_time 300) (demo_claim 1) demo_envelope busy_answer
      (demo_store (demo_effect StateAttempted 1 (Some 300000000200) 200) [demo_row 1] [])
     = Inr (d, demo_store (demo_effect StateQueued 1 (Some 300000000200) 300) [busy_row] [])" using demo_finishes(1) by blast
  have "clm_effect (demo_claim 1) = 1" by (simp add: demo_claim_def)
  with transition_table_incomplete [OF d] d show ?thesis by (fastforce simp: effect_of_def demo_store_def demo_effect_def)
qed


text \<open>
  C5: Acceptance is idempotent for the life of the system: once a command has been accepted,
  the same command is answered, in every later state, with the same receipt and the same
  effect, and changes nothing; a command with that receipt key and another content is always
  refused as a mismatch.
\<close>

theorem accept_idempotent:
  assumes "reachable sink s" "accept_and_queue clk c (sy_store s) = Inr (p, rc, st)"
    "(step sink)\<^sup>*\<^sup>* (s\<lparr>sy_store := st\<rparr>) s'"
  shows "(\<exists>p'. accept_and_queue clk' c (sy_store s') = Inr (p', rc, sy_store s') \<and> pj_id p' = pj_id p)
    \<and> (\<forall>d. valid_accept d \<and> ac_receipt_key d = ac_receipt_key c \<and> accept_digest d \<noteq> accept_digest c
           \<longrightarrow> accept_and_queue clk' d (sy_store s') = Inl EffPayloadMismatch)"
proof -
  note inv = reachable_inv [OF assms(1)] and b = reachable_books [OF assms(1)]
  from assms(2) have v: "valid_accept c" by (auto simp: accept_and_queue_def split: if_splits)
  have si: "system_inv (s\<lparr>sy_store := st\<rparr>)" by (rule transaction_inv [OF inv]) (rule tx_accept [OF assms(2)])
  from accept_cases [OF b assms(2)] obtain i where st: "books st" "accepted_as st c i rc" "pj_id p = effect_id i" by blast
  from steps_books [OF assms(3) si] st(1) obtain rs where s': "books (sy_store s')"
    "eer_receipts (sy_store s') = eer_receipts st @ rs" by auto
  note a = accepted_as_append [OF st(2) s'(2)]
  from a obtain r where r: "r \<in> set (eer_receipts (sy_store s'))" "is_accept r" "or_key r = ac_receipt_key c"
    "or_digest r = accept_digest c" by (auto simp: accepted_as_def)
  have "accept_and_queue clk' d (sy_store s') = Inl EffPayloadMismatch"
    if "valid_accept d" "ac_receipt_key d = ac_receipt_key c" "accept_digest d \<noteq> accept_digest c" for d
    using accept_drift [OF s'(1) that(1) r(1,2)] r(3,4) that by simp
  with accept_replay [OF s'(1) v a] st(3) show ?thesis by metis
qed

theorem accept_idempotent_witness:
  "\<exists>p rc st p'. accept_and_queue (at_time 100) demo_command (sy_store boot) = Inr (p, rc, st)
     \<and> accept_and_queue (at_time 900) demo_command st = Inr (p', rc, st) \<and> pj_id p' = pj_id p"
proof -
  from demo_accepted obtain p rc st where a: "accept_and_queue (at_time 100) demo_command (sy_store boot) = Inr (p, rc, st)" by blast
  have "reachable None boot" by (simp add: reachable_def)
  from accept_idempotent [OF this a rtranclp.rtrancl_refl, of "at_time 900"] a show ?thesis by auto
qed

text \<open>
  One intent is one effect: in a reachable system two effects with the same fingerprint,
  the digest of owner, kind, source, target, payload and policy, are the same effect, and
  every effect has the job of its current generation and its queue receipt.
\<close>

theorem one_effect_per_intent:
  assumes "reachable sink s" "effect_of (sy_store s) i = Some e"
  shows "(\<forall>j f. effect_of (sy_store s) j = Some f \<and> ef_fingerprint f = ef_fingerprint e \<longrightarrow> j = i)
    \<and> job_of (sy_store s) i (ef_generation e) \<noteq> None
    \<and> (\<exists>q \<in> set (eer_receipts (sy_store s)). or_operation q = OpQueue \<and> or_effect q = i)"
proof -
  note b = booksD [OF reachable_books [OF assms(1)]]
  from b(3) [OF assms(2)] obtain q where "queue_receipt (eer_receipts (sy_store s)) i = Some q" by blast
  from find_Some_pred [OF this [unfolded queue_receipt_def]] b(2,6) assms(2) show ?thesis by metis
qed

theorem one_effect_per_intent_witness:
  "\<exists>s. reachable None s \<and> job_of (sy_store s) 1 1 \<noteq> None"
proof -
  obtain rs where rs: "demo_run rs" by (rule demo_exists)
  let ?e = "demo_effect StateQueued 0 None 100"
  have e: "effect_of (sy_store (demo_system ?e [] rs [] [])) 1 = Some ?e" "ef_generation ?e = 1"
    by (simp_all add: effect_of_def demo_system_def demo_store_def demo_effect_def)
  from one_effect_per_intent [OF demo_reaches(1) [OF rs] e(1)] demo_reaches(1) [OF rs] e(2) show ?thesis by metis
qed

text \<open>
  C7: At most one worker is ever in flight for an effect, and it runs the effect's latest
  attempt; the attempts of an effect are numbered one to its attempt count without gaps, and
  every one but the latest executed nothing and was final only for a tag-catalogue mutation.
\<close>

theorem one_worker_per_effect:
  assumes "reachable sink s" "effect_of (sy_store s) i = Some e"
  shows "length (filter (\<lambda>w. fst (worker_key w) = i) (sy_workers s)) \<le> 1
    \<and> (\<forall>w \<in> set (sy_workers s). fst (worker_key w) = i \<longrightarrow> snd (worker_key w) = ef_attempts e)
    \<and> map ea_number (rows (sy_store s) i) = [1..ef_attempts e]
    \<and> list_all (repeatable (env_kind (ef_envelope e))) (butlast (rows (sy_store s) i))"
proof -
  note inv = system_invD [OF reachable_inv [OF assms(1)]]
  have v: "view (sy_store s) i = Some (e, rows (sy_store s) i)" using assms(2) by (simp add: view_def)
  note l = store_invD(2) [OF inv(1) v]
  have n: "snd (worker_key w) = ef_attempts e" if "w \<in> set (sy_workers s)" "fst (worker_key w) = i" for w
    using worker_ok_bound [OF inv(2) [OF that(1)] inv(1)] v that(2) by simp
  let ?ws = "filter (\<lambda>w. fst (worker_key w) = i) (sy_workers s)"
  have "set (map worker_key ?ws) \<subseteq> {(i, ef_attempts e)}" using n by (auto simp: prod_eq_iff)
  moreover have "distinct (map worker_key ?ws)" using inv(3) by (rule distinct_map_filter)
  ultimately have "length (map worker_key ?ws) \<le> 1"
    using card_mono [of "{(i, ef_attempts e)}" "set (map worker_key ?ws)"] by (simp add: distinct_card del: set_map)
  with n lived_numbers(1) [OF l] lived_prefix [OF l] show ?thesis by simp
qed

theorem one_worker_per_effect_witness:
  "\<exists>s e. reachable None s \<and> effect_of (sy_store s) 1 = Some e \<and> ef_attempts e = 2
     \<and> map ea_number (rows (sy_store s) 1) = [1..2]"
proof -
  obtain rs where rs: "demo_run rs" by (rule demo_exists)
  let ?e = "demo_effect StateExecuted 2 (Some 300000000400) 500"
  have e: "effect_of (sy_store (demo_system ?e [busy_row, sent_row] rs [] demo_answers)) 1 = Some ?e" "ef_attempts ?e = 2"
    by (simp_all add: effect_of_def demo_system_def demo_store_def demo_effect_def)
  from one_worker_per_effect [OF demo_reaches(4) [OF rs] e(1)] demo_reaches(4) [OF rs] e show ?thesis by metis
qed

text \<open>
  C15: The evidence that lets an owner accept a new intent in place of a failed effect is true:
  when the proof of a final failure without an external call is given, the effect is finally
  failed, no worker is in flight for it, and no answer ever received for it reported that a
  call was attempted or executed.
\<close>

theorem failure_evidence_true:
  assumes "reachable sink s" "final_failure_without_external_call ref w k (sy_store s) = Inr (p, t)"
  shows "\<exists>i e. parse_effect_id ref = Inr i \<and> effect_of (sy_store s) i = Some e \<and> ef_state e = StateFinalFailed
    \<and> (\<forall>u \<in> set (sy_workers s). fst (worker_key u) \<noteq> i)
    \<and> (\<forall>(j, n, a) \<in> set (sy_calls s). j = i \<longrightarrow> \<not> called a \<and> \<not> ar_real_call (answer_result a))"
proof -
  note inv = reachable_inv [OF assms(1)]
  from final_failureD [OF assms(2)] obtain i e where i: "parse_effect_id ref = Inr i" "effect_of (sy_store s) i = Some e"
    "ef_state e = StateFinalFailed" "\<And>r. r \<in> set (rows (sy_store s) i) \<Longrightarrow> uncalled_failure r" by metis
  have w: "\<forall>u \<in> set (sy_workers s). fst (worker_key u) \<noteq> i"
    using no_flight_without_row [OF inv i(2)] i(4) uncalled_failure_not_in_flight by blast
  have "\<not> called a \<and> \<not> ar_real_call (answer_result a)" if "(i, n, a) \<in> set (sy_calls s)" for n a
  proof -
    from call_recorded [OF inv that] obtain f as r where r: "view (sy_store s) i = Some (f, as)" "r \<in> set as" "answered r a"
      by metis
    then have "uncalled_failure r" using i(4) by (auto simp: view_def)
    with r(3) uncalled_failure_not_in_flight show ?thesis by (auto simp: answered_def uncalled_failure_def)
  qed
  with i(1-3) w show ?thesis by blast
qed


definition refused_row :: attempt_row where
  "refused_row = recorded_row (demo_row 1) StateFinalFailed (outcome_digest ''provider-disabled'' (demo_claim 1)) NoAdapter 300"

abbreviation refused_effect :: effect_row where
  "refused_effect \<equiv> demo_effect StateFinalFailed 1 (Some 300000000200) 300"

lemma refused_reaches:
  assumes "demo_run rs"
  shows "reachable None (demo_system refused_effect [refused_row] rs [] [(1, 1, NoAdapter)])"
proof -
  let ?e1 = "demo_effect StateAttempted 1 (Some 300000000200) 200"
  let ?s1 = "demo_system ?e1 [demo_row 1] rs [Claimed (demo_claim 1)] []"
  let ?s2 = "demo_system ?e1 [demo_row 1] rs [Called (demo_claim 1) demo_envelope NoAdapter] [(1, 1, NoAdapter)]"
  have key: "clm_effect (demo_claim 1) = 1" "clm_number (demo_claim 1) = 1" by (simp_all add: demo_claim_def)
  have s1: "step None (demo_system (demo_effect StateQueued 0 None 100) [] rs [] []) ?s1"
    using step_claim [of None "at_time 200" 1 1 1 "demo_system (demo_effect StateQueued 0 None 100) [] rs [] []"] demo_claims(1)
    by (simp add: demo_system_def)
  have s2: "step None ?s1 ?s2"
    using step_call [of ?s1 "[]" "demo_claim 1" "[]" demo_envelope None NoAdapter]
    by (simp add: demo_system_def demo_envelope_read key)
  have k: "env_kind demo_envelope = KindOutboundMessage" by (simp add: demo_envelope_def)
  have o: "attempt_outcome None (demo_claim 1) KindOutboundMessage NoAdapter
      = (StateFinalFailed, outcome_digest ''provider-disabled'' (demo_claim 1))"
    by (simp add: attempt_outcome_def provider_outcome_def)
  have "\<exists>d. finish_attempt None (at_time 300) (demo_claim 1) demo_envelope NoAdapter (demo_store ?e1 [demo_row 1] rs)
     = Inr (d, demo_store refused_effect [refused_row] rs)"
    unfolding finish_attempt_def k o prod.case Let_def
    by (simp add: auto_retry_def update_one_attempt_def attempt_key_def outcome_digest_def local_result_def
        effect_of_def finish_write_def should_complete_def completion_kinds_def complete_effect_def put_effect_def
        demo_defs refused_row_def recorded_row_def claim_row_def)
  then have s3: "step None ?s2 (demo_system refused_effect [refused_row] rs [] [(1, 1, NoAdapter)])"
    using step_finish [of ?s2 "[]" "demo_claim 1" demo_envelope NoAdapter "[]" None "at_time 300"]
    by (auto simp: demo_system_def)
  from demo_reaches(1) [OF assms] s1 s2 s3 show ?thesis
    unfolding reachable_def by (meson rtranclp.rtrancl_into_rtrancl)
qed

theorem failure_evidence_true_witness:
  "\<exists>s p t. reachable None s \<and> sy_calls s = [(1, 1, NoAdapter)]
     \<and> final_failure_without_external_call (effect_id 1) OwnerOutbound KindOutboundMessage (sy_store s) = Inr (p, t)
     \<and> \<not> called NoAdapter"
proof -
  obtain rs where rs: "demo_run rs" by (rule demo_exists)
  let ?s = "demo_system refused_effect [refused_row] rs [] [(1, 1, NoAdapter)]"
  have "\<exists>p t. final_failure_without_external_call (effect_id 1) OwnerOutbound KindOutboundMessage (sy_store ?s) = Inr (p, t)"
    by (simp add: final_failure_without_external_call_def parse_effect_id_id demo_system_def effect_of_def attempts_of_def
        uncalled_failure_def refused_row_def recorded_row_def claim_row_def demo_defs local_result_def is_zero_def utc_def
        wrap32_id is_int32_def Let_def)
  then obtain p t where f: "final_failure_without_external_call (effect_id 1) OwnerOutbound KindOutboundMessage (sy_store ?s) = Inr (p, t)"
    by blast
  have "sy_calls ?s = [(1, 1, NoAdapter)]" by (simp add: demo_system_def)
  with failure_evidence_true [OF refused_reaches [OF rs] f] f refused_reaches [OF rs] parse_effect_id_id [of 1]
  show ?thesis by (intro exI [of _ ?s] exI [of _ p] exI [of _ t]) (auto simp: max_int64_def)
qed

text \<open>
  C14: No effect is stuck behind a vanished worker: once the lease of an attempted effect has
  expired on both clocks and the owner takes the completion, the job of its generation, run
  again, records the attempt as unknown without calling the provider, after which a second
  run does nothing.
\<close>

theorem abandoned_attempt_settled:
  assumes "reachable sink s" "effect_of (sy_store s) i = Some e" "ef_state e = StateAttempted" "takes_all sink"
    "\<And>l. ef_lease e = Some l \<Longrightarrow> l \<le> app_now clk \<and> l \<le> db_now clk"
  shows "\<exists>j st'. job_of (sy_store s) i (ef_generation e) = Some j
     \<and> begin_attempt sink clk i (ef_generation e) (jb_river_id j) (sy_store s) = Inr (BeginRecovered, st')
     \<and> (\<exists>e'. effect_of st' i = Some e' \<and> ef_state e' = StateUnknown \<and> ef_attempts e' = ef_attempts e)
     \<and> (\<forall>clk'. begin_attempt sink clk' i (ef_generation e) (jb_river_id j) st' = Inr (BeginSkipped, st'))"
proof -
  let ?st = "sy_store s"
  have v: "view ?st i = Some (e, rows ?st i)" using assms(2) by (simp add: view_def)
  note l = store_invD(2) [OF system_invD(1) [OF reachable_inv [OF assms(1)]] v]
  from booksD(2) [OF reachable_books [OF assms(1)] assms(2)] obtain j where j: "job_of ?st i (ef_generation e) = Some j" by blast
  from recover_abandoned [OF l assms(2-5)] obtain st' where st': "recover_attempt sink clk e ?st = Inr (BeginRecovered, st')"
    "effect_of st' i = Some (e\<lparr>ef_state := StateUnknown, ef_updated_at := db_now clk\<rparr>)" by blast
  have "begin_attempt sink clk i (ef_generation e) (jb_river_id j) ?st = Inr (BeginRecovered, st')"
    using assms(2,3) j st'(1) by (simp add: begin_attempt_def)
  moreover have "begin_attempt sink clk' i (ef_generation e) (jb_river_id j) st' = Inr (BeginSkipped, st')" for clk'
    using st'(2) by (auto simp: begin_attempt_def split: option.split)
  ultimately show ?thesis using j st'(2) by auto
qed

theorem abandoned_attempt_settled_witness:
  "\<exists>s st' e'. reachable None s \<and> begin_attempt None (at_time 300000000200) 1 1 1 (sy_store s) = Inr (BeginRecovered, st')
     \<and> effect_of st' 1 = Some e' \<and> ef_state e' = StateUnknown"
proof -
  obtain rs where rs: "demo_run rs" by (rule demo_exists)
  let ?e = "demo_effect StateAttempted 1 (Some 300000000200) 200"
  let ?s = "demo_system ?e [demo_row 1] rs [Called (demo_claim 1) demo_envelope busy_answer] [(1, 1, busy_answer)]"
  have e: "effect_of (sy_store ?s) 1 = Some ?e" "ef_state ?e = StateAttempted" "ef_generation ?e = 1" "ef_lease ?e = Some 300000000200"
    by (simp_all add: effect_of_def demo_system_def demo_store_def demo_effect_def)
  have j: "job_of (sy_store ?s) 1 1 = Some \<lparr>jb_effect = 1, jb_generation = 1, jb_river_id = 1, jb_queue = OutboundExcelQueue, jb_scheduled_at = 100\<rparr>"
    by (simp add: job_of_def demo_system_def demo_store_def)
  have "takes_all None" by (simp add: takes_all_def)
  from abandoned_attempt_settled [OF demo_reaches(3) [OF rs] e(1,2) this, of "at_time 300000000200"] e(3,4) j demo_reaches(3) [OF rs]
  show ?thesis by (auto simp: at_time_def)
qed


lemma cancel_cases:
  assumes "cancel_queued clk c st = Inr (p, st')"
  obtains i e where "parse_effect_id (cn_effect_id c) = Inr i" "effect_of st i = Some e"
    "st' = st \<and> ef_state e = StateCancelled
     \<or> receipt_of st OpCancel i (cn_receipt_key c) = None \<and> cancel_write clk c e st = Inr (p, st')"
proof (cases "parse_effect_id (cn_effect_id c)")
  case (Inr i)
  show thesis
  proof (cases "effect_of st i")
    case (Some e)
    with Inr assms that [OF Inr Some] show ?thesis by (auto simp: cancel_queued_def split: if_splits option.splits)
  qed (use Inr assms in \<open>auto simp: cancel_queued_def split: if_splits\<close>)
qed (use assms in \<open>auto simp: cancel_queued_def split: if_splits\<close>)

lemma cancel_writes:
  assumes "cancel_write clk c e st = Inr (p, st')" "effect_of st i = Some e" "receipt_of st OpCancel i (cn_receipt_key c) = None"
  obtains e' r where "effect_of st' i = Some e'" "ef_state e' = StateCancelled" "p = projection_of e'"
    "receipt_of st' OpCancel i (cn_receipt_key c) = Some r" "or_digest r = cancel_digest c"
proof -
  let ?e = "e\<lparr>ef_state := StateCancelled, ef_updated_at := db_now clk\<rparr>"
  note i = effect_ofD [OF assms(2)]
  from assms(1) obtain r where r: "insert_receipt OpCancel (ef_id e) (cn_receipt_key c) (cancel_digest c)
        (if ca_admin_user_id (cn_actor c) = 0 then None else Some (ca_admin_user_id (cn_actor c)))
        (ca_system_ref (cn_actor c)) StateCancelled (db_now clk) (put_effect ?e st) = Inr (r, st')" and p: "p = projection_of ?e"
    by (auto simp: cancel_write_def Let_def and_then_eq_Inr)
  have "effect_of st' i = Some ?e"
    using effect_of_core [OF insert_receipt_core [OF r]] i assms(2) by (simp add: effect_of_put)
  moreover have "receipt_of st' OpCancel i (cn_receipt_key c) = Some r"
    using insert_receiptD(1-3,6) [OF r] assms(3) i by (simp add: receipt_of_def put_effect_def find_snoc)
  ultimately show thesis using that p insert_receiptD(4) [OF r] by simp
qed

text \<open>
  A cancellation is final and idempotent: the cancelled effect is in state cancelled,
  every job of it is skipped without a claim, and the same command again returns the same
  projection and changes nothing.
\<close>

theorem cancellation_final:
  assumes "cancel_queued clk c st = Inr (p, st')"
  shows "\<exists>i e. parse_effect_id (cn_effect_id c) = Inr i \<and> effect_of st' i = Some e \<and> ef_state e = StateCancelled
     \<and> (\<forall>sink clk' g j. begin_attempt sink clk' i g j st' = Inr (BeginSkipped, st'))
     \<and> cancel_queued clk' c st' = Inr (p, st')"
proof -
  have skip: "begin_attempt sink clk' i g j st' = Inr (BeginSkipped, st')"
    if "effect_of st' i = Some e" "ef_state e = StateCancelled" for sink clk' i g j e
    using that by (simp add: begin_attempt_def split: option.split)
  from cancel_cases [OF assms] obtain i e where e: "parse_effect_id (cn_effect_id c) = Inr i" "effect_of st i = Some e"
    and s: "st' = st \<and> ef_state e = StateCancelled
     \<or> receipt_of st OpCancel i (cn_receipt_key c) = None \<and> cancel_write clk c e st = Inr (p, st')" .
  from assms e(1) have g: "\<not> (cn_effect_id c = [] \<or> \<not> valid_digest (cn_receipt_key c) \<or> cn_reason c = [] \<or> 80 < length (cn_reason c)
         \<or> \<not> valid_actor (cn_actor c))" by (auto simp: cancel_queued_def split: if_splits)
  from s show ?thesis
  proof
    assume a: "st' = st \<and> ef_state e = StateCancelled"
    with assms e g have "cancel_queued clk' c st' = Inr (p, st')"
      unfolding cancel_queued_def by (auto split: option.splits if_splits)
    with a e skip show ?thesis by blast
  next
    assume "receipt_of st OpCancel i (cn_receipt_key c) = None \<and> cancel_write clk c e st = Inr (p, st')"
    with cancel_writes [OF _ e(2)] obtain e' r where w: "effect_of st' i = Some e'" "ef_state e' = StateCancelled" "p = projection_of e'"
      "receipt_of st' OpCancel i (cn_receipt_key c) = Some r" "or_digest r = cancel_digest c" by metis
    then have "cancel_queued clk' c st' = Inr (p, st')" unfolding cancel_queued_def if_not_P [OF g] using e(1) by simp
    with w e(1) skip show ?thesis by blast
  qed
qed

definition demo_cancel :: cancel_command where
  "demo_cancel = \<lparr>cn_effect_id = effect_id 1, cn_receipt_key = hash_parts [''stop''], cn_reason = ''owner'',
     cn_actor = \<lparr>ca_admin_user_id = 9, ca_system_ref = []\<rparr>\<rparr>"

theorem cancellation_final_witness:
  "\<exists>p st'. cancel_queued (at_time 150) demo_cancel (demo_store (demo_effect StateQueued 0 None 100) [] []) = Inr (p, st')
     \<and> cancel_queued (at_time 160) demo_cancel st' = Inr (p, st')"
proof -
  have "effect_id 1 \<noteq> []" by (simp add: effect_id_def)
  then have "\<exists>p st'. cancel_queued (at_time 150) demo_cancel (demo_store (demo_effect StateQueued 0 None 100) [] []) = Inr (p, st')"
    by (simp add: cancel_queued_def demo_cancel_def valid_actor_def system_actor_def parse_effect_id_id max_int64_def effect_of_def
        receipt_of_def cancel_write_def insert_receipt_def put_effect_def cancel_digest_def demo_defs Let_def)
  with cancellation_final show ?thesis by blast
qed

lemma finish_retried:
  assumes "finish_attempt sink clk c v a st = Inr (Some d, st')"
  shows "clm_number c < 5" "d = automatic_retry_delay (clm_number c)"
    "\<exists>r. attempt_outcome sink c (env_kind v) a = (StateRetryable, r)"
    "ar_real_call (answer_result a) \<longrightarrow> ar_call_attempted (answer_result a)"
    "\<exists>st1 e. effect_of st1 (clm_effect c) = Some e \<and> core st' = core (put_effect (advanced e StateQueued (db_now clk)) st1)
       \<and> ef_generation e = clm_generation c"
proof -
  obtain s r where o: "attempt_outcome sink c (env_kind v) a = (s, r)" by fastforce
  from assms o have again: "auto_retry c (env_kind v) a s" and d: "d = automatic_retry_delay (clm_number c)"
    and real: "ar_real_call (answer_result a) \<longrightarrow> ar_call_attempted (answer_result a)"
    by (auto simp: finish_attempt_def Let_def and_then_eq_Inr split: if_split_asm option.split_asm)
  from assms o again obtain st1 e where w: "effect_of st1 (clm_effect c) = Some e" "ef_generation e = clm_generation c"
    "finish_write sink clk c v (reported_result a StateQueued r) StateQueued e st1 = Inr st'"
    by (auto simp: finish_attempt_def Let_def and_then_eq_Inr split: if_split_asm option.split_asm)
  have "core st' = core (put_effect (advanced e StateQueued (db_now clk)) st1)"
    using w(3) unfolding finish_write_def Let_def advanced_def [symmetric]
    by (auto simp del: core_put dest!: complete_effect_core split: if_split_asm)
  with again o d real w(1,2) show "clm_number c < 5" "d = automatic_retry_delay (clm_number c)"
    "\<exists>r. attempt_outcome sink c (env_kind v) a = (StateRetryable, r)"
    "ar_real_call (answer_result a) \<longrightarrow> ar_call_attempted (answer_result a)"
    "\<exists>st1 e. effect_of st1 (clm_effect c) = Some e \<and> core st' = core (put_effect (advanced e StateQueued (db_now clk)) st1)
       \<and> ef_generation e = clm_generation c"
    by (auto simp: auto_retry_def)
qed

text \<open>
  C17: Automatic retries end: when recording an answer puts the effect back into its queue,
  the attempt was one of the first four, nothing had been executed, the effect is queued
  again under the same generation, and the job is asked to wait between one second and two
  minutes.
\<close>

theorem automatic_retries_end:
  assumes "finish_attempt sink clk c v a st = Inr (Some d, st')"
  shows "clm_number c \<le> 4 \<and> \<not> ar_real_call (answer_result a)
    \<and> nanoseconds_per_second \<le> d \<and> d \<le> 2 * minute
    \<and> (\<exists>e. effect_of st' (clm_effect c) = Some e \<and> ef_state e = StateQueued \<and> ef_generation e = clm_generation c)"
proof -
  note f = finish_retried [OF assms]
  from f(3) attempt_outcome_cases(2) have "\<exists>r. provider_outcome c (env_kind v) a = (StateRetryable, r)" by blast
  with provider_outcome_retryable f(4) have "\<not> ar_real_call (answer_result a)" by blast
  moreover from f(5) obtain st1 e where e: "effect_of st1 (clm_effect c) = Some e" "ef_generation e = clm_generation c"
    "core st' = core (put_effect (advanced e StateQueued (db_now clk)) st1)" by blast
  have "effect_of st' (clm_effect c) = Some (advanced e StateQueued (db_now clk))"
    using effect_of_core [OF e(3)] e(1) effect_ofD [OF e(1)] by (simp add: effect_of_put)
  ultimately show ?thesis
    using f(1,2) e(2) by (auto simp: automatic_retry_delay_def nanoseconds_per_second_def minute_def)
qed

theorem automatic_retries_end_witness:
  "\<exists>d st'. finish_attempt None (at_time 300) (demo_claim 1) demo_envelope busy_answer
         (demo_store (demo_effect StateAttempted 1 (Some 300000000200) 200) [demo_row 1] []) = Inr (Some d, st') \<and> d \<le> 2 * minute"
proof -
  have k: "env_kind demo_envelope = KindOutboundMessage" by (simp add: demo_envelope_def)
  have "\<exists>d st'. finish_attempt None (at_time 300) (demo_claim 1) demo_envelope busy_answer
         (demo_store (demo_effect StateAttempted 1 (Some 300000000200) 200) [demo_row 1] []) = Inr (Some d, st')"
    unfolding finish_attempt_def k demo_outcomes prod.case Let_def
    by (simp add: auto_retry_def retry_lane_def update_one_attempt_def attempt_key_def
        effect_of_def finish_write_def should_complete_def completion_kinds_def complete_effect_def put_effect_def
        demo_defs claim_row_def busy_answer_def)
  with automatic_retries_end show ?thesis by blast
qed

end
