(* ===== verification/Go_Utf8.thy ===== *)
theory Go_Utf8
  imports Go_Strings
begin

text \<open>
  \<open>utf8.AppendRune\<close>, and its agreement with the decoder of \<open>Go_Strings\<close>: encoding a rune
  and decoding its bytes gives it back (\<open>decode_rune_bytes\<close>), and the bytes a decoder accepts
  as one rune are the encoding of that rune (\<open>decode_rune_well_formed\<close>). So a valid text is a
  sequence of encoded runes (\<open>valid_utf8_induct\<close>).
\<close>

section \<open>Runes to bytes\<close>

definition proper_rune :: "nat \<Rightarrow> bool" where
  "proper_rune r \<longleftrightarrow> r \<le> 1114111 \<and> \<not> (55296 \<le> r \<and> r \<le> 57343)"

definition rune_bytes :: "nat \<Rightarrow> nat list" where
  "rune_bytes r =
     (if r < 128 then [r]
      else if r < 2048 then [192 + r div 64, 128 + r mod 64]
      else if r < 65536 then [224 + r div 4096, 128 + r div 64 mod 64, 128 + r mod 64]
      else [240 + r div 262144, 128 + r div 4096 mod 64, 128 + r div 64 mod 64, 128 + r mod 64])"

text \<open>\<open>utf8.AppendRune\<close>: what is not a rune is written as \<open>U+FFFD\<close>.\<close>

definition encode_rune :: "nat \<Rightarrow> string" where
  "encode_rune r = map char_of (rune_bytes (if proper_rune r then r else rune_error))"

section \<open>Round trips\<close>

lemma byte_char_of [simp]: "n < 256 \<Longrightarrow> byte (char_of n) = n"
  by (simp add: byte_def take_bit_eq_mod)

lemma char_of_byte [simp]: "char_of (byte c) = c"
  by (simp add: byte_def)

lemma mod_above: "m dvd k \<Longrightarrow> x < m \<Longrightarrow> (k + x) mod m = (x :: nat)"
  by (metis add_0 dvd_imp_mod_0 mod_add_left_eq mod_less)

lemma lead_mods:
  "x < 32 \<Longrightarrow> (192 + x) mod 32 = (x :: nat)" "x < 16 \<Longrightarrow> (224 + x) mod 16 = (x :: nat)"
  "x < 8 \<Longrightarrow> (240 + x) mod 8 = (x :: nat)" "x < 64 \<Longrightarrow> (128 + x) mod 64 = (x :: nat)"
  by (rule mod_above; simp)+

lemma div_above: "m < k \<Longrightarrow> (q * k + m) div k = (q :: nat)"
  by simp

lemma low_mod: "e < 64 \<Longrightarrow> (a * 262144 + b * 4096 + c * 64 + e) mod 64 = (e :: nat)"
proof -
  assume e: "e < 64"
  have eq: "a * 262144 + b * 4096 + c * 64 + e = (a * 4096 + b * 64 + c) * 64 + e" by simp
  show ?thesis unfolding eq using e by (simp only: mod_mult_self3 mod_less)
qed

lemma rune_quotients:
  fixes a b c e :: nat
  assumes "b < 64" "c < 64" "e < 64"
  shows "(a * 262144 + b * 4096 + c * 64 + e) div 64 = a * 4096 + b * 64 + c"
    and "(a * 262144 + b * 4096 + c * 64 + e) div 4096 = a * 64 + b"
    and "(a * 262144 + b * 4096 + c * 64 + e) div 262144 = a"
proof -
  have "a * 262144 + b * 4096 + c * 64 + e = (a * 4096 + b * 64 + c) * 64 + e"
    "a * 262144 + b * 4096 + c * 64 + e = (a * 64 + b) * 4096 + (c * 64 + e)"
    "a * 262144 + b * 4096 + c * 64 + e = a * 262144 + (b * 4096 + c * 64 + e)"
    by simp_all
  moreover have "e < 64" "c * 64 + e < 4096" "b * 4096 + c * 64 + e < 262144" using assms by linarith+
  ultimately show "(a * 262144 + b * 4096 + c * 64 + e) div 64 = a * 4096 + b * 64 + c"
    "(a * 262144 + b * 4096 + c * 64 + e) div 4096 = a * 64 + b"
    "(a * 262144 + b * 4096 + c * 64 + e) div 262144 = a"
    by (metis div_above)+
qed

lemma rune_base64:
  assumes "r < 64 ^ 4"
  obtains a b c e :: nat where "r = a * 262144 + b * 4096 + c * 64 + e" "a < 64" "b < 64" "c < 64" "e < 64"
    "r div 64 = a * 4096 + b * 64 + c" "r div 4096 = a * 64 + b" "r div 262144 = a" "r mod 64 = e"
    "r div 64 mod 64 = c" "r div 4096 mod 64 = b"
proof -
  let ?a = "r div 262144" let ?b = "r div 4096 mod 64" let ?c = "r div 64 mod 64" let ?e = "r mod 64"
  have "r div 64 div 64 = r div 4096" "r div 4096 div 64 = r div 262144" by (simp_all flip: div_mult2_eq)
  then have *: "r div 4096 = ?a * 64 + ?b" "r div 64 = r div 4096 * 64 + ?c" "r = r div 64 * 64 + ?e"
    by (metis div_mod_decomp)+
  show thesis
  proof (rule that [of ?a ?b ?c ?e])
    show "r = ?a * 262144 + ?b * 4096 + ?c * 64 + ?e" using * by linarith
    show "r div 64 = ?a * 4096 + ?b * 64 + ?c" using * by linarith
  qed (use * assms in auto)
qed

lemma decode_rune_bytes:
  assumes "proper_rune r"
  shows "decode_rune (map char_of (rune_bytes r) @ t) = (r, length (rune_bytes r))"
proof -
  have lt: "r < 64 ^ 4" using assms by (simp add: proper_rune_def)
  then obtain a b c e where r: "r = a * 262144 + b * 4096 + c * 64 + e" "a < 64" "b < 64" "c < 64" "e < 64"
    "r div 64 = a * 4096 + b * 64 + c" "r div 4096 = a * 64 + b" "r div 262144 = a" "r mod 64 = e"
    "r div 64 mod 64 = c" "r div 4096 mod 64 = b"
    by (rule rune_base64)
  consider "r < 128" | "128 \<le> r" "r < 2048" | "2048 \<le> r" "r < 65536" | "65536 \<le> r" by linarith
  then show ?thesis
  proof cases
    case 1
    then show ?thesis by (simp add: rune_bytes_def)
  next
    case 2
    then have ab: "a = 0" "b = 0" using r(1) by simp_all
    with 2 r(1,5) have "2 \<le> c" "c < 32" by simp_all
    note this ab
    with 2 r ab show ?thesis
      by (simp add: rune_bytes_def decode_rune_def decode_tail_def rune_size_def second_ok_def cont_byte_def lead_mods)
  next
    case 3
    then have a: "a = 0" using r(1) by simp
    have b: "b < 16" "b = 0 \<longrightarrow> 32 \<le> c" using 3 r(1-5) a by simp_all
    have c: "b = 13 \<longrightarrow> c < 32"
      using 3 r(1-5) a assms by (intro impI, simp only: proper_rune_def) linarith
    show ?thesis
      using 3(1) 3(2) b c r(2-) r(1) [symmetric] by (auto simp add: a rune_bytes_def decode_rune_def decode_tail_def rune_size_def second_ok_def cont_byte_def lead_mods)
  next
    case 4
    then have "a \<le> 4" "a = 0 \<longrightarrow> 16 \<le> b" "a = 4 \<longrightarrow> b \<le> 15"
      using r(1-5) assms by (auto simp: proper_rune_def)
    with 4 r show ?thesis
      by (simp add: rune_bytes_def decode_rune_def decode_tail_def rune_size_def second_ok_def cont_byte_def lead_mods)
  qed
qed

text \<open>Conversely, a well-formed prefix is the encoding of the rune it decodes to.\<close>

lemma cont_byteE:
  assumes "cont_byte (byte c)"
  obtains y where "byte c = 128 + y" "y < 64" "byte c mod 64 = y" "c = char_of (128 + y)"
proof -
  from assms have b: "byte c = 128 + (byte c - 128)" "byte c - 128 < 64" by (auto simp: cont_byte_def)
  then have "byte c mod 64 = byte c - 128" by (metis lead_mods(4))
  with b show thesis using that by (metis char_of_byte)
qed

lemma second_ok_cont: "second_ok b0 b1 \<Longrightarrow> cont_byte b1"
  by (auto simp: second_ok_def cont_byte_def split: if_splits)

lemma well_formed_tail:
  assumes t: "decode_tail b0 s1 = (r, n)" and b: "128 \<le> b0" "b0 < 256" and ok: "(r, n) \<noteq> (rune_error, 1)"
  shows "proper_rune r \<and> take n (char_of b0 # s1) = map char_of (rune_bytes r)"
proof -
  from t ok obtain c1 s2 where s1: "s1 = c1 # s2" and rs: "rune_size b0 \<noteq> 1" and so: "second_ok b0 (byte c1)"
    by (auto simp: decode_tail_def split: list.splits if_splits)
  obtain y1 where y1: "byte c1 = 128 + y1" "y1 < 64" "byte c1 mod 64 = y1" and c1: "c1 = char_of (128 + y1)"
    using cont_byteE [OF second_ok_cont [OF so]] .
  consider "194 \<le> b0" "b0 \<le> 223" | "224 \<le> b0" "b0 \<le> 239" | "240 \<le> b0" "b0 \<le> 244"
    using rs by (auto simp: rune_size_def split: if_splits)
  then show ?thesis
  proof cases
    case 1
    then obtain x where x: "b0 = 192 + x" "2 \<le> x" "x < 32" "b0 mod 32 = x"
      using lead_mods(1) [of "b0 - 192"] by (intro that [of "b0 - 192"]) auto
    have "r = x * 64 + y1" "n = 2"
      using t s1 1 so y1 x by (auto simp: decode_tail_def rune_size_def)
    with x y1 c1 s1 show ?thesis by (simp add: proper_rune_def rune_bytes_def)
  next
    case 2
    from t s1 2 so ok obtain c2 s3 where s2: "s2 = c2 # s3" and cb: "cont_byte (byte c2)"
      by (auto simp: decode_tail_def rune_size_def split: list.splits if_splits)
    obtain y2 where y2: "byte c2 = 128 + y2" "y2 < 64" "byte c2 mod 64 = y2" "c2 = char_of (128 + y2)"
      using cont_byteE [OF cb] .
    obtain x where x: "b0 = 224 + x" "x < 16" "b0 mod 16 = x"
      using 2 lead_mods(2) [of "b0 - 224"] by (intro that [of "b0 - 224"]) auto
    have r: "r = x * 4096 + y1 * 64 + y2" "n = 3"
      using t s1 s2 2 so y1 y2 cb x by (auto simp: decode_tail_def rune_size_def)
    have range: "x = 0 \<longrightarrow> 32 \<le> y1" "x = 13 \<longrightarrow> y1 < 32" using so x y1 by (auto simp: second_ok_def split: if_splits)
    then have p: "2048 \<le> r" "r < 65536" using r x y1 y2 by auto
    have "\<not> (55296 \<le> r \<and> r \<le> 57343)"
    proof (cases "x = 13")
      case False
      then have "x \<le> 12 \<or> 14 \<le> x" by arith
      then show ?thesis using r(1) y1(2) y2(2) by (elim disjE) linarith+
    qed (use r(1) y1(2) y2(2) range in auto)
    with p have pr: "proper_rune r" by (simp add: proper_rune_def)
    have d: "r div 64 = x * 64 + y1" "r div 4096 = x" "(x * 64 + y1) mod 64 = y1"
      using r x y1 y2 by auto
    note d = d low_mod [OF y2(2), of 0 x y1]
    show ?thesis using p pr d r x y2 c1 s1 s2 by (simp add: rune_bytes_def)
  next
    case 3
    from t s1 3 so ok obtain c2 c3 s4 where s2: "s2 = c2 # c3 # s4" and cb: "cont_byte (byte c2)" "cont_byte (byte c3)"
      by (auto simp: decode_tail_def rune_size_def split: list.splits if_splits)
    obtain y2 where y2: "byte c2 = 128 + y2" "y2 < 64" "byte c2 mod 64 = y2" "c2 = char_of (128 + y2)"
      using cont_byteE [OF cb(1)] .
    obtain y3 where y3: "byte c3 = 128 + y3" "y3 < 64" "byte c3 mod 64 = y3" "c3 = char_of (128 + y3)"
      using cont_byteE [OF cb(2)] .
    obtain x where x: "b0 = 240 + x" "x \<le> 4" "b0 mod 8 = x"
      using 3 lead_mods(3) [of "b0 - 240"] by (intro that [of "b0 - 240"]) auto
    have r: "r = x * 262144 + y1 * 4096 + y2 * 64 + y3" "n = 4"
      using t s1 s2 3 so y1 y2 y3 cb x by (auto simp: decode_tail_def rune_size_def)
    have range: "x = 0 \<longrightarrow> 16 \<le> y1" "x = 4 \<longrightarrow> y1 < 16" using so x y1 by (auto simp: second_ok_def split: if_splits)
    then have p: "65536 \<le> r" "proper_rune r" using r x y1 y2 y3 by (auto simp: proper_rune_def)
    have d: "r div 64 = x * 4096 + y1 * 64 + y2" "r div 4096 = x * 64 + y1" "r div 262144 = x" "r mod 64 = y3"
      unfolding r(1) by (rule rune_quotients low_mod; fact)+
    have m: "(x * 4096 + y1 * 64 + y2) mod 64 = y2" "(x * 64 + y1) mod 64 = y1"
      using low_mod [OF y2(2), of 0 x y1] low_mod [OF y1(2), of 0 0 x] by simp_all
    have "rune_bytes r = [240 + x, 128 + y1, 128 + y2, 128 + y3]"
      using p(1) by (simp add: rune_bytes_def d m y1(2) y2(2))
    then show ?thesis using p(2) r(2) x(1) y2(4) y3(4) c1 s1 s2 by simp
  qed
qed

lemma decode_rune_well_formed:
  assumes "s \<noteq> []" "decode_rune s = (r, n)" "(r, n) \<noteq> (rune_error, 1)"
  shows "proper_rune r \<and> take n s = map char_of (rune_bytes r)"
proof (cases s)
  case (Cons c s1)
  show ?thesis
  proof (cases "byte c < 128")
    case True
    with assms Cons have "r = byte c" "n = 1" by auto
    with True Cons show ?thesis by (simp add: proper_rune_def rune_bytes_def)
  next
    case False
    with assms Cons have t: "decode_tail (byte c) s1 = (r, n)" by (simp add: decode_rune_def)
    show ?thesis using well_formed_tail [OF t _ byte_less assms(3)] False Cons by simp
  qed
qed (use assms in simp)

lemma proper_rune_error [simp]: "proper_rune rune_error"
  by (simp add: proper_rune_def rune_error_def)

lemma encode_rune_proper: "proper_rune r \<Longrightarrow> encode_rune r = map char_of (rune_bytes r)"
  by (simp add: encode_rune_def)

lemma encode_rune_not_Nil [simp]: "encode_rune r \<noteq> []"
  by (simp add: encode_rune_def rune_bytes_def)

lemma encode_runeE:
  obtains q where "proper_rune q" "encode_rune r = encode_rune q"
proof (cases "proper_rune r")
  case False
  then show thesis by (intro that [of rune_error]) (simp_all add: encode_rune_def)
qed (rule that, simp_all)

lemma decode_encode_rune:
  "proper_rune r \<Longrightarrow> decode_rune (encode_rune r @ t) = (r, length (encode_rune r))"
  by (simp add: encode_rune_proper decode_rune_bytes)

lemma encode_rune_ascii: "r < 128 \<Longrightarrow> encode_rune r = [char_of r]"
  by (simp add: encode_rune_def proper_rune_def rune_bytes_def)

lemma encoded_not_error: "proper_rune r \<Longrightarrow> (r, length (encode_rune r)) \<noteq> (rune_error, 1)"
  by (auto simp: encode_rune_proper rune_bytes_def rune_error_def)

lemma valid_utf8_Nil [simp]: "valid_utf8 []"
  by (simp add: valid_utf8.simps)

lemma valid_utf8_encode [simp]: "valid_utf8 (encode_rune r @ t) \<longleftrightarrow> valid_utf8 t"
proof -
  obtain q where q: "proper_rune q" "encode_rune r = encode_rune q" by (rule encode_runeE)
  with encoded_not_error [OF q(1)] show ?thesis
    by (subst valid_utf8.simps) (simp add: decode_encode_rune)
qed

lemma valid_utf8_ascii_Cons [simp]: "byte c < 128 \<Longrightarrow> valid_utf8 (c # t) \<longleftrightarrow> valid_utf8 t"
  using valid_utf8_encode [of "byte c" t] by (simp add: encode_rune_ascii)

lemma valid_utf8_induct [consumes 1, case_names Nil rune]:
  assumes "valid_utf8 s"
    and "P []"
    and "\<And>r t. proper_rune r \<Longrightarrow> valid_utf8 t \<Longrightarrow> P t \<Longrightarrow> P (encode_rune r @ t)"
  shows "P s"
  using assms(1)
proof (induction s rule: valid_utf8.induct)
  case (1 s)
  show ?case
  proof (cases "s = []")
    case False
    obtain r n where d: "decode_rune s = (r, n)" by (cases "decode_rune s")
    with 1(2) False have ok: "(r, n) \<noteq> (rune_error, 1)" and v: "valid_utf8 (drop n s)"
      by (auto simp: valid_utf8.simps [of s])
    from decode_rune_well_formed [OF False d ok] have p: "proper_rune r" and t: "take n s = encode_rune r"
      by (simp_all add: encode_rune_proper)
    have "P (drop n s)" using 1(1) False v d by simp
    from assms(3) [OF p v this] show ?thesis by (metis append_take_drop_id t)
  qed (simp add: assms(2))
qed

section \<open>Control characters\<close>

text \<open>\<open>unicode.IsControl\<close> and the loop over the runes of a text that asks for it.\<close>

definition is_control :: "nat \<Rightarrow> bool" where
  "is_control r \<longleftrightarrow> r < 32 \<or> 127 \<le> r \<and> r < 160"

definition has_control :: "string \<Rightarrow> bool" where
  "has_control s \<longleftrightarrow> list_ex is_control (runes s)"

end
