(* ===== verification/Go_Json_Data.thy ===== *)
theory Go_Json_Data
  imports Go_Json Go_Utf8 Go_Sha256 "HOL-Library.Char_ord" "HOL-Library.List_Lexorder"
begin

text \<open>
  \<open>encoding/json\<close> of Go's standard library on untyped values: decoding a text with
  \<open>UseNumber\<close> into an \<open>any\<close>, and \<open>Marshal\<close> of such a value. A \<open>map[string]any\<close>
  is an association list in the order \<open>Marshal\<close> writes it, by the bytes of its keys, and a
  repeated member overwrites the earlier one. \<open>Marshal\<close> escapes HTML, as the default
  encoder does. A text decodes exactly when \<open>json.Valid\<close> accepts it (\<open>decode_json_valid\<close>),
  what it decodes to is well-formed (\<open>decode_json_wf\<close>), and a well-formed value that is
  written decodes to itself (\<open>decode_marshal\<close>). The lemmas go by syntactic class: strings by
  their runes, numbers by one byte of look-ahead (\<open>looks_ahead\<close>), containers by induction
  on the value with the fuel left open (\<open>reads\<close>); \<open>read_value_enough\<close> closes it.
\<close>

section \<open>Values\<close>

datatype json =
    Json_Null
  | Json_Bool bool
  | Json_Number string
  | Json_String string
  | Json_Array "json list"
  | Json_Object "(string \<times> json) list"

fun put_member :: "string \<Rightarrow> 'v \<Rightarrow> (string \<times> 'v) list \<Rightarrow> (string \<times> 'v) list" where
  "put_member k v [] = [(k, v)]"
| "put_member k v ((a, b) # ms) =
     (if k < a then (k, v) # (a, b) # ms else if k = a then (k, v) # ms else (a, b) # put_member k v ms)"

section \<open>String literals\<close>

definition hex_value :: "char \<Rightarrow> nat" where
  "hex_value c = (if is_digit c then byte c - 48 else if 97 \<le> byte c then byte c - 87 else byte c - 55)"

fun getu4 :: "string \<Rightarrow> nat option" where
  "getu4 (b # u # h1 # h2 # h3 # h4 # _) =
     (if byte b = 92 \<and> u = CHR ''u'' \<and> json_hex h1 \<and> json_hex h2 \<and> json_hex h3 \<and> json_hex h4
      then Some (hex_value h1 * 4096 + hex_value h2 * 256 + hex_value h3 * 16 + hex_value h4) else None)"
| "getu4 _ = None"

definition is_surrogate :: "nat \<Rightarrow> bool" where
  "is_surrogate r \<longleftrightarrow> 55296 \<le> r \<and> r < 57344"

definition join_surrogates :: "nat \<Rightarrow> nat option \<Rightarrow> nat option" where
  "join_surrogates r s =
     (case s of Some r2 \<Rightarrow> if 55296 \<le> r \<and> r < 56320 \<and> 56320 \<le> r2 \<and> r2 < 57344
                           then Some ((r - 55296) * 1024 + (r2 - 56320) + 65536) else None
      | None \<Rightarrow> None)"

definition unescape :: "char \<Rightarrow> char" where
  "unescape d =
     (if byte d = 98 then char_of (8::nat) else if byte d = 102 then char_of (12::nat)
      else if byte d = 110 then char_of (10::nat) else if byte d = 114 then char_of (13::nat)
      else if byte d = 116 then char_of (9::nat) else d)"

definition simple_escape :: "char \<Rightarrow> bool" where
  "simple_escape d \<longleftrightarrow> byte d \<in> {34, 39, 47, 92, 98, 102, 110, 114, 116}"

text \<open>\<open>unquote\<close> on the inside of a literal the scanner has accepted. (It fails on any other
  escape, which the scanner has refused before.)\<close>

function unquote :: "string \<Rightarrow> string" where
  "unquote s =
     (case s of
        [] \<Rightarrow> []
      | c # t \<Rightarrow>
          if byte c = 92 then
            (case getu4 s of
               Some r \<Rightarrow>
                 if is_surrogate r then
                   (case join_surrogates r (getu4 (drop 6 s)) of
                      Some p \<Rightarrow> encode_rune p @ unquote (drop 12 s)
                    | None \<Rightarrow> encode_rune rune_error @ unquote (drop 6 s))
                 else encode_rune r @ unquote (drop 6 s)
             | None \<Rightarrow> (case t of [] \<Rightarrow> [] | d # u \<Rightarrow> if simple_escape d then unescape d # unquote u else []))
          else if byte c < 128 then c # unquote t
          else encode_rune (fst (decode_rune s)) @ unquote (drop (snd (decode_rune s)) s))"
  by pat_completeness auto
termination
  by (relation "measure length") (auto simp: diff_less)
declare unquote.simps [simp del]

text \<open>A literal after its opening quote: its value and the rest of the text.\<close>

definition read_string :: "string \<Rightarrow> (string \<times> string) option" where
  "read_string s = map_option (\<lambda>r. (unquote (take (length s - length r - 1) s), r)) (json_string s)"

definition html_safe :: "char \<Rightarrow> bool" where
  "html_safe c \<longleftrightarrow> 32 \<le> byte c \<and> c \<notin> set ''<>&'' \<and> byte c \<noteq> 34 \<and> byte c \<noteq> 92"

definition unicode_escape :: "nat \<Rightarrow> string" where
  "unicode_escape r = [char_of (92::nat), CHR ''u'', hex_digit (r div 4096), hex_digit (r div 256 mod 16),
                       hex_digit (r div 16 mod 16), hex_digit (r mod 16)]"

definition escape_byte :: "char \<Rightarrow> string" where
  "escape_byte c =
     (if byte c = 34 \<or> byte c = 92 then [char_of (92::nat), c]
      else if byte c = 8 then [char_of (92::nat), CHR ''b''] else if byte c = 12 then [char_of (92::nat), CHR ''f'']
      else if byte c = 10 then [char_of (92::nat), CHR ''n''] else if byte c = 13 then [char_of (92::nat), CHR ''r'']
      else if byte c = 9 then [char_of (92::nat), CHR ''t'']
      else unicode_escape (byte c))"

text \<open>The chunk \<open>appendString\<close> writes for the first rune of a text, and the text's literal.\<close>

definition quote_rune :: "string \<Rightarrow> string" where
  "quote_rune s =
     (let (r, n) = decode_rune s in
      if r < 128 then (if html_safe (char_of r) then [char_of r] else escape_byte (char_of r))
      else if (r, n) = (rune_error, 1) then unicode_escape rune_error
      else if r = 8232 \<or> r = 8233 then unicode_escape r
      else take n s)"

function quote_body :: "string \<Rightarrow> string" where
  "quote_body s = (if s = [] then [] else quote_rune s @ quote_body (drop (snd (decode_rune s)) s))"
  by pat_completeness auto
termination
  by (relation "measure length") auto
declare quote_body.simps [simp del]

definition quote_char :: char where "quote_char = char_of (34::nat)"

definition quote :: "string \<Rightarrow> string" where
  "quote s = quote_char # quote_body s @ [quote_char]"

section \<open>Decoding\<close>

definition read_literal :: "string \<Rightarrow> json \<Rightarrow> string \<Rightarrow> (json \<times> string) option" where
  "read_literal w v t = map_option (Pair v) (json_literal w t)"

definition read_number :: "string \<Rightarrow> (json \<times> string) option" where
  "read_number s = map_option (\<lambda>r. (Json_Number (take (length s - length r) s), r)) (json_number s)"

definition read_key :: "string \<Rightarrow> (string \<times> string) option" where
  "read_key s =
     (case skip_space s of
        [] \<Rightarrow> None
      | q # t \<Rightarrow> if byte q = 34
                 then Option.bind (read_string t) (\<lambda>(k, r). map_option (Pair k) (drop_byte CHR '':'' (skip_space r)))
                 else None)"

definition read_next :: "char \<Rightarrow> 'a \<Rightarrow> (string \<Rightarrow> ('a \<times> string) option) \<Rightarrow> string \<Rightarrow> ('a \<times> string) option" where
  "read_next close done rest s =
     (case skip_space s of
        [] \<Rightarrow> None
      | d # t \<Rightarrow> if d = CHR '','' then rest t else if d = close then Some (done, t) else None)"

text \<open>The readers take the fuel and the nesting of \<open>json_value\<close> and what is decoded so far.\<close>

fun read_value :: "nat \<Rightarrow> int \<Rightarrow> string \<Rightarrow> (json \<times> string) option"
  and read_members :: "nat \<Rightarrow> int \<Rightarrow> (string \<times> json) list \<Rightarrow> string \<Rightarrow> ((string \<times> json) list \<times> string) option"
  and read_elements :: "nat \<Rightarrow> int \<Rightarrow> json list \<Rightarrow> string \<Rightarrow> (json list \<times> string) option" where
  "read_value 0 d s = None"
| "read_value (Suc n) d s =
     (case skip_space s of
        [] \<Rightarrow> None
      | c # t \<Rightarrow>
          if c = CHR ''{'' then
            (if d \<le> 0 then None else
             case drop_byte CHR ''}'' (skip_space t) of
               Some r \<Rightarrow> Some (Json_Object [], r)
             | None \<Rightarrow> map_option (map_prod Json_Object id) (read_members n (d - 1) [] t))
          else if c = CHR ''['' then
            (if d \<le> 0 then None else
             case drop_byte CHR '']'' (skip_space t) of
               Some r \<Rightarrow> Some (Json_Array [], r)
             | None \<Rightarrow> map_option (map_prod Json_Array id) (read_elements n (d - 1) [] t))
          else if byte c = 34 then map_option (map_prod Json_String id) (read_string t)
          else if c = CHR ''t'' then read_literal ''rue'' (Json_Bool True) t
          else if c = CHR ''f'' then read_literal ''alse'' (Json_Bool False) t
          else if c = CHR ''n'' then read_literal ''ull'' Json_Null t
          else read_number (c # t))"
| "read_members 0 d ms s = None"
| "read_members (Suc n) d ms s =
     Option.bind (read_key s) (\<lambda>(k, w). Option.bind (read_value n d w)
       (\<lambda>(v, r). read_next CHR ''}'' (put_member k v ms) (\<lambda>m. read_members n d (put_member k v ms) m) r))"
| "read_elements 0 d vs s = None"
| "read_elements (Suc n) d vs s =
     Option.bind (read_value n d s)
       (\<lambda>(v, r). read_next CHR '']'' (vs @ [v]) (\<lambda>m. read_elements n d (vs @ [v]) m) r)"

text \<open>\<open>Decode\<close> of a whole text: one value and nothing but white space behind it.\<close>

definition decode_json :: "string \<Rightarrow> json option" where
  "decode_json s =
     (case read_value (2 * length s + 1) max_nesting s of
        Some (v, r) \<Rightarrow> if skip_space r = [] then Some v else None
      | None \<Rightarrow> None)"

section \<open>Encoding\<close>

fun join_with :: "string \<Rightarrow> string list \<Rightarrow> string" where
  "join_with sep [] = []"
| "join_with sep [s] = s"
| "join_with sep (s # t # ts) = s @ sep @ join_with sep (t # ts)"

fun marshal :: "json \<Rightarrow> string" where
  "marshal Json_Null = ''null''"
| "marshal (Json_Bool b) = (if b then ''true'' else ''false'')"
| "marshal (Json_Number w) = w"
| "marshal (Json_String s) = quote s"
| "marshal (Json_Array vs) = ''['' @ join_with '','' (map marshal vs) @ '']''"
| "marshal (Json_Object ms) = ''{'' @ join_with '','' (map (\<lambda>(k, v). quote k @ '':'' @ marshal v) ms) @ ''}''"

section \<open>The round trip of strings\<close>

lemma hex_digit_simps [simp]:
  assumes "n < 16"
  shows "byte (hex_digit n) = (if n < 10 then 48 + n else 87 + n)" "json_hex (hex_digit n)"
    "hex_value (hex_digit n) = n"
  using assms by (auto simp: hex_digit_def json_hex_def hex_value_def is_digit_def)

lemma unicode_escape_value:
  assumes "r < 65536"
  shows "getu4 (unicode_escape r @ t) = Some r"
proof -
  have lt: "r div 4096 < 16" using assms by (simp add: less_mult_imp_div_less)
  have "r div 16 div 16 = r div 256" "r div 256 div 16 = r div 4096" by (simp_all flip: div_mult2_eq)
  then have "r = r div 4096 * 4096 + r div 256 mod 16 * 256 + r div 16 mod 16 * 16 + r mod 16"
    using div_mod_decomp [of r 16] div_mod_decomp [of "r div 16" 16] div_mod_decomp [of "r div 256" 16]
    by linarith
  with lt show ?thesis by (simp add: unicode_escape_def)
qed

lemma json_string_unicode_escape: "r < 65536 \<Longrightarrow> json_string (unicode_escape r @ t) = json_string t"
  by (simp add: unicode_escape_def less_mult_imp_div_less)

lemma json_string_plain: "list_all (\<lambda>c. 32 \<le> byte c \<and> byte c \<noteq> 34 \<and> byte c \<noteq> 92) w \<Longrightarrow> json_string (w @ t) = json_string t"
  by (induction w) auto

lemma json_string_escape_byte: "byte c < 128 \<Longrightarrow> json_string (escape_byte c @ t) = json_string t"
  by (auto simp: escape_byte_def json_string_unicode_escape byte_def)

lemma unquote_unicode_escape:
  "r < 65536 \<Longrightarrow> \<not> is_surrogate r \<Longrightarrow> unquote (unicode_escape r @ t) = encode_rune r @ unquote t"
  using unicode_escape_value [of r t] by (subst unquote.simps) (simp add: unicode_escape_def)

lemma encode_rune_high: "proper_rune r \<Longrightarrow> 128 \<le> r \<Longrightarrow> list_all (\<lambda>c. 128 \<le> byte c) (encode_rune r)"
  by (auto simp: encode_rune_proper rune_bytes_def proper_rune_def)

lemma getu4_other: "d \<noteq> CHR ''u'' \<Longrightarrow> getu4 (b # d # t) = None"
  by (cases "b # d # t" rule: getu4.cases) auto

lemma unquote_escape: "byte b = 92 \<Longrightarrow> simple_escape d \<Longrightarrow> unquote (b # d # t) = unescape d # unquote t"
proof -
  assume b: "byte b = 92" and d: "simple_escape d"
  then have "d \<noteq> CHR ''u''" by (auto simp: simple_escape_def byte_def)
  with b d show ?thesis by (subst unquote.simps) (simp add: getu4_other)
qed

lemma unquote_encode_rune:
  assumes "proper_rune r" "r \<noteq> 92"
  shows "unquote (encode_rune r @ t) = encode_rune r @ unquote t"
proof (cases "r < 128")
  case True
  with assms show ?thesis by (subst unquote.simps) (simp add: encode_rune_ascii)
next
  case False
  then obtain c u where e: "encode_rune r = c # u" and c: "128 \<le> byte c"
    using encode_rune_high [OF assms(1)] by (cases "encode_rune r") auto
  have "encode_rune r @ t \<noteq> []" by simp
  then show ?thesis
    using decode_encode_rune [OF assms(1), of t] e c by (subst unquote.simps) simp
qed

lemma unquote_escape_byte:
  "byte c < 128 \<Longrightarrow> unquote (escape_byte c @ t) = c # unquote t"
proof (cases "byte c \<in> {34, 92, 8, 12, 10, 13, 9}")
  case True
  then obtain k :: nat where k: "c = char_of k" "k \<in> {34, 92, 8, 12, 10, 13, 9}" by (metis char_of_byte)
  from k(2) show ?thesis
    by (elim insertE emptyE; simp add: k(1) escape_byte_def unquote_escape simple_escape_def unescape_def byte_def)
next
  case False
  assume "byte c < 128"
  moreover from this have "\<not> is_surrogate (byte c)" by (simp add: is_surrogate_def)
  moreover have "escape_byte c = unicode_escape (byte c)" using False by (simp add: escape_byte_def)
  ultimately show ?thesis by (simp add: unquote_unicode_escape encode_rune_ascii)
qed

lemma quote_rune_encoded:
  "proper_rune r \<Longrightarrow> quote_rune (encode_rune r @ t) =
     (if r < 128 then (if html_safe (char_of r) then [char_of r] else escape_byte (char_of r))
      else if r = 8232 \<or> r = 8233 then unicode_escape r else encode_rune r)"
  using encoded_not_error [of r]
  by (auto simp: quote_rune_def decode_encode_rune)

lemma json_string_quote_rune:
  assumes "proper_rune r"
  shows "json_string (quote_rune (encode_rune r @ t) @ u) = json_string u"
proof (cases "r < 128")
  case True
  then show ?thesis
    using assms json_string_escape_byte [of "char_of r" u] json_string_plain [of "[char_of r]" u]
    by (auto simp: quote_rune_encoded html_safe_def)
next
  case False
  then show ?thesis
    using assms encode_rune_high [of r]
    by (auto simp: quote_rune_encoded json_string_unicode_escape intro!: json_string_plain elim: list.pred_mono_strong)
qed

lemma unquote_quote_rune:
  assumes "proper_rune r"
  shows "unquote (quote_rune (encode_rune r @ t) @ u) = encode_rune r @ unquote u"
proof (cases "r < 128")
  case True
  have "html_safe (char_of r) \<Longrightarrow> r \<noteq> 92" using True by (auto simp: html_safe_def)
  then show ?thesis
    using assms True unquote_escape_byte [of "char_of r" u] unquote_encode_rune [of r u]
    by (subst quote_rune_encoded) (auto simp: encode_rune_ascii)
next
  case False
  then show ?thesis
    using assms by (auto simp: quote_rune_encoded unquote_unicode_escape unquote_encode_rune is_surrogate_def)
qed

lemma quote_body_encoded:
  "proper_rune r \<Longrightarrow> quote_body (encode_rune r @ t) = quote_rune (encode_rune r @ t) @ quote_body t"
  by (subst quote_body.simps) (simp add: decode_encode_rune)

lemma json_string_quote: "valid_utf8 s \<Longrightarrow> json_string (quote_body s @ quote_char # t) = Some t"
  by (induction s rule: valid_utf8_induct)
    (simp_all add: quote_body.simps [of "[]"] quote_char_def quote_body_encoded json_string_quote_rune)

lemma unquote_quote: "valid_utf8 s \<Longrightarrow> unquote (quote_body s) = s"
  by (induction s rule: valid_utf8_induct)
    (simp_all add: quote_body.simps [of "[]"] unquote.simps [of "[]"] quote_body_encoded unquote_quote_rune)

lemma read_string_quote: "valid_utf8 s \<Longrightarrow> read_string (quote_body s @ quote_char # t) = Some (s, t)"
  by (simp add: read_string_def json_string_quote unquote_quote)

lemma unescape_ascii: "simple_escape d \<Longrightarrow> byte (unescape d) < 128"
  by (auto simp: simple_escape_def unescape_def)

lemma valid_utf8_unquote: "valid_utf8 (unquote s)"
proof (induction s rule: unquote.induct)
  case (1 s)
  show ?case
  proof (cases s)
    case (Cons c t)
    consider r where "byte c = 92" "getu4 s = Some r" | "byte c = 92" "getu4 s = None" | "byte c \<noteq> 92" "byte c < 128"
      | "byte c \<noteq> 92" "\<not> byte c < 128"
      by blast
    then show ?thesis
    proof cases
      case 1
      then show ?thesis using "1.IH"(2-4) Cons by (subst unquote.simps) (auto split: option.split)
    next
      case 2
      then show ?thesis using "1.IH"(1) Cons by (subst unquote.simps) (auto simp: unescape_ascii split: list.split)
    next
      case 3
      then show ?thesis using "1.IH"(5) Cons by (subst unquote.simps) simp
    next
      case 4
      then show ?thesis using "1.IH"(6) Cons by (subst unquote.simps) simp
    qed
  qed (simp add: unquote.simps)
qed

section \<open>The round trip of numbers\<close>

text \<open>What may follow a number in a container: nothing a number could go on with.\<close>

definition number_ends :: "string \<Rightarrow> bool" where
  "number_ends t \<longleftrightarrow> (case t of [] \<Rightarrow> True | c # _ \<Rightarrow> \<not> is_digit c \<and> c \<notin> set ''.eE'')"

lemma number_ends_simps [simp]:
  "number_ends []" "number_ends (CHR '','' # t)" "number_ends (CHR '']'' # t)" "number_ends (CHR ''}'' # t)"
  by (simp_all add: number_ends_def is_digit_def byte_def)

text \<open>A number scanner looks one byte ahead: what it takes is taken as well in front of any
  text that starts with the same byte or cannot continue a number.\<close>

definition follows :: "string \<Rightarrow> string \<Rightarrow> bool" where
  "follows r u \<longleftrightarrow> number_ends u \<or> r \<noteq> [] \<and> u \<noteq> [] \<and> hd u = hd r"

definition looks_ahead :: "(string \<Rightarrow> string option) \<Rightarrow> bool" where
  "looks_ahead f \<longleftrightarrow> (\<forall>s r. f s = Some r \<longrightarrow> (\<exists>w. s = w @ r \<and> (\<forall>u. follows r u \<longrightarrow> f (w @ u) = Some u)))"

lemma looks_aheadI:
  "(\<And>s r. f s = Some r \<Longrightarrow> \<exists>w. s = w @ r \<and> (\<forall>u. follows r u \<longrightarrow> f (w @ u) = Some u)) \<Longrightarrow> looks_ahead f"
  by (simp add: looks_ahead_def)

lemma looks_aheadE:
  assumes "looks_ahead f" "f s = Some r"
  obtains w where "s = w @ r" "\<forall>u. follows r u \<longrightarrow> f (w @ u) = Some u"
  using assms unfolding looks_ahead_def by blast

lemma follows_append: "follows r u \<Longrightarrow> follows (w @ r) (w @ u)"
  by (cases w) (auto simp: follows_def)

lemma looks_ahead_bind:
  assumes f: "looks_ahead f" and g: "looks_ahead g"
  shows "looks_ahead (\<lambda>s. Option.bind (f s) g)"
proof (rule looks_aheadI)
  fix s r
  assume "Option.bind (f s) g = Some r"
  then obtain m where m: "f s = Some m" "g m = Some r" by (auto simp: Option.bind_eq_Some_conv)
  obtain v where v: "s = v @ m" "\<forall>u. follows m u \<longrightarrow> f (v @ u) = Some u"
    using f m(1) by (rule looks_aheadE)
  obtain w where w: "m = w @ r" "\<forall>u. follows r u \<longrightarrow> g (w @ u) = Some u"
    using g m(2) by (rule looks_aheadE)
  have "Option.bind (f ((v @ w) @ u)) g = Some u" if "follows r u" for u
    using v(2) w(2) that follows_append [OF that, of w] w(1) by simp
  then show "\<exists>w. s = w @ r \<and> (\<forall>u. follows r u \<longrightarrow> Option.bind (f (w @ u)) g = Some u)"
    using v(1) w(1) by (intro exI [of _ "v @ w"]) simp
qed

lemma looks_ahead_digits1: "looks_ahead json_digits1"
proof (rule looks_aheadI)
  fix s r
  assume "json_digits1 s = Some r"
  then obtain c t where s: "s = c # t" "is_digit c" "r = dropWhile is_digit t"
    by (auto simp: json_digits1_def split: list.splits if_splits)
  have "dropWhile is_digit u = u" if "follows r u" for u
    using that s(3) hd_dropWhile [of is_digit t]
    by (cases u) (auto simp: follows_def number_ends_def)
  moreover have "dropWhile is_digit (takeWhile is_digit t @ u) = dropWhile is_digit u" for u
    by (rule dropWhile_append2) (auto dest: set_takeWhileD)
  ultimately have taken: "dropWhile is_digit (takeWhile is_digit t @ u) = u" if "follows r u" for u
    using that by simp
  show "\<exists>w. s = w @ r \<and> (\<forall>u. follows r u \<longrightarrow> json_digits1 (w @ u) = Some u)"
    using s by (intro exI [of _ "c # takeWhile is_digit t"]) (simp add: json_digits1_def taken)
qed

lemma drop_byte_Some: "drop_byte c s = Some r \<longleftrightarrow> s = c # r"
  by (auto simp: drop_byte_def split: list.split)

lemma drop_byte_Cons [simp]: "drop_byte c (c # r) = Some r"
  by (simp add: drop_byte_def)

lemma drop_byte_None: "drop_byte c s = None \<longleftrightarrow> s = [] \<or> hd s \<noteq> c"
  by (auto simp: drop_byte_def split: list.split)

lemma json_digits1_first: "json_digits1 s = Some r \<Longrightarrow> s \<noteq> []"
  by (auto simp: json_digits1_def)

lemma looks_ahead_integer: "looks_ahead json_integer"
proof (rule looks_aheadI)
  fix s r
  assume j: "json_integer s = Some r"
  show "\<exists>w. s = w @ r \<and> (\<forall>u. follows r u \<longrightarrow> json_integer (w @ u) = Some u)"
  proof (cases "drop_byte CHR ''0'' s")
    case None
    then have "json_digits1 s = Some r" using j by (simp add: json_integer_def)
    with looks_ahead_digits1 obtain w where w: "s = w @ r" "\<forall>u. follows r u \<longrightarrow> json_digits1 (w @ u) = Some u"
      by (rule looks_aheadE)
    have "drop_byte CHR ''0'' (w @ u) = None" for u
      using None w(1) json_digits1_le [OF \<open>json_digits1 s = Some r\<close>] by (cases w) (auto simp: drop_byte_None)
    with w show ?thesis by (intro exI [of _ w]) (simp add: json_integer_def)
  next
    case (Some t)
    with j show ?thesis by (intro exI [of _ "''0''"]) (simp add: json_integer_def drop_byte_Some)
  qed
qed

lemma looks_ahead_fraction: "looks_ahead json_fraction"
proof (rule looks_aheadI)
  fix s r
  assume j: "json_fraction s = Some r"
  show "\<exists>w. s = w @ r \<and> (\<forall>u. follows r u \<longrightarrow> json_fraction (w @ u) = Some u)"
  proof (cases "drop_byte CHR ''.'' s")
    case None
    with j have "s = r" by (simp add: json_fraction_def)
    moreover have "drop_byte CHR ''.'' u = None" if "follows r u" for u
      using that None \<open>s = r\<close> by (cases u) (auto simp: drop_byte_None follows_def number_ends_def)
    ultimately show ?thesis by (intro exI [of _ "[]"]) (simp add: json_fraction_def)
  next
    case (Some t)
    with j have "json_digits1 t = Some r" by (simp add: json_fraction_def)
    with looks_ahead_digits1 obtain w where "t = w @ r" "\<forall>u. follows r u \<longrightarrow> json_digits1 (w @ u) = Some u"
      by (rule looks_aheadE)
    with Some show ?thesis
      by (intro exI [of _ "CHR ''.'' # w"]) (simp add: json_fraction_def drop_byte_Some)
  qed
qed

lemma looks_ahead_exponent: "looks_ahead json_exponent"
proof (rule looks_aheadI)
  fix s r
  assume j: "json_exponent s = Some r"
  let ?e = "\<lambda>c. c = CHR ''e'' \<or> c = CHR ''E''"
  show "\<exists>w. s = w @ r \<and> (\<forall>u. follows r u \<longrightarrow> json_exponent (w @ u) = Some u)"
  proof (cases "s \<noteq> [] \<and> ?e (hd s)")
    case False
    then have "s = r" using j by (cases s) (auto simp: json_exponent_def)
    moreover have "json_exponent u = Some u" if "follows r u" for u
      using that False \<open>s = r\<close> by (cases u) (auto simp: json_exponent_def follows_def number_ends_def)
    ultimately show ?thesis by (intro exI [of _ "[]"]) simp
  next
    case True
    then obtain c t where s: "s = c # t" "?e c" by (cases s) auto
    show ?thesis
    proof (cases "t \<noteq> [] \<and> (hd t = CHR ''+'' \<or> hd t = CHR ''-'')")
      case True
      then obtain d u where t: "t = d # u" "d = CHR ''+'' \<or> d = CHR ''-''" by (cases t) auto
      with s j have "json_digits1 u = Some r" by (auto simp: json_exponent_def)
      with looks_ahead_digits1 obtain w where "u = w @ r" "\<forall>u. follows r u \<longrightarrow> json_digits1 (w @ u) = Some u"
        by (rule looks_aheadE)
      with s t show ?thesis by (intro exI [of _ "c # d # w"]) (auto simp: json_exponent_def)
    next
      case False
      then have d: "json_digits1 t = Some r" using s j by (cases t) (auto simp: json_exponent_def)
      with looks_ahead_digits1 obtain w where w: "t = w @ r" "\<forall>u. follows r u \<longrightarrow> json_digits1 (w @ u) = Some u"
        by (rule looks_aheadE)
      have "w \<noteq> []" using json_digits1_le [OF d] w(1) by auto
      with s w False show ?thesis
        by (intro exI [of _ "c # w"]) (cases w; auto simp: json_exponent_def)
    qed
  qed
qed

lemma json_number_literal:
  assumes "json_number s = Some r"
  obtains w where "s = w @ r" "\<forall>u. follows r u \<longrightarrow> json_number (w @ u) = Some u"
proof -
  let ?g = "\<lambda>s. Option.bind (json_integer s) (\<lambda>s. Option.bind (json_fraction s) json_exponent)"
  have g: "looks_ahead ?g"
    by (intro looks_ahead_bind looks_ahead_integer looks_ahead_fraction looks_ahead_exponent)
  show thesis
  proof (cases "drop_byte CHR ''-'' s")
    case None
    then have j: "?g s = Some r" using assms by (simp add: json_number_def)
    with g obtain w where w: "s = w @ r" "\<forall>u. follows r u \<longrightarrow> ?g (w @ u) = Some u"
      by (rule looks_aheadE)
    have "w \<noteq> []" using json_number_le [OF assms] w(1) by auto
    then have "drop_byte CHR ''-'' (w @ u) = None" for u
      using None w(1) by (cases w) (auto simp: drop_byte_None)
    with w show thesis by (intro that [of w]) (simp_all add: json_number_def)
  next
    case (Some t)
    then have j: "?g t = Some r" using assms by (simp add: json_number_def)
    with g obtain w where w: "t = w @ r" "\<forall>u. follows r u \<longrightarrow> ?g (w @ u) = Some u"
      by (rule looks_aheadE)
    with Some show thesis
      by (intro that [of "CHR ''-'' # w"]) (simp_all add: json_number_def drop_byte_Some)
  qed
qed

definition number_literal :: "string \<Rightarrow> bool" where
  "number_literal w \<longleftrightarrow> json_number w = Some []"

lemma read_number_literal:
  "number_literal w \<Longrightarrow> number_ends t \<Longrightarrow> read_number (w @ t) = Some (Json_Number w, t)"
proof -
  assume "number_literal w" and t: "number_ends t"
  then have "json_number w = Some []" by (simp add: number_literal_def)
  then obtain v where "w = v @ []" "\<forall>u. follows [] u \<longrightarrow> json_number (v @ u) = Some u"
    by (rule json_number_literal)
  with t have "json_number (w @ t) = Some t" by (simp add: follows_def)
  then show ?thesis by (simp add: read_number_def)
qed

lemma read_number_takes_literal:
  assumes "read_number s = Some (v, r)"
  obtains w where "v = Json_Number w" "number_literal w" "s = w @ r"
proof -
  from assms have v: "v = Json_Number (take (length s - length r) s)" and j: "json_number s = Some r"
    by (auto simp: read_number_def)
  from j obtain w where w: "s = w @ r" "\<forall>u. follows r u \<longrightarrow> json_number (w @ u) = Some u"
    by (rule json_number_literal)
  from w(2) have "number_literal w" by (auto simp: follows_def number_literal_def dest: spec [of _ "[]"])
  with v w(1) show thesis by (intro that [of w]) simp_all
qed

section \<open>Members in order\<close>

abbreviation ordered :: "(string \<times> 'v) list \<Rightarrow> bool" where
  "ordered ms \<equiv> sorted_wrt (<) (map fst ms)"

lemma put_member_keys: "set (map fst (put_member k v ms)) = insert k (set (map fst ms))"
  by (induction k v ms rule: put_member.induct) (simp_all add: insert_commute)

lemma put_member_ordered: "ordered ms \<Longrightarrow> ordered (put_member k v ms)"
proof (induction k v ms rule: put_member.induct)
  case (2 k v a b ms)
  consider "k < a" | "k = a" | "a < k" using less_linear by blast
  then show ?case
  proof cases
    case 1
    with 2 show ?thesis by (auto intro: less_trans)
  next
    case 3
    with 2 have "\<forall>x\<in>set (map fst (put_member k v ms)). a < x" unfolding put_member_keys by simp
    with 2 3 show ?thesis by (simp add: order_less_not_sym)
  qed (use 2 in simp)
qed simp

lemma put_member_all:
  "m \<in> set (put_member k v ms) \<Longrightarrow> m = (k, v) \<or> m \<in> set ms"
  by (induction k v ms rule: put_member.induct) (auto split: if_splits)

lemma put_member_last: "\<forall>a\<in>fst ` set ms. a < k \<Longrightarrow> put_member k v ms = ms @ [(k, v)]"
  by (induction ms) auto

lemma map_of_put_member: "ordered ms \<Longrightarrow> map_of (put_member k v ms) = (map_of ms)(k \<mapsto> v)"
  by (induction ms) (auto simp: fun_eq_iff)

section \<open>Well-formed values\<close>

text \<open>What decoding can give: at most so many nested containers, number literals, texts of
  encoded runes, members in order.\<close>

fun wf_json :: "int \<Rightarrow> json \<Rightarrow> bool" where
  "wf_json d (Json_Number w) = number_literal w"
| "wf_json d (Json_String s) = valid_utf8 s"
| "wf_json d (Json_Array vs) = (0 < d \<and> (\<forall>v\<in>set vs. wf_json (d - 1) v))"
| "wf_json d (Json_Object ms) =
     (0 < d \<and> ordered ms \<and> (\<forall>m\<in>set ms. valid_utf8 (fst m) \<and> wf_json (d - 1) (snd m)))"
| "wf_json d _ = True"

section \<open>Fuel\<close>

text \<open>More fuel only defines more results.\<close>

definition less_defined :: "'a option \<Rightarrow> 'a option \<Rightarrow> bool" where
  "less_defined a b \<longleftrightarrow> a = None \<or> a = b"

lemma less_defined_refl [simp, intro]: "less_defined a a"
  by (simp add: less_defined_def)

lemma less_defined_None [simp, intro]: "less_defined None a"
  by (simp add: less_defined_def)

lemma less_defined_map [intro]: "less_defined a b \<Longrightarrow> less_defined (map_option f a) (map_option f b)"
  by (auto simp: less_defined_def)

lemma less_defined_bind [intro]:
  "less_defined a b \<Longrightarrow> (\<And>x. less_defined (f x) (g x)) \<Longrightarrow> less_defined (Option.bind a f) (Option.bind b g)"
  by (auto simp: less_defined_def split: Option.bind_splits)

lemma less_defined_next [intro]:
  "(\<And>t. less_defined (f t) (g t)) \<Longrightarrow> less_defined (read_next c x f s) (read_next c x g s)"
  by (simp add: read_next_def split: list.split)

lemma less_defined_if:
  "less_defined x y \<Longrightarrow> less_defined z w \<Longrightarrow> less_defined (if b then x else z) (if b then y else w)"
  by simp

lemma less_defined_option:
  "less_defined x y \<Longrightarrow> (\<And>a. less_defined (f a) (g a)) \<Longrightarrow>
   less_defined (case v of None \<Rightarrow> x | Some a \<Rightarrow> f a) (case v of None \<Rightarrow> y | Some a \<Rightarrow> g a)"
  by (simp split: option.split)

lemma less_defined_list:
  "less_defined x y \<Longrightarrow> (\<And>a as. less_defined (f a as) (g a as)) \<Longrightarrow>
   less_defined (case v of [] \<Rightarrow> x | a # as \<Rightarrow> f a as) (case v of [] \<Rightarrow> y | a # as \<Rightarrow> g a as)"
  by (simp split: list.split)

lemma less_defined_prod:
  "(\<And>a b. less_defined (f a b) (g a b)) \<Longrightarrow>
   less_defined (case p of (a, b) \<Rightarrow> f a b) (case p of (a, b) \<Rightarrow> g a b)"
  by (simp split: prod.split)

lemmas less_defined_intros = less_defined_refl less_defined_if less_defined_option less_defined_list
  less_defined_prod less_defined_map less_defined_bind less_defined_next

lemma less_definedD: "less_defined a b \<Longrightarrow> a = Some x \<Longrightarrow> b = Some x"
  by (auto simp: less_defined_def)

lemma read_more_fuel:
  "(\<forall>d s. less_defined (read_value n d s) (read_value (Suc n) d s))
   \<and> (\<forall>d ms s. less_defined (read_members n d ms s) (read_members (Suc n) d ms s))
   \<and> (\<forall>d vs s. less_defined (read_elements n d vs s) (read_elements (Suc n) d vs s))"
proof (induction n)
  case (Suc n)
  then have v: "less_defined (read_value n d s) (read_value (Suc n) d s)"
    and m: "less_defined (read_members n d ms s) (read_members (Suc n) d ms s)"
    and e: "less_defined (read_elements n d vs s) (read_elements (Suc n) d vs s)" for d s ms vs
    by blast+
  have "less_defined (read_value (Suc n) d s) (read_value (Suc (Suc n)) d s)" for d s
    unfolding read_value.simps(2) [of "Suc n"] read_value.simps(2) [of n]
    by (intro less_defined_intros m e)
  moreover have "less_defined (read_members (Suc n) d ms s) (read_members (Suc (Suc n)) d ms s)" for d ms s
    unfolding read_members.simps(2) [of "Suc n" d ms s] read_members.simps(2) [of n d ms s]
    by (intro less_defined_intros v m)
  moreover have "less_defined (read_elements (Suc n) d vs s) (read_elements (Suc (Suc n)) d vs s)" for d vs s
    unfolding read_elements.simps(2) [of "Suc n" d vs s] read_elements.simps(2) [of n d vs s]
    by (intro less_defined_intros v e)
  ultimately show ?case by blast
qed simp


lemma less_defined_chain:
  assumes "\<And>n. less_defined (f n) (f (Suc n))" "f n = Some x" "n \<le> m"
  shows "f m = Some x"
  using assms(3) by (induction m rule: dec_induct) (auto intro: assms(2) less_definedD [OF assms(1)])

lemma less_defined_read:
  "less_defined (read_value n d s) (read_value (Suc n) d s)"
  "less_defined (read_members n d ms s) (read_members (Suc n) d ms s)"
  "less_defined (read_elements n d vs s) (read_elements (Suc n) d vs s)"
  using read_more_fuel [of n] by blast+

lemmas read_value_fuel = less_defined_chain [where f = "\<lambda>n. read_value n d s" for d s, OF less_defined_read(1)]
  and read_members_fuel = less_defined_chain [where f = "\<lambda>n. read_members n d ms s" for d ms s, OF less_defined_read(2)]
  and read_elements_fuel = less_defined_chain [where f = "\<lambda>n. read_elements n d vs s" for d vs s, OF less_defined_read(3)]

text \<open>Reading succeeds where checking does, with the same rest.\<close>

lemma read_string_rest: "map_option snd (read_string s) = json_string s"
  by (simp add: read_string_def option.map_comp comp_def option.map_ident)

lemma read_key_rest: "map_option snd (read_key s) = json_key s"
proof -
  have "map_option snd (Option.bind (read_string t) (\<lambda>(k, r). map_option (Pair k) (drop_byte CHR '':'' (skip_space r))))
      = Option.bind (json_string t) (\<lambda>r. drop_byte CHR '':'' (skip_space r))" for t
    by (cases "json_string t") (auto simp: read_string_def option.map_comp comp_def option.map_ident)
  then show ?thesis by (simp add: read_key_def json_key_def split: list.split)
qed

lemma read_next_rest:
  "(\<And>t. map_option snd (f t) = g t) \<Longrightarrow> map_option snd (read_next c x f s) = json_next c g s"
  by (simp add: read_next_def json_next_def split: list.split)

lemma map_snd_bind:
  assumes "map_option snd a = b" "\<And>x r. map_option snd (f x r) = g r"
  shows "map_option snd (Option.bind a (\<lambda>(x, r). f x r)) = Option.bind b g"
  using assms by (cases a) auto

lemma read_rest:
  "(\<forall>d s. map_option snd (read_value n d s) = json_value n d s)
   \<and> (\<forall>d ms s. map_option snd (read_members n d ms s) = json_members n d s)
   \<and> (\<forall>d vs s. map_option snd (read_elements n d vs s) = json_elements n d s)"
proof (induction n)
  case (Suc n)
  then have v: "map_option snd (read_value n d s) = json_value n d s"
    and m: "map_option snd (read_members n d ms s) = json_members n d s"
    and e: "map_option snd (read_elements n d vs s) = json_elements n d s" for d s ms vs
    by blast+
  have m': "map_option snd (map_option (map_prod f id) (read_members n d ms s)) = json_members n d s"
    and e': "map_option snd (map_option (map_prod g id) (read_elements n d vs s)) = json_elements n d s"
    for f :: "_ \<Rightarrow> json" and g :: "_ \<Rightarrow> json" and d ms vs s
    using m e by (simp_all add: option.map_comp comp_def)
  have l: "map_option snd (read_literal w x t) = json_literal w t" for w x t
    by (simp add: read_literal_def option.map_comp comp_def option.map_ident)
  have num: "map_option snd (read_number t) = json_number t" for t
    by (simp add: read_number_def option.map_comp comp_def option.map_ident)
  have str: "map_option snd (map_option (map_prod f id) (read_string t)) = json_string t" for f :: "_ \<Rightarrow> json" and t
    using read_string_rest [of t] by (simp add: option.map_comp comp_def)
  have "map_option snd (read_value (Suc n) d s) = json_value (Suc n) d s" for d s
    unfolding read_value.simps(2) json_value.simps(2)
    by (cases "skip_space s")
      (simp_all only: list.case if_distrib [of "map_option snd"] option.case_distrib [of "map_option snd"] m' e' l num str option.map snd_conv)
  moreover have "map_option snd (read_members (Suc n) d ms s) = json_members (Suc n) d s" for d ms s
    unfolding read_members.simps(2) json_members.simps(2)
    by (intro map_snd_bind read_key_rest v read_next_rest m)
  moreover have "map_option snd (read_elements (Suc n) d vs s) = json_elements (Suc n) d s" for d vs s
    unfolding read_elements.simps(2) json_elements.simps(2)
    by (intro map_snd_bind v read_next_rest e)
  ultimately show ?case by blast
qed simp

lemma read_value_enough:
  assumes "read_value n d s = Some x"
  shows "read_value (2 * length s + 1) d s = Some x"
proof -
  let ?k = "2 * length s + 1"
  have big: "read_value (max n ?k) d s = Some x" using assms by (rule read_value_fuel) simp
  then have "json_value (max n ?k) d s = Some (snd x)" using read_rest [of "max n ?k"] by (metis option.simps(9))
  then have "json_value ?k d s = Some (snd x)" using json_fuel_enough [of s "max n ?k" d] by simp
  then obtain y where "read_value ?k d s = Some y" using read_rest [of ?k] by (metis map_option_eq_Some)
  moreover from this have "read_value (max n ?k) d s = Some y" by (rule read_value_fuel) simp
  ultimately show ?thesis using big by simp
qed

lemma decode_json_valid: "decode_json s = None \<longleftrightarrow> \<not> json_valid s"
proof -
  let ?k = "2 * length s + 1"
  have "map_option snd (read_value ?k max_nesting s) = json_value ?k max_nesting s" using read_rest by blast
  then show ?thesis
    by (cases "read_value ?k max_nesting s")
      (auto simp: decode_json_def json_valid_def simp del: read_value.simps json_value.simps split: option.splits)
qed

section \<open>Decoding gives well-formed values\<close>

definition good_members :: "int \<Rightarrow> (string \<times> json) list \<Rightarrow> bool" where
  "good_members d ms \<longleftrightarrow> ordered ms \<and> (\<forall>m\<in>set ms. valid_utf8 (fst m) \<and> wf_json d (snd m))"

definition good_elements :: "int \<Rightarrow> json list \<Rightarrow> bool" where
  "good_elements d vs \<longleftrightarrow> (\<forall>v\<in>set vs. wf_json d v)"

lemma read_string_valid: "read_string s = Some (w, r) \<Longrightarrow> valid_utf8 w"
  by (auto simp: read_string_def valid_utf8_unquote)

lemma read_key_valid: "read_key s = Some (k, r) \<Longrightarrow> valid_utf8 k"
  by (auto simp: read_key_def Option.bind_eq_Some_conv read_string_valid split: list.splits if_splits)

lemma read_next_holds:
  "read_next c x f s = Some (y, r) \<Longrightarrow> P x \<Longrightarrow> (\<And>t. f t = Some (y, r) \<Longrightarrow> P y) \<Longrightarrow> P y"
  by (auto simp: read_next_def split: list.splits if_splits)

lemma good_put: "good_members d ms \<Longrightarrow> valid_utf8 k \<Longrightarrow> wf_json d v \<Longrightarrow> good_members d (put_member k v ms)"
  by (auto simp: good_members_def put_member_ordered dest: put_member_all)

lemma read_well_formed:
  "(\<forall>d s v r. read_value n d s = Some (v, r) \<longrightarrow> wf_json d v)
   \<and> (\<forall>d ms s x r. read_members n d ms s = Some (x, r) \<longrightarrow> good_members d ms \<longrightarrow> good_members d x)
   \<and> (\<forall>d vs s x r. read_elements n d vs s = Some (x, r) \<longrightarrow> good_elements d vs \<longrightarrow> good_elements d x)"
proof (induction n)
  case (Suc n)
  then have v: "read_value n d s = Some (v, r) \<Longrightarrow> wf_json d v"
    and m: "read_members n d ms s = Some (ms', r) \<Longrightarrow> good_members d ms \<Longrightarrow> good_members d ms'"
    and e: "read_elements n d vs s = Some (vs', r) \<Longrightarrow> good_elements d vs \<Longrightarrow> good_elements d vs'"
    for d s v r ms ms' vs vs'
    by blast+
  have empty: "good_members d []" "good_elements d []" for d
    by (simp_all add: good_members_def good_elements_def)
  have "wf_json d v" if r: "read_value (Suc n) d s = Some (v, r)" for d s v r
  proof (cases "skip_space s")
    case (Cons c t)
    have obj: "wf_json d v" if "0 < d" "map_option (map_prod Json_Object id) (read_members n (d - 1) [] t) = Some (v, r)"
      using that m [OF _ empty(1)] by (auto simp: good_members_def)
    have arr: "wf_json d v" if "0 < d" "map_option (map_prod Json_Array id) (read_elements n (d - 1) [] t) = Some (v, r)"
      using that e [OF _ empty(2)] by (auto simp: good_elements_def)
    have lit: "wf_json d v" if "read_literal w x t = Some (v, r)" "wf_json d x" for w x
      using that by (auto simp: read_literal_def)
    have str: "wf_json d v" if "map_option (map_prod Json_String id) (read_string t) = Some (v, r)"
      using that read_string_valid by auto
    have num: "wf_json d v" if "read_number u = Some (v, r)" for u
      using that by (rule read_number_takes_literal) simp
    from r show ?thesis
      unfolding read_value.simps(2) Cons list.case
      by (simp only: not_le split: if_split_asm option.split_asm)
        (use obj arr lit str num in \<open>auto simp: not_le simp del: read_members.simps read_elements.simps\<close>)
  qed (use r in simp)
  moreover have "good_members d x" if "read_members (Suc n) d ms s = Some (x, r)" "good_members d ms" for d ms s x r
  proof -
    from that(1) obtain k w v u where k: "read_key s = Some (k, w)" "read_value n d w = Some (v, u)"
      "read_next CHR ''}'' (put_member k v ms) (\<lambda>m. read_members n d (put_member k v ms) m) u = Some (x, r)"
      by (auto simp: Option.bind_eq_Some_conv)
    have g: "good_members d (put_member k v ms)"
      using good_put [OF that(2) read_key_valid [OF k(1)] v [OF k(2)]] .
    show ?thesis by (rule read_next_holds [OF k(3)]) (use g m in blast)+
  qed
  moreover have "good_elements d x" if "read_elements (Suc n) d vs s = Some (x, r)" "good_elements d vs" for d vs s x r
  proof -
    from that(1) obtain v u where k: "read_value n d s = Some (v, u)"
      "read_next CHR '']'' (vs @ [v]) (\<lambda>m. read_elements n d (vs @ [v]) m) u = Some (x, r)"
      by (auto simp: Option.bind_eq_Some_conv)
    have g: "good_elements d (vs @ [v])"
      using that(2) v [OF k(1)] by (simp add: good_elements_def)
    show ?thesis by (rule read_next_holds [OF k(2)]) (use g e in blast)+
  qed
  ultimately show ?case by blast
qed simp

lemma decode_json_wf: "decode_json s = Some v \<Longrightarrow> wf_json max_nesting v"
proof -
  assume "decode_json s = Some v"
  then obtain r where "read_value (2 * length s + 1) max_nesting s = Some (v, r)"
    unfolding decode_json_def by (auto split: option.split_asm if_split_asm simp del: read_value.simps)
  with read_well_formed show ?thesis by blast
qed

section \<open>The round trip of values\<close>

text \<open>The first byte of a written value is not white space and does not close a container.\<close>

definition opens_value :: "string \<Rightarrow> bool" where
  "opens_value s \<longleftrightarrow> (case s of [] \<Rightarrow> False | c # _ \<Rightarrow> \<not> json_space c \<and> byte c \<notin> {125, 93, 44})"

lemma opens_value_append: "opens_value s \<Longrightarrow> opens_value (s @ t)"
  by (cases s) (auto simp: opens_value_def)

lemma skip_opened: "opens_value s \<Longrightarrow> skip_space s = s"
  by (cases s) (auto simp: opens_value_def skip_space_def)

lemma number_literal_first:
  "number_literal w \<Longrightarrow> opens_value w \<and> w \<noteq> [] \<and> (is_digit (hd w) \<or> hd w = CHR ''-'')"
proof -
  assume "number_literal w"
  then have "w \<noteq> []" "is_digit (hd w) \<or> hd w = CHR ''-''"
    by (auto simp: number_literal_def json_number_def json_integer_def json_digits1_def drop_byte_def is_digit_def byte_def
        Option.bind_eq_Some_conv split: option.splits list.splits if_splits)
  then show ?thesis by (cases w) (auto simp: opens_value_def json_space_def is_digit_def byte_def)
qed

lemma opens_marshal: "wf_json d v \<Longrightarrow> opens_value (marshal v)"
  using number_literal_first
  by (cases v) (auto simp: opens_value_def quote_def quote_char_def json_space_def byte_def)


lemma opened_not_closed:
  "opens_value s \<Longrightarrow> drop_byte CHR ''}'' (skip_space s) = None"
  "opens_value s \<Longrightarrow> drop_byte CHR '']'' (skip_space s) = None"
  by (cases s; auto simp: opens_value_def skip_space_def drop_byte_def byte_def)+

lemma skip_delimiter [simp]:
  "skip_space (CHR '','' # t) = CHR '','' # t" "skip_space (CHR '']'' # t) = CHR '']'' # t"
  "skip_space (CHR ''}'' # t) = CHR ''}'' # t" "skip_space (CHR '':'' # t) = CHR '':'' # t"
  "skip_space (CHR ''['' # t) = CHR ''['' # t" "skip_space (CHR ''{'' # t) = CHR ''{'' # t"
  "skip_space (quote_char # t) = quote_char # t"
  by (simp_all add: skip_space_def json_space_def byte_def quote_char_def)

lemma read_next_simps [simp]:
  "read_next c x f (CHR '','' # t) = f t"
  "c \<noteq> CHR '','' \<Longrightarrow> skip_space (c # t) = c # t \<Longrightarrow> read_next c x f (c # t) = Some (x, t)"
  by (simp_all add: read_next_def)

lemma byte_quote_char [simp]: "byte quote_char = 34"
  by (simp add: quote_char_def)

lemma read_key_quote: "valid_utf8 k \<Longrightarrow> read_key (quote k @ CHR '':'' # t) = Some (k, t)"
  by (simp add: read_key_def quote_def read_string_quote)

definition reads :: "int \<Rightarrow> json \<Rightarrow> bool" where
  "reads d v \<longleftrightarrow> (\<forall>t. number_ends t \<longrightarrow> (\<exists>n. read_value n d (marshal v @ t) = Some (v, t)))"

lemma readsE:
  assumes "reads d v" "number_ends t"
  obtains n where "read_value n d (marshal v @ t) = Some (v, t)"
  using assms unfolding reads_def by blast

lemma read_elements_marshal:
  "\<lbrakk>vs \<noteq> []; \<And>v. v \<in> set vs \<Longrightarrow> reads d v\<rbrakk> \<Longrightarrow>
   \<exists>n. read_elements n d acc (join_with '','' (map marshal vs) @ CHR '']'' # t) = Some (acc @ vs, t)"
proof (induction vs arbitrary: acc)
  case (Cons v vs)
  have r: "reads d v" using Cons.prems(2) by simp
  show ?case
  proof (cases vs)
    case Nil
    obtain n where "read_value n d (marshal v @ CHR '']'' # t) = Some (v, CHR '']'' # t)"
      using r by (auto elim: readsE [of d v "CHR '']'' # t"])
    then show ?thesis using Nil by (intro exI [of _ "Suc n"]) simp
  next
    case (Cons w ws)
    let ?rest = "join_with '','' (map marshal vs) @ CHR '']'' # t"
    obtain n where n: "read_elements n d (acc @ [v]) ?rest = Some ((acc @ [v]) @ vs, t)"
      using Cons.IH [of "acc @ [v]"] Cons Cons.prems by auto
    obtain m where m: "read_value m d (marshal v @ CHR '','' # ?rest) = Some (v, CHR '','' # ?rest)"
      using r by (auto elim: readsE [of d v "CHR '','' # ?rest"])
    have "read_elements (Suc (max n m)) d acc (marshal v @ CHR '','' # ?rest) = Some (acc @ v # vs, t)"
      using read_value_fuel [OF m, of "max n m"] read_elements_fuel [OF n, of "max n m"] by simp
    moreover have "join_with '','' (map marshal (v # vs)) @ CHR '']'' # t = marshal v @ CHR '','' # ?rest"
      using Cons by simp
    ultimately show ?thesis by metis
  qed
qed simp

definition member_text :: "string \<times> json \<Rightarrow> string" where
  "member_text m = (case m of (k, v) \<Rightarrow> quote k @ '':'' @ marshal v)"

lemma read_members_marshal:
  "\<lbrakk>ms \<noteq> []; \<And>m. m \<in> set ms \<Longrightarrow> valid_utf8 (fst m) \<and> reads d (snd m); ordered (acc @ ms)\<rbrakk> \<Longrightarrow>
   \<exists>n. read_members n d acc (join_with '','' (map member_text ms) @ CHR ''}'' # t) = Some (acc @ ms, t)"
proof (induction ms arbitrary: acc)
  case (Cons m ms)
  obtain k v where m: "m = (k, v)" by (cases m)
  have k: "valid_utf8 k" and r: "reads d v" using Cons.prems(2) [of m] m by auto
  have last: "put_member k v acc = acc @ [(k, v)]"
    using Cons.prems(3) m by (intro put_member_last) (auto simp: sorted_wrt_append)
  show ?case
  proof (cases ms)
    case Nil
    obtain n where "read_value n d (marshal v @ CHR ''}'' # t) = Some (v, CHR ''}'' # t)"
      using r by (auto elim: readsE [of d v "CHR ''}'' # t"])
    then show ?thesis
      using Nil m last by (intro exI [of _ "Suc n"]) (simp add: member_text_def read_key_quote [OF k])
  next
    case (Cons w ws)
    let ?rest = "join_with '','' (map member_text ms) @ CHR ''}'' # t"
    obtain n where n: "read_members n d (acc @ [m]) ?rest = Some ((acc @ [m]) @ ms, t)"
      using Cons.IH [of "acc @ [m]"] Cons Cons.prems by auto
    obtain j where j: "read_value j d (marshal v @ CHR '','' # ?rest) = Some (v, CHR '','' # ?rest)"
      using r by (auto elim: readsE [of d v "CHR '','' # ?rest"])
    have "read_members (Suc (max n j)) d acc (quote k @ CHR '':'' # marshal v @ CHR '','' # ?rest) = Some (acc @ m # ms, t)"
      using read_value_fuel [OF j, of "max n j"] read_members_fuel [OF n, of "max n j"] last m
      by (simp add: read_key_quote [OF k])
    moreover have "join_with '','' (map member_text (m # ms)) @ CHR ''}'' # t = quote k @ CHR '':'' # marshal v @ CHR '','' # ?rest"
      using Cons m by (simp add: member_text_def)
    ultimately show ?thesis by metis
  qed
qed simp


lemma marshal_object: "marshal (Json_Object ms) = ''{'' @ join_with '','' (map member_text ms) @ ''}''"
  by (simp add: member_text_def cong: map_cong)

lemma read_array:
  assumes "0 < d" "vs \<noteq> []" "opens_value s" "read_elements n (d - 1) [] s = Some (vs, t)"
  shows "read_value (Suc n) d (CHR ''['' # s) = Some (Json_Array vs, t)"
  using assms by (simp add: opened_not_closed)

lemma read_object:
  assumes "0 < d" "opens_value s" "read_members n (d - 1) [] s = Some (ms, t)"
  shows "read_value (Suc n) d (CHR ''{'' # s) = Some (Json_Object ms, t)"
  using assms by (simp add: opened_not_closed)

lemma opens_join:
  "opens_value s \<Longrightarrow> opens_value (join_with sep (s # ss) @ t)"
  by (cases ss) (simp_all add: opens_value_append)

lemma reads_array:
  assumes d: "0 < d" and vs: "\<forall>v\<in>set vs. wf_json (d - 1) v \<and> reads (d - 1) v"
  shows "reads d (Json_Array vs)"
  unfolding reads_def
proof (intro allI impI)
  fix t
  show "\<exists>n. read_value n d (marshal (Json_Array vs) @ t) = Some (Json_Array vs, t)"
  proof (cases vs)
    case Nil
    with d show ?thesis by (intro exI [of _ "Suc 0"]) simp
  next
    case (Cons w ws)
    obtain n where n: "read_elements n (d - 1) [] (join_with '','' (map marshal vs) @ CHR '']'' # t) = Some ([] @ vs, t)"
      using read_elements_marshal [of vs "d - 1" "[]" t] Cons vs by auto
    have "opens_value (join_with '','' (map marshal vs) @ CHR '']'' # t)"
      using Cons vs opens_join [OF opens_marshal [of "d - 1" w]] by simp
    from read_array [OF d _ this, of vs n t] n Cons show ?thesis by (intro exI [of _ "Suc n"]) simp
  qed
qed

lemma reads_object:
  assumes d: "0 < d" and o: "ordered ms"
    and ms: "\<forall>m\<in>set ms. valid_utf8 (fst m) \<and> reads (d - 1) (snd m)"
  shows "reads d (Json_Object ms)"
  unfolding reads_def
proof (intro allI impI)
  fix t
  show "\<exists>n. read_value n d (marshal (Json_Object ms) @ t) = Some (Json_Object ms, t)"
  proof (cases ms)
    case Nil
    with d show ?thesis by (intro exI [of _ "Suc 0"]) simp
  next
    case (Cons m ns)
    obtain n where n: "read_members n (d - 1) [] (join_with '','' (map member_text ms) @ CHR ''}'' # t) = Some ([] @ ms, t)"
      using read_members_marshal [of ms "d - 1" "[]" t] Cons ms o by auto
    have "opens_value (member_text m)"
      by (simp add: member_text_def quote_def opens_value_def json_space_def split: prod.split)
    then have "opens_value (join_with '','' (map member_text ms) @ CHR ''}'' # t)"
      using Cons opens_join by simp
    from read_object [OF d this, of n ms t] n show ?thesis
      unfolding marshal_object by (intro exI [of _ "Suc n"]) simp
  qed
qed

lemma reads_number: "number_literal w \<Longrightarrow> reads d (Json_Number w)"
  unfolding reads_def
proof (intro allI impI exI [of _ "Suc 0"])
  fix t
  assume w: "number_literal w" and t: "number_ends t"
  from number_literal_first [OF w] obtain c u where c: "w = c # u" "is_digit c \<or> c = CHR ''-''" and op: "opens_value w"
    by (cases w) auto
  have "byte c \<noteq> 34" "c \<notin> set ''{[tfn''" using c(2) by (auto simp: is_digit_def byte_def)
  moreover have "skip_space (w @ t) = c # u @ t" using skip_opened [OF opens_value_append [OF op]] c(1) by simp
  ultimately show "read_value (Suc 0) d (marshal (Json_Number w) @ t) = Some (Json_Number w, t)"
    using read_number_literal [OF w t] c(1) by simp
qed

lemma quote_char_opens_no_container [simp]: "quote_char \<noteq> CHR ''{''" "quote_char \<noteq> CHR ''[''"
proof -
  have "byte quote_char \<noteq> byte (CHR ''{'')" "byte quote_char \<noteq> byte (CHR ''['')"
    unfolding byte_quote_char by (simp_all add: byte_def)
  then show "quote_char \<noteq> CHR ''{''" "quote_char \<noteq> CHR ''[''" by auto
qed

lemma wf_reads: "wf_json d v \<Longrightarrow> reads d v"
proof (induction v arbitrary: d)
  case (Json_Array vs)
  then show ?case by (intro reads_array) auto
next
  case (Json_Object ms)
  then show ?case by (intro reads_object) (auto simp: prod_set_defs)
next
  case (Json_String s)
  then show ?case
    unfolding reads_def by (intro allI impI exI [of _ "Suc 0"]) (simp add: quote_def read_string_quote)
qed (auto simp: reads_number, auto simp: reads_def read_literal_def json_literal_def skip_space_def json_space_def byte_def
     intro!: exI [of _ "Suc 0"])

theorem decode_marshal:
  assumes "wf_json max_nesting v"
  shows "decode_json (marshal v) = Some v"
proof -
  obtain n where "read_value n max_nesting (marshal v @ []) = Some (v, [])"
    using wf_reads [OF assms] by (auto elim: readsE [of _ v "[]"])
  then show ?thesis
    using read_value_enough [of n max_nesting "marshal v"]
    by (simp add: decode_json_def skip_space_def del: read_value.simps)
qed

end
