(* ===== verification/Idempotency.thy ===== *)
theory Idempotency
  imports Go_Sha256 Go_Json_Data "HOL-Library.Product_Lexorder"
begin

text \<open>
  \<open>internal/platform/idempotency\<close>: receipts that make a command run once. \<open>Begin\<close> stores a
  receipt for a key and the hash of the canonical payload, \<open>Claim\<close> leases due receipts to a
  worker and numbers the attempt, \<open>RecordOutcome\<close> closes the attempt it names. The service
  calls a \<open>Store\<close> interface: its operations take the store's functions as arguments, the
  locale \<open>receipt_store\<close> states what the store promises, and the PostgreSQL store of
  \<open>store.go\<close> interprets it.

  A table is the list of its rows. What a statement takes from the database beside its
  arguments is a \<open>world\<close>: the clock, the rows other transactions hold locked, and the way
  \<open>jsonb\<close> stores a document (a parameter, \<open>None\<close> where the database refuses it). Every
  operation runs in the caller's transaction, so an error leaves the table unchanged.
\<close>

section \<open>Keys and payloads\<close>

datatype idem_error =
    Invalid_Key
  | Invalid_Payload
  | Payload_Mismatch
  | Invalid_Claim
  | Concurrent_Update
  | Database_Error

definition parse_key :: "string \<Rightarrow> idem_error + string" where
  "parse_key raw =
     (if trim_space raw \<noteq> raw \<or> length raw < 8 \<or> 200 < length raw then Inl Invalid_Key
      else if list_ex (\<lambda>r. is_control r \<or> is_space r) (runes raw) then Inl Invalid_Key
      else Inr raw)"

definition canonical_payload :: "string \<Rightarrow> string option" where
  "canonical_payload p = (if p = [] then None else map_option marshal (decode_json p))"

definition canonical_payload_hash :: "string \<Rightarrow> idem_error + string" where
  "canonical_payload_hash p =
     (case canonical_payload p of None \<Rightarrow> Inl Invalid_Payload | Some c \<Rightarrow> Inr (sha256 c))"

section \<open>Receipts\<close>

datatype receipt_status =
    Receipt_Accepted | Receipt_Queued | Receipt_Attempted | Receipt_Executed
  | Receipt_Outcome_Unknown | Receipt_Reconciled | Receipt_Failed

definition valid_outcome_status :: "receipt_status \<Rightarrow> bool" where
  "valid_outcome_status s \<longleftrightarrow>
     s \<in> {Receipt_Queued, Receipt_Executed, Receipt_Outcome_Unknown, Receipt_Reconciled, Receipt_Failed}"

record idem_receipt =
  rc_key :: string
  rc_payload_hash :: string
  rc_status :: receipt_status
  rc_response :: "string option"
  rc_attempt_count :: int
  rc_max_attempts :: int
  rc_next_attempt_at :: time
  rc_lease_owner :: string
  rc_lease_expires_at :: "time option"
  rc_last_error_code :: string
  rc_created_at :: time
  rc_updated_at :: time

record begin_command =
  bc_key :: string
  bc_payload :: string
  bc_max_attempts :: int

record claim_command =
  cl_owner :: string
  cl_limit :: int
  cl_lease_duration :: duration
  cl_now :: time

record outcome_command =
  oc_key :: string
  oc_status :: receipt_status
  oc_response :: string
  oc_last_error_code :: string
  oc_next_attempt_at :: "time option"
  oc_expected_attempt :: int

section \<open>The service over a store\<close>

type_synonym ('w, 's) put_operation = "'w \<Rightarrow> idem_receipt \<Rightarrow> 's \<Rightarrow> idem_error + (idem_receipt \<times> bool \<times> 's)"
type_synonym ('w, 's) claim_operation = "'w \<Rightarrow> claim_command \<Rightarrow> 's \<Rightarrow> idem_error + (idem_receipt list \<times> 's)"
type_synonym ('w, 's) outcome_operation = "'w \<Rightarrow> outcome_command \<Rightarrow> 's \<Rightarrow> idem_error + (idem_receipt \<times> 's)"

definition default_attempts :: "int \<Rightarrow> int" where
  "default_attempts n = (if n = 0 then 8 else n)"

definition fresh_receipt :: "begin_command \<Rightarrow> string \<Rightarrow> time \<Rightarrow> idem_receipt" where
  "fresh_receipt c h now =
     \<lparr>rc_key = bc_key c, rc_payload_hash = h, rc_status = Receipt_Accepted, rc_response = None,
      rc_attempt_count = 0, rc_max_attempts = default_attempts (bc_max_attempts c), rc_next_attempt_at = now,
      rc_lease_owner = [], rc_lease_expires_at = None, rc_last_error_code = [], rc_created_at = 0, rc_updated_at = 0\<rparr>"

text \<open>The result of \<open>Begin\<close> is the stored receipt and whether it is a replay.\<close>

definition begin_within ::
  "('w, 's) put_operation \<Rightarrow> 'w \<Rightarrow> time \<Rightarrow> begin_command \<Rightarrow> 's \<Rightarrow> idem_error + ((idem_receipt \<times> bool) \<times> 's)" where
  "begin_within put w now c s =
     and_then (parse_key (bc_key c)) (\<lambda>_.
     and_then (canonical_payload_hash (bc_payload c)) (\<lambda>h.
       if default_attempts (bc_max_attempts c) < 1 then Inl Invalid_Payload
       else and_then (put w (fresh_receipt c h (utc now)) s) (\<lambda>(stored, created, t).
         if rc_payload_hash stored \<noteq> h then Inl Payload_Mismatch else Inr ((stored, \<not> created), t))))"

definition claim_within ::
  "('w, 's) claim_operation \<Rightarrow> 'w \<Rightarrow> time \<Rightarrow> claim_command \<Rightarrow> 's \<Rightarrow> idem_error + (idem_receipt list \<times> 's)" where
  "claim_within claim w now c s =
     (if trim_space (cl_owner c) \<noteq> cl_owner c \<or> cl_owner c = [] \<or> cl_limit c < 1 \<or> 100 < cl_limit c
         \<or> cl_lease_duration c \<le> 0 then Inl Invalid_Claim
      else claim w (if is_zero (cl_now c) then c\<lparr>cl_now := utc now\<rparr> else c) s)"

definition record_within ::
  "('w, 's) outcome_operation \<Rightarrow> 'w \<Rightarrow> outcome_command \<Rightarrow> 's \<Rightarrow> idem_error + (idem_receipt \<times> 's)" where
  "record_within record_outcome w c s =
     (if \<not> is_ok (parse_key (oc_key c)) then Inl Invalid_Payload
      else if oc_expected_attempt c < 1 \<or> \<not> valid_outcome_status (oc_status c)
        \<or> oc_status c = Receipt_Queued \<and> oc_next_attempt_at c = None then Inl Invalid_Payload
      else if 0 < length (oc_response c) \<and> \<not> json_valid (oc_response c) then Inl Invalid_Payload
      else if trim_space (oc_last_error_code c) \<noteq> oc_last_error_code c then Inl Invalid_Payload
      else record_outcome w c s)"

section \<open>The PostgreSQL store\<close>

record world =
  clock :: time
  locked :: "string list"
  jsonb :: "string \<Rightarrow> string option"

record receipt_row =
  rr_key :: string
  rr_payload_hash :: string
  rr_status :: receipt_status
  rr_response :: "string option"
  rr_attempt_count :: int
  rr_max_attempts :: int
  rr_next_attempt_at :: time
  rr_lease_owner :: "string option"
  rr_lease_expires_at :: "time option"
  rr_last_error_code :: "string option"
  rr_created_at :: time
  rr_updated_at :: time

definition scan_receipt :: "receipt_row \<Rightarrow> idem_receipt" where
  "scan_receipt r =
     \<lparr>rc_key = rr_key r, rc_payload_hash = rr_payload_hash r, rc_status = rr_status r, rc_response = rr_response r,
      rc_attempt_count = rr_attempt_count r, rc_max_attempts = rr_max_attempts r,
      rc_next_attempt_at = rr_next_attempt_at r,
      rc_lease_owner = (case rr_lease_owner r of Some x \<Rightarrow> x | None \<Rightarrow> []),
      rc_lease_expires_at = rr_lease_expires_at r,
      rc_last_error_code = (case rr_last_error_code r of Some x \<Rightarrow> x | None \<Rightarrow> []),
      rc_created_at = rr_created_at r, rc_updated_at = rr_updated_at r\<rparr>"

text \<open>What the columns and constraints of \<open>idempotency_receipts\<close> accept: text is valid UTF-8
  without NUL, counts are 32-bit, and the table's \<open>CHECK\<close>s hold.\<close>

definition pg_text :: "string \<Rightarrow> bool" where
  "pg_text s \<longleftrightarrow> valid_utf8 s \<and> list_all (\<lambda>c. byte c \<noteq> 0) s"

definition row_ok :: "receipt_row \<Rightarrow> bool" where
  "row_ok r \<longleftrightarrow>
     pg_text (rr_key r) \<and> opt_all pg_text (rr_lease_owner r) \<and> opt_all pg_text (rr_last_error_code r)
     \<and> 8 \<le> rune_count (rr_key r) \<and> rune_count (rr_key r) \<le> 200 \<and> length (rr_payload_hash r) = 32
     \<and> is_int32 (rr_attempt_count r) \<and> is_int32 (rr_max_attempts r)
     \<and> 0 \<le> rr_attempt_count r \<and> 0 < rr_max_attempts r \<and> rr_attempt_count r \<le> rr_max_attempts r
     \<and> ((rr_lease_owner r = None) = (rr_lease_expires_at r = None))"

definition inserted_row :: "world \<Rightarrow> idem_receipt \<Rightarrow> receipt_row" where
  "inserted_row w x =
     \<lparr>rr_key = rc_key x, rr_payload_hash = rc_payload_hash x, rr_status = rc_status x, rr_response = None,
      rr_attempt_count = 0, rr_max_attempts = rc_max_attempts x, rr_next_attempt_at = rc_next_attempt_at x,
      rr_lease_owner = None, rr_lease_expires_at = None, rr_last_error_code = None,
      rr_created_at = clock w, rr_updated_at = clock w\<rparr>"

definition row_of :: "string \<Rightarrow> receipt_row list \<Rightarrow> receipt_row option" where
  "row_of k rows = find (\<lambda>r. rr_key r = k) rows"

definition put_if_absent :: "(world, receipt_row list) put_operation" where
  "put_if_absent w x rows =
     (if \<not> row_ok (inserted_row w x) then Inl Database_Error
      else (case row_of (rc_key x) rows of
              None \<Rightarrow> Inr (scan_receipt (inserted_row w x), True, rows @ [inserted_row w x])
            | Some r \<Rightarrow> Inr (scan_receipt r, False, rows)))"

definition claimable :: "time \<Rightarrow> receipt_row \<Rightarrow> bool" where
  "claimable now r \<longleftrightarrow>
     (rr_status r \<in> {Receipt_Accepted, Receipt_Queued}
      \<or> rr_status r = Receipt_Attempted \<and> (case rr_lease_expires_at r of Some e \<Rightarrow> e \<le> now | None \<Rightarrow> False))
     \<and> rr_attempt_count r < rr_max_attempts r \<and> rr_next_attempt_at r \<le> now"

definition candidates :: "world \<Rightarrow> claim_command \<Rightarrow> receipt_row list \<Rightarrow> string list" where
  "candidates w c rows =
     map rr_key (take (nat (cl_limit c))
       (sort_key (\<lambda>r. (rr_next_attempt_at r, rr_created_at r, rr_key r))
         (filter (\<lambda>r. claimable (cl_now c) r \<and> rr_key r \<notin> set (locked w)) rows)))"

definition leased_row :: "world \<Rightarrow> claim_command \<Rightarrow> receipt_row \<Rightarrow> receipt_row" where
  "leased_row w c r =
     r\<lparr>rr_status := Receipt_Attempted, rr_attempt_count := rr_attempt_count r + 1,
       rr_lease_owner := Some (cl_owner c), rr_lease_expires_at := Some (cl_now c + cl_lease_duration c),
       rr_updated_at := clock w\<rparr>"

definition claim_rows :: "(world, receipt_row list) claim_operation" where
  "claim_rows w c rows =
     (let ks = candidates w c rows;
          chosen = map (leased_row w c) (filter (\<lambda>r. rr_key r \<in> set ks) rows)
      in if \<not> pg_text (cl_owner c) \<or> \<not> list_all row_ok chosen then Inl Database_Error
         else Inr (map scan_receipt chosen,
                   map (\<lambda>r. if rr_key r \<in> set ks then leased_row w c r else r) rows))"

definition nullable_json :: "world \<Rightarrow> string \<Rightarrow> string option option" where
  "nullable_json w v = (if length v = 0 then Some None else map_option Some (jsonb w v))"

definition closed_row :: "world \<Rightarrow> outcome_command \<Rightarrow> string option \<Rightarrow> receipt_row \<Rightarrow> receipt_row" where
  "closed_row w c response r =
     r\<lparr>rr_status := oc_status c, rr_response := response,
       rr_last_error_code := (if oc_last_error_code c = [] then None else Some (oc_last_error_code c)),
       rr_next_attempt_at := (case oc_next_attempt_at c of Some t \<Rightarrow> t | None \<Rightarrow> rr_next_attempt_at r),
       rr_lease_owner := None, rr_lease_expires_at := None, rr_updated_at := clock w\<rparr>"

definition open_attempt :: "outcome_command \<Rightarrow> receipt_row \<Rightarrow> bool" where
  "open_attempt c r \<longleftrightarrow>
     rr_key r = oc_key c \<and> rr_status r \<in> {Receipt_Attempted, Receipt_Outcome_Unknown}
     \<and> rr_attempt_count r = oc_expected_attempt c"

definition record_outcome :: "(world, receipt_row list) outcome_operation" where
  "record_outcome w c rows =
     (case nullable_json w (oc_response c) of
        None \<Rightarrow> Inl Database_Error
      | Some response \<Rightarrow>
          if \<not> pg_text (oc_key c) \<or> \<not> pg_text (oc_last_error_code c) \<or> \<not> is_int32 (oc_expected_attempt c)
          then Inl Database_Error
          else (case find (open_attempt c) rows of
                  None \<Rightarrow> Inl Concurrent_Update
                | Some r \<Rightarrow> Inr (scan_receipt (closed_row w c response r),
                               map (\<lambda>q. if open_attempt c q then closed_row w c response q else q) rows)))"

end
