(* ===== verification/Idempotency_Contract.thy ===== *)
theory Idempotency_Contract
  imports Idempotency
begin

text \<open>
  What the idempotency service relies on. \<open>service_run\<close> is any sequence of successful calls of
  the service over a store, with what they returned; the locale \<open>receipt_store\<close> is the
  contract of the \<open>Store\<close> interface, and inside it the run's laws are proved once: attempts
  are numbered one after another (\<open>run_books\<close>), a key keeps its payload and budget
  (\<open>run_keeps\<close>), a finished receipt stays as it is (\<open>run_frozen\<close>). The interpretation at the
  end discharges the contract for the PostgreSQL store.
\<close>

section \<open>Runs of the service\<close>

datatype idem_event =
    Began idem_receipt
  | Claimed idem_receipt
  | Recorded idem_receipt

inductive service_run for put claim outcome where
  start: "service_run put claim outcome s [] s"
| begin_call: "service_run put claim outcome s es t \<Longrightarrow> begin_within put w now c t = Inr ((x, replay), u) \<Longrightarrow>
    service_run put claim outcome s (es @ [Began x]) u"
| claim_call: "service_run put claim outcome s es t \<Longrightarrow> claim_within claim w now cl t = Inr (xs, u) \<Longrightarrow>
    service_run put claim outcome s (es @ map Claimed xs) u"
| record_call: "service_run put claim outcome s es t \<Longrightarrow> record_within outcome w oc t = Inr (x, u) \<Longrightarrow>
    service_run put claim outcome s (es @ [Recorded x]) u"

fun claimed_attempt :: "string \<Rightarrow> idem_event \<Rightarrow> int option" where
  "claimed_attempt k (Claimed x) = (if rc_key x = k then Some (rc_attempt_count x) else None)"
| "claimed_attempt k _ = None"

definition attempts_of_key :: "string \<Rightarrow> idem_event list \<Rightarrow> int list" where
  "attempts_of_key k es = List.map_filter (claimed_attempt k) es"

lemma attempts_of_key_simps [simp]:
  "attempts_of_key k [] = []"
  "attempts_of_key k (es @ fs) = attempts_of_key k es @ attempts_of_key k fs"
  "attempts_of_key k (e # es) = (case claimed_attempt k e of Some n \<Rightarrow> n # attempts_of_key k es | None \<Rightarrow> attempts_of_key k es)"
  by (induction es) (simp_all add: attempts_of_key_def map_filter_def split: option.split)

section \<open>The contract of the store\<close>

definition starts_receipt :: "idem_receipt \<Rightarrow> idem_receipt \<Rightarrow> bool" where
  "starts_receipt r x \<longleftrightarrow> rc_key x = rc_key r \<and> rc_payload_hash x = rc_payload_hash r \<and> rc_status x = rc_status r
     \<and> rc_attempt_count x = 0 \<and> rc_max_attempts x = rc_max_attempts r"

definition same_command :: "idem_receipt \<Rightarrow> idem_receipt \<Rightarrow> bool" where
  "same_command y x \<longleftrightarrow> rc_key x = rc_key y \<and> rc_payload_hash x = rc_payload_hash y \<and> rc_max_attempts x = rc_max_attempts y"

definition takes_over :: "claim_command \<Rightarrow> idem_receipt \<Rightarrow> idem_receipt \<Rightarrow> bool" where
  "takes_over c y x \<longleftrightarrow> same_command y x
     \<and> (rc_status y \<in> {Receipt_Accepted, Receipt_Queued}
        \<or> rc_status y = Receipt_Attempted \<and> (case rc_lease_expires_at y of Some e \<Rightarrow> e \<le> cl_now c | None \<Rightarrow> False))
     \<and> rc_next_attempt_at y \<le> cl_now c
     \<and> rc_attempt_count x = rc_attempt_count y + 1 \<and> rc_attempt_count x \<le> rc_max_attempts x
     \<and> rc_status x = Receipt_Attempted \<and> rc_lease_owner x = cl_owner c
     \<and> rc_lease_expires_at x = Some (cl_now c + cl_lease_duration c)"

definition closes_attempt :: "outcome_command \<Rightarrow> idem_receipt \<Rightarrow> idem_receipt \<Rightarrow> bool" where
  "closes_attempt c y x \<longleftrightarrow> same_command y x
     \<and> rc_status y \<in> {Receipt_Attempted, Receipt_Outcome_Unknown} \<and> rc_attempt_count y = oc_expected_attempt c
     \<and> rc_attempt_count x = rc_attempt_count y \<and> rc_status x = oc_status c"

definition terminal_receipt :: "idem_receipt \<Rightarrow> bool" where
  "terminal_receipt x \<longleftrightarrow> rc_status x \<in> {Receipt_Executed, Receipt_Reconciled, Receipt_Failed}"

definition found :: "string \<Rightarrow> idem_receipt list \<Rightarrow> idem_receipt option" where
  "found k xs = find (\<lambda>x. rc_key x = k) xs"

lemma found_simps [simp]:
  "found k [] = None" "found k (x # xs) = (if rc_key x = k then Some x else found k xs)"
  by (simp_all add: found_def)

lemma found_in: "found k xs = Some x \<Longrightarrow> x \<in> set xs \<and> rc_key x = k"
  by (induction xs) (auto split: if_split_asm)

lemma found_none: "found k xs = None \<longleftrightarrow> k \<notin> set (map rc_key xs)"
  by (induction xs) auto

lemma attempts_of_claims:
  "distinct (map rc_key xs) \<Longrightarrow>
   attempts_of_key k (map Claimed xs) = (case found k xs of Some x \<Rightarrow> [rc_attempt_count x] | None \<Rightarrow> [])"
proof (induction xs)
  case (Cons x xs)
  then have IH: "attempts_of_key k (map Claimed xs) = (case found k xs of Some x \<Rightarrow> [rc_attempt_count x] | None \<Rightarrow> [])"
    by simp
  show ?case
  proof (cases "rc_key x = k")
    case True
    with Cons.prems have "found k xs = None" by (simp add: found_none)
    with True IH show ?thesis by simp
  qed (simp add: IH)
qed simp

lemma no_other_events [simp]:
  "Began x \<notin> Claimed ` A" "Recorded x \<notin> Claimed ` A" "Claimed x \<in> Claimed ` A \<longleftrightarrow> x \<in> A"
  by auto

text \<open>The history of a key against its receipt: the attempts handed out are \<open>1, 2, \<dots>\<close> up to
  the count of the receipt, and every event speaks of the command first accepted.\<close>

definition booked :: "string \<Rightarrow> idem_event list \<Rightarrow> idem_receipt option \<Rightarrow> bool" where
  "booked k es x \<longleftrightarrow>
     (case x of
        None \<Rightarrow> attempts_of_key k es = [] \<and> (\<forall>e. Began e \<in> set es \<longrightarrow> rc_key e \<noteq> k)
      | Some x \<Rightarrow> attempts_of_key k es = [1..rc_attempt_count x]
          \<and> (\<forall>e. Began e \<in> set es \<longrightarrow> rc_key e = k \<longrightarrow> same_command e x))"

lemma booked_append:
  "attempts_of_key k fs = [] \<Longrightarrow> (\<And>e. Began e \<in> set fs \<Longrightarrow> rc_key e \<noteq> k) \<Longrightarrow> booked k (es @ fs) x \<longleftrightarrow> booked k es x"
  by (auto simp: booked_def split: option.split)

lemma same_command_trans: "same_command z y \<Longrightarrow> same_command y x \<Longrightarrow> same_command z x"
  by (auto simp: same_command_def)

lemma booked_same:
  "booked k es (Some y) \<Longrightarrow> same_command y x \<Longrightarrow> rc_attempt_count x = rc_attempt_count y \<Longrightarrow> booked k es (Some x)"
  by (auto simp: booked_def intro: same_command_trans)

lemma booked_lease:
  assumes "booked k es (Some y)" "same_command y x" "0 \<le> rc_attempt_count y" "rc_attempt_count x = rc_attempt_count y + 1"
    "attempts_of_key k fs = [rc_attempt_count x]" "\<And>e. Began e \<notin> set fs"
  shows "booked k (es @ fs) (Some x)"
  using assms upto_rec2 [of 1 "rc_attempt_count x"] by (auto simp: booked_def intro: same_command_trans)

locale receipt_store =
  fixes put :: "('w, 's) put_operation"
    and claim :: "('w, 's) claim_operation"
    and outcome :: "('w, 's) outcome_operation"
    and lookup :: "'s \<Rightarrow> string \<Rightarrow> idem_receipt option"
    and inv :: "'s \<Rightarrow> bool"
  assumes lookup_law: "inv s \<Longrightarrow> lookup s k = Some x \<Longrightarrow>
      rc_key x = k \<and> 0 \<le> rc_attempt_count x \<and> rc_attempt_count x \<le> rc_max_attempts x"
    and put_new: "inv s \<Longrightarrow> put w r s = Inr (x, created, t) \<Longrightarrow> lookup s (rc_key r) = None \<Longrightarrow>
      created \<and> inv t \<and> starts_receipt r x \<and> lookup t = (lookup s)(rc_key r \<mapsto> x)"
    and put_old: "inv s \<Longrightarrow> put w r s = Inr (x, created, t) \<Longrightarrow> lookup s (rc_key r) = Some y \<Longrightarrow>
      \<not> created \<and> t = s \<and> x = y"
    and claim_law: "inv s \<Longrightarrow> claim w c s = Inr (xs, t) \<Longrightarrow>
      inv t \<and> distinct (map rc_key xs)
      \<and> (\<forall>k. lookup t k = (case found k xs of Some x \<Rightarrow> Some x | None \<Rightarrow> lookup s k))
      \<and> (\<forall>x\<in>set xs. \<exists>y. lookup s (rc_key x) = Some y \<and> takes_over c y x)"
    and record_law: "inv s \<Longrightarrow> outcome w oc s = Inr (x, t) \<Longrightarrow>
      inv t \<and> (\<exists>y. lookup s (oc_key oc) = Some y \<and> closes_attempt oc y x) \<and> lookup t = (lookup s)(oc_key oc \<mapsto> x)"
begin

abbreviation run :: "'s \<Rightarrow> idem_event list \<Rightarrow> 's \<Rightarrow> bool" where
  "run \<equiv> service_run put claim outcome"

lemma begin_cases:
  assumes "inv s" "begin_within put w now c s = Inr ((x, replay), t)"
  obtains (fresh) "lookup s (bc_key c) = None" "\<not> replay" "inv t" "rc_attempt_count x = 0"
      "lookup t = (lookup s)(bc_key c \<mapsto> x)" "canonical_payload_hash (bc_payload c) = Inr (rc_payload_hash x)"
    | (replay) "lookup s (bc_key c) = Some x" "replay" "t = s" "canonical_payload_hash (bc_payload c) = Inr (rc_payload_hash x)"
proof -
  from assms(2) obtain h created where h: "canonical_payload_hash (bc_payload c) = Inr h"
    and p: "put w (fresh_receipt c h (utc now)) s = Inr (x, created, t)" and eq: "rc_payload_hash x = h" "replay = (\<not> created)"
    by (auto simp: begin_within_def and_then_eq_Inr split: prod.splits if_split_asm)
  have k: "rc_key (fresh_receipt c h (utc now)) = bc_key c" by (simp add: fresh_receipt_def)
  show thesis
  proof (cases "lookup s (bc_key c)")
    case None
    with put_new [OF assms(1) p] k h eq show thesis by (auto simp: starts_receipt_def intro: fresh)
  next
    case (Some y)
    with put_old [OF assms(1) p] k h eq show thesis by (auto intro: replay)
  qed
qed

lemma claim_cases:
  assumes "inv s" "claim_within claim w now c s = Inr (xs, t)"
  obtains c' where "inv t" "distinct (map rc_key xs)"
    "\<And>k. lookup t k = (case found k xs of Some x \<Rightarrow> Some x | None \<Rightarrow> lookup s k)"
    "\<And>x. x \<in> set xs \<Longrightarrow> \<exists>y. lookup s (rc_key x) = Some y \<and> takes_over c' y x"
proof -
  from assms(2) have "claim w (if is_zero (cl_now c) then c\<lparr>cl_now := utc now\<rparr> else c) s = Inr (xs, t)"
    by (simp add: claim_within_def split: if_split_asm)
  from claim_law [OF assms(1) this] that show thesis by blast
qed

lemma record_cases:
  assumes "inv s" "record_within outcome w c s = Inr (x, t)"
  obtains y where "inv t" "lookup s (oc_key c) = Some y" "closes_attempt c y x" "lookup t = (lookup s)(oc_key c \<mapsto> x)"
proof -
  from assms(2) have "outcome w c s = Inr (x, t)" by (simp add: record_within_def split: if_split_asm)
  from record_law [OF assms(1) this] that show thesis by blast
qed

lemma run_inv: "run s es t \<Longrightarrow> inv s \<Longrightarrow> inv t"
  by (induction rule: service_run.induct) (auto elim: begin_cases claim_cases record_cases)


lemma run_books:
  assumes "run s es t" "inv s" "\<And>k. lookup s k = None"
  shows "booked k es (lookup t k)"
  using assms
proof (induction rule: service_run.induct)
  case (start s)
  then show ?case by (simp add: booked_def)
next
  case (begin_call s es t w now c x replay u)
  then have inv: "inv t" "inv u" and b: "booked k es (lookup t k)"
    by (auto intro: run_inv service_run.intros)
  show ?case using inv(1) begin_call.hyps(2)
  proof (cases rule: begin_cases)
    case fresh
    have x: "rc_key x = bc_key c" using lookup_law [OF inv(2), of "bc_key c"] fresh(5) by simp
    show ?thesis
    proof (cases "k = bc_key c")
      case True
      with fresh b show ?thesis by (auto simp: booked_def same_command_def)
    next
      case False
      with fresh b x show ?thesis by (subst booked_append) simp_all
    qed
  next
    case replay
    then show ?thesis using b lookup_law [OF inv(1)] by (auto simp: booked_def same_command_def split: option.split)
  qed
next
  case (claim_call s es t w now cl xs u)
  then have inv: "inv t" and b: "booked k es (lookup t k)" by (auto intro: run_inv)
  show ?case using inv claim_call.hyps(2)
  proof (cases rule: claim_cases)
    case (1 c')
    show ?thesis
    proof (cases "found k xs")
      case None
      with b 1(3) [of k] show ?thesis by (subst booked_append) (simp_all add: attempts_of_claims [OF 1(2)])
    next
      case (Some x)
      from found_in [OF this] 1(4) obtain y where y: "lookup t k = Some y" "takes_over c' y x" by blast
      have "booked k (es @ map Claimed xs) (Some x)"
        using y b lookup_law [OF inv y(1)] Some
        by (intro booked_lease [of k es y]) (simp_all add: takes_over_def attempts_of_claims [OF 1(2)])
      with 1(3) [of k] Some show ?thesis by simp
    qed
  qed
next
  case (record_call s es t w oc x u)
  then have inv: "inv t" and b: "booked k es (lookup t k)" by (auto intro: run_inv)
  show ?case using inv record_call.hyps(2)
  proof (cases rule: record_cases)
    case (1 y)
    have "booked k es (lookup u k)"
      using b 1 booked_same [of k es y x] by (auto simp: closes_attempt_def)
    then show ?thesis by (subst booked_append) simp_all
  qed
qed

lemma run_keeps:
  assumes "run s es t" "inv s" "lookup s k = Some x"
  shows "\<exists>y. lookup t k = Some y \<and> same_command x y \<and> rc_attempt_count x \<le> rc_attempt_count y"
  using assms
proof (induction rule: service_run.induct)
  case (start s)
  then show ?case by (simp add: same_command_def)
next
  case (begin_call s es t w now c z replay u)
  then obtain y where inv: "inv t" and y: "lookup t k = Some y" "same_command x y" "rc_attempt_count x \<le> rc_attempt_count y"
    by (auto intro: run_inv)
  show ?case using inv begin_call.hyps(2)
    by (cases rule: begin_cases) (use y in auto)
next
  case (claim_call s es t w now cl xs u)
  then obtain y where inv: "inv t" and y: "lookup t k = Some y" "same_command x y" "rc_attempt_count x \<le> rc_attempt_count y"
    by (auto intro: run_inv)
  show ?case using inv claim_call.hyps(2)
  proof (cases rule: claim_cases)
    case (1 c')
    then show ?thesis
    proof (cases "found k xs")
      case (Some z)
      from found_in [OF this] 1(4) y have "takes_over c' y z" by fastforce
      with Some 1(3) [of k] y show ?thesis by (auto simp: takes_over_def intro: same_command_trans)
    qed (use y 1(3) [of k] in simp)
  qed
next
  case (record_call s es t w oc z u)
  then obtain y where inv: "inv t" and y: "lookup t k = Some y" "same_command x y" "rc_attempt_count x \<le> rc_attempt_count y"
    by (auto intro: run_inv)
  show ?case using inv record_call.hyps(2)
    by (cases rule: record_cases) (use y in \<open>auto simp: closes_attempt_def intro: same_command_trans\<close>)
qed

lemma run_frozen:
  assumes "run s es t" "inv s" "lookup s k = Some x" "terminal_receipt x"
  shows "lookup t k = Some x"
  using assms
proof (induction rule: service_run.induct)
  case (begin_call s es t w now c z replay u)
  then have inv: "inv t" and x: "lookup t k = Some x" by (auto intro: run_inv)
  show ?case using inv begin_call.hyps(2)
    by (cases rule: begin_cases) (use x in auto)
next
  case (claim_call s es t w now cl xs u)
  then have inv: "inv t" and x: "lookup t k = Some x" by (auto intro: run_inv)
  show ?case using inv claim_call.hyps(2)
  proof (cases rule: claim_cases)
    case (1 c')
    have "found k xs = None"
    proof (rule ccontr)
      assume "found k xs \<noteq> None"
      then obtain z where "z \<in> set xs" "rc_key z = k" using found_in by blast
      with 1(4) x have "takes_over c' x z" by fastforce
      with \<open>terminal_receipt x\<close> show False by (auto simp: takes_over_def terminal_receipt_def)
    qed
    with 1(3) [of k] x show ?thesis by simp
  qed
next
  case (record_call s es t w oc z u)
  then have inv: "inv t" and x: "lookup t k = Some x" by (auto intro: run_inv)
  show ?case using inv record_call.hyps(2)
    by (cases rule: record_cases) (use x \<open>terminal_receipt x\<close> in \<open>auto simp: closes_attempt_def terminal_receipt_def\<close>)
qed

text \<open>An outcome for another attempt than the receipt's last is never recorded, and a receipt
  under an unexpired lease is claimed by nobody.\<close>

lemma stale_outcome:
  assumes "inv s" "lookup s (oc_key c) = Some y" "oc_expected_attempt c \<noteq> rc_attempt_count y"
  shows "\<not> is_ok (record_within outcome w c s)"
proof
  assume "is_ok (record_within outcome w c s)"
  then obtain x t where "record_within outcome w c s = Inr (x, t)" by (auto simp: is_ok_iff)
  with assms(1) obtain z where "lookup s (oc_key c) = Some z" "closes_attempt c z x" by (rule record_cases)
  with assms(2,3) show False by (simp add: closes_attempt_def)
qed

lemma lease_respected:
  assumes "inv s" "lookup s k = Some y" "rc_status y = Receipt_Attempted" "rc_lease_expires_at y = Some e"
    "claim_within claim w now c s = Inr (xs, t)" "(if cl_now c = 0 then now else cl_now c) < e"
  shows "k \<notin> set (map rc_key xs)"
proof
  assume "k \<in> set (map rc_key xs)"
  then obtain x where x: "x \<in> set xs" "rc_key x = k" by auto
  from assms(5) have "claim w (if is_zero (cl_now c) then c\<lparr>cl_now := utc now\<rparr> else c) s = Inr (xs, t)"
    by (simp add: claim_within_def split: if_split_asm)
  from claim_law [OF assms(1) this] x assms(2)
  have "takes_over (if is_zero (cl_now c) then c\<lparr>cl_now := utc now\<rparr> else c) y x" by fastforce
  with assms(3,4,6) show False by (auto simp: takes_over_def split: if_split_asm)
qed

end

section \<open>The PostgreSQL store keeps the contract\<close>

definition stored_receipt :: "receipt_row list \<Rightarrow> string \<Rightarrow> idem_receipt option" where
  "stored_receipt rows k = map_option scan_receipt (row_of k rows)"

definition valid_table :: "receipt_row list \<Rightarrow> bool" where
  "valid_table rows \<longleftrightarrow> distinct (map rr_key rows) \<and> list_all row_ok rows"

lemma row_of_simps [simp]:
  "row_of k [] = None" "row_of k (r # rows) = (if rr_key r = k then Some r else row_of k rows)"
  by (simp_all add: row_of_def)

lemma row_of_in: "row_of k rows = Some r \<Longrightarrow> r \<in> set rows \<and> rr_key r = k"
  by (induction rows) (auto split: if_split_asm)

lemma row_of_none: "row_of k rows = None \<longleftrightarrow> k \<notin> rr_key ` set rows"
  by (induction rows) auto

lemma row_of_unique: "distinct (map rr_key rows) \<Longrightarrow> r \<in> set rows \<Longrightarrow> row_of (rr_key r) rows = Some r"
  by (induction rows) (auto simp: image_iff)

lemma row_of_append: "row_of k (rows @ qs) = (case row_of k rows of Some r \<Rightarrow> Some r | None \<Rightarrow> row_of k qs)"
  by (induction rows) auto

lemma row_of_map: "(\<And>r. rr_key (f r) = rr_key r) \<Longrightarrow> row_of k (map f rows) = map_option f (row_of k rows)"
  by (induction rows) auto

lemma scan_receipt_simps [simp]:
  "rc_key (scan_receipt r) = rr_key r" "rc_payload_hash (scan_receipt r) = rr_payload_hash r"
  "rc_status (scan_receipt r) = rr_status r" "rc_attempt_count (scan_receipt r) = rr_attempt_count r"
  "rc_max_attempts (scan_receipt r) = rr_max_attempts r" "rc_lease_expires_at (scan_receipt r) = rr_lease_expires_at r"
  "rc_next_attempt_at (scan_receipt r) = rr_next_attempt_at r"
  "rc_lease_owner (scan_receipt r) = (case rr_lease_owner r of Some x \<Rightarrow> x | None \<Rightarrow> [])"
  by (simp_all add: scan_receipt_def)

lemma inserted_row_simps [simp]:
  "rr_key (inserted_row w x) = rc_key x" "rr_payload_hash (inserted_row w x) = rc_payload_hash x"
  "rr_status (inserted_row w x) = rc_status x" "rr_attempt_count (inserted_row w x) = 0"
  "rr_max_attempts (inserted_row w x) = rc_max_attempts x"
  by (simp_all add: inserted_row_def)

lemma leased_row_simps [simp]:
  "rr_key (leased_row w c r) = rr_key r" "rr_payload_hash (leased_row w c r) = rr_payload_hash r"
  "rr_status (leased_row w c r) = Receipt_Attempted" "rr_attempt_count (leased_row w c r) = rr_attempt_count r + 1"
  "rr_max_attempts (leased_row w c r) = rr_max_attempts r" "rr_lease_owner (leased_row w c r) = Some (cl_owner c)"
  "rr_lease_expires_at (leased_row w c r) = Some (cl_now c + cl_lease_duration c)"
  by (simp_all add: leased_row_def)

lemma closed_row_simps [simp]:
  "rr_key (closed_row w c x r) = rr_key r" "rr_payload_hash (closed_row w c x r) = rr_payload_hash r"
  "rr_status (closed_row w c x r) = oc_status c" "rr_attempt_count (closed_row w c x r) = rr_attempt_count r"
  "rr_max_attempts (closed_row w c x r) = rr_max_attempts r"
  by (simp_all add: closed_row_def)

lemma row_ok_closed: "row_ok r \<Longrightarrow> pg_text (oc_last_error_code c) \<Longrightarrow> row_ok (closed_row w c x r)"
  by (simp add: row_ok_def closed_row_def)

lemma valid_table_map:
  assumes "valid_table rows" "\<And>r. rr_key (f r) = rr_key r" "\<And>r. r \<in> set rows \<Longrightarrow> row_ok (f r)"
  shows "valid_table (map f rows)"
proof -
  have "map rr_key (map f rows) = map rr_key rows" using assms(2) by simp
  then have "distinct (map rr_key (map f rows))" using assms(1) by (simp only: valid_table_def)
  moreover have "list_all row_ok (map f rows)" using assms(3) by (simp add: list_all_iff)
  ultimately show ?thesis unfolding valid_table_def by blast
qed

lemma stored_receipt_bounds:
  "valid_table rows \<Longrightarrow> stored_receipt rows k = Some x \<Longrightarrow>
   rc_key x = k \<and> 0 \<le> rc_attempt_count x \<and> rc_attempt_count x \<le> rc_max_attempts x"
  by (auto simp: stored_receipt_def valid_table_def list_all_iff row_ok_def dest!: row_of_in)

lemma put_if_absent_new:
  "valid_table s \<Longrightarrow> put_if_absent w r s = Inr (x, created, t) \<Longrightarrow> stored_receipt s (rc_key r) = None \<Longrightarrow>
   created \<and> valid_table t \<and> starts_receipt r x \<and> stored_receipt t = (stored_receipt s)(rc_key r \<mapsto> x)"
proof -
  assume v: "valid_table s" and p: "put_if_absent w r s = Inr (x, created, t)" and n: "stored_receipt s (rc_key r) = None"
  from n have none: "row_of (rc_key r) s = None" by (simp add: stored_receipt_def)
  with p have r: "row_ok (inserted_row w r)" "x = scan_receipt (inserted_row w r)" "created" "t = s @ [inserted_row w r]"
    by (auto simp: put_if_absent_def split: if_split_asm)
  have "stored_receipt t k = ((stored_receipt s)(rc_key r \<mapsto> x)) k" for k
    using none r by (auto simp: stored_receipt_def row_of_append split: option.split)
  with v none r show ?thesis by (auto simp: valid_table_def starts_receipt_def row_of_none)
qed

lemma put_if_absent_old:
  "put_if_absent w r s = Inr (x, created, t) \<Longrightarrow> stored_receipt s (rc_key r) = Some y \<Longrightarrow> \<not> created \<and> t = s \<and> x = y"
  by (auto simp: put_if_absent_def stored_receipt_def split: if_split_asm option.split_asm)

lemma candidates_claimable:
  assumes "distinct (map rr_key rows)" "r \<in> set rows" "rr_key r \<in> set (candidates w c rows)"
  shows "claimable (cl_now c) r"
proof -
  from assms(3) obtain q where q: "q \<in> set rows" "claimable (cl_now c) q" "rr_key q = rr_key r"
    by (auto simp: candidates_def dest!: in_set_takeD)
  then have "q = r" using row_of_unique [OF assms(1)] assms(2) by (metis option.inject)
  with q show ?thesis by simp
qed

lemma found_scanned:
  "(\<And>r. rr_key (f r) = rr_key r) \<Longrightarrow>
   found k (map scan_receipt (map f (filter (\<lambda>r. rr_key r \<in> K) rows))) =
   (if k \<in> K then map_option (scan_receipt \<circ> f) (row_of k rows) else None)"
  by (induction rows) auto

lemma claim_rows_law:
  assumes "valid_table s" "claim_rows w c s = Inr (xs, t)"
  shows "valid_table t \<and> distinct (map rc_key xs)
      \<and> (\<forall>k. stored_receipt t k = (case found k xs of Some x \<Rightarrow> Some x | None \<Rightarrow> stored_receipt s k))
      \<and> (\<forall>x\<in>set xs. \<exists>y. stored_receipt s (rc_key x) = Some y \<and> takes_over c y x)"
proof -
  let ?ks = "set (candidates w c s)" and ?f = "leased_row w c"
  let ?g = "\<lambda>r. if rr_key r \<in> ?ks then ?f r else r"
  from assms(2) have ok: "list_all row_ok (map ?f (filter (\<lambda>r. rr_key r \<in> ?ks) s))"
    and xs: "xs = map scan_receipt (map ?f (filter (\<lambda>r. rr_key r \<in> ?ks) s))" and t: "t = map ?g s"
    by (auto simp: claim_rows_def Let_def split: if_split_asm)
  from assms(1) have d: "distinct (map rr_key s)" and s: "\<forall>r\<in>set s. row_ok r"
    by (auto simp: valid_table_def list_all_iff)
  have "valid_table t"
    unfolding t using s ok by (intro valid_table_map [OF assms(1)]) (auto simp: list_all_iff)
  moreover have "map rc_key xs = map rr_key (filter (\<lambda>r. rr_key r \<in> ?ks) s)" by (simp add: xs)
  then have "distinct (map rc_key xs)" using d by (simp add: distinct_map_filter)
  moreover have "stored_receipt t k = (case found k xs of Some x \<Rightarrow> Some x | None \<Rightarrow> stored_receipt s k)" for k
  proof -
    have "row_of k t = map_option ?g (row_of k s)" unfolding t by (rule row_of_map) simp
    then show ?thesis
      unfolding xs stored_receipt_def found_scanned [of ?f, OF leased_row_simps(1)]
      by (cases "row_of k s") (auto dest: row_of_in)
  qed
  moreover have "\<exists>y. stored_receipt s (rc_key x) = Some y \<and> takes_over c y x" if "x \<in> set xs" for x
  proof -
    from that obtain r where r: "r \<in> set s" "rr_key r \<in> ?ks" "x = scan_receipt (?f r)" by (auto simp: xs)
    with candidates_claimable [OF d] have "claimable (cl_now c) r" by blast
    then have "takes_over c (scan_receipt r) x"
      by (auto simp: r(3) takes_over_def claimable_def same_command_def)
    moreover have "stored_receipt s (rc_key x) = Some (scan_receipt r)"
      using row_of_unique [OF d r(1)] by (simp add: r(3) stored_receipt_def)
    ultimately show ?thesis by blast
  qed
  ultimately show ?thesis by blast
qed

lemma record_outcome_law:
  assumes "valid_table s" "record_outcome w c s = Inr (x, t)"
  shows "valid_table t \<and> (\<exists>y. stored_receipt s (oc_key c) = Some y \<and> closes_attempt c y x)
    \<and> stored_receipt t = (stored_receipt s)(oc_key c \<mapsto> x)"
proof -
  from assms(2) obtain response r where f: "find (open_attempt c) s = Some r" and code: "pg_text (oc_last_error_code c)"
    and x: "x = scan_receipt (closed_row w c response r)"
    and t: "t = map (\<lambda>q. if open_attempt c q then closed_row w c response q else q) s"
    by (auto simp: record_outcome_def split: option.split_asm if_split_asm)
  from f have r: "r \<in> set s" "open_attempt c r" by (auto dest: find_Some_pred)
  from assms(1) have d: "distinct (map rr_key s)" and s: "\<forall>r\<in>set s. row_ok r"
    by (auto simp: valid_table_def list_all_iff)
  from row_of_unique [OF d r(1)] r(2) have k: "row_of (oc_key c) s = Some r" by (simp add: open_attempt_def)
  have "valid_table t"
    unfolding t using s code by (intro valid_table_map [OF assms(1)]) (auto simp: row_ok_closed)
  moreover have "closes_attempt c (scan_receipt r) x"
    using r(2) by (simp add: x closes_attempt_def open_attempt_def same_command_def)
  moreover have "stored_receipt t j = ((stored_receipt s)(oc_key c \<mapsto> x)) j" for j
  proof -
    have m: "row_of j t = map_option (\<lambda>q. if open_attempt c q then closed_row w c response q else q) (row_of j s)"
      unfolding t by (rule row_of_map) simp
    show ?thesis
    proof (cases "j = oc_key c")
      case True
      with m k r(2) show ?thesis by (simp add: stored_receipt_def x)
    next
      case False
      have "\<not> open_attempt c q" if "row_of j s = Some q" for q
        using row_of_in [OF that] False by (simp add: open_attempt_def)
      with m False show ?thesis by (cases "row_of j s") (simp_all add: stored_receipt_def)
    qed
  qed
  ultimately show ?thesis using k by (auto simp: stored_receipt_def)
qed

interpretation pg: receipt_store put_if_absent claim_rows record_outcome stored_receipt valid_table
  using stored_receipt_bounds put_if_absent_new put_if_absent_old claim_rows_law record_outcome_law
  by unfold_locales blast+

lemma empty_table [simp]: "valid_table []" "stored_receipt [] k = None"
  by (simp_all add: valid_table_def stored_receipt_def)

end
