(* ===== verification/Idempotency_Properties.thy ===== *)
theory Idempotency_Properties
  imports Idempotency_Contract
begin

text \<open>
  The properties of the idempotency service over the PostgreSQL store, stated on the runs of
  \<open>Idempotency_Contract\<close> that start from an empty table.
\<close>

abbreviation pg_run :: "receipt_row list \<Rightarrow> idem_event list \<Rightarrow> receipt_row list \<Rightarrow> bool" where
  "pg_run \<equiv> service_run put_if_absent claim_rows record_outcome"

section \<open>Canonical payloads\<close>

lemma marshal_not_Nil: "wf_json d v \<Longrightarrow> marshal v \<noteq> []"
  by (drule opens_marshal) (auto simp: opens_value_def)

text \<open>C25: The canonical form of a payload is stable (canonicalising it again changes nothing),
  and two payloads have the same canonical form exactly when they decode to the same value:
  white space, the order and repetition of members and the spelling of strings do not count,
  anything else does.\<close>

theorem canonical_payload_faithful:
  assumes "canonical_payload p = Some c"
  shows "canonical_payload c = Some c \<and>
    (canonical_payload q = Some c \<longleftrightarrow> q \<noteq> [] \<and> decode_json q = decode_json p)"
proof -
  from assms obtain v where p: "p \<noteq> []" "decode_json p = Some v" and c: "c = marshal v"
    by (auto simp: canonical_payload_def split: if_split_asm)
  have wf: "wf_json max_nesting v" using p(2) by (rule decode_json_wf)
  have stable: "canonical_payload c = Some c"
    using decode_marshal [OF wf] marshal_not_Nil [OF wf] by (simp add: canonical_payload_def c)
  have "canonical_payload q = Some c \<longleftrightarrow> q \<noteq> [] \<and> decode_json q = Some v"
  proof (cases "decode_json q")
    case None
    then show ?thesis by (simp add: canonical_payload_def)
  next
    case (Some u)
    have "marshal u = marshal v \<longleftrightarrow> u = v"
      using decode_marshal [OF decode_json_wf [OF Some]] decode_marshal [OF wf] by (metis option.inject)
    with Some show ?thesis by (simp add: canonical_payload_def c)
  qed
  with stable p(2) show ?thesis by simp
qed

theorem canonical_payload_faithful_witness:
  "canonical_payload '' [1 , true]'' = Some ''[1,true]'' \<and> canonical_payload ''[1,true]'' = Some ''[1,true]''"
proof -
  have c: "canonical_payload '' [1 , true]'' = Some ''[1,true]''" by code_simp
  from canonical_payload_faithful [OF c] c show ?thesis by blast
qed

section \<open>A run\<close>

text \<open>One command with a budget of two attempts: begun, claimed, claimed again after the lease,
  and recorded as executed.\<close>

definition demo_key :: string where "demo_key = ''demo:0001''"

definition demo_world :: world where "demo_world = \<lparr>clock = 5, locked = [], jsonb = Some\<rparr>"

definition demo_begin :: begin_command where
  "demo_begin = \<lparr>bc_key = demo_key, bc_payload = ''{}'', bc_max_attempts = 2\<rparr>"

definition demo_claim :: "time \<Rightarrow> claim_command" where
  "demo_claim now = \<lparr>cl_owner = ''w'', cl_limit = 1, cl_lease_duration = 10, cl_now = now\<rparr>"

definition demo_outcome :: "int \<Rightarrow> outcome_command" where
  "demo_outcome n = \<lparr>oc_key = demo_key, oc_status = Receipt_Executed, oc_response = [], oc_last_error_code = [],
     oc_next_attempt_at = None, oc_expected_attempt = n\<rparr>"

definition demo_row0 :: receipt_row where
  "demo_row0 = inserted_row demo_world (fresh_receipt demo_begin (sha256 ''{}'') 100)"

definition demo_row1 :: receipt_row where "demo_row1 = leased_row demo_world (demo_claim 100) demo_row0"

definition demo_row2 :: receipt_row where "demo_row2 = leased_row demo_world (demo_claim 200) demo_row1"

definition demo_row3 :: receipt_row where "demo_row3 = closed_row demo_world (demo_outcome 2) None demo_row2"

lemma demo_text [simp]: "pg_text demo_key" "pg_text ''w''" "pg_text []" "rune_count demo_key = 9"
  by (simp_all add: pg_text_def demo_key_def rune_count_def ascii_text valid_utf8_ascii)

lemma demo_parse [simp]: "parse_key demo_key = Inr demo_key"
  by (simp add: parse_key_def demo_key_def ascii_text is_control_def is_space_def)

lemma demo_payload [simp]: "canonical_payload ''{}'' = Some ''{}''"
  by code_simp

lemma demo_row0_ok: "row_ok demo_row0"
  by (simp add: row_ok_def demo_row0_def inserted_row_def fresh_receipt_def demo_begin_def default_attempts_def is_int32_def)

lemma demo_rows [simp]:
  "rr_key demo_row0 = demo_key" "rr_status demo_row0 = Receipt_Accepted" "rr_attempt_count demo_row0 = 0"
  "rr_max_attempts demo_row0 = 2" "rr_next_attempt_at demo_row0 = 100" "rr_payload_hash demo_row0 = sha256 ''{}''"
  by (simp_all add: demo_row0_def inserted_row_def fresh_receipt_def demo_begin_def default_attempts_def)

lemma demo_begins: "begin_within put_if_absent demo_world 100 demo_begin [] = Inr ((scan_receipt demo_row0, False), [demo_row0])"
proof -
  have "put_if_absent demo_world (fresh_receipt demo_begin (sha256 ''{}'') 100) [] = Inr (scan_receipt demo_row0, True, [demo_row0])"
    using demo_row0_ok by (simp add: put_if_absent_def demo_row0_def)
  then show ?thesis
    by (simp add: begin_within_def canonical_payload_hash_def demo_begin_def [THEN arg_cong [of _ _ bc_key]]
        demo_begin_def [THEN arg_cong [of _ _ bc_payload]] demo_begin_def [THEN arg_cong [of _ _ bc_max_attempts]] default_attempts_def)
qed

lemma demo_claim_ok: "trim_space ''w'' = ''w''"
  by (simp add: ascii_text)

lemma row_ok_leased: "row_ok r \<Longrightarrow> pg_text (cl_owner c) \<Longrightarrow> rr_attempt_count r < rr_max_attempts r \<Longrightarrow> row_ok (leased_row w c r)"
  by (auto simp: row_ok_def leased_row_def is_int32_def)

lemma demo_lease:
  assumes "claimable now r" "row_ok r" "now \<noteq> 0"
  shows "claim_within claim_rows demo_world 0 (demo_claim now) [r]
    = Inr ([scan_receipt (leased_row demo_world (demo_claim now) r)], [leased_row demo_world (demo_claim now) r])"
proof -
  have "candidates demo_world (demo_claim now) [r] = [rr_key r]"
    using assms(1) by (simp add: candidates_def demo_claim_def demo_world_def)
  moreover have "row_ok (leased_row demo_world (demo_claim now) r)"
    using assms by (intro row_ok_leased) (auto simp: demo_claim_def claimable_def)
  ultimately show ?thesis
    using assms(3) by (simp add: claim_within_def claim_rows_def demo_claim_ok demo_claim_def)
qed

lemma demo_run:
  "pg_run [] [Began (scan_receipt demo_row0), Claimed (scan_receipt demo_row1), Claimed (scan_receipt demo_row2)] [demo_row2]"
proof -
  have b: "pg_run [] [Began (scan_receipt demo_row0)] [demo_row0]"
    using service_run.begin_call [OF service_run.start demo_begins] by simp
  have c0: "claimable 100 demo_row0" by (simp add: claimable_def)
  have r1: "row_ok demo_row1" unfolding demo_row1_def
    by (rule row_ok_leased [OF demo_row0_ok]) (simp_all add: demo_claim_def)
  have c1: "claimable 200 demo_row1"
    by (simp add: claimable_def demo_row1_def leased_row_def demo_claim_def)
  have "pg_run [] ([Began (scan_receipt demo_row0)] @ map Claimed [scan_receipt demo_row1]) [demo_row1]"
    unfolding demo_row1_def
    by (rule service_run.claim_call [OF b demo_lease [OF c0 demo_row0_ok]]) simp
  from service_run.claim_call [OF this demo_lease [OF c1 r1]] show ?thesis by (simp add: demo_row2_def)
qed

lemma demo_records: "record_within record_outcome demo_world (demo_outcome 2) [demo_row2] = Inr (scan_receipt demo_row3, [demo_row3])"
proof -
  have "open_attempt (demo_outcome 2) demo_row2"
    by (simp add: open_attempt_def demo_outcome_def demo_row2_def demo_row1_def)
  then show ?thesis
    by (simp add: record_within_def record_outcome_def nullable_json_def demo_row3_def,
        simp add: demo_outcome_def valid_outcome_status_def is_int32_def)
qed

section \<open>Attempts\<close>

text \<open>C24: In every run from an empty table the attempts handed out for a key are numbered
  from one without gap or repetition, up to the count its receipt shows, and never more than
  its budget: no two claims ever hold the same attempt.\<close>

theorem attempts_numbered:
  assumes "pg_run [] es t" "stored_receipt t k = Some x"
  shows "attempts_of_key k es = [1..rc_attempt_count x] \<and> rc_attempt_count x \<le> rc_max_attempts x"
  using pg.run_books [OF assms(1), of k] stored_receipt_bounds [OF pg.run_inv [OF assms(1)] assms(2)] assms(2)
  by (simp add: booked_def)

abbreviation demo_events :: "idem_event list" where
  "demo_events \<equiv> [Began (scan_receipt demo_row0), Claimed (scan_receipt demo_row1), Claimed (scan_receipt demo_row2)]"

lemma demo_attempts [simp]:
  "rr_key demo_row1 = demo_key" "rr_key demo_row2 = demo_key" "rr_key demo_row3 = demo_key"
  "rr_attempt_count demo_row1 = 1" "rr_attempt_count demo_row2 = 2" "rr_status demo_row3 = Receipt_Executed"
  by (simp_all add: demo_row1_def demo_row2_def demo_row3_def demo_outcome_def)

theorem attempts_numbered_witness:
  "pg_run [] demo_events [demo_row2] \<and> attempts_of_key demo_key demo_events = [1..2]"
proof -
  have "stored_receipt [demo_row2] demo_key = Some (scan_receipt demo_row2)" by (simp add: stored_receipt_def)
  from attempts_numbered [OF demo_run this] demo_run show ?thesis by simp
qed

lemma claimed_recorded: "Claimed x \<in> set es \<Longrightarrow> rc_attempt_count x \<in> set (attempts_of_key (rc_key x) es)"
  by (induction es) (auto split: option.split)

lemma run_receipt:
  assumes "pg_run [] es t" "Claimed x \<in> set es"
  obtains y where "stored_receipt t (rc_key x) = Some y" "rc_attempt_count x \<le> rc_attempt_count y"
proof -
  have b: "booked (rc_key x) es (stored_receipt t (rc_key x))" using pg.run_books [OF assms(1)] by simp
  with claimed_recorded [OF assms(2)] show thesis
    by (cases "stored_receipt t (rc_key x)") (auto simp: booked_def intro: that)
qed

text \<open>A worker whose attempt was taken over by a later claim can record nothing any more:
  its outcome names an attempt that is no longer the receipt's.\<close>

theorem superseded_worker_refused:
  assumes "pg_run [] es t" "Claimed x \<in> set es" "Claimed y \<in> set es" "rc_key y = rc_key x"
    "rc_attempt_count x < rc_attempt_count y" "oc_key c = rc_key x" "oc_expected_attempt c = rc_attempt_count x"
  shows "\<not> is_ok (record_within record_outcome w c t)"
proof -
  obtain z where z: "stored_receipt t (rc_key x) = Some z" "rc_attempt_count y \<le> rc_attempt_count z"
    using run_receipt [OF assms(1,3)] assms(4) by metis
  with assms(5-7) show ?thesis
    by (intro pg.stale_outcome [OF pg.run_inv [OF assms(1)], of c z]) simp_all
qed

theorem superseded_worker_refused_witness:
  "pg_run [] demo_events [demo_row2] \<and> \<not> is_ok (record_within record_outcome demo_world (demo_outcome 1) [demo_row2])"
  using superseded_worker_refused [OF demo_run, of "scan_receipt demo_row1" "scan_receipt demo_row2" "demo_outcome 1" demo_world] demo_run
  by (simp add: demo_outcome_def)

lemma demo_table3: "valid_table [demo_row3]"
proof -
  have "valid_table [demo_row2]" using pg.run_inv [OF demo_run] by simp
  from record_outcome_law [OF this, of demo_world "demo_outcome 2"] demo_records show ?thesis
    by (simp add: record_within_def split: if_split_asm)
qed

text \<open>A receipt that reached a final outcome (executed, reconciled or failed) is never
  touched again: it is not claimed, and no later outcome replaces it.\<close>

theorem finished_receipt_frozen:
  assumes "valid_table s" "pg_run s es t" "stored_receipt s k = Some x" "terminal_receipt x"
  shows "stored_receipt t k = Some x"
  using pg.run_frozen [OF assms(2,1,3,4)] .

section \<open>Replays\<close>

lemma begun_receipt:
  assumes "pg_run [] es t" "Began x \<in> set es"
  obtains y where "stored_receipt t (rc_key x) = Some y" "same_command x y"
proof -
  have b: "booked (rc_key x) es (stored_receipt t (rc_key x))" using pg.run_books [OF assms(1)] by simp
  with assms(2) show thesis
    by (cases "stored_receipt t (rc_key x)") (auto simp: booked_def intro: that)
qed

lemma stored_row:
  assumes "valid_table t" "stored_receipt t k = Some y"
  obtains r where "row_of k t = Some r" "y = scan_receipt r" "row_ok r" "rr_key r = k"
  using assms by (auto simp: stored_receipt_def valid_table_def list_all_iff dest: row_of_in)

lemma put_stored:
  assumes "valid_table t" "stored_receipt t k = Some y" "rc_key x = k" "length (rc_payload_hash x) = 32"
    "0 < rc_max_attempts x" "is_int32 (rc_max_attempts x)"
  shows "put_if_absent w x t = Inr (y, False, t)"
proof -
  obtain r where r: "row_of k t = Some r" "y = scan_receipt r" "row_ok r" "rr_key r = k"
    using assms(1,2) by (rule stored_row)
  have "row_ok (inserted_row w x)"
    using r(3,4) assms(3-) by (simp add: row_ok_def inserted_row_def is_int32_def)
  with r(1,2) assms(3) show ?thesis by (simp add: put_if_absent_def)
qed

lemma demo_replay:
  "begin_within put_if_absent demo_world 300 demo_begin [demo_row3] = Inr ((scan_receipt demo_row3, True), [demo_row3])"
proof -
  have "stored_receipt [demo_row3] demo_key = Some (scan_receipt demo_row3)" by (simp add: stored_receipt_def)
  from put_stored [OF demo_table3 this, of "fresh_receipt demo_begin (sha256 ''{}'') 300" demo_world]
  have "put_if_absent demo_world (fresh_receipt demo_begin (sha256 ''{}'') 300) [demo_row3] = Inr (scan_receipt demo_row3, False, [demo_row3])"
    by (simp add: fresh_receipt_def demo_begin_def default_attempts_def is_int32_def)
  moreover have "rr_payload_hash demo_row3 = sha256 ''{}''"
    by (simp add: demo_row3_def demo_row2_def demo_row1_def)
  ultimately show ?thesis
    by (simp add: begin_within_def canonical_payload_hash_def demo_begin_def [THEN arg_cong [of _ _ bc_key]]
        demo_begin_def [THEN arg_cong [of _ _ bc_payload]] demo_begin_def [THEN arg_cong [of _ _ bc_max_attempts]] default_attempts_def)
qed

theorem finished_receipt_frozen_witness:
  "pg_run [demo_row3] [Began (scan_receipt demo_row3)] [demo_row3]
   \<and> stored_receipt [demo_row3] demo_key = Some (scan_receipt demo_row3)"
proof -
  have run: "pg_run [demo_row3] [Began (scan_receipt demo_row3)] [demo_row3]"
    using service_run.begin_call [OF service_run.start demo_replay] by simp
  have "stored_receipt [demo_row3] demo_key = Some (scan_receipt demo_row3)" by (simp add: stored_receipt_def)
  from finished_receipt_frozen [OF demo_table3 run this] run show ?thesis by (simp add: terminal_receipt_def)
qed

text \<open>C23: Once a command was begun under a key, beginning again under that key changes nothing:
  with a payload of the same canonical hash it is answered as a replay with the stored receipt,
  with any other payload it is refused as a mismatch.\<close>

theorem begin_idempotent:
  assumes "pg_run [] es t" "Began x \<in> set es" "bc_key c = rc_key x" "is_ok (parse_key (bc_key c))"
    "canonical_payload (bc_payload c) = Some p" "0 \<le> bc_max_attempts c" "bc_max_attempts c < 2 ^ 31"
  shows "begin_within put_if_absent w now c t =
    (if sha256 p = rc_payload_hash x then Inr ((the (stored_receipt t (rc_key x)), True), t) else Inl Payload_Mismatch)"
proof -
  obtain y where y: "stored_receipt t (rc_key x) = Some y" "same_command x y"
    using assms(1,2) by (rule begun_receipt)
  have "put_if_absent w (fresh_receipt c (sha256 p) now) t = Inr (y, False, t)"
    using assms(3,6,7) by (intro put_stored [OF pg.run_inv [OF assms(1)] y(1)])
      (auto simp: fresh_receipt_def default_attempts_def is_int32_def)
  moreover have "default_attempts (bc_max_attempts c) \<ge> 1" using assms(6) by (simp add: default_attempts_def)
  moreover obtain k where "parse_key (bc_key c) = Inr k" using assms(4) by (auto simp: is_ok_iff)
  ultimately show ?thesis
    using y assms(5) by (auto simp: begin_within_def canonical_payload_hash_def same_command_def)
qed

theorem begin_idempotent_witness:
  "begin_within put_if_absent demo_world 300 demo_begin [demo_row2] = Inr ((scan_receipt demo_row2, True), [demo_row2])"
  using begin_idempotent [OF demo_run, of "scan_receipt demo_row0" demo_begin "''{}''" demo_world 300]
  by (simp add: demo_begin_def stored_receipt_def)

end
