(* ===== verification/Tag_Domain.thy ===== *)
theory Tag_Domain
  imports Go_Strings Go_Utf8 "HOL-Library.Multiset" "HOL-Library.Product_Lexorder"
begin

text \<open>
  \<open>internal/tag/domain\<close>: the local tag catalogue. A catalogue is a snapshot whose groups and
  tags must come in one stable order; \<open>validate_catalog\<close> follows the loops of the source, with
  the maps they fill as their accumulators, and \<open>scan_groups_iff\<close>, \<open>scan_tags_iff\<close> say what a
  snapshot that passes looks like. The order of tags is a linear order on
  \<open>catalog_position\<close> (an instance of \<open>linorder\<close>), so that the library's facts on sorted lists
  apply. The identifier lists of reorder commands are compared with and without order.
\<close>

section \<open>Data\<close>

definition tag_limit :: nat where [limits]: "tag_limit = 1000"

datatype tag_error = Invalid_Catalog | Invalid_Command

record tag_group =
  tg_id :: int64
  tg_name :: string
  tg_sort_order :: int32

record tag =
  tag_id :: int64
  tag_group_id :: int64
  tag_group_name :: string
  tag_name :: string
  tag_sort_order :: int32

text \<open>A nil slice is \<open>None\<close>.\<close>

record catalog =
  cat_groups :: "tag_group list option"
  cat_tags :: "tag list option"
  cat_synced_at :: time

record tag_command =
  tc_actor :: int64
  tc_idempotency_key :: string
  tc_trace_id :: string

section \<open>Validation\<close>

definition valid_tag_text :: "string \<Rightarrow> bool" where
  "valid_tag_text v \<longleftrightarrow> v \<noteq> [] \<and> v = trim_space v \<and> valid_utf8 v \<and> rune_count v \<le> 200"

definition valid_group :: "tag_group \<Rightarrow> bool" where
  "valid_group g \<longleftrightarrow> 0 < tg_id g \<and> 0 \<le> tg_sort_order g \<and> valid_tag_text (tg_name g)"

definition valid_tag :: "tag \<Rightarrow> bool" where
  "valid_tag t \<longleftrightarrow> 0 < tag_id t \<and> 0 < tag_group_id t \<and> 0 \<le> tag_sort_order t
     \<and> valid_tag_text (tag_group_name t) \<and> valid_tag_text (tag_name t)"

definition group_less :: "tag_group \<Rightarrow> tag_group \<Rightarrow> bool" where
  "group_less l r = (if tg_sort_order l \<noteq> tg_sort_order r then tg_sort_order l < tg_sort_order r
                     else tg_id l < tg_id r)"

definition tag_less :: "(int64 \<rightharpoonup> tag_group) \<Rightarrow> tag \<Rightarrow> tag \<Rightarrow> bool" where
  "tag_less groups l r =
     (case (groups (tag_group_id l), groups (tag_group_id r)) of
        (Some lg, Some rg) \<Rightarrow>
          if tg_sort_order lg \<noteq> tg_sort_order rg then tg_sort_order lg < tg_sort_order rg
          else if tag_group_id l \<noteq> tag_group_id r then tag_group_id l < tag_group_id r
          else if tag_sort_order l \<noteq> tag_sort_order r then tag_sort_order l < tag_sort_order r
          else tag_id l < tag_id r
      | _ \<Rightarrow>
          if tag_group_id l \<noteq> tag_group_id r then tag_group_id l < tag_group_id r
          else if tag_sort_order l \<noteq> tag_sort_order r then tag_sort_order l < tag_sort_order r
          else tag_id l < tag_id r)"

text \<open>The two loops: the previous element of the slice (nothing at index 0) and what the loop
  has seen so far.\<close>

fun scan_groups :: "tag_group option \<Rightarrow> (int64 \<rightharpoonup> tag_group) \<Rightarrow> tag_group list \<Rightarrow> (int64 \<rightharpoonup> tag_group) option" where
  "scan_groups prev groups [] = Some groups"
| "scan_groups prev groups (g # gs) =
     (if \<not> valid_group g \<or> (case prev of Some p \<Rightarrow> group_less g p | None \<Rightarrow> False) then None
      else if groups (tg_id g) \<noteq> None then None
      else scan_groups (Some g) (groups(tg_id g \<mapsto> g)) gs)"

fun scan_tags :: "(int64 \<rightharpoonup> tag_group) \<Rightarrow> tag option \<Rightarrow> int64 list \<Rightarrow> tag list \<Rightarrow> bool" where
  "scan_tags groups prev seen [] = True"
| "scan_tags groups prev seen (t # ts) =
     (if \<not> valid_tag t then False
      else (case groups (tag_group_id t) of
              None \<Rightarrow> False
            | Some g \<Rightarrow>
                if tg_name g \<noteq> tag_group_name t then False
                else if (case prev of Some p \<Rightarrow> tag_less groups t p | None \<Rightarrow> False) then False
                else if tag_id t \<in> set seen then False
                else scan_tags groups (Some t) (tag_id t # seen) ts))"

definition validate_catalog :: "catalog \<Rightarrow> tag_error option" where
  "validate_catalog c =
     (case (cat_groups c, cat_tags c) of
        (Some gs, Some ts) \<Rightarrow>
          if tag_limit < length gs \<or> tag_limit < length ts then Some Invalid_Catalog
          else (case scan_groups None (\<lambda>_. None) gs of
                  None \<Rightarrow> Some Invalid_Catalog
                | Some groups \<Rightarrow> if scan_tags groups None [] ts then None else Some Invalid_Catalog)
      | _ \<Rightarrow> Some Invalid_Catalog)"

definition valid_tag_command :: "tag_command \<Rightarrow> string list \<Rightarrow> bool" where
  "valid_tag_command c values \<longleftrightarrow>
     \<not> (tc_actor c < 1 \<or> length (tc_idempotency_key c) < 16 \<or> 128 < length (tc_idempotency_key c)
        \<or> tc_idempotency_key c \<noteq> trim_space (tc_idempotency_key c)
        \<or> tc_trace_id c \<noteq> trim_space (tc_trace_id c) \<or> 200 < length (tc_trace_id c))
     \<and> list_all valid_tag_text values"

section \<open>Identifier lists\<close>

fun scan_ids :: "int64 list \<Rightarrow> int64 list \<Rightarrow> bool" where
  "scan_ids seen [] = True"
| "scan_ids seen (i # ids) = (if i \<le> 0 then False else if i \<in> set seen then False else scan_ids (i # seen) ids)"

definition valid_ids :: "int64 list \<Rightarrow> bool" where
  "valid_ids ids = (if length ids = 0 then False else scan_ids [] ids)"

definition valid_result_ids :: "int64 list \<Rightarrow> bool" where
  "valid_result_ids ids = (if length ids = 0 then False else list_all (\<lambda>i. 0 < i) ids)"

definition group_ids :: "tag_group list \<Rightarrow> int64 list" where
  "group_ids gs = map tg_id gs"

definition tag_ids :: "tag list \<Rightarrow> int64 list" where
  "tag_ids ts = map tag_id ts"

definition same_ids :: "int64 list \<Rightarrow> int64 list \<Rightarrow> bool" where
  "same_ids l r = (if length l \<noteq> length r then False else list_all (\<lambda>i. l ! i = r ! i) [0..<length l])"

fun scan_members :: "int64 set \<Rightarrow> int64 list \<Rightarrow> int64 list \<Rightarrow> bool" where
  "scan_members seen right_seen [] = True"
| "scan_members seen right_seen (i # ids) =
     (if i \<notin> seen then False else if i \<in> set right_seen then False else scan_members seen (i # right_seen) ids)"

definition same_id_set :: "int64 list \<Rightarrow> int64 list \<Rightarrow> bool" where
  "same_id_set l r =
     (if length l = 0 \<or> length l \<noteq> length r then False
      else if \<not> list_all (\<lambda>i. 0 < i) l then False
      else if card (set l) \<noteq> length l then False
      else scan_members (set l) [] r)"

section \<open>The execution gate\<close>

record execution_gate =
  gate_provider_eligible :: bool
  gate_acceptance_available :: bool
  gate_queue_available :: bool
  gate_sync_executed :: bool
  gate_observed_at :: time
  gate_external_executed :: bool

definition valid_gate :: "execution_gate \<Rightarrow> bool" where
  "valid_gate g \<longleftrightarrow> \<not> gate_provider_eligible g \<and> gate_acceptance_available g \<and> gate_queue_available g
     \<and> \<not> gate_sync_executed g \<and> \<not> gate_external_executed g \<and> \<not> is_zero (gate_observed_at g)"

section \<open>The order of a catalogue\<close>

text \<open>Where a tag stands: by the order of its group, its group, its own order, its identifier.\<close>

datatype catalog_position = Catalog_Position int int int int

fun position_key :: "catalog_position \<Rightarrow> int \<times> int \<times> int \<times> int" where
  "position_key (Catalog_Position a b c d) = (a, b, c, d)"

lemma position_key_inject: "position_key p = position_key q \<longleftrightarrow> p = q"
  by (cases p; cases q) simp

instantiation catalog_position :: linorder
begin

definition less_eq_catalog_position :: "catalog_position \<Rightarrow> catalog_position \<Rightarrow> bool" where
  "less_eq_catalog_position p q \<longleftrightarrow> position_key p \<le> position_key q"

definition less_catalog_position :: "catalog_position \<Rightarrow> catalog_position \<Rightarrow> bool" where
  "less_catalog_position p q \<longleftrightarrow> position_key p < position_key q"

instance
  by intro_classes
    (auto simp: less_eq_catalog_position_def less_catalog_position_def position_key_inject [symmetric])

end

definition tag_position :: "(int64 \<rightharpoonup> tag_group) \<Rightarrow> tag \<Rightarrow> catalog_position" where
  "tag_position groups t =
     Catalog_Position (case groups (tag_group_id t) of Some g \<Rightarrow> tg_sort_order g | None \<Rightarrow> 0)
       (tag_group_id t) (tag_sort_order t) (tag_id t)"

lemma group_less_iff: "group_less l r \<longleftrightarrow> (tg_sort_order l, tg_id l) < (tg_sort_order r, tg_id r)"
  by (auto simp: group_less_def)

lemma tag_less_iff:
  "groups (tag_group_id l) \<noteq> None \<Longrightarrow> groups (tag_group_id r) \<noteq> None \<Longrightarrow>
   tag_less groups l r \<longleftrightarrow> tag_position groups l < tag_position groups r"
  by (auto simp: tag_less_def tag_position_def less_catalog_position_def)

abbreviation group_key :: "tag_group \<Rightarrow> int32 \<times> int64" where
  "group_key g \<equiv> (tg_sort_order g, tg_id g)"

definition after :: "('a \<Rightarrow> 'k::linorder) \<Rightarrow> 'a option \<Rightarrow> 'a list \<Rightarrow> bool" where
  "after f prev xs \<longleftrightarrow> sorted (case prev of Some p \<Rightarrow> f p # map f xs | None \<Rightarrow> map f xs)"

lemma after_simps [simp]:
  "after f prev []"
  "after f prev (x # xs) \<longleftrightarrow> (case prev of Some p \<Rightarrow> f p \<le> f x | None \<Rightarrow> True) \<and> after f (Some x) xs"
  by (auto simp: after_def split: option.split)

definition by_id :: "tag_group list \<Rightarrow> int64 \<rightharpoonup> tag_group" where
  "by_id gs = map_of (map (\<lambda>g. (tg_id g, g)) gs)"

lemma by_id_simps [simp]: "by_id [] = Map.empty" "by_id (g # gs) = (by_id gs)(tg_id g \<mapsto> g)"
  by (simp_all add: by_id_def)

lemma by_id_none: "by_id gs i = None \<longleftrightarrow> i \<notin> tg_id ` set gs"
  by (induction gs) auto

lemma by_id_some: "by_id gs i = Some g \<Longrightarrow> g \<in> set gs \<and> tg_id g = i"
  by (induction gs) (auto split: if_split_asm)

lemma scan_groups_iff:
  "scan_groups prev groups gs = Some m \<longleftrightarrow>
   (\<forall>g\<in>set gs. valid_group g \<and> groups (tg_id g) = None) \<and> after group_key prev gs \<and> distinct (map tg_id gs)
   \<and> m = groups ++ by_id gs"
proof (induction prev groups gs rule: scan_groups.induct)
  case (2 prev groups g gs)
  have shift: "groups(tg_id g \<mapsto> g) ++ by_id gs = groups ++ (by_id gs)(tg_id g \<mapsto> g)"
    if "tg_id g \<notin> tg_id ` set gs"
    using that by_id_none [of gs "tg_id g"]
    by (intro ext) (auto simp: map_add_def dest: by_id_some split: option.split)
  show ?case
  proof (cases "valid_group g \<and> (case prev of Some p \<Rightarrow> group_key p \<le> group_key g | None \<Rightarrow> True) \<and> groups (tg_id g) = None")
    case True
    then have step: "scan_groups prev groups (g # gs) = scan_groups (Some g) (groups(tg_id g \<mapsto> g)) gs"
      by (auto simp: group_less_iff not_less split: option.splits)
    have seen: "(\<forall>h\<in>set gs. valid_group h \<and> (groups(tg_id g \<mapsto> g)) (tg_id h) = None)
        \<longleftrightarrow> (\<forall>h\<in>set gs. valid_group h \<and> groups (tg_id h) = None) \<and> tg_id g \<notin> tg_id ` set gs"
      by (auto simp: image_iff)
    have IH: "scan_groups (Some g) (groups(tg_id g \<mapsto> g)) gs = Some m \<longleftrightarrow>
        (\<forall>h\<in>set gs. valid_group h \<and> (groups(tg_id g \<mapsto> g)) (tg_id h) = None) \<and> after group_key (Some g) gs
        \<and> distinct (map tg_id gs) \<and> m = groups(tg_id g \<mapsto> g) ++ by_id gs"
      using True by (intro 2) (auto simp: group_less_iff not_less split: option.splits)
    show ?thesis unfolding step IH seen using True shift by (auto simp del: fun_upd_apply)
  next
    case False
    then show ?thesis by (auto simp: group_less_iff not_le split: option.splits)
  qed
qed auto

lemma scan_tags_iff:
  "(case prev of Some p \<Rightarrow> groups (tag_group_id p) \<noteq> None | None \<Rightarrow> True) \<Longrightarrow>
   scan_tags groups prev seen ts \<longleftrightarrow>
   (\<forall>t\<in>set ts. valid_tag t \<and> (\<exists>g. groups (tag_group_id t) = Some g \<and> tg_name g = tag_group_name t) \<and> tag_id t \<notin> set seen)
   \<and> after (tag_position groups) prev ts \<and> distinct (map tag_id ts)"
proof (induction groups prev seen ts rule: scan_tags.induct)
  case (2 groups prev seen t ts)
  show ?case
  proof (cases "groups (tag_group_id t)")
    case (Some g)
    have less: "tag_less groups t p \<longleftrightarrow> \<not> tag_position groups p \<le> tag_position groups t" if "prev = Some p" for p
      using tag_less_iff [of groups t p] Some 2(2) that by (simp add: not_le)
    show ?thesis using 2(1) Some less by (cases prev) (auto simp: image_iff)
  qed simp
qed simp

text \<open>What a snapshot that passes is.\<close>

definition well_ordered_catalog :: "tag_group list \<Rightarrow> tag list \<Rightarrow> bool" where
  "well_ordered_catalog gs ts \<longleftrightarrow>
     (\<forall>g\<in>set gs. valid_group g) \<and> sorted (map group_key gs) \<and> distinct (map tg_id gs)
     \<and> (\<forall>t\<in>set ts. valid_tag t \<and> (\<exists>g\<in>set gs. tg_id g = tag_group_id t \<and> tg_name g = tag_group_name t))
     \<and> sorted (map (tag_position (by_id gs)) ts) \<and> distinct (map tag_id ts)"

lemma by_id_unique: "distinct (map tg_id gs) \<Longrightarrow> by_id gs i = Some g \<longleftrightarrow> g \<in> set gs \<and> tg_id g = i"
  by (induction gs) (auto simp: image_iff)

lemma validate_catalog_iff:
  "validate_catalog c = None \<longleftrightarrow>
   (\<exists>gs ts. cat_groups c = Some gs \<and> cat_tags c = Some ts \<and> length gs \<le> tag_limit \<and> length ts \<le> tag_limit
     \<and> well_ordered_catalog gs ts)"
proof (cases "cat_groups c"; cases "cat_tags c")
  fix gs ts
  assume c: "cat_groups c = Some gs" "cat_tags c = Some ts"
  show ?thesis
  proof (cases "scan_groups None (\<lambda>_. None) gs")
    case None
    then have "\<not> ((\<forall>g\<in>set gs. valid_group g) \<and> sorted (map group_key gs) \<and> distinct (map tg_id gs))"
      using scan_groups_iff [of None "\<lambda>_. None" gs] by (auto simp: after_def)
    with None c show ?thesis by (auto simp: validate_catalog_def well_ordered_catalog_def)
  next
    case (Some m)
    with scan_groups_iff [of None "\<lambda>_. None" gs m]
    have gs: "\<forall>g\<in>set gs. valid_group g" "sorted (map group_key gs)" "distinct (map tg_id gs)" "m = by_id gs"
      by (auto simp: after_def map_add_def split: option.split)
    have "scan_tags m None [] ts \<longleftrightarrow> well_ordered_catalog gs ts"
      using scan_tags_iff [of m None "[]" ts] gs
      by (simp add: well_ordered_catalog_def after_def by_id_unique) blast
    with Some c show ?thesis by (auto simp: validate_catalog_def not_less)
  qed
qed (auto simp: validate_catalog_def)

lemma sorted_keys_unique:
  fixes f :: "'a \<Rightarrow> 'k::linorder"
  assumes "sorted (map f xs)" "sorted (map f ys)" "distinct xs" "distinct ys" "set xs = set ys" "inj_on f (set xs)"
  shows "xs = ys"
proof -
  have "map f xs = map f ys"
    using assms by (intro sorted_distinct_set_unique) (auto simp: distinct_map)
  with assms(5,6) show ?thesis by (metis map_inj_on Un_absorb)
qed

lemma same_id_set_iff:
  "same_id_set l r \<longleftrightarrow> l \<noteq> [] \<and> distinct l \<and> (\<forall>i\<in>set l. 0 < i) \<and> mset l = mset r"
proof -
  have scan: "scan_members seen rs r \<longleftrightarrow> set r \<subseteq> seen \<and> distinct r \<and> set r \<inter> set rs = {}" for seen rs r
    by (induction seen rs r rule: scan_members.induct) auto
  have "set r \<subseteq> set l \<and> distinct r \<longleftrightarrow> mset l = mset r" if "distinct l" "length l = length r"
    using that by (metis card_subset_eq distinct_card finite_set mset_eq_setD set_eq_iff_mset_eq_distinct subset_refl mset_eq_imp_distinct_iff)
  then show ?thesis
    by (auto simp: same_id_set_def scan list_all_iff card_distinct distinct_card dest: mset_eq_length)
qed

lemma same_ids_iff: "same_ids l r \<longleftrightarrow> l = r"
  by (auto simp: same_ids_def list_all_iff intro: nth_equalityI)

lemma valid_ids_iff: "valid_ids ids \<longleftrightarrow> ids \<noteq> [] \<and> distinct ids \<and> (\<forall>i\<in>set ids. 0 < i)"
proof -
  have "scan_ids seen ids \<longleftrightarrow> distinct ids \<and> (\<forall>i\<in>set ids. 0 < i \<and> i \<notin> set seen)" for seen
    by (induction seen ids rule: scan_ids.induct) auto
  then show ?thesis by (auto simp: valid_ids_def)
qed


section \<open>Properties\<close>

text \<open>C31: A catalogue that passes validation is in canonical order: the groups and tags alone, as
  sets, determine the two lists, so two snapshots of the same content are the same slices
  (no client can see the catalogue shuffled).\<close>

theorem catalog_order_canonical:
  assumes "validate_catalog c = None" "validate_catalog d = None"
    and "set (the (cat_groups c)) = set (the (cat_groups d))" "set (the (cat_tags c)) = set (the (cat_tags d))"
  shows "cat_groups c = cat_groups d \<and> cat_tags c = cat_tags d"
proof -
  obtain gs ts where c: "cat_groups c = Some gs" "cat_tags c = Some ts" "well_ordered_catalog gs ts"
    using assms(1) by (auto simp: validate_catalog_iff)
  obtain hs us where d: "cat_groups d = Some hs" "cat_tags d = Some us" "well_ordered_catalog hs us"
    using assms(2) by (auto simp: validate_catalog_iff)
  have g: "gs = hs"
    using assms(3) c d by (intro sorted_keys_unique [of group_key])
      (auto simp: well_ordered_catalog_def distinct_map inj_on_def)
  have "ts = us"
    using assms(4) c d g by (intro sorted_keys_unique [of "tag_position (by_id gs)"])
      (auto simp: well_ordered_catalog_def distinct_map inj_on_def tag_position_def)
  with g c d show ?thesis by simp
qed

text \<open>A reorder request passes the unordered comparison with the stored identifiers exactly when it is
  a permutation of them, none missing, none repeated, none foreign; so the request is itself a
  valid list, and comparing in the other direction gives the same answer.\<close>

theorem reorder_is_permutation:
  assumes "\<forall>i\<in>set l. 0 < i" "distinct l" "l \<noteq> []"
  shows "(same_id_set l r \<longleftrightarrow> mset l = mset r) \<and> same_id_set r l = same_id_set l r
    \<and> (same_id_set l r \<longrightarrow> valid_ids r)"
  using assms mset_eq_setD [of l r] mset_eq_imp_distinct_iff [of l r]
  by (auto simp: same_id_set_iff valid_ids_iff)


definition sample_catalog :: catalog where
  "sample_catalog =
     \<lparr>cat_groups = Some [\<lparr>tg_id = 7, tg_name = ''Level'', tg_sort_order = 0\<rparr>, \<lparr>tg_id = 3, tg_name = ''City'', tg_sort_order = 1\<rparr>],
      cat_tags = Some [\<lparr>tag_id = 9, tag_group_id = 7, tag_group_name = ''Level'', tag_name = ''Gold'', tag_sort_order = 0\<rparr>,
                       \<lparr>tag_id = 4, tag_group_id = 3, tag_group_name = ''City'', tag_name = ''Oslo'', tag_sort_order = 0\<rparr>],
      cat_synced_at = 5\<rparr>"

lemma sample_tag_texts: "valid_tag_text ''Level''" "valid_tag_text ''City''" "valid_tag_text ''Gold''" "valid_tag_text ''Oslo''"
  by (simp_all add: valid_tag_text_def rune_count_def ascii_text)

lemma sample_catalog_valid: "validate_catalog sample_catalog = None"
  by (simp add: validate_catalog_def sample_catalog_def tag_limit_def valid_group_def valid_tag_def sample_tag_texts
      group_less_def tag_less_def)

theorem catalog_order_canonical_witness:
  "validate_catalog sample_catalog = None
   \<and> cat_tags (sample_catalog\<lparr>cat_synced_at := 8\<rparr>) = cat_tags sample_catalog"
proof -
  have "validate_catalog (sample_catalog\<lparr>cat_synced_at := 8\<rparr>) = None"
    using sample_catalog_valid by (simp add: validate_catalog_def)
  from catalog_order_canonical [OF this sample_catalog_valid] sample_catalog_valid show ?thesis by simp
qed

theorem reorder_is_permutation_witness:
  "same_id_set [1, 2, 3] [3, 1, 2] \<and> valid_ids [3, 1, 2]"
  using reorder_is_permutation [of "[1, 2, 3]" "[3, 1, 2]"] by simp

end
