(* ===== verification/Json_Scan.thy ===== *)
theory Json_Scan
  imports Go_Json_Data
begin

text \<open>
  What the content rules of the components share: \<open>json.Unmarshal\<close> into an untyped value, the
  normalisation of member names, and the walk over the parts of a document.

  \<open>Unmarshal\<close> converts numbers to 64-bit floats and fails when one is out of range; the check
  is on the text, because a member overwritten by a later one is converted as well.
  \<open>strings.ToLower\<close> is modelled where its result is compared with ASCII words: besides \<open>A\<close> to
  \<open>Z\<close>, the Kelvin sign and the dotted capital I have ASCII lower-case letters; every other
  rune stays outside ASCII whatever its lower case, so it is kept as it is.
\<close>

section \<open>Numbers in range\<close>

text \<open>Every number literal of a valid text: strings are skipped as wholes.\<close>

function number_literals :: "string \<Rightarrow> string list" where
  "number_literals [] = []"
| "number_literals (c # t) =
     (if byte c = 34 then (case json_string t of Some r \<Rightarrow> number_literals r | None \<Rightarrow> [])
      else (case json_number (c # t) of
              Some r \<Rightarrow> take (length (c # t) - length r) (c # t) # number_literals r
            | None \<Rightarrow> number_literals t))"
  by pat_completeness auto
termination
  by (relation "measure length") (auto dest: json_string_le json_number_le)

text \<open>The unsigned decimal value of a literal is \<open>digits * 10 ^ exponent\<close>.\<close>

definition literal_digits :: "string \<Rightarrow> string \<times> string" where
  "literal_digits w =
     (let u = (case w of c # t \<Rightarrow> if c = CHR ''-'' then t else w | [] \<Rightarrow> []);
          whole = takeWhile is_digit u; rest = dropWhile is_digit u
      in (whole, case rest of c # t \<Rightarrow> if c = CHR ''.'' then takeWhile is_digit t else [] | [] \<Rightarrow> []))"

definition literal_exponent :: "string \<Rightarrow> int" where
  "literal_exponent w =
     (case dropWhile (\<lambda>c. c \<noteq> CHR ''e'' \<and> c \<noteq> CHR ''E'') w of
        [] \<Rightarrow> 0
      | _ # t \<Rightarrow> (case t of
                    d # u \<Rightarrow> if d = CHR ''-'' then - int (read_digits u)
                             else if d = CHR ''+'' then int (read_digits u) else int (read_digits t)
                  | [] \<Rightarrow> 0))"

text \<open>Rounding to the nearest float overflows from half a unit above the largest one.\<close>

definition float_limit :: int where
  "float_limit = 2 ^ 1024 - 2 ^ 970"

definition float_overflows :: "string \<Rightarrow> bool" where
  "float_overflows w =
     (let (whole, fraction) = literal_digits w; n = int (read_digits (whole @ fraction));
          e = literal_exponent w - int (length fraction)
      in if 0 \<le> e then float_limit \<le> n * 10 ^ nat e else float_limit * 10 ^ nat (- e) \<le> n)"

definition unmarshal_any :: "string \<Rightarrow> json option" where
  "unmarshal_any s = (if list_ex float_overflows (number_literals s) then None else decode_json s)"

section \<open>Member names\<close>

definition lower_rune :: "nat \<Rightarrow> nat" where
  "lower_rune r =
     (if 65 \<le> r \<and> r \<le> 90 then r + 32 else if r = 8490 then 107 else if r = 304 then 105 else r)"

definition to_lower :: "string \<Rightarrow> string" where
  "to_lower s = concat (map (\<lambda>r. encode_rune (lower_rune r)) (runes s))"

lemma to_lower_plain: "list_all (\<lambda>c. byte c < 128 \<and> (byte c < 65 \<or> 90 < byte c)) s \<Longrightarrow> to_lower s = s"
proof -
  assume a: "list_all (\<lambda>c. byte c < 128 \<and> (byte c < 65 \<or> 90 < byte c)) s"
  then have "runes s = map byte s" by (intro runes_ascii) (auto elim: list.pred_mono_strong)
  moreover have "concat (map (\<lambda>r. encode_rune (lower_rune r)) (map byte s)) = s"
    using a by (induction s) (auto simp: lower_rune_def encode_rune_ascii)
  ultimately show ?thesis by (simp add: to_lower_def)
qed

text \<open>\<open>NewReplacer("_", "", "-", "", " ", "")\<close> after \<open>ToLower\<close>.\<close>

definition normalized_key :: "string \<Rightarrow> string" where
  "normalized_key k = filter (\<lambda>c. c \<notin> set ''_- '') (to_lower k)"

section \<open>The parts of a document\<close>

inductive part_of :: "json \<Rightarrow> json \<Rightarrow> bool" where
  itself: "part_of v v"
| element: "w \<in> set vs \<Longrightarrow> part_of v w \<Longrightarrow> part_of v (Json_Array vs)"
| member: "(k, w) \<in> set ms \<Longrightarrow> part_of v w \<Longrightarrow> part_of v (Json_Object ms)"

inductive_simps part_of_simps [simp]:
  "part_of v Json_Null" "part_of v (Json_Bool b)" "part_of v (Json_Number w)" "part_of v (Json_String s)"

inductive_cases part_of_arrayE: "part_of v (Json_Array vs)"

inductive_cases part_of_objectE: "part_of v (Json_Object ms)"

text \<open>A walk that looks at every value once, children of a container after the container.\<close>

fun any_part :: "(json \<Rightarrow> bool) \<Rightarrow> json \<Rightarrow> bool" where
  "any_part P (Json_Array vs) = (P (Json_Array vs) \<or> list_ex (any_part P) vs)"
| "any_part P (Json_Object ms) = (P (Json_Object ms) \<or> list_ex (\<lambda>m. any_part P (snd m)) ms)"
| "any_part P v = P v"

lemma any_part_iff: "any_part P v \<longleftrightarrow> (\<exists>w. part_of w v \<and> P w)"
proof (induction P v rule: any_part.induct)
  case (1 P vs)
  then show ?case by (auto simp: list_ex_iff intro: part_of.intros elim!: part_of_arrayE)
next
  case (2 P ms)
  then show ?case by (fastforce simp: list_ex_iff intro: part_of.intros elim!: part_of_objectE)
qed auto

end
