(* ===== verification/Groupops_Domain.thy ===== *)
theory Groupops_Domain
  imports Json_Scan "HOL-Library.Multiset"
begin

text \<open>
  \<open>internal/groupops/domain\<close>: plans of group messages, their ordered nodes, the materials of a
  node, inbound webhook messages, and the scan that keeps identities out of stored documents.
  Loops over slices are recursions that carry what the loop variables hold; a nil slice is
  \<open>None\<close>. The data types follow \<open>internal/groupops/port/port.go\<close>.
\<close>

section \<open>Data\<close>

datatype groupops_error =
    Invalid_Plan | Invalid_Detail | Invalid_Node | Invalid_Material | Invalid_Webhook

datatype plan_status = Plan_Draft | Plan_Active | Plan_Paused | Plan_Archived | Plan_Status_Other string

definition max_name_length :: nat where [limits]: "max_name_length = 128"
definition max_message_length :: nat where [limits]: "max_message_length = 1000"
definition max_materials :: nat where [limits]: "max_materials = 9"

record group_plan =
  gp_type :: string
  gp_id :: int64
  gp_name :: string
  gp_status :: plan_status
  gp_revision :: int64
  gp_created_by :: int64
  gp_updated_by :: int64
  gp_created_at :: time
  gp_updated_at :: time

record group_asset =
  ga_id :: int64
  ga_asset_ref :: string

record material_reference =
  mr_kind :: string
  mr_id :: int64

datatype node_kind = Node_Message | Node_Delay | Node_Other string

record plan_node =
  pn_id :: int64
  pn_position :: int32
  pn_kind :: node_kind
  pn_message_text :: string
  pn_delay_minutes :: int32
  pn_material_ref :: string
  pn_material_plan :: "material_reference list"

record webhook_descriptor =
  wd_configured :: bool
  wd_reference :: string
  wd_path :: string
  wd_url :: string
  wd_signature_algorithm :: string
  wd_signature_header :: string
  wd_timestamp_header :: string
  wd_nonce_header :: string
  wd_client_id_header :: string
  wd_client_id :: string

record plan_detail =
  pd_plan :: group_plan
  pd_members :: "int64 list option"
  pd_assets :: "group_asset list option"
  pd_nodes :: "plan_node list option"
  pd_webhook :: webhook_descriptor
  pd_provider_eligible :: bool
  pd_external_executed :: bool

record webhook_message =
  wm_type :: string
  wm_text :: string
  wm_app_id :: string
  wm_path :: string
  wm_title :: string
  wm_mini_program_id :: int64
  wm_image_id :: int64
  wm_attachment_id :: int64

record webhook_inbound =
  wi_reference :: string
  wi_targets :: "string list"
  wi_messages :: "webhook_message list"

section \<open>Texts and identifiers\<close>

definition valid_text_within :: "string \<Rightarrow> nat \<Rightarrow> bool" where
  "valid_text_within v maximum \<longleftrightarrow> v \<noteq> [] \<and> v = trim_space v \<and> valid_utf8 v \<and> rune_count v \<le> maximum"

definition opaque_rune :: "nat \<Rightarrow> bool" where
  "opaque_rune r \<longleftrightarrow> 97 \<le> r \<and> r \<le> 122 \<or> 65 \<le> r \<and> r \<le> 90 \<or> 48 \<le> r \<and> r \<le> 57 \<or> r \<in> set (map byte ''-_.:'')"

definition valid_opaque :: "string \<Rightarrow> bool" where
  "valid_opaque v =
     (if \<not> valid_text_within v max_name_length \<or> contains v ''://'' then False
      else list_all opaque_rune (runes v))"

text \<open>\<open>formatID\<close> negates a negative identifier with the machine's wrap-around: the smallest
  \<open>int64\<close> stays negative and its digit loop writes nothing.\<close>

definition format_id :: "int64 \<Rightarrow> string" where
  "format_id v =
     (if v = 0 then ''0''
      else let n = (if v < 0 then wrap64 (- v) else v);
               digits = (if 0 < n then show_nat (nat n) else [])
           in (if v < 0 then CHR ''-'' # digits else digits))"

section \<open>Materials\<close>

text \<open>How many references of a kind a plan may hold: \<open>None\<close> refuses the kind.\<close>

definition kind_limit :: "string \<Rightarrow> nat option option" where
  "kind_limit k =
     (if k = ''image'' then Some (Some 3)
      else if k = ''miniprogram'' then Some (Some 1)
      else if k = ''attachment'' then Some None
      else if k = ''group_invite'' then Some (Some 1)
      else None)"

fun scan_materials :: "string list \<Rightarrow> (string \<Rightarrow> nat) \<Rightarrow> material_reference list \<Rightarrow> bool" where
  "scan_materials seen counts [] = True"
| "scan_materials seen counts (r # rs) =
     (if mr_id r < 1 \<or> mr_kind r = [] then False
      else let key = mr_kind r @ '':'' @ format_id (mr_id r); n = counts (mr_kind r) + 1
      in if key \<in> set seen then False
         else (case kind_limit (mr_kind r) of
                 None \<Rightarrow> False
               | Some l \<Rightarrow> if (case l of Some m \<Rightarrow> m < n | None \<Rightarrow> False) then False
                           else scan_materials (key # seen) (counts(mr_kind r := n)) rs))"

definition validate_material_plan :: "material_reference list \<Rightarrow> groupops_error option" where
  "validate_material_plan rs =
     (if max_materials < length rs then Some Invalid_Material
      else if scan_materials [] (\<lambda>_. 0) rs then None else Some Invalid_Material)"

section \<open>Webhook messages\<close>

definition valid_webhook_text :: "string \<Rightarrow> bool" where
  "valid_webhook_text v \<longleftrightarrow> valid_text_within v max_message_length \<and> 0 \<notin> set (runes v)"

definition valid_mini_program_title :: "string \<Rightarrow> bool" where
  "valid_mini_program_title v =
     (if \<not> valid_text_within v 64 \<or> 64 < length v then False
      else list_all (\<lambda>r. \<not> (r < 32 \<or> r = 127)) (runes v))"

text \<open>A message at its index: how many attachments and mini programs it adds.\<close>

definition message_counts :: "nat \<Rightarrow> webhook_message \<Rightarrow> (nat \<times> nat) option" where
  "message_counts i m =
     (if wm_type m = ''text'' then
        (if i \<noteq> 0 \<or> \<not> valid_webhook_text (wm_text m) \<or> wm_app_id m \<noteq> [] \<or> wm_path m \<noteq> [] \<or> wm_title m \<noteq> []
            \<or> wm_mini_program_id m \<noteq> 0 \<or> wm_image_id m \<noteq> 0 \<or> wm_attachment_id m \<noteq> 0 then None else Some (0, 0))
      else if wm_type m = ''image'' then
        (if wm_image_id m < 1 \<or> wm_text m \<noteq> [] \<or> wm_app_id m \<noteq> [] \<or> wm_path m \<noteq> [] \<or> wm_title m \<noteq> []
            \<or> wm_mini_program_id m \<noteq> 0 \<or> wm_attachment_id m \<noteq> 0 then None else Some (1, 0))
      else if wm_type m = ''file'' then
        (if wm_attachment_id m < 1 \<or> wm_text m \<noteq> [] \<or> wm_app_id m \<noteq> [] \<or> wm_path m \<noteq> [] \<or> wm_title m \<noteq> []
            \<or> wm_mini_program_id m \<noteq> 0 \<or> wm_image_id m \<noteq> 0 then None else Some (1, 0))
      else if wm_type m = ''miniprogram'' then
        (if wm_text m \<noteq> [] \<or> wm_image_id m \<noteq> 0 \<or> wm_attachment_id m \<noteq> 0 then None
         else if wm_mini_program_id m \<noteq> 0 then
           (if wm_mini_program_id m < 1 \<or> wm_app_id m \<noteq> [] \<or> wm_path m \<noteq> [] \<or> wm_title m \<noteq> [] then None
            else Some (1, 1))
         else if \<not> valid_text_within (wm_app_id m) 128 \<or> \<not> valid_text_within (wm_path m) 1024
              \<or> \<not> valid_mini_program_title (wm_title m) then None
         else Some (1, 1))
      else None)"

fun scan_messages :: "nat \<Rightarrow> nat \<Rightarrow> nat \<Rightarrow> webhook_message list \<Rightarrow> (nat \<times> nat) option" where
  "scan_messages i attachments minis [] = Some (attachments, minis)"
| "scan_messages i attachments minis (m # ms) =
     (case message_counts i m of
        None \<Rightarrow> None
      | Some (a, p) \<Rightarrow> scan_messages (Suc i) (attachments + a) (minis + p) ms)"

fun scan_targets :: "string list \<Rightarrow> string list \<Rightarrow> bool" where
  "scan_targets seen [] = True"
| "scan_targets seen (t # ts) =
     (if \<not> valid_opaque t then False else if t \<in> set seen then False else scan_targets (t # seen) ts)"

definition validate_webhook_inbound :: "webhook_inbound \<Rightarrow> groupops_error option" where
  "validate_webhook_inbound w =
     (if \<not> valid_opaque (wi_reference w) \<or> length (wi_targets w) = 0 \<or> length (wi_messages w) = 0
         \<or> max_materials + 1 < length (wi_messages w) then Some Invalid_Webhook
      else if \<not> scan_targets [] (wi_targets w) then Some Invalid_Webhook
      else (case scan_messages 0 0 0 (wi_messages w) of
              None \<Rightarrow> Some Invalid_Webhook
            | Some (attachments, minis) \<Rightarrow>
                if max_materials < attachments \<or> 1 < minis then Some Invalid_Webhook else None))"

section \<open>Plans, nodes and details\<close>

definition valid_plan_status :: "plan_status \<Rightarrow> bool" where
  "valid_plan_status s \<longleftrightarrow> s = Plan_Draft \<or> s = Plan_Active \<or> s = Plan_Paused \<or> s = Plan_Archived"

definition valid_plan_type :: "string \<Rightarrow> bool" where
  "valid_plan_type t \<longleftrightarrow> t = [] \<or> t = ''standard'' \<or> t = ''webhook''"

definition validate_plan :: "group_plan \<Rightarrow> groupops_error option" where
  "validate_plan p =
     (if gp_id p < 1 \<or> \<not> valid_text_within (gp_name p) max_name_length \<or> \<not> valid_plan_status (gp_status p)
         \<or> gp_revision p < 1 \<or> \<not> valid_plan_type (gp_type p) \<or> gp_created_by p < 1 \<or> gp_updated_by p < 1
         \<or> is_zero (gp_created_at p) \<or> is_zero (gp_updated_at p) \<or> gp_updated_at p < gp_created_at p
      then Some Invalid_Plan else None)"

definition validate_node :: "plan_node \<Rightarrow> groupops_error option" where
  "validate_node n =
     (if pn_id n < 1 \<or> pn_position n < 1 \<or> \<not> valid_opaque (pn_material_ref n) \<and> pn_material_ref n \<noteq> []
         \<or> validate_material_plan (pn_material_plan n) \<noteq> None then Some Invalid_Node
      else (case pn_kind n of
              Node_Message \<Rightarrow>
                if pn_delay_minutes n \<noteq> 0
                   \<or> \<not> valid_text_within (pn_message_text n) max_message_length \<and> pn_message_text n \<noteq> []
                   \<or> pn_message_text n = [] \<and> length (pn_material_plan n) = 0 then Some Invalid_Node else None
            | Node_Delay \<Rightarrow>
                if trim_space (pn_message_text n) \<noteq> [] \<or> pn_material_ref n \<noteq> [] \<or> length (pn_material_plan n) \<noteq> 0
                   \<or> pn_delay_minutes n < 1 \<or> 10080 < pn_delay_minutes n then Some Invalid_Node else None
            | Node_Other _ \<Rightarrow> Some Invalid_Node))"

fun scan_ascending :: "int64 option \<Rightarrow> int64 list \<Rightarrow> bool" where
  "scan_ascending prev [] = True"
| "scan_ascending prev (i # is) =
     (if i < 1 \<or> (case prev of Some p \<Rightarrow> i \<le> p | None \<Rightarrow> False) then False else scan_ascending (Some i) is)"

definition valid_members :: "int64 list option \<Rightarrow> bool" where
  "valid_members items = (case items of None \<Rightarrow> False | Some is \<Rightarrow> scan_ascending None is)"

fun scan_assets :: "group_asset option \<Rightarrow> group_asset list \<Rightarrow> bool" where
  "scan_assets prev [] = True"
| "scan_assets prev (a # as) =
     (if ga_id a < 1 \<or> \<not> valid_opaque (ga_asset_ref a)
         \<or> (case prev of Some p \<Rightarrow> ga_asset_ref a < ga_asset_ref p
                                  \<or> ga_asset_ref p = ga_asset_ref a \<and> ga_id a \<le> ga_id p
            | None \<Rightarrow> False)
      then False else scan_assets (Some a) as)"

definition valid_assets :: "group_asset list option \<Rightarrow> bool" where
  "valid_assets items = (case items of None \<Rightarrow> False | Some as \<Rightarrow> scan_assets None as)"

fun scan_nodes :: "nat \<Rightarrow> plan_node list \<Rightarrow> bool" where
  "scan_nodes i [] = True"
| "scan_nodes i (n # ns) =
     (if pn_position n \<noteq> wrap32 (int i + 1) \<or> validate_node n \<noteq> None then False else scan_nodes (Suc i) ns)"

definition valid_nodes :: "plan_node list option \<Rightarrow> bool" where
  "valid_nodes items = (case items of None \<Rightarrow> False | Some ns \<Rightarrow> scan_nodes 0 ns)"

definition valid_webhook :: "webhook_descriptor \<Rightarrow> bool" where
  "valid_webhook w =
     (if wd_reference w = [] then
        \<not> wd_configured w \<and> wd_path w = [] \<and> wd_url w = [] \<and> wd_signature_algorithm w = []
        \<and> wd_signature_header w = [] \<and> wd_timestamp_header w = [] \<and> wd_nonce_header w = []
        \<and> wd_client_id_header w = [] \<and> wd_client_id w = []
      else
        wd_configured w \<and> valid_opaque (wd_reference w) \<and> wd_path w \<noteq> [] \<and> wd_url w \<noteq> []
        \<and> wd_signature_algorithm w = ''HMAC-SHA256'' \<and> wd_signature_header w = ''X-AICRM-Signature''
        \<and> wd_timestamp_header w = ''X-AICRM-Timestamp'' \<and> wd_nonce_header w = ''X-AICRM-Event-Id''
        \<and> wd_client_id_header w = ''X-AICRM-Client-Id'' \<and> wd_client_id w = ''aicrm-webhook-group-ops'')"

definition validate_detail :: "plan_detail \<Rightarrow> groupops_error option" where
  "validate_detail d =
     (if validate_plan (pd_plan d) \<noteq> None \<or> pd_provider_eligible d \<or> pd_external_executed d
         \<or> \<not> valid_members (pd_members d) \<or> \<not> valid_assets (pd_assets d) \<or> \<not> valid_nodes (pd_nodes d)
         \<or> \<not> valid_webhook (pd_webhook d) then Some Invalid_Detail else None)"

definition can_transition_plan_status :: "plan_status \<Rightarrow> plan_status \<Rightarrow> bool" where
  "can_transition_plan_status p q =
     (if \<not> valid_plan_status p \<or> \<not> valid_plan_status q \<or> p = Plan_Archived then False
      else if p = q then True
      else (case p of
              Plan_Draft \<Rightarrow> q = Plan_Active \<or> q = Plan_Paused \<or> q = Plan_Archived
            | Plan_Active \<Rightarrow> q = Plan_Paused \<or> q = Plan_Archived
            | Plan_Paused \<Rightarrow> q = Plan_Active \<or> q = Plan_Archived
            | _ \<Rightarrow> False))"

section \<open>Forbidden scopes\<close>

definition groupops_forbidden_keys :: "string list" where
  "groupops_forbidden_keys =
     [''customerid'', ''customerids'', ''openid'', ''openids'', ''unionid'', ''unionids'', ''externaluserid'',
      ''externaluserids'', ''phone'', ''phonenumber'', ''mobile'', ''segmentid'', ''segmentids'', ''audienceid'',
      ''audienceids'', ''campaignid'', ''campaignids'', ''recipientid'', ''recipientids'']"

definition groupops_forbidden_key :: "string \<Rightarrow> bool" where
  "groupops_forbidden_key k \<longleftrightarrow>
     (let n = normalized_key k in
      n \<in> set groupops_forbidden_keys \<or> contains n ''secret'' \<or> contains n ''credential'')"

fun contains_forbidden_value :: "json \<Rightarrow> bool" where
  "contains_forbidden_value (Json_Object ms) =
     list_ex (\<lambda>m. groupops_forbidden_key (fst m) \<or> contains_forbidden_value (snd m)) ms"
| "contains_forbidden_value (Json_Array vs) = list_ex contains_forbidden_value vs"
| "contains_forbidden_value _ = False"

definition contains_forbidden :: "string \<Rightarrow> bool" where
  "contains_forbidden s =
     (if length s = 0 then False
      else if \<not> json_valid s then True
      else (case unmarshal_any s of None \<Rightarrow> True | Some v \<Rightarrow> contains_forbidden_value v))"

section \<open>Materials\<close>

lemma format_id_pos: "1 \<le> i \<Longrightarrow> format_id i = show_nat (nat i)"
  by (simp add: format_id_def Let_def)

definition known_kinds :: "string list" where
  "known_kinds = [''image'', ''miniprogram'', ''attachment'', ''group_invite'']"

lemma kind_limit_known: "kind_limit k \<noteq> None \<longleftrightarrow> k \<in> set known_kinds"
  by (auto simp: kind_limit_def known_kinds_def)

lemma known_kind_plain: "k \<in> set known_kinds \<Longrightarrow> CHR '':'' \<notin> set k"
  by (auto simp: known_kinds_def)

lemma split_at_colon:
  "CHR '':'' \<notin> set a \<Longrightarrow> CHR '':'' \<notin> set b \<Longrightarrow> a @ CHR '':'' # s = b @ CHR '':'' # t \<Longrightarrow> a = b \<and> s = t"
  by (induction a arbitrary: b) (case_tac b; auto)+

definition typed_key :: "material_reference \<Rightarrow> string" where
  "typed_key r = mr_kind r @ '':'' @ format_id (mr_id r)"

lemma typed_key_inject:
  assumes "mr_kind r \<in> set known_kinds" "mr_kind q \<in> set known_kinds" "1 \<le> mr_id r" "1 \<le> mr_id q"
  shows "typed_key r = typed_key q \<longleftrightarrow> r = q"
proof
  assume "typed_key r = typed_key q"
  then have "mr_kind r = mr_kind q \<and> show_nat (nat (mr_id r)) = show_nat (nat (mr_id q))"
    using assms by (intro split_at_colon known_kind_plain) (simp_all add: typed_key_def format_id_pos)
  then have "mr_kind r = mr_kind q" "mr_id r = mr_id q" using assms(3,4) by (auto simp: show_nat_inj nat_eq_iff)
  then show "r = q" by (intro material_reference.equality) simp_all
qed simp

definition kind_count :: "string \<Rightarrow> material_reference list \<Rightarrow> nat" where
  "kind_count k rs = length (filter (\<lambda>r. mr_kind r = k) rs)"

definition usable_reference :: "material_reference \<Rightarrow> bool" where
  "usable_reference r \<longleftrightarrow> 1 \<le> mr_id r \<and> kind_limit (mr_kind r) \<noteq> None"

lemma kind_count_simps [simp]:
  "kind_count k [] = 0" "kind_count k (r # rs) = (if mr_kind r = k then Suc (kind_count k rs) else kind_count k rs)"
  by (simp_all add: kind_count_def)

definition within_limits :: "(string \<Rightarrow> nat) \<Rightarrow> material_reference list \<Rightarrow> bool" where
  "within_limits counts rs \<longleftrightarrow>
     (\<forall>r\<in>set rs. \<forall>m. kind_limit (mr_kind r) = Some (Some m) \<longrightarrow> counts (mr_kind r) + kind_count (mr_kind r) rs \<le> m)"

lemma scan_materials_iff:
  "scan_materials seen counts rs \<longleftrightarrow>
   (\<forall>r\<in>set rs. usable_reference r \<and> typed_key r \<notin> set seen) \<and> distinct (map typed_key rs) \<and> within_limits counts rs"
proof (induction seen counts rs rule: scan_materials.induct)
  case (1 seen counts)
  then show ?case by (simp add: within_limits_def)
next
  case (2 seen counts r rs)
  let ?n = "counts (mr_kind r) + 1" and ?k = "typed_key r"
  let ?ok = "usable_reference r \<and> mr_kind r \<noteq> [] \<and> ?k \<notin> set seen
    \<and> (\<forall>m. kind_limit (mr_kind r) = Some (Some m) \<longrightarrow> ?n \<le> m)"
  show ?case
  proof (cases ?ok)
    case False
    have "kind_limit [] = None" by (simp add: kind_limit_def)
    with False have "\<not> (usable_reference r \<and> ?k \<notin> set seen \<and> within_limits counts (r # rs))"
      by (fastforce simp: within_limits_def usable_reference_def)
    moreover have "\<not> scan_materials seen counts (r # rs)"
      using False by (auto simp: usable_reference_def typed_key_def Let_def split: option.splits)
    ultimately show ?thesis by auto
  next
    case True
    then obtain l where l: "kind_limit (mr_kind r) = Some l" by (auto simp: usable_reference_def)
    have step: "scan_materials seen counts (r # rs) = scan_materials (?k # seen) (counts(mr_kind r := ?n)) rs"
      using True l by (auto simp: usable_reference_def typed_key_def Let_def split: option.split)
    have IH: "scan_materials (?k # seen) (counts(mr_kind r := ?n)) rs \<longleftrightarrow>
        (\<forall>q\<in>set rs. usable_reference q \<and> typed_key q \<notin> set (?k # seen)) \<and> distinct (map typed_key rs)
        \<and> within_limits (counts(mr_kind r := ?n)) rs"
      unfolding typed_key_def [of r]
      using True l by (intro 2) (auto simp: usable_reference_def typed_key_def split: option.split)
    have zero: "kind_count k rs = 0" if "\<forall>q\<in>set rs. mr_kind q \<noteq> k" for k
      using that by (induction rs) auto
    have lim: "within_limits counts (r # rs) \<longleftrightarrow> within_limits (counts(mr_kind r := ?n)) rs"
      using True zero [of "mr_kind r"] unfolding within_limits_def by (fastforce simp: ball_Un)
    show ?thesis unfolding step IH lim using True by (auto simp: image_iff)
  qed
qed

text \<open>C32: A material plan is accepted exactly when it has at most nine references, all of a known
  kind with a positive identifier, no reference twice, at most three images, one mini program
  and one group invitation. (The duplicate check on the printed key is exact: the printed
  identifiers of accepted references are pairwise different.)\<close>

theorem material_plan_exact:
  "validate_material_plan rs = None \<longleftrightarrow>
   length rs \<le> 9 \<and> (\<forall>r\<in>set rs. 1 \<le> mr_id r \<and> mr_kind r \<in> {''image'', ''miniprogram'', ''attachment'', ''group_invite''})
   \<and> distinct rs \<and> kind_count ''image'' rs \<le> 3 \<and> kind_count ''miniprogram'' rs \<le> 1 \<and> kind_count ''group_invite'' rs \<le> 1"
proof -
  let ?good = "\<forall>r\<in>set rs. 1 \<le> mr_id r \<and> mr_kind r \<in> set known_kinds"
  have usable: "(\<forall>r\<in>set rs. usable_reference r) \<longleftrightarrow> ?good"
    by (simp add: usable_reference_def kind_limit_known del: not_None_eq)
  have keys: "distinct (map typed_key rs) \<longleftrightarrow> distinct rs" if ?good
    using that by (auto simp: distinct_map inj_on_def typed_key_inject)
  have absent: "kind_count k rs \<le> m \<longleftrightarrow> (\<forall>r\<in>set rs. mr_kind r = k \<longrightarrow> kind_count k rs \<le> m)" for k m
    by (cases "\<exists>r\<in>set rs. mr_kind r = k") (auto simp: kind_count_def filter_empty_conv)
  have limits: "within_limits (\<lambda>_. 0) rs \<longleftrightarrow>
      kind_count ''image'' rs \<le> 3 \<and> kind_count ''miniprogram'' rs \<le> 1 \<and> kind_count ''group_invite'' rs \<le> 1"
  proof -
    have "within_limits (\<lambda>_. 0) rs \<longleftrightarrow>
        (\<forall>r\<in>set rs. mr_kind r = ''image'' \<longrightarrow> kind_count ''image'' rs \<le> 3)
        \<and> (\<forall>r\<in>set rs. mr_kind r = ''miniprogram'' \<longrightarrow> kind_count ''miniprogram'' rs \<le> 1)
        \<and> (\<forall>r\<in>set rs. mr_kind r = ''group_invite'' \<longrightarrow> kind_count ''group_invite'' rs \<le> 1)"
      by (auto simp: within_limits_def kind_limit_def)
    then show ?thesis by (simp only: absent [symmetric])
  qed
  show ?thesis
    using usable keys unfolding validate_material_plan_def scan_materials_iff limits max_materials_def
    by (auto simp: known_kinds_def not_less)
qed

section \<open>Forbidden scopes\<close>

lemma contains_forbidden_value_part:
  "contains_forbidden_value v \<longleftrightarrow>
   any_part (\<lambda>w. case w of Json_Object ms \<Rightarrow> list_ex (\<lambda>m. groupops_forbidden_key (fst m)) ms | _ \<Rightarrow> False) v"
  by (induction v rule: contains_forbidden_value.induct) (auto simp: list_ex_iff)

text \<open>C33: The scan lets a stored document pass exactly when it is empty, or a JSON text whose
  numbers are in range and in which no object, at any depth, has a member with a forbidden
  name (in any spelling of case, underscores, hyphens and blanks).\<close>

theorem forbidden_scan_exact:
  "\<not> contains_forbidden s \<longleftrightarrow>
   s = [] \<or> (\<exists>v. unmarshal_any s = Some v
     \<and> (\<forall>ms k w. part_of (Json_Object ms) v \<longrightarrow> (k, w) \<in> set ms \<longrightarrow> \<not> groupops_forbidden_key k))"
proof -
  have valid: "json_valid s" if "unmarshal_any s = Some v" for v
    using that decode_json_valid [of s] by (auto simp: unmarshal_any_def split: if_split_asm)
  have scan: "\<not> contains_forbidden_value v \<longleftrightarrow>
      (\<forall>ms k w. part_of (Json_Object ms) v \<longrightarrow> (k, w) \<in> set ms \<longrightarrow> \<not> groupops_forbidden_key k)" for v
    unfolding contains_forbidden_value_part any_part_iff
    by (auto simp: list_ex_iff split: json.split_asm) (metis fst_conv json.simps(41) list_ex_iff)+
  show ?thesis
    unfolding contains_forbidden_def using valid scan by (auto split: option.split)
qed

section \<open>Webhook messages\<close>

lemma scan_targets_iff: "scan_targets seen ts \<longleftrightarrow> (\<forall>t\<in>set ts. valid_opaque t \<and> t \<notin> set seen) \<and> distinct ts"
  by (induction seen ts rule: scan_targets.induct) auto

lemma message_counts_type:
  "message_counts i m = Some (a, p) \<Longrightarrow>
   (wm_type m = ''text'' \<longrightarrow> i = 0) \<and> a = (if wm_type m = ''text'' then 0 else 1) \<and> p = (if wm_type m = ''miniprogram'' then 1 else 0)"
  by (auto simp: message_counts_def split: if_split_asm)

definition non_text :: "webhook_message list \<Rightarrow> nat" where
  "non_text ms = length (filter (\<lambda>m. wm_type m \<noteq> ''text'') ms)"

definition mini_programs :: "webhook_message list \<Rightarrow> nat" where
  "mini_programs ms = length (filter (\<lambda>m. wm_type m = ''miniprogram'') ms)"

lemma scan_messages_counts:
  "scan_messages i a p ms = Some (a', p') \<Longrightarrow>
   a' = a + non_text ms \<and> p' = p + mini_programs ms \<and> (\<forall>j<length ms. wm_type (ms ! j) = ''text'' \<longrightarrow> i + j = 0)"
proof (induction i a p ms rule: scan_messages.induct)
  case (2 i a p m ms)
  then obtain b q where b: "message_counts i m = Some (b, q)" "scan_messages (Suc i) (a + b) (p + q) ms = Some (a', p')"
    by (auto split: option.split_asm)
  from 2(1) [OF b(1) refl b(2)] message_counts_type [OF b(1)] show ?case
    by (auto simp: non_text_def mini_programs_def nth_Cons split: nat.split)
qed (simp add: non_text_def mini_programs_def)

text \<open>An accepted inbound message has what WeCom can send: different targets, at most one
  text, which comes first, at most nine attachments and at most one mini program.\<close>

theorem webhook_message_shape:
  assumes "validate_webhook_inbound w = None"
  shows "wi_targets w \<noteq> [] \<and> distinct (wi_targets w) \<and> wi_messages w \<noteq> []
    \<and> (\<forall>j<length (wi_messages w). wm_type (wi_messages w ! j) = ''text'' \<longrightarrow> j = 0)
    \<and> non_text (wi_messages w) \<le> 9 \<and> mini_programs (wi_messages w) \<le> 1"
proof -
  from assms obtain a p where s: "scan_messages 0 0 0 (wi_messages w) = Some (a, p)" "a \<le> max_materials" "p \<le> 1"
    and t: "scan_targets [] (wi_targets w)" "wi_targets w \<noteq> []" "wi_messages w \<noteq> []"
    by (auto simp: validate_webhook_inbound_def split: if_split_asm option.split_asm prod.split_asm)
  from scan_messages_counts [OF s(1)] s(2,3) t show ?thesis
    by (auto simp: scan_targets_iff max_materials_def)
qed

section \<open>Details\<close>

lemma scan_nodes_positions:
  "scan_nodes i ns \<Longrightarrow> i + length ns < 2 ^ 31 \<Longrightarrow> map pn_position ns = map int [Suc i..<Suc (i + length ns)]"
proof (induction i ns rule: scan_nodes.induct)
  case (2 i n ns)
  have "[Suc i..<Suc (i + length (n # ns))] = Suc i # [Suc (Suc i)..<Suc (Suc i + length ns)]"
    by (simp add: upt_rec)
  moreover have "wrap32 (int i + 1) = int i + 1" using 2(3) by (intro wrap32_id) (simp add: is_int32_def)
  ultimately show ?case using 2 by (simp split: if_split_asm)
qed simp

lemma scan_ascending_sorted: "scan_ascending prev is \<Longrightarrow> sorted_wrt (<) (case prev of Some p \<Rightarrow> p # is | None \<Rightarrow> is) \<and> (\<forall>i\<in>set is. 1 \<le> i)"
proof (induction prev "is" rule: scan_ascending.induct)
  case (2 prev i "is")
  then show ?case by (cases prev) (auto split: if_split_asm)
qed (simp split: option.split)

definition asset_key :: "group_asset \<Rightarrow> string \<times> int64" where
  "asset_key a = (ga_asset_ref a, ga_id a)"

text \<open>A plan detail that passes is what the runtime counts on: the members ascend, so nobody
  is in the plan twice, the nodes are numbered from one in the order of the list, and nothing in
  it claims that the provider may be or was called.\<close>

theorem detail_ordered:
  assumes "validate_detail d = None" "pd_members d = Some ms" "pd_nodes d = Some ns" "length ns < 2 ^ 31"
  shows "sorted_wrt (<) ms \<and> map pn_position ns = map int [1..<Suc (length ns)]
    \<and> (\<forall>n\<in>set ns. validate_node n = None) \<and> \<not> pd_provider_eligible d \<and> \<not> pd_external_executed d"
proof -
  from assms have a: "scan_ascending None ms" "scan_nodes 0 ns" "\<not> pd_provider_eligible d" "\<not> pd_external_executed d"
    by (auto simp: validate_detail_def valid_members_def valid_nodes_def split: if_split_asm)
  have "scan_nodes i ns \<Longrightarrow> \<forall>n\<in>set ns. validate_node n = None" for i
    by (induction i ns rule: scan_nodes.induct) (auto split: if_split_asm)
  with a show ?thesis
    using scan_ascending_sorted [OF a(1)] scan_nodes_positions [OF a(2)] assms(4) by simp
qed

section \<open>Witnesses\<close>

theorem material_plan_exact_witness:
  "validate_material_plan [\<lparr>mr_kind = ''image'', mr_id = 4\<rparr>, \<lparr>mr_kind = ''attachment'', mr_id = 4\<rparr>] = None"
  by (simp add: material_plan_exact)

definition demo_document :: string where
  "demo_document = ''{'' @ [quote_char] @ ''name'' @ [quote_char] @ '':1}''"

lemma demo_document_decodes: "unmarshal_any demo_document = Some (Json_Object [(''name'', Json_Number ''1'')])"
  by code_simp

lemma name_allowed: "\<not> groupops_forbidden_key ''name''"
  by (simp add: groupops_forbidden_key_def normalized_key_def to_lower_plain byte_def groupops_forbidden_keys_def has_prefix_def)

theorem forbidden_scan_exact_witness: "\<not> contains_forbidden demo_document"
proof -
  have "\<not> groupops_forbidden_key k"
    if "part_of (Json_Object ms) (Json_Object [(''name'', Json_Number ''1'')])" "(k, w) \<in> set ms" for ms k w
    using that name_allowed by (auto elim: part_of_objectE)
  then show ?thesis
    using demo_document_decodes by (subst forbidden_scan_exact) blast
qed

definition demo_inbound :: webhook_inbound where
  "demo_inbound =
     \<lparr>wi_reference = ''hook-1'', wi_targets = [''chat-1'', ''chat-2''],
      wi_messages = [\<lparr>wm_type = ''text'', wm_text = ''hello'', wm_app_id = [], wm_path = [], wm_title = [],
                       wm_mini_program_id = 0, wm_image_id = 0, wm_attachment_id = 0\<rparr>,
                     \<lparr>wm_type = ''image'', wm_text = [], wm_app_id = [], wm_path = [], wm_title = [],
                       wm_mini_program_id = 0, wm_image_id = 7, wm_attachment_id = 0\<rparr>]\<rparr>"

lemma demo_opaque [simp]: "valid_opaque ''hook-1''" "valid_opaque ''chat-1''" "valid_opaque ''chat-2''"
  by (simp_all add: valid_opaque_def valid_text_within_def max_name_length_def rune_count_def ascii_text
      opaque_rune_def has_prefix_def)

theorem webhook_message_shape_witness:
  "validate_webhook_inbound demo_inbound = None \<and> non_text (wi_messages demo_inbound) \<le> 9"
proof -
  have "valid_webhook_text ''hello''"
    by (simp add: valid_webhook_text_def valid_text_within_def max_message_length_def rune_count_def ascii_text)
  then have "validate_webhook_inbound demo_inbound = None"
    by (simp add: validate_webhook_inbound_def demo_inbound_def max_materials_def message_counts_def)
  with webhook_message_shape [OF this] show ?thesis by simp
qed

end
