(* ===== verification/Access_Domain.thy ===== *)
theory Access_Domain
  imports Go_Json_Data
begin

text \<open>
  \<open>internal/access/domain\<close>: roles, administrator accounts, sessions, authenticated principals
  and the grants of machine clients. A Go map is an association list with distinct keys where
  the code ranges over it, a membership list where it is a set.

  \<open>strings.ToLower\<close> is exact on ASCII; the lower case of any other rune comes from Unicode's
  tables, which are a parameter of the operations that use it.
\<close>

section \<open>Errors, roles and accounts\<close>

datatype access_error =
    Invalid_Input | Authentication_Required | Permission_Denied | CSRF_Required
  | Invalid_Credentials | Login_Rate_Limited | Access_Conflict | Access_Not_Found
  | Directory_Unavailable
  | Access_Storage \<comment> \<open>any error of the database or of the password hasher\<close>

datatype role = Super_Admin | Admin | Viewer | Role_Other string

definition valid_role :: "role \<Rightarrow> bool" where
  "valid_role r \<longleftrightarrow> r = Super_Admin \<or> r = Admin \<or> r = Viewer"

fun scan_roles :: "role list \<Rightarrow> role list \<Rightarrow> role list option" where
  "scan_roles roles [] = Some roles"
| "scan_roles roles (r # rs) =
     (if \<not> valid_role r then None
      else if r \<in> set roles then scan_roles roles rs
      else scan_roles (roles @ [r]) rs)"

definition normalize_roles :: "role list \<Rightarrow> access_error + role list" where
  "normalize_roles rs =
     (case scan_roles [] rs of
        None \<Rightarrow> Inl Invalid_Input
      | Some roles \<Rightarrow> if length roles = 0 then Inl Invalid_Input else Inr roles)"

definition single_role :: "role list \<Rightarrow> access_error + role" where
  "single_role rs =
     (case normalize_roles rs of
        Inl e \<Rightarrow> Inl Invalid_Input
      | Inr roles \<Rightarrow> if length roles \<noteq> 1 then Inl Invalid_Input else Inr (roles ! 0))"

record user =
  u_id :: int64
  u_username :: string
  u_password_hash :: string
  u_display_name :: string
  u_wecom_userid :: string
  u_active :: bool
  u_login_enabled :: bool
  u_legacy_reactivation :: bool
  u_access_granted_at :: "time option"
  u_session_version :: int64
  u_roles :: "role list"
  u_last_login_at :: "time option"
  u_created_at :: time
  u_updated_at :: time

definition has_role :: "user \<Rightarrow> role \<Rightarrow> bool" where
  "has_role u r \<longleftrightarrow> r \<in> set (u_roles u)"

record session =
  s_id :: int64
  s_token_digest :: string
  s_csrf_digest :: string
  s_admin_user_id :: int64
  s_version :: int64
  s_expires_at :: time
  s_revoked_at :: "time option"
  s_revoked_reason :: string
  s_created_at :: time
  s_last_seen_at :: time

record login_audit =
  la_admin_user_id :: "int64 option"
  la_identifier :: string
  la_remote :: string
  la_outcome :: string
  la_reason :: string
  la_created_at :: time

record rate_limit =
  rl_key :: string
  rl_window_started_at :: time
  rl_failure_count :: int
  rl_blocked_until :: "time option"
  rl_updated_at :: time

record access_audit =
  aa_actor :: int64
  aa_target :: int64
  aa_action :: string
  aa_details :: json
  aa_created_at :: time

section \<open>Principals\<close>

datatype principal_kind = Kind_Admin | Kind_Staff | Kind_Customer | Kind_Service | Kind_Other string

record principal =
  p_kind :: principal_kind
  p_internal_id :: int64
  p_roles :: "role list"
  p_session_version :: int64

definition valid_principal :: "principal \<Rightarrow> bool" where
  "valid_principal p =
     (if p_internal_id p < 1 then False
      else (case p_kind p of Kind_Other _ \<Rightarrow> False | _ \<Rightarrow> True))"

definition is_super_admin :: "principal \<Rightarrow> bool" where
  "is_super_admin p = (if p_kind p \<noteq> Kind_Admin then False else Super_Admin \<in> set (p_roles p))"

section \<open>Identifiers\<close>

definition lower_text :: "(nat \<Rightarrow> nat) \<Rightarrow> string \<Rightarrow> string" where
  "lower_text unicode_lower s =
     concat (map (\<lambda>r. encode_rune (if r < 128 then if 65 \<le> r \<and> r \<le> 90 then r + 32 else r else unicode_lower r)) (runes s))"

definition normalize_username :: "(nat \<Rightarrow> nat) \<Rightarrow> string \<Rightarrow> access_error + string" where
  "normalize_username unicode_lower v =
     (let w = lower_text unicode_lower (trim_space v)
      in if length w < 3 \<or> 120 < length w \<or> list_ex (\<lambda>c. byte c \<in> {0, 13, 10, 9, 32}) w then Inl Invalid_Input
         else Inr w)"

definition ascii_letter_or_digit :: "nat \<Rightarrow> bool" where
  "ascii_letter_or_digit r \<longleftrightarrow> 97 \<le> r \<and> r \<le> 122 \<or> 65 \<le> r \<and> r \<le> 90 \<or> 48 \<le> r \<and> r \<le> 57"

definition normalize_wecom_user_id :: "string \<Rightarrow> access_error + string" where
  "normalize_wecom_user_id v =
     (let w = trim_space v
      in if length w < 1 \<or> 128 < length w then Inl Invalid_Input
         else if list_all (\<lambda>r. ascii_letter_or_digit r \<or> r \<in> set (map byte ''-_.@'')) (runes w) then Inr w
         else Inl Invalid_Input)"

definition normalize_machine_client_id :: "string \<Rightarrow> access_error + string" where
  "normalize_machine_client_id v =
     (let w = trim_space v
      in if length w < 3 \<or> 120 < length w then Inl Invalid_Input
         else if \<not> ascii_letter_or_digit (byte (w ! 0)) then Inl Invalid_Input
         else if list_all (\<lambda>r. ascii_letter_or_digit r \<or> r \<in> set (map byte ''-_.'')) (runes w) then Inr w
         else Inl Invalid_Input)"

section \<open>Machine grants\<close>

type_synonym owner_scope = "(string \<times> string list) list"

record machine_principal =
  mp_client_id :: string
  mp_client_record :: int64
  mp_audience :: string
  mp_scopes :: "string list"
  mp_capabilities :: "string list"
  mp_corp_id :: string
  mp_owner_scope :: owner_scope
  mp_auth_version :: int64
  mp_direct_key :: bool

definition has_capability :: "machine_principal \<Rightarrow> string \<Rightarrow> bool" where
  "has_capability p c \<longleftrightarrow> c \<in> set (mp_capabilities p)"

definition has_scope :: "machine_principal \<Rightarrow> string \<Rightarrow> bool" where
  "has_scope p s \<longleftrightarrow> s \<in> set (mp_scopes p)"

definition owner_scope_allows :: "owner_scope \<Rightarrow> (string \<Rightarrow> string option) \<Rightarrow> bool" where
  "owner_scope_allows scope resources =
     list_all (\<lambda>(key, allowed). case resources key of None \<Rightarrow> False | Some actual \<Rightarrow> actual \<in> set allowed) scope"

text \<open>Trimmed, known, without repetition, in byte order.\<close>

fun scan_machine_strings :: "string list \<Rightarrow> string list \<Rightarrow> string list \<Rightarrow> string list option" where
  "scan_machine_strings allowed result [] = Some result"
| "scan_machine_strings allowed result (raw # rest) =
     (let v = trim_space raw
      in if v \<notin> set allowed then None
         else if v \<in> set result then scan_machine_strings allowed result rest
         else scan_machine_strings allowed (result @ [v]) rest)"

definition normalize_machine_strings :: "string list \<Rightarrow> string list \<Rightarrow> access_error + string list" where
  "normalize_machine_strings values allowed =
     (if length values = 0 \<or> length allowed < length values then Inl Invalid_Input
      else (case scan_machine_strings allowed [] values of
              None \<Rightarrow> Inl Invalid_Input
            | Some result \<Rightarrow> if length result = 0 then Inl Invalid_Input else Inr (sort result)))"

section \<open>Machine profiles\<close>

record machine_profile =
  pf_purpose :: string
  pf_audiences :: "string list"
  pf_scopes :: "string list"
  pf_capabilities :: "string list"

definition integration_profile :: "string \<Rightarrow> string list \<Rightarrow> string list \<Rightarrow> string \<times> machine_profile" where
  "integration_profile purpose scopes capabilities =
     (purpose, \<lparr>pf_purpose = purpose, pf_audiences = [''external_integration''], pf_scopes = scopes,
                pf_capabilities = capabilities\<rparr>)"

definition regular_machine_profiles :: "(string \<times> machine_profile) list" where
  "regular_machine_profiles =
     [integration_profile ''external_agent'' [''read'', ''write''] [''external_read'', ''external_write''],
      integration_profile ''mcp'' [''read'', ''write''] [''mcp_execute'', ''mcp_read''],
      integration_profile ''direct_api_key'' [''read''] [''external_read'']]"

definition system_machine_profiles :: "(string \<times> machine_profile) list" where
  "system_machine_profiles =
     [integration_profile ''identity'' [''read''] [''identity_resolve''],
      integration_profile ''group_broadcast'' [''write''] [''group_broadcast_execute''],
      integration_profile ''campaign_agent'' [''read'', ''write'']
        [''campaign_draft_create'', ''campaign_preparation_commit'', ''campaign_preparation_create'',
         ''campaign_preparation_read'', ''campaign_status_read'', ''customer_read_limited'', ''customer_resolve_read'',
         ''material_create'', ''material_read'', ''operation_cycle_context_read'', ''operation_cycle_strategy_propose''],
      integration_profile ''ops_reporter'' [''write''] [''operation_cycle_report_write''],
      integration_profile ''operation_runner'' [''read'', ''write'']
        [''operation_cycle_action_claim'', ''operation_cycle_action_event_write'', ''operation_cycle_runner_heartbeat'']]"

definition machine_profile_for_purpose :: "string \<Rightarrow> machine_profile option" where
  "machine_profile_for_purpose purpose =
     (case map_of regular_machine_profiles purpose of
        Some p \<Rightarrow> Some p
      | None \<Rightarrow> map_of system_machine_profiles purpose)"

definition system_machine_profile_for_purpose :: "string \<Rightarrow> machine_profile option" where
  "system_machine_profile_for_purpose purpose =
     (if map_of regular_machine_profiles purpose \<noteq> None then None else machine_profile_for_purpose purpose)"

definition is_machine_purpose :: "string \<Rightarrow> bool" where
  "is_machine_purpose purpose \<longleftrightarrow> machine_profile_for_purpose purpose \<noteq> None"

definition legacy_admin_managed_purpose :: "string \<Rightarrow> bool" where
  "legacy_admin_managed_purpose purpose \<longleftrightarrow> purpose = ''external_agent'' \<or> purpose = ''mcp''"

section \<open>Laws of the normalisers\<close>

lemma scan_roles_result:
  "scan_roles acc rs = Some roles \<Longrightarrow> distinct acc \<Longrightarrow> list_all valid_role acc \<Longrightarrow>
     distinct roles \<and> list_all valid_role roles \<and> set roles = set acc \<union> set rs"
  by (induction acc rs rule: scan_roles.induct) (auto split: if_splits)

lemma normalize_roles_result:
  assumes "normalize_roles rs = Inr roles"
  shows "distinct roles" "list_all valid_role roles" "set roles = set rs" "roles \<noteq> []"
  using assms scan_roles_result [of "[]" rs roles]
  by (auto simp: normalize_roles_def split: option.splits if_splits)

lemma single_roleD: "single_role rs = Inr r \<Longrightarrow> valid_role r \<and> set rs = {r}"
proof -
  assume "single_role rs = Inr r"
  then obtain roles where roles: "normalize_roles rs = Inr roles" "length roles = 1" "roles ! 0 = r"
    by (auto simp: single_role_def split: sum.splits if_splits)
  then obtain x where "roles = [x]" by (cases roles) auto
  with normalize_roles_result [OF roles(1)] roles(3) show ?thesis by auto
qed

lemma single_role_one [simp]: "single_role [r] = (if valid_role r then Inr r else Inl Invalid_Input)"
  by (simp add: single_role_def normalize_roles_def)

lemma single_role_two [simp]: "r \<noteq> q \<Longrightarrow> single_role [r, q] = Inl Invalid_Input"
  by (simp add: single_role_def normalize_roles_def)

lemma valid_role_cases: "valid_role r \<Longrightarrow> r = Super_Admin \<or> r = Admin \<or> r = Viewer"
  by (simp add: valid_role_def)

end
