(* ===== verification/Access_Store.thy ===== *)
theory Access_Store
  imports Access_Domain
begin

text \<open>
  \<open>internal/access/store/postgres.go\<close> and the tables of the migrations 0003, 0027, 0151 and
  0152: the repository the access services run on.

  A table is the list of its rows. Of the statements of a command the database only sees the
  result, so a row is replaced as a whole, and the rows a transaction locks serialise it with
  every other one that changes them: a command is one atomic step. An error of a statement
  rolls the transaction back; at the commit the deferred triggers check the control record of
  the super administrator (\<open>control_ok\<close>). The roles of a user, a table of their own, are kept
  sorted in the user's row.

  Parameters: the clocks of the service and of the database, the checks of the text columns
  (they depend on the collation), Unicode's lower-case table, the password hasher.
\<close>

section \<open>The tables\<close>

record governance_receipt =
  gr_actor :: int64
  gr_key :: string
  gr_action :: string
  gr_target :: int64
  gr_digest :: string

record compat_receipt =
  cr_actor :: int64
  cr_key :: string
  cr_digest :: string

record access_db =
  db_users :: "user list"
  db_next_user :: int64
  db_sessions :: "session list"
  db_next_session :: int64
  db_limits :: "rate_limit list"
  db_login_audit :: "login_audit list"
  db_access_audit :: "access_audit list"
  db_control :: "(int64 \<times> int64) option" \<comment> \<open>the owner and the version of the singleton row\<close>
  db_receipts :: "governance_receipt list"
  db_compat_receipts :: "compat_receipt list"

definition empty_access_db :: access_db where
  "empty_access_db =
     \<lparr>db_users = [], db_next_user = 1, db_sessions = [], db_next_session = 1, db_limits = [], db_login_audit = [],
      db_access_audit = [], db_control = None, db_receipts = [], db_compat_receipts = []\<rparr>"

record access_env =
  ae_now :: time
  ae_db_now :: time
  ae_text_ok :: "user \<Rightarrow> bool"
  ae_unicode_lower :: "nat \<Rightarrow> nat"
  ae_hash :: "string \<Rightarrow> access_error + string"
  ae_verify :: "string \<Rightarrow> string \<Rightarrow> bool"

section \<open>Transactions\<close>

definition control_ok :: "access_db \<Rightarrow> bool" where
  "control_ok db =
     (case db_control db of
        None \<Rightarrow> db_users db = []
      | Some (owner, _) \<Rightarrow>
          (\<exists>u\<in>set (db_users db). u_id u = owner \<and> u_roles u = [Super_Admin] \<and> u_active u \<and> u_login_enabled u
             \<and> u_access_granted_at u \<noteq> None)
          \<and> (\<forall>u\<in>set (db_users db). length (u_roles u) = 1)
          \<and> length (filter (\<lambda>u. Super_Admin \<in> set (u_roles u)) (db_users db)) = 1)"

definition within :: "(access_db \<Rightarrow> access_error + ('a \<times> access_db)) \<Rightarrow> access_db \<Rightarrow> access_error + ('a \<times> access_db)" where
  "within f db =
     and_then (f db) (\<lambda>(x, db'). if control_ok db' then Inr (x, db') else Inl Access_Storage)"

section \<open>Users\<close>

definition user_by :: "(user \<Rightarrow> bool) \<Rightarrow> access_db \<Rightarrow> access_error + user" where
  "user_by P db = (case find P (db_users db) of None \<Rightarrow> Inl Access_Not_Found | Some u \<Rightarrow> Inr u)"

definition user_by_id :: "int64 \<Rightarrow> access_db \<Rightarrow> access_error + user" where
  "user_by_id i = user_by (\<lambda>u. u_id u = i)"

definition user_by_username :: "string \<Rightarrow> access_db \<Rightarrow> access_error + user" where
  "user_by_username n = user_by (\<lambda>u. u_username u = n)"

text \<open>A null \<open>wecom_userid\<close> is the empty string here and is equal to nothing.\<close>

definition user_by_wecom_user_id :: "string \<Rightarrow> access_db \<Rightarrow> access_error + user" where
  "user_by_wecom_user_id w = user_by (\<lambda>u. u_wecom_userid u \<noteq> [] \<and> u_wecom_userid u = w)"

definition map_user :: "int64 \<Rightarrow> (user \<Rightarrow> user) \<Rightarrow> access_db \<Rightarrow> access_db" where
  "map_user i f db = db\<lparr>db_users := map (\<lambda>u. if u_id u = i then f u else u) (db_users db)\<rparr>"

definition role_codes :: "role list" where
  "role_codes = [Admin, Super_Admin, Viewer]"

text \<open>The rows of \<open>admin_user_roles\<close> one user gets: one per user, one super administrator.\<close>

fun insert_roles :: "user list \<Rightarrow> role list \<Rightarrow> role list \<Rightarrow> access_error + role list" where
  "insert_roles others roles [] = Inr roles"
| "insert_roles others roles (r # rs) =
     (if r \<notin> set role_codes then Inl Access_Storage
      else if roles \<noteq> [] \<or> r = Super_Admin \<and> (\<exists>u\<in>set others. Super_Admin \<in> set (u_roles u)) then Inl Access_Conflict
      else insert_roles others [r] rs)"

definition user_clashes :: "user \<Rightarrow> user \<Rightarrow> bool" where
  "user_clashes u v \<longleftrightarrow>
     u_username u = u_username v \<or> u_wecom_userid u \<noteq> [] \<and> u_wecom_userid u = u_wecom_userid v"

text \<open>\<open>INSERT INTO admin_users\<close> with its roles: a repeated name or binding is a conflict, a value
  a check refuses is an error of the database.\<close>

definition insert_user :: "access_env \<Rightarrow> user \<Rightarrow> access_db \<Rightarrow> access_error + (user \<times> access_db)" where
  "insert_user env u db =
     (if \<not> ae_text_ok env u then Inl Access_Storage
      else if list_ex (user_clashes u) (db_users db) then Inl Access_Conflict
      else and_then (insert_roles (db_users db) [] (u_roles u)) (\<lambda>roles.
             let row = u\<lparr>u_id := db_next_user db, u_session_version := 1, u_last_login_at := None,
                         u_created_at := ae_db_now env, u_updated_at := ae_db_now env\<rparr>
             in Inr (row, db\<lparr>db_users := db_users db @ [row], db_next_user := db_next_user db + 1\<rparr>)))"

definition create_user :: "access_env \<Rightarrow> user \<Rightarrow> access_db \<Rightarrow> access_error + (user \<times> access_db)" where
  "create_user env u =
     insert_user env (u\<lparr>u_login_enabled := u_active u, u_legacy_reactivation := False,
                        u_access_granted_at := Some (ae_db_now env)\<rparr>)"

definition create_staff_projection :: "access_env \<Rightarrow> user \<Rightarrow> access_db \<Rightarrow> access_error + (user \<times> access_db)" where
  "create_staff_projection env u db =
     (if \<not> u_active u \<or> u_wecom_userid u = [] \<or> length (u_roles u) \<noteq> 1 \<or> u_roles u ! 0 \<noteq> Viewer then Inl Invalid_Input
      else insert_user env (u\<lparr>u_active := True, u_login_enabled := False, u_legacy_reactivation := False,
                              u_access_granted_at := None, u_roles := [Viewer]\<rparr>) db)"

definition bootstrap_user :: "access_env \<Rightarrow> user \<Rightarrow> access_db \<Rightarrow> access_error + ((user \<times> bool) \<times> access_db)" where
  "bootstrap_user env u db =
     (if db_users db \<noteq> [] then
        (case user_by_username (u_username u) db of
           Inr existing \<Rightarrow> Inr ((existing, False), db)
         | Inl e \<Rightarrow> if e = Access_Not_Found then Inl Access_Conflict else Inl e)
      else and_then (create_user env u db) (\<lambda>(created, db'). Inr ((created, True), db')))"

text \<open>Every change of a credential, a grant, a binding or the roles moves the session version;
  \<open>bigint\<close> has no wrap-around, the statement fails instead.\<close>

definition fence :: "access_env \<Rightarrow> user \<Rightarrow> (user \<Rightarrow> user) \<Rightarrow> access_db \<Rightarrow> access_error + access_db" where
  "fence env u f db =
     (if max_int64 \<le> u_session_version u then Inl Access_Storage
      else Inr (map_user (u_id u)
                  (\<lambda>v. (f v)\<lparr>u_session_version := u_session_version v + 1, u_updated_at := ae_now env\<rparr>) db))"

definition set_login_enabled :: "access_env \<Rightarrow> int64 \<Rightarrow> bool \<Rightarrow> access_db \<Rightarrow> access_error + access_db" where
  "set_login_enabled env i enabled db =
     and_then (user_by_id i db) (\<lambda>u.
       if u_access_granted_at u = None \<or> u_login_enabled u = enabled then Inr db
       else fence env u (\<lambda>v. v\<lparr>u_login_enabled := enabled,
                              u_active := (if enabled \<and> u_legacy_reactivation v then True else u_active v),
                              u_legacy_reactivation := False\<rparr>) db)"

definition others :: "int64 \<Rightarrow> access_db \<Rightarrow> user list" where
  "others i db = filter (\<lambda>u. u_id u \<noteq> i) (db_users db)"

definition grant_access :: "access_env \<Rightarrow> int64 \<Rightarrow> role \<Rightarrow> string \<Rightarrow> access_db \<Rightarrow> access_error + access_db" where
  "grant_access env i r name db =
     (if r \<noteq> Admin \<and> r \<noteq> Viewer \<or> trim_space name = [] then Inl Invalid_Input
      else and_then (user_by_id i db) (\<lambda>u.
        if \<not> u_active u \<or> u_access_granted_at u \<noteq> None then Inl Access_Conflict
        else and_then (insert_roles (others i db) [] [r]) (\<lambda>roles.
          let f = (\<lambda>v. v\<lparr>u_roles := roles, u_display_name := trim_space name, u_login_enabled := True,
                         u_access_granted_at := Some (ae_now env)\<rparr>)
          in if \<not> ae_text_ok env (f u) then Inl Access_Storage else fence env u f db)))"

definition set_wecom_user_id :: "access_env \<Rightarrow> int64 \<Rightarrow> string \<Rightarrow> access_db \<Rightarrow> access_error + access_db" where
  "set_wecom_user_id env i w db =
     and_then (user_by_id i db) (\<lambda>u.
       if u_wecom_userid u = w then Inr db
       else let f = (\<lambda>v. v\<lparr>u_wecom_userid := w\<rparr>)
            in if \<not> ae_text_ok env (f u) then Inl Access_Storage
               else if w \<noteq> [] \<and> (\<exists>v\<in>set (others i db). u_wecom_userid v = w) then Inl Access_Conflict
               else fence env u f db)"

definition replace_roles :: "access_env \<Rightarrow> int64 \<Rightarrow> role list \<Rightarrow> access_db \<Rightarrow> access_error + access_db" where
  "replace_roles env i rs db =
     and_then (user_by_id i db) (\<lambda>u.
       and_then (insert_roles (others i db) [] rs) (\<lambda>roles. fence env u (\<lambda>v. v\<lparr>u_roles := roles\<rparr>) db))"

definition set_password_hash :: "access_env \<Rightarrow> int64 \<Rightarrow> string \<Rightarrow> access_db \<Rightarrow> access_error + access_db" where
  "set_password_hash env i h db =
     and_then (user_by_id i db) (\<lambda>u.
       let f = (\<lambda>v. v\<lparr>u_password_hash := h\<rparr>)
       in if \<not> ae_text_ok env (f u) then Inl Access_Storage else fence env u f db)"

definition set_last_login :: "access_env \<Rightarrow> int64 \<Rightarrow> access_db \<Rightarrow> access_error + access_db" where
  "set_last_login env i db =
     and_then (user_by_id i db) (\<lambda>u.
       Inr (map_user i (\<lambda>v. v\<lparr>u_last_login_at := Some (ae_now env), u_updated_at := ae_now env\<rparr>) db))"

definition set_staff_display_name ::
  "access_env \<Rightarrow> int64 \<Rightarrow> string \<Rightarrow> string \<Rightarrow> access_db \<Rightarrow> access_error + access_db" where
  "set_staff_display_name env i provider name db =
     (if trim_space name = [] \<or> 160 < rune_count name \<or> list_ex (\<lambda>c. byte c \<in> {0, 13, 10}) name then Inl Invalid_Input
      else (case find (\<lambda>u. u_id u = i \<and> u_wecom_userid u \<noteq> [] \<and> u_wecom_userid u = provider) (db_users db) of
              None \<Rightarrow> Inl Access_Conflict
            | Some u \<Rightarrow>
                let f = (\<lambda>v. v\<lparr>u_display_name := name, u_updated_at := ae_now env\<rparr>)
                in if \<not> ae_text_ok env (f u) then Inl Access_Storage else Inr (map_user i f db)))"

section \<open>Sessions\<close>

definition create_session :: "access_env \<Rightarrow> session \<Rightarrow> access_db \<Rightarrow> access_error + access_db" where
  "create_session env s db =
     (if (\<exists>t\<in>set (db_sessions db). s_token_digest t = s_token_digest s)
         \<or> (\<forall>u\<in>set (db_users db). u_id u \<noteq> s_admin_user_id s)
         \<or> length (s_token_digest s) \<noteq> 32 \<or> length (s_csrf_digest s) \<noteq> 32
         \<or> s_version s < 1 \<or> s_expires_at s \<le> ae_db_now env
      then Inl Access_Storage
      else let row = s\<lparr>s_id := db_next_session db, s_revoked_at := None, s_revoked_reason := [],
                       s_created_at := ae_db_now env, s_last_seen_at := ae_db_now env\<rparr>
           in Inr (db\<lparr>db_sessions := db_sessions db @ [row], db_next_session := db_next_session db + 1\<rparr>))"

text \<open>The session joined with its user.\<close>

definition session_by_token_digest :: "string \<Rightarrow> access_db \<Rightarrow> access_error + (session \<times> user)" where
  "session_by_token_digest d db =
     (case find (\<lambda>s. s_token_digest s = d) (db_sessions db) of
        None \<Rightarrow> Inl Access_Not_Found
      | Some s \<Rightarrow> and_then (user_by_id (s_admin_user_id s) db) (\<lambda>u. Inr (s, u)))"

definition map_sessions :: "(session \<Rightarrow> bool) \<Rightarrow> (session \<Rightarrow> session) \<Rightarrow> access_db \<Rightarrow> access_db" where
  "map_sessions P f db = db\<lparr>db_sessions := map (\<lambda>s. if P s then f s else s) (db_sessions db)\<rparr>"

definition touch_session :: "access_env \<Rightarrow> int64 \<Rightarrow> access_db \<Rightarrow> access_db" where
  "touch_session env i = map_sessions (\<lambda>s. s_id s = i) (\<lambda>s. s\<lparr>s_last_seen_at := ae_now env\<rparr>)"

definition revoke_session :: "access_env \<Rightarrow> string \<Rightarrow> string \<Rightarrow> access_db \<Rightarrow> access_db" where
  "revoke_session env d reason =
     map_sessions (\<lambda>s. s_token_digest s = d)
       (\<lambda>s. s\<lparr>s_revoked_at := (case s_revoked_at s of None \<Rightarrow> Some (ae_now env) | Some t \<Rightarrow> Some t),
              s_revoked_reason := (if s_revoked_reason s = [] then reason else s_revoked_reason s)\<rparr>)"

section \<open>Rate limits\<close>

definition fresh_limit :: "access_env \<Rightarrow> string \<Rightarrow> rate_limit" where
  "fresh_limit env k =
     \<lparr>rl_key = k, rl_window_started_at = ae_db_now env, rl_failure_count = 0, rl_blocked_until = None,
      rl_updated_at = ae_db_now env\<rparr>"

text \<open>Reading a limit with the lock inserts the row first when there is none.\<close>

definition login_rate_limit :: "access_env \<Rightarrow> string \<Rightarrow> access_db \<Rightarrow> rate_limit \<times> access_db" where
  "login_rate_limit env k db =
     (case find (\<lambda>l. rl_key l = k) (db_limits db) of
        Some l \<Rightarrow> (l, db)
      | None \<Rightarrow> (fresh_limit env k, db\<lparr>db_limits := db_limits db @ [fresh_limit env k]\<rparr>))"

definition save_login_rate_limit :: "rate_limit \<Rightarrow> access_db \<Rightarrow> access_error + access_db" where
  "save_login_rate_limit l db =
     (if length (rl_key l) \<noteq> 32 \<or> rl_failure_count l < 0 then Inl Access_Storage
      else if \<exists>q\<in>set (db_limits db). rl_key q = rl_key l
      then Inr (db\<lparr>db_limits := map (\<lambda>q. if rl_key q = rl_key l then l else q) (db_limits db)\<rparr>)
      else Inr (db\<lparr>db_limits := db_limits db @ [l]\<rparr>))"

section \<open>Audits, receipts, control\<close>

definition login_outcomes :: "string list" where
  "login_outcomes = [''succeeded'', ''invalid_credentials'', ''disabled'', ''rate_limited'']"

definition append_login_audit :: "login_audit \<Rightarrow> access_db \<Rightarrow> access_error + access_db" where
  "append_login_audit a db =
     (if la_outcome a \<notin> set login_outcomes \<or> length (la_identifier a) \<noteq> 32 \<or> length (la_remote a) \<noteq> 32
         \<or> (case la_admin_user_id a of None \<Rightarrow> False | Some i \<Rightarrow> \<forall>u\<in>set (db_users db). u_id u \<noteq> i)
      then Inl Access_Storage
      else Inr (db\<lparr>db_login_audit := db_login_audit db @ [a]\<rparr>))"

text \<open>The actions \<open>ck_admin_access_audit_action\<close> of migration 0151 admits.\<close>

definition audit_actions :: "string list" where
  "audit_actions =
     [''bootstrap'', ''create'', ''disable'', ''bind_wecom_userid'', ''change_roles'', ''reset_password'',
      ''set_login_enabled'', ''provision_admin'', ''provision_viewer'', ''enable_login'', ''disable_login'',
      ''set_role'', ''transfer_super_admin'']"

definition append_access_audit :: "access_audit \<Rightarrow> access_db \<Rightarrow> access_error + access_db" where
  "append_access_audit a db =
     (if aa_action a \<notin> set audit_actions \<or> (\<forall>u\<in>set (db_users db). u_id u \<noteq> aa_actor a)
         \<or> (\<forall>u\<in>set (db_users db). u_id u \<noteq> aa_target a)
      then Inl Access_Storage
      else Inr (db\<lparr>db_access_audit := db_access_audit db @ [a]\<rparr>))"

text \<open>Whether the receipt is new; the same key with another action, target or payload is a
  conflict.\<close>

definition reserve_governance_mutation ::
  "int64 \<Rightarrow> string \<Rightarrow> string \<Rightarrow> int64 \<Rightarrow> string \<Rightarrow> access_db \<Rightarrow> access_error + (bool \<times> access_db)" where
  "reserve_governance_mutation actor key action target digest db =
     (if key = [] \<or> 200 < length (runes key) \<or> length digest \<noteq> 32 \<or> (\<forall>u\<in>set (db_users db). u_id u \<noteq> actor)
         \<or> (\<forall>u\<in>set (db_users db). u_id u \<noteq> target)
      then Inl Access_Storage
      else (case find (\<lambda>r. gr_actor r = actor \<and> gr_key r = key) (db_receipts db) of
              None \<Rightarrow> Inr (True, db\<lparr>db_receipts := db_receipts db @
                         [\<lparr>gr_actor = actor, gr_key = key, gr_action = action, gr_target = target, gr_digest = digest\<rparr>]\<rparr>)
            | Some r \<Rightarrow>
                if gr_action r \<noteq> action \<or> gr_target r \<noteq> target \<or> gr_digest r \<noteq> digest then Inl Access_Conflict
                else Inr (False, db)))"

definition reserve_login_access_request ::
  "int64 \<Rightarrow> string \<Rightarrow> string \<Rightarrow> access_db \<Rightarrow> access_error + (bool \<times> access_db)" where
  "reserve_login_access_request actor key digest db =
     (if key = [] \<or> 200 < length (runes key) \<or> length digest \<noteq> 32 \<or> (\<forall>u\<in>set (db_users db). u_id u \<noteq> actor)
      then Inl Access_Storage
      else (case find (\<lambda>r. cr_actor r = actor \<and> cr_key r = key) (db_compat_receipts db) of
              None \<Rightarrow> Inr (True, db\<lparr>db_compat_receipts := db_compat_receipts db @
                         [\<lparr>cr_actor = actor, cr_key = key, cr_digest = digest\<rparr>]\<rparr>)
            | Some r \<Rightarrow> if cr_digest r \<noteq> digest then Inl Access_Conflict else Inr (False, db)))"

definition super_admin_control :: "access_db \<Rightarrow> access_error + (int64 \<times> int64)" where
  "super_admin_control db = (case db_control db of None \<Rightarrow> Inl Access_Not_Found | Some c \<Rightarrow> Inr c)"

definition initialize_super_admin_control :: "int64 \<Rightarrow> access_db \<Rightarrow> access_error + access_db" where
  "initialize_super_admin_control i db =
     (case db_control db of
        Some _ \<Rightarrow> Inl Access_Conflict
      | None \<Rightarrow> if \<forall>u\<in>set (db_users db). u_id u \<noteq> i then Inl Access_Storage else Inr (db\<lparr>db_control := Some (i, 1)\<rparr>))"

definition set_super_admin_control :: "int64 \<Rightarrow> access_db \<Rightarrow> access_error + access_db" where
  "set_super_admin_control i db =
     (case db_control db of
        None \<Rightarrow> Inl Access_Not_Found
      | Some (_, v) \<Rightarrow>
          if (\<forall>u\<in>set (db_users db). u_id u \<noteq> i) \<or> max_int64 \<le> v then Inl Access_Storage
          else Inr (db\<lparr>db_control := Some (i, v + 1)\<rparr>))"

end
