(* ===== verification/Go_Crypto.thy ===== *)
theory Go_Crypto
  imports Go_Sha256
begin

text \<open>
  What the access services use of \<open>encoding/base64\<close> and \<open>crypto/hmac\<close>: the unpadded URL
  alphabet and HMAC over SHA-256. The encoding is injective (\<open>base64_url_inject\<close>), so
  different random bytes are different tokens.
\<close>

section \<open>Base 64\<close>

definition base64_alphabet :: string where
  "base64_alphabet = ''ABCDEFGHIJKLMNOPQRSTUVWXYZabcdefghijklmnopqrstuvwxyz0123456789-_''"

definition base64_char :: "nat \<Rightarrow> char" where
  "base64_char n = base64_alphabet ! n"

fun base64_url :: "string \<Rightarrow> string" where
  "base64_url [] = []"
| "base64_url [a] = map base64_char [byte a div 4, byte a mod 4 * 16]"
| "base64_url [a, b] =
     map base64_char [byte a div 4, byte a mod 4 * 16 + byte b div 16, byte b mod 16 * 4]"
| "base64_url (a # b # c # s) =
     map base64_char [byte a div 4, byte a mod 4 * 16 + byte b div 16, byte b mod 16 * 4 + byte c div 64, byte c mod 64]
     @ base64_url s"

lemma length_base64_alphabet [simp]: "length base64_alphabet = 64"
  by (simp add: base64_alphabet_def)

lemma distinct_base64_alphabet: "distinct base64_alphabet"
  by (simp add: base64_alphabet_def)

lemma base64_char_inject: "m < 64 \<Longrightarrow> n < 64 \<Longrightarrow> base64_char m = base64_char n \<longleftrightarrow> m = n"
  by (simp add: base64_char_def nth_eq_iff_index_eq distinct_base64_alphabet)

lemma base64_ranges [simp]:
  "byte a div 4 < 64" "byte a mod 4 * 16 < 64" "byte a mod 4 * 16 + byte b div 16 < 64" "byte b mod 16 * 4 < 64"
  "byte b mod 16 * 4 + byte c div 64 < 64"
proof -
  have a: "byte a < 256" "byte b < 256" "byte c < 256" by simp_all
  then have "byte a div 4 < 64" "byte b div 16 < 16" "byte c div 64 < 4" by (simp_all add: less_mult_imp_div_less)
  moreover have "byte a mod 4 < 4" "byte b mod 16 < 16" by simp_all
  ultimately show "byte a div 4 < 64" "byte a mod 4 * 16 < 64" "byte a mod 4 * 16 + byte b div 16 < 64"
    "byte b mod 16 * 4 < 64" "byte b mod 16 * 4 + byte c div 64 < 64" by linarith+
qed

lemma byte_div_mod_inject: "byte a div k = byte b div k \<Longrightarrow> byte a mod k = byte b mod k \<Longrightarrow> a = b"
  by (metis div_mult_mod_eq byte_inject)

lemma byte_quotients [simp]: "byte a div 16 < 16" "byte a div 64 < 4"
  using byte_less [of a] by (simp_all add: less_mult_imp_div_less)

lemma mixed_digits:
  fixes p q u v k :: nat
  assumes "p * k + u = q * k + v" "u < k" "v < k"
  shows "p = q \<and> u = v"
proof -
  have "(p * k + u) div k = p" "(q * k + v) div k = q" using assms(2,3) by simp_all
  with assms(1) show ?thesis by simp
qed

lemma base64_pair: "byte a mod 4 * 16 + byte b div 16 = byte c mod 4 * 16 + byte d div 16 \<Longrightarrow>
    byte a mod 4 = byte c mod 4 \<and> byte b div 16 = byte d div 16"
  by (rule mixed_digits) (assumption | rule byte_quotients)+

lemma base64_third: "byte a mod 16 * 4 + byte b div 64 = byte c mod 16 * 4 + byte d div 64 \<Longrightarrow>
    byte a mod 16 = byte c mod 16 \<and> byte b div 64 = byte d div 64"
  by (rule mixed_digits) (assumption | rule byte_quotients)+

lemma base64_url_inject: "length s = length t \<Longrightarrow> base64_url s = base64_url t \<longleftrightarrow> s = t"
proof (induction s arbitrary: t rule: base64_url.induct)
  case (2 a)
  then obtain b where "t = [b]" by (cases t) auto
  then show ?case
    by (auto simp: base64_char_inject intro: byte_div_mod_inject)
next
  case (3 a b)
  then obtain c d where "t = [c, d]" by (cases t; cases "tl t") auto
  then show ?case
    by (auto simp: base64_char_inject dest!: base64_pair intro: byte_div_mod_inject)
next
  case (4 a b c s)
  then obtain x y z u where t: "t = x # y # z # u" "length u = length s"
    by (cases t; cases "tl t"; cases "tl (tl t)") auto
  then show ?case
    using 4 by (auto simp: base64_char_inject dest!: base64_pair base64_third intro: byte_div_mod_inject)
qed simp

section \<open>HMAC\<close>

definition xor_pad :: "nat \<Rightarrow> string \<Rightarrow> string" where
  "xor_pad p k = map (\<lambda>c. char_of (Bit_Operations.xor (byte c) p)) (k @ replicate (64 - length k) (char_of (0::nat)))"

definition hmac_key :: "string \<Rightarrow> string" where
  "hmac_key k = (if 64 < length k then sha256 k else k)"

definition hmac_sha256 :: "string \<Rightarrow> string \<Rightarrow> string" where
  "hmac_sha256 k m =
     sha256 (xor_pad 92 (hmac_key k) @ sha256 (xor_pad 54 (hmac_key k) @ m))"

lemma length_hmac_sha256 [simp]: "length (hmac_sha256 k m) = 32"
  by (simp add: hmac_sha256_def)

end
