(* ===== verification/Access_Login.thy ===== *)
theory Access_Login
  imports Access_Store Go_Crypto
begin

text \<open>
  \<open>internal/access/app/authentication.go\<close>: sign-in with a password or a verified WeCom
  identity, the sessions it issues, authentication, the CSRF check and sign-out. The service
  decides inside the transaction but answers after the commit, so a refusal that recorded a
  failure or an audit is a value (\<open>Inl\<close> inside the committed result), not an error of the
  transaction. The random bytes of the two tokens are part of the command.
\<close>

section \<open>Configuration and commands\<close>

record login_config =
  lc_session_ttl :: duration
  lc_window :: duration
  lc_max_failures :: int
  lc_block_for :: duration
  lc_dummy_hash :: string

definition new_authentication :: "login_config \<Rightarrow> access_error + login_config" where
  "new_authentication c =
     (let c1 = (if lc_session_ttl c \<le> 0 then c\<lparr>lc_session_ttl := 8 * hour\<rparr> else c);
          c2 = (if lc_window c1 \<le> 0 then c1\<lparr>lc_window := 15 * minute\<rparr> else c1);
          c3 = (if lc_max_failures c2 \<le> 0 then c2\<lparr>lc_max_failures := 5\<rparr> else c2);
          c4 = (if lc_block_for c3 \<le> 0 then c3\<lparr>lc_block_for := 15 * minute\<rparr> else c3)
      in if lc_dummy_hash c4 = [] then Inl Access_Storage else Inr c4)"

record login_command =
  lg_username :: string
  lg_password :: string
  lg_remote :: string
  lg_session_random :: string
  lg_csrf_random :: string

record wecom_login_command =
  wl_wecom_userid :: string
  wl_remote :: string
  wl_session_random :: string
  wl_csrf_random :: string

record issued_session =
  is_session_token :: string
  is_csrf_token :: string
  is_expires_at :: time
  is_user :: user

definition credential_digest :: "string \<Rightarrow> string" where
  "credential_digest v = sha256 v"

definition matches :: "string \<Rightarrow> string \<Rightarrow> bool" where
  "matches v d \<longleftrightarrow> credential_digest v = d"

definition issue_opaque :: "string \<Rightarrow> string \<Rightarrow> string \<times> string" where
  "issue_opaque prefix random = (let v = prefix @ base64_url random in (v, credential_digest v))"

section \<open>Issuing a session\<close>

definition audit_login ::
  "access_env \<Rightarrow> int64 option \<Rightarrow> string \<Rightarrow> string \<Rightarrow> string \<Rightarrow> string \<Rightarrow> access_db \<Rightarrow> access_error + access_db" where
  "audit_login env user identifier remote outcome reason =
     append_login_audit \<lparr>la_admin_user_id = user, la_identifier = identifier, la_remote = remote, la_outcome = outcome,
                         la_reason = reason, la_created_at = ae_now env\<rparr>"

definition issue_session ::
  "login_config \<Rightarrow> access_env \<Rightarrow> string \<Rightarrow> string \<Rightarrow> user \<Rightarrow> string \<Rightarrow> string \<Rightarrow> string \<Rightarrow> access_db
     \<Rightarrow> access_error + (issued_session \<times> access_db)" where
  "issue_session cfg env r1 r2 u identifier remote reason db =
     (let (token, digest) = issue_opaque ''as_'' r1; (csrf, csrf_digest) = issue_opaque ''ac_'' r2;
          expires = ae_now env + lc_session_ttl cfg
      in and_then (create_session env
             \<lparr>s_id = 0, s_token_digest = digest, s_csrf_digest = csrf_digest, s_admin_user_id = u_id u,
              s_version = u_session_version u, s_expires_at = expires, s_revoked_at = None, s_revoked_reason = [],
              s_created_at = 0, s_last_seen_at = 0\<rparr> db) (\<lambda>db1.
         and_then (set_last_login env (u_id u) db1) (\<lambda>db2.
         and_then (audit_login env (Some (u_id u)) identifier remote ''succeeded'' reason db2) (\<lambda>db3.
           Inr (\<lparr>is_session_token = token, is_csrf_token = csrf, is_expires_at = expires,
                 is_user = u\<lparr>u_last_login_at := Some (ae_now env)\<rparr>\<rparr>, db3)))))"

text \<open>A refusal with its audit: the transaction commits, the caller gets the error.\<close>

definition refuse ::
  "access_env \<Rightarrow> access_error \<Rightarrow> int64 option \<Rightarrow> string \<Rightarrow> string \<Rightarrow> string \<Rightarrow> string \<Rightarrow> access_db
     \<Rightarrow> access_error + ((access_error + 'a) \<times> access_db)" where
  "refuse env e user identifier remote outcome reason db =
     and_then (audit_login env user identifier remote outcome reason db) (\<lambda>db1. Inr (Inl e, db1))"

definition may_sign_in :: "user \<Rightarrow> bool" where
  "may_sign_in u \<longleftrightarrow> u_active u \<and> u_login_enabled u \<and> u_access_granted_at u \<noteq> None"

section \<open>Sign-in with a password\<close>

text \<open>The limit as the attempt finds it: a window that is over starts again, unblocked.\<close>

definition current_limit :: "login_config \<Rightarrow> access_env \<Rightarrow> rate_limit \<Rightarrow> rate_limit" where
  "current_limit cfg env l =
     (if lc_window cfg \<le> ae_now env - rl_window_started_at l
      then l\<lparr>rl_window_started_at := ae_now env, rl_failure_count := 0, rl_blocked_until := None\<rparr> else l)"

definition blocked :: "access_env \<Rightarrow> rate_limit \<Rightarrow> bool" where
  "blocked env l \<longleftrightarrow> (case rl_blocked_until l of None \<Rightarrow> False | Some t \<Rightarrow> ae_now env < t)"

definition count_failure :: "login_config \<Rightarrow> access_env \<Rightarrow> rate_limit \<Rightarrow> rate_limit" where
  "count_failure cfg env l =
     (let n = rl_failure_count l + 1;
          m = l\<lparr>rl_failure_count := n, rl_updated_at := ae_now env\<rparr>
      in if lc_max_failures cfg \<le> n then m\<lparr>rl_blocked_until := Some (ae_now env + lc_block_for cfg)\<rparr> else m)"

definition clear_limit :: "access_env \<Rightarrow> rate_limit \<Rightarrow> rate_limit" where
  "clear_limit env l =
     l\<lparr>rl_failure_count := 0, rl_blocked_until := None, rl_window_started_at := ae_now env, rl_updated_at := ae_now env\<rparr>"

text \<open>What the service compares with: the digests of the name, of the remote, and of both.\<close>

definition candidate_username :: "access_env \<Rightarrow> login_command \<Rightarrow> string" where
  "candidate_username env c = lower_text (ae_unicode_lower env) (trim_space (lg_username c))"

definition rate_key :: "access_env \<Rightarrow> login_command \<Rightarrow> string" where
  "rate_key env c =
     credential_digest (candidate_username env c @ char_of (0::nat) # trim_space (lg_remote c))"

text \<open>A name that is not well-formed looks up a name no row can have.\<close>

definition lookup_username :: "access_error + string \<Rightarrow> string" where
  "lookup_username n = (case n of Inr u \<Rightarrow> u | Inl _ \<Rightarrow> replicate 121 CHR ''x'')"

definition failed_login ::
  "login_config \<Rightarrow> access_env \<Rightarrow> access_error + string \<Rightarrow> access_error + user \<Rightarrow> string \<Rightarrow> string \<Rightarrow> rate_limit \<Rightarrow> access_db
     \<Rightarrow> access_error + ((access_error + issued_session) \<times> access_db)" where
  "failed_login cfg env name found identifier remote l db =
     and_then (save_login_rate_limit (count_failure cfg env l) db) (\<lambda>db1.
       let reason = (if is_ok name then ''credentials_rejected'' else ''malformed_identifier'')
       in (case found of
             Inl _ \<Rightarrow> refuse env Invalid_Credentials None identifier remote ''invalid_credentials'' reason db1
           | Inr u \<Rightarrow>
               if may_sign_in u
               then refuse env Invalid_Credentials (Some (u_id u)) identifier remote ''invalid_credentials'' reason db1
               else refuse env Invalid_Credentials (Some (u_id u)) identifier remote ''disabled'' ''account_disabled'' db1))"

definition login_within ::
  "login_config \<Rightarrow> access_env \<Rightarrow> login_command \<Rightarrow> access_db \<Rightarrow> access_error + ((access_error + issued_session) \<times> access_db)" where
  "login_within cfg env c db =
     (let candidate = candidate_username env c; name = normalize_username (ae_unicode_lower env) candidate;
          identifier = credential_digest candidate; remote = credential_digest (trim_space (lg_remote c));
          (stored, db0) = login_rate_limit env (rate_key env c) db; l = current_limit cfg env stored
      in if blocked env l
         then refuse env (if is_ok name then Login_Rate_Limited else Invalid_Credentials) None identifier remote
                ''rate_limited'' ''threshold_exceeded'' db0
         else let found = user_by_username (lookup_username name) db0
              in (case found of
                    Inl _ \<Rightarrow> failed_login cfg env name found identifier remote l db0
                  | Inr u \<Rightarrow>
                      if \<not> ae_verify env (lg_password c) (u_password_hash u) \<or> \<not> may_sign_in u
                      then failed_login cfg env name found identifier remote l db0
                      else if length (u_roles u) = 0
                      then refuse env Permission_Denied (Some (u_id u)) identifier remote ''invalid_credentials'' ''no_roles'' db0
                      else and_then (save_login_rate_limit (clear_limit env l) db0) (\<lambda>db1.
                           and_then (issue_session cfg env (lg_session_random c) (lg_csrf_random c) u identifier remote
                                       ''local_password'' db1) (\<lambda>(issued, db2).
                             Inr (Inr issued, db2)))))"

text \<open>The answer and the database after the command; a failed transaction changes nothing.\<close>

definition answered :: "access_db \<Rightarrow> access_error + ((access_error + 'a) \<times> access_db) \<Rightarrow> (access_error + 'a) \<times> access_db" where
  "answered db r = (case r of Inl e \<Rightarrow> (Inl e, db) | Inr (d, db') \<Rightarrow> (d, db'))"

definition login ::
  "login_config \<Rightarrow> access_env \<Rightarrow> login_command \<Rightarrow> access_db \<Rightarrow> (access_error + issued_session) \<times> access_db" where
  "login cfg env c db = answered db (within (login_within cfg env c) db)"

section \<open>Sign-in with a verified WeCom identity\<close>

definition wecom_login_within ::
  "login_config \<Rightarrow> access_env \<Rightarrow> wecom_login_command \<Rightarrow> access_db
     \<Rightarrow> access_error + ((access_error + issued_session) \<times> access_db)" where
  "wecom_login_within cfg env c db =
     (let candidate = trim_space (wl_wecom_userid c);
          identifier = credential_digest candidate; remote = credential_digest (trim_space (wl_remote c))
      in (case normalize_wecom_user_id candidate of
            Inl _ \<Rightarrow> refuse env Invalid_Credentials None identifier remote ''invalid_credentials'' ''malformed_wecom_userid'' db
          | Inr w \<Rightarrow>
              (case user_by_wecom_user_id w db of
                 Inl _ \<Rightarrow> refuse env Invalid_Credentials None identifier remote ''invalid_credentials''
                           ''wecom_user_not_authorized'' db
               | Inr u \<Rightarrow>
                   if \<not> may_sign_in u
                   then refuse env Invalid_Credentials (Some (u_id u)) identifier remote ''disabled'' ''account_disabled'' db
                   else if length (u_roles u) = 0
                   then refuse env Permission_Denied (Some (u_id u)) identifier remote ''invalid_credentials'' ''no_roles'' db
                   else and_then (issue_session cfg env (wl_session_random c) (wl_csrf_random c) u identifier remote
                                    ''wecom_oauth'' db) (\<lambda>(issued, db1). Inr (Inr issued, db1)))))"

definition wecom_login ::
  "login_config \<Rightarrow> access_env \<Rightarrow> wecom_login_command \<Rightarrow> access_db \<Rightarrow> (access_error + issued_session) \<times> access_db" where
  "wecom_login cfg env c db = answered db (within (wecom_login_within cfg env c) db)"

section \<open>Sessions in use\<close>

definition session_usable :: "access_env \<Rightarrow> session \<Rightarrow> user \<Rightarrow> bool" where
  "session_usable env s u \<longleftrightarrow>
     s_revoked_at s = None \<and> ae_now env < s_expires_at s \<and> may_sign_in u \<and> s_version s = u_session_version u"

definition principal_of :: "session \<Rightarrow> user \<Rightarrow> principal" where
  "principal_of s u =
     \<lparr>p_kind = Kind_Admin, p_internal_id = u_id u, p_roles = u_roles u, p_session_version = s_version s\<rparr>"

definition authenticate :: "access_env \<Rightarrow> string \<Rightarrow> access_db \<Rightarrow> (access_error + principal) \<times> access_db" where
  "authenticate env token db =
     (if trim_space token = [] then (Inl Authentication_Required, db)
      else answered db (within (\<lambda>db.
        (case session_by_token_digest (credential_digest token) db of
           Inl e \<Rightarrow> Inl (if e = Access_Not_Found then Authentication_Required else e)
         | Inr (s, u) \<Rightarrow>
             if \<not> session_usable env s u then Inl Authentication_Required
             else if length (u_roles u) = 0 then Inl Permission_Denied
             else Inr (Inr (principal_of s u), touch_session env (s_id s) db))) db))"

definition authorize_csrf ::
  "access_env \<Rightarrow> string \<Rightarrow> string \<Rightarrow> string \<Rightarrow> access_db \<Rightarrow> (access_error + principal) \<times> access_db" where
  "authorize_csrf env token csrf_cookie csrf_request db =
     (if token = [] \<or> csrf_cookie = [] \<or> csrf_request = [] then (Inl CSRF_Required, db)
      else answered db (within (\<lambda>db.
        (case session_by_token_digest (credential_digest token) db of
           Inl _ \<Rightarrow> Inl Authentication_Required
         | Inr (s, u) \<Rightarrow>
             if \<not> session_usable env s u then Inl Authentication_Required
             else if \<not> matches csrf_cookie (s_csrf_digest s) \<or> \<not> matches csrf_request (s_csrf_digest s)
             then Inl CSRF_Required
             else Inr (Inr (principal_of s u), db))) db))"

definition logout ::
  "access_env \<Rightarrow> string \<Rightarrow> string \<Rightarrow> string \<Rightarrow> access_db \<Rightarrow> (access_error + unit) \<times> access_db" where
  "logout env token csrf_cookie csrf_request db =
     (case authorize_csrf env token csrf_cookie csrf_request db of
        (Inl e, db1) \<Rightarrow> (Inl e, db1)
      | (Inr _, db1) \<Rightarrow>
          answered db1 (within (\<lambda>db. Inr (Inr (), revoke_session env (credential_digest token) ''logout'' db)) db1))"

end
