(* ===== verification/Access_Governance.thy ===== *)
theory Access_Governance
  imports Access_Login
begin

text \<open>
  \<open>internal/access/app/governance.go\<close> and \<open>management.go\<close>: who may change whose account. Every
  governed command re-reads its actor under a lock, looks at the roles of actor and target, and
  reserves a receipt for its idempotency key before it writes; the older commands of
  \<open>management.go\<close> only check the roles in the principal they are given. The provider's directory
  of employees is a parameter. The listing of the directory with its signed cursor is not
  modelled; it changes nothing.
\<close>

section \<open>Who may do what\<close>

definition can_provision :: "role \<Rightarrow> role \<Rightarrow> bool" where
  "can_provision actor wanted \<longleftrightarrow>
     actor = Super_Admin \<and> (wanted = Admin \<or> wanted = Viewer) \<or> actor = Admin \<and> wanted = Viewer"

definition can_manage_target :: "role \<Rightarrow> role \<Rightarrow> bool" where
  "can_manage_target actor target \<longleftrightarrow>
     actor = Super_Admin \<and> (target = Admin \<or> target = Viewer) \<or> actor = Admin \<and> target = Viewer"

definition can_any_governance_mutation :: "role \<Rightarrow> role \<Rightarrow> bool" where
  "can_any_governance_mutation actor target \<longleftrightarrow>
     can_manage_target actor target \<or> actor = Super_Admin \<and> target = Super_Admin"

record governance_actions =
  act_set_login_enabled :: bool
  act_change_role :: bool
  act_bind_wecom :: bool
  act_reset_password :: bool
  act_transfer :: bool

definition actions_for :: "role \<Rightarrow> int64 \<Rightarrow> user \<Rightarrow> role \<Rightarrow> governance_actions" where
  "actions_for actor_role actor_id target target_role =
     (if u_id target = actor_id \<or> target_role = Super_Admin
      then \<lparr>act_set_login_enabled = False, act_change_role = False, act_bind_wecom = False, act_reset_password = False,
            act_transfer = actor_role = Super_Admin \<and> u_id target \<noteq> actor_id \<and> may_sign_in target
                           \<and> target_role = Admin\<rparr>
      else let manage = can_manage_target actor_role target_role; super = actor_role = Super_Admin \<and> manage
           in \<lparr>act_set_login_enabled = manage, act_change_role = super, act_bind_wecom = super, act_reset_password = super,
               act_transfer = actor_role = Super_Admin \<and> may_sign_in target \<and> target_role = Admin\<rparr>)"

section \<open>The service\<close>

record employee =
  em_userid :: string
  em_display_name :: string

datatype directory_answer = Employee employee | Employee_Not_Found | Directory_Failed

record governance_config =
  gc_key :: string
  gc_directory :: "(string \<Rightarrow> directory_answer) option" \<comment> \<open>\<open>None\<close>: not wired or not ready\<close>

definition governance_digest :: "governance_config \<Rightarrow> string list \<Rightarrow> string" where
  "governance_digest g parts = hmac_sha256 (gc_key g) (join_with [char_of (0::nat)] parts)"

definition valid_governance_key :: "string \<Rightarrow> bool" where
  "valid_governance_key k \<longleftrightarrow>
     trim_space k \<noteq> [] \<and> length (trim_space k) \<le> 200 \<and> \<not> list_ex (\<lambda>c. byte c \<in> {0, 13, 10}) k"

definition bool_string :: "bool \<Rightarrow> string" where
  "bool_string b = (if b then ''true'' else ''false'')"

definition role_string :: "role \<Rightarrow> string" where
  "role_string r =
     (case r of Super_Admin \<Rightarrow> ''super_admin'' | Admin \<Rightarrow> ''admin'' | Viewer \<Rightarrow> ''viewer'' | Role_Other s \<Rightarrow> s)"

definition audit_access ::
  "access_env \<Rightarrow> int64 \<Rightarrow> int64 \<Rightarrow> string \<Rightarrow> (string \<times> json) list \<Rightarrow> access_db \<Rightarrow> access_error + access_db" where
  "audit_access env actor target action details =
     append_access_audit \<lparr>aa_actor = actor, aa_target = target, aa_action = action, aa_details = Json_Object details,
                          aa_created_at = ae_now env\<rparr>"

definition current_governance_actor :: "principal \<Rightarrow> access_db \<Rightarrow> access_error + (user \<times> role)" where
  "current_governance_actor p db =
     (if p_kind p \<noteq> Kind_Admin \<or> p_internal_id p < 1 \<or> p_session_version p < 1 then Inl Authentication_Required
      else and_then (user_by_id (p_internal_id p) db) (\<lambda>u.
        if \<not> may_sign_in u \<or> u_session_version u \<noteq> p_session_version p then Inl Authentication_Required
        else (case single_role (u_roles u) of
                Inl _ \<Rightarrow> Inl Access_Conflict
              | Inr r \<Rightarrow> if r \<noteq> Super_Admin \<and> r \<noteq> Admin then Inl Permission_Denied else Inr (u, r))))"

definition governance_target_within ::
  "principal \<Rightarrow> int64 \<Rightarrow> string \<Rightarrow> string \<Rightarrow> string \<Rightarrow> (role \<Rightarrow> user \<Rightarrow> role \<Rightarrow> access_db \<Rightarrow> access_error + access_db)
     \<Rightarrow> access_db \<Rightarrow> access_error + (unit \<times> access_db)" where
  "governance_target_within p target_id key action digest apply_change db =
     and_then (current_governance_actor p db) (\<lambda>(actor, actor_role).
     and_then (user_by_id target_id db) (\<lambda>target.
       (case single_role (u_roles target) of
          Inl _ \<Rightarrow> Inl Access_Conflict
        | Inr target_role \<Rightarrow>
            if u_access_granted_at target = None then Inl Access_Not_Found
            else if \<not> can_any_governance_mutation actor_role target_role then Inl Permission_Denied
            else and_then (reserve_governance_mutation (p_internal_id p) key action target_id digest db)
                   (\<lambda>(reserved, db1).
                     if \<not> reserved then Inr ((), db1)
                     else and_then (apply_change actor_role target target_role db1) (\<lambda>db2. Inr ((), db2))))))"

definition with_governance_target ::
  "principal \<Rightarrow> int64 \<Rightarrow> string \<Rightarrow> string \<Rightarrow> string \<Rightarrow> (role \<Rightarrow> user \<Rightarrow> role \<Rightarrow> access_db \<Rightarrow> access_error + access_db)
     \<Rightarrow> access_db \<Rightarrow> access_error + (unit \<times> access_db)" where
  "with_governance_target p target_id key action digest apply_change db =
     (if target_id < 1 \<or> \<not> valid_governance_key key then Inl Invalid_Input
      else within (governance_target_within p target_id key action digest apply_change) db)"

definition authorize_governance_read :: "principal \<Rightarrow> access_db \<Rightarrow> access_error + unit" where
  "authorize_governance_read p db = and_then (current_governance_actor p db) (\<lambda>_. Inr ())"

definition verified_enterprise_employee :: "governance_config \<Rightarrow> string \<Rightarrow> access_error + employee" where
  "verified_enterprise_employee g raw =
     (case normalize_wecom_user_id raw of
        Inl _ \<Rightarrow> Inl Invalid_Input
      | Inr w \<Rightarrow>
          if w \<noteq> raw then Inl Invalid_Input
          else (case gc_directory g of
                  None \<Rightarrow> Inl Directory_Unavailable
                | Some read \<Rightarrow>
                    (case read w of
                       Employee_Not_Found \<Rightarrow> Inl Access_Not_Found
                     | Directory_Failed \<Rightarrow> Inl Directory_Unavailable
                     | Employee e \<Rightarrow>
                         if em_userid e \<noteq> w \<or> trim_space (em_display_name e) = [] then Inl Directory_Unavailable
                         else Inr e)))"

section \<open>Governed commands\<close>

record provision_input =
  pi_wecom_userid :: string
  pi_role :: role
  pi_key :: string
  pi_random :: string

definition provision_action :: "role \<Rightarrow> string" where
  "provision_action r = ''provision_'' @ role_string r"

definition blank_user :: user where
  "blank_user =
     \<lparr>u_id = 0, u_username = [], u_password_hash = [], u_display_name = [], u_wecom_userid = [], u_active = False,
      u_login_enabled = False, u_legacy_reactivation = False, u_access_granted_at = None, u_session_version = 0,
      u_roles = [], u_last_login_at = None, u_created_at = 0, u_updated_at = 0\<rparr>"

definition grant_existing ::
  "access_env \<Rightarrow> principal \<Rightarrow> role \<Rightarrow> employee \<Rightarrow> user \<Rightarrow> access_db \<Rightarrow> access_error + (user \<times> access_db)" where
  "grant_existing env p r e existing db =
     (if u_access_granted_at existing \<noteq> None then Inl Access_Conflict
      else and_then (grant_access env (u_id existing) r (em_display_name e) db) (\<lambda>db1.
           and_then (user_by_id (u_id existing) db1) (\<lambda>u.
           and_then (audit_access env (p_internal_id p) (u_id u) (provision_action r)
                       [(''existing_staff_projection'', Json_Bool True), (''role'', Json_String (role_string r)),
                        (''wecom_verified'', Json_Bool True)] db1) (\<lambda>db2. Inr (u, db2)))))"

definition provision_new ::
  "access_env \<Rightarrow> principal \<Rightarrow> role \<Rightarrow> employee \<Rightarrow> string \<Rightarrow> access_db \<Rightarrow> access_error + (user \<times> access_db)" where
  "provision_new env p r e password_hash db =
     and_then (create_user env
         (blank_user\<lparr>u_username := ''wecom-staff-'' @ hex_encode (sha256 (em_userid e)), u_password_hash := password_hash,
                     u_display_name := em_display_name e, u_wecom_userid := em_userid e, u_active := True,
                     u_roles := [r]\<rparr>) db) (\<lambda>(u, db1).
     and_then (audit_access env (p_internal_id p) (u_id u) (provision_action r)
                 [(''role'', Json_String (role_string r)), (''wecom_verified'', Json_Bool True)] db1) (\<lambda>db2.
       Inr (u, db2)))"

definition provision_within ::
  "governance_config \<Rightarrow> access_env \<Rightarrow> principal \<Rightarrow> provision_input \<Rightarrow> employee \<Rightarrow> string \<Rightarrow> access_db
     \<Rightarrow> access_error + (user \<times> access_db)" where
  "provision_within g env p i e password_hash db =
     and_then (current_governance_actor p db) (\<lambda>(_, actor_role).
       if \<not> can_provision actor_role (pi_role i) then Inl Permission_Denied
       else and_then (reserve_governance_mutation (p_internal_id p) (pi_key i) (provision_action (pi_role i)) (p_internal_id p)
                        (governance_digest g [''provision'', em_userid e, role_string (pi_role i)]) db) (\<lambda>(reserved, db1).
         if \<not> reserved then and_then (user_by_wecom_user_id (em_userid e) db1) (\<lambda>u. Inr (u, db1))
         else (case user_by_wecom_user_id (em_userid e) db1 of
                 Inr existing \<Rightarrow> grant_existing env p (pi_role i) e existing db1
               | Inl _ \<Rightarrow> provision_new env p (pi_role i) e password_hash db1)))"

definition provision_enterprise_employee ::
  "governance_config \<Rightarrow> access_env \<Rightarrow> principal \<Rightarrow> provision_input \<Rightarrow> access_db \<Rightarrow> access_error + (user \<times> access_db)" where
  "provision_enterprise_employee g env p i db =
     (if gc_key g = [] then Inl Directory_Unavailable
      else if pi_role i \<noteq> Admin \<and> pi_role i \<noteq> Viewer \<or> \<not> valid_governance_key (pi_key i) then Inl Invalid_Input
      else and_then (authorize_governance_read p db) (\<lambda>_.
           and_then (verified_enterprise_employee g (pi_wecom_userid i)) (\<lambda>e.
           and_then (ae_hash env (fst (issue_opaque ''access_'' (pi_random i)))) (\<lambda>password_hash.
             within (provision_within g env p i e password_hash) db))))"

record login_enabled_input =
  le_target :: int64
  le_enabled :: bool
  le_key :: string

definition login_enabled_unusable :: "bool \<Rightarrow> user \<Rightarrow> bool" where
  "login_enabled_unusable enabled target \<longleftrightarrow> \<not> u_active target \<and> \<not> (enabled \<and> u_legacy_reactivation target)"

definition login_change ::
  "access_env \<Rightarrow> principal \<Rightarrow> login_enabled_input \<Rightarrow> role \<Rightarrow> user \<Rightarrow> role \<Rightarrow> access_db \<Rightarrow> access_error + access_db" where
  "login_change env p i actor_role target target_role db =
     (if \<not> can_manage_target actor_role target_role then Inl Permission_Denied
      else if login_enabled_unusable (le_enabled i) target \<or> u_login_enabled target = le_enabled i
      then (if login_enabled_unusable (le_enabled i) target then Inl Access_Conflict else Inr db)
      else and_then (set_login_enabled env (u_id target) (le_enabled i) db)
             (audit_access env (p_internal_id p) (u_id target)
                (if le_enabled i then ''enable_login'' else ''disable_login'')
                [(''login_enabled'', Json_Bool (le_enabled i))]))"

definition set_governance_login_enabled ::
  "governance_config \<Rightarrow> access_env \<Rightarrow> principal \<Rightarrow> login_enabled_input \<Rightarrow> access_db \<Rightarrow> access_error + (unit \<times> access_db)" where
  "set_governance_login_enabled g env p i db =
     (if gc_key g = [] then Inl Directory_Unavailable
      else with_governance_target p (le_target i) (le_key i) ''set_login_enabled''
             (governance_digest g [''login'', bool_string (le_enabled i)])
             (login_change env p i) db)"

record role_input =
  ri_target :: int64
  ri_role :: role
  ri_key :: string

definition role_change ::
  "access_env \<Rightarrow> principal \<Rightarrow> role_input \<Rightarrow> role \<Rightarrow> user \<Rightarrow> role \<Rightarrow> access_db \<Rightarrow> access_error + access_db" where
  "role_change env p i actor_role target target_role db =
     (if \<not> can_manage_target actor_role target_role \<or> actor_role \<noteq> Super_Admin then Inl Permission_Denied
      else if target_role = ri_role i then Inr db
      else and_then (replace_roles env (u_id target) [ri_role i] db)
             (audit_access env (p_internal_id p) (u_id target) ''set_role''
                [(''role'', Json_String (role_string (ri_role i)))]))"

definition set_governance_role ::
  "governance_config \<Rightarrow> access_env \<Rightarrow> principal \<Rightarrow> role_input \<Rightarrow> access_db \<Rightarrow> access_error + (unit \<times> access_db)" where
  "set_governance_role g env p i db =
     (if gc_key g = [] then Inl Directory_Unavailable
      else if ri_role i \<noteq> Admin \<and> ri_role i \<noteq> Viewer then Inl Invalid_Input
      else with_governance_target p (ri_target i) (ri_key i) ''set_role''
             (governance_digest g [''role'', role_string (ri_role i)])
             (role_change env p i) db)"

record bind_input =
  bi_target :: int64
  bi_wecom_userid :: string
  bi_key :: string

definition bound_employee :: "governance_config \<Rightarrow> string \<Rightarrow> access_error + string" where
  "bound_employee g w =
     (if w \<noteq> [] then and_then (verified_enterprise_employee g w) (\<lambda>e. Inr (em_userid e)) else Inr [])"

definition bind_change ::
  "access_env \<Rightarrow> principal \<Rightarrow> string \<Rightarrow> role \<Rightarrow> user \<Rightarrow> role \<Rightarrow> access_db \<Rightarrow> access_error + access_db" where
  "bind_change env p w actor_role target target_role db =
     (if actor_role \<noteq> Super_Admin \<or> target_role = Super_Admin then Inl Permission_Denied
      else if u_wecom_userid target = w then Inr db
      else if w \<noteq> [] \<and> (case user_by_wecom_user_id w db of
                          Inr existing \<Rightarrow> u_id existing \<noteq> u_id target | Inl _ \<Rightarrow> False) then Inl Access_Conflict
      else and_then (set_wecom_user_id env (u_id target) w db)
             (audit_access env (p_internal_id p) (u_id target) ''bind_wecom_userid''
                [(''bound'', Json_Bool (w \<noteq> []))]))"

definition bind_governance_wecom_user_id ::
  "governance_config \<Rightarrow> access_env \<Rightarrow> principal \<Rightarrow> bind_input \<Rightarrow> access_db \<Rightarrow> access_error + (unit \<times> access_db)" where
  "bind_governance_wecom_user_id g env p i db =
     (if gc_key g = [] then Inl Directory_Unavailable
      else if \<not> valid_governance_key (bi_key i) \<or> bi_target i < 1 then Inl Invalid_Input
      else and_then (authorize_governance_read p db) (\<lambda>_.
           and_then (bound_employee g (bi_wecom_userid i)) (\<lambda>w.
             with_governance_target p (bi_target i) (bi_key i) ''bind_wecom_userid''
               (governance_digest g [''bind'', w])
               (bind_change env p w) db)))"

record password_input =
  pw_target :: int64
  pw_password :: string
  pw_key :: string

definition password_change ::
  "access_env \<Rightarrow> principal \<Rightarrow> string \<Rightarrow> role \<Rightarrow> user \<Rightarrow> role \<Rightarrow> access_db \<Rightarrow> access_error + access_db" where
  "password_change env p h actor_role target target_role db =
     (if actor_role \<noteq> Super_Admin \<or> target_role = Super_Admin then Inl Permission_Denied
      else and_then (set_password_hash env (u_id target) h db)
             (audit_access env (p_internal_id p) (u_id target) ''reset_password'' []))"

definition reset_governance_password ::
  "governance_config \<Rightarrow> access_env \<Rightarrow> principal \<Rightarrow> password_input \<Rightarrow> access_db \<Rightarrow> access_error + (unit \<times> access_db)" where
  "reset_governance_password g env p i db =
     (if gc_key g = [] then Inl Directory_Unavailable
      else if \<not> valid_governance_key (pw_key i) \<or> pw_target i < 1 then Inl Invalid_Input
      else and_then (ae_hash env (pw_password i)) (\<lambda>h.
             with_governance_target p (pw_target i) (pw_key i) ''reset_password''
               (governance_digest g [''password'', pw_password i])
               (password_change env p h) db))"

record transfer_input =
  tr_target :: int64
  tr_key :: string

definition transfer_write :: "access_env \<Rightarrow> user \<Rightarrow> user \<Rightarrow> access_db \<Rightarrow> access_error + (unit \<times> access_db)" where
  "transfer_write env current target db =
     and_then (replace_roles env (u_id current) [Admin] db) (\<lambda>db1.
     and_then (replace_roles env (u_id target) [Super_Admin] db1) (\<lambda>db2.
     and_then (set_super_admin_control (u_id target) db2) (\<lambda>db3.
     and_then (audit_access env (u_id current) (u_id target) ''transfer_super_admin''
                 [(''previous_super_admin_id'', Json_Number (format_int (u_id current)))] db3) (\<lambda>db4. Inr ((), db4)))))"

definition transfer_within ::
  "governance_config \<Rightarrow> access_env \<Rightarrow> principal \<Rightarrow> transfer_input \<Rightarrow> access_db \<Rightarrow> access_error + (unit \<times> access_db)" where
  "transfer_within g env p i db =
     and_then (current_governance_actor p db) (\<lambda>(current, actor_role).
       if actor_role \<noteq> Super_Admin \<or> u_id current = tr_target i then Inl Permission_Denied
       else and_then (super_admin_control db) (\<lambda>(owner, _).
         if owner \<noteq> u_id current then Inl Authentication_Required
         else and_then (user_by_id (tr_target i) db) (\<lambda>target.
           (case single_role (u_roles target) of
              Inl _ \<Rightarrow> Inl Access_Conflict
            | Inr target_role \<Rightarrow>
                if u_access_granted_at target = None then Inl Access_Not_Found
                else if \<not> may_sign_in target \<or> target_role \<noteq> Admin then Inl Permission_Denied
                else and_then (reserve_governance_mutation (u_id current) (tr_key i) ''transfer_super_admin'' (u_id target)
                                 (governance_digest g [''transfer'', format_int (u_id target)]) db) (\<lambda>(reserved, db1).
                  if \<not> reserved then Inr ((), db1) else transfer_write env current target db1)))))"

definition transfer_governance_super_admin ::
  "governance_config \<Rightarrow> access_env \<Rightarrow> principal \<Rightarrow> transfer_input \<Rightarrow> access_db \<Rightarrow> access_error + (unit \<times> access_db)" where
  "transfer_governance_super_admin g env p i db =
     (if gc_key g = [] then Inl Directory_Unavailable
      else if tr_target i < 1 \<or> \<not> valid_governance_key (tr_key i) then Inl Invalid_Input
      else within (transfer_within g env p i) db)"

end
