(* ===== verification/Access_Management.thy ===== *)
theory Access_Management
  imports Access_Governance
begin

text \<open>
  The rest of the access services: the first account, the older account commands and the bulk
  login switch of \<open>management.go\<close>, the directory refresh of display names, the projection of
  WeCom staff (\<open>wecom_staff.go\<close>) and the request limiter of machine callers
  (\<open>machine_rate_limit.go\<close>).
\<close>

section \<open>The first account and the older commands\<close>

record bootstrap_input =
  bo_username :: string
  bo_password :: string
  bo_display_name :: string

definition bootstrap :: "access_env \<Rightarrow> bootstrap_input \<Rightarrow> access_db \<Rightarrow> access_error + ((user \<times> bool) \<times> access_db)" where
  "bootstrap env i db =
     (case normalize_username (ae_unicode_lower env) (bo_username i) of
        Inl _ \<Rightarrow> Inl Invalid_Input
      | Inr name \<Rightarrow>
          if trim_space (bo_display_name i) = [] then Inl Invalid_Input
          else and_then (ae_hash env (bo_password i)) (\<lambda>h.
            within (\<lambda>db.
              and_then (bootstrap_user env
                  (blank_user\<lparr>u_username := name, u_password_hash := h, u_display_name := trim_space (bo_display_name i),
                              u_active := True, u_roles := [Super_Admin]\<rparr>) db) (\<lambda>((u, created), db1).
                if \<not> created then Inr ((u, False), db1)
                else and_then (initialize_super_admin_control (u_id u) db1) (\<lambda>db2.
                     and_then (audit_access env (u_id u) (u_id u) ''bootstrap''
                                 [(''roles'', Json_Array (map (\<lambda>r. Json_String (role_string r)) (u_roles u)))] db2) (\<lambda>db3.
                       Inr ((u, True), db3))))) db))"

definition require_super_admin :: "principal \<Rightarrow> access_error + unit" where
  "require_super_admin p =
     (if \<not> valid_principal p then Inl Authentication_Required
      else if \<not> is_super_admin p then Inl Permission_Denied else Inr ())"

record add_user_input =
  au_username :: string
  au_password :: string
  au_display_name :: string
  au_roles :: "role list"

definition roles_json :: "role list \<Rightarrow> json" where
  "roles_json rs = Json_Array (map (\<lambda>r. Json_String (role_string r)) rs)"

definition add_user :: "access_env \<Rightarrow> principal \<Rightarrow> add_user_input \<Rightarrow> access_db \<Rightarrow> access_error + (user \<times> access_db)" where
  "add_user env p i db =
     and_then (require_super_admin p) (\<lambda>_.
       (case normalize_username (ae_unicode_lower env) (au_username i) of
          Inl _ \<Rightarrow> Inl Invalid_Input
        | Inr name \<Rightarrow>
            if trim_space (au_display_name i) = [] then Inl Invalid_Input
            else and_then (normalize_roles (au_roles i)) (\<lambda>roles.
                 and_then (ae_hash env (au_password i)) (\<lambda>h.
                   within (\<lambda>db.
                     and_then (create_user env
                         (blank_user\<lparr>u_username := name, u_password_hash := h,
                                     u_display_name := trim_space (au_display_name i), u_active := True, u_roles := roles\<rparr>) db)
                       (\<lambda>(u, db1).
                     and_then (audit_access env (p_internal_id p) (u_id u) ''create'' [(''roles'', roles_json roles)] db1)
                       (\<lambda>db2. Inr (u, db2)))) db))))"

definition disable_user :: "access_env \<Rightarrow> principal \<Rightarrow> int64 \<Rightarrow> access_db \<Rightarrow> access_error + (unit \<times> access_db)" where
  "disable_user env p target db =
     and_then (require_super_admin p) (\<lambda>_.
       if target < 1 \<or> p_internal_id p = target then Inl Permission_Denied
       else within (\<lambda>db.
              and_then (set_login_enabled env target False db) (\<lambda>db1.
              and_then (audit_access env (p_internal_id p) target ''disable'' [] db1) (\<lambda>db2. Inr ((), db2)))) db)"

definition bind_wecom_user_id ::
  "access_env \<Rightarrow> principal \<Rightarrow> int64 \<Rightarrow> string \<Rightarrow> access_db \<Rightarrow> access_error + (unit \<times> access_db)" where
  "bind_wecom_user_id env p target raw db =
     and_then (require_super_admin p) (\<lambda>_.
       let v = trim_space raw
       in if target < 1 then Inl Invalid_Input
          else and_then (if v \<noteq> [] then (case normalize_wecom_user_id v of Inl _ \<Rightarrow> Inl Invalid_Input | Inr w \<Rightarrow> Inr w)
                         else Inr []) (\<lambda>w.
            within (\<lambda>db.
              and_then (set_wecom_user_id env target w db) (\<lambda>db1.
              and_then (audit_access env (p_internal_id p) target ''bind_wecom_userid'' [(''bound'', Json_Bool (w \<noteq> []))] db1)
                (\<lambda>db2. Inr ((), db2)))) db))"

definition change_roles ::
  "access_env \<Rightarrow> principal \<Rightarrow> int64 \<Rightarrow> role list \<Rightarrow> access_db \<Rightarrow> access_error + (unit \<times> access_db)" where
  "change_roles env p target input db =
     and_then (require_super_admin p) (\<lambda>_.
       (case normalize_roles input of
          Inl _ \<Rightarrow> Inl Invalid_Input
        | Inr roles \<Rightarrow>
            if target < 1 then Inl Invalid_Input
            else if p_internal_id p = target \<and> Super_Admin \<notin> set roles then Inl Permission_Denied
            else within (\<lambda>db.
                   and_then (replace_roles env target roles db) (\<lambda>db1.
                   and_then (audit_access env (p_internal_id p) target ''change_roles'' [(''roles'', roles_json roles)] db1)
                     (\<lambda>db2. Inr ((), db2)))) db))"

definition reset_password ::
  "access_env \<Rightarrow> principal \<Rightarrow> int64 \<Rightarrow> string \<Rightarrow> access_db \<Rightarrow> access_error + (unit \<times> access_db)" where
  "reset_password env p target password db =
     and_then (require_super_admin p) (\<lambda>_.
       if target < 1 then Inl Invalid_Input
       else and_then (ae_hash env password) (\<lambda>h.
         within (\<lambda>db.
           and_then (set_password_hash env target h db) (\<lambda>db1.
           and_then (audit_access env (p_internal_id p) target ''reset_password'' [] db1) (\<lambda>db2. Inr ((), db2)))) db))"

section \<open>The bulk login switch\<close>

record login_access_change =
  lx_user :: int64
  lx_enabled :: bool

definition valid_login_access_key :: "string \<Rightarrow> bool" where
  "valid_login_access_key k \<longleftrightarrow>
     (let t = trim_space k in t \<noteq> [] \<and> length t \<le> 200 \<and> \<not> list_ex (\<lambda>c. byte c \<in> {0, 13, 10}) t)"

fun scan_changes :: "int64 \<Rightarrow> int64 list \<Rightarrow> login_access_change list \<Rightarrow> access_error option" where
  "scan_changes actor seen [] = None"
| "scan_changes actor seen (c # cs) =
     (if lx_user c < 1 then Some Invalid_Input
      else if lx_user c \<in> set seen then Some Invalid_Input
      else if lx_user c = actor \<and> \<not> lx_enabled c then Some Permission_Denied
      else scan_changes actor (lx_user c # seen) cs)"

definition login_access_request_digest :: "login_access_change list \<Rightarrow> string" where
  "login_access_request_digest cs =
     sha256 (marshal (Json_Object [(''members'', Json_Array (map (\<lambda>c.
       Json_Object [(''AdminUserID'', Json_Number (format_int (lx_user c))), (''LoginEnabled'', Json_Bool (lx_enabled c))]) cs))]))"

text \<open>What one change asks of the row it finds: nothing, a write, or an error.\<close>

definition change_needed :: "role \<Rightarrow> login_access_change \<Rightarrow> user \<Rightarrow> access_error + bool" where
  "change_needed actor_role c u =
     (case single_role (u_roles u) of
        Inl _ \<Rightarrow> Inl Access_Conflict
      | Inr r \<Rightarrow> if u_access_granted_at u = None then Inl Access_Not_Found
                 else if u_login_enabled u = lx_enabled c then Inr False
                 else if \<not> can_manage_target actor_role r then Inl Permission_Denied
                 else Inr True)"

fun mutable_changes :: "role \<Rightarrow> access_db \<Rightarrow> login_access_change list \<Rightarrow> access_error + login_access_change list" where
  "mutable_changes actor_role db [] = Inr []"
| "mutable_changes actor_role db (c # cs) =
     and_then (user_by_id (lx_user c) db) (\<lambda>u.
     and_then (change_needed actor_role c u) (\<lambda>needed.
     and_then (mutable_changes actor_role db cs) (\<lambda>rest. Inr (if needed then c # rest else rest))))"

text \<open>The rows are read again under their locks before the first write.\<close>

fun locked_users :: "access_db \<Rightarrow> login_access_change list \<Rightarrow> access_error + (login_access_change \<times> user) list" where
  "locked_users db [] = Inr []"
| "locked_users db (c # cs) =
     and_then (user_by_id (lx_user c) db) (\<lambda>u.
     and_then (locked_users db cs) (\<lambda>rest. Inr ((c, u) # rest)))"

fun write_changes ::
  "access_env \<Rightarrow> principal \<Rightarrow> role \<Rightarrow> (login_access_change \<times> user) list \<Rightarrow> access_db \<Rightarrow> access_error + access_db" where
  "write_changes env p actor_role [] db = Inr db"
| "write_changes env p actor_role ((c, u) # cs) db =
     and_then (change_needed actor_role c u) (\<lambda>needed.
       if \<not> needed then write_changes env p actor_role cs db
       else and_then (set_login_enabled env (u_id u) (lx_enabled c) db) (\<lambda>db1.
            and_then (audit_access env (p_internal_id p) (u_id u) ''set_login_enabled''
                        [(''login_enabled'', Json_Bool (lx_enabled c))] db1) (\<lambda>db2.
              write_changes env p actor_role cs db2)))"

definition granted_users :: "access_db \<Rightarrow> user list" where
  "granted_users db = filter (\<lambda>u. u_access_granted_at u \<noteq> None) (db_users db)"

definition set_login_access_within ::
  "access_env \<Rightarrow> principal \<Rightarrow> string \<Rightarrow> login_access_change list \<Rightarrow> access_db \<Rightarrow> access_error + (user list \<times> access_db)" where
  "set_login_access_within env p key cs db =
     and_then (current_governance_actor p db) (\<lambda>(_, actor_role).
     and_then (reserve_login_access_request (p_internal_id p) key (login_access_request_digest cs) db) (\<lambda>(reserved, db1).
       if \<not> reserved then Inr (granted_users db1, db1)
       else and_then (mutable_changes actor_role db1 cs) (\<lambda>todo.
            and_then (locked_users db1 todo) (\<lambda>rows.
            and_then (write_changes env p actor_role rows db1) (\<lambda>db2. Inr (granted_users db2, db2))))))"

definition set_login_access ::
  "access_env \<Rightarrow> principal \<Rightarrow> string \<Rightarrow> login_access_change list \<Rightarrow> access_db \<Rightarrow> access_error + (user list \<times> access_db)" where
  "set_login_access env p key changes db =
     (if \<not> valid_login_access_key key \<or> length changes = 0 \<or> 200 < length changes then Inl Invalid_Input
      else (case scan_changes (p_internal_id p) [] changes of
              Some e \<Rightarrow> Inl e
            | None \<Rightarrow> within (set_login_access_within env p key (sort_key lx_user changes)) db))"

section \<open>Names from the directory\<close>

text \<open>\<open>names\<close> is the trimmed display name of each employee of the complete directory.\<close>

fun refresh_names ::
  "access_env \<Rightarrow> principal \<Rightarrow> (string \<Rightarrow> string option) \<Rightarrow> user list \<Rightarrow> access_db \<Rightarrow> access_error + access_db" where
  "refresh_names env p names [] db = Inr db"
| "refresh_names env p names (u # us) db =
     (let name = (case names (u_wecom_userid u) of None \<Rightarrow> [] | Some n \<Rightarrow> n)
      in if name = [] \<or> name = u_display_name u then refresh_names env p names us db
         else and_then (set_staff_display_name env (u_id u) (u_wecom_userid u) name db) (\<lambda>db1.
              and_then (audit_access env (p_internal_id p) (u_id u) ''refresh_staff_name'' [] db1) (\<lambda>db2.
                refresh_names env p names us db2)))"

definition refresh_staff_names ::
  "access_env \<Rightarrow> principal \<Rightarrow> (string \<Rightarrow> string option) option \<Rightarrow> access_db \<Rightarrow> access_error + (unit \<times> access_db)" where
  "refresh_staff_names env p directory db =
     and_then (authorize_governance_read p db) (\<lambda>_.
       (case directory of
          None \<Rightarrow> Inl Directory_Unavailable
        | Some names \<Rightarrow>
            within (\<lambda>db. and_then (current_governance_actor p db) (\<lambda>_.
              and_then (refresh_names env p names (db_users db) db) (\<lambda>db1. Inr ((), db1)))) db))"

section \<open>Staff of the provider\<close>

record staff_projection =
  sp_wecom_userid :: string
  sp_display_name :: string

fun canonical_staff :: "staff_projection list \<Rightarrow> staff_projection list \<Rightarrow> access_error + staff_projection list" where
  "canonical_staff done [] = Inr done"
| "canonical_staff done (i # is) =
     (case normalize_wecom_user_id (sp_wecom_userid i) of
        Inl _ \<Rightarrow> Inl Invalid_Input
      | Inr w \<Rightarrow>
          if w \<in> sp_wecom_userid ` set done then canonical_staff done is
          else let trimmed = trim_space (sp_display_name i); name = (if trimmed = [] then w else trimmed)
               in if 160 < rune_count name \<or> list_ex (\<lambda>c. byte c \<in> {0, 13, 10}) name then Inl Invalid_Input
                  else canonical_staff (done @ [\<lparr>sp_wecom_userid = w, sp_display_name = name\<rparr>]) is)"

record projection_result =
  ps_discovered :: int
  ps_existing :: int
  ps_inactive :: int
  ps_created :: int

text \<open>\<open>audit\<close> appends to the platform's audit log, under a key made of the run and the
  employee, in the same transaction, and may fail.\<close>

fun project_staff ::
  "access_env \<Rightarrow> string \<Rightarrow> (int64 \<Rightarrow> access_error option) \<Rightarrow> staff_projection list \<Rightarrow> projection_result \<Rightarrow> access_db
     \<Rightarrow> access_error + (projection_result \<times> access_db)" where
  "project_staff env h audit [] res db = Inr (res, db)"
| "project_staff env h audit (i # is) res db =
     (case user_by_wecom_user_id (sp_wecom_userid i) db of
        Inr u \<Rightarrow>
          project_staff env h audit is
            (res\<lparr>ps_existing := ps_existing res + 1,
                 ps_inactive := (if u_active u then ps_inactive res else ps_inactive res + 1)\<rparr>) db
      | Inl _ \<Rightarrow>
          and_then (create_staff_projection env
              (blank_user\<lparr>u_username := ''wecom-staff-'' @ hex_encode (sha256 (sp_wecom_userid i)), u_password_hash := h,
                          u_display_name := sp_display_name i, u_wecom_userid := sp_wecom_userid i, u_active := True,
                          u_roles := [Viewer]\<rparr>) db) (\<lambda>(u, db1).
            (case audit (u_id u) of
               Some e \<Rightarrow> Inl e
             | None \<Rightarrow> project_staff env h audit is (res\<lparr>ps_created := ps_created res + 1\<rparr>) db1)))"

definition valid_staff_run_key :: "string \<Rightarrow> bool" where
  "valid_staff_run_key k \<longleftrightarrow>
     (let t = trim_space k in t \<noteq> [] \<and> length t \<le> 120 \<and> \<not> list_ex (\<lambda>c. byte c \<in> {0, 13, 10}) t)"

definition project_wecom_staff ::
  "access_env \<Rightarrow> string \<Rightarrow> string \<Rightarrow> (int64 \<Rightarrow> access_error option) \<Rightarrow> staff_projection list \<Rightarrow> access_db
     \<Rightarrow> access_error + (projection_result \<times> access_db)" where
  "project_wecom_staff env run_key h audit input db =
     (if \<not> valid_staff_run_key run_key \<or> 10000 < length input then Inl Access_Storage
      else and_then (canonical_staff [] input) (\<lambda>canonical.
        project_staff env h audit (sort_key sp_wecom_userid canonical)
          \<lparr>ps_discovered = int (length canonical), ps_existing = 0, ps_inactive = 0, ps_created = 0\<rparr> db))"

section \<open>The request limiter of machine callers\<close>

record limiter_config =
  mr_window :: duration
  mr_max_credential_checks :: int
  mr_max_machine_requests :: int

definition new_machine_rate_limiter :: "limiter_config \<Rightarrow> limiter_config" where
  "new_machine_rate_limiter c =
     (let c1 = (if mr_window c \<le> 0 then c\<lparr>mr_window := minute\<rparr> else c);
          c2 = (if mr_max_credential_checks c1 \<le> 0 then c1\<lparr>mr_max_credential_checks := 30\<rparr> else c1)
      in if mr_max_machine_requests c2 \<le> 0 then c2\<lparr>mr_max_machine_requests := 300\<rparr> else c2)"

definition window_limit :: "limiter_config \<Rightarrow> access_env \<Rightarrow> rate_limit \<Rightarrow> rate_limit" where
  "window_limit cfg env l =
     (if mr_window cfg \<le> ae_now env - rl_window_started_at l
      then l\<lparr>rl_window_started_at := ae_now env, rl_failure_count := 0, rl_blocked_until := None\<rparr> else l)"

text \<open>One request against a limit: whether it passes, and the limit to store, if any.\<close>

definition limiter_decision ::
  "limiter_config \<Rightarrow> access_env \<Rightarrow> int \<Rightarrow> rate_limit \<Rightarrow> bool \<times> rate_limit option" where
  "limiter_decision cfg env maximum stored =
     (let l = window_limit cfg env stored
      in if blocked env l then (False, None)
         else if maximum \<le> rl_failure_count l
         then (False, Some (l\<lparr>rl_blocked_until := Some (ae_now env + mr_window cfg), rl_updated_at := ae_now env\<rparr>))
         else let n = rl_failure_count l + 1; m = l\<lparr>rl_failure_count := n, rl_updated_at := ae_now env\<rparr>
              in (True, Some (if maximum \<le> n then m\<lparr>rl_blocked_until := Some (ae_now env + mr_window cfg)\<rparr> else m)))"

definition allow :: "limiter_config \<Rightarrow> access_env \<Rightarrow> string \<Rightarrow> string \<Rightarrow> int \<Rightarrow> access_db \<Rightarrow> (access_error + unit) \<times> access_db" where
  "allow cfg env namespace value maximum db =
     (if maximum < 1 then (Inl Login_Rate_Limited, db)
      else answered db (within (\<lambda>db.
        let (stored, db0) = login_rate_limit env (credential_digest (namespace @ char_of (0::nat) # value)) db;
            (passes, written) = limiter_decision cfg env maximum stored;
            answer = (if passes then Inr () else Inl Login_Rate_Limited)
        in (case written of
              None \<Rightarrow> Inr (answer, db0)
            | Some m \<Rightarrow> and_then (save_login_rate_limit m db0) (\<lambda>db1. Inr (answer, db1)))) db))"

end
