(* ===== verification/Access_System.thy ===== *)
theory Access_System
  imports Access_Management
begin

text \<open>
  The access database under every command: the invariant of its rows, and what one command may
  do to the rows that were there (\<open>evolves\<close>). Accounts keep their identity, their session
  version only grows, and it grows whenever something a session rests on changes: password,
  roles, binding, availability, login switch or grant. Sessions keep what they were issued
  with. Each statement of the store \<open>keeps\<close> both; the commands follow by composition.
\<close>

section \<open>Rows\<close>

definition secured :: "user \<Rightarrow> string \<times> role list \<times> string \<times> bool \<times> bool \<times> time option" where
  "secured u = (u_password_hash u, u_roles u, u_wecom_userid u, u_active u, u_login_enabled u, u_access_granted_at u)"

definition user_row_ok :: "user \<Rightarrow> bool" where
  "user_row_ok u \<longleftrightarrow>
     1 \<le> u_id u \<and> 1 \<le> u_session_version u \<and> u_session_version u \<le> max_int64
     \<and> (u_login_enabled u \<longrightarrow> u_access_granted_at u \<noteq> None)
     \<and> set (u_roles u) \<subseteq> set role_codes \<and> length (u_roles u) \<le> 1"

definition session_row_ok :: "access_db \<Rightarrow> session \<Rightarrow> bool" where
  "session_row_ok db s \<longleftrightarrow>
     1 \<le> s_version s \<and> (\<exists>u\<in>set (db_users db). u_id u = s_admin_user_id s \<and> s_version s \<le> u_session_version u)"

definition rows_ok :: "access_db \<Rightarrow> bool" where
  "rows_ok db \<longleftrightarrow>
     distinct (map u_id (db_users db)) \<and> 1 \<le> db_next_user db
     \<and> (\<forall>u\<in>set (db_users db). u_id u < db_next_user db \<and> user_row_ok u)
     \<and> distinct (map s_token_digest (db_sessions db)) \<and> (\<forall>s\<in>set (db_sessions db). session_row_ok db s)"

definition user_evolves :: "user \<Rightarrow> user \<Rightarrow> bool" where
  "user_evolves u v \<longleftrightarrow>
     u_id v = u_id u \<and> u_username v = u_username u \<and> u_session_version u \<le> u_session_version v
     \<and> (secured v = secured u \<or> u_session_version u < u_session_version v)"

definition session_evolves :: "session \<Rightarrow> session \<Rightarrow> bool" where
  "session_evolves s t \<longleftrightarrow>
     s_id t = s_id s \<and> s_token_digest t = s_token_digest s \<and> s_csrf_digest t = s_csrf_digest s
     \<and> s_admin_user_id t = s_admin_user_id s \<and> s_version t = s_version s \<and> s_expires_at t = s_expires_at s
     \<and> (s_revoked_at s \<noteq> None \<longrightarrow> s_revoked_at t = s_revoked_at s)"

definition evolves :: "access_db \<Rightarrow> access_db \<Rightarrow> bool" where
  "evolves db db' \<longleftrightarrow>
     (\<forall>u\<in>set (db_users db). \<exists>v\<in>set (db_users db'). user_evolves u v)
     \<and> (\<forall>s\<in>set (db_sessions db). \<exists>t\<in>set (db_sessions db'). session_evolves s t)
     \<and> (\<exists>a. db_access_audit db' = db_access_audit db @ a) \<and> (\<exists>a. db_login_audit db' = db_login_audit db @ a)
     \<and> (\<exists>r. db_receipts db' = db_receipts db @ r)"

definition keeps :: "access_db \<Rightarrow> access_db \<Rightarrow> bool" where
  "keeps db db' \<longleftrightarrow> (rows_ok db \<longrightarrow> rows_ok db' \<and> evolves db db')"

lemma user_evolves_refl [simp]: "user_evolves u u"
  by (simp add: user_evolves_def)

lemma user_evolves_trans: "user_evolves u v \<Longrightarrow> user_evolves v w \<Longrightarrow> user_evolves u w"
  unfolding user_evolves_def by auto

lemma session_evolves_refl [simp]: "session_evolves s s"
  by (simp add: session_evolves_def)

lemma session_evolves_trans: "session_evolves s t \<Longrightarrow> session_evolves t w \<Longrightarrow> session_evolves s w"
  unfolding session_evolves_def by auto

lemma evolves_refl [simp]: "evolves db db"
  unfolding evolves_def by (auto intro: user_evolves_refl session_evolves_refl)

lemma db_evolves_trans: "evolves db db1 \<Longrightarrow> evolves db1 db2 \<Longrightarrow> evolves db db2"
proof -
  assume a: "evolves db db1" and b: "evolves db1 db2"
  have "\<exists>w\<in>set (db_users db2). user_evolves u w" if "u \<in> set (db_users db)" for u
    using a b that unfolding evolves_def by (meson user_evolves_trans)
  moreover have "\<exists>w\<in>set (db_sessions db2). session_evolves s w" if "s \<in> set (db_sessions db)" for s
    using a b that unfolding evolves_def by (meson session_evolves_trans)
  moreover have "\<exists>x. db_access_audit db2 = db_access_audit db @ x" "\<exists>x. db_login_audit db2 = db_login_audit db @ x"
    "\<exists>x. db_receipts db2 = db_receipts db @ x"
    using a b unfolding evolves_def by auto
  ultimately show ?thesis unfolding evolves_def by blast
qed

lemma access_keeps_refl [simp, intro]: "keeps db db"
  by (simp add: keeps_def)

lemma access_keeps_trans: "keeps db db1 \<Longrightarrow> keeps db1 db2 \<Longrightarrow> keeps db db2"
  unfolding keeps_def using db_evolves_trans by blast

section \<open>Statements\<close>

lemma user_by_Inr: "user_by P db = Inr u \<Longrightarrow> u \<in> set (db_users db) \<and> P u"
  by (auto simp: user_by_def split: option.splits dest: find_Some_pred)

lemma user_by_id_Inr: "user_by_id i db = Inr u \<Longrightarrow> u \<in> set (db_users db) \<and> u_id u = i"
  unfolding user_by_id_def by (rule user_by_Inr)

lemma user_by_id_unique:
  assumes "rows_ok db" "u \<in> set (db_users db)"
  shows "user_by_id (u_id u) db = Inr u"
proof -
  have "find (\<lambda>v. u_id v = u_id u) us = Some u" if "distinct (map u_id us)" "u \<in> set us" for us
    using that by (induction us) (auto simp: image_iff)
  with assms have "find (\<lambda>v. u_id v = u_id u) (db_users db) = Some u" by (simp add: rows_ok_def)
  then show ?thesis by (simp add: user_by_id_def user_by_def)
qed

lemma same_id: "rows_ok db \<Longrightarrow> u \<in> set (db_users db) \<Longrightarrow> v \<in> set (db_users db) \<Longrightarrow> u_id u = u_id v \<Longrightarrow> u = v"
  using user_by_id_unique by (metis Inr_inject)

lemma map_user_simps [simp]:
  "db_next_user (map_user i f db) = db_next_user db" "db_sessions (map_user i f db) = db_sessions db"
  "db_access_audit (map_user i f db) = db_access_audit db" "db_login_audit (map_user i f db) = db_login_audit db"
  "db_receipts (map_user i f db) = db_receipts db" "db_control (map_user i f db) = db_control db"
  "db_limits (map_user i f db) = db_limits db"
  by (simp_all add: map_user_def)

lemma keeps_map_user:
  assumes id: "\<And>u. u_id (f u) = u_id u"
    and row: "\<And>u. u \<in> set (db_users db) \<Longrightarrow> u_id u = i \<Longrightarrow> user_row_ok u \<Longrightarrow> user_evolves u (f u) \<and> user_row_ok (f u)"
  shows "keeps db (map_user i f db)"
  unfolding keeps_def
proof
  assume ok: "rows_ok db"
  have ids: "map u_id (db_users (map_user i f db)) = map u_id (db_users db)"
    by (simp add: map_user_def comp_def id)
  have users: "\<exists>v\<in>set (db_users (map_user i f db)). user_evolves u v" if "u \<in> set (db_users db)" for u
    using that ok row [of u] by (cases "u_id u = i") (force simp: map_user_def rows_ok_def)+
  have rows: "u_id v < db_next_user db \<and> user_row_ok v" if "v \<in> set (db_users (map_user i f db))" for v
    using that ok row by (auto simp: map_user_def rows_ok_def id split: if_splits)
  have "session_row_ok (map_user i f db) s" if "s \<in> set (db_sessions db)" for s
  proof -
    obtain u where u: "u \<in> set (db_users db)" "u_id u = s_admin_user_id s" "1 \<le> s_version s"
      "s_version s \<le> u_session_version u"
      using ok \<open>s \<in> _\<close> by (auto simp: rows_ok_def session_row_ok_def)
    with users [OF u(1)] show ?thesis
      by (fastforce simp: session_row_ok_def user_evolves_def)
  qed
  with ok ids rows have "rows_ok (map_user i f db)"
    unfolding rows_ok_def ids by simp
  moreover have "evolves db (map_user i f db)"
    unfolding evolves_def using users by (auto intro: session_evolves_refl)
  ultimately show "rows_ok (map_user i f db) \<and> evolves db (map_user i f db)" ..
qed

text \<open>A change of columns no session rests on.\<close>

lemma keeps_plain:
  assumes "\<And>u. u_id (f u) = u_id u" "\<And>u. u_username (f u) = u_username u"
    "\<And>u. u_session_version (f u) = u_session_version u" "\<And>u. secured (f u) = secured u"
  shows "keeps db (map_user i f db)"
  using assms
  by (intro keeps_map_user) (auto simp: user_evolves_def user_row_ok_def secured_def)

lemma keeps_fence:
  assumes "fence env u f db = Inr db'" "u \<in> set (db_users db)"
    and "\<And>v. u_id (f v) = u_id v" "\<And>v. u_username (f v) = u_username v" "\<And>v. u_session_version (f v) = u_session_version v"
    and "\<And>v. user_row_ok v \<Longrightarrow> v = u \<Longrightarrow> user_row_ok (f v)"
  shows "keeps db db'"
  unfolding keeps_def
proof
  assume ok: "rows_ok db"
  then have only: "v = u" if "v \<in> set (db_users db)" "u_id v = u_id u" for v
    using same_id assms(2) that by blast
  have version: "u_session_version u < max_int64"
    and db': "db' = map_user (u_id u) (\<lambda>v. (f v)\<lparr>u_session_version := u_session_version v + 1, u_updated_at := ae_now env\<rparr>) db"
    using assms(1) by (auto simp: fence_def simp del: max_int64_eq split: if_splits)
  have "keeps db db'"
    unfolding db'
  proof (rule keeps_map_user)
    fix v assume v: "v \<in> set (db_users db)" "u_id v = u_id u" "user_row_ok v"
    with only have "v = u" by blast
    with v(3) version assms(3-6) [of u]
    show "user_evolves v (f v\<lparr>u_session_version := u_session_version v + 1, u_updated_at := ae_now env\<rparr>)
        \<and> user_row_ok (f v\<lparr>u_session_version := u_session_version v + 1, u_updated_at := ae_now env\<rparr>)"
      by (auto simp: user_evolves_def user_row_ok_def)
  qed (use assms in auto)
  with ok show "rows_ok db' \<and> evolves db db'" by (simp add: keeps_def)
qed

text \<open>Statements that leave users and sessions alone.\<close>

lemma keeps_elsewhere:
  assumes "db_users db' = db_users db" "db_sessions db' = db_sessions db" "db_next_user db' = db_next_user db"
    and "\<exists>a. db_access_audit db' = db_access_audit db @ a" "\<exists>a. db_login_audit db' = db_login_audit db @ a"
    and "\<exists>r. db_receipts db' = db_receipts db @ r"
  shows "keeps db db'"
  using assms unfolding keeps_def rows_ok_def evolves_def session_row_ok_def
  by (auto intro: user_evolves_refl session_evolves_refl)

lemma keeps_append_login_audit: "append_login_audit a db = Inr db' \<Longrightarrow> keeps db db'"
  by (auto simp: append_login_audit_def intro!: keeps_elsewhere)

lemma keeps_append_access_audit: "append_access_audit a db = Inr db' \<Longrightarrow> keeps db db'"
  by (auto simp: append_access_audit_def intro!: keeps_elsewhere)

lemma keeps_reserve_governance: "reserve_governance_mutation i k a t d db = Inr (b, db') \<Longrightarrow> keeps db db'"
  by (auto simp: reserve_governance_mutation_def split: option.splits if_splits intro!: keeps_elsewhere)

lemma keeps_reserve_login_access: "reserve_login_access_request i k d db = Inr (b, db') \<Longrightarrow> keeps db db'"
  by (auto simp: reserve_login_access_request_def split: option.splits if_splits intro!: keeps_elsewhere)

lemma keeps_initialize_control: "initialize_super_admin_control i db = Inr db' \<Longrightarrow> keeps db db'"
  by (auto simp: initialize_super_admin_control_def split: option.splits if_splits intro!: keeps_elsewhere)

lemma keeps_set_control: "set_super_admin_control i db = Inr db' \<Longrightarrow> keeps db db'"
  by (auto simp: set_super_admin_control_def simp del: max_int64_eq split: option.splits prod.splits if_splits
      intro!: keeps_elsewhere)

lemma keeps_login_rate_limit: "login_rate_limit env k db = (l, db') \<Longrightarrow> keeps db db'"
  by (auto simp: login_rate_limit_def split: option.splits intro!: keeps_elsewhere)

lemma keeps_save_limit: "save_login_rate_limit l db = Inr db' \<Longrightarrow> keeps db db'"
  by (auto simp: save_login_rate_limit_def split: if_splits intro!: keeps_elsewhere)

text \<open>New rows.\<close>

lemma insert_roles_fresh:
  assumes "insert_roles us [] rs = Inr out"
  shows "out = rs" "length out \<le> 1" "set out \<subseteq> set role_codes"
    and "Super_Admin \<in> set out \<Longrightarrow> \<forall>u\<in>set us. Super_Admin \<notin> set (u_roles u)"
  using assms by (cases rs; cases "tl rs"; force split: if_splits)+

lemma insert_roles_row: "insert_roles us [] rs = Inr out \<Longrightarrow> length out \<le> 1 \<and> set out \<subseteq> set role_codes"
  using insert_roles_fresh by blast

lemma keeps_insert_user:
  assumes "insert_user env u db = Inr (v, db')" "u_login_enabled u \<longrightarrow> u_access_granted_at u \<noteq> None"
  shows "keeps db db'"
  unfolding keeps_def
proof
  assume ok: "rows_ok db"
  from assms obtain roles where roles: "insert_roles (db_users db) [] (u_roles u) = Inr roles"
    and v: "v = u\<lparr>u_id := db_next_user db, u_session_version := 1, u_last_login_at := None,
                 u_created_at := ae_db_now env, u_updated_at := ae_db_now env\<rparr>"
    and db': "db' = db\<lparr>db_users := db_users db @ [v], db_next_user := db_next_user db + 1\<rparr>"
    by (auto simp: insert_user_def and_then_eq_Inr Let_def)
  have row: "user_row_ok v"
    using insert_roles_fresh [OF roles] assms(2) ok by (auto simp: v user_row_ok_def rows_ok_def)
  have "session_row_ok db' s" if "s \<in> set (db_sessions db)" for s
    using ok that by (auto simp: rows_ok_def session_row_ok_def db')
  with ok row have "rows_ok db'" by (auto simp: rows_ok_def db' v)
  moreover have "evolves db db'"
    unfolding evolves_def by (auto simp: db' intro: user_evolves_refl session_evolves_refl)
  ultimately show "rows_ok db' \<and> evolves db db'" ..
qed

lemma keeps_create_user: "create_user env u db = Inr (v, db') \<Longrightarrow> keeps db db'"
  by (auto simp: create_user_def intro: keeps_insert_user)

lemma keeps_create_staff: "create_staff_projection env u db = Inr (v, db') \<Longrightarrow> keeps db db'"
  by (auto simp: create_staff_projection_def intro: keeps_insert_user)

lemma keeps_bootstrap_user: "bootstrap_user env u db = Inr (r, db') \<Longrightarrow> keeps db db'"
  by (auto simp: bootstrap_user_def and_then_eq_Inr split: sum.splits if_splits intro: keeps_create_user)

text \<open>Updates of users.\<close>

lemma keeps_set_login_enabled: "set_login_enabled env i b db = Inr db' \<Longrightarrow> keeps db db'"
proof -
  assume "set_login_enabled env i b db = Inr db'"
  then obtain u where u: "u \<in> set (db_users db)" "db = db' \<or> u_access_granted_at u \<noteq> None \<and>
      fence env u (\<lambda>v. v\<lparr>u_login_enabled := b, u_active := (if b \<and> u_legacy_reactivation v then True else u_active v),
                          u_legacy_reactivation := False\<rparr>) db = Inr db'"
    by (auto simp: set_login_enabled_def and_then_eq_Inr dest!: user_by_id_Inr split: if_splits)
  from u(2) show ?thesis
    by (elim disjE conjE keeps_fence [OF _ u(1)]) (auto simp: user_row_ok_def)
qed

lemma keeps_grant_access: "grant_access env i r n db = Inr db' \<Longrightarrow> keeps db db'"
  by (auto simp: grant_access_def and_then_eq_Inr user_row_ok_def Let_def elim!: keeps_fence
      dest!: user_by_id_Inr insert_roles_row)

lemma keeps_set_wecom: "set_wecom_user_id env i w db = Inr db' \<Longrightarrow> keeps db db'"
  by (auto simp: set_wecom_user_id_def and_then_eq_Inr user_row_ok_def Let_def elim!: keeps_fence
      dest!: user_by_id_Inr split: if_splits)

lemma keeps_replace_roles: "replace_roles env i rs db = Inr db' \<Longrightarrow> keeps db db'"
  by (auto simp: replace_roles_def and_then_eq_Inr user_row_ok_def elim!: keeps_fence
      dest!: user_by_id_Inr insert_roles_row)

lemma keeps_set_password: "set_password_hash env i h db = Inr db' \<Longrightarrow> keeps db db'"
  by (auto simp: set_password_hash_def and_then_eq_Inr user_row_ok_def Let_def elim!: keeps_fence dest!: user_by_id_Inr)

lemma keeps_set_last_login: "set_last_login env i db = Inr db' \<Longrightarrow> keeps db db'"
  by (auto simp: set_last_login_def and_then_eq_Inr secured_def intro!: keeps_plain)

lemma keeps_set_display_name: "set_staff_display_name env i w n db = Inr db' \<Longrightarrow> keeps db db'"
  by (auto simp: set_staff_display_name_def Let_def secured_def split: option.splits if_splits intro!: keeps_plain)

text \<open>Sessions.\<close>

lemma keeps_create_session:
  assumes "create_session env s db = Inr db'"
    and "\<forall>u\<in>set (db_users db). u_id u = s_admin_user_id s \<longrightarrow> s_version s \<le> u_session_version u"
  shows "keeps db db'"
  unfolding keeps_def
proof
  assume ok: "rows_ok db"
  from assms(1) obtain u where u: "u \<in> set (db_users db)" "u_id u = s_admin_user_id s"
    and new: "\<forall>t\<in>set (db_sessions db). s_token_digest t \<noteq> s_token_digest s" and version: "1 \<le> s_version s"
    and db': "db' = db\<lparr>db_sessions := db_sessions db @ [s\<lparr>s_id := db_next_session db, s_revoked_at := None,
        s_revoked_reason := [], s_created_at := ae_db_now env, s_last_seen_at := ae_db_now env\<rparr>],
        db_next_session := db_next_session db + 1\<rparr>"
    by (auto simp: create_session_def Let_def split: if_splits)
  have "rows_ok db'"
    using ok u new version assms(2) by (auto simp: rows_ok_def session_row_ok_def db')
  moreover have "evolves db db'"
    unfolding evolves_def by (auto simp: db' intro: user_evolves_refl session_evolves_refl)
  ultimately show "rows_ok db' \<and> evolves db db'" ..
qed

lemma keeps_map_sessions:
  assumes "\<And>s. session_evolves s (f s)"
  shows "keeps db (map_sessions P f db)"
proof -
  have same: "s_token_digest (f s) = s_token_digest s" "s_admin_user_id (f s) = s_admin_user_id s"
    "s_version (f s) = s_version s" for s
    using assms [of s] by (auto simp: session_evolves_def)
  have "map s_token_digest (db_sessions (map_sessions P f db)) = map s_token_digest (db_sessions db)"
    by (simp add: map_sessions_def comp_def if_distrib [of s_token_digest] same)
  moreover have "session_row_ok (map_sessions P f db) t" if "rows_ok db" "t \<in> set (db_sessions (map_sessions P f db))" for t
    using that by (auto simp: rows_ok_def map_sessions_def session_row_ok_def same)
  moreover have "db_users (map_sessions P f db) = db_users db" "db_next_user (map_sessions P f db) = db_next_user db"
    by (simp_all add: map_sessions_def)
  ultimately have "rows_ok db \<Longrightarrow> rows_ok (map_sessions P f db)"
    unfolding rows_ok_def by simp
  moreover have "\<exists>t\<in>set (db_sessions (map_sessions P f db)). session_evolves s t" if "s \<in> set (db_sessions db)" for s
    using that assms [of s] by (intro bexI [of _ "if P s then f s else s"]) (auto simp: map_sessions_def)
  then have "evolves db (map_sessions P f db)"
    unfolding evolves_def by (auto simp: map_sessions_def intro: user_evolves_refl)
  ultimately show ?thesis by (simp add: keeps_def)
qed

lemma keeps_touch: "keeps db (touch_session env i db)"
  unfolding touch_session_def by (rule keeps_map_sessions) (simp add: session_evolves_def)

lemma keeps_revoke: "keeps db (revoke_session env d r db)"
  unfolding revoke_session_def by (rule keeps_map_sessions) (auto simp: session_evolves_def split: option.split)

lemmas keeps_statements =
  keeps_append_login_audit keeps_append_access_audit keeps_reserve_governance keeps_reserve_login_access
  keeps_initialize_control keeps_set_control keeps_login_rate_limit keeps_save_limit keeps_create_user
  keeps_create_staff keeps_bootstrap_user keeps_set_login_enabled keeps_grant_access keeps_set_wecom
  keeps_replace_roles keeps_set_password keeps_set_last_login keeps_set_display_name

section \<open>Commands\<close>

lemma case_sum_eq_Inr [simp]:
  "(case r of Inl e \<Rightarrow> Inl (f e) | Inr x \<Rightarrow> g x) = Inr y \<longleftrightarrow> (\<exists>x. r = Inr x \<and> g x = Inr y)"
  by (cases r) auto

lemma within_Inr: "within f db = Inr (x, db') \<longleftrightarrow> f db = Inr (x, db') \<and> control_ok db'"
  by (auto simp: within_def and_then_eq_Inr)

lemma keeps_within: "(\<And>db x db'. f db = Inr (x, db') \<Longrightarrow> keeps db db') \<Longrightarrow> within f db = Inr (x, db') \<Longrightarrow> keeps db db'"
  by (simp add: within_Inr)

lemma keeps_answered:
  "(\<And>db x db'. f db = Inr (x, db') \<Longrightarrow> keeps db db') \<Longrightarrow> keeps db (snd (answered db (within f db)))"
  by (auto simp: answered_def within_Inr split: sum.split)

lemma keeps_refuse: "refuse env e u i r out why db = Inr (x, db') \<Longrightarrow> keeps db db'"
  by (auto simp: refuse_def audit_login_def and_then_eq_Inr intro: keeps_statements)

lemma keeps_audit_access: "audit_access env a t act ds db = Inr db' \<Longrightarrow> keeps db db'"
  unfolding audit_access_def by (rule keeps_append_access_audit)

lemma keeps_issue_session:
  assumes "issue_session cfg env r1 r2 u i r why db = Inr (x, db')" "u \<in> set (db_users db)"
  shows "keeps db db'"
proof -
  obtain s db1 db2 where s: "create_session env s db = Inr db1" "s_admin_user_id s = u_id u" "s_version s = u_session_version u"
    and rest: "set_last_login env (u_id u) db1 = Inr db2"
      "audit_login env (Some (u_id u)) i r ''succeeded'' why db2 = Inr db'"
    using assms(1) by (auto simp: issue_session_def issue_opaque_def Let_def and_then_eq_Inr)
  have "keeps db db1"
    unfolding keeps_def using keeps_create_session [OF s(1)] s(2,3) same_id [OF _ _ assms(2)]
    by (auto simp: keeps_def)
  with rest show ?thesis
    unfolding audit_login_def by (meson access_keeps_trans keeps_statements)
qed

lemma users_unlimited:
  "login_rate_limit env k db = (l, db') \<Longrightarrow> db_users db' = db_users db"
  "save_login_rate_limit l db = Inr db' \<Longrightarrow> db_users db' = db_users db"
  by (auto simp: login_rate_limit_def save_login_rate_limit_def split: option.splits if_splits)

lemma keeps_failed_login: "failed_login cfg env n f i r l db = Inr (x, db') \<Longrightarrow> keeps db db'"
  by (cases f; cases "is_ok n") (auto simp: failed_login_def and_then_eq_Inr Let_def split: if_splits
      intro: access_keeps_trans [OF keeps_save_limit keeps_refuse])

lemma keeps_save_issue:
  assumes "save_login_rate_limit l db = Inr db1" "issue_session cfg env r1 r2 u i r why db1 = Inr (x, db')"
    "u \<in> set (db_users db)"
  shows "keeps db db'"
  using assms users_unlimited(2) [OF assms(1)] by (metis access_keeps_trans keeps_save_limit keeps_issue_session)

lemma keeps_login_within: "login_within cfg env c db = Inr (x, db') \<Longrightarrow> keeps db db'"
proof -
  assume a: "login_within cfg env c db = Inr (x, db')"
  obtain l db0 where l: "login_rate_limit env (rate_key env c) db = (l, db0)" by fastforce
  have "keeps db0 db'"
    using a l unfolding login_within_def user_by_username_def
    by (auto simp: Let_def and_then_eq_Inr split: sum.splits if_splits dest!: user_by_Inr dest: users_unlimited
        intro: keeps_refuse keeps_failed_login keeps_save_issue)
  with l show ?thesis by (blast intro: access_keeps_trans keeps_login_rate_limit)
qed

lemma keeps_login: "keeps db (snd (login cfg env c db))"
  unfolding login_def by (rule keeps_answered) (rule keeps_login_within)

lemma keeps_wecom_login: "keeps db (snd (wecom_login cfg env c db))"
  unfolding wecom_login_def user_by_wecom_user_id_def wecom_login_within_def
  by (rule keeps_answered)
    (auto simp: Let_def and_then_eq_Inr split: sum.splits if_splits dest!: user_by_Inr
      intro: keeps_refuse keeps_issue_session)

lemma keeps_authenticate: "keeps db (snd (authenticate env t db))"
  unfolding authenticate_def
  by (auto split: sum.splits prod.splits if_splits intro!: keeps_answered keeps_touch)

lemma keeps_authorize_csrf: "keeps db (snd (authorize_csrf env t c r db))"
  unfolding authorize_csrf_def by (auto split: sum.splits prod.splits if_splits intro!: keeps_answered)

lemma keeps_logout: "keeps db (snd (logout env t c r db))"
proof (cases "authorize_csrf env t c r db")
  case (Pair a db1)
  then have "keeps db db1" using keeps_authorize_csrf [of db env t c r] by simp
  moreover have "keeps db1 (snd (answered db1 (within (\<lambda>db. Inr (Inr (), revoke_session env d w db)) db1) :: (access_error + unit) \<times> access_db))" for d w
    by (rule keeps_answered) (auto intro: keeps_revoke)
  ultimately show ?thesis
    using Pair by (auto simp: logout_def split: sum.split intro: access_keeps_trans)
qed

text \<open>Governed commands: a reservation, then the change and its audit.\<close>

lemma keeps_target_within:
  assumes "governance_target_within p t k a d f db = Inr (x, db')"
    and "\<And>r u q db db'. f r u q db = Inr db' \<Longrightarrow> keeps db db'"
  shows "keeps db db'"
  using assms by (auto simp: governance_target_within_def and_then_eq_Inr split: if_splits
      intro: access_keeps_trans keeps_reserve_governance)

lemma keeps_governance_target:
  assumes "with_governance_target p t k a d f db = Inr (x, db')"
    and "\<And>r u q db db'. f r u q db = Inr db' \<Longrightarrow> keeps db db'"
  shows "keeps db db'"
  using assms(1) keeps_target_within [OF _ assms(2)]
  by (auto simp: with_governance_target_def within_Inr split: if_splits)

lemma keeps_changes:
  "login_change env p li r u q db = Inr db' \<Longrightarrow> keeps db db'"
  "role_change env p ri r u q db = Inr db' \<Longrightarrow> keeps db db'"
  "bind_change env p w r u q db = Inr db' \<Longrightarrow> keeps db db'"
  "password_change env p h r u q db = Inr db' \<Longrightarrow> keeps db db'"
  by (auto simp: login_change_def role_change_def bind_change_def password_change_def and_then_eq_Inr split: if_splits
      intro: access_keeps_trans keeps_statements keeps_audit_access)

lemma keeps_transfer_within: "transfer_within g env p i db = Inr (x, db') \<Longrightarrow> keeps db db'"
  by (auto simp: transfer_within_def transfer_write_def and_then_eq_Inr split: if_splits
      dest!: keeps_statements keeps_audit_access) (meson access_keeps_trans)

lemma keeps_provision_within: "provision_within g env p i e h db = Inr (x, db') \<Longrightarrow> keeps db db'"
proof -
  assume "provision_within g env p i e h db = Inr (x, db')"
  then obtain b db1 where r: "reserve_governance_mutation (p_internal_id p) (pi_key i) (provision_action (pi_role i))
      (p_internal_id p) (governance_digest g [''provision'', em_userid e, role_string (pi_role i)]) db = Inr (b, db1)"
    and rest: "db' = db1 \<or> (\<exists>u. grant_existing env p (pi_role i) e u db1 = Inr (x, db'))
      \<or> provision_new env p (pi_role i) e h db1 = Inr (x, db')"
    by (auto simp: provision_within_def and_then_eq_Inr split: if_splits sum.splits)
  from rest have "keeps db1 db'"
    by (auto simp: grant_existing_def provision_new_def and_then_eq_Inr dest!: keeps_statements keeps_audit_access
        intro: access_keeps_trans)
  with keeps_reserve_governance [OF r] show ?thesis by (rule access_keeps_trans)
qed

lemmas governance_commands =
  set_governance_login_enabled_def set_governance_role_def bind_governance_wecom_user_id_def
  reset_governance_password_def transfer_governance_super_admin_def provision_enterprise_employee_def

lemma keeps_governance:
  "set_governance_login_enabled g env p li db = Inr (x, db') \<Longrightarrow> keeps db db'"
  "set_governance_role g env p ri db = Inr (x, db') \<Longrightarrow> keeps db db'"
  "bind_governance_wecom_user_id g env p bi db = Inr (x, db') \<Longrightarrow> keeps db db'"
  "reset_governance_password g env p pw db = Inr (x, db') \<Longrightarrow> keeps db db'"
  "transfer_governance_super_admin g env p ti db = Inr (x, db') \<Longrightarrow> keeps db db'"
  "provision_enterprise_employee g env p pi db = Inr (y, db') \<Longrightarrow> keeps db db'"
  by (auto simp: governance_commands and_then_eq_Inr within_Inr split: if_splits
      elim!: keeps_governance_target intro: keeps_changes keeps_transfer_within keeps_provision_within)

text \<open>The other commands.\<close>

lemma keeps_management:
  "bootstrap env bo db = Inr (b, db') \<Longrightarrow> keeps db db'"
  "add_user env p au db = Inr (u, db') \<Longrightarrow> keeps db db'"
  "disable_user env p t db = Inr (x, db') \<Longrightarrow> keeps db db'"
  "bind_wecom_user_id env p t w db = Inr (x, db') \<Longrightarrow> keeps db db'"
  "change_roles env p t rs db = Inr (x, db') \<Longrightarrow> keeps db db'"
  "reset_password env p t s db = Inr (x, db') \<Longrightarrow> keeps db db'"
  by (auto simp: bootstrap_def add_user_def disable_user_def bind_wecom_user_id_def change_roles_def reset_password_def
      and_then_eq_Inr within_Inr Let_def split: sum.splits if_splits
      dest!: keeps_statements keeps_audit_access intro: access_keeps_trans)

lemma keeps_write_changes: "write_changes env p r cs db = Inr db' \<Longrightarrow> keeps db db'"
proof (induction env p r cs db rule: write_changes.induct)
  case (2 env p r c u cs db)
  from "2.prems" obtain needed where n: "change_needed r c u = Inr needed"
    by (simp only: write_changes.simps and_then_eq_Inr) blast
  show ?case
  proof (cases needed)
    case True
    with "2.prems" n obtain db1 db2 where w: "set_login_enabled env (u_id u) (lx_enabled c) db = Inr db1"
      "audit_access env (p_internal_id p) (u_id u) ''set_login_enabled'' [(''login_enabled'', Json_Bool (lx_enabled c))] db1
        = Inr db2"
      "write_changes env p r cs db2 = Inr db'"
      by (simp only: write_changes.simps and_then_simps and_then_eq_Inr not_True_eq_False if_False) blast
    have "keeps db2 db'" using True by (intro "2.IH"(2) [OF n _ w(1,2,3)]) simp
    with w(1,2) show ?thesis
      by (blast intro: access_keeps_trans keeps_set_login_enabled keeps_audit_access)
  next
    case False
    with "2.prems" n "2.IH"(1) [OF n] show ?thesis by simp
  qed
qed simp

lemma keeps_set_login_access: "set_login_access env p k cs db = Inr (x, db') \<Longrightarrow> keeps db db'"
  by (auto simp: set_login_access_def set_login_access_within_def and_then_eq_Inr within_Inr split: option.splits if_splits
      dest!: keeps_reserve_login_access keeps_write_changes intro: access_keeps_trans)

lemma keeps_refresh_names: "refresh_names env p ns us db = Inr db' \<Longrightarrow> keeps db db'"
proof (induction us arbitrary: db)
  case (Cons u us)
  let ?name = "case ns (u_wecom_userid u) of None \<Rightarrow> [] | Some n \<Rightarrow> n"
  show ?case
  proof (cases "?name = [] \<or> ?name = u_display_name u")
    case True
    with Cons show ?thesis by (simp add: Let_def)
  next
    case False
    with Cons.prems obtain db1 db2 where "set_staff_display_name env (u_id u) (u_wecom_userid u) ?name db = Inr db1"
      "audit_access env (p_internal_id p) (u_id u) ''refresh_staff_name'' [] db1 = Inr db2"
      "refresh_names env p ns us db2 = Inr db'"
      by (simp only: refresh_names.simps Let_def and_then_eq_Inr if_False) blast
    with Cons.IH [of db2] show ?thesis
      by (blast intro: access_keeps_trans keeps_set_display_name keeps_audit_access)
  qed
qed simp

lemma keeps_refresh_staff_names: "refresh_staff_names env p d db = Inr (x, db') \<Longrightarrow> keeps db db'"
  by (auto simp: refresh_staff_names_def and_then_eq_Inr within_Inr split: option.splits dest!: keeps_refresh_names)

lemma keeps_project_staff: "project_staff env h a items res db = Inr (x, db') \<Longrightarrow> keeps db db'"
proof (induction items arbitrary: res db)
  case (Cons i items)
  show ?case
  proof (cases "user_by_wecom_user_id (sp_wecom_userid i) db")
    case (Inr u)
    with Cons.prems show ?thesis by (simp only: project_staff.simps sum.case) (rule Cons.IH)
  next
    case (Inl e)
    then obtain v u db1 res1 where "create_staff_projection env v db = Inr (u, db1)"
      "project_staff env h a items res1 db1 = Inr (x, db')"
      using Cons.prems
      by (simp only: project_staff.simps sum.case and_then_eq_Inr) (elim exE conjE, simp only: case_prod_beta
          split: option.split_asm, metis prod.collapse, simp)
    then show ?thesis using Cons.IH by (blast intro: access_keeps_trans keeps_create_staff)
  qed
qed simp

lemma keeps_project_wecom_staff: "project_wecom_staff env k h a items db = Inr (x, db') \<Longrightarrow> keeps db db'"
  by (auto simp: project_wecom_staff_def and_then_eq_Inr split: if_splits dest!: keeps_project_staff)

lemma keeps_allow: "keeps db (snd (allow cfg env n v m db))"
proof -
  have "keeps db0 db'" if "(\<lambda>db. let (stored, db1) = login_rate_limit env k db;
       (passes, written) = limiter_decision cfg env m stored; answer = (if passes then Inr () else Inl Login_Rate_Limited)
     in case written of None \<Rightarrow> Inr (answer, db1) | Some l \<Rightarrow> and_then (save_login_rate_limit l db1) (\<lambda>db2. Inr (answer, db2))) db0
     = Inr (x, db')" for k db0 x db'
    using that by (auto simp: Let_def and_then_eq_Inr split: prod.splits option.splits
        dest!: keeps_login_rate_limit keeps_save_limit intro: access_keeps_trans)
  then show ?thesis unfolding allow_def by (auto intro!: keeps_answered)
qed

section \<open>The system\<close>

text \<open>One committed command of any of the services, with any configuration, clock and caller.\<close>

inductive access_step :: "access_db \<Rightarrow> access_db \<Rightarrow> bool" where
  sign_in: "access_step db (snd (login cfg env c db))"
| sign_in_wecom: "access_step db (snd (wecom_login cfg env w db))"
| request: "access_step db (snd (authenticate env t db))"
| form: "access_step db (snd (authorize_csrf env t c1 r1 db))"
| sign_out: "access_step db (snd (logout env t c1 r1 db))"
| first_account: "bootstrap env bo db = Inr (b, db') \<Longrightarrow> access_step db db'"
| account: "add_user env p au db = Inr (u, db') \<Longrightarrow> access_step db db'"
| disabling: "disable_user env p i db = Inr (x, db') \<Longrightarrow> access_step db db'"
| binding: "bind_wecom_user_id env p i s db = Inr (x, db') \<Longrightarrow> access_step db db'"
| roles: "change_roles env p i rs db = Inr (x, db') \<Longrightarrow> access_step db db'"
| password: "reset_password env p i s db = Inr (x, db') \<Longrightarrow> access_step db db'"
| bulk: "set_login_access env p k cs db = Inr (us, db') \<Longrightarrow> access_step db db'"
| names: "refresh_staff_names env p ns db = Inr (x, db') \<Longrightarrow> access_step db db'"
| staff: "within (project_wecom_staff env k h a items) db = Inr (y, db') \<Longrightarrow> access_step db db'"
| limiter: "access_step db (snd (allow lim env n s m db))"
| provision: "provision_enterprise_employee g env p pi db = Inr (u, db') \<Longrightarrow> access_step db db'"
| govern_login: "set_governance_login_enabled g env p li db = Inr (x, db') \<Longrightarrow> access_step db db'"
| govern_role: "set_governance_role g env p ri db = Inr (x, db') \<Longrightarrow> access_step db db'"
| govern_bind: "bind_governance_wecom_user_id g env p bi db = Inr (x, db') \<Longrightarrow> access_step db db'"
| govern_password: "reset_governance_password g env p pw db = Inr (x, db') \<Longrightarrow> access_step db db'"
| transfer: "transfer_governance_super_admin g env p ti db = Inr (x, db') \<Longrightarrow> access_step db db'"

inductive reachable_access :: "access_db \<Rightarrow> bool" where
  start: "reachable_access empty_access_db"
| step: "reachable_access db \<Longrightarrow> access_step db db' \<Longrightarrow> reachable_access db'"

lemma access_step_keeps: "access_step db db' \<Longrightarrow> keeps db db'"
proof (induction rule: access_step.induct)
  case (staff env k h a items db y db')
  then show ?case by (auto simp: within_Inr intro: keeps_project_wecom_staff)
qed (auto intro: keeps_login keeps_wecom_login keeps_authenticate keeps_authorize_csrf keeps_logout keeps_management
    keeps_set_login_access keeps_refresh_staff_names keeps_allow keeps_governance)

lemma reachable_rows: "reachable_access db \<Longrightarrow> rows_ok db"
proof (induction rule: reachable_access.induct)
  case start
  show ?case by (simp add: rows_ok_def empty_access_db_def)
next
  case (step db db')
  then show ?case using access_step_keeps by (auto simp: keeps_def)
qed

lemma steps_evolve: "access_step\<^sup>*\<^sup>* db db' \<Longrightarrow> rows_ok db \<Longrightarrow> rows_ok db' \<and> evolves db db'"
proof (induction rule: rtranclp_induct)
  case (step x y)
  then show ?case using access_step_keeps [OF step.hyps(2)] by (auto simp: keeps_def intro: db_evolves_trans)
qed simp

end
