(* ===== verification/Fencing.thy ===== *)
theory Fencing
  imports Prelude
begin

text \<open>
  The contract behind a credential that names a version: a row carries a version, the version
  never falls, and it rises whenever what the credential vouches for changes. Then a credential
  whose version is still current vouches for what was true when it was issued
  (\<open>current_version_vouches\<close>), and one change makes every older credential stale for good
  (\<open>stale_for_good\<close>). The access database interprets it for accounts and their sessions.
\<close>

locale fencing =
  fixes step :: "'s \<Rightarrow> 's \<Rightarrow> bool"
    and inv :: "'s \<Rightarrow> bool"
    and row :: "'s \<Rightarrow> 'k \<Rightarrow> 'r option"
    and version :: "'r \<Rightarrow> int64"
    and facts :: "'r \<Rightarrow> 'x"
  assumes step_inv: "inv s \<Longrightarrow> step s t \<Longrightarrow> inv t"
    and step_row: "inv s \<Longrightarrow> step s t \<Longrightarrow> row s k = Some r \<Longrightarrow>
      \<exists>q. row t k = Some q \<and> version r \<le> version q \<and> (facts q = facts r \<or> version r < version q)"
begin

lemma steps_inv: "step\<^sup>*\<^sup>* s t \<Longrightarrow> inv s \<Longrightarrow> inv t"
  by (induction rule: rtranclp_induct) (auto intro: step_inv)

lemma steps_row:
  assumes "step\<^sup>*\<^sup>* s t" "inv s" "row s k = Some r"
  shows "\<exists>q. row t k = Some q \<and> version r \<le> version q \<and> (facts q = facts r \<or> version r < version q)"
  using assms(1)
proof (induction rule: rtranclp_induct)
  case (step t u)
  then obtain q where q: "row t k = Some q" "version r \<le> version q" "facts q = facts r \<or> version r < version q" by blast
  obtain w where "row u k = Some w" "version q \<le> version w" "facts w = facts q \<or> version q < version w"
    using step_row [OF steps_inv [OF step.hyps(1) assms(2)] step.hyps(2) q(1)] by blast
  with q show ?case by auto
qed (use assms in auto)

lemma current_version_vouches:
  assumes "step\<^sup>*\<^sup>* s t" "inv s" "row s k = Some r" "row t k = Some q" "version q = version r"
  shows "facts q = facts r"
  using steps_row [OF assms(1-3)] assms(4,5) by auto

lemma stale_for_good:
  assumes "step s t" "step\<^sup>*\<^sup>* t u" "inv s" "row s k = Some r" "row t k = Some q" "facts q \<noteq> facts r" "row u k = Some w"
  shows "version r < version w"
proof -
  have "version r < version q" using step_row [OF assms(3,1,4)] assms(5,6) by auto
  moreover have "version q \<le> version w"
    using steps_row [OF assms(2) step_inv [OF assms(3,1)] assms(5)] assms(7) by auto
  ultimately show ?thesis by simp
qed

end

end
