(* ===== verification/Access_Properties.thy ===== *)
theory Access_Properties
  imports Access_System Fencing
begin

text \<open>
  Sessions. The contract of versioned credentials (\<open>Fencing\<close>) holds of the accounts under every
  command of the access services, so a session vouches for the account as it was at the
  sign-in that issued it. The last section builds the example database the witnesses use.
\<close>

section \<open>Sessions\<close>

definition account :: "access_db \<Rightarrow> int64 \<Rightarrow> user option" where
  "account db i = find (\<lambda>u. u_id u = i) (db_users db)"

lemma account_user_by_id: "user_by_id i db = (case account db i of None \<Rightarrow> Inl Access_Not_Found | Some u \<Rightarrow> Inr u)"
  by (simp add: user_by_id_def user_by_def account_def)

lemma account_Some: "account db i = Some u \<Longrightarrow> u \<in> set (db_users db) \<and> u_id u = i"
  unfolding account_def by (auto dest: find_Some_pred)

lemma account_unique: "rows_ok db \<Longrightarrow> u \<in> set (db_users db) \<Longrightarrow> account db (u_id u) = Some u"
  using user_by_id_unique [of db u] by (simp add: account_user_by_id split: option.splits)

interpretation accounts: fencing access_step rows_ok account u_session_version secured
proof unfold_locales
  fix db db' i u
  assume a: "rows_ok db" "access_step db db'"
  then have k: "rows_ok db' \<and> evolves db db'" using access_step_keeps by (auto simp: keeps_def)
  then show "rows_ok db'" ..
  assume u: "account db i = Some u"
  then obtain v where v: "v \<in> set (db_users db')" "user_evolves u v"
    using k unfolding evolves_def by (meson account_Some)
  then have "account db' i = Some v"
    using account_unique [of db' v] account_Some [OF u] k by (auto simp: user_evolves_def)
  with v(2) show "\<exists>q. account db' i = Some q \<and> u_session_version u \<le> u_session_version q
      \<and> (secured q = secured u \<or> u_session_version u < u_session_version q)"
    by (auto simp: user_evolves_def)
qed

definition session_for :: "access_db \<Rightarrow> string \<Rightarrow> session option" where
  "session_for db token = find (\<lambda>s. s_token_digest s = credential_digest token) (db_sessions db)"

lemma session_unique:
  assumes "rows_ok db" "s \<in> set (db_sessions db)" "s_token_digest s = credential_digest token"
  shows "session_for db token = Some s"
proof -
  have "find (\<lambda>t. s_token_digest t = credential_digest token) ss = Some s"
    if "distinct (map s_token_digest ss)" "s \<in> set ss" for ss
    using that assms(3) by (induction ss) (auto simp: image_iff)
  with assms(1,2) show ?thesis by (simp add: session_for_def rows_ok_def)
qed

lemma session_persists:
  assumes "rows_ok db" "access_step\<^sup>*\<^sup>* db db'" "session_for db token = Some s"
  obtains t where "session_for db' token = Some t" "session_evolves s t"
proof -
  have s: "s \<in> set (db_sessions db)" "s_token_digest s = credential_digest token"
    using assms(3) by (auto simp: session_for_def dest: find_Some_pred)
  have k: "rows_ok db' \<and> evolves db db'" using steps_evolve [OF assms(2,1)] .
  then obtain t where t: "t \<in> set (db_sessions db')" "session_evolves s t"
    using s(1) unfolding evolves_def by blast
  with s(2) k show ?thesis by (intro that [of t] session_unique) (auto simp: session_evolves_def)
qed

text \<open>Both uses of a session accept it only when it is usable.\<close>

definition accepts :: "access_env \<Rightarrow> string \<Rightarrow> access_db \<Rightarrow> principal \<Rightarrow> bool" where
  "accepts env token db p \<longleftrightarrow>
     fst (authenticate env token db) = Inr p \<or> (\<exists>cookie request. fst (authorize_csrf env token cookie request db) = Inr p)"

lemma accepted_session:
  assumes "accepts env token db p"
  obtains s u where "session_for db token = Some s" "account db (s_admin_user_id s) = Some u" "session_usable env s u"
    "p = principal_of s u"
  using assms unfolding accepts_def authenticate_def authorize_csrf_def session_by_token_digest_def
    session_for_def [symmetric]
  by (auto simp: answered_def within_Inr account_user_by_id and_then_eq_Inr split: if_splits sum.splits option.splits)

text \<open>What a sign-in leaves behind.\<close>

definition issued_for :: "access_db \<Rightarrow> issued_session \<Rightarrow> user \<Rightarrow> bool" where
  "issued_for db i u \<longleftrightarrow>
     (\<exists>s v. session_for db (is_session_token i) = Some s \<and> s_admin_user_id s = u_id u \<and> s_version s = u_session_version u
        \<and> s_expires_at s = is_expires_at i \<and> account db (u_id u) = Some v \<and> secured v = secured u
        \<and> u_session_version v = u_session_version u)"

lemma issue_session_issues:
  assumes "issue_session cfg env r1 r2 u i r why db = Inr (x, db')" "rows_ok db" "u \<in> set (db_users db)"
  shows "issued_for db' x u"
proof -
  obtain s db1 where s: "create_session env s db = Inr db1" "s_admin_user_id s = u_id u" "s_version s = u_session_version u"
      "s_token_digest s = credential_digest (is_session_token x)" "s_expires_at s = is_expires_at x"
    and sessions: "db_sessions db' = db_sessions db1"
    and users: "db_users db' = map (\<lambda>v. if u_id v = u_id u
      then v\<lparr>u_last_login_at := Some (ae_now env), u_updated_at := ae_now env\<rparr> else v) (db_users db1)"
    using assms(1) by (auto simp: issue_session_def issue_opaque_def Let_def and_then_eq_Inr audit_login_def
        append_login_audit_def set_last_login_def map_user_def split: if_splits)
  have ok: "rows_ok db'" using keeps_issue_session [OF assms(1,3)] assms(2) by (auto simp: keeps_def)
  define t where "t = s\<lparr>s_id := db_next_session db, s_revoked_at := None, s_revoked_reason := [],
      s_created_at := ae_db_now env, s_last_seen_at := ae_db_now env\<rparr>"
  have "db1 = db\<lparr>db_sessions := db_sessions db @ [t], db_next_session := db_next_session db + 1\<rparr>"
    using s(1) by (auto simp: create_session_def Let_def t_def split: if_splits)
  then have t: "t \<in> set (db_sessions db1)" "s_token_digest t = s_token_digest s" "s_admin_user_id t = u_id u"
    "s_version t = u_session_version u" "s_expires_at t = s_expires_at s" and same: "db_users db1 = db_users db"
    using s by (simp_all add: t_def)
  let ?v = "u\<lparr>u_last_login_at := Some (ae_now env), u_updated_at := ae_now env\<rparr>"
  have "?v \<in> set (db_users db')"
    using assms(3) unfolding users same by (auto intro!: image_eqI [of _ _ u])
  then have "account db' (u_id u) = Some ?v" using account_unique [OF ok, of ?v] by simp
  moreover have "session_for db' (is_session_token x) = Some t"
    using t(1,2) s(4) sessions by (intro session_unique [OF ok]) auto
  ultimately show ?thesis
    using t s(5) unfolding issued_for_def by (auto simp: secured_def)
qed

lemma rows_ok_users: "keeps db db' \<Longrightarrow> rows_ok db \<Longrightarrow> rows_ok db'"
  by (simp add: keeps_def)

lemma login_issues:
  assumes "login cfg env c db = (Inr i, db')" "rows_ok db"
  obtains u where "u \<in> set (db_users db)" "ae_verify env (lg_password c) (u_password_hash u)" "may_sign_in u"
    "issued_for db' i u"
proof -
  obtain l db0 where l: "login_rate_limit env (rate_key env c) db = (l, db0)" by fastforce
  have login: "login_within cfg env c db = Inr (Inr i, db')"
    using assms(1) by (auto simp: login_def answered_def within_Inr split: sum.splits prod.splits)
  have never: "refuse env e u ii r out why d \<noteq> Inr (Inr i, db')" for e u ii r out why d
    by (auto simp: refuse_def and_then_eq_Inr)
  then have failed: "failed_login cfg env n f ii r l d \<noteq> Inr (Inr i, db')" for n f ii r l d
    by (auto simp: failed_login_def and_then_eq_Inr Let_def split: sum.splits if_splits)
  obtain u db1 ii r where u: "user_by_username (lookup_username (normalize_username (ae_unicode_lower env)
        (candidate_username env c))) db0 = Inr u" "ae_verify env (lg_password c) (u_password_hash u)" "may_sign_in u"
    and save: "save_login_rate_limit (clear_limit env (current_limit cfg env l)) db0 = Inr db1"
    and issue: "issue_session cfg env (lg_session_random c) (lg_csrf_random c) u ii r ''local_password'' db1 = Inr (i, db')"
    using login l never failed unfolding login_within_def
    by (auto simp: Let_def and_then_eq_Inr split: sum.splits if_splits)
  have same: "db_users db0 = db_users db" "db_users db1 = db_users db0"
    using users_unlimited l save by auto
  have "u \<in> set (db_users db)"
    using u(1) same unfolding user_by_username_def by (auto dest: user_by_Inr)
  moreover have "rows_ok db1"
    using assms(2) keeps_login_rate_limit [OF l] keeps_save_limit [OF save] by (blast intro: rows_ok_users)
  ultimately show ?thesis
    using that u issue_session_issues [OF issue] same by auto
qed

text \<open>
  C1: A session vouches for the account as it was at sign-in. Whatever commands run between a
  sign-in with a password and a request that is accepted with its token, the account still has
  the password hash, the roles, the WeCom binding, the availability, the login switch and the
  grant it had then: every change of one of them ends all earlier sessions. The accepted
  principal has the roles the account had, the password was verified against that hash, and the
  session has not expired.
\<close>

theorem session_vouches:
  assumes "reachable_access db" "login cfg env c db = (Inr i, db1)" "access_step\<^sup>*\<^sup>* db1 db2"
    and "accepts env2 (is_session_token i) db2 p"
  shows "\<exists>u\<in>set (db_users db). \<exists>v\<in>set (db_users db2).
      u_id v = u_id u \<and> secured v = secured u \<and> p_internal_id p = u_id u \<and> p_roles p = u_roles u
      \<and> ae_verify env (lg_password c) (u_password_hash u) \<and> may_sign_in u \<and> ae_now env2 < is_expires_at i"
proof -
  have ok: "rows_ok db" using assms(1) by (rule reachable_rows)
  then have ok1: "rows_ok db1" using keeps_login [of db cfg env c] assms(2) by (simp add: keeps_def)
  obtain u where u: "u \<in> set (db_users db)" "ae_verify env (lg_password c) (u_password_hash u)" "may_sign_in u"
    "issued_for db1 i u"
    using login_issues [OF assms(2) ok] .
  then obtain s v where s: "session_for db1 (is_session_token i) = Some s" "s_admin_user_id s = u_id u"
      "s_version s = u_session_version u" "s_expires_at s = is_expires_at i"
    and v: "account db1 (u_id u) = Some v" "secured v = secured u" "u_session_version v = u_session_version u"
    unfolding issued_for_def by blast
  obtain t where t: "session_for db2 (is_session_token i) = Some t" "session_evolves s t"
    using session_persists [OF ok1 assms(3) s(1)] .
  obtain t' w where a: "session_for db2 (is_session_token i) = Some t'" "account db2 (s_admin_user_id t') = Some w"
    "session_usable env2 t' w" "p = principal_of t' w"
    using accepted_session [OF assms(4)] .
  have "t' = t" using a(1) t(1) by simp
  moreover have "s_admin_user_id t = u_id u" using t(2) s(2) by (simp add: session_evolves_def)
  ultimately have w: "account db2 (u_id u) = Some w" "session_usable env2 t w" "p = principal_of t w"
    using a by simp_all
  have "u_session_version w = u_session_version v"
    using w(2) t(2) s(3) v(3) by (simp add: session_usable_def session_evolves_def)
  then have "secured w = secured v"
    by (rule accounts.current_version_vouches [OF assms(3) ok1 v(1) w(1)])
  then have same: "secured w = secured u" using v(2) by simp
  have "w \<in> set (db_users db2)" "u_id w = u_id u" using account_Some [OF w(1)] by auto
  moreover have "p_internal_id p = u_id w" "p_roles p = u_roles w" using w(3) by (simp_all add: principal_of_def)
  moreover have "u_roles w = u_roles u" using same by (simp add: secured_def)
  moreover have "ae_now env2 < is_expires_at i"
    using w(2) t(2) s(4) by (simp add: session_usable_def session_evolves_def)
  ultimately show ?thesis using u(1-3) same by metis
qed

text \<open>Signing out ends a session for good.\<close>

lemma revoked_stays_refused:
  assumes "rows_ok db" "session_for db token = Some s" "s_revoked_at s \<noteq> None" "access_step\<^sup>*\<^sup>* db db'"
  shows "\<not> accepts env token db' p"
proof
  assume "accepts env token db' p"
  then obtain t where t: "session_for db' token = Some t" "s_revoked_at t = None"
    by (auto elim!: accepted_session simp: session_usable_def)
  obtain t' where "session_for db' token = Some t'" "session_evolves s t'"
    using session_persists [OF assms(1,4,2)] .
  with t assms(3) show False by (auto simp: session_evolves_def)
qed

section \<open>An example system\<close>

definition demo_env :: "time \<Rightarrow> access_env" where
  "demo_env t =
     \<lparr>ae_now = t, ae_db_now = t, ae_text_ok = (\<lambda>_. True), ae_unicode_lower = id,
      ae_hash = (\<lambda>p. Inr (CHR ''h'' # p)), ae_verify = (\<lambda>p h. h = CHR ''h'' # p)\<rparr>"

definition demo_config :: login_config where
  "demo_config =
     \<lparr>lc_session_ttl = 8 * hour, lc_window = 15 * minute, lc_max_failures = 5, lc_block_for = 15 * minute, lc_dummy_hash = ''x''\<rparr>"

definition demo_login :: "string \<Rightarrow> login_command" where
  "demo_login p =
     \<lparr>lg_username = ''root1'', lg_password = p, lg_remote = ''office'', lg_session_random = ''r1'', lg_csrf_random = ''r2''\<rparr>"

definition demo_root :: user where
  "demo_root =
     \<lparr>u_id = 1, u_username = ''root1'', u_password_hash = ''hsecret'', u_display_name = ''Root'', u_wecom_userid = [],
      u_active = True, u_login_enabled = True, u_legacy_reactivation = False, u_access_granted_at = Some 10,
      u_session_version = 1, u_roles = [Super_Admin], u_last_login_at = None, u_created_at = 10, u_updated_at = 10\<rparr>"

definition demo_db :: access_db where
  "demo_db =
     empty_access_db\<lparr>db_users := [demo_root], db_next_user := 2, db_control := Some (1, 1),
       db_access_audit := [\<lparr>aa_actor = 1, aa_target = 1, aa_action = ''bootstrap'',
         aa_details = Json_Object [(''roles'', Json_Array [Json_String ''super_admin''])], aa_created_at = 10\<rparr>]\<rparr>"

lemma ascii_username:
  assumes "list_all (\<lambda>c. 97 \<le> byte c \<and> byte c \<le> 122 \<or> 48 \<le> byte c \<and> byte c \<le> 57) s" "3 \<le> length s" "length s \<le> 120"
  shows "normalize_username f s = Inr s" and "lower_text f (trim_space s) = s"
proof -
  have g: "graphic c" "byte c < 128" "\<not> (65 \<le> byte c \<and> byte c \<le> 90)" "byte c \<notin> {0, 13, 10, 9, 32}" if "c \<in> set s" for c
    using assms(1) that by (auto simp: list_all_iff graphic_def)
  have "trim_space s = s" using assms(2) g by (intro trim_space_graphic) (cases s; auto)
  moreover have "runes s = map byte s" using g by (intro runes_ascii) (auto simp: list_all_iff)
  moreover have "concat (map (\<lambda>c. encode_rune (if byte c < 128 then if 65 \<le> byte c \<and> byte c \<le> 90 then byte c + 32
      else byte c else f (byte c))) t) = t" if "set t \<subseteq> set s" for t
    using that g by (induction t) (auto simp: encode_rune_ascii)
  ultimately show l: "lower_text f (trim_space s) = s" by (simp add: lower_text_def comp_def)
  show "normalize_username f s = Inr s"
    using l assms(2,3) g by (auto simp: normalize_username_def Let_def list_ex_iff)
qed

lemma demo_username: "normalize_username f ''root1'' = Inr ''root1''" "lower_text f (trim_space ''root1'') = ''root1''"
  by (rule ascii_username; simp add: byte_def)+

lemma demo_display_name: "trim_space ''Root'' = ''Root''" "trim_space ''office'' = ''office''"
  by (simp_all add: ascii_text)

lemma demo_reachable: "reachable_access demo_db"
proof -
  have "bootstrap (demo_env 10) \<lparr>bo_username = ''root1'', bo_password = ''secret'', bo_display_name = ''Root''\<rparr> empty_access_db
      = Inr ((demo_root, True), demo_db)"
    by (simp add: bootstrap_def demo_username demo_display_name demo_env_def within_def bootstrap_user_def create_user_def
        insert_user_def empty_access_db_def blank_user_def role_codes_def Let_def initialize_super_admin_control_def
        audit_access_def append_access_audit_def audit_actions_def control_ok_def demo_root_def demo_db_def role_string_def)
  then show ?thesis
    by (intro reachable_access.step [OF reachable_access.start]) (rule access_step.first_account)
qed

definition demo_token :: string where
  "demo_token = ''as_'' @ base64_url ''r1''"

lemma length_credential_digest [simp]: "length (credential_digest s) = 32"
  by (simp add: credential_digest_def)

lemma demo_env_simps [simp]:
  "ae_now (demo_env t) = t" "ae_db_now (demo_env t) = t" "ae_text_ok (demo_env t) u" "ae_unicode_lower (demo_env t) = id"
  "ae_hash (demo_env t) p = Inr (CHR ''h'' # p)" "ae_verify (demo_env t) p h = (h = CHR ''h'' # p)"
  by (simp_all add: demo_env_def)

lemma demo_config_simps [simp]:
  "lc_session_ttl demo_config = 8 * hour" "lc_window demo_config = 15 * minute" "lc_max_failures demo_config = 5"
  "lc_block_for demo_config = 15 * minute"
  by (simp_all add: demo_config_def)

lemma demo_login_simps [simp]:
  "lg_password (demo_login p) = p" "lg_session_random (demo_login p) = ''r1''" "lg_csrf_random (demo_login p) = ''r2''"
  by (simp_all add: demo_login_def)

lemma demo_db_simps [simp]:
  "db_users demo_db = [demo_root]" "db_sessions demo_db = []" "db_limits demo_db = []" "db_control demo_db = Some (1, 1)"
  "db_next_session demo_db = 1" "db_login_audit demo_db = []"
  by (simp_all add: demo_db_def empty_access_db_def)

lemma demo_durations [simp]: "0 < hour" "0 < minute" "\<not> hour \<le> 0" "\<not> minute \<le> 0"
  by (simp_all add: hour_def minute_def nanoseconds_per_second_def)

lemma demo_token_present [simp]: "trim_space demo_token \<noteq> []"
  by (simp add: demo_token_def base64_char_def base64_alphabet_def ascii_text)

lemma demo_names: "candidate_username (demo_env t) (demo_login p) = ''root1''"
  "trim_space (lg_remote (demo_login p)) = ''office''"
  by (simp_all add: candidate_username_def demo_env_def demo_login_def demo_username demo_display_name)

definition demo_user :: user where
  "demo_user = demo_root\<lparr>u_last_login_at := Some 100, u_updated_at := 100\<rparr>"

definition demo_session :: session where
  "demo_session =
     \<lparr>s_id = 1, s_token_digest = credential_digest demo_token, s_csrf_digest = credential_digest (''ac_'' @ base64_url ''r2''),
      s_admin_user_id = 1, s_version = 1, s_expires_at = 100 + 8 * hour, s_revoked_at = None, s_revoked_reason = [],
      s_created_at = 100, s_last_seen_at = 100\<rparr>"

lemma demo_login_within: "\<exists>i db. login_within demo_config (demo_env 100) (demo_login ''secret'') demo_db = Inr (Inr i, db)
   \<and> is_session_token i = demo_token \<and> is_expires_at i = 100 + 8 * hour \<and> db_users db = [demo_user] \<and> db_sessions db = [demo_session]
   \<and> db_control db = Some (1, 1)"
  by (simp add: login_within_def Let_def demo_names rate_key_def demo_username lookup_username_def login_rate_limit_def fresh_limit_def
      current_limit_def blocked_def user_by_username_def user_by_id_def user_by_def demo_root_def may_sign_in_def
      save_login_rate_limit_def clear_limit_def issue_session_def issue_opaque_def create_session_def set_last_login_def
      audit_login_def append_login_audit_def login_outcomes_def map_user_def demo_user_def demo_session_def demo_token_def)

lemma demo_sign_in: "\<exists>i db. login demo_config (demo_env 100) (demo_login ''secret'') demo_db = (Inr i, db)
   \<and> is_session_token i = demo_token \<and> is_expires_at i = 100 + 8 * hour \<and> db_users db = [demo_user] \<and> db_sessions db = [demo_session]
   \<and> db_control db = Some (1, 1)"
  using demo_login_within by (auto simp: login_def answered_def within_Inr within_def control_ok_def demo_user_def demo_root_def)

definition demo_principal :: principal where
  "demo_principal = \<lparr>p_kind = Kind_Admin, p_internal_id = 1, p_roles = [Super_Admin], p_session_version = 1\<rparr>"

lemma demo_session_accepted:
  assumes "db_users db = [demo_user]" "db_sessions db = [demo_session]" "db_control db = Some (1, 1)"
  shows "accepts (demo_env 200) demo_token db demo_principal"
  using assms
  by (simp add: accepts_def authenticate_def session_by_token_digest_def demo_session_def within_def answered_def
    user_by_id_def user_by_def demo_user_def demo_root_def session_usable_def may_sign_in_def principal_of_def demo_principal_def touch_session_def
    map_sessions_def control_ok_def hour_def nanoseconds_per_second_def)

theorem session_vouches_witness:
  "\<exists>i db u v. login demo_config (demo_env 100) (demo_login ''secret'') demo_db = (Inr i, db)
     \<and> accepts (demo_env 200) (is_session_token i) db demo_principal
     \<and> u \<in> set (db_users demo_db) \<and> v \<in> set (db_users db) \<and> secured v = secured u \<and> u_roles u = [Super_Admin]"
proof -
  obtain i db where l: "login demo_config (demo_env 100) (demo_login ''secret'') demo_db = (Inr i, db)"
    "is_session_token i = demo_token" "db_users db = [demo_user]" "db_sessions db = [demo_session]" "db_control db = Some (1, 1)"
    using demo_sign_in by blast
  then have a: "accepts (demo_env 200) (is_session_token i) db demo_principal" by (simp add: demo_session_accepted)
  have "\<exists>u\<in>set (db_users demo_db). \<exists>v\<in>set (db_users db). u_id v = u_id u \<and> secured v = secured u
      \<and> p_internal_id demo_principal = u_id u \<and> p_roles demo_principal = u_roles u
      \<and> ae_verify (demo_env 100) (lg_password (demo_login ''secret'')) (u_password_hash u) \<and> may_sign_in u
      \<and> ae_now (demo_env 200) < is_expires_at i"
    by (rule session_vouches [OF demo_reachable l(1) rtranclp.rtrancl_refl a])
  moreover have "p_roles demo_principal = [Super_Admin]" by (simp add: demo_principal_def)
  ultimately show ?thesis using l(1) a by metis
qed

end
