(* ===== verification/Access_Guessing.thy ===== *)
theory Access_Guessing
  imports Access_Properties
begin

text \<open>
  How many passwords can be tried. A guess is an attempt the service compares with a password
  and refuses; the limit is kept per pair of a name and a remote. Of all commands only the
  sign-ins of a pair, and a request of the machine limiter under the same key, write its record
  (\<open>step_limit\<close>). The guesses since a successful sign-in fall into windows whose starts are at
  least one window apart, each with at most the configured number (\<open>windows\<close>), which bounds
  every interval of that length (\<open>windows_bound\<close>). The block that follows too many failures ends with its window.
\<close>

section \<open>Windows\<close>

fun windows :: "time \<Rightarrow> nat \<Rightarrow> (time \<times> time list) list \<Rightarrow> bool" where
  "windows w m [] \<longleftrightarrow> True"
| "windows w m ((s, g) # ws) \<longleftrightarrow>
     (\<forall>t\<in>set g. s \<le> t \<and> t < s + w) \<and> length g \<le> m \<and> (\<forall>v\<in>set ws. fst v + w \<le> s) \<and> windows w m ws"

abbreviation in_interval :: "time \<Rightarrow> time \<Rightarrow> time \<Rightarrow> bool" where
  "in_interval a w t \<equiv> a \<le> t \<and> t < a + w"

definition occurrences :: "time \<Rightarrow> time \<Rightarrow> time list \<Rightarrow> nat" where
  "occurrences a w ts = length (filter (in_interval a w) ts)"

lemma occurrences_append [simp]: "occurrences a w (xs @ ys) = occurrences a w xs + occurrences a w ys"
  by (simp add: occurrences_def)

lemma occurrences_length: "occurrences a w ts \<le> length ts"
  by (simp add: occurrences_def)

lemma occurrences_none: "(\<forall>t\<in>set ts. \<not> in_interval a w t) \<Longrightarrow> occurrences a w ts = 0"
  by (simp add: occurrences_def filter_empty_conv)

abbreviation guesses_of :: "(time \<times> time list) list \<Rightarrow> time list" where
  "guesses_of ws \<equiv> concat (map snd (rev ws))"

lemma windows_past:
  "windows w m ws \<Longrightarrow> \<forall>v\<in>set ws. fst v + w \<le> a \<Longrightarrow> occurrences a w (guesses_of ws) = 0"
proof (induction ws)
  case (Cons v ws)
  obtain s g where v: "v = (s, g)" by (cases v)
  with Cons.prems have "occurrences a w g = 0" by (intro occurrences_none) fastforce
  with Cons v show ?case by simp
qed (simp add: occurrences_def)

lemma windows_before:
  assumes "windows w m ws" "\<forall>v\<in>set ws. fst v \<le> a"
  shows "occurrences a w (guesses_of ws) \<le> m"
proof (cases ws)
  case (Cons v us)
  obtain s g where v: "v = (s, g)" by (cases v)
  with Cons assms have "windows w m us" "\<forall>u\<in>set us. fst u + w \<le> a" by auto
  then have "occurrences a w (guesses_of us) = 0" by (rule windows_past)
  with Cons v assms occurrences_length [of a w g] show ?thesis by simp
qed (simp add: occurrences_def)

lemma windows_bound: "0 < w \<Longrightarrow> windows w m ws \<Longrightarrow> occurrences a w (guesses_of ws) \<le> 2 * m"
proof (induction ws)
  case (Cons v ws)
  obtain s g where v: "v = (s, g)" by (cases v)
  with Cons.prems have g: "\<forall>t\<in>set g. s \<le> t \<and> t < s + w" "length g \<le> m" and ws: "windows w m ws"
    and apart: "\<forall>u\<in>set ws. fst u + w \<le> s" by auto
  show ?case
  proof (cases "a + w \<le> s")
    case True
    with g have "occurrences a w g = 0" by (intro occurrences_none) auto
    with Cons.IH [OF Cons.prems(1) ws] v show ?thesis by simp
  next
    case False
    with apart have "\<forall>u\<in>set ws. fst u \<le> a" by fastforce
    from windows_before [OF ws this] occurrences_length [of a w g] g(2) v show ?thesis by simp
  qed
qed (simp add: occurrences_def)

section \<open>Guesses\<close>

definition limit_of :: "string \<Rightarrow> access_db \<Rightarrow> rate_limit option" where
  "limit_of k db = find (\<lambda>l. rl_key l = k) (db_limits db)"

text \<open>The attempt is compared with a password: the limit does not refuse it.\<close>

definition evaluated :: "login_config \<Rightarrow> access_env \<Rightarrow> login_command \<Rightarrow> access_db \<Rightarrow> bool" where
  "evaluated cfg env c db \<longleftrightarrow> \<not> blocked env (current_limit cfg env (fst (login_rate_limit env (rate_key env c) db)))"

lemma limit_read: "fst (login_rate_limit env k db) = (case limit_of k db of None \<Rightarrow> fresh_limit env k | Some l \<Rightarrow> l)"
  by (auto simp: login_rate_limit_def limit_of_def split: option.splits)

lemma find_replaced:
  "\<exists>q\<in>set ls. rl_key q = rl_key l \<Longrightarrow> find (\<lambda>q. rl_key q = rl_key l) (map (\<lambda>q. if rl_key q = rl_key l then l else q) ls) = Some l"
  by (induction ls) auto

lemma find_added: "\<forall>q\<in>set ls. rl_key q \<noteq> rl_key l \<Longrightarrow> find (\<lambda>q. rl_key q = rl_key l) (ls @ [l]) = Some l"
  by (induction ls) auto

lemma limit_saved: "save_login_rate_limit l db = Inr db' \<Longrightarrow> limit_of (rl_key l) db' = Some l"
  by (auto simp: save_login_rate_limit_def limit_of_def intro!: find_added find_replaced split: if_splits)

lemma limit_keys [simp]:
  "rl_key (current_limit cfg env l) = rl_key l" "rl_key (count_failure cfg env l) = rl_key l"
  "rl_key (fresh_limit env k) = k"
  by (auto simp: current_limit_def count_failure_def Let_def fresh_limit_def)

lemma read_key: "rl_key (fst (login_rate_limit env k db)) = k"
  by (auto simp: limit_read limit_of_def split: option.splits dest: find_Some_pred)

text \<open>The statements of a sign-in fail with an error of the store only.\<close>

lemma login_errors: "login_within cfg env c db = Inl e \<Longrightarrow> e = Access_Storage \<or> e = Access_Not_Found"
  by (auto simp: login_within_def failed_login_def refuse_def audit_login_def append_login_audit_def
      save_login_rate_limit_def issue_session_def issue_opaque_def create_session_def set_last_login_def user_by_id_def
      user_by_def Let_def and_then_def split: sum.splits if_splits option.splits prod.splits)

lemma audit_limits:
  "refuse env e u i r out why db = Inr (x, db') \<Longrightarrow> x = Inl e \<and> db_limits db' = db_limits db"
  by (auto simp: refuse_def audit_login_def append_login_audit_def and_then_eq_Inr split: if_splits)

lemma failed_limit:
  assumes "failed_login cfg env n f i r l db = Inr (x, db')"
  shows "limit_of (rl_key l) db' = Some (count_failure cfg env l)"
proof -
  obtain db1 e u out why where s: "save_login_rate_limit (count_failure cfg env l) db = Inr db1"
    and r: "refuse env e u i r out why db1 = Inr (x, db')"
    using assms by (cases f; cases "is_ok n"; cases "may_sign_in (projr f)")
      (auto simp: failed_login_def and_then_eq_Inr Let_def)
  from limit_saved [OF s] audit_limits [OF r] show ?thesis by (simp add: limit_of_def)
qed

lemma guess_counts:
  assumes "login cfg env c db = (Inl Invalid_Credentials, db')" "evaluated cfg env c db"
  shows "limit_of (rate_key env c) db' =
     Some (count_failure cfg env (current_limit cfg env (fst (login_rate_limit env (rate_key env c) db))))"
proof -
  obtain l db0 where l: "login_rate_limit env (rate_key env c) db = (l, db0)" by fastforce
  have w: "login_within cfg env c db = Inr (Inl Invalid_Credentials, db')"
    using assms(1) login_errors [of cfg env c db]
    by (auto simp: login_def answered_def within_def and_then_def split: sum.splits prod.splits if_splits)
  have "\<exists>n f i r. failed_login cfg env n f i r (current_limit cfg env l) db0 = Inr (Inl Invalid_Credentials, db')"
    using w l assms(2) unfolding login_within_def evaluated_def
    by (auto simp: Let_def and_then_eq_Inr dest!: audit_limits split: sum.splits if_splits)
  then obtain n f i r where "failed_login cfg env n f i r (current_limit cfg env l) db0 = Inr (Inl Invalid_Credentials, db')"
    by blast
  from failed_limit [OF this] show ?thesis using l read_key [of env "rate_key env c" db] by simp
qed

section \<open>Other commands\<close>

text \<open>Only a sign-in with a password and the limiter of the machine requests write a limit.\<close>

lemma limits_statements:
  "append_login_audit a db = Inr db' \<Longrightarrow> db_limits db' = db_limits db"
  "audit_access env i t x ds db = Inr db' \<Longrightarrow> db_limits db' = db_limits db"
  "reserve_governance_mutation i k x t d db = Inr (b, db') \<Longrightarrow> db_limits db' = db_limits db"
  "reserve_login_access_request i k d db = Inr (b, db') \<Longrightarrow> db_limits db' = db_limits db"
  "initialize_super_admin_control i db = Inr db' \<Longrightarrow> db_limits db' = db_limits db"
  "set_super_admin_control i db = Inr db' \<Longrightarrow> db_limits db' = db_limits db"
  "create_user env u db = Inr (v, db') \<Longrightarrow> db_limits db' = db_limits db"
  "create_staff_projection env u db = Inr (v, db') \<Longrightarrow> db_limits db' = db_limits db"
  "bootstrap_user env u db = Inr (w, db') \<Longrightarrow> db_limits db' = db_limits db"
  "fence env u f db = Inr db' \<Longrightarrow> db_limits db' = db_limits db"
  "set_last_login env i db = Inr db' \<Longrightarrow> db_limits db' = db_limits db"
  "set_staff_display_name env i s n db = Inr db' \<Longrightarrow> db_limits db' = db_limits db"
  "create_session env ses db = Inr db' \<Longrightarrow> db_limits db' = db_limits db"
  by (auto simp: append_login_audit_def audit_access_def append_access_audit_def reserve_governance_mutation_def
      reserve_login_access_request_def initialize_super_admin_control_def set_super_admin_control_def create_user_def
      insert_user_def create_staff_projection_def bootstrap_user_def fence_def set_last_login_def set_staff_display_name_def
      create_session_def and_then_eq_Inr Let_def split: if_splits option.splits sum.splits)

lemma limits_writes:
  "set_login_enabled env i b db = Inr db' \<Longrightarrow> db_limits db' = db_limits db"
  "grant_access env i r n db = Inr db' \<Longrightarrow> db_limits db' = db_limits db"
  "set_wecom_user_id env i w db = Inr db' \<Longrightarrow> db_limits db' = db_limits db"
  "replace_roles env i rs db = Inr db' \<Longrightarrow> db_limits db' = db_limits db"
  "set_password_hash env i h db = Inr db' \<Longrightarrow> db_limits db' = db_limits db"
  by (auto simp: set_login_enabled_def grant_access_def set_wecom_user_id_def replace_roles_def set_password_hash_def
      and_then_eq_Inr Let_def simp del: insert_roles.simps split: if_splits dest!: limits_statements)

lemma limits_loops:
  "write_changes env p r cs db = Inr db' \<Longrightarrow> db_limits db' = db_limits db"
  "refresh_names env p ns us db = Inr db' \<Longrightarrow> db_limits db' = db_limits db"
  "project_staff env h a items res db = Inr (x, db') \<Longrightarrow> db_limits db' = db_limits db"
proof -
  show "write_changes env p r cs db = Inr db' \<Longrightarrow> db_limits db' = db_limits db"
    by (induction env p r cs db rule: write_changes.induct)
      (fastforce simp: and_then_eq_Inr dest: limits_writes limits_statements split: if_splits)+
  show "refresh_names env p ns us db = Inr db' \<Longrightarrow> db_limits db' = db_limits db"
    by (induction us arbitrary: db)
      (fastforce simp: and_then_eq_Inr Let_def dest: limits_statements split: if_splits)+
  show "project_staff env h a items res db = Inr (x, db') \<Longrightarrow> db_limits db' = db_limits db"
  proof (induction items arbitrary: res db)
    case (Cons i items)
    then show ?case
      by (fastforce simp: and_then_eq_Inr Let_def dest: limits_statements split: sum.splits option.splits prod.splits)
  qed simp
qed

lemmas limits_kept = limits_statements limits_writes limits_loops

lemma limits_refuse: "refuse env e u i r out why db = Inr (x, db') \<Longrightarrow> db_limits db' = db_limits db"
  by (auto simp: refuse_def audit_login_def and_then_eq_Inr dest: limits_kept)

lemma limits_issue: "issue_session cfg env r1 r2 u i r why db = Inr (x, db') \<Longrightarrow> db_limits db' = db_limits db"
  by (auto simp: issue_session_def issue_opaque_def audit_login_def Let_def and_then_eq_Inr dest!: limits_kept)

lemma limits_answered:
  "(\<And>x db'. f db = Inr (x, db') \<Longrightarrow> P db') \<Longrightarrow> P db \<Longrightarrow> P (snd (answered db (within f db)))"
  by (auto simp: answered_def within_Inr split: sum.split)

lemma limits_sessions:
  "db_limits (snd (wecom_login cfg env w db)) = db_limits db"
  "db_limits (snd (authenticate env t db)) = db_limits db"
  "db_limits (snd (authorize_csrf env t c r db)) = db_limits db"
  "db_limits (snd (logout env t c r db)) = db_limits db"
proof -
  show "db_limits (snd (wecom_login cfg env w db)) = db_limits db"
    unfolding wecom_login_def wecom_login_within_def
    by (rule limits_answered [where P = "\<lambda>d. db_limits d = db_limits db"])
      (auto simp: Let_def and_then_eq_Inr split: sum.splits if_splits dest: limits_refuse limits_issue)
  show "db_limits (snd (authenticate env t db)) = db_limits db"
    by (auto simp: authenticate_def answered_def within_Inr touch_session_def map_sessions_def split: sum.splits prod.splits if_splits)
  show c: "db_limits (snd (authorize_csrf env t c r db)) = db_limits db"
    by (auto simp: authorize_csrf_def answered_def within_Inr split: sum.splits prod.splits if_splits)
  show "db_limits (snd (logout env t c r db)) = db_limits db"
    using c by (auto simp: logout_def answered_def within_Inr revoke_session_def map_sessions_def split: sum.splits prod.splits)
qed

lemma limits_target:
  assumes "with_governance_target p t k a d f db = Inr (x, db')"
    and "\<And>r u q db db'. f r u q db = Inr db' \<Longrightarrow> db_limits db' = db_limits db"
  shows "db_limits db' = db_limits db"
  using assms by (auto simp: with_governance_target_def within_Inr governance_target_within_def and_then_eq_Inr split: if_splits
      dest!: limits_statements(3))

lemma limits_governance:
  "set_governance_login_enabled g env p li db = Inr (x, db') \<Longrightarrow> db_limits db' = db_limits db"
  "set_governance_role g env p ri db = Inr (x, db') \<Longrightarrow> db_limits db' = db_limits db"
  "bind_governance_wecom_user_id g env p bi db = Inr (x, db') \<Longrightarrow> db_limits db' = db_limits db"
  "reset_governance_password g env p pw db = Inr (x, db') \<Longrightarrow> db_limits db' = db_limits db"
  "transfer_governance_super_admin g env p ti db = Inr (x, db') \<Longrightarrow> db_limits db' = db_limits db"
  "provision_enterprise_employee g env p pi db = Inr (y, db') \<Longrightarrow> db_limits db' = db_limits db"
proof -
  show "set_governance_login_enabled g env p li db = Inr (x, db') \<Longrightarrow> db_limits db' = db_limits db"
    by (auto simp: governance_commands split: if_splits elim!: limits_target)
      (auto simp: login_change_def and_then_eq_Inr split: if_splits dest!: limits_kept)
  show "set_governance_role g env p ri db = Inr (x, db') \<Longrightarrow> db_limits db' = db_limits db"
    by (auto simp: governance_commands split: if_splits elim!: limits_target)
      (auto simp: role_change_def and_then_eq_Inr split: if_splits dest!: limits_kept)
  show "bind_governance_wecom_user_id g env p bi db = Inr (x, db') \<Longrightarrow> db_limits db' = db_limits db"
    by (auto simp: governance_commands and_then_eq_Inr split: if_splits elim!: limits_target)
      (auto simp: bind_change_def and_then_eq_Inr split: if_splits dest!: limits_kept)
  show "reset_governance_password g env p pw db = Inr (x, db') \<Longrightarrow> db_limits db' = db_limits db"
    by (auto simp: governance_commands and_then_eq_Inr split: if_splits elim!: limits_target)
      (auto simp: password_change_def and_then_eq_Inr split: if_splits dest!: limits_kept)
  show "transfer_governance_super_admin g env p ti db = Inr (x, db') \<Longrightarrow> db_limits db' = db_limits db"
    by (auto simp: governance_commands within_Inr transfer_within_def transfer_write_def and_then_eq_Inr split: if_splits
        dest!: limits_kept)
  show "provision_enterprise_employee g env p pi db = Inr (y, db') \<Longrightarrow> db_limits db' = db_limits db"
    by (auto simp: governance_commands within_Inr provision_within_def grant_existing_def provision_new_def and_then_eq_Inr
        split: if_splits sum.splits dest!: limits_kept)
qed

lemma limits_management:
  "bootstrap env bo db = Inr (b, db') \<Longrightarrow> db_limits db' = db_limits db"
  "add_user env p au db = Inr (u, db') \<Longrightarrow> db_limits db' = db_limits db"
  "disable_user env p t db = Inr (x, db') \<Longrightarrow> db_limits db' = db_limits db"
  "bind_wecom_user_id env p t w db = Inr (x, db') \<Longrightarrow> db_limits db' = db_limits db"
  "change_roles env p t rs db = Inr (x, db') \<Longrightarrow> db_limits db' = db_limits db"
  "reset_password env p t s db = Inr (x, db') \<Longrightarrow> db_limits db' = db_limits db"
  "set_login_access env p k cs db = Inr (us, db') \<Longrightarrow> db_limits db' = db_limits db"
  "refresh_staff_names env p ns db = Inr (x, db') \<Longrightarrow> db_limits db' = db_limits db"
  "within (project_wecom_staff env k h a items) db = Inr (y, db') \<Longrightarrow> db_limits db' = db_limits db"
  by (auto simp: bootstrap_def add_user_def disable_user_def bind_wecom_user_id_def change_roles_def reset_password_def
      set_login_access_def set_login_access_within_def refresh_staff_names_def project_wecom_staff_def
      and_then_eq_Inr within_Inr Let_def split: sum.splits if_splits option.splits dest!: limits_kept)

text \<open>The record of a pair changes only when the pair signs in, or when the limiter is asked about
  a namespace and a value that are a name and a remote of the same key.\<close>

lemma other_limit_found: "j \<noteq> rl_key l \<Longrightarrow> find (\<lambda>q. rl_key q = j) (map (\<lambda>q. if rl_key q = rl_key l then l else q) ls) = find (\<lambda>q. rl_key q = j) ls"
  by (induction ls) auto

lemma other_limit_added: "j \<noteq> rl_key l \<Longrightarrow> find (\<lambda>q. rl_key q = j) (ls @ [l]) = find (\<lambda>q. rl_key q = j) ls"
  by (induction ls) auto

lemma other_limit:
  "save_login_rate_limit l db = Inr db' \<Longrightarrow> j \<noteq> rl_key l \<Longrightarrow> limit_of j db' = limit_of j db"
  "login_rate_limit env k db = (l, db') \<Longrightarrow> j \<noteq> k \<Longrightarrow> limit_of j db' = limit_of j db"
  by (auto simp: save_login_rate_limit_def login_rate_limit_def limit_of_def other_limit_found
      intro: other_limit_added [of j l] other_limit_added [of j "fresh_limit env k", simplified limit_keys]
      split: if_splits option.splits)

lemma login_other_limit:
  assumes "login_within cfg env c db = Inr (x, db')" "rate_key env c \<noteq> k"
  shows "limit_of k db' = limit_of k db"
proof -
  obtain l db0 where l: "login_rate_limit env (rate_key env c) db = (l, db0)" by fastforce
  have key: "rl_key l \<noteq> k" using assms(2) read_key [of env "rate_key env c" db] l by simp
  have same: "db_limits d' = db_limits d \<Longrightarrow> limit_of k d' = limit_of k d" for d d' by (simp add: limit_of_def)
  have failed: "limit_of k db' = limit_of k db0" if "failed_login cfg env n f i r (current_limit cfg env l) db0 = Inr (x, db')" for n f i r
    using that key by (cases f; cases "is_ok n"; cases "may_sign_in (projr f)")
      (auto simp: failed_login_def and_then_eq_Inr Let_def dest!: other_limit(1) [of _ _ _ k] limits_refuse same)
  have "limit_of k db' = limit_of k db0"
    using assms(1) l key unfolding login_within_def
    by (auto simp: Let_def and_then_eq_Inr clear_limit_def split: sum.splits if_splits
        dest!: limits_refuse same limits_issue other_limit(1) [of _ _ _ k] dest: failed)
  with other_limit(2) [OF l] assms(2) show ?thesis by simp
qed

lemma step_limit:
  "access_step db db' \<Longrightarrow> limit_of k db' = limit_of k db
     \<or> (\<exists>cfg env c. rate_key env c = k \<and> db' = snd (login cfg env c db))
     \<or> (\<exists>cfg env n v m. credential_digest (n @ char_of (0::nat) # v) = k \<and> db' = snd (allow cfg env n v m db))"
proof (induction rule: access_step.induct)
  case (sign_in db cfg env c)
  have "limit_of k (snd (login cfg env c db)) = limit_of k db" if "rate_key env c \<noteq> k"
    using that unfolding login_def
    by (intro limits_answered [where P = "\<lambda>d. limit_of k d = limit_of k db"]) (auto dest: login_other_limit)
  then show ?case by blast
next
  case (limiter db lim env n s m)
  have "limit_of k (snd (allow lim env n s m db)) = limit_of k db" if k: "credential_digest (n @ char_of (0::nat) # s) \<noteq> k"
  proof (cases "m < 1")
    case False
    have "limit_of k db' = limit_of k db" if "(let (stored, db0) = login_rate_limit env (credential_digest (n @ char_of (0::nat) # s)) db;
            (passes, written) = limiter_decision lim env m stored; answer = (if passes then Inr () else Inl Login_Rate_Limited)
        in (case written of None \<Rightarrow> Inr (answer, db0)
            | Some l \<Rightarrow> and_then (save_login_rate_limit l db0) (\<lambda>db1. Inr (answer, db1)))) = Inr (x, db')" for x db'
    proof -
      obtain l db0 where l: "login_rate_limit env (credential_digest (n @ char_of (0::nat) # s)) db = (l, db0)" by fastforce
      have key: "rl_key l \<noteq> k" using k read_key [of env "credential_digest (n @ char_of (0::nat) # s)" db] l by simp
      obtain b w where d: "limiter_decision lim env m l = (b, w)" by fastforce
      have "db' = db0 \<or> (\<exists>q. w = Some q \<and> save_login_rate_limit q db0 = Inr db')"
        using that l d by (cases w) (simp_all add: Let_def and_then_eq_Inr)
      moreover have "rl_key q \<noteq> k" if "w = Some q" for q
        using d that key by (auto simp: limiter_decision_def window_limit_def Let_def split: if_splits)
      ultimately show ?thesis using other_limit(1) [of _ db0 db' k] other_limit(2) [OF l] k by metis
    qed
    then show ?thesis unfolding allow_def if_not_P [OF False]
      by (intro limits_answered [where P = "\<lambda>d. limit_of k d = limit_of k db"]) auto
  qed (simp add: allow_def)
  then show ?case by blast
qed ((drule limits_management limits_governance)?, simp add: limit_of_def limits_sessions)+

section \<open>The bound\<close>

lemma failed_answer: "failed_login cfg env n f i m l db = Inr (r, db') \<Longrightarrow> r = Inl Invalid_Credentials"
  by (cases f; cases "is_ok n"; cases "may_sign_in (projr f)")
    (auto simp: failed_login_def and_then_eq_Inr Let_def dest!: audit_limits)

lemma refused_answer: "refuse env e u i m out why db = Inr (r, db') \<Longrightarrow> limit_of k db' = limit_of k db \<and> (\<exists>e. r = Inl e)"
  using audit_limits [of env e u i m out why db r db'] by (simp add: limit_of_def)

lemma cleared_answer:
  assumes "and_then (save_login_rate_limit (clear_limit env l) db) (\<lambda>db1.
      and_then (issue_session cfg env r1 r2 u i m why db1) (\<lambda>(issued, db2). Inr (Inr issued, db2))) = Inr (r, db')"
  shows "limit_of (rl_key l) db' = Some (clear_limit env l) \<and> (\<exists>x. r = Inr x)"
proof -
  from assms obtain db1 x where s: "save_login_rate_limit (clear_limit env l) db = Inr db1"
    and i: "issue_session cfg env r1 r2 u i m why db1 = Inr (x, db')" and r: "r = Inr x"
    by (auto simp: and_then_eq_Inr)
  from limits_issue [OF i] limit_saved [OF s] r show ?thesis by (simp add: limit_of_def clear_limit_def)
qed

text \<open>What a sign-in does to the record of its pair, by its answer.\<close>

lemma login_within_limit:
  assumes w: "login_within cfg env c db = Inr (r, db')" and l: "login_rate_limit env (rate_key env c) db = (l, db0)"
  shows "(\<exists>x. r = Inr x) \<and> limit_of (rate_key env c) db' = Some (clear_limit env (current_limit cfg env l))
     \<or> r = Inl Invalid_Credentials \<and> evaluated cfg env c db
     \<or> (\<exists>e. r = Inl e) \<and> limit_of (rate_key env c) db' = limit_of (rate_key env c) db0"
proof -
  define name ident remote where "name = normalize_username (ae_unicode_lower env) (candidate_username env c)"
    and "ident = credential_digest (candidate_username env c)" and "remote = credential_digest (trim_space (lg_remote c))"
  define found where "found = user_by_username (lookup_username name) db0"
  define now where "now = current_limit cfg env l"
  note names = name_def [symmetric] ident_def [symmetric] remote_def [symmetric]
  have key: "rl_key now = rate_key env c" using read_key [of env "rate_key env c" db] l by (simp add: now_def)
  have evaluated: "evaluated cfg env c db \<longleftrightarrow> \<not> blocked env now" using l by (simp add: evaluated_def now_def)
  have w: "(if blocked env now
       then refuse env (if is_ok name then Login_Rate_Limited else Invalid_Credentials) None ident remote
              ''rate_limited'' ''threshold_exceeded'' db0
       else case found of
                  Inl _ \<Rightarrow> failed_login cfg env name found ident remote now db0
                | Inr u \<Rightarrow>
                    if \<not> ae_verify env (lg_password c) (u_password_hash u) \<or> \<not> may_sign_in u
                    then failed_login cfg env name found ident remote now db0
                    else if length (u_roles u) = 0
                    then refuse env Permission_Denied (Some (u_id u)) ident remote ''invalid_credentials'' ''no_roles'' db0
                    else and_then (save_login_rate_limit (clear_limit env now) db0) (\<lambda>db1.
                         and_then (issue_session cfg env (lg_session_random c) (lg_csrf_random c) u ident remote
                                     ''local_password'' db1) (\<lambda>(issued, db2).
                           Inr (Inr issued, db2)))) = Inr (r, db')"
    using w unfolding login_within_def Let_def names l prod.case found_def now_def .
  note ways = refused_answer [of env _ _ _ _ _ _ db0 r db' "rate_key env c"] failed_answer [of cfg env _ _ _ _ now db0 r db']
    cleared_answer [of env now db0 cfg _ _ _ _ _ _ r db', unfolded key]
  consider "blocked env now" | e where "\<not> blocked env now" "found = Inl e" | u where "\<not> blocked env now" "found = Inr u"
    by (cases found) auto
  then show ?thesis
  proof cases
    case 1
    with w ways(1) show ?thesis by (simp add: evaluated)
  next
    case 2
    with w ways(2) show ?thesis by (simp add: evaluated)
  next
    case 3
    consider "\<not> ae_verify env (lg_password c) (u_password_hash u) \<or> \<not> may_sign_in u"
      | "ae_verify env (lg_password c) (u_password_hash u)" "may_sign_in u" "u_roles u = []"
      | "ae_verify env (lg_password c) (u_password_hash u)" "may_sign_in u" "u_roles u \<noteq> []" by blast
    then show ?thesis
    proof cases
      case 1
      then have "failed_login cfg env name found ident remote now db0 = Inr (r, db')" using w 3 by simp
      with ways(2) 3 show ?thesis by (simp add: evaluated)
    next
      case 2
      with w 3 ways(1) show ?thesis by (simp add: evaluated)
    next
      case granted: 3
      with w 3 have "and_then (save_login_rate_limit (clear_limit env now) db0) (\<lambda>db1.
         and_then (issue_session cfg env (lg_session_random c) (lg_csrf_random c) u ident remote ''local_password'' db1)
           (\<lambda>(issued, db2). Inr (Inr issued, db2))) = Inr (r, db')" by simp
      from ways(3) [OF this] show ?thesis by (simp add: now_def)
    qed
  qed
qed

lemma sign_in_limit:
  assumes "login cfg env c db = (r, db')"
  shows "(\<exists>x. r = Inr x) \<and> limit_of (rate_key env c) db' =
            Some (clear_limit env (current_limit cfg env (fst (login_rate_limit env (rate_key env c) db))))
     \<or> r = Inl Invalid_Credentials \<and> evaluated cfg env c db
     \<or> (\<exists>e. r = Inl e) \<and> (limit_of (rate_key env c) db' = limit_of (rate_key env c) db
          \<or> limit_of (rate_key env c) db = None \<and> limit_of (rate_key env c) db' = Some (fresh_limit env (rate_key env c)))"
proof (cases "within (login_within cfg env c) db")
  case (Inl e)
  with assms show ?thesis by (auto simp: login_def answered_def)
next
  case (Inr y)
  obtain l db0 where l: "login_rate_limit env (rate_key env c) db = (l, db0)" by fastforce
  have "limit_of (rate_key env c) db0 = limit_of (rate_key env c) db
      \<or> limit_of (rate_key env c) db = None \<and> limit_of (rate_key env c) db0 = Some (fresh_limit env (rate_key env c))"
    using l find_added [of "db_limits db" "fresh_limit env (rate_key env c)"]
    by (auto simp: login_rate_limit_def limit_of_def find_None_iff split: option.splits)
  moreover from Inr assms have "login_within cfg env c db = Inr (r, db')" by (auto simp: login_def answered_def within_Inr)
  ultimately show ?thesis using login_within_limit [OF _ l, of cfg r db'] l by auto
qed

text \<open>
  The sign-ins of one name from one remote, all with one configuration and in the order of
  their clocks, which service and database agree on, among any other steps that leave the
  record of the pair alone; \<open>step_limit\<close> says which those are. The times \<open>ts\<close> are those of the guesses since the last sign-in
  of the pair that succeeded.
\<close>

definition guessed :: "login_config \<Rightarrow> access_env \<Rightarrow> login_command \<Rightarrow> access_db \<Rightarrow> access_error + issued_session \<Rightarrow> time list \<Rightarrow> time list" where
  "guessed cfg env c db r ts =
     (case r of Inr _ \<Rightarrow> []
      | Inl e \<Rightarrow> if e = Invalid_Credentials \<and> evaluated cfg env c db then ts @ [ae_now env] else ts)"

inductive attempts :: "login_config \<Rightarrow> string \<Rightarrow> time \<Rightarrow> time list \<Rightarrow> access_db \<Rightarrow> bool"
  for cfg :: login_config and k :: string where
  none: "limit_of k db = None \<Longrightarrow> attempts cfg k t [] db"
| other: "attempts cfg k t ts db1 \<Longrightarrow> access_step db1 db2 \<Longrightarrow> limit_of k db2 = limit_of k db1 \<Longrightarrow> attempts cfg k t ts db2"
| sign_in: "attempts cfg k t ts db1 \<Longrightarrow> rate_key env c = k \<Longrightarrow> ae_db_now env = ae_now env \<Longrightarrow> t \<le> ae_now env \<Longrightarrow>
    login cfg env c db1 = (r, db2) \<Longrightarrow> attempts cfg k (ae_now env) (guessed cfg env c db1 r ts) db2"

definition accounted :: "login_config \<Rightarrow> time \<Rightarrow> rate_limit option \<Rightarrow> (time \<times> time list) list \<Rightarrow> bool" where
  "accounted cfg t l ws \<longleftrightarrow>
     (case l of None \<Rightarrow> ws = []
      | Some l \<Rightarrow> rl_window_started_at l \<le> t
          \<and> (ws = [] \<and> rl_failure_count l = 0 \<and> rl_blocked_until l = None
             \<or> (\<exists>g ws'. ws = (rl_window_started_at l, g) # ws' \<and> g \<noteq> [] \<and> int (length g) = rl_failure_count l
                 \<and> (lc_max_failures cfg \<le> rl_failure_count l \<longrightarrow>
                      (\<exists>b. rl_blocked_until l = Some b \<and> rl_window_started_at l + lc_window cfg \<le> b)))))"

lemma guess_accounted:
  assumes "windows (lc_window cfg) (nat (lc_max_failures cfg)) ws" "accounted cfg t lim ws" "t \<le> ae_now env"
    and "0 < lc_window cfg" "lc_window cfg \<le> lc_block_for cfg" "1 \<le> lc_max_failures cfg"
    and "ae_db_now env = ae_now env" "l = (case lim of None \<Rightarrow> fresh_limit env k | Some l \<Rightarrow> l)"
    and "\<not> blocked env (current_limit cfg env l)"
  shows "\<exists>us. windows (lc_window cfg) (nat (lc_max_failures cfg)) us
      \<and> accounted cfg (ae_now env) (Some (count_failure cfg env (current_limit cfg env l))) us \<and> guesses_of us = guesses_of ws @ [ae_now env]"
proof (cases "lim = None \<or> lc_window cfg \<le> ae_now env - rl_window_started_at l")
  case True
  have start: "rl_window_started_at (current_limit cfg env l) = ae_now env" "rl_failure_count (current_limit cfg env l) = 0"
    using True assms(4,7,8) by (auto simp: current_limit_def fresh_limit_def)
  have "\<forall>v\<in>set ws. fst v + lc_window cfg \<le> ae_now env"
    using True assms(1,2,4,8) by (cases lim) (fastforce simp: accounted_def)+
  with start assms(1,4-6) show ?thesis
    by (intro exI [of _ "(ae_now env, [ae_now env]) # ws"]) (auto simp: accounted_def count_failure_def Let_def)
next
  case False
  with assms(8) have lim: "lim = Some l" by auto
  have same: "current_limit cfg env l = l" using False by (simp add: current_limit_def)
  have late: "rl_window_started_at l \<le> ae_now env" using assms(2,3) lim by (simp add: accounted_def)
  show ?thesis
  proof (cases "ws = []")
    case True
    with assms(2) lim have "rl_failure_count l = 0" by (auto simp: accounted_def)
    with True late False same assms(1,5,6) show ?thesis
      by (intro exI [of _ "[(rl_window_started_at l, [ae_now env])]"]) (auto simp: accounted_def count_failure_def Let_def)
  next
    case ne: False
    with assms(2) lim obtain g ws' where ws: "ws = (rl_window_started_at l, g) # ws'" "g \<noteq> []" "int (length g) = rl_failure_count l"
      and full: "lc_max_failures cfg \<le> rl_failure_count l \<Longrightarrow>
        \<exists>b. rl_blocked_until l = Some b \<and> rl_window_started_at l + lc_window cfg \<le> b"
      by (auto simp: accounted_def)
    have "rl_failure_count l < lc_max_failures cfg"
      using full assms(9) same False by (cases "lc_max_failures cfg \<le> rl_failure_count l") (auto simp: blocked_def)
    with ws late False same assms(1,5) show ?thesis
      by (intro exI [of _ "(rl_window_started_at l, g @ [ae_now env]) # ws'"])
        (auto simp: accounted_def count_failure_def Let_def)
  qed
qed

lemma accounted_later: "accounted cfg t l ws \<Longrightarrow> t \<le> t' \<Longrightarrow> accounted cfg t' l ws"
  by (auto simp: accounted_def split: option.splits)

lemma sign_in_accounted:
  assumes "windows (lc_window cfg) (nat (lc_max_failures cfg)) ws" "accounted cfg t (limit_of (rate_key env c) db) ws"
    and "t \<le> ae_now env" "ae_db_now env = ae_now env" "login cfg env c db = (r, db')"
    and "0 < lc_window cfg" "lc_window cfg \<le> lc_block_for cfg" "1 \<le> lc_max_failures cfg"
  shows "\<exists>us. windows (lc_window cfg) (nat (lc_max_failures cfg)) us
      \<and> accounted cfg (ae_now env) (limit_of (rate_key env c) db') us \<and> guesses_of us = guessed cfg env c db r (guesses_of ws)"
proof (cases "r = Inl Invalid_Credentials \<and> evaluated cfg env c db")
  case True
  let ?l = "fst (login_rate_limit env (rate_key env c) db)"
  have "\<not> blocked env (current_limit cfg env ?l)" using True by (simp add: evaluated_def)
  with guess_accounted [OF assms(1-3,6-8,4) limit_read] guess_counts [of cfg env c db db'] True assms(5) show ?thesis
    by (auto simp: guessed_def)
next
  case False
  show ?thesis
  proof (cases r)
    case (Inr x)
    with sign_in_limit [OF assms(5)] show ?thesis
      by (intro exI [of _ "[]"]) (simp add: accounted_def clear_limit_def guessed_def)
  next
    case (Inl e)
    with False sign_in_limit [OF assms(5)] have "limit_of (rate_key env c) db' = limit_of (rate_key env c) db
       \<or> limit_of (rate_key env c) db = None \<and> limit_of (rate_key env c) db' = Some (fresh_limit env (rate_key env c))"
      by auto
    then have "accounted cfg (ae_now env) (limit_of (rate_key env c) db') ws"
      using accounted_later [OF assms(2,3)] assms(2,4) by (auto simp: accounted_def fresh_limit_def)
    with assms(1) Inl False show ?thesis by (auto simp: guessed_def)
  qed
qed

lemma attempts_windows:
  assumes "attempts cfg k t ts db" "0 < lc_window cfg" "lc_window cfg \<le> lc_block_for cfg" "1 \<le> lc_max_failures cfg"
  shows "\<exists>ws. windows (lc_window cfg) (nat (lc_max_failures cfg)) ws \<and> accounted cfg t (limit_of k db) ws \<and> guesses_of ws = ts"
  using assms(1)
proof (induction rule: attempts.induct)
  case (none db t)
  then show ?case by (intro exI [of _ "[]"]) (simp add: accounted_def)
next
  case (other t ts db1 db2)
  then show ?case by simp
next
  case (sign_in t ts db1 env c r db2)
  then show ?case using sign_in_accounted [OF _ _ sign_in.hyps(4,3,5) assms(2-4)] by metis
qed

text \<open>
  C18: Guessing is bounded between two successful sign-ins. For one name from one remote, with a
  service whose block is at least as long as its window, the passwords the service compares
  and refuses since the last sign-in of the pair that succeeded, or since its first ever, are
  at most twice the configured number of failures in any interval of the length of a window.
  The sign-ins of the pair may be any, blocked, refused or successful; between them any other
  commands may run, as long as they leave the record of the pair alone. The clocks of
  service and database agree on each sign-in of the pair and do not go back between them. A
  successful sign-in starts the count again, so nothing bounds the guesses of somebody who can sign in.
\<close>

theorem guesses_bounded:
  assumes "new_authentication raw = Inr cfg" "lc_window cfg \<le> lc_block_for cfg" "attempts cfg k t ts db"
  shows "int (occurrences a (lc_window cfg) ts) \<le> 2 * lc_max_failures cfg"
proof -
  have c: "0 < lc_window cfg" "1 \<le> lc_max_failures cfg"
    using assms(1) by (auto simp: new_authentication_def Let_def hour_def minute_def nanoseconds_per_second_def split: if_splits)
  obtain ws where "windows (lc_window cfg) (nat (lc_max_failures cfg)) ws" "guesses_of ws = ts"
    using attempts_windows [OF assms(3) c(1) assms(2) c(2)] by blast
  with windows_bound [OF c(1), of _ ws a] c show ?thesis by fastforce
qed

lemma demo_guess:
  assumes "0 < lc_window cfg"
  shows "\<exists>db. login cfg (demo_env 100) (demo_login ''wrong'') demo_db = (Inl Invalid_Credentials, db)"
    and "evaluated cfg (demo_env 100) (demo_login ''wrong'') demo_db"
    and "limit_of (rate_key (demo_env 100) (demo_login ''wrong'')) demo_db = None"
proof -
  show new: "limit_of (rate_key (demo_env 100) (demo_login ''wrong'')) demo_db = None" by (simp add: limit_of_def)
  show "evaluated cfg (demo_env 100) (demo_login ''wrong'') demo_db"
    using assms new by (simp add: evaluated_def limit_read current_limit_def fresh_limit_def blocked_def)
  have "\<exists>db. login_within cfg (demo_env 100) (demo_login ''wrong'') demo_db = Inr (Inl Invalid_Credentials, db)
      \<and> db_users db = [demo_root] \<and> db_control db = Some (1, 1)"
    using assms
    by (simp add: login_within_def Let_def demo_names rate_key_def demo_username lookup_username_def login_rate_limit_def
      fresh_limit_def current_limit_def blocked_def user_by_username_def user_by_def demo_root_def may_sign_in_def
      failed_login_def count_failure_def save_login_rate_limit_def refuse_def audit_login_def append_login_audit_def
      login_outcomes_def)
  then show "\<exists>db. login cfg (demo_env 100) (demo_login ''wrong'') demo_db = (Inl Invalid_Credentials, db)"
    by (auto simp: login_def answered_def within_def control_ok_def demo_root_def)
qed

theorem guesses_bounded_witness:
  "\<exists>db. attempts demo_config (rate_key (demo_env 100) (demo_login ''wrong'')) 100 [100] db
     \<and> int (occurrences 100 (15 * minute) [100]) \<le> 10"
proof -
  let ?k = "rate_key (demo_env 100) (demo_login ''wrong'')"
  obtain db where l: "login demo_config (demo_env 100) (demo_login ''wrong'') demo_db = (Inl Invalid_Credentials, db)"
    using demo_guess [of demo_config] by auto
  have "attempts demo_config ?k (ae_now (demo_env 100))
      (guessed demo_config (demo_env 100) (demo_login ''wrong'') demo_db (Inl Invalid_Credentials) []) db"
    by (rule attempts.sign_in [OF attempts.none [of _ _ _ 100] refl _ _ l]) (use demo_guess [of demo_config] in auto)
  then have g: "attempts demo_config ?k 100 [100] db" using demo_guess(2) [of demo_config] by (simp add: guessed_def)
  have c: "new_authentication demo_config = Inr demo_config"
    by (simp add: new_authentication_def demo_config_def Let_def)
  have "int (occurrences 100 (lc_window demo_config) [100]) \<le> 2 * lc_max_failures demo_config"
    by (intro guesses_bounded [OF c _ g]) auto
  with g show ?thesis by auto
qed

section \<open>How long a block lasts\<close>

text \<open>
  C38: A block does not last as long as configured. The failure that fills a window records a
  block of the configured length, but the next attempt after the end of the window is evaluated
  again, whatever is left of the block: the block ends with its own time or with the window in
  which the failures were counted, whichever comes first. Under the defaults, a block as long
  as the window, only a window filled in its first instant is blocked for the configured time.
\<close>

theorem login_block_cut_short:
  assumes "evaluated cfg env c db" "login cfg env c db = (Inl Invalid_Credentials, db')"
    and "limit_of (rate_key env c) db' = Some l" "lc_max_failures cfg \<le> rl_failure_count l"
    and "rate_key env' c' = rate_key env c"
  shows "rl_blocked_until l = Some (ae_now env + lc_block_for cfg)
     \<and> (evaluated cfg env' c' db' \<longleftrightarrow>
          min (ae_now env + lc_block_for cfg) (rl_window_started_at l + lc_window cfg) \<le> ae_now env')"
proof -
  have l: "l = count_failure cfg env (current_limit cfg env (fst (login_rate_limit env (rate_key env c) db)))"
    using guess_counts [OF assms(2,1)] assms(3) by simp
  then have b: "rl_blocked_until l = Some (ae_now env + lc_block_for cfg)"
    using assms(4) by (auto simp: count_failure_def Let_def split: if_splits)
  have "fst (login_rate_limit env' (rate_key env' c') db') = l"
    using assms(3,5) by (simp add: limit_read)
  then have "evaluated cfg env' c' db' \<longleftrightarrow> \<not> blocked env' (current_limit cfg env' l)" by (simp add: evaluated_def)
  also have "\<dots> \<longleftrightarrow> min (ae_now env + lc_block_for cfg) (rl_window_started_at l + lc_window cfg) \<le> ae_now env'"
    using b by (auto simp: blocked_def current_limit_def)
  finally show ?thesis using b by blast
qed

definition strict_config :: login_config where
  "strict_config = demo_config\<lparr>lc_max_failures := 1, lc_block_for := 30 * minute\<rparr>"

lemma strict_config_simps [simp]:
  "lc_max_failures strict_config = 1" "lc_block_for strict_config = 30 * minute" "lc_window strict_config = 15 * minute"
  by (simp_all add: strict_config_def)

theorem login_block_cut_short_witness:
  "\<exists>db l. limit_of (rate_key (demo_env 100) (demo_login ''wrong'')) db = Some l
     \<and> rl_blocked_until l = Some (100 + 30 * minute)
     \<and> evaluated strict_config (demo_env (100 + 15 * minute)) (demo_login ''wrong'') db"
proof -
  let ?k = "rate_key (demo_env 100) (demo_login ''wrong'')"
  have w: "0 < lc_window strict_config" by simp
  obtain db where l: "login strict_config (demo_env 100) (demo_login ''wrong'') demo_db = (Inl Invalid_Credentials, db)"
    using demo_guess(1) [OF w] by blast
  let ?l = "count_failure strict_config (demo_env 100) (current_limit strict_config (demo_env 100) (fresh_limit (demo_env 100) ?k))"
  have k: "limit_of ?k db = Some ?l"
    using guess_counts [OF l demo_guess(2) [OF w]] demo_guess(3) [OF w] by (simp add: limit_read)
  have f: "rl_failure_count ?l = 1" "rl_window_started_at ?l = 100"
    by (simp_all add: count_failure_def current_limit_def fresh_limit_def)
  have same: "rate_key (demo_env (100 + 15 * minute)) (demo_login ''wrong'') = ?k" by (simp add: rate_key_def demo_names)
  have "rl_blocked_until ?l = Some (ae_now (demo_env 100) + lc_block_for strict_config)
     \<and> (evaluated strict_config (demo_env (100 + 15 * minute)) (demo_login ''wrong'') db \<longleftrightarrow>
          min (ae_now (demo_env 100) + lc_block_for strict_config) (rl_window_started_at ?l + lc_window strict_config)
            \<le> ae_now (demo_env (100 + 15 * minute)))"
    by (rule login_block_cut_short [OF demo_guess(2) [OF w] l k _ same]) (simp add: f)
  with k f show ?thesis by auto
qed

end
