(* ===== verification/Access_Ranks.thy ===== *)
theory Access_Ranks
  imports Access_Properties
begin

text \<open>
  Who may change whose account. The governed commands of \<open>governance.go\<close> as one relation
  \<open>governed\<close> between the databases before and after: five of them (\<open>managed\<close>) change accounts of
  a lower rank only, the sixth hands the super administrator over to an administrator. All take
  effect once per actor and key, never fail the control check of the commit, and are exactly
  the actions the page offers. The refresh of the staff names, which cannot succeed in changing one, is here too.
\<close>

section \<open>Ranks and commands\<close>

fun rank :: "role \<Rightarrow> nat" where
  "rank Super_Admin = 3"
| "rank Admin = 2"
| "rank Viewer = 1"
| "rank (Role_Other s) = 0"

definition outranks :: "role \<Rightarrow> role \<Rightarrow> bool" where
  "outranks r q \<longleftrightarrow> valid_role r \<and> valid_role q \<and> rank q < rank r"

lemma outranks_simps [simp]:
  "outranks Super_Admin q \<longleftrightarrow> q = Admin \<or> q = Viewer" "outranks Admin q \<longleftrightarrow> q = Viewer" "\<not> outranks Viewer q"
  by (cases q; auto simp: outranks_def valid_role_def)+

lemma can_manage_outranks: "can_manage_target r q \<longleftrightarrow> outranks r q"
  by (cases r; cases q) (auto simp: can_manage_target_def outranks_def valid_role_def)

lemma can_provision_outranks: "can_provision r q \<longleftrightarrow> outranks r q"
  by (cases r; cases q) (auto simp: can_provision_def outranks_def valid_role_def)

inductive managed :: "principal \<Rightarrow> string \<Rightarrow> access_db \<Rightarrow> access_db \<Rightarrow> bool" where
  provision: "provision_enterprise_employee g env p i db = Inr (u, db') \<Longrightarrow> managed p (pi_key i) db db'"
| login: "set_governance_login_enabled g env p l db = Inr (x, db') \<Longrightarrow> managed p (le_key l) db db'"
| role: "set_governance_role g env p r db = Inr (x, db') \<Longrightarrow> managed p (ri_key r) db db'"
| bind: "bind_governance_wecom_user_id g env p b db = Inr (x, db') \<Longrightarrow> managed p (bi_key b) db db'"
| password: "reset_governance_password g env p w db = Inr (x, db') \<Longrightarrow> managed p (pw_key w) db db'"

lemma managed_step: "managed p k db db' \<Longrightarrow> access_step db db'"
  by (induction rule: managed.induct) (auto intro: access_step.intros)

definition governed :: "principal \<Rightarrow> string \<Rightarrow> access_db \<Rightarrow> access_db \<Rightarrow> bool" where
  "governed p k db db' \<longleftrightarrow>
     managed p k db db' \<or> (\<exists>g env i x. tr_key i = k \<and> transfer_governance_super_admin g env p i db = Inr (x, db'))"

lemma governed_step: "governed p k db db' \<Longrightarrow> access_step db db'"
  by (auto simp: governed_def intro: managed_step access_step.transfer)

lemma current_actor:
  assumes "current_governance_actor p db = Inr (a, r)"
  shows "a \<in> set (db_users db)" "u_id a = p_internal_id p" "may_sign_in a" "u_session_version a = p_session_version p"
    "set (u_roles a) = {r}" "r = Super_Admin \<or> r = Admin"
  using assms single_roleD [of "u_roles a" r]
  by (auto simp: current_governance_actor_def and_then_eq_Inr dest!: user_by_id_Inr split: if_splits sum.splits)

section \<open>What the commands write\<close>

text \<open>One account written: its identity kept, and its roles too, or replaced by one.\<close>

definition writes_account :: "int64 \<Rightarrow> role option \<Rightarrow> access_db \<Rightarrow> access_db \<Rightarrow> bool" where
  "writes_account i new db db' \<longleftrightarrow>
     db_control db' = db_control db \<and> (\<exists>f. db_users db' = map (\<lambda>u. if u_id u = i then f u else u) (db_users db)
        \<and> (\<forall>u\<in>set (db_users db). u_id u = i \<longrightarrow>
              u_id (f u) = i \<and> u_roles (f u) = (case new of None \<Rightarrow> u_roles u | Some r \<Rightarrow> [r])))"

lemma writes_none: "writes_account i None db db"
  unfolding writes_account_def by (intro conjI refl exI [of _ id]) (simp_all add: map_idI)

lemma writes_fence:
  assumes "fence env u f db = Inr db'" "u_id u = i"
    and "\<And>v. u_id (f v) = u_id v" "\<And>v. u_roles (f v) = (case new of None \<Rightarrow> u_roles v | Some r \<Rightarrow> [r])"
  shows "writes_account i new db db'"
  using assms unfolding writes_account_def fence_def map_user_def
  by (intro conjI exI [of _ "\<lambda>v. (f v)\<lparr>u_session_version := u_session_version v + 1, u_updated_at := ae_now env\<rparr>"])
    (auto split: if_splits)

lemma audit_users: "audit_access env a t x d db = Inr db' \<Longrightarrow> db_users db' = db_users db \<and> db_control db' = db_control db"
  by (auto simp: audit_access_def append_access_audit_def split: if_splits)

lemma reserve_users:
  "reserve_governance_mutation a k x t d db = Inr (b, db') \<Longrightarrow> db_users db' = db_users db \<and> db_control db' = db_control db"
  by (auto simp: reserve_governance_mutation_def split: if_splits option.splits)

lemma writes_later: "writes_account i new db db1 \<Longrightarrow> db_users db2 = db_users db1 \<and> db_control db2 = db_control db1 \<Longrightarrow> writes_account i new db db2"
  by (simp add: writes_account_def)

lemma insert_one_role: "insert_roles os [] [r] = Inr rs \<Longrightarrow> rs = [r]"
  by (auto split: if_splits)

lemma writes_statements:
  "set_login_enabled env i b db = Inr db' \<Longrightarrow> writes_account i None db db'"
  "replace_roles env i [r] db = Inr db' \<Longrightarrow> writes_account i (Some r) db db'"
  "set_wecom_user_id env i w db = Inr db' \<Longrightarrow> writes_account i None db db'"
  "set_password_hash env i h db = Inr db' \<Longrightarrow> writes_account i None db db'"
  "grant_access env i r n db = Inr db' \<Longrightarrow> writes_account i (Some r) db db'"
  unfolding set_login_enabled_def replace_roles_def set_wecom_user_id_def set_password_hash_def grant_access_def
  by (auto simp: and_then_eq_Inr Let_def writes_none simp del: insert_roles.simps
      dest!: user_by_id_Inr insert_one_role split: if_splits intro: writes_fence)

section \<open>What the commands may do\<close>

definition below :: "role \<Rightarrow> user \<Rightarrow> bool" where
  "below r u \<longleftrightarrow> (\<forall>q\<in>set (u_roles u). outranks r q)"

definition allowed :: "role \<Rightarrow> access_db \<Rightarrow> access_db \<Rightarrow> bool" where
  "allowed r db db' \<longleftrightarrow>
     db_control db' = db_control db \<and> (db_users db' = db_users db
     \<or> (\<exists>u\<in>set (db_users db). \<exists>new. writes_account (u_id u) new db db'
          \<and> (case new of None \<Rightarrow> below r u | Some q \<Rightarrow> outranks r q \<and> (u_access_granted_at u = None \<or> below r u)))
     \<or> (\<exists>u q. db_users db' = db_users db @ [u] \<and> u_roles u = [q] \<and> outranks r q))"

lemma allowed_refl [simp]: "allowed r db db"
  by (simp add: allowed_def)

lemma allowed_write:
  assumes "writes_account (u_id u) new db db1" "db_users db' = db_users db1 \<and> db_control db' = db_control db1" "u \<in> set (db_users db)"
    and "case new of None \<Rightarrow> below r u | Some q \<Rightarrow> outranks r q \<and> (u_access_granted_at u = None \<or> below r u)"
  shows "allowed r db db'"
proof -
  have "db_control db' = db_control db" using assms(1,2) by (simp add: writes_account_def)
  then show ?thesis using writes_later [OF assms(1,2)] assms(3,4) unfolding allowed_def by blast
qed

lemma changes_allowed:
  assumes "u \<in> set (db_users db)" "set (u_roles u) = {q}" "can_any_governance_mutation r q"
  shows "login_change env p l r u q db = Inr db' \<Longrightarrow> allowed r db db'"
    and "role_change env p i r u q db = Inr db' \<Longrightarrow> ri_role i = Admin \<or> ri_role i = Viewer \<Longrightarrow> allowed r db db'"
    and "bind_change env p w r u q db = Inr db' \<Longrightarrow> allowed r db db'"
    and "password_change env p h r u q db = Inr db' \<Longrightarrow> allowed r db db'"
proof -
  have below: "below r u" if "outranks r q" for r using that assms(2) by (simp add: below_def)
  have written: "allowed r db db'" if "writes_account (u_id u) None db db1"
      "db_users db' = db_users db1 \<and> db_control db' = db_control db1" "outranks r q" for db1 db' r
    using allowed_write [OF that(1,2) assms(1)] below [OF that(3)] by simp
  have role: "allowed r db db'" if "writes_account (u_id u) (Some x) db db1"
      "db_users db' = db_users db1 \<and> db_control db' = db_control db1" "outranks r q" "outranks r x" for db1 db' x r
    using allowed_write [OF that(1,2) assms(1)] below [OF that(3)] that(4) by simp
  show "login_change env p l r u q db = Inr db' \<Longrightarrow> allowed r db db'"
    by (auto simp: login_change_def and_then_eq_Inr can_manage_outranks split: if_splits
        dest!: audit_users writes_statements(1) intro: written)
  show "role_change env p i r u q db = Inr db' \<Longrightarrow> ri_role i = Admin \<or> ri_role i = Viewer \<Longrightarrow> allowed r db db'"
    by (auto simp: role_change_def and_then_eq_Inr can_manage_outranks split: if_splits
        dest!: audit_users writes_statements(2) intro: role)
  show "bind_change env p w r u q db = Inr db' \<Longrightarrow> allowed r db db'"
    using assms(3) by (auto simp: bind_change_def and_then_eq_Inr can_any_governance_mutation_def can_manage_outranks split: if_splits
        dest!: audit_users writes_statements(3) intro: written)
  show "password_change env p h r u q db = Inr db' \<Longrightarrow> allowed r db db'"
    using assms(3) by (auto simp: password_change_def and_then_eq_Inr can_any_governance_mutation_def can_manage_outranks split: if_splits
        dest!: audit_users writes_statements(4) intro: written)
qed

lemma target_within_allowed:
  assumes "governance_target_within p t k act d f db = Inr (x, db')"
    and "\<And>r u q db db'. u \<in> set (db_users db) \<Longrightarrow> set (u_roles u) = {q} \<Longrightarrow> can_any_governance_mutation r q \<Longrightarrow>
      f r u q db = Inr db' \<Longrightarrow> allowed r db db'"
  obtains a r where "current_governance_actor p db = Inr (a, r)" "allowed r db db'"
proof -
  obtain a r u q db1 b where a: "current_governance_actor p db = Inr (a, r)" "user_by_id t db = Inr u"
      "single_role (u_roles u) = Inr q" "can_any_governance_mutation r q"
    and reserve: "reserve_governance_mutation (p_internal_id p) k act t d db = Inr (b, db1)"
    and rest: "db' = db1 \<or> f r u q db1 = Inr db'"
    using assms(1)
    by (auto simp: governance_target_within_def and_then_eq_Inr split: if_splits)
  from reserve have same: "db_users db1 = db_users db" "db_control db1 = db_control db" by (auto dest: reserve_users)
  have "u \<in> set (db_users db1)" "set (u_roles u) = {q}"
    using user_by_id_Inr [OF a(2)] single_roleD [OF a(3)] same by auto
  with rest a(4) assms(2) have "db' = db1 \<or> allowed r db1 db'" by blast
  with same have "allowed r db db'" by (auto simp: allowed_def writes_account_def)
  with a(1) show ?thesis by (rule that)
qed

lemma target_allowed:
  assumes "with_governance_target p t k act d f db = Inr (x, db')"
    and "\<And>r u q db db'. u \<in> set (db_users db) \<Longrightarrow> set (u_roles u) = {q} \<Longrightarrow> can_any_governance_mutation r q \<Longrightarrow>
      f r u q db = Inr db' \<Longrightarrow> allowed r db db'"
  obtains a r where "current_governance_actor p db = Inr (a, r)" "allowed r db db'"
  using assms(1) by (auto simp: with_governance_target_def within_Inr split: if_splits
      elim!: target_within_allowed [OF _ assms(2)] intro: that)

lemma created_user:
  "create_user env u db = Inr (v, db') \<Longrightarrow> db_users db' = db_users db @ [v] \<and> u_roles v = u_roles u \<and> db_control db' = db_control db"
  by (auto simp: create_user_def insert_user_def and_then_eq_Inr Let_def split: if_splits)

lemma provision_allowed:
  assumes "provision_within g env p i e h db = Inr (x, db')"
  obtains a r where "current_governance_actor p db = Inr (a, r)" "allowed r db db'"
proof -
  obtain a r b db1 where a: "current_governance_actor p db = Inr (a, r)" "outranks r (pi_role i)"
    and reserve: "reserve_governance_mutation (p_internal_id p) (pi_key i) (provision_action (pi_role i)) (p_internal_id p)
        (governance_digest g [''provision'', em_userid e, role_string (pi_role i)]) db = Inr (b, db1)"
    and rest: "db' = db1 \<or> (\<exists>u. u \<in> set (db_users db1) \<and> grant_existing env p (pi_role i) e u db1 = Inr (x, db'))
      \<or> provision_new env p (pi_role i) e h db1 = Inr (x, db')"
    using assms unfolding provision_within_def user_by_wecom_user_id_def
    by (auto simp: and_then_eq_Inr can_provision_outranks split: if_splits sum.splits dest!: user_by_Inr)
  from reserve have same: "db_users db1 = db_users db" "db_control db1 = db_control db" by (auto dest: reserve_users)
  have "allowed r db1 db'" if u: "u \<in> set (db_users db1)" and g: "grant_existing env p (pi_role i) e u db1 = Inr (x, db')" for u
  proof -
    obtain db2 where "u_access_granted_at u = None" "grant_access env (u_id u) (pi_role i) (em_display_name e) db1 = Inr db2"
      "db_users db' = db_users db2 \<and> db_control db' = db_control db2"
      using g by (auto simp: grant_existing_def and_then_eq_Inr split: if_splits dest!: audit_users)
    with u a(2) show ?thesis by (intro allowed_write [OF writes_statements(5)]) auto
  qed
  moreover have "allowed r db1 db'" if "provision_new env p (pi_role i) e h db1 = Inr (x, db')"
    using that a(2) unfolding provision_new_def allowed_def below_def
    by (fastforce simp: and_then_eq_Inr dest!: audit_users created_user)
  ultimately have "allowed r db1 db'" using rest by auto
  with same have "allowed r db db'" by (auto simp: allowed_def writes_account_def)
  with a(1) show ?thesis by (rule that)
qed

lemma managed_allowed:
  assumes "managed p k db db'"
  obtains a r where "current_governance_actor p db = Inr (a, r)" "allowed r db db'"
  using assms
proof cases
  case (provision g env i u)
  then show ?thesis by (auto simp: governance_commands and_then_eq_Inr within_Inr split: if_splits elim!: provision_allowed intro: that)
next
  case (login g env l x)
  then have "with_governance_target p (le_target l) k ''set_login_enabled'' (governance_digest g [''login'', bool_string (le_enabled l)])
      (login_change env p l) db = Inr (x, db')" by (simp add: governance_commands split: if_splits)
  then show ?thesis by (rule target_allowed) (auto intro: that changes_allowed(1))
next
  case (role g env r x)
  then have "with_governance_target p (ri_target r) k ''set_role'' (governance_digest g [''role'', role_string (ri_role r)])
      (role_change env p r) db = Inr (x, db')" "ri_role r = Admin \<or> ri_role r = Viewer"
    by (auto simp: governance_commands split: if_splits)
  from target_allowed [OF this(1)] changes_allowed(2) [OF _ _ _ _ this(2)] that show ?thesis by blast
next
  case (bind g env b x)
  then obtain w where "with_governance_target p (bi_target b) k ''bind_wecom_userid'' (governance_digest g [''bind'', w])
      (bind_change env p w) db = Inr (x, db')" by (auto simp: governance_commands and_then_eq_Inr split: if_splits)
  then show ?thesis by (rule target_allowed) (auto intro: that changes_allowed(3))
next
  case (password g env w x)
  then obtain h where "with_governance_target p (pw_target w) k ''reset_password'' (governance_digest g [''password'', pw_password w])
      (password_change env p h) db = Inr (x, db')" by (auto simp: governance_commands and_then_eq_Inr split: if_splits)
  then show ?thesis by (rule target_allowed) (auto intro: that changes_allowed(4))
qed

lemma managed_below_rank:
  assumes "reachable_access db" "managed p k db db'" "v \<in> set (db_users db')" "v \<notin> set (db_users db)"
  shows "\<exists>a\<in>set (db_users db). \<exists>r. u_id a = p_internal_id p \<and> u_session_version a = p_session_version p
      \<and> may_sign_in a \<and> u_roles a = [r] \<and> u_id v \<noteq> u_id a \<and> (\<forall>q\<in>set (u_roles v). outranks r q)
      \<and> (\<forall>u\<in>set (db_users db). u_id u = u_id v \<longrightarrow>
            u_access_granted_at u = None \<or> (\<forall>q\<in>set (u_roles u). outranks r q))"
proof -
  obtain a r where actor: "current_governance_actor p db = Inr (a, r)" and allowed: "allowed r db db'"
    using managed_allowed [OF assms(2)] .
  note a = current_actor [OF actor]
  have ok: "rows_ok db" using assms(1) by (rule reachable_rows)
  then have "length (u_roles a) \<le> 1" using a(1) by (simp add: rows_ok_def user_row_ok_def)
  with a(5) have roles: "u_roles a = [r]" by (cases "u_roles a") auto
  have granted: "u_access_granted_at a \<noteq> None" using a(3) by (simp add: may_sign_in_def)
  have self: "\<not> outranks r r" by (simp add: outranks_def)
  consider (wrote) u new where "u \<in> set (db_users db)" "writes_account (u_id u) new db db'"
      "case new of None \<Rightarrow> below r u | Some q \<Rightarrow> outranks r q \<and> (u_access_granted_at u = None \<or> below r u)"
    | (added) u q where "db_users db' = db_users db @ [u]" "u_roles u = [q]" "outranks r q"
    using allowed assms(3,4) unfolding allowed_def by auto
  then show ?thesis
  proof cases
    case wrote
    obtain f where f: "db_users db' = map (\<lambda>w. if u_id w = u_id u then f w else w) (db_users db)"
      "\<forall>w\<in>set (db_users db). u_id w = u_id u \<longrightarrow> u_id (f w) = u_id u \<and> u_roles (f w) = (case new of None \<Rightarrow> u_roles w | Some q \<Rightarrow> [q])"
      using wrote(2) unfolding writes_account_def by blast
    have "v = f u" using f(1) assms(3,4) same_id [OF ok _ wrote(1)] by auto
    with f(2) wrote(1) have v: "u_id v = u_id u" "u_roles v = (case new of None \<Rightarrow> u_roles u | Some q \<Rightarrow> [q])" by auto
    have only: "w = u" if "w \<in> set (db_users db)" "u_id w = u_id v" for w
      using same_id [OF ok that(1) wrote(1)] that(2) v(1) by simp
    have u: "u_access_granted_at u = None \<or> below r u" using wrote(3) by (cases new) auto
    have below: "\<forall>q\<in>set (u_roles v). outranks r q" using wrote(3) v(2) by (cases new) (auto simp: below_def)
    have "u_id v \<noteq> u_id a" using only [OF a(1)] u roles granted self by (auto simp: below_def)
    moreover have "\<forall>w\<in>set (db_users db). u_id w = u_id v \<longrightarrow>
        u_access_granted_at w = None \<or> (\<forall>q\<in>set (u_roles w). outranks r q)"
      using only u by (auto simp: below_def)
    ultimately show ?thesis using a(1-4) roles below by blast
  next
    case added
    have ok': "rows_ok db'"
      using managed_step [OF assms(2)] access_step_keeps ok by (auto simp: keeps_def)
    have v: "v = u" using added(1) assms(3,4) by auto
    have fresh: "\<forall>w\<in>set (db_users db). u_id w \<noteq> u_id v"
      using ok' added(1) v by (simp add: rows_ok_def) (metis imageI)
    then show ?thesis using a(1-4) roles added(2,3) v by (intro bexI [OF _ a(1)] exI [of _ r]) auto
  qed
qed

text \<open>An example: the super administrator adds an administrator and switches the login off.\<close>

definition demo_admin :: user where
  "demo_admin =
     demo_root\<lparr>u_id := 2, u_username := ''admin1'', u_display_name := ''Ann'', u_access_granted_at := Some 20,
       u_roles := [Admin], u_created_at := 20, u_updated_at := 20\<rparr>"

lemma demo_two:
  obtains db where "reachable_access db" "db_users db = [demo_root, demo_admin]" "db_control db = Some (1, 1)" "db_receipts db = []"
proof -
  have names: "normalize_username id ''admin1'' = Inr ''admin1''" "trim_space ''Ann'' = ''Ann''"
    by (rule ascii_username; simp add: byte_def) (simp add: ascii_text)
  have "\<exists>db. add_user (demo_env 20) demo_principal
      \<lparr>au_username = ''admin1'', au_password = ''secret'', au_display_name = ''Ann'', au_roles = [Admin]\<rparr> demo_db
      = Inr (demo_admin, db) \<and> db_users db = [demo_root, demo_admin] \<and> db_control db = Some (1, 1) \<and> db_receipts db = []"
    by (simp add: add_user_def require_super_admin_def valid_principal_def is_super_admin_def demo_principal_def names
        normalize_roles_def valid_role_def within_def create_user_def insert_user_def demo_db_def empty_access_db_def
        blank_user_def role_codes_def Let_def user_clashes_def demo_root_def demo_admin_def audit_access_def
        append_access_audit_def audit_actions_def control_ok_def)
  then show ?thesis
    using that reachable_access.step [OF demo_reachable access_step.account] by blast
qed

lemma demo_switch:
  assumes "db_users db = [demo_root, demo_admin]" "db_control db = Some (1, 1)" "db_receipts db = []"
  shows "\<exists>db'. set_governance_login_enabled \<lparr>gc_key = ''key'', gc_directory = None\<rparr> (demo_env 30) demo_principal
      \<lparr>le_target = 2, le_enabled = False, le_key = ''switch''\<rparr> db = Inr ((), db')
    \<and> db_users db' = [demo_root, demo_admin\<lparr>u_login_enabled := False, u_session_version := 2, u_updated_at := 30\<rparr>]
    \<and> db_control db' = Some (1, 1)
    \<and> db_receipts db' = [\<lparr>gr_actor = 1, gr_key = ''switch'', gr_action = ''set_login_enabled'', gr_target = 2,
        gr_digest = governance_digest \<lparr>gc_key = ''key'', gc_directory = None\<rparr> [''login'', ''false'']\<rparr>]"
proof -
  have key: "valid_governance_key ''switch''" "length (runes ''switch'') = 6"
    by (simp_all add: valid_governance_key_def ascii_text)
  show ?thesis
    using assms
    by (simp add: set_governance_login_enabled_def with_governance_target_def key within_def governance_target_within_def
      current_governance_actor_def demo_principal_def user_by_id_def user_by_def demo_root_def demo_admin_def may_sign_in_def
      valid_role_def can_any_governance_mutation_def can_manage_target_def reserve_governance_mutation_def governance_digest_def
      login_change_def login_enabled_unusable_def set_login_enabled_def fence_def map_user_def audit_access_def
      append_access_audit_def audit_actions_def control_ok_def bool_string_def)
qed

section \<open>At most once\<close>

definition has_receipt :: "int64 \<Rightarrow> string \<Rightarrow> access_db \<Rightarrow> bool" where
  "has_receipt a k db \<longleftrightarrow> (\<exists>r\<in>set (db_receipts db). gr_actor r = a \<and> gr_key r = k)"

lemma reserve_result:
  "reserve_governance_mutation a k act t d db = Inr (b, db1) \<Longrightarrow>
     has_receipt a k db1 \<and> (if b then \<not> has_receipt a k db else db1 = db)"
  by (auto simp: reserve_governance_mutation_def has_receipt_def find_None_iff split: if_splits option.splits
      dest: find_Some_pred)

lemma receipts_stay: "access_step\<^sup>*\<^sup>* db db' \<Longrightarrow> rows_ok db \<Longrightarrow> has_receipt a k db \<Longrightarrow> has_receipt a k db'"
  unfolding has_receipt_def using steps_evolve [of db db'] unfolding evolves_def by (metis in_set_conv_decomp append_assoc append_Cons)

definition reserves :: "principal \<Rightarrow> string \<Rightarrow> access_db \<Rightarrow> access_db \<Rightarrow> bool" where
  "reserves p k db db' \<longleftrightarrow>
     (\<exists>act t d. reserve_governance_mutation (p_internal_id p) k act t d db = Inr (False, db')
        \<or> (\<exists>db1. reserve_governance_mutation (p_internal_id p) k act t d db = Inr (True, db1) \<and> keeps db1 db'))"

lemma reserves_intros:
  "reserve_governance_mutation (p_internal_id p) k act t d db = Inr (False, db') \<Longrightarrow> reserves p k db db'"
  "reserve_governance_mutation (p_internal_id p) k act t d db = Inr (True, db1) \<Longrightarrow> keeps db1 db' \<Longrightarrow> reserves p k db db'"
  unfolding reserves_def by blast+

lemma target_reserves:
  assumes "with_governance_target p t k act d f db = Inr (x, db')"
    and "\<And>r u q db db'. f r u q db = Inr db' \<Longrightarrow> keeps db db'"
  shows "reserves p k db db'"
proof -
  obtain r u q b db1 where "reserve_governance_mutation (p_internal_id p) k act t d db = Inr (b, db1)"
    "if b then f r u q db1 = Inr db' else db' = db1"
    using assms(1) by (auto simp: with_governance_target_def within_Inr governance_target_within_def and_then_eq_Inr split: if_splits)
  then show ?thesis by (cases b) (auto intro: reserves_intros assms(2))
qed

lemma keeps_provisioned:
  "grant_existing env p r e u db = Inr (x, db') \<Longrightarrow> keeps db db'" "provision_new env p r e h db = Inr (x, db') \<Longrightarrow> keeps db db'"
  by (auto simp: grant_existing_def provision_new_def and_then_eq_Inr dest!: keeps_statements keeps_audit_access
      intro: access_keeps_trans split: if_splits)

lemma provision_reserves: "provision_within g env p i e h db = Inr (x, db') \<Longrightarrow> reserves p (pi_key i) db db'"
  by (auto simp: provision_within_def and_then_eq_Inr split: if_splits sum.splits
      intro: reserves_intros keeps_provisioned)

lemma keeps_transfer_write: "transfer_write env c t db = Inr (x, db') \<Longrightarrow> keeps db db'"
  by (auto simp: transfer_write_def and_then_eq_Inr dest!: keeps_statements keeps_audit_access) (meson access_keeps_trans)

lemma transfer_reserves: "transfer_within g env p i db = Inr (x, db') \<Longrightarrow> reserves p (tr_key i) db db'"
  by (auto simp: transfer_within_def and_then_eq_Inr split: if_splits dest!: current_actor(2)
      intro: reserves_intros keeps_transfer_write)

lemma managed_reserves: "managed p k db db' \<Longrightarrow> reserves p k db db'"
proof (induction rule: managed.induct)
  case (provision g env p i db u db')
  then show ?case by (auto simp: governance_commands and_then_eq_Inr within_Inr split: if_splits intro: provision_reserves)
qed (auto simp: governance_commands and_then_eq_Inr split: if_splits elim!: target_reserves intro: keeps_changes)

lemma governed_reserves: "governed p k db db' \<Longrightarrow> reserves p k db db'"
  by (auto simp: governed_def governance_commands within_Inr split: if_splits intro: managed_reserves transfer_reserves)

text \<open>
  C20: A governed command takes effect at most once per actor and idempotency key. After one has
  succeeded, every later governed command of the same account with the same key, whatever it
  asks for and whatever ran in between, changes nothing when it succeeds.
\<close>

theorem governance_at_most_once:
  assumes "reachable_access db" "governed p k db db1" "access_step\<^sup>*\<^sup>* db1 db2"
    and "p_internal_id q = p_internal_id p" "governed q k db2 db3"
  shows "db3 = db2"
proof -
  have ok: "rows_ok db" using assms(1) by (rule reachable_rows)
  have "rows_ok db1 \<and> has_receipt (p_internal_id p) k db1"
    using governed_reserves [OF assms(2)] unfolding reserves_def
  proof (elim exE disjE conjE)
    fix act t d assume r: "reserve_governance_mutation (p_internal_id p) k act t d db = Inr (False, db1)"
    with ok show ?thesis using keeps_reserve_governance [OF r] reserve_result [OF r] by (auto simp: keeps_def)
  next
    fix act t d db0 assume r: "reserve_governance_mutation (p_internal_id p) k act t d db = Inr (True, db0)" and k: "keeps db0 db1"
    with ok show ?thesis
      using keeps_reserve_governance [OF r] reserve_result [OF r] by (auto simp: keeps_def evolves_def has_receipt_def)
  qed
  with assms(3) have "has_receipt (p_internal_id p) k db2" by (blast intro: receipts_stay)
  with governed_reserves [OF assms(5)] assms(4) show ?thesis
    unfolding reserves_def by (auto dest!: reserve_result)
qed

text \<open>The example again: the same request a second time.\<close>

definition demo_governance :: governance_config where
  "demo_governance = \<lparr>gc_key = ''key'', gc_directory = None\<rparr>"

definition demo_receipt :: governance_receipt where
  "demo_receipt =
     \<lparr>gr_actor = 1, gr_key = ''switch'', gr_action = ''set_login_enabled'', gr_target = 2,
      gr_digest = governance_digest demo_governance [''login'', ''false'']\<rparr>"

lemma demo_switch_replay:
  assumes "db_users db = [demo_root, u]" "u_id u = 2" "u_roles u = [Admin]" "u_access_granted_at u \<noteq> None"
    and "db_control db = Some (1, 1)" "db_receipts db = [demo_receipt]"
  shows "set_governance_login_enabled demo_governance (demo_env 40) demo_principal \<lparr>le_target = 2, le_enabled = False, le_key = ''switch''\<rparr> db
    = Inr ((), db)"
proof -
  have key: "valid_governance_key ''switch''" "length (runes ''switch'') = 6"
    by (simp_all add: valid_governance_key_def ascii_text)
  show ?thesis
    using assms
    by (simp add: set_governance_login_enabled_def with_governance_target_def key within_def governance_target_within_def
      current_governance_actor_def demo_principal_def user_by_id_def user_by_def demo_root_def may_sign_in_def
      valid_role_def can_any_governance_mutation_def can_manage_target_def reserve_governance_mutation_def demo_receipt_def
      control_ok_def bool_string_def)
      (simp add: demo_governance_def governance_digest_def)
qed

theorem governance_at_most_once_witness:
  "\<exists>db db1. reachable_access db \<and> governed demo_principal ''switch'' db db1 \<and> db1 \<noteq> db
     \<and> governed demo_principal ''switch'' db1 db1 \<and> (\<forall>db3. governed demo_principal ''switch'' db1 db3 \<longrightarrow> db3 = db1)"
proof -
  obtain db where db: "reachable_access db" "db_users db = [demo_root, demo_admin]" "db_control db = Some (1, 1)" "db_receipts db = []"
    using demo_two .
  obtain db1 where s: "set_governance_login_enabled demo_governance (demo_env 30) demo_principal
      \<lparr>le_target = 2, le_enabled = False, le_key = ''switch''\<rparr> db = Inr ((), db1)"
    and u: "db_users db1 = [demo_root, demo_admin\<lparr>u_login_enabled := False, u_session_version := 2, u_updated_at := 30\<rparr>]"
      "db_control db1 = Some (1, 1)" "db_receipts db1 = [demo_receipt]"
    using demo_switch [OF db(2-4)] unfolding demo_governance_def demo_receipt_def by blast
  have first: "governed demo_principal ''switch'' db db1"
    using managed.login [OF s] by (simp add: governed_def)
  have "set_governance_login_enabled demo_governance (demo_env 40) demo_principal
      \<lparr>le_target = 2, le_enabled = False, le_key = ''switch''\<rparr> db1 = Inr ((), db1)"
    by (rule demo_switch_replay [OF u(1) _ _ _ u(2,3)]) (simp_all add: demo_admin_def demo_root_def)
  from managed.login [OF this] have "governed demo_principal ''switch'' db1 db1" by (simp add: governed_def)
  moreover have "db1 \<noteq> db" using u(3) db(4) by auto
  moreover have "\<forall>db3. governed demo_principal ''switch'' db1 db3 \<longrightarrow> db3 = db1"
    using governance_at_most_once [OF db(1) first rtranclp.rtrancl_refl refl] by blast
  ultimately show ?thesis using db(1) first by blast
qed

section \<open>The check of the commit\<close>

lemma control_answered: "control_ok db \<Longrightarrow> control_ok (snd (answered db (within f db)))"
  by (auto simp: answered_def within_Inr split: sum.split)

lemma step_control: "access_step db db' \<Longrightarrow> control_ok db \<Longrightarrow> control_ok db'"
proof (induction rule: access_step.induct)
  case (sign_out db env t c1 r1)
  then have "control_ok (snd (authorize_csrf env t c1 r1 db))" by (auto simp: authorize_csrf_def control_answered)
  then show ?case by (auto simp: logout_def split: sum.split prod.splits intro: control_answered)
qed (auto simp: login_def wecom_login_def authenticate_def authorize_csrf_def allow_def control_answered bootstrap_def add_user_def
    disable_user_def bind_wecom_user_id_def change_roles_def reset_password_def set_login_access_def refresh_staff_names_def
    governance_commands with_governance_target_def and_then_eq_Inr within_Inr Let_def split: sum.splits option.splits if_splits)

lemma reachable_control: "reachable_access db \<Longrightarrow> control_ok db"
proof (induction rule: reachable_access.induct)
  case start
  then show ?case by (simp add: control_ok_def empty_access_db_def)
qed (blast intro: step_control)

text \<open>What a governed command would commit.\<close>

inductive drafts :: "principal \<Rightarrow> access_db \<Rightarrow> access_db \<Rightarrow> bool" where
  provision: "provision_within g env p i e h db = Inr (u, db') \<Longrightarrow> drafts p db db'"
| login: "governance_target_within p t k act d (login_change env p l) db = Inr (x, db') \<Longrightarrow> drafts p db db'"
| role: "governance_target_within p t k act d (role_change env p r) db = Inr (x, db') \<Longrightarrow>
    ri_role r = Admin \<or> ri_role r = Viewer \<Longrightarrow> drafts p db db'"
| bind: "governance_target_within p t k act d (bind_change env p w) db = Inr (x, db') \<Longrightarrow> drafts p db db'"
| password: "governance_target_within p t k act d (password_change env p h) db = Inr (x, db') \<Longrightarrow> drafts p db db'"
| transfer: "transfer_within g env p i db = Inr (x, db') \<Longrightarrow> drafts p db db'"

lemma supers_map:
  assumes "\<And>u. u \<in> set us \<Longrightarrow> Super_Admin \<in> set (u_roles (f u)) \<longleftrightarrow> Super_Admin \<in> set (u_roles u)"
  shows "length (filter (\<lambda>u. Super_Admin \<in> set (u_roles u)) (map f us)) = length (filter (\<lambda>u. Super_Admin \<in> set (u_roles u)) us)"
  using assms by (induction us) auto

lemma sole_super:
  assumes "control_ok db" "u \<in> set (db_users db)" "Super_Admin \<in> set (u_roles u)" "v \<in> set (db_users db)"
    "Super_Admin \<in> set (u_roles v)"
  shows "u = v"
proof -
  let ?us = "filter (\<lambda>u. Super_Admin \<in> set (u_roles u)) (db_users db)"
  have "u \<in> set ?us" "v \<in> set ?us" using assms(2-5) by simp_all
  moreover obtain x where "?us = [x]"
    using assms(1,2) by (auto simp: control_ok_def length_Suc_conv split: option.splits)
  ultimately show ?thesis by simp
qed

lemma allowed_control:
  assumes "rows_ok db" "control_ok db" "a \<in> set (db_users db)" "allowed r db db'" "r = Super_Admin \<or> r = Admin"
  shows "control_ok db'"
proof -
  obtain owner n w0 where c: "db_control db = Some (owner, n)" "w0 \<in> set (db_users db)" "u_id w0 = owner" "u_roles w0 = [Super_Admin]"
      "u_active w0" "u_login_enabled w0" "u_access_granted_at w0 \<noteq> None"
    and one: "\<forall>u\<in>set (db_users db). length (u_roles u) = 1"
    and single: "length (filter (\<lambda>u. Super_Admin \<in> set (u_roles u)) (db_users db)) = 1"
    using assms(2,3) by (auto simp: control_ok_def split: option.splits)
  have super: "\<not> outranks r Super_Admin" using assms(5) by auto
  have c': "db_control db' = Some (owner, n)" using assms(4) c(1) by (simp add: allowed_def)
  consider (same) "db_users db' = db_users db"
    | (wrote) u new where "u \<in> set (db_users db)" "writes_account (u_id u) new db db'"
      "case new of None \<Rightarrow> below r u | Some q \<Rightarrow> outranks r q \<and> (u_access_granted_at u = None \<or> below r u)"
    | (added) u q where "db_users db' = db_users db @ [u]" "u_roles u = [q]" "outranks r q"
    using assms(4) unfolding allowed_def by blast
  then show ?thesis
  proof cases
    case same
    with assms(2) c(1) c' show ?thesis by (simp add: control_ok_def)
  next
    case wrote
    obtain f where f: "db_users db' = map (\<lambda>w. if u_id w = u_id u then f w else w) (db_users db)"
      "\<forall>w\<in>set (db_users db). u_id w = u_id u \<longrightarrow> u_id (f w) = u_id u \<and> u_roles (f w) = (case new of None \<Rightarrow> u_roles w | Some q \<Rightarrow> [q])"
      using wrote(2) unfolding writes_account_def by blast
    have u: "u_access_granted_at u = None \<or> below r u" using wrote(3) by (cases new) auto
    then have plain: "Super_Admin \<notin> set (u_roles u)"
      using sole_super [OF assms(2) c(2) _ wrote(1)] c(4,7) super by (auto simp: below_def)
    have eq: "w = u" if "w \<in> set (db_users db)" "u_id w = u_id u" for w
      using same_id [OF assms(1) that(1) wrote(1) that(2)] .
    have new: "length (u_roles (f u)) = 1" "Super_Admin \<notin> set (u_roles (f u))"
      using f(2) wrote(1,3) one plain super by (cases new; auto)+
    have "w0 \<noteq> u" using plain c(4) by auto
    then have "u_id w0 \<noteq> u_id u" using eq c(2) by blast
    then have "w0 \<in> set (db_users db')" using f(1) c(2) by force
    moreover have "\<forall>w\<in>set (db_users db'). length (u_roles w) = 1" using f(1) one new eq by auto
    moreover have "length (filter (\<lambda>u. Super_Admin \<in> set (u_roles u)) (db_users db')) = 1"
      using single new plain eq unfolding f(1) by (subst supers_map) auto
    ultimately show ?thesis using c c' by (auto simp: control_ok_def)
  next
    case added
    have "Super_Admin \<notin> set (u_roles u)" using added(2,3) super by auto
    with added c c' one single show ?thesis by (auto simp: control_ok_def)
  qed
qed

lemma replace_one_role:
  assumes "replace_roles env i [r] db = Inr db'"
  shows "db_users db' = map (\<lambda>v. if u_id v = i then v\<lparr>u_roles := [r], u_session_version := u_session_version v + 1,
           u_updated_at := ae_now env\<rparr> else v) (db_users db)" "db_control db' = db_control db"
  using assms unfolding replace_roles_def
  by (auto simp: and_then_eq_Inr fence_def map_user_def simp del: insert_roles.simps
      dest!: user_by_id_Inr insert_one_role split: if_splits)

text \<open>What the transfer writes: the two accounts' roles and versions, and the control record.\<close>

definition transferred :: "access_env \<Rightarrow> user \<Rightarrow> user \<Rightarrow> user \<Rightarrow> user" where
  "transferred env c t u =
     (if u_id u = u_id t then u\<lparr>u_roles := [Super_Admin], u_session_version := u_session_version u + 1, u_updated_at := ae_now env\<rparr>
      else if u_id u = u_id c then u\<lparr>u_roles := [Admin], u_session_version := u_session_version u + 1, u_updated_at := ae_now env\<rparr>
      else u)"

lemma transfer_writes:
  assumes "u_id c \<noteq> u_id t" "db_control db = Some (i, n)" "transfer_write env c t db = Inr (x, db')"
  shows "db_control db' = Some (u_id t, n + 1)" "db_users db' = map (transferred env c t) (db_users db)"
proof -
  obtain db1 db2 db3 where w: "replace_roles env (u_id c) [Admin] db = Inr db1" "replace_roles env (u_id t) [Super_Admin] db1 = Inr db2"
    and rest: "set_super_admin_control (u_id t) db2 = Inr db3" "db_users db' = db_users db3 \<and> db_control db' = db_control db3"
    using assms(3) by (auto simp: transfer_write_def and_then_eq_Inr dest!: audit_users)
  show "db_control db' = Some (u_id t, n + 1)"
    using rest replace_one_role(2) [OF w(1)] replace_one_role(2) [OF w(2)] assms(2)
    by (auto simp: set_super_admin_control_def split: if_splits)
  have "db_users db' = db_users db2" using rest by (auto simp: set_super_admin_control_def split: if_splits option.splits)
  then show "db_users db' = map (transferred env c t) (db_users db)"
    unfolding replace_one_role(1) [OF w(2)] replace_one_role(1) [OF w(1)] using assms(1) by (auto simp: transferred_def)
qed

lemma transfer_control:
  assumes "rows_ok db" "control_ok db" "db_control db = Some (u_id c, n)" "c \<in> set (db_users db)" "t \<in> set (db_users db)"
    and "u_roles t = [Admin]" "may_sign_in t" "transfer_write env c t db = Inr (x, db')"
  shows "control_ok db'"
proof -
  let ?f = "transferred env c t"
  have c: "u_roles c = [Super_Admin]"
    using assms(2-4) same_id [OF assms(1) _ assms(4)] by (auto simp: control_ok_def)
  have ct: "u_id c \<noteq> u_id t" using same_id [OF assms(1,4,5)] c assms(6) by auto
  note control = transfer_writes(1) [OF ct assms(3,8)] and users = transfer_writes(2) [OF ct assms(3,8)]
  have supers: "Super_Admin \<in> set (u_roles (?f u)) \<longleftrightarrow> u_id u = u_id t" if "u \<in> set (db_users db)" for u
    using sole_super [OF assms(2) assms(4) _ that] c ct same_id [OF assms(1) that assms(4)] by (auto simp: transferred_def)
  have "length (filter (\<lambda>u. Super_Admin \<in> set (u_roles u)) (map ?f us)) = length (filter (\<lambda>u. u_id u = u_id t) us)"
    if "set us \<subseteq> set (db_users db)" for us
    using that supers by (induction us) auto
  moreover have "length (filter (\<lambda>u. u_id u = u_id t) us) = 1" if "distinct (map u_id us)" "t \<in> set us" for us
    using that by (induction us) (auto simp: filter_empty_conv image_iff)
  ultimately have "length (filter (\<lambda>u. Super_Admin \<in> set (u_roles u)) (db_users db')) = 1"
    using assms(1,5) by (simp add: users rows_ok_def)
  moreover have "\<forall>u\<in>set (db_users db'). length (u_roles u) = 1"
    using assms(2,3) by (auto simp: users transferred_def control_ok_def)
  moreover have "\<exists>u\<in>set (db_users db'). u_id u = u_id t \<and> u_roles u = [Super_Admin] \<and> u_active u \<and> u_login_enabled u
      \<and> u_access_granted_at u \<noteq> None"
    unfolding users using assms(5,7) by (intro bexI [of _ "?f t"]) (auto simp: transferred_def may_sign_in_def)
  ultimately show ?thesis using control by (simp add: control_ok_def)
qed

lemma transfer_changed:
  assumes "rows_ok db" "transfer_within g env p i db = Inr (x, db')" "v \<in> set (db_users db')" "v \<notin> set (db_users db)"
  shows "\<exists>a\<in>set (db_users db). u_id a = p_internal_id p \<and> u_session_version a = p_session_version p \<and> may_sign_in a
     \<and> u_roles a = [Super_Admin] \<and> db_control db' \<noteq> db_control db
     \<and> (u_id v = u_id a \<and> u_roles v = [Admin]
        \<or> u_id v \<noteq> u_id a \<and> u_roles v = [Super_Admin] \<and> (\<exists>u\<in>set (db_users db). u_id u = u_id v \<and> u_roles u = [Admin] \<and> may_sign_in u))"
proof -
  obtain a r n t q db1 b where actor: "current_governance_actor p db = Inr (a, r)" "r = Super_Admin" "u_id a \<noteq> tr_target i"
    and control: "super_admin_control db = Inr (u_id a, n)" and t: "user_by_id (tr_target i) db = Inr t" "single_role (u_roles t) = Inr Admin"
      "may_sign_in t"
    and reserve: "reserve_governance_mutation (u_id a) (tr_key i) ''transfer_super_admin'' (u_id t)
         (governance_digest g [''transfer'', format_int (u_id t)]) db = Inr (b, db1)"
    and ways: "db' = db1 \<or> transfer_write env a t db1 = Inr (x, db')"
    using assms(2) by (auto simp: transfer_within_def and_then_eq_Inr split: if_splits sum.splits)
  note a = current_actor [OF actor(1)] and same = reserve_users [OF reserve]
  have t': "t \<in> set (db_users db)" "u_id t = tr_target i" using user_by_id_Inr [OF t(1)] by auto
  have one: "u_roles u = [q]" if "u \<in> set (db_users db)" "set (u_roles u) = {q}" for u q
    using assms(1) that by (cases "u_roles u") (auto simp: rows_ok_def user_row_ok_def)
  have w: "transfer_write env a t db1 = Inr (x, db')" using ways assms(3,4) same by auto
  have "db_control db1 = Some (u_id a, n)" using control same by (auto simp: super_admin_control_def split: option.splits)
  with actor(3) t'(2) have u: "db_control db' = Some (u_id t, n + 1)" "db_users db' = map (transferred env a t) (db_users db)"
    using transfer_writes [OF _ _ w] same by auto
  from u(2) assms(3) obtain y where y: "y \<in> set (db_users db)" "v = transferred env a t y" by auto
  have "u_id v = u_id y" using y(2) by (simp add: transferred_def)
  moreover have "y = a \<or> y = t" using y assms(4) same_id [OF assms(1) y(1)] a(1) t'(1) by (auto simp: transferred_def split: if_splits)
  ultimately have "u_id v = u_id a \<and> u_roles v = [Admin] \<or> u_id v = u_id t \<and> u_roles v = [Super_Admin]"
    using y(2) actor(3) t'(2) by (auto simp: transferred_def)
  moreover have "u_roles a = [Super_Admin]" "u_roles t = [Admin]"
    using one [OF a(1)] a(5) actor(2) one [OF t'(1)] single_roleD [OF t(2)] by auto
  moreover have "db_control db' \<noteq> db_control db" using u(1) \<open>db_control db1 = Some (u_id a, n)\<close> same by simp
  ultimately show ?thesis using a(1-4) t' t(3) actor(3) by (intro bexI [OF _ a(1)]) auto
qed

text \<open>
  C19: Nobody governs an account of their own rank or above, the transfer apart. When a governed command of a
  principal creates or changes an account, the principal is an account that can sign in, with
  the session version of the row and a single role. As long as the control record stays, the account is
  another one; every role it has afterwards is below the actor's, and so was every role it had
  before, unless it was a staff entry without access. The control record changes only in the transfer of the super administrator; then the actor was
  the super administrator, and the account is the actor's own, now an administrator's, or that of an
  administrator who could sign in, now the super administrator's.
\<close>

theorem governed_below_rank:
  assumes "reachable_access db" "governed p k db db'" "v \<in> set (db_users db')" "v \<notin> set (db_users db)"
  shows "\<exists>a\<in>set (db_users db). \<exists>r. u_id a = p_internal_id p \<and> u_session_version a = p_session_version p
      \<and> may_sign_in a \<and> u_roles a = [r]
      \<and> (if db_control db' = db_control db
         then u_id v \<noteq> u_id a \<and> (\<forall>q\<in>set (u_roles v). outranks r q)
           \<and> (\<forall>u\<in>set (db_users db). u_id u = u_id v \<longrightarrow>
                u_access_granted_at u = None \<or> (\<forall>q\<in>set (u_roles u). outranks r q))
         else r = Super_Admin
           \<and> (u_id v = u_id a \<and> u_roles v = [Admin]
              \<or> u_id v \<noteq> u_id a \<and> u_roles v = [Super_Admin]
                \<and> (\<exists>u\<in>set (db_users db). u_id u = u_id v \<and> u_roles u = [Admin] \<and> may_sign_in u)))"
proof (cases "managed p k db db'")
  case True
  then obtain r where "allowed r db db'" by (blast elim: managed_allowed)
  then have "db_control db' = db_control db" by (simp add: allowed_def)
  with managed_below_rank [OF assms(1) True assms(3,4)] show ?thesis by simp
next
  case False
  with assms(2) obtain g env i x where "transfer_within g env p i db = Inr (x, db')"
    by (auto simp: governed_def governance_commands within_Inr split: if_splits)
  from transfer_changed [OF reachable_rows [OF assms(1)] this assms(3,4)] show ?thesis by fastforce
qed

theorem governed_below_rank_witness:
  "\<exists>db db' v. reachable_access db \<and> governed demo_principal ''switch'' db db' \<and> v \<in> set (db_users db')
     \<and> v \<notin> set (db_users db) \<and> (\<forall>q\<in>set (u_roles v). outranks Super_Admin q)"
proof -
  obtain db where db: "reachable_access db" "db_users db = [demo_root, demo_admin]" "db_control db = Some (1, 1)" "db_receipts db = []"
    using demo_two .
  let ?v = "demo_admin\<lparr>u_login_enabled := False, u_session_version := 2, u_updated_at := 30\<rparr>"
  obtain db' where s: "set_governance_login_enabled \<lparr>gc_key = ''key'', gc_directory = None\<rparr> (demo_env 30) demo_principal
      \<lparr>le_target = 2, le_enabled = False, le_key = ''switch''\<rparr> db = Inr ((), db')" and u: "db_users db' = [demo_root, ?v]"
    and c: "db_control db' = db_control db"
    using demo_switch [OF db(2-4)] db(3) by auto
  have m: "governed demo_principal ''switch'' db db'" using managed.login [OF s] by (simp add: governed_def)
  have v: "?v \<in> set (db_users db')" "?v \<notin> set (db_users db)"
    using u db(2) by (simp_all add: demo_admin_def demo_root_def)
  obtain a r where "a \<in> set (db_users db)" "u_id a = p_internal_id demo_principal" "u_roles a = [r]"
    "\<forall>q\<in>set (u_roles ?v). outranks r q"
    using governed_below_rank [OF db(1) m v] c by auto
  moreover from this have "r = Super_Admin"
    using db(2) by (auto simp: demo_principal_def demo_root_def demo_admin_def)
  ultimately show ?thesis using db(1) m v by blast
qed

text \<open>
  C21: The services keep the rules the database checks at the commit by themselves. Whatever a
  governed command writes in a reachable database, the super administrator's control record
  still names the one account with that role, which can sign in, and every account has one
  role: the deferred triggers never refuse the commit of a governed command.
\<close>

theorem commit_check_passes:
  assumes "reachable_access db" "drafts p db db'"
  shows "control_ok db'"
proof -
  have ok: "rows_ok db" "control_ok db" using assms(1) by (rule reachable_rows, rule reachable_control)
  have allowed: "control_ok db'" if "current_governance_actor p db = Inr (a, r)" "allowed r db db'" for a r
    using allowed_control [OF ok current_actor(1) [OF that(1)] that(2) current_actor(6) [OF that(1)]] .
  from assms(2) show ?thesis
  proof cases
    case provision
    then show ?thesis by (rule provision_allowed) (rule allowed)
  next
    case login
    then show ?thesis by (rule target_within_allowed) (auto intro: changes_allowed(1) allowed)
  next
    case (role t k act d r x)
    from target_within_allowed [OF role(1)] changes_allowed(2) [OF _ _ _ _ role(2)] allowed show ?thesis by blast
  next
    case bind
    then show ?thesis by (rule target_within_allowed) (auto intro: changes_allowed(3) allowed)
  next
    case password
    then show ?thesis by (rule target_within_allowed) (auto intro: changes_allowed(4) allowed)
  next
    case (transfer g env i x)
    obtain c n t b db1 where c: "c \<in> set (db_users db)" "db_control db = Some (u_id c, n)"
      and t: "t \<in> set (db_users db)" "set (u_roles t) = {Admin}" "may_sign_in t"
      and reserve: "reserve_governance_mutation (u_id c) (tr_key i) ''transfer_super_admin'' (u_id t)
          (governance_digest g [''transfer'', format_int (u_id t)]) db = Inr (b, db1)"
      and rest: "db' = db1 \<or> transfer_write env c t db1 = Inr (x, db')"
      using transfer
      by (auto simp: transfer_within_def and_then_eq_Inr super_admin_control_def split: if_splits option.splits sum.splits
          dest!: current_actor(1) user_by_id_Inr single_roleD)
    have same: "db_users db1 = db_users db" "db_control db1 = db_control db" using reserve_users [OF reserve] by auto
    have ok1: "rows_ok db1" "control_ok db1"
      using keeps_reserve_governance [OF reserve] ok(1) by (simp add: keeps_def) (use ok(2) same in \<open>simp only: control_ok_def\<close>)
    have "length (u_roles t) = 1" using ok(2) t(1) c by (auto simp: control_ok_def)
    with t(2) have "u_roles t = [Admin]" by (cases "u_roles t") auto
    with rest ok1 same c t show ?thesis by (auto intro: transfer_control [of db1 c n t])
  qed
qed

theorem commit_check_passes_witness:
  "\<exists>db db'. reachable_access db \<and> drafts demo_principal db db' \<and> db' \<noteq> db \<and> control_ok db'"
proof -
  obtain db where db: "reachable_access db" "db_users db = [demo_root, demo_admin]" "db_control db = Some (1, 1)" "db_receipts db = []"
    using demo_two .
  obtain db' where s: "set_governance_login_enabled \<lparr>gc_key = ''key'', gc_directory = None\<rparr> (demo_env 30) demo_principal
      \<lparr>le_target = 2, le_enabled = False, le_key = ''switch''\<rparr> db = Inr ((), db')" "db_receipts db' \<noteq> []"
    using demo_switch [OF db(2-4)] by auto
  then have d: "drafts demo_principal db db'"
    by (auto simp: governance_commands with_governance_target_def within_Inr split: if_splits intro: drafts.login)
  from s(2) db(4) have "db' \<noteq> db" by auto
  with db(1) d commit_check_passes [OF db(1) d] show ?thesis by blast
qed

section \<open>The refresh of the names\<close>

lemma refresh_audit_refused: "audit_access env a t ''refresh_staff_name'' d db = Inl Access_Storage"
  by (simp add: audit_access_def append_access_audit_def audit_actions_def)

lemma refresh_names_unchanged:
  "refresh_names env p names us db = Inr db' \<Longrightarrow>
     db' = db \<and> (\<forall>u\<in>set us. \<forall>n. names (u_wecom_userid u) = Some n \<longrightarrow> n = [] \<or> n = u_display_name u)"
proof (induction us arbitrary: db)
  case (Cons u us)
  show ?case
  proof (cases "(case names (u_wecom_userid u) of None \<Rightarrow> [] | Some n \<Rightarrow> n) \<in> {[], u_display_name u}")
    case True
    with Cons show ?thesis by (auto simp: Let_def split: option.splits)
  next
    case False
    with Cons.prems show ?thesis by (simp add: Let_def and_then_eq_Inr refresh_audit_refused)
  qed
qed simp

text \<open>
  C39: The refresh of staff names never changes a name. It records every renaming with an action
  the audit table's constraint does not admit, so the first employee whose name differs from the
  directory's fails the whole transaction: when the command succeeds the database is unchanged,
  and no account had a name to refresh.
\<close>

theorem names_never_refreshed:
  assumes "refresh_staff_names env p (Some names) db = Inr (x, db')"
  shows "db' = db \<and> (\<forall>u\<in>set (db_users db). \<forall>n. names (u_wecom_userid u) = Some n \<longrightarrow> n = [] \<or> n = u_display_name u)"
  using assms by (auto simp: refresh_staff_names_def and_then_eq_Inr within_Inr dest!: refresh_names_unchanged)

theorem names_never_refreshed_witness:
  "\<exists>db. refresh_staff_names (demo_env 30) demo_principal (Some (\<lambda>w. None)) db = Inr ((), db) \<and> db_users db \<noteq> []"
proof -
  have "refresh_staff_names (demo_env 30) demo_principal (Some (\<lambda>w. None)) demo_db = Inr ((), demo_db)"
    by (simp add: refresh_staff_names_def authorize_governance_read_def current_governance_actor_def demo_principal_def
        user_by_id_def user_by_def demo_root_def may_sign_in_def valid_role_def within_def control_ok_def)
  from names_never_refreshed [OF this] this show ?thesis by (intro exI [of _ demo_db]) simp
qed

section \<open>The actions offered\<close>

lemma store_not_denied:
  "set_login_enabled env i b db \<noteq> Inl Permission_Denied" "replace_roles env i rs db \<noteq> Inl Permission_Denied"
  "set_wecom_user_id env i w db \<noteq> Inl Permission_Denied" "set_password_hash env i h db \<noteq> Inl Permission_Denied"
  "audit_access env a t x d db \<noteq> Inl Permission_Denied" "set_super_admin_control i db \<noteq> Inl Permission_Denied"
  "reserve_governance_mutation a k act t digest db \<noteq> Inl Permission_Denied"
proof -
  have "insert_roles os roles rs \<noteq> Inl Permission_Denied" for os roles
    by (induction os roles rs rule: insert_roles.induct) auto
  then show "replace_roles env i rs db \<noteq> Inl Permission_Denied"
    by (auto simp: replace_roles_def fence_def user_by_id_def user_by_def and_then_def split: sum.splits option.splits)
qed (auto simp: set_login_enabled_def set_wecom_user_id_def set_password_hash_def audit_access_def append_access_audit_def
    set_super_admin_control_def reserve_governance_mutation_def fence_def user_by_id_def user_by_def and_then_def Let_def
    split: sum.splits option.splits)

lemma then_denied: "and_then x f = Inl e \<longleftrightarrow> x = Inl e \<or> (\<exists>y. x = Inr y \<and> f y = Inl e)"
  by (cases x) auto

lemma within_denied: "within f db = Inl Permission_Denied \<longleftrightarrow> f db = Inl Permission_Denied"
  by (auto simp: within_def then_denied split: if_splits)

lemma change_denied:
  "login_change env p l r u q db = Inl Permission_Denied \<longleftrightarrow> \<not> can_manage_target r q"
  "role_change env p i r u q db = Inl Permission_Denied \<longleftrightarrow> \<not> (can_manage_target r q \<and> r = Super_Admin)"
  "bind_change env p w r u q db = Inl Permission_Denied \<longleftrightarrow> r \<noteq> Super_Admin \<or> q = Super_Admin"
  "password_change env p h r u q db = Inl Permission_Denied \<longleftrightarrow> r \<noteq> Super_Admin \<or> q = Super_Admin"
  by (auto simp: login_change_def role_change_def bind_change_def password_change_def then_denied store_not_denied)

lemma fresh_reserve:
  assumes "valid_governance_key k" "length (runes k) \<le> 200" "length d = 32" "\<not> has_receipt a k db"
    and "\<exists>u\<in>set (db_users db). u_id u = a" "\<exists>u\<in>set (db_users db). u_id u = t"
  obtains db1 where "reserve_governance_mutation a k act t d db = Inr (True, db1)"
proof -
  have "k \<noteq> []" using assms(1) by (auto simp: valid_governance_key_def)
  moreover have "find (\<lambda>r. gr_actor r = a \<and> gr_key r = k) (db_receipts db) = None"
    using assms(4) by (auto simp: has_receipt_def find_None_iff)
  ultimately show ?thesis using assms that by (auto simp: reserve_governance_mutation_def)
qed

lemma target_denied:
  assumes "current_governance_actor p db = Inr (a, r)" "user_by_id t db = Inr u" "single_role (u_roles u) = Inr q"
    and "u_access_granted_at u \<noteq> None" "1 \<le> t" "valid_governance_key k" "length (runes k) \<le> 200" "length d = 32"
    and "\<not> has_receipt (p_internal_id p) k db" "\<And>db1. f r u q db1 = Inl Permission_Denied \<longleftrightarrow> no"
  shows "with_governance_target p t k act d f db = Inl Permission_Denied \<longleftrightarrow> \<not> can_any_governance_mutation r q \<or> no"
proof -
  have "\<exists>u\<in>set (db_users db). u_id u = p_internal_id p" using current_actor(1,2) [OF assms(1)] by auto
  moreover have "\<exists>u\<in>set (db_users db). u_id u = t" using user_by_id_Inr [OF assms(2)] by auto
  ultimately obtain db1 where "reserve_governance_mutation (p_internal_id p) k act t d db = Inr (True, db1)"
    using fresh_reserve [OF assms(6-9)] by metis
  with assms(1-6,10) show ?thesis
    by (auto simp: with_governance_target_def within_denied governance_target_within_def then_denied)
qed

lemma transfer_denied:
  assumes "rows_ok db" "control_ok db" "current_governance_actor p db = Inr (a, r)" "user_by_id t db = Inr u" "u_roles u = [q]"
    and "valid_role q" "u_access_granted_at u \<noteq> None"
  shows "transfer_within g env p \<lparr>tr_target = t, tr_key = k\<rparr> db = Inl Permission_Denied \<longleftrightarrow>
     \<not> (r = Super_Admin \<and> u_id u \<noteq> u_id a \<and> may_sign_in u \<and> q = Admin)"
proof (cases "r = Super_Admin \<and> u_id u \<noteq> u_id a")
  case True
  note a = current_actor [OF assms(3)]
  obtain w n where w: "db_control db = Some (u_id w, n)" "w \<in> set (db_users db)" "u_roles w = [Super_Admin]"
    using assms(2) a(1) by (auto simp: control_ok_def split: option.splits)
  then have "w = a" using sole_super [OF assms(2) w(2) _ a(1)] a(5) True by auto
  then have control: "super_admin_control db = Inr (u_id a, n)" using w(1) by (simp add: super_admin_control_def)
  have t: "u_id u = t" using user_by_id_Inr [OF assms(4)] by simp
  have "transfer_write env a u db1 \<noteq> Inl Permission_Denied" for db1
    by (auto simp: transfer_write_def then_denied store_not_denied)
  with True control t assms(3-7) show ?thesis
    by (auto simp: transfer_within_def then_denied store_not_denied)
next
  case False
  then show ?thesis using assms(3) user_by_id_Inr [OF assms(4)] by (auto simp: transfer_within_def)
qed

text \<open>
  C22: The page offers exactly what the services admit. In a reachable database, for an actor
  that may govern and an account with access and one role, an action is offered if and only if the command
  of the same actor with an unused, well-formed key is not refused for lack of permission,
  whatever the command asks for: switching the login on or off, either role an account can be
  given, removing a binding or binding any employee the directory confirms, any password that
  can be hashed, and the transfer.
\<close>

theorem offered_actions_exact:
  assumes "reachable_access db" "current_governance_actor p db = Inr (a, r)" "user_by_id t db = Inr u"
    and "u_access_granted_at u \<noteq> None" "u_roles u = [q]" "gc_key g \<noteq> []" "valid_governance_key k" "length (runes k) \<le> 200"
    and "\<not> has_receipt (p_internal_id p) k db" "x = Admin \<or> x = Viewer" "ae_hash env w = Inr h" "bound_employee g employee = Inr bound"
  shows "actions_for r (u_id a) u q =
     \<lparr>act_set_login_enabled = set_governance_login_enabled g env p \<lparr>le_target = t, le_enabled = b, le_key = k\<rparr> db \<noteq> Inl Permission_Denied,
      act_change_role = set_governance_role g env p \<lparr>ri_target = t, ri_role = x, ri_key = k\<rparr> db \<noteq> Inl Permission_Denied,
      act_bind_wecom = bind_governance_wecom_user_id g env p \<lparr>bi_target = t, bi_wecom_userid = employee, bi_key = k\<rparr> db \<noteq> Inl Permission_Denied,
      act_reset_password = reset_governance_password g env p \<lparr>pw_target = t, pw_password = w, pw_key = k\<rparr> db \<noteq> Inl Permission_Denied,
      act_transfer = transfer_governance_super_admin g env p \<lparr>tr_target = t, tr_key = k\<rparr> db \<noteq> Inl Permission_Denied\<rparr>"
proof -
  have ok: "rows_ok db" "control_ok db" using assms(1) by (rule reachable_rows, rule reachable_control)
  note a = current_actor [OF assms(2)]
  have u: "u \<in> set (db_users db)" "u_id u = t" using user_by_id_Inr [OF assms(3)] by auto
  have t: "1 \<le> t" and q: "valid_role q"
    using ok(1) u assms(5) by (auto simp: rows_ok_def user_row_ok_def role_codes_def valid_role_def)
  then have single: "single_role (u_roles u) = Inr q" using assms(5) by simp
  have self: "q = r" if "u_id u = u_id a" using same_id [OF ok(1) u(1) a(1) that] a(5) assms(5) by simp
  note denied = target_denied [OF assms(2,3) single assms(4) t assms(7,8) _ assms(9)]
  have l: "set_governance_login_enabled g env p \<lparr>le_target = t, le_enabled = b, le_key = k\<rparr> db = Inl Permission_Denied
      \<longleftrightarrow> \<not> can_any_governance_mutation r q \<or> \<not> can_manage_target r q"
    using assms(6) by (simp add: governance_commands denied [OF _ change_denied(1)] governance_digest_def)
  have c: "set_governance_role g env p \<lparr>ri_target = t, ri_role = x, ri_key = k\<rparr> db = Inl Permission_Denied
      \<longleftrightarrow> \<not> can_any_governance_mutation r q \<or> \<not> (can_manage_target r q \<and> r = Super_Admin)"
    using assms(6,10) by (auto simp: governance_commands denied [OF _ change_denied(2)] governance_digest_def)
  have b: "bind_governance_wecom_user_id g env p \<lparr>bi_target = t, bi_wecom_userid = employee, bi_key = k\<rparr> db = Inl Permission_Denied
      \<longleftrightarrow> \<not> can_any_governance_mutation r q \<or> r \<noteq> Super_Admin \<or> q = Super_Admin"
    using assms(2,6,7,12) t by (simp add: governance_commands denied [OF _ change_denied(3)] governance_digest_def
        authorize_governance_read_def)
  have w: "reset_governance_password g env p \<lparr>pw_target = t, pw_password = w, pw_key = k\<rparr> db = Inl Permission_Denied
      \<longleftrightarrow> \<not> can_any_governance_mutation r q \<or> r \<noteq> Super_Admin \<or> q = Super_Admin"
    using assms(6,7,11) t by (simp add: governance_commands denied [OF _ change_denied(4)] governance_digest_def)
  have tr: "transfer_governance_super_admin g env p \<lparr>tr_target = t, tr_key = k\<rparr> db = Inl Permission_Denied
      \<longleftrightarrow> \<not> (r = Super_Admin \<and> u_id u \<noteq> u_id a \<and> may_sign_in u \<and> q = Admin)"
    using assms(6,7) t by (simp add: governance_commands within_denied transfer_denied [OF ok assms(2,3,5) q assms(4)])
  show ?thesis
    unfolding l c b w tr using self a(6) q
    by (auto simp: actions_for_def can_any_governance_mutation_def can_manage_target_def valid_role_def Let_def)
qed

text \<open>The example with a directory that knows one employee.\<close>

definition demo_directory :: governance_config where
  "demo_directory =
     \<lparr>gc_key = ''key'', gc_directory = Some (\<lambda>w. Employee \<lparr>em_userid = ''zhang'', em_display_name = ''Zhang''\<rparr>)\<rparr>"

lemma demo_bound: "bound_employee demo_directory ''zhang'' = Inr ''zhang''"
  by (simp add: bound_employee_def verified_enterprise_employee_def normalize_wecom_user_id_def demo_directory_def ascii_text
      ascii_letter_or_digit_def Let_def byte_def)

theorem offered_actions_exact_witness:
  "\<exists>db. reachable_access db \<and> current_governance_actor demo_principal db = Inr (demo_root, Super_Admin)
     \<and> user_by_id 2 db = Inr demo_admin \<and> act_bind_wecom (actions_for Super_Admin 1 demo_admin Admin)
     \<and> bind_governance_wecom_user_id demo_directory (demo_env 30) demo_principal
          \<lparr>bi_target = 2, bi_wecom_userid = ''zhang'', bi_key = ''switch''\<rparr> db \<noteq> Inl Permission_Denied
     \<and> transfer_governance_super_admin demo_directory (demo_env 30) demo_principal \<lparr>tr_target = 2, tr_key = ''switch''\<rparr> db
        \<noteq> Inl Permission_Denied"
proof -
  obtain db where db: "reachable_access db" "db_users db = [demo_root, demo_admin]" "db_control db = Some (1, 1)" "db_receipts db = []"
    using demo_two .
  have actor: "current_governance_actor demo_principal db = Inr (demo_root, Super_Admin)"
    using db(2) by (simp add: current_governance_actor_def demo_principal_def user_by_id_def user_by_def demo_root_def
        may_sign_in_def valid_role_def)
  have target: "user_by_id 2 db = Inr demo_admin"
    using db(2) by (simp add: user_by_id_def user_by_def demo_root_def demo_admin_def)
  have admin: "u_access_granted_at demo_admin \<noteq> None" "u_roles demo_admin = [Admin]"
    by (simp_all add: demo_admin_def)
  have config: "gc_key demo_directory \<noteq> []" by (simp add: demo_directory_def)
  have key: "valid_governance_key ''switch''" "length (runes ''switch'') \<le> 200"
    by (simp_all add: valid_governance_key_def ascii_text)
  have unused: "\<not> has_receipt (p_internal_id demo_principal) ''switch'' db" using db(4) by (simp add: has_receipt_def)
  have offered: "act_transfer (actions_for Super_Admin (u_id demo_root) demo_admin Admin)"
    "act_bind_wecom (actions_for Super_Admin (u_id demo_root) demo_admin Admin)"
    by (simp_all add: actions_for_def can_manage_target_def demo_root_def demo_admin_def may_sign_in_def Let_def)
  note exact = offered_actions_exact [OF db(1) actor target admin config key unused disjI1 [OF refl]
      demo_env_simps(5) [of 30 "''secret''"] demo_bound, where b = False]
  have "transfer_governance_super_admin demo_directory (demo_env 30) demo_principal \<lparr>tr_target = 2, tr_key = ''switch''\<rparr> db
      \<noteq> Inl Permission_Denied"
    using offered(1) exact by simp
  moreover have "bind_governance_wecom_user_id demo_directory (demo_env 30) demo_principal
      \<lparr>bi_target = 2, bi_wecom_userid = ''zhang'', bi_key = ''switch''\<rparr> db \<noteq> Inl Permission_Denied"
    using offered(2) exact by simp
  moreover have "act_bind_wecom (actions_for Super_Admin 1 demo_admin Admin)" using offered(2) by (simp add: demo_root_def)
  ultimately show ?thesis using db(1) actor target by blast
qed

end
