(* ===== verification/Commission_Store.thy ===== *)
theory Commission_Store
  imports Distribution_Domain
begin

text \<open>
  The tables of the distribution module (\<open>migrations/0157\<close>, 0159 and 0167) and the statements
  of its repository \<open>internal/distribution/store\<close> the commission services run on.

  A table is the list of its rows in the order of their identities. A service call is one unit
  of work: a function from the database to an error, on which it rolls back, or to its result
  and the new database. The row locks (\<open>FOR UPDATE\<close>) serialise the units of work that touch a
  commission, so each is one step. A unique or check violation is \<open>Dist_Conflict\<close>
  (\<open>mapError\<close>). The finite vocabularies of the kind, status and state columns, which both the
  store and the checks enforce, are datatypes. The JSON payloads of audit and outbox rows
  repeat columns and arguments of the same call and are left out; an operation receipt holds
  its key instead of the digest of the key.
\<close>

section \<open>Rows\<close>

datatype dist_error =
  Dist_Not_Found | Dist_Conflict | Dist_Unavailable | Dist_Qualification | Dist_Invalid
| Dist_Nothing_To_Unfreeze | Dist_Port string

datatype exception_kind =
  Ex_Settlement_Unknown | Ex_Settlement_Not_Paid | Ex_Settlement_Deadline | Ex_Deadline_Imminent
| Ex_Receiver_Unavailable | Ex_Qualification_Revoked | Ex_Buyer_Refund | Ex_Unfreeze_Failed
| Ex_Merchant_Liability | Ex_Recovery

datatype exception_status = Exs_Open | Exs_Querying | Exs_Resolved | Exs_Liability_Recorded | Exs_Recovery_Recorded

datatype settlement_state =
  Stl_Planned | Stl_Accepted | Stl_Attempted | Stl_Unknown | Stl_Succeeded | Stl_Cancelled | Stl_Exception

datatype adjustment_kind =
  Adj_Buyer_Refund | Adj_Qualification_Revoke | Adj_Manual_Recovery | Adj_Merchant_Liability

record settlement =
  stl_id :: int64
  stl_commission_id :: int64
  stl_reference :: string
  stl_payment_ref :: string
  stl_instruction_ref :: string
  stl_effect_ref :: string
  stl_state :: settlement_state
  stl_amount :: int64
  stl_currency :: string
  stl_deadline :: "time option"
  stl_version :: int64
  stl_created_at :: time
  stl_updated_at :: time

record commission_exception =
  exn_id :: int64
  exn_commission_id :: int64
  exn_settlement_id :: int64
  exn_kind :: exception_kind
  exn_status :: exception_status
  exn_unpaid_due :: int64
  exn_already_paid :: int64
  exn_amount :: int64
  exn_reason :: string
  exn_evidence :: string
  exn_actor :: string
  exn_version :: int64
  exn_created_at :: time
  exn_updated_at :: time

record adjustment =
  adj_commission_id :: int64
  adj_kind :: adjustment_kind
  adj_delta :: int64
  adj_resulting :: int64
  adj_reason :: string
  adj_source :: string
  adj_at :: time

record receiver_readiness =
  rcv_ready :: bool
  rcv_reason :: string
  rcv_reference :: string
  rcv_app_id :: string
  rcv_checked_at :: time

record attribution_row =
  atr_attribution :: attribution
  atr_policy_id :: int64

record policy_row =
  plr_id :: int64
  plr_policy :: policy

record distributor_row =
  dsr_distributor :: distributor
  dsr_receiver :: receiver_readiness

record operation_receipt =
  orc_operation :: string
  orc_actor :: string
  orc_key :: string
  orc_digest :: string
  orc_result_kind :: string
  orc_result_id :: int64

record dist_audit =
  dau_event :: string
  dau_aggregate :: string
  dau_aggregate_id :: int64
  dau_actor :: string
  dau_at :: time

record dist_outbox =
  dob_event :: string
  dob_key :: string
  dob_aggregate_id :: int64
  dob_at :: time

record sharing_request =
  shr_settlement_ref :: string
  shr_payment_ref :: string
  shr_recipient :: int64
  shr_amount :: int64
  shr_currency :: string
  shr_key :: string
  shr_source_digest :: string
  shr_payload_digest :: string
  shr_policy_digest :: string

record unfreeze_request =
  ufr_payment_ref :: string
  ufr_reason :: string
  ufr_key :: string
  ufr_source_digest :: string
  ufr_payload_digest :: string
  ufr_policy_digest :: string

record recheck_args =
  rka_order_id :: int64
  rka_refund_id :: int64
  rka_state :: string
  rka_occurred_at :: time
  rka_receipt_key :: string

text \<open>Beside the tables: the profit-sharing and unfreeze requests the payment module accepted in a
  unit of work of this one, and the jobs put into the queue.\<close>

record commission_db =
  dd_policies :: "policy_row list"
  dd_attributions :: "attribution_row list"
  dd_distributors :: "distributor_row list"
  dd_commissions :: "commission list"
  dd_next_commission :: int64
  dd_adjustments :: "adjustment list"
  dd_settlements :: "settlement list"
  dd_next_settlement :: int64
  dd_exceptions :: "commission_exception list"
  dd_next_exception :: int64
  dd_receipts :: "operation_receipt list"
  dd_audit :: "dist_audit list"
  dd_outbox :: "dist_outbox list"
  dd_requests :: "sharing_request list"
  dd_unfreezes :: "unfreeze_request list"
  dd_due_tasks :: "(int64 \<times> time) list"
  dd_recheck_tasks :: "recheck_args list"

definition empty_commission_db :: commission_db where
  "empty_commission_db =
     \<lparr>dd_policies = [], dd_attributions = [], dd_distributors = [], dd_commissions = [], dd_next_commission = 1,
      dd_adjustments = [], dd_settlements = [], dd_next_settlement = 1, dd_exceptions = [], dd_next_exception = 1,
      dd_receipts = [], dd_audit = [], dd_outbox = [], dd_requests = [], dd_unfreezes = [], dd_due_tasks = [],
      dd_recheck_tasks = []\<rparr>"

text \<open>\<open>for _, x := range xs\<close> in a unit of work: the first error ends it.\<close>

fun for_each :: "('a \<Rightarrow> commission_db \<Rightarrow> dist_error + commission_db) \<Rightarrow> 'a list \<Rightarrow> commission_db \<Rightarrow> dist_error + commission_db" where
  "for_each f [] db = Inr db"
| "for_each f (x # xs) db = and_then (f x db) (for_each f xs)"

text \<open>\<open>value = btrim(value)\<close> of the checks removes spaces only.\<close>

definition btrimmed :: "string \<Rightarrow> bool" where
  "btrimmed s \<longleftrightarrow> s = [] \<or> hd s \<noteq> CHR '' '' \<and> last s \<noteq> CHR '' ''"

section \<open>Audit and outbox\<close>

definition append_audit :: "string \<Rightarrow> string \<Rightarrow> int64 \<Rightarrow> string \<Rightarrow> time \<Rightarrow> commission_db \<Rightarrow> dist_error + commission_db" where
  "append_audit event aggregate i actor at db =
     (if i < 1 \<or> event = [] \<or> aggregate = [] \<or> actor = [] \<or> is_zero at then Inl Dist_Invalid
      else if \<not> btrimmed actor \<or> 200 < rune_count actor then Inl Dist_Conflict
      else Inr (db\<lparr>dd_audit := dd_audit db @ [\<lparr>dau_event = event, dau_aggregate = aggregate, dau_aggregate_id = i,
                                              dau_actor = actor, dau_at = utc at\<rparr>]\<rparr>))"

definition append_outbox :: "string \<Rightarrow> string \<Rightarrow> int64 \<Rightarrow> time \<Rightarrow> commission_db \<Rightarrow> dist_error + commission_db" where
  "append_outbox event key i at db =
     (if i < 1 \<or> event = [] \<or> key = [] \<or> 200 < length key \<or> is_zero at then Inl Dist_Invalid
      else if \<not> btrimmed key then Inl Dist_Conflict
      else if list_ex (\<lambda>o'. dob_key o' = key) (dd_outbox db) then Inr db
      else Inr (db\<lparr>dd_outbox := dd_outbox db @ [\<lparr>dob_event = event, dob_key = key, dob_aggregate_id = i, dob_at = utc at\<rparr>]\<rparr>))"

section \<open>Commissions\<close>

definition commission_row :: "int64 \<Rightarrow> commission_db \<Rightarrow> commission option" where
  "commission_row i db = find (\<lambda>c. com_id c = i) (dd_commissions db)"

definition scan_commission :: "commission \<Rightarrow> dist_error + commission" where
  "scan_commission c =
     (if com_id c < 1 \<or> com_attribution_id c < 1 \<or> com_order_id c < 1 \<or> com_order_item_line c < 1 \<or> com_distributor_id c < 1
         \<or> com_original_paid_minor c < 0 \<or> com_refunded_minor c < 0 \<or> com_original_paid_minor c < com_refunded_minor c
         \<or> com_initial_minor c < 0 \<or> com_payable_minor c < 0 \<or> com_paid_minor c < 0 \<or> com_rate c < 0 \<or> max_rate < com_rate c
         \<or> \<not> valid_commission_status (com_status c) \<or> com_version c < 1 \<or> is_zero (com_paid_confirmed_at c)
         \<or> com_due_at c < com_paid_confirmed_at c \<or> is_zero (com_created_at c) \<or> com_updated_at c < com_created_at c
      then Inl Dist_Unavailable else Inr c)"

text \<open>The checks of the table that the validations of the statements do not already imply.\<close>

definition commission_check :: "commission \<Rightarrow> bool" where
  "commission_check c \<longleftrightarrow>
     (com_status c = ComZero \<longleftrightarrow> com_initial_minor c = 0 \<and> com_payable_minor c = 0 \<and> com_paid_minor c = 0)
     \<and> (com_paid_minor c = 0 \<or> com_status c = ComPaid \<or> com_status c = ComException)
     \<and> com_created_at c \<le> com_updated_at c \<and> rune_count (com_hold_reason c) \<le> 200
     \<and> rune_count (com_cancel_reason c) \<le> 200 \<and> rune_count (com_exception_reason c) \<le> 200"

definition read_commission :: "int64 \<Rightarrow> commission_db \<Rightarrow> dist_error + commission" where
  "read_commission i db =
     (if i < 1 then Inl Dist_Invalid
      else case commission_row i db of None \<Rightarrow> Inl Dist_Not_Found | Some c \<Rightarrow> scan_commission c)"

definition read_commission_by_attribution :: "int64 \<Rightarrow> commission_db \<Rightarrow> dist_error + commission" where
  "read_commission_by_attribution a db =
     (if a < 1 then Inl Dist_Invalid
      else case find (\<lambda>c. com_attribution_id c = a) (dd_commissions db) of None \<Rightarrow> Inl Dist_Not_Found
           | Some c \<Rightarrow> scan_commission c)"

definition commission_insert_ok :: "commission \<Rightarrow> bool" where
  "commission_insert_ok c \<longleftrightarrow>
     0 < com_attribution_id c \<and> 0 < com_order_id c \<and> 0 < com_order_item_line c \<and> 0 < com_distributor_id c
     \<and> 0 \<le> com_original_paid_minor c \<and> com_refunded_minor c = 0 \<and> 0 \<le> com_initial_minor c \<and> 0 \<le> com_payable_minor c
     \<and> com_paid_minor c = 0 \<and> 0 \<le> com_rate c \<and> com_rate c \<le> max_rate \<and> valid_commission_status (com_status c)
     \<and> com_version c = 1 \<and> \<not> is_zero (com_paid_confirmed_at c) \<and> com_paid_confirmed_at c \<le> com_due_at c
     \<and> \<not> is_zero (com_created_at c) \<and> com_created_at c \<le> com_updated_at c"

definition insert_commission :: "commission \<Rightarrow> commission_db \<Rightarrow> dist_error + ((commission \<times> bool) \<times> commission_db)" where
  "insert_commission c db =
     (if \<not> commission_insert_ok c then Inl Dist_Invalid
      else if \<not> list_ex (\<lambda>e. com_attribution_id e = com_attribution_id c) (dd_commissions db) then
        if \<not> commission_check c
           \<or> list_ex (\<lambda>e. com_order_id e = com_order_id c \<and> com_order_item_line e = com_order_item_line c
                \<and> com_distributor_id e = com_distributor_id c) (dd_commissions db) then Inl Dist_Conflict
        else let row = c\<lparr>com_id := dd_next_commission db\<rparr> in
          and_then (scan_commission row) (\<lambda>created.
            Inr ((created, True), db\<lparr>dd_commissions := dd_commissions db @ [row],
                                     dd_next_commission := dd_next_commission db + 1\<rparr>))
      else and_then (read_commission_by_attribution (com_attribution_id c) db) (\<lambda>e.
        if com_order_id e \<noteq> com_order_id c \<or> com_order_item_line e \<noteq> com_order_item_line c
           \<or> com_distributor_id e \<noteq> com_distributor_id c \<or> com_original_paid_minor e \<noteq> com_original_paid_minor c
           \<or> com_initial_minor e \<noteq> com_initial_minor c \<or> com_rate e \<noteq> com_rate c
           \<or> com_paid_confirmed_at e \<noteq> com_paid_confirmed_at c then Inl Dist_Conflict
        else Inr ((e, False), db)))"

text \<open>The trigger \<open>distribution_resolve_deadline_warning\<close>.\<close>

definition exception_check :: "commission_exception \<Rightarrow> bool" where
  "exception_check e \<longleftrightarrow> exn_created_at e \<le> exn_updated_at e"

definition resolved_at :: "time \<Rightarrow> commission_exception \<Rightarrow> commission_exception" where
  "resolved_at at e = e\<lparr>exn_status := Exs_Resolved, exn_version := next_version (exn_version e), exn_updated_at := at\<rparr>"

definition resolve_exceptions ::
  "(commission_exception \<Rightarrow> bool) \<Rightarrow> time \<Rightarrow> commission_db \<Rightarrow> dist_error + (commission_exception list \<times> commission_db)" where
  "resolve_exceptions P at db =
     (let rows = map (resolved_at at) (filter P (dd_exceptions db)) in
      if \<not> list_all exception_check rows then Inl Dist_Conflict
      else Inr (rows, db\<lparr>dd_exceptions := map (\<lambda>e. if P e then resolved_at at e else e) (dd_exceptions db)\<rparr>))"

definition resolve_deadline_warning :: "commission \<Rightarrow> commission \<Rightarrow> commission_db \<Rightarrow> dist_error + commission_db" where
  "resolve_deadline_warning old new db =
     (if (com_status new = ComPaid \<or> com_status new = ComCancelled) \<and> com_status old \<noteq> com_status new
      then and_then (resolve_exceptions (\<lambda>e. exn_commission_id e = com_id new \<and> exn_kind e = Ex_Deadline_Imminent
                                           \<and> exn_status e = Exs_Open) (com_updated_at new) db) (\<lambda>(_, db'). Inr db')
      else Inr db)"

definition written_commission :: "commission \<Rightarrow> commission \<Rightarrow> commission" where
  "written_commission c old =
     old\<lparr>com_refunded_minor := com_refunded_minor c, com_payable_minor := com_payable_minor c,
         com_paid_minor := com_paid_minor c, com_status := com_status c,
         com_hold_reason := trim_space (com_hold_reason c), com_cancel_reason := trim_space (com_cancel_reason c),
         com_exception_reason := trim_space (com_exception_reason c), com_version := com_version c,
         com_updated_at := utc (com_updated_at c)\<rparr>"

definition update_commission :: "commission \<Rightarrow> int64 \<Rightarrow> commission_db \<Rightarrow> dist_error + (commission \<times> commission_db)" where
  "update_commission c expected db =
     (if com_id c < 1 \<or> expected < 1 \<or> com_version c \<noteq> next_version expected \<or> com_refunded_minor c < 0
         \<or> com_original_paid_minor c < com_refunded_minor c \<or> com_payable_minor c < 0 \<or> com_paid_minor c < 0
         \<or> \<not> valid_commission_status (com_status c) \<or> is_zero (com_updated_at c) then Inl Dist_Invalid
      else case commission_row (com_id c) db of None \<Rightarrow> Inl Dist_Not_Found
      | Some old \<Rightarrow>
          if com_version old \<noteq> expected then Inl Dist_Not_Found
          else let new = written_commission c old in
            if \<not> commission_check new then Inl Dist_Conflict
            else and_then (resolve_deadline_warning old new db) (\<lambda>db1.
              and_then (scan_commission new) (\<lambda>r.
                Inr (r, db1\<lparr>dd_commissions := map (\<lambda>e. if com_id e = com_id c then new else e) (dd_commissions db1)\<rparr>))))"

definition append_adjustment :: "adjustment \<Rightarrow> commission_db \<Rightarrow> dist_error + commission_db" where
  "append_adjustment a db =
     (if adj_commission_id a < 1 \<or> adj_resulting a < 0 \<or> adj_reason a \<noteq> trim_space (adj_reason a) \<or> adj_reason a = []
         \<or> 200 < length (adj_reason a) \<or> adj_source a \<noteq> trim_space (adj_source a) \<or> 200 < length (adj_source a)
         \<or> is_zero (adj_at a) then Inl Dist_Invalid
      else Inr (db\<lparr>dd_adjustments := dd_adjustments db @ [a]\<rparr>))"

definition sum_recorded_handling :: "int64 \<Rightarrow> commission_db \<Rightarrow> dist_error + int64" where
  "sum_recorded_handling i db =
     (if i < 1 then Inl Dist_Invalid
      else let total = sum_list (map adj_delta (filter (\<lambda>a. adj_commission_id a = i
                         \<and> (adj_kind a = Adj_Manual_Recovery \<or> adj_kind a = Adj_Merchant_Liability)) (dd_adjustments db)))
           in if total < 0 \<or> max_int64 < total then Inl Dist_Unavailable else Inr total)"

section \<open>Attributions and distributors\<close>

record settlement_context =
  scx_commission :: commission
  scx_attribution :: attribution
  scx_product_id :: int64
  scx_product_type :: product_type

definition joined :: "commission_db \<Rightarrow> commission \<Rightarrow> settlement_context option" where
  "joined db c =
     (case find (\<lambda>a. at_id (atr_attribution a) = com_attribution_id c) (dd_attributions db) of None \<Rightarrow> None
      | Some a \<Rightarrow> (case find (\<lambda>p. plr_id p = atr_policy_id a) (dd_policies db) of None \<Rightarrow> None
          | Some p \<Rightarrow> Some \<lparr>scx_commission = c, scx_attribution = atr_attribution a,
                           scx_product_id = pol_product_id (plr_policy p), scx_product_type = pol_product_type (plr_policy p)\<rparr>))"

definition scan_settlement_context :: "settlement_context \<Rightarrow> dist_error + settlement_context" where
  "scan_settlement_context x =
     (if \<not> valid_attribution (scx_attribution x) \<or> scx_product_id x < 1 \<or> \<not> valid_product_type (scx_product_type x)
         \<or> \<not> valid_commission_status (com_status (scx_commission x)) then Inl Dist_Unavailable else Inr x)"

definition read_settlement_context :: "int64 \<Rightarrow> commission_db \<Rightarrow> dist_error + settlement_context" where
  "read_settlement_context i db =
     (if i < 1 then Inl Dist_Invalid
      else case commission_row i db of None \<Rightarrow> Inl Dist_Not_Found
           | Some c \<Rightarrow> (case joined db c of None \<Rightarrow> Inl Dist_Not_Found | Some x \<Rightarrow> scan_settlement_context x))"

fun scan_all :: "settlement_context list \<Rightarrow> dist_error + settlement_context list" where
  "scan_all [] = Inr []"
| "scan_all (x # xs) = and_then (scan_settlement_context x) (\<lambda>y. and_then (scan_all xs) (\<lambda>ys. Inr (y # ys)))"

definition list_refund_recheck_contexts ::
  "int64 \<Rightarrow> (int64 \<times> product_type) list \<Rightarrow> commission_db \<Rightarrow> dist_error + settlement_context list" where
  "list_refund_recheck_contexts order scopes db =
     (if order < 1 \<or> list_ex (\<lambda>(p, k). p < 1 \<or> \<not> valid_product_type k) scopes then Inl Dist_Invalid
      else scan_all (filter (\<lambda>x. com_order_id (scx_commission x) = order
                                \<or> (scx_product_id x, scx_product_type x) \<in> set scopes)
                       (List.map_filter (joined db) (dd_commissions db))))"

definition valid_receiver :: "receiver_readiness \<Rightarrow> bool" where
  "valid_receiver r \<longleftrightarrow>
     rcv_reference r = trim_space (rcv_reference r) \<and> length (rcv_reference r) \<le> 200
     \<and> rcv_app_id r = trim_space (rcv_app_id r) \<and> length (rcv_app_id r) \<le> 200
     \<and> rcv_reason r = trim_space (rcv_reason r) \<and> length (rcv_reason r) \<le> 200
     \<and> (rcv_ready r \<longrightarrow> rcv_reference r \<noteq> [] \<and> rcv_app_id r \<noteq> [] \<and> rcv_reason r = [] \<and> \<not> is_zero (rcv_checked_at r))"

definition scan_distributor :: "distributor_row \<Rightarrow> dist_error + (distributor \<times> receiver_readiness)" where
  "scan_distributor d =
     (if \<not> valid_distributor (dsr_distributor d) \<or> \<not> valid_receiver (dsr_receiver d) then Inl Dist_Unavailable
      else Inr (dsr_distributor d, dsr_receiver d))"

definition read_distributor :: "int64 \<Rightarrow> commission_db \<Rightarrow> dist_error + (distributor \<times> receiver_readiness)" where
  "read_distributor i db =
     (if i < 1 then Inl Dist_Invalid
      else case find (\<lambda>d. dst_id (dsr_distributor d) = i) (dd_distributors db) of None \<Rightarrow> Inl Dist_Not_Found
           | Some d \<Rightarrow> scan_distributor d)"

definition set_distributor_enabled ::
  "int64 \<Rightarrow> int64 \<Rightarrow> bool \<Rightarrow> time \<Rightarrow> commission_db \<Rightarrow> dist_error + (distributor \<times> commission_db)" where
  "set_distributor_enabled i expected enabled at db =
     (if i < 1 \<or> expected < 1 \<or> is_zero at then Inl Dist_Invalid
      else case find (\<lambda>d. dst_id (dsr_distributor d) = i) (dd_distributors db) of None \<Rightarrow> Inl Dist_Conflict
      | Some d \<Rightarrow>
          if dst_version (dsr_distributor d) \<noteq> expected then Inl Dist_Conflict
          else let new = (dsr_distributor d)\<lparr>dst_enabled := enabled, dst_version := next_version (dst_version (dsr_distributor d))\<rparr> in
            if \<not> valid_distributor new then Inl Dist_Unavailable
            else Inr (new, db\<lparr>dd_distributors := map (\<lambda>e. if dst_id (dsr_distributor e) = i then e\<lparr>dsr_distributor := new\<rparr> else e)
                                                 (dd_distributors db)\<rparr>))"

record attribution_context =
  acx_attribution :: attribution
  acx_customer :: int64
  acx_product_id :: int64
  acx_product_type :: product_type

definition read_attribution_context :: "int64 \<Rightarrow> int32 \<Rightarrow> commission_db \<Rightarrow> dist_error + attribution_context" where
  "read_attribution_context order line db =
     (if order < 1 \<or> line < 1 then Inl Dist_Invalid
      else case find (\<lambda>a. at_order_id (atr_attribution a) = order \<and> at_order_item_line (atr_attribution a) = line)
                  (dd_attributions db) of None \<Rightarrow> Inl Dist_Not_Found
      | Some a \<Rightarrow> (case find (\<lambda>d. dst_id (dsr_distributor d) = at_distributor_id (atr_attribution a)) (dd_distributors db) of
            None \<Rightarrow> Inl Dist_Not_Found
          | Some d \<Rightarrow> (case find (\<lambda>p. plr_id p = atr_policy_id a) (dd_policies db) of None \<Rightarrow> Inl Dist_Not_Found
              | Some p \<Rightarrow>
                  let x = \<lparr>acx_attribution = atr_attribution a, acx_customer = dst_customer_id (dsr_distributor d),
                          acx_product_id = pol_product_id (plr_policy p), acx_product_type = pol_product_type (plr_policy p)\<rparr>
                  in if \<not> valid_attribution (acx_attribution x) \<or> acx_customer x < 1 \<or> acx_product_id x < 1
                        \<or> \<not> valid_product_type (acx_product_type x) then Inl Dist_Unavailable else Inr x)))"

section \<open>Settlements\<close>

definition scan_settlement :: "settlement \<Rightarrow> dist_error + settlement" where
  "scan_settlement s =
     (if stl_id s < 1 \<or> stl_commission_id s < 1 \<or> stl_reference s = [] \<or> stl_amount s < 1 \<or> stl_currency s \<noteq> ''CNY''
         \<or> stl_payment_ref s = [] \<or> stl_version s < 1 \<or> is_zero (stl_created_at s) \<or> stl_updated_at s < stl_created_at s
      then Inl Dist_Unavailable else Inr s)"

definition read_settlement_by_reference :: "string \<Rightarrow> commission_db \<Rightarrow> dist_error + settlement" where
  "read_settlement_by_reference r db =
     (if r = [] then Inl Dist_Invalid
      else case find (\<lambda>s. stl_reference s = r) (dd_settlements db) of None \<Rightarrow> Inl Dist_Not_Found | Some s \<Rightarrow> scan_settlement s)"

definition read_latest_settlement :: "int64 \<Rightarrow> commission_db \<Rightarrow> dist_error + settlement" where
  "read_latest_settlement i db =
     (if i < 1 then Inl Dist_Invalid
      else case find (\<lambda>s. stl_commission_id s = i) (rev (dd_settlements db)) of None \<Rightarrow> Inl Dist_Not_Found
           | Some s \<Rightarrow> scan_settlement s)"

definition insert_settlement :: "settlement \<Rightarrow> commission_db \<Rightarrow> dist_error + ((settlement \<times> bool) \<times> commission_db)" where
  "insert_settlement s db =
     (if stl_commission_id s < 1 \<or> stl_reference s \<noteq> trim_space (stl_reference s) \<or> length (stl_reference s) < 8
         \<or> 200 < length (stl_reference s) \<or> stl_amount s < 1 \<or> stl_currency s \<noteq> ''CNY''
         \<or> stl_payment_ref s \<noteq> trim_space (stl_payment_ref s) \<or> stl_payment_ref s = [] \<or> stl_state s \<noteq> Stl_Planned
         \<or> stl_version s \<noteq> 1 \<or> is_zero (stl_created_at s) \<or> is_zero (stl_updated_at s) then Inl Dist_Invalid
      else if \<not> list_ex (\<lambda>e. stl_reference e = stl_reference s) (dd_settlements db) then
        if 200 < rune_count (stl_payment_ref s) \<or> stl_updated_at s < stl_created_at s then Inl Dist_Conflict
        else let row = s\<lparr>stl_id := dd_next_settlement db, stl_instruction_ref := [], stl_effect_ref := []\<rparr> in
          and_then (scan_settlement row) (\<lambda>created.
            Inr ((created, True), db\<lparr>dd_settlements := dd_settlements db @ [row],
                                     dd_next_settlement := dd_next_settlement db + 1\<rparr>))
      else and_then (read_settlement_by_reference (stl_reference s) db) (\<lambda>e.
        if stl_commission_id e \<noteq> stl_commission_id s \<or> stl_amount e \<noteq> stl_amount s \<or> stl_payment_ref e \<noteq> stl_payment_ref s
        then Inl Dist_Conflict else Inr ((e, False), db)))"

text \<open>Both updates write some columns of the row with the expected version.\<close>

definition update_settlement_row ::
  "(settlement \<Rightarrow> settlement) \<Rightarrow> int64 \<Rightarrow> int64 \<Rightarrow> commission_db \<Rightarrow> dist_error + (settlement \<times> commission_db)" where
  "update_settlement_row f i expected db =
     (case find (\<lambda>s. stl_id s = i) (dd_settlements db) of None \<Rightarrow> Inl Dist_Not_Found
      | Some old \<Rightarrow>
          if stl_version old \<noteq> expected then Inl Dist_Not_Found
          else let new = f old in
            if stl_updated_at new < stl_created_at new \<or> 200 < rune_count (stl_instruction_ref new)
               \<or> 200 < rune_count (stl_effect_ref new) \<or> \<not> btrimmed (stl_instruction_ref new) \<or> \<not> btrimmed (stl_effect_ref new)
               \<or> stl_instruction_ref new \<noteq> [] \<and> list_ex (\<lambda>e. stl_id e \<noteq> i \<and> stl_instruction_ref e = stl_instruction_ref new)
                                                      (dd_settlements db)
            then Inl Dist_Conflict
            else and_then (scan_settlement new) (\<lambda>r.
              Inr (r, db\<lparr>dd_settlements := map (\<lambda>e. if stl_id e = i then f e else e) (dd_settlements db)\<rparr>)))"

definition accept_settlement :: "settlement \<Rightarrow> int64 \<Rightarrow> commission_db \<Rightarrow> dist_error + (settlement \<times> commission_db)" where
  "accept_settlement s expected db =
     (if stl_id s < 1 \<or> expected < 1 \<or> stl_version s \<noteq> next_version expected \<or> stl_state s \<noteq> Stl_Accepted
         \<or> stl_instruction_ref s = [] \<or> stl_effect_ref s = [] \<or> is_zero (stl_updated_at s) then Inl Dist_Invalid
      else update_settlement_row (\<lambda>old. old\<lparr>stl_instruction_ref := stl_instruction_ref s, stl_effect_ref := stl_effect_ref s,
             stl_state := stl_state s, stl_deadline := stl_deadline s, stl_version := stl_version s,
             stl_updated_at := utc (stl_updated_at s)\<rparr>) (stl_id s) expected db)"

definition update_settlement_state :: "settlement \<Rightarrow> int64 \<Rightarrow> commission_db \<Rightarrow> dist_error + (settlement \<times> commission_db)" where
  "update_settlement_state s expected db =
     (if stl_id s < 1 \<or> expected < 1 \<or> stl_version s \<noteq> next_version expected \<or> is_zero (stl_updated_at s) then Inl Dist_Invalid
      else update_settlement_row (\<lambda>old. old\<lparr>stl_state := stl_state s, stl_deadline := stl_deadline s,
             stl_version := stl_version s, stl_updated_at := utc (stl_updated_at s)\<rparr>) (stl_id s) expected db)"

section \<open>Exceptions\<close>

definition scan_exception :: "commission_exception \<Rightarrow> dist_error + commission_exception" where
  "scan_exception e =
     (if exn_id e < 1 \<or> exn_commission_id e < 1 \<or> exn_unpaid_due e < 0 \<or> exn_already_paid e < 0 \<or> exn_amount e < 0
         \<or> exn_reason e = [] \<or> exn_actor e = [] \<or> exn_version e < 1 \<or> is_zero (exn_created_at e)
         \<or> exn_updated_at e < exn_created_at e then Inl Dist_Unavailable else Inr e)"

definition insert_exception :: "commission_exception \<Rightarrow> commission_db \<Rightarrow> dist_error + (commission_exception \<times> commission_db)" where
  "insert_exception e db =
     (if exn_commission_id e < 1 \<or> exn_settlement_id e < 0 \<or> exn_status e \<noteq> Exs_Open \<or> exn_unpaid_due e < 0
         \<or> exn_already_paid e < 0 \<or> exn_amount e < 0 \<or> exn_reason e \<noteq> trim_space (exn_reason e) \<or> exn_reason e = []
         \<or> 500 < length (exn_reason e) \<or> exn_evidence e \<noteq> trim_space (exn_evidence e) \<or> 500 < length (exn_evidence e)
         \<or> exn_actor e \<noteq> trim_space (exn_actor e) \<or> exn_actor e = [] \<or> 200 < length (exn_actor e) \<or> exn_version e \<noteq> 1
         \<or> is_zero (exn_created_at e) \<or> is_zero (exn_updated_at e) then Inl Dist_Invalid
      else if \<not> exception_check e then Inl Dist_Conflict
      else let row = e\<lparr>exn_id := dd_next_exception db\<rparr> in
        and_then (scan_exception row) (\<lambda>r.
          Inr (r, db\<lparr>dd_exceptions := dd_exceptions db @ [row], dd_next_exception := dd_next_exception db + 1\<rparr>)))"

text \<open>The youngest matching exception.\<close>

definition latest_exception :: "(commission_exception \<Rightarrow> bool) \<Rightarrow> commission_db \<Rightarrow> dist_error + commission_exception" where
  "latest_exception P db =
     (case find P (rev (dd_exceptions db)) of None \<Rightarrow> Inl Dist_Not_Found | Some e \<Rightarrow> scan_exception e)"

definition find_open_exception :: "int64 \<Rightarrow> exception_kind \<Rightarrow> commission_db \<Rightarrow> dist_error + commission_exception" where
  "find_open_exception i kind db =
     (if i < 1 then Inl Dist_Invalid
      else latest_exception (\<lambda>e. exn_commission_id e = i \<and> exn_kind e = kind \<and> exn_status e = Exs_Open) db)"

definition find_exception_by_evidence ::
  "int64 \<Rightarrow> exception_kind \<Rightarrow> string \<Rightarrow> commission_db \<Rightarrow> dist_error + commission_exception" where
  "find_exception_by_evidence i kind evidence db =
     (if i < 1 \<or> evidence = [] \<or> evidence \<noteq> trim_space evidence then Inl Dist_Invalid
      else latest_exception (\<lambda>e. exn_commission_id e = i \<and> exn_kind e = kind \<and> exn_evidence e = evidence) db)"

definition has_exception_with_reason :: "int64 \<Rightarrow> exception_kind \<Rightarrow> string \<Rightarrow> commission_db \<Rightarrow> dist_error + bool" where
  "has_exception_with_reason i kind reason db =
     (if i < 1 \<or> reason = [] \<or> reason \<noteq> trim_space reason then Inl Dist_Conflict
      else Inr (list_ex (\<lambda>e. exn_commission_id e = i \<and> exn_kind e = kind \<and> exn_reason e = reason) (dd_exceptions db)))"

fun scan_exceptions :: "commission_exception list \<Rightarrow> dist_error + commission_exception list" where
  "scan_exceptions [] = Inr []"
| "scan_exceptions (e # es) = and_then (scan_exception e) (\<lambda>x. and_then (scan_exceptions es) (\<lambda>xs. Inr (x # xs)))"

definition resolve_open_business_exceptions ::
  "int64 \<Rightarrow> time \<Rightarrow> commission_db \<Rightarrow> dist_error + (commission_exception list \<times> commission_db)" where
  "resolve_open_business_exceptions i at db =
     (if i < 1 \<or> is_zero at then Inl Dist_Invalid
      else and_then (resolve_exceptions (\<lambda>e. exn_commission_id e = i \<and> exn_status e = Exs_Open
                       \<and> (exn_kind e = Ex_Buyer_Refund \<or> exn_kind e = Ex_Qualification_Revoked)) (utc at) db) (\<lambda>(rows, db').
             and_then (scan_exceptions rows) (\<lambda>es. Inr (es, db'))))"

end
