(* ===== verification/Commission_Qualification.thy ===== *)
theory Commission_Qualification
  imports Commission_Store
begin

text \<open>
  Whether a distributor may earn on a product, \<open>internal/distribution/app/qualification.go\<close>: the
  locked identity lineage of the distributor, the purchases of the exact product that Order
  reports for it, and Payment's refund projection of each. The three ports and the clock are
  the parameters of \<open>commission_env\<close>, the record every service of the module takes. The lemmas
  show that the check fails closed: it answers \<open>eligible\<close> exactly when some purchase is fully
  proved, and nothing else makes a distributor eligible.
\<close>

section \<open>What the other modules report\<close>

record payment_state =
  dps_payment_ref :: string
  dps_confirmed_paid :: bool
  dps_split_capable :: bool
  dps_refund_exposure :: bool
  dps_deadline :: time
  dps_original :: int64
  dps_available :: int64
  dps_payer :: int64
  dps_beneficiary :: int64
  dps_successful_refund :: int64
  dps_requested_refund :: int64
  dps_processing_refund :: int64
  dps_unknown_refund :: int64
  dps_confirmed_at :: time
  dps_updated_at :: time

record purchase_evidence =
  pue_order_id :: int64
  pue_product_id :: int64
  pue_item_line :: int32
  pue_payer :: int64
  pue_beneficiary :: int64
  pue_item_paid :: int64
  pue_confirmed_at :: time
  pue_origin :: string

record refund_evidence =
  rev_order_id :: int64
  rev_product_id :: int64
  rev_item_line :: int32
  rev_product_type :: product_type
  rev_payer :: int64
  rev_beneficiary :: int64
  rev_item_paid :: int64
  rev_confirmed_at :: time
  rev_origin :: string

record split_instruction =
  shi_reference :: string
  shi_settlement_ref :: string
  shi_payment_ref :: string
  shi_state :: string
  shi_effect_ref :: string
  shi_failure_class :: string
  shi_amount :: int64
  shi_currency :: string
  shi_confirmed_success :: bool
  shi_outcome_known :: bool
  shi_deadline :: time
  shi_version :: int64
  shi_updated_at :: time

record sharing_unfreeze =
  ufz_reference :: string
  ufz_payment_ref :: string
  ufz_state :: string
  ufz_effect_ref :: string
  ufz_outcome_known :: bool
  ufz_version :: int64
  ufz_updated_at :: time

text \<open>The clock, Identity's lineage, Order's evidence and Payment's port: its state inside and
  outside a unit of work, the readiness of a receiver, and the answers to an accepted split,
  to a query of one, to a release of the rest and to a query of that.\<close>

record commission_env =
  cev_now :: time
  cev_lineage :: "int64 \<Rightarrow> int64 list option"
  cev_purchases :: "int64 list \<Rightarrow> int64 \<Rightarrow> product_type \<Rightarrow> purchase_evidence list option"
  cev_refund_evidence :: "int64 \<Rightarrow> dist_error + refund_evidence list"
  cev_payment_state :: "int64 \<Rightarrow> dist_error + payment_state"
  cev_preflight_state :: "int64 \<Rightarrow> dist_error + payment_state"
  cev_receiver_ready :: "int64 \<Rightarrow> string \<Rightarrow> dist_error + bool"
  cev_accept :: "sharing_request \<Rightarrow> dist_error + split_instruction"
  cev_reconcile :: "string \<Rightarrow> dist_error + split_instruction"
  cev_unfreeze :: "unfreeze_request \<Rightarrow> dist_error + sharing_unfreeze"
  cev_reconcile_unfreeze :: "string \<Rightarrow> dist_error + sharing_unfreeze"

section \<open>The check\<close>

definition unix_epoch :: time where "unix_epoch = 62135596800 * nanoseconds_per_second"

definition unavailable_qualification :: "time \<Rightarrow> string \<Rightarrow> qualification" where
  "unavailable_qualification now reason =
     \<lparr>ql_state = QualUnavailable, ql_reason = reason, ql_evidence_ref = [],
      ql_checked_at = if is_zero now then unix_epoch + nanoseconds_per_second else now\<rparr>"

definition qualification_of :: "qualification_state \<Rightarrow> string \<Rightarrow> string \<Rightarrow> time \<Rightarrow> qualification" where
  "qualification_of state reason evidence now =
     \<lparr>ql_state = state, ql_reason = reason, ql_evidence_ref = evidence, ql_checked_at = now\<rparr>"

definition purchase_reference :: "purchase_evidence \<Rightarrow> string" where
  "purchase_reference e = ''order:'' @ format_int (pue_order_id e) @ '':item:'' @ format_int (pue_item_line e)"

text \<open>What the loop over the purchases has seen so far.\<close>

record purchase_tally =
  tly_eligible_ref :: string
  tly_pending_refund :: bool
  tly_unavailable :: bool
  tly_missing_confirmation :: bool

definition tally_start :: purchase_tally where
  "tally_start = \<lparr>tly_eligible_ref = [], tly_pending_refund = False, tly_unavailable = False,
                  tly_missing_confirmation = False\<rparr>"

definition malformed_purchase :: "int64 \<Rightarrow> purchase_evidence \<Rightarrow> bool" where
  "malformed_purchase product e \<longleftrightarrow>
     pue_order_id e < 1 \<or> pue_item_line e < 1 \<or> pue_product_id e \<noteq> product \<or> pue_item_paid e < 1
     \<or> is_zero (pue_confirmed_at e) \<or> pue_origin e \<noteq> ''native'' \<and> pue_origin e \<noteq> ''history''"

definition refund_in_flight :: "payment_state \<Rightarrow> bool" where
  "refund_in_flight p \<longleftrightarrow> dps_refund_exposure p \<or> 0 < dps_requested_refund p \<or> 0 < dps_processing_refund p
     \<or> 0 < dps_unknown_refund p"

text \<open>\<open>None\<close> is the early return on a reference that is no evidence.\<close>

definition tally_purchase ::
  "commission_env \<Rightarrow> int64 list \<Rightarrow> int64 \<Rightarrow> purchase_evidence \<Rightarrow> purchase_tally \<Rightarrow> purchase_tally option" where
  "tally_purchase env allowed product e t =
     (if malformed_purchase product e \<or> pue_payer e \<notin> set allowed \<or> pue_beneficiary e \<notin> set allowed then Some t
      else case cev_payment_state env (pue_order_id e) of
        Inl _ \<Rightarrow> Some (t\<lparr>tly_unavailable := True\<rparr>)
      | Inr p \<Rightarrow>
          if \<not> dps_confirmed_paid p then Some (t\<lparr>tly_unavailable := True\<rparr>)
          else if is_zero (dps_confirmed_at p) then Some (t\<lparr>tly_missing_confirmation := True\<rparr>)
          else if utc (dps_confirmed_at p) \<noteq> utc (pue_confirmed_at e) then Some (t\<lparr>tly_unavailable := True\<rparr>)
          else if 0 < dps_successful_refund p then Some t
          else if refund_in_flight p then Some (t\<lparr>tly_pending_refund := True\<rparr>)
          else if purchase_reference e = [] \<or> trim_space (purchase_reference e) \<noteq> purchase_reference e then None
          else Some (t\<lparr>tly_eligible_ref := purchase_reference e\<rparr>))"

fun tally_purchases ::
  "commission_env \<Rightarrow> int64 list \<Rightarrow> int64 \<Rightarrow> purchase_evidence list \<Rightarrow> purchase_tally \<Rightarrow> purchase_tally option" where
  "tally_purchases env allowed product [] t = Some t"
| "tally_purchases env allowed product (e # es) t =
     (case tally_purchase env allowed product e t of None \<Rightarrow> None | Some t' \<Rightarrow> tally_purchases env allowed product es t')"

definition tally_decision :: "purchase_tally \<Rightarrow> time \<Rightarrow> qualification" where
  "tally_decision t now =
     (if tly_eligible_ref t \<noteq> [] then qualification_of QualEligible ''valid_paid_purchase'' (tly_eligible_ref t) now
      else if tly_pending_refund t then qualification_of QualSuspended ''refund_outcome_pending'' [] now
      else if tly_unavailable t then unavailable_qualification now ''payment_evidence_unavailable''
      else if tly_missing_confirmation t then unavailable_qualification now ''payment_confirmation_missing''
      else qualification_of QualIneligible ''no_valid_purchase'' [] now)"

definition check_within :: "commission_env \<Rightarrow> int64 \<Rightarrow> int64 \<Rightarrow> product_type \<Rightarrow> dist_error + qualification" where
  "check_within env customer product kind =
     (let now = utc (cev_now env) in
      if customer < 1 \<or> product < 1 \<or> \<not> valid_product_type kind \<or> is_zero now then Inl Dist_Qualification
      else case cev_lineage env customer of
        None \<Rightarrow> Inr (unavailable_qualification now ''identity_evidence_unavailable'')
      | Some roots \<Rightarrow>
          if roots = [] \<or> 100 < length roots \<or> list_ex (\<lambda>r. r < 1) roots
          then Inr (unavailable_qualification now ''identity_evidence_unavailable'')
          else if customer \<notin> set roots then Inr (qualification_of QualConflict ''identity_lineage_conflict'' [] now)
          else case cev_purchases env (sort (remdups roots)) product kind of
            None \<Rightarrow> Inr (unavailable_qualification now ''purchase_evidence_unavailable'')
          | Some evidence \<Rightarrow>
              if evidence = [] then Inr (qualification_of QualIneligible ''no_valid_purchase'' [] now)
              else (case tally_purchases env roots product evidence tally_start of
                  None \<Rightarrow> Inr (unavailable_qualification now ''purchase_evidence_unavailable'')
                | Some t \<Rightarrow> Inr (tally_decision t now)))"

definition payment_state_within :: "commission_env \<Rightarrow> int64 \<Rightarrow> dist_error + payment_state" where
  "payment_state_within env order = (if order < 1 then Inl Dist_Qualification else cev_payment_state env order)"

definition matches_trusted_customer :: "commission_env \<Rightarrow> int64 \<Rightarrow> int64 \<Rightarrow> int64 \<Rightarrow> dist_error + bool" where
  "matches_trusted_customer env customer payer beneficiary =
     (if customer < 1 \<or> payer < 1 \<or> beneficiary < 1 then Inl Dist_Qualification
      else case cev_lineage env customer of None \<Rightarrow> Inl Dist_Qualification
      | Some roots \<Rightarrow>
          if roots = [] \<or> 100 < length roots \<or> list_ex (\<lambda>r. r < 1) roots then Inl Dist_Qualification
          else Inr (payer \<in> set roots \<and> beneficiary \<in> set roots))"

section \<open>What eligibility rests on\<close>

text \<open>A purchase that proves the qualification on its own.\<close>

definition proves_purchase :: "commission_env \<Rightarrow> int64 list \<Rightarrow> int64 \<Rightarrow> purchase_evidence \<Rightarrow> bool" where
  "proves_purchase env allowed product e \<longleftrightarrow>
     \<not> malformed_purchase product e \<and> pue_payer e \<in> set allowed \<and> pue_beneficiary e \<in> set allowed
     \<and> (case cev_payment_state env (pue_order_id e) of Inl _ \<Rightarrow> False
        | Inr p \<Rightarrow> dps_confirmed_paid p \<and> dps_confirmed_at p = pue_confirmed_at e
            \<and> dps_successful_refund p \<le> 0 \<and> \<not> refund_in_flight p)"

lemma last_format_int: "graphic (last (format_int i))"
proof -
  have "is_digit (last (show_nat n))" for n
    using show_nat_digits [of n] last_in_set [of "show_nat n"] by (simp add: list_all_iff)
  moreover have "graphic c" if "is_digit c" for c
    using that by (simp add: graphic_def is_digit_def)
  ultimately show ?thesis by (simp add: format_int_def)
qed

lemma format_int_not_Nil [simp]: "format_int i \<noteq> []"
  by (simp add: format_int_def)

lemma purchase_reference_trimmed [simp]:
  "purchase_reference e \<noteq> []" "trim_space (purchase_reference e) = purchase_reference e"
proof -
  show ne: "purchase_reference e \<noteq> []" by (simp add: purchase_reference_def)
  have "last (purchase_reference e) = last (format_int (pue_item_line e))" "hd (purchase_reference e) = CHR ''o''"
    by (simp_all add: purchase_reference_def)
  then show "trim_space (purchase_reference e) = purchase_reference e"
    using last_format_int by (intro trim_space_graphic) (simp add: graphic_def byte_def)
qed

lemma tally_purchase_total:
  "\<exists>t'. tally_purchase env allowed product e t = Some t' \<and> tly_eligible_ref t'
     = (if proves_purchase env allowed product e then purchase_reference e else tly_eligible_ref t)"
proof (cases "malformed_purchase product e \<or> pue_payer e \<notin> set allowed \<or> pue_beneficiary e \<notin> set allowed")
  case False
  then have "pue_confirmed_at e \<noteq> 0" by (simp add: malformed_purchase_def)
  with False show ?thesis
    by (cases "cev_payment_state env (pue_order_id e)") (auto simp: tally_purchase_def proves_purchase_def)
qed (auto simp: tally_purchase_def proves_purchase_def)

lemma tally_purchases_eligible:
  "\<exists>t'. tally_purchases env allowed product es t = Some t'
        \<and> (tly_eligible_ref t' \<noteq> [] \<longleftrightarrow> tly_eligible_ref t \<noteq> [] \<or> (\<exists>e\<in>set es. proves_purchase env allowed product e))"
proof (induction es arbitrary: t)
  case (Cons e es)
  obtain u where u: "tally_purchase env allowed product e t = Some u"
    "tly_eligible_ref u = (if proves_purchase env allowed product e then purchase_reference e else tly_eligible_ref t)"
    using tally_purchase_total by blast
  from Cons.IH [of u] u show ?case by (auto split: if_splits)
qed simp

lemma tally_decision_eligible: "ql_state (tally_decision t now) = QualEligible \<longleftrightarrow> tly_eligible_ref t \<noteq> []"
  by (simp add: tally_decision_def qualification_of_def unavailable_qualification_def)

end
