(* ===== verification/Commission_Settlement.thy ===== *)
theory Commission_Settlement
  imports Commission_Qualification Effect_Port
begin

text \<open>
  The due check of a commission, \<open>internal/distribution/app/settlement.go\<close>: a commission that is
  due is repriced, its distributor's qualification and receiver are checked, and one
  profit-sharing instruction is accepted with Payment in the same unit of work; later checks
  reconcile exactly that instruction and release what remains of the original payment.

  Each unit of work is a function of its own. \<open>run_due_check\<close> is the worker's call: the units of
  work and the provider queries between them. Its clock is read once; a unit of work that runs
  at another instant is covered by the step relation of \<open>Commission_System\<close>, where units of work
  of different jobs interleave. \<open>river.JobSnooze\<close> ends a job with its units of work committed.
\<close>

section \<open>Shared steps\<close>

definition due_check_retry_delay :: duration where "due_check_retry_delay = 15 * minute"

definition settlement_query_delay :: duration where "settlement_query_delay = 5 * minute"

datatype job_outcome = Job_Done | Job_Snooze duration | Job_Failed dist_error

text \<open>A refusal of the domain is reported as a conflict.\<close>

definition or_conflict :: "distribution_error + 'a \<Rightarrow> dist_error + 'a" where
  "or_conflict r = (case r of Inl _ \<Rightarrow> Inl Dist_Conflict | Inr x \<Rightarrow> Inr x)"

lemma or_conflict_eq_Inr [simp]: "or_conflict r = Inr x \<longleftrightarrow> r = Inr x"
  by (cases r) (auto simp: or_conflict_def)

definition worker_actor :: string where "worker_actor = ''worker:distribution-due''"

definition unix_nano :: "time \<Rightarrow> int64" where "unix_nano t = wrap64 (t - unix_epoch)"

definition audit_within :: "string \<Rightarrow> string \<Rightarrow> int64 \<Rightarrow> string \<Rightarrow> time \<Rightarrow> commission_db \<Rightarrow> dist_error + commission_db" where
  "audit_within event aggregate i actor at db =
     and_then (append_audit event aggregate i actor at db)
       (append_outbox event (event @ '':'' @ format_int i @ '':'' @ format_int (unix_nano at)) i at)"

definition deadline_pointer :: "time \<Rightarrow> time option" where
  "deadline_pointer t = (if is_zero t then None else Some (utc t))"

definition deadline_imminent :: "time option \<Rightarrow> time \<Rightarrow> bool" where
  "deadline_imminent deadline now =
     (case deadline of None \<Rightarrow> False
      | Some d \<Rightarrow> \<not> is_zero d \<and> \<not> is_zero now \<and> 0 < utc d - utc now \<and> utc d - utc now \<le> 24 * hour)"

text \<open>The zero value of a settlement that was not found.\<close>

definition settlement_id :: "settlement option \<Rightarrow> int64" where
  "settlement_id s = (case s of None \<Rightarrow> 0 | Some s \<Rightarrow> stl_id s)"

definition settlement_payment_ref :: "settlement option \<Rightarrow> string" where
  "settlement_payment_ref s = (case s of None \<Rightarrow> [] | Some s \<Rightarrow> stl_payment_ref s)"

definition settlement_instruction_ref :: "settlement option \<Rightarrow> string" where
  "settlement_instruction_ref s = (case s of None \<Rightarrow> [] | Some s \<Rightarrow> stl_instruction_ref s)"

definition settlement_deadline :: "settlement option \<Rightarrow> time option" where
  "settlement_deadline s = (case s of None \<Rightarrow> None | Some s \<Rightarrow> stl_deadline s)"

definition open_exception ::
  "int64 \<Rightarrow> int64 \<Rightarrow> exception_kind \<Rightarrow> int64 \<Rightarrow> int64 \<Rightarrow> int64 \<Rightarrow> string \<Rightarrow> string \<Rightarrow> string \<Rightarrow> time \<Rightarrow> commission_exception" where
  "open_exception commission stl kind unpaid paid amount reason evidence actor now =
     \<lparr>exn_id = 0, exn_commission_id = commission, exn_settlement_id = stl, exn_kind = kind, exn_status = Exs_Open,
      exn_unpaid_due = unpaid, exn_already_paid = paid, exn_amount = amount, exn_reason = reason,
      exn_evidence = evidence, exn_actor = actor, exn_version = 1, exn_created_at = now, exn_updated_at = now\<rparr>"

section \<open>Holds, exceptions and warnings\<close>

definition hold_within :: "commission \<Rightarrow> string \<Rightarrow> time \<Rightarrow> commission_db \<Rightarrow> dist_error + commission_db" where
  "hold_within c reason now db =
     (if com_status c = ComHeld then Inr db
      else and_then (or_conflict (hold c (com_version c) reason now)) (\<lambda>next.
        and_then (update_commission next (com_version c) db) (\<lambda>(_, db1).
          audit_within ''distribution.commission_held.v1'' ''commission'' (com_id c) worker_actor now db1)))"

text \<open>The commission turned into an exception, unless it is one.\<close>

definition ensure_exception :: "commission \<Rightarrow> string \<Rightarrow> time \<Rightarrow> commission_db \<Rightarrow> dist_error + (commission \<times> commission_db)" where
  "ensure_exception c reason now db =
     (if com_status c = ComException then Inr (c, db)
      else and_then (or_conflict (mark_exception c (com_version c) reason now)) (\<lambda>next.
        and_then (update_commission next (com_version c) db) (\<lambda>(_, db1). Inr (next, db1))))"

definition mark_exception_within ::
  "commission \<Rightarrow> settlement option \<Rightarrow> exception_kind \<Rightarrow> string \<Rightarrow> string \<Rightarrow> time \<Rightarrow> commission_db \<Rightarrow> dist_error + commission_db" where
  "mark_exception_within c stl kind reason evidence now db =
     and_then (ensure_exception c reason now db) (\<lambda>(next, db1).
       case find_exception_by_evidence (com_id c) kind evidence db1 of
         Inr _ \<Rightarrow> Inr db1
       | Inl e \<Rightarrow> if e \<noteq> Dist_Not_Found then Inl e
           else (case find_open_exception (com_id c) kind db1 of
             Inr _ \<Rightarrow> Inr db1
           | Inl e \<Rightarrow> if e \<noteq> Dist_Not_Found then Inl e
               else let unpaid = max (wrap64 (com_payable_minor next - com_paid_minor next)) 0 in
                 and_then (insert_exception (open_exception (com_id c) (settlement_id stl) kind unpaid (com_paid_minor next)
                             unpaid reason evidence worker_actor now) db1) (\<lambda>(x, db2).
                   audit_within ''distribution.exception_opened.v1'' ''exception'' (exn_id x) worker_actor now db2)))"

definition record_deadline_warning_within ::
  "commission \<Rightarrow> settlement option \<Rightarrow> time \<Rightarrow> string \<Rightarrow> time \<Rightarrow> commission_db \<Rightarrow> dist_error + commission_db" where
  "record_deadline_warning_within c stl deadline evidence now db =
     (if 0 < com_paid_minor c \<or> \<not> deadline_imminent (deadline_pointer deadline) now then Inr db
      else case find_open_exception (com_id c) Ex_Deadline_Imminent db of
        Inr _ \<Rightarrow> Inr db
      | Inl e \<Rightarrow> if e \<noteq> Dist_Not_Found then Inl e
          else and_then (insert_exception (open_exception (com_id c) (settlement_id stl) Ex_Deadline_Imminent 0 0 0
                           ''split_deadline_within_24h'' evidence worker_actor now) db) (\<lambda>(x, db1).
            audit_within ''distribution.settlement_deadline_imminent.v1'' ''exception'' (exn_id x) worker_actor now db1))"

text \<open>The units of work of \<open>recordDeadlineWarning\<close> and \<open>markException\<close>.\<close>

definition record_deadline_warning ::
  "commission_env \<Rightarrow> int64 \<Rightarrow> settlement option \<Rightarrow> time \<Rightarrow> commission_db \<Rightarrow> dist_error + commission_db" where
  "record_deadline_warning env i stl deadline db =
     and_then (read_settlement_context i db) (\<lambda>locked.
       record_deadline_warning_within (scx_commission locked) stl deadline (settlement_payment_ref stl) (utc (cev_now env)) db)"

definition mark_commission_exception ::
  "commission_env \<Rightarrow> int64 \<Rightarrow> settlement option \<Rightarrow> exception_kind \<Rightarrow> string \<Rightarrow> string \<Rightarrow> commission_db \<Rightarrow> dist_error + commission_db" where
  "mark_commission_exception env i stl kind reason evidence db =
     and_then (read_settlement_context i db) (\<lambda>locked.
       mark_exception_within (scx_commission locked) stl kind reason evidence (utc (cev_now env)) db)"

section \<open>Preparing a settlement\<close>

definition settlement_reference :: "int64 \<Rightarrow> string" where
  "settlement_reference i = ''dstl_commission_'' @ format_int i"

definition sharing_request_for :: "settlement_context \<Rightarrow> commission \<Rightarrow> int64 \<Rightarrow> payment_state \<Rightarrow> sharing_request" where
  "sharing_request_for value c customer state =
     \<lparr>shr_settlement_ref = settlement_reference (com_id c), shr_payment_ref = dps_payment_ref state,
      shr_recipient = customer, shr_amount = com_payable_minor c, shr_currency = ''CNY'',
      shr_key = ''distribution.settlement:'' @ format_int (com_id c),
      shr_source_digest = hash_parts [''distribution.settlement.v1'', format_int (com_id c)],
      shr_payload_digest = hash_parts [''distribution.settlement.payload.v1'', settlement_reference (com_id c),
        dps_payment_ref state, format_int (com_payable_minor c)],
      shr_policy_digest = hash_parts [''distribution.policy.v1'', format_int (at_policy_version (scx_attribution value)),
        format_int (at_rate (scx_attribution value)), format_int (at_wait_days (scx_attribution value))]\<rparr>"

text \<open>Payment accepts the split in the caller's unit of work.\<close>

definition accept_profit_sharing ::
  "commission_env \<Rightarrow> sharing_request \<Rightarrow> commission_db \<Rightarrow> dist_error + (split_instruction \<times> commission_db)" where
  "accept_profit_sharing env r db =
     and_then (cev_accept env r) (\<lambda>x. Inr (x, db\<lparr>dd_requests := dd_requests db @ [r]\<rparr>))"

text \<open>\<open>submit_settlement\<close>: from \<open>BeginSettlement\<close> to the end of the unit of work.\<close>

definition submit_settlement ::
  "commission_env \<Rightarrow> settlement_context \<Rightarrow> commission \<Rightarrow> int64 \<Rightarrow> payment_state \<Rightarrow> time \<Rightarrow> commission_db \<Rightarrow> dist_error + commission_db" where
  "submit_settlement env value c customer state now db =
     and_then (or_conflict (begin_settlement c (com_version c) now)) (\<lambda>next.
       and_then (insert_settlement \<lparr>stl_id = 0, stl_commission_id = com_id c, stl_reference = settlement_reference (com_id c),
                   stl_payment_ref = dps_payment_ref state, stl_instruction_ref = [], stl_effect_ref = [],
                   stl_state = Stl_Planned, stl_amount = com_payable_minor next, stl_currency = ''CNY'',
                   stl_deadline = Some (dps_deadline state), stl_version = 1, stl_created_at = now, stl_updated_at = now\<rparr> db)
         (\<lambda>((planned, _), db1).
         and_then (accept_profit_sharing env (sharing_request_for value next customer state) db1) (\<lambda>(instruction, db2).
           and_then (accept_settlement (planned\<lparr>stl_instruction_ref := shi_reference instruction,
                       stl_effect_ref := shi_effect_ref instruction, stl_state := Stl_Accepted,
                       stl_deadline := deadline_pointer (shi_deadline instruction),
                       stl_version := next_version (stl_version planned), stl_updated_at := now\<rparr>) (stl_version planned) db2)
             (\<lambda>(_, db3).
             and_then (update_commission next (com_version c) db3) (\<lambda>(_, db4).
               audit_within ''distribution.settlement_accepted.v1'' ''settlement'' (stl_id planned) worker_actor now db4)))))"

definition resume_if_held :: "commission \<Rightarrow> time \<Rightarrow> commission_db \<Rightarrow> dist_error + (commission \<times> commission_db)" where
  "resume_if_held c now db =
     (if com_status c = ComHeld
      then and_then (or_conflict (resume c (com_version c) now)) (\<lambda>resumed.
        update_commission resumed (wrap64 (com_version resumed - 1)) db)
      else Inr (c, db))"

text \<open>The reprice before a settlement: the adjustment is recorded only when the amount moves.\<close>

definition reprice_within ::
  "commission \<Rightarrow> int64 \<Rightarrow> payment_state \<Rightarrow> time \<Rightarrow> commission_db \<Rightarrow> dist_error + (commission \<times> commission_db)" where
  "reprice_within c expected state now db =
     and_then (or_conflict (reprice c (com_version c) (com_original_paid_minor c) (dps_successful_refund state) now)) (\<lambda>next.
       and_then (if com_payable_minor next \<noteq> com_payable_minor c
                 then append_adjustment \<lparr>adj_commission_id = com_id c, adj_kind = Adj_Buyer_Refund,
                        adj_delta = wrap64 (com_payable_minor next - com_payable_minor c),
                        adj_resulting = com_payable_minor next, adj_reason = ''buyer_refund'',
                        adj_source = dps_payment_ref state, adj_at = now\<rparr> db
                 else Inr db) (update_commission next expected))"

definition revoke_within ::
  "settlement_context \<Rightarrow> commission \<Rightarrow> time \<Rightarrow> commission_db \<Rightarrow> dist_error + commission_db" where
  "revoke_within value c now db =
     and_then (or_conflict (cancel_unsettled c (com_version c) ''qualification_revoked'' now)) (\<lambda>next.
       and_then (append_adjustment \<lparr>adj_commission_id = com_id c, adj_kind = Adj_Qualification_Revoke,
                   adj_delta = wrap64 (com_payable_minor next - com_payable_minor c), adj_resulting = com_payable_minor next,
                   adj_reason = ''qualification_revoked'', adj_source = at_evidence_ref (scx_attribution value), adj_at = now\<rparr> db)
         (\<lambda>db1. and_then (update_commission next (com_version c) db1) (\<lambda>(_, db2).
           audit_within ''distribution.commission_cancelled.v1'' ''commission'' (com_id c) worker_actor now db2)))"

text \<open>Everything after the reprice.\<close>

definition settle_within ::
  "commission_env \<Rightarrow> settlement_context \<Rightarrow> commission \<Rightarrow> payment_state \<Rightarrow> time \<Rightarrow> commission_db \<Rightarrow> dist_error + commission_db" where
  "settle_within env value c state now db =
     and_then (read_distributor (com_distributor_id c) db) (\<lambda>(d, receiver).
       case check_within env (dst_customer_id d) (scx_product_id value) (scx_product_type value) of
         Inl _ \<Rightarrow> hold_within c ''qualification_unavailable'' now db
       | Inr q \<Rightarrow>
           if ql_state q = QualUnavailable \<or> ql_state q = QualSuspended \<or> ql_state q = QualConflict
           then hold_within c ''qualification_unavailable'' now db
           else if ql_state q = QualIneligible then revoke_within value c now db
           else if cev_receiver_ready env (dst_customer_id d) (rcv_app_id receiver) \<noteq> Inr True
           then hold_within c ''receiver_unavailable'' now db
           else if \<not> dps_split_capable state \<or> is_zero (dps_deadline state) \<or> \<not> now < dps_deadline state
           then mark_exception_within c None Ex_Settlement_Deadline ''split_deadline_unavailable'' (dps_payment_ref state) now db
           else if dps_available state < com_payable_minor c then hold_within c ''split_funds_unavailable'' now db
           else and_then (resume_if_held c now db) (\<lambda>(c', db1).
             submit_settlement env value c' (dst_customer_id d) state now db1))"

definition prepare_settlement ::
  "commission_env \<Rightarrow> int64 \<Rightarrow> payment_state \<Rightarrow> commission_db \<Rightarrow> dist_error + (bool \<times> commission_db)" where
  "prepare_settlement env i state db =
     (let now = utc (cev_now env) in
      and_then (read_settlement_context i db) (\<lambda>value.
        let c = scx_commission value in
        if com_status c \<noteq> ComPending \<and> com_status c \<noteq> ComHeld then Inr (False, db)
        else and_then (record_deadline_warning_within c None (dps_deadline state) (dps_payment_ref state) now db) (\<lambda>db1.
          if now < com_due_at c then Inr (True, db1)
          else and_then
            (if \<not> dps_confirmed_paid state \<or> dps_payment_ref state = [] \<or> dps_refund_exposure state
             then hold_within c ''payment_or_refund_pending'' now db1
             else if 0 < dps_successful_refund state
             then and_then (reprice_within c (com_version c) state now db1) (\<lambda>(c', db2).
               if com_status c' = ComCancelled
               then audit_within ''distribution.commission_cancelled.v1'' ''commission'' (com_id c') worker_actor now db2
               else settle_within env value c' state now db2)
             else settle_within env value c state now db1)
            (\<lambda>db2. Inr (False, db2)))))"

section \<open>Reconciling the instruction\<close>

definition payment_settlement_failure_reason :: "string \<Rightarrow> string" where
  "payment_settlement_failure_reason v =
     (if v \<in> {''receiver_account_abnormal'', ''receiver_relation_removed'', ''receiver_high_risk'',
              ''receiver_real_name_unverified'', ''merchant_permission_revoked'', ''receiver_receipt_limit'',
              ''payer_account_abnormal'', ''invalid_split_request''}
      then ''payment_'' @ v else ''settlement_not_paid'')"

definition closed_instruction_business_cancellation :: "settlement_context \<Rightarrow> commission_db \<Rightarrow> string" where
  "closed_instruction_business_cancellation value db =
     (let c = scx_commission value in
      if com_payable_minor c = 0 \<and> com_refunded_minor c = com_original_paid_minor c then ''buyer_refund''
      else case has_exception_with_reason (com_id c) Ex_Qualification_Revoked ''qualification_revoked_after_paid'' db of
        Inl _ \<Rightarrow> [] | Inr found \<Rightarrow> if found then ''qualification_revoked'' else [])"

definition resolve_business_exceptions :: "int64 \<Rightarrow> time \<Rightarrow> commission_db \<Rightarrow> dist_error + commission_db" where
  "resolve_business_exceptions i now db =
     and_then (resolve_open_business_exceptions i now db) (\<lambda>(es, db1).
       for_each (\<lambda>e. audit_within ''distribution.exception_resolved.v1'' ''exception'' (exn_id e) worker_actor now) es db1)"

text \<open>What a reconciliation left behind.\<close>

datatype reconciled = Rec_Finalized | Rec_Unknown

definition confirm_paid_within ::
  "commission \<Rightarrow> split_instruction \<Rightarrow> time \<Rightarrow> commission_db \<Rightarrow> dist_error + commission_db" where
  "confirm_paid_within c instruction now db =
     (if com_status c = ComException \<and> 0 < com_paid_minor c then Inr db
      else and_then (or_conflict (confirm_receiver_paid c (com_version c) (shi_amount instruction) now)) (\<lambda>next.
        and_then (update_commission next (com_version c) db) (\<lambda>(_, db1). Inr db1)))"

definition put_settlement_state ::
  "settlement \<Rightarrow> settlement_state \<Rightarrow> split_instruction \<Rightarrow> time \<Rightarrow> commission_db \<Rightarrow> dist_error + commission_db" where
  "put_settlement_state s state instruction now db =
     and_then (update_settlement_state (s\<lparr>stl_state := state, stl_deadline := deadline_pointer (shi_deadline instruction),
                 stl_version := next_version (stl_version s), stl_updated_at := now\<rparr>) (stl_version s) db) (\<lambda>(_, db1). Inr db1)"

definition confirm_unpaid_within ::
  "settlement_context \<Rightarrow> string \<Rightarrow> time \<Rightarrow> commission_db \<Rightarrow> dist_error + commission_db" where
  "confirm_unpaid_within value reason now db =
     (let c = scx_commission value in
      and_then (or_conflict (confirm_instruction_unpaid c (com_version c) reason now)) (\<lambda>next.
        and_then (update_commission next (com_version c) db) (\<lambda>(_, db1).
          and_then (resolve_business_exceptions (com_id c) now db1) (\<lambda>db2.
            and_then (if com_payable_minor next \<noteq> com_payable_minor c
                      then append_adjustment \<lparr>adj_commission_id = com_id c, adj_kind = Adj_Qualification_Revoke,
                             adj_delta = wrap64 (com_payable_minor next - com_payable_minor c),
                             adj_resulting = com_payable_minor next, adj_reason = reason,
                             adj_source = at_evidence_ref (scx_attribution value), adj_at = now\<rparr> db2
                      else Inr db2)
              (audit_within ''distribution.commission_cancelled.v1'' ''commission'' (com_id c) worker_actor now)))))"

definition apply_reconciliation ::
  "commission_env \<Rightarrow> int64 \<Rightarrow> split_instruction \<Rightarrow> commission_db \<Rightarrow> dist_error + (reconciled \<times> commission_db)" where
  "apply_reconciliation env i instruction db =
     (let now = utc (cev_now env) in
      and_then (read_settlement_context i db) (\<lambda>value.
        and_then (read_latest_settlement i db) (\<lambda>s.
          let c = scx_commission value in
          if stl_instruction_ref s \<noteq> shi_reference instruction \<or> shi_amount instruction \<noteq> stl_amount s
             \<or> shi_currency instruction \<noteq> stl_currency s then Inl Dist_Conflict
          else if shi_confirmed_success instruction then
            and_then (confirm_paid_within c instruction now db) (\<lambda>db1.
              and_then (put_settlement_state s Stl_Succeeded instruction now db1) (\<lambda>db2.
                and_then (audit_within ''distribution.settlement_paid.v1'' ''commission'' (com_id c) worker_actor now db2)
                  (\<lambda>db3. Inr (Rec_Finalized, db3))))
          else if shi_outcome_known instruction then
            let business = closed_instruction_business_cancellation value db in
            if business \<noteq> [] then
              and_then (put_settlement_state s Stl_Cancelled instruction now db) (\<lambda>db1.
                and_then (confirm_unpaid_within value business now db1) (\<lambda>db2. Inr (Rec_Finalized, db2)))
            else
              and_then (put_settlement_state s Stl_Exception instruction now db) (\<lambda>db1.
                and_then (mark_exception_within c (Some s) Ex_Settlement_Not_Paid
                            (payment_settlement_failure_reason (shi_failure_class instruction)) (shi_reference instruction) now db1)
                  (\<lambda>db2. Inr (Rec_Finalized, db2)))
          else
            and_then (put_settlement_state s Stl_Unknown instruction now db) (\<lambda>db1.
              and_then (mark_exception_within c (Some s) Ex_Settlement_Unknown ''settlement_outcome_unknown''
                          (shi_reference instruction) now db1) (\<lambda>db2. Inr (Rec_Unknown, db2))))))"

section \<open>Releasing the rest of the payment\<close>

definition record_cancelled_unfreeze_failure ::
  "commission_env \<Rightarrow> int64 \<Rightarrow> settlement option \<Rightarrow> string \<Rightarrow> commission_db \<Rightarrow> dist_error + commission_db" where
  "record_cancelled_unfreeze_failure env i stl evidence db =
     and_then (read_settlement_context i db) (\<lambda>locked.
       let c = scx_commission locked; now = utc (cev_now env) in
       if com_status c \<noteq> ComCancelled \<or> com_payable_minor c \<noteq> 0 then Inl Dist_Conflict
       else case find_open_exception (com_id c) Ex_Unfreeze_Failed db of
         Inr _ \<Rightarrow> Inr db
       | Inl e \<Rightarrow> if e \<noteq> Dist_Not_Found then Inl e
           else and_then (insert_exception (open_exception (com_id c) (settlement_id stl) Ex_Unfreeze_Failed 0
                            (com_paid_minor c) 0 ''unfreeze_final_failed'' evidence worker_actor now) db) (\<lambda>(x, db1).
             audit_within ''distribution.unfreeze_failure_opened.v1'' ''exception'' (exn_id x) worker_actor now db1))"

definition unfreeze_request_for :: "int64 \<Rightarrow> string \<Rightarrow> unfreeze_request" where
  "unfreeze_request_for i payment_ref =
     \<lparr>ufr_payment_ref = payment_ref, ufr_reason = ''distribution_commission_finalized'',
      ufr_key = ''distribution.unfreeze:'' @ format_int i,
      ufr_source_digest = hash_parts [''distribution.unfreeze.v1'', format_int i],
      ufr_payload_digest = hash_parts [''distribution.unfreeze.payload.v1'', format_int i, payment_ref],
      ufr_policy_digest = hash_parts [''distribution.unfreeze.policy.v1'']\<rparr>"

definition unfreeze_remaining ::
  "commission_env \<Rightarrow> unfreeze_request \<Rightarrow> commission_db \<Rightarrow> dist_error + (sharing_unfreeze \<times> commission_db)" where
  "unfreeze_remaining env r db =
     and_then (cev_unfreeze env r) (\<lambda>x. Inr (x, db\<lparr>dd_unfreezes := dd_unfreezes db @ [r]\<rparr>))"

text \<open>A unit of work that ends a job: its error rolls back.\<close>

definition finish :: "dist_error + commission_db \<Rightarrow> commission_db \<Rightarrow> job_outcome \<times> commission_db" where
  "finish r db = (case r of Inl e \<Rightarrow> (Job_Failed e, db) | Inr db' \<Rightarrow> (Job_Done, db'))"

definition release_from ::
  "commission_env \<Rightarrow> settlement_context \<Rightarrow> settlement option \<Rightarrow> string \<Rightarrow> commission_db \<Rightarrow> job_outcome \<times> commission_db" where
  "release_from env value stl payment_ref db =
     (let c = scx_commission value in
      case unfreeze_remaining env (unfreeze_request_for (com_id c) payment_ref) db of
        Inl e \<Rightarrow> (if e = Dist_Nothing_To_Unfreeze then Job_Done else Job_Snooze due_check_retry_delay, db)
      | Inr (u, db1) \<Rightarrow>
          (case cev_reconcile_unfreeze env (ufz_reference u) of
             Inl _ \<Rightarrow> (Job_Snooze settlement_query_delay, db1)
           | Inr confirmed \<Rightarrow>
               if \<not> ufz_outcome_known confirmed then (Job_Snooze settlement_query_delay, db1)
               else if ufz_state confirmed = ''succeeded'' then (Job_Done, db1)
               else finish (if com_status c = ComCancelled
                            then record_cancelled_unfreeze_failure env (com_id c) stl (ufz_reference confirmed) db1
                            else mark_commission_exception env (com_id c) stl Ex_Unfreeze_Failed ''unfreeze_final_failed''
                                   (ufz_reference confirmed) db1) db1))"

definition release_remaining ::
  "commission_env \<Rightarrow> settlement_context \<Rightarrow> settlement option \<Rightarrow> commission_db \<Rightarrow> job_outcome \<times> commission_db" where
  "release_remaining env value stl db =
     (if settlement_payment_ref stl \<noteq> [] then release_from env value stl (settlement_payment_ref stl) db
      else case cev_preflight_state env (com_order_id (scx_commission value)) of
        Inl _ \<Rightarrow> (Job_Snooze due_check_retry_delay, db)
      | Inr state \<Rightarrow>
          if dps_payment_ref state = [] then (Job_Snooze due_check_retry_delay, db)
          else release_from env value stl (dps_payment_ref state) db)"

section \<open>The worker's call\<close>

definition load_settlement :: "int64 \<Rightarrow> commission_db \<Rightarrow> dist_error + (settlement_context \<times> settlement option)" where
  "load_settlement i db =
     and_then (read_settlement_context i db) (\<lambda>value.
       case read_latest_settlement i db of
         Inr s \<Rightarrow> Inr (value, Some s)
       | Inl e \<Rightarrow> if e = Dist_Not_Found then Inr (value, None) else Inl e)"

definition reconcile_and_release :: "commission_env \<Rightarrow> int64 \<Rightarrow> split_instruction \<Rightarrow> commission_db \<Rightarrow> job_outcome \<times> commission_db" where
  "reconcile_and_release env i instruction db =
     (case apply_reconciliation env i instruction db of
        Inl e \<Rightarrow> (Job_Failed e, db)
      | Inr (Rec_Unknown, db1) \<Rightarrow> (Job_Snooze settlement_query_delay, db1)
      | Inr (Rec_Finalized, db1) \<Rightarrow>
          (case and_then (read_settlement_context i db1) (\<lambda>value.
                  and_then (read_latest_settlement i db1) (\<lambda>s. Inr (value, s))) of
             Inl e \<Rightarrow> (Job_Failed e, db1)
           | Inr (value, s) \<Rightarrow> release_remaining env value (Some s) db1))"

definition warn_first ::
  "commission_env \<Rightarrow> int64 \<Rightarrow> settlement_context \<Rightarrow> settlement option \<Rightarrow> commission_db \<Rightarrow> dist_error + commission_db" where
  "warn_first env i value stl db =
     (case settlement_deadline stl of
        Some d \<Rightarrow> if com_paid_minor (scx_commission value) = 0 \<and> deadline_imminent (Some d) (utc (cev_now env))
                  then record_deadline_warning env i stl d db else Inr db
      | None \<Rightarrow> Inr db)"

definition run_due_check :: "commission_env \<Rightarrow> int64 \<Rightarrow> commission_db \<Rightarrow> job_outcome \<times> commission_db" where
  "run_due_check env i db =
     (if i < 1 then (Job_Failed Dist_Unavailable, db)
      else case load_settlement i db of
        Inl e \<Rightarrow> (Job_Failed e, db)
      | Inr (value, stl) \<Rightarrow>
          (case warn_first env i value stl db of
             Inl e \<Rightarrow> (Job_Failed e, db)
           | Inr db1 \<Rightarrow>
               (let c = scx_commission value in
                if com_status c = ComPaid \<or> com_status c = ComCancelled then release_remaining env value stl db1
                else if com_status c = ComZero then (Job_Done, db1)
                else if com_status c = ComSettling \<or> com_status c = ComException then
                  if settlement_instruction_ref stl = [] then (Job_Done, db1)
                  else (case cev_reconcile env (settlement_instruction_ref stl) of
                          Inl _ \<Rightarrow> (Job_Snooze settlement_query_delay, db1)
                        | Inr instruction \<Rightarrow> reconcile_and_release env i instruction db1)
                else (case cev_preflight_state env (com_order_id c) of
                        Inl _ \<Rightarrow> (Job_Snooze due_check_retry_delay, db1)
                      | Inr state \<Rightarrow>
                          (case prepare_settlement env i state db1 of
                             Inl e \<Rightarrow> (Job_Failed e, db1)
                           | Inr (retry, db2) \<Rightarrow>
                               (Job_Snooze (if retry then minute else settlement_query_delay), db2))))))"

end
