(* ===== verification/Commission_Refund.thy ===== *)
theory Commission_Refund
  imports Commission_Settlement Order_Service
begin

text \<open>
  How commissions begin and how refunds reach them: \<open>internal/distribution/app/commission.go\<close>
  (the order's paid event creates the commission of an attributed item) and \<open>refund.go\<close> (a
  refund fact of Order or Payment is queued in its own unit of work and rechecked in another:
  the commission of the refunded order is repriced, and every commission whose distributor the
  refunded purchase qualified is rechecked).

  The jobs a unit of work puts into the queue are recorded in \<open>dd_due_tasks\<close> and
  \<open>dd_recheck_tasks\<close>; that the queue drops a job it already holds is not modelled.
\<close>

section \<open>Queued jobs\<close>

definition enqueue_commission_due :: "int64 \<Rightarrow> time \<Rightarrow> commission_db \<Rightarrow> dist_error + commission_db" where
  "enqueue_commission_due i at db =
     (if i < 1 \<or> is_zero at then Inl Dist_Unavailable
      else Inr (db\<lparr>dd_due_tasks := dd_due_tasks db @ [(i, utc at)]\<rparr>))"

definition valid_recheck_args :: "recheck_args \<Rightarrow> bool" where
  "valid_recheck_args a \<longleftrightarrow>
     0 < rka_order_id a \<and> (rka_state a = ''successful'' \<or> 0 < rka_refund_id a)
     \<and> (rka_state a = ''successful'' \<or> rka_state a = ''opened'' \<or> rka_state a = ''final_failed'')
     \<and> \<not> is_zero (rka_occurred_at a) \<and> rka_receipt_key a \<noteq> [] \<and> length (rka_receipt_key a) \<le> 240"

definition enqueue_refund_recheck :: "recheck_args \<Rightarrow> commission_db \<Rightarrow> dist_error + commission_db" where
  "enqueue_refund_recheck a db =
     (if \<not> valid_recheck_args a then Inl Dist_Unavailable
      else Inr (db\<lparr>dd_recheck_tasks := dd_recheck_tasks db @ [a]\<rparr>))"

section \<open>The paid event\<close>

definition paid_line_minor :: "int32 \<Rightarrow> item_snapshot list \<Rightarrow> int64" where
  "paid_line_minor line items = (case find (\<lambda>x. line_no x = line) items of None \<Rightarrow> 0 | Some x \<Rightarrow> line_amount_minor x)"

text \<open>What the recheck of the qualification makes of a new pending commission.\<close>

definition qualify_new_commission :: "commission \<Rightarrow> qualification_state \<Rightarrow> time \<Rightarrow> distribution_error + commission" where
  "qualify_new_commission c state at =
     (if com_status c \<noteq> ComPending then Inr c
      else if state = QualIneligible then cancel_unsettled c (com_version c) ''qualification_revoked'' at
      else if state = QualEligible then Inr c
      else hold c (com_version c) ''qualification_evidence_pending'' at)"

definition store_new_commission :: "paid_event \<Rightarrow> commission \<Rightarrow> commission_db \<Rightarrow> dist_error + commission_db" where
  "store_new_commission event c db =
     and_then (insert_commission c db) (\<lambda>((saved, created), db1).
       if \<not> created then Inr db1
       else and_then (if com_status saved = ComPending \<or> com_status saved = ComHeld \<or> com_status saved = ComCancelled
                      then enqueue_commission_due (com_id saved) (com_due_at saved) db1 else Inr db1) (\<lambda>db2.
         and_then (append_audit ''distribution.commission_created.v1'' ''commission'' (com_id saved)
                     (''order-paid-event:'' @ format_int (pe_id event)) (pe_occurred_at event) db2)
           (append_outbox ''distribution.commission_created.v1''
              (''distribution.commission:paid-event:'' @ format_int (pe_id event)) (com_id saved) (pe_occurred_at event))))"

definition consume_paid_event :: "commission_env \<Rightarrow> paid_event \<Rightarrow> commission_db \<Rightarrow> dist_error + commission_db" where
  "consume_paid_event env event db =
     (if \<not> valid_paid_event event then Inl Dist_Unavailable
      else case read_attribution_context (pe_order_id event) 1 db of
        Inl e \<Rightarrow> if e = Dist_Not_Found then Inr db else Inl e
      | Inr x \<Rightarrow>
          (let a = acx_attribution x;
               paid = paid_line_minor (at_order_item_line a) (snap_items (pe_order event)) in
           if at_order_id a \<noteq> pe_order_id event \<or> at_order_item_line a \<noteq> 1 then Inl Dist_Conflict
           else if paid < 1 \<or> currency (snap_amount (pe_order event)) \<noteq> ''CNY''
                   \<or> amount_minor (snap_amount (pe_order event)) < paid then Inl Dist_Unavailable
           else and_then (or_conflict (new_commission a paid (pe_occurred_at event))) (\<lambda>c.
             let state = (case check_within env (acx_customer x) (acx_product_id x) (acx_product_type x) of
                            Inl _ \<Rightarrow> QualUnavailable | Inr q \<Rightarrow> ql_state q) in
             and_then (or_conflict (qualify_new_commission c state (pe_occurred_at event))) (\<lambda>c'.
               store_new_commission event c' db))))"

section \<open>Refund facts\<close>

definition valid_refund_event :: "refund_event \<Rightarrow> bool" where
  "valid_refund_event e \<longleftrightarrow>
     0 < snap_id (re_order e) \<and> snap_origin (re_order e) = OriginNative \<and> 0 < re_refunded_delta e
     \<and> \<not> is_zero (re_occurred_at e) \<and> re_receipt_key e \<noteq> []
     \<and> (re_checkout_product_id e = 0 \<and> re_checkout_product_type e = []
        \<or> 0 < re_checkout_product_id e
          \<and> (re_checkout_product_type e = ''standard_product'' \<or> re_checkout_product_type e = ''service_period''))"

definition consume_refund_settlement :: "refund_event \<Rightarrow> commission_db \<Rightarrow> dist_error + commission_db" where
  "consume_refund_settlement e db =
     (if \<not> valid_refund_event e then Inl Dist_Unavailable
      else enqueue_refund_recheck \<lparr>rka_order_id = snap_id (re_order e), rka_refund_id = 0, rka_state = ''successful'',
             rka_occurred_at = utc (re_occurred_at e), rka_receipt_key = re_receipt_key e\<rparr> db)"

record exposure_event =
  exv_order_id :: int64
  exv_refund_id :: int64
  exv_state :: string
  exv_occurred_at :: time
  exv_receipt_key :: string

definition valid_exposure_event :: "exposure_event \<Rightarrow> bool" where
  "valid_exposure_event e \<longleftrightarrow>
     0 < exv_order_id e \<and> 0 < exv_refund_id e \<and> (exv_state e = ''opened'' \<or> exv_state e = ''final_failed'')
     \<and> \<not> is_zero (exv_occurred_at e) \<and> exv_receipt_key e \<noteq> [] \<and> length (exv_receipt_key e) \<le> 240"

definition consume_refund_exposure :: "exposure_event \<Rightarrow> commission_db \<Rightarrow> dist_error + commission_db" where
  "consume_refund_exposure e db =
     (if \<not> valid_exposure_event e then Inl Dist_Unavailable
      else enqueue_refund_recheck \<lparr>rka_order_id = exv_order_id e, rka_refund_id = exv_refund_id e, rka_state = exv_state e,
             rka_occurred_at = utc (exv_occurred_at e), rka_receipt_key = exv_receipt_key e\<rparr> db)"

section \<open>Steps of the recheck\<close>

definition refund_actor :: "int64 \<Rightarrow> string" where
  "refund_actor order = ''order-refund:'' @ format_int order"

definition event_ref :: "int64 \<Rightarrow> string \<Rightarrow> string" where
  "event_ref order receipt = ''order:'' @ format_int order @ '':refund:'' @ receipt"

definition refund_source :: "string \<Rightarrow> string" where
  "refund_source v = (if length v \<le> 200 then v else take 200 v)"

definition refund_record_within :: "string \<Rightarrow> int64 \<Rightarrow> string \<Rightarrow> time \<Rightarrow> commission_db \<Rightarrow> dist_error + commission_db" where
  "refund_record_within event i receipt now db =
     and_then (append_audit event ''commission'' i (''order-refund:'' @ receipt) now db)
       (append_outbox event (event @ '':'' @ format_int i @ '':'' @ receipt) i now)"

text \<open>Paid money a later refund or revocation leaves without a basis.\<close>

definition after_sales_handling :: "commission \<Rightarrow> string \<Rightarrow> int64" where
  "after_sales_handling c reason =
     (if com_paid_minor c < 1 then 0
      else if reason = ''qualification_revoked_after_paid'' then com_paid_minor c
      else max (wrap64 (com_paid_minor c - com_payable_minor c)) 0)"

text \<open>The settlement an exception names, if there is one.\<close>

definition latest_settlement_id :: "int64 \<Rightarrow> commission_db \<Rightarrow> dist_error + int64" where
  "latest_settlement_id i db =
     (case read_latest_settlement i db of Inr s \<Rightarrow> Inr (stl_id s)
      | Inl e \<Rightarrow> if e = Dist_Not_Found then Inr 0 else Inl e)"

definition append_refund_adjustment ::
  "commission \<Rightarrow> commission \<Rightarrow> string \<Rightarrow> time \<Rightarrow> commission_db \<Rightarrow> dist_error + commission_db" where
  "append_refund_adjustment before after source now db =
     (if com_payable_minor after = com_payable_minor before then Inr db
      else append_adjustment \<lparr>adj_commission_id = com_id before, adj_kind = Adj_Buyer_Refund,
             adj_delta = wrap64 (com_payable_minor after - com_payable_minor before),
             adj_resulting = com_payable_minor after, adj_reason = ''buyer_refund'', adj_source = source, adj_at = now\<rparr> db)"

text \<open>The common end of both exceptions a recheck opens.\<close>

definition open_refund_exception ::
  "commission \<Rightarrow> exception_kind \<Rightarrow> string \<Rightarrow> string \<Rightarrow> string \<Rightarrow> time \<Rightarrow> commission_db \<Rightarrow> dist_error + commission_db" where
  "open_refund_exception next kind reason receipt source now db =
     and_then (latest_settlement_id (com_id next) db) (\<lambda>sid.
       and_then (insert_exception (open_exception (com_id next) sid kind
                   (max (wrap64 (com_payable_minor next - com_paid_minor next)) 0) (com_paid_minor next)
                   (after_sales_handling next reason) reason source (refund_actor (com_order_id next)) now) db) (\<lambda>(x, db1).
         and_then (refund_record_within ''distribution.exception_opened.v1'' (exn_id x) receipt now db1)
           (enqueue_commission_due (com_id next) now)))"

definition record_post_submission_refund ::
  "commission \<Rightarrow> int64 \<Rightarrow> string \<Rightarrow> string \<Rightarrow> time \<Rightarrow> commission_db \<Rightarrow> dist_error + commission_db" where
  "record_post_submission_refund c cumulative receipt source now db =
     and_then (or_conflict (refund_after_submission c (com_version c) cumulative ''buyer_refund_after_paid'' now)) (\<lambda>next.
       and_then (append_refund_adjustment c next source now db) (\<lambda>db1.
         and_then (update_commission next (com_version c) db1) (\<lambda>(_, db2).
           open_refund_exception next Ex_Buyer_Refund ''buyer_refund_after_paid'' receipt source now db2)))"

definition apply_buyer_refund ::
  "commission \<Rightarrow> int64 \<Rightarrow> string \<Rightarrow> string \<Rightarrow> time \<Rightarrow> commission_db \<Rightarrow> dist_error + commission_db" where
  "apply_buyer_refund c cumulative receipt source now db =
     (if cumulative < com_refunded_minor c \<or> com_original_paid_minor c < cumulative then Inl Dist_Conflict
      else if cumulative = com_refunded_minor c then Inr db
      else if com_status c = ComPending \<or> com_status c = ComHeld then
        and_then (or_conflict (reprice c (com_version c) (com_original_paid_minor c) cumulative now)) (\<lambda>next.
          and_then (append_refund_adjustment c next source now db) (\<lambda>db1.
            and_then (update_commission next (com_version c) db1) (\<lambda>(_, db2).
              and_then (refund_record_within (if com_status next = ComCancelled then ''distribution.commission_cancelled.v1''
                                       else ''distribution.commission_refund_adjusted.v1'') (com_id next) receipt now db2)
                (enqueue_commission_due (com_id next) now))))
      else if com_status c = ComSettling \<or> com_status c = ComPaid \<or> com_status c = ComException then
        record_post_submission_refund c cumulative receipt source now db
      else if com_status c = ComCancelled \<or> com_status c = ComZero then
        and_then (or_conflict (refund_after_finalization c (com_version c) cumulative now)) (\<lambda>next.
          and_then (update_commission next (com_version c) db) (\<lambda>(_, db1).
            and_then (refund_record_within ''distribution.commission_refund_recorded.v1'' (com_id next) receipt now db1) (\<lambda>db2.
              if com_status next = ComCancelled then enqueue_commission_due (com_id next) now db2 else Inr db2)))
      else Inl Dist_Conflict)"

definition mark_qualification_exception ::
  "commission \<Rightarrow> string \<Rightarrow> string \<Rightarrow> string \<Rightarrow> time \<Rightarrow> commission_db \<Rightarrow> dist_error + commission_db" where
  "mark_qualification_exception c receipt source reason now db =
     and_then (ensure_exception c reason now db) (\<lambda>(next, db1).
       open_refund_exception next Ex_Qualification_Revoked reason receipt source now db1)"

definition hold_for_recheck ::
  "commission \<Rightarrow> string \<Rightarrow> string \<Rightarrow> time \<Rightarrow> commission_db \<Rightarrow> dist_error + commission_db" where
  "hold_for_recheck c reason receipt now db =
     and_then (or_conflict (hold c (com_version c) reason now)) (\<lambda>next.
       and_then (update_commission next (com_version c) db) (\<lambda>(_, db1).
         refund_record_within ''distribution.commission_held.v1'' (com_id next) receipt now db1))"

definition resume_after_recheck :: "commission \<Rightarrow> string \<Rightarrow> time \<Rightarrow> commission_db \<Rightarrow> dist_error + commission_db" where
  "resume_after_recheck c receipt now db =
     and_then (or_conflict (resume c (com_version c) now)) (\<lambda>next.
       and_then (update_commission next (com_version c) db) (\<lambda>(_, db1).
         refund_record_within ''distribution.commission_resumed.v1'' (com_id next) receipt now db1))"

definition revoke_for_refund ::
  "commission \<Rightarrow> string \<Rightarrow> string \<Rightarrow> time \<Rightarrow> commission_db \<Rightarrow> dist_error + commission_db" where
  "revoke_for_refund c receipt source now db =
     and_then (or_conflict (cancel_unsettled c (com_version c) ''qualification_revoked'' now)) (\<lambda>next.
       and_then (append_adjustment \<lparr>adj_commission_id = com_id c, adj_kind = Adj_Qualification_Revoke,
                   adj_delta = wrap64 (- com_payable_minor c), adj_resulting = 0, adj_reason = ''qualification_revoked'',
                   adj_source = source, adj_at = now\<rparr> db) (\<lambda>db1.
         and_then (update_commission next (com_version c) db1) (\<lambda>(_, db2).
           and_then (refund_record_within ''distribution.commission_cancelled.v1'' (com_id next) receipt now db2)
             (enqueue_commission_due (com_id next) now))))"

definition apply_qualification_refund ::
  "commission_env \<Rightarrow> string \<Rightarrow> string \<Rightarrow> time \<Rightarrow> settlement_context \<Rightarrow> commission_db \<Rightarrow> dist_error + commission_db" where
  "apply_qualification_refund env receipt source now value db =
     (let c = scx_commission value in
      and_then (read_distributor (com_distributor_id c) db) (\<lambda>(d, _).
        let state = (case check_within env (dst_customer_id d) (scx_product_id value) (scx_product_type value) of
                       Inl _ \<Rightarrow> QualUnavailable | Inr q \<Rightarrow> ql_state q) in
        if state = QualEligible then Inr db
        else if state = QualSuspended \<or> state = QualUnavailable \<or> state = QualConflict then
          if com_status c = ComPending then
            and_then (hold_for_recheck c ''qualification_refund_evidence_pending'' receipt now db)
              (enqueue_commission_due (com_id c) now)
          else if com_status c = ComHeld \<or> com_status c = ComCancelled \<or> com_status c = ComZero then Inr db
          else mark_qualification_exception c receipt source ''qualification_evidence_unavailable_after_submission'' now db
        else if state = QualIneligible then
          if com_status c = ComPending \<or> com_status c = ComHeld then revoke_for_refund c receipt source now db
          else if com_status c = ComSettling \<or> com_status c = ComPaid \<or> com_status c = ComException then
            mark_qualification_exception c receipt source ''qualification_revoked_after_paid'' now db
          else if com_status c = ComCancelled \<or> com_status c = ComZero then Inr db
          else Inl Dist_Conflict
        else Inl Dist_Conflict))"

section \<open>Refund exposure\<close>

definition enqueue_unless_final :: "commission \<Rightarrow> time \<Rightarrow> commission_db \<Rightarrow> dist_error + commission_db" where
  "enqueue_unless_final c now db =
     (if com_status c \<noteq> ComCancelled \<and> com_status c \<noteq> ComZero then enqueue_commission_due (com_id c) now db else Inr db)"

definition apply_buyer_exposure ::
  "commission_env \<Rightarrow> exposure_event \<Rightarrow> commission \<Rightarrow> commission_db \<Rightarrow> dist_error + commission_db" where
  "apply_buyer_exposure env event c db =
     (let now = utc (exv_occurred_at event) in
      if exv_state event = ''opened'' then
        and_then (if com_status c = ComPending then hold_for_recheck c ''buyer_refund_pending'' (exv_receipt_key event) now db
                  else Inr db) (enqueue_unless_final c now)
      else if exv_state event = ''final_failed'' then
        and_then (payment_state_within env (com_order_id c)) (\<lambda>state.
          if refund_in_flight state then enqueue_unless_final c now db
          else and_then (if com_status c = ComHeld \<and> (com_hold_reason c = ''buyer_refund_pending''
                              \<or> com_hold_reason c = ''payment_or_refund_pending'')
                         then resume_after_recheck c (exv_receipt_key event) now db
                         else Inr db) (enqueue_unless_final c now))
      else Inl Dist_Conflict)"

definition apply_qualification_exposure ::
  "commission_env \<Rightarrow> exposure_event \<Rightarrow> settlement_context \<Rightarrow> commission_db \<Rightarrow> dist_error + commission_db" where
  "apply_qualification_exposure env event value db =
     (let c = scx_commission value; now = utc (exv_occurred_at event) in
      if exv_state event \<noteq> ''opened'' \<and> exv_state event \<noteq> ''final_failed'' then Inl Dist_Conflict
      else and_then (read_distributor (com_distributor_id c) db) (\<lambda>(d, _).
        let eligible = (case check_within env (dst_customer_id d) (scx_product_id value) (scx_product_type value) of
                          Inl _ \<Rightarrow> False | Inr q \<Rightarrow> ql_state q = QualEligible) in
        if exv_state event = ''opened'' then
          if eligible then Inr db
          else and_then (if com_status c = ComPending
                         then hold_for_recheck c ''qualification_refund_evidence_pending'' (exv_receipt_key event) now db
                         else Inr db) (enqueue_unless_final c now)
        else and_then (if eligible \<and> com_status c = ComHeld \<and> com_hold_reason c = ''qualification_refund_evidence_pending''
                       then resume_after_recheck c (exv_receipt_key event) now db
                       else Inr db) (enqueue_unless_final c now)))"

section \<open>The recheck\<close>

record refund_target =
  rtg_product_id :: int64
  rtg_product_type :: product_type
  rtg_payer :: int64
  rtg_beneficiary :: int64

definition valid_refund_evidence :: "refund_evidence \<Rightarrow> bool" where
  "valid_refund_evidence e \<longleftrightarrow>
     0 < rev_order_id e \<and> 0 < rev_item_line e \<and> 0 < rev_product_id e \<and> 0 < rev_payer e \<and> 0 < rev_beneficiary e
     \<and> 0 < rev_item_paid e \<and> valid_product_type (rev_product_type e) \<and> \<not> is_zero (rev_confirmed_at e)
     \<and> (rev_origin e = ''native'' \<or> rev_origin e = ''history'')"

fun collect_targets :: "int64 \<Rightarrow> refund_evidence list \<Rightarrow> refund_target list \<Rightarrow> dist_error + refund_target list" where
  "collect_targets order [] ts = Inr ts"
| "collect_targets order (e # es) ts =
     (if rev_order_id e \<noteq> order \<or> \<not> valid_refund_evidence e then Inl Dist_Unavailable
      else let t = \<lparr>rtg_product_id = rev_product_id e, rtg_product_type = rev_product_type e, rtg_payer = rev_payer e,
                   rtg_beneficiary = rev_beneficiary e\<rparr>
           in collect_targets order es (if t \<in> set ts then ts else ts @ [t]))"

definition qualification_refund_targets :: "commission_env \<Rightarrow> int64 \<Rightarrow> dist_error + refund_target list" where
  "qualification_refund_targets env order =
     (if order < 1 then Inl Dist_Unavailable
      else and_then (cev_refund_evidence env order) (\<lambda>es. collect_targets order es []))"

definition matches_refund_target ::
  "commission_env \<Rightarrow> settlement_context \<Rightarrow> refund_target \<Rightarrow> commission_db \<Rightarrow> dist_error + bool" where
  "matches_refund_target env value t db =
     and_then (read_distributor (com_distributor_id (scx_commission value)) db) (\<lambda>(d, _).
       matches_trusted_customer env (dst_customer_id d) (rtg_payer t) (rtg_beneficiary t))"

text \<open>The two nested loops over contexts and targets; \<open>seen\<close> holds the commissions already
  rechecked, and \<open>f\<close> is the recheck of one of them.\<close>

fun recheck_targets ::
  "(settlement_context \<Rightarrow> commission_db \<Rightarrow> dist_error + commission_db) \<Rightarrow> commission_env \<Rightarrow> settlement_context
   \<Rightarrow> refund_target list \<Rightarrow> int64 list \<Rightarrow> commission_db \<Rightarrow> dist_error + (int64 list \<times> commission_db)" where
  "recheck_targets f env value [] seen db = Inr (seen, db)"
| "recheck_targets f env value (t # ts) seen db =
     (if scx_product_id value \<noteq> rtg_product_id t \<or> scx_product_type value \<noteq> rtg_product_type t
         \<or> com_id (scx_commission value) \<in> set seen then recheck_targets f env value ts seen db
      else and_then (matches_refund_target env value t db) (\<lambda>matches.
        if \<not> matches then recheck_targets f env value ts seen db
        else and_then (f value db) (recheck_targets f env value ts (com_id (scx_commission value) # seen))))"

fun recheck_contexts ::
  "(settlement_context \<Rightarrow> commission_db \<Rightarrow> dist_error + commission_db) \<Rightarrow> commission_env \<Rightarrow> refund_target list
   \<Rightarrow> settlement_context list \<Rightarrow> int64 list \<Rightarrow> commission_db \<Rightarrow> dist_error + commission_db" where
  "recheck_contexts f env ts [] seen db = Inr db"
| "recheck_contexts f env ts (v # vs) seen db =
     and_then (recheck_targets f env v ts seen db) (\<lambda>(seen', db'). recheck_contexts f env ts vs seen' db')"

definition of_order :: "int64 \<Rightarrow> settlement_context list \<Rightarrow> settlement_context list" where
  "of_order order = filter (\<lambda>v. com_order_id (scx_commission v) = order)"

definition target_scopes :: "refund_target list \<Rightarrow> (int64 \<times> product_type) list" where
  "target_scopes = map (\<lambda>t. (rtg_product_id t, rtg_product_type t))"

definition apply_successful_refund_recheck :: "commission_env \<Rightarrow> recheck_args \<Rightarrow> commission_db \<Rightarrow> dist_error + commission_db" where
  "apply_successful_refund_recheck env args db =
     (let now = utc (rka_occurred_at args);
          source = refund_source (event_ref (rka_order_id args) (rka_receipt_key args)) in
      and_then (qualification_refund_targets env (rka_order_id args)) (\<lambda>ts.
        and_then (list_refund_recheck_contexts (rka_order_id args) (target_scopes ts) db) (\<lambda>contexts.
          and_then (recheck_contexts (apply_qualification_refund env (rka_receipt_key args) source now) env ts contexts [] db)
            (\<lambda>db1. case payment_state_within env (rka_order_id args) of
               Inl _ \<Rightarrow> Inl Dist_Unavailable
             | Inr state \<Rightarrow>
                 if \<not> dps_confirmed_paid state then Inl Dist_Unavailable
                 else for_each (\<lambda>v. apply_buyer_refund (scx_commission v) (dps_successful_refund state) (rka_receipt_key args)
                                      source now) (of_order (rka_order_id args) contexts) db1))))"

definition apply_refund_exposure_recheck :: "commission_env \<Rightarrow> recheck_args \<Rightarrow> commission_db \<Rightarrow> dist_error + commission_db" where
  "apply_refund_exposure_recheck env args db =
     (let event = \<lparr>exv_order_id = rka_order_id args, exv_refund_id = rka_refund_id args, exv_state = rka_state args,
                   exv_occurred_at = rka_occurred_at args, exv_receipt_key = rka_receipt_key args\<rparr> in
      and_then (qualification_refund_targets env (rka_order_id args)) (\<lambda>ts.
        and_then (list_refund_recheck_contexts (rka_order_id args) (target_scopes ts) db) (\<lambda>contexts.
          and_then (recheck_contexts (apply_qualification_exposure env event) env ts contexts [] db)
            (for_each (\<lambda>v. apply_buyer_exposure env event (scx_commission v)) (of_order (rka_order_id args) contexts)))))"

definition run_refund_recheck :: "commission_env \<Rightarrow> recheck_args \<Rightarrow> commission_db \<Rightarrow> dist_error + commission_db" where
  "run_refund_recheck env args db =
     (if \<not> valid_recheck_args args then Inl Dist_Unavailable
      else if rka_state args = ''successful'' then apply_successful_refund_recheck env args db
      else if rka_state args = ''opened'' \<or> rka_state args = ''final_failed'' then apply_refund_exposure_recheck env args db
      else Inl Dist_Conflict)"

end
