(* ===== verification/Commission_Admin.thy ===== *)
theory Commission_Admin
  imports Commission_Settlement
begin

text \<open>
  The administrator's commands on distribution facts, \<open>internal/distribution/app/admin.go\<close>, and
  the statements of \<open>store/admin.go\<close> they use: switching a distributor, asking Payment about the
  instruction of an exception, and recording what of an overpaid commission was recovered or
  borne by the merchant. Every command has a receipt under its operation, actor and key.

  The digest of a command is \<open>sha256\<close> of the \<open>%#v\<close> rendering of its payload, a parameter here
  (\<open>digest\<close>): the commands rely on it being a function of the payload only.
\<close>

section \<open>Commands\<close>

datatype admin_value = Val_Int int64 | Val_Text string | Val_Bool bool

type_synonym admin_digest = "string \<Rightarrow> (string \<times> admin_value) list \<Rightarrow> string"

record admin_distributor_command =
  adc_distributor_id :: int64
  adc_expected :: int64
  adc_actor :: string
  adc_reason :: string
  adc_key :: string

record admin_exception_command =
  aec_exception_id :: int64
  aec_expected :: int64
  aec_amount :: int64
  aec_actor :: string
  aec_reason :: string
  aec_evidence :: string
  aec_key :: string

definition valid_admin_text :: "string \<Rightarrow> nat \<Rightarrow> nat \<Rightarrow> bool" where
  "valid_admin_text v lo hi \<longleftrightarrow> v = trim_space v \<and> lo \<le> length v \<and> length v \<le> hi"

definition valid_distributor_command :: "admin_distributor_command \<Rightarrow> bool" where
  "valid_distributor_command c \<longleftrightarrow>
     0 < adc_distributor_id c \<and> 0 < adc_expected c \<and> valid_admin_text (adc_actor c) 1 200
     \<and> valid_admin_text (adc_reason c) 1 500 \<and> valid_admin_text (adc_key c) 16 200"

definition valid_exception_command :: "admin_exception_command \<Rightarrow> bool \<Rightarrow> bool \<Rightarrow> bool" where
  "valid_exception_command c require_amount require_evidence \<longleftrightarrow>
     0 < aec_exception_id c \<and> 0 < aec_expected c \<and> valid_admin_text (aec_actor c) 1 200
     \<and> valid_admin_text (aec_key c) 16 200 \<and> (require_amount \<longrightarrow> 0 < aec_amount c)
     \<and> (require_evidence \<longrightarrow> valid_admin_text (aec_evidence c) 1 500)
     \<and> aec_reason c = trim_space (aec_reason c) \<and> length (aec_reason c) \<le> 500"

section \<open>Receipts\<close>

definition valid_receipt_result :: "string \<Rightarrow> bool" where
  "valid_receipt_result k \<longleftrightarrow> k = ''distributor'' \<or> k = ''credential'' \<or> k = ''exception''"

definition read_receipt :: "string \<Rightarrow> string \<Rightarrow> string \<Rightarrow> commission_db \<Rightarrow> dist_error + operation_receipt option" where
  "read_receipt operation actor key db =
     (if operation = [] \<or> actor = [] \<or> \<not> valid_admin_text key 16 200 then Inl Dist_Invalid
      else case find (\<lambda>r. orc_operation r = operation \<and> orc_actor r = actor \<and> orc_key r = key) (dd_receipts db) of
        None \<Rightarrow> Inr None
      | Some r \<Rightarrow> if orc_result_id r < 1 \<or> \<not> valid_receipt_result (orc_result_kind r) then Inl Dist_Unavailable
                  else Inr (Some r))"

definition append_receipt ::
  "string \<Rightarrow> string \<Rightarrow> string \<Rightarrow> string \<Rightarrow> string \<Rightarrow> int64 \<Rightarrow> time \<Rightarrow> commission_db \<Rightarrow> dist_error + commission_db" where
  "append_receipt operation actor key digest kind i at db =
     (if operation = [] \<or> actor = [] \<or> \<not> valid_admin_text key 16 200 \<or> i < 1 \<or> \<not> valid_receipt_result kind \<or> is_zero at
      then Inl Dist_Invalid
      else if list_ex (\<lambda>r. orc_operation r = operation \<and> orc_actor r = actor \<and> orc_key r = key) (dd_receipts db)
      then Inl Dist_Conflict
      else Inr (db\<lparr>dd_receipts := dd_receipts db @ [\<lparr>orc_operation = operation, orc_actor = actor, orc_key = key,
                     orc_digest = digest, orc_result_kind = kind, orc_result_id = i\<rparr>]\<rparr>))"

text \<open>\<open>True\<close> when the same command was already carried out.\<close>

definition admin_replay :: "string \<Rightarrow> string \<Rightarrow> string \<Rightarrow> string \<Rightarrow> commission_db \<Rightarrow> dist_error + bool" where
  "admin_replay operation actor key digest db =
     and_then (read_receipt operation actor key db) (\<lambda>r.
       case r of None \<Rightarrow> Inr False
       | Some r \<Rightarrow> if orc_digest r \<noteq> digest then Inl Dist_Conflict else Inr True)"

definition once ::
  "string \<Rightarrow> string \<Rightarrow> string \<Rightarrow> string \<Rightarrow> (commission_db \<Rightarrow> dist_error + commission_db) \<Rightarrow> commission_db \<Rightarrow> dist_error + commission_db" where
  "once operation actor key digest f db =
     and_then (admin_replay operation actor key digest db) (\<lambda>replay. if replay then Inr db else f db)"

section \<open>Distributors\<close>

definition set_distributor ::
  "admin_digest \<Rightarrow> commission_env \<Rightarrow> admin_distributor_command \<Rightarrow> bool \<Rightarrow> commission_db \<Rightarrow> dist_error + commission_db" where
  "set_distributor digest env c enabled db =
     (if \<not> valid_distributor_command c then Inl Dist_Conflict
      else
        let operation = (if enabled then ''distributor_enable'' else ''distributor_disable'');
            d = digest operation [(''distributor_id'', Val_Int (adc_distributor_id c)), (''enabled'', Val_Bool enabled),
                  (''expected_version'', Val_Int (adc_expected c)), (''reason'', Val_Text (adc_reason c))];
            event = (if enabled then ''distribution.distributor_enabled.v1'' else ''distribution.distributor_disabled.v1'');
            now = utc (cev_now env) in
        once operation (adc_actor c) (adc_key c) d (\<lambda>db.
          and_then (read_distributor (adc_distributor_id c) db) (\<lambda>(current, _).
            if dst_version current \<noteq> adc_expected c then Inl Dist_Conflict
            else and_then (set_distributor_enabled (dst_id current) (adc_expected c) enabled (cev_now env) db) (\<lambda>(updated, db1).
              and_then (append_receipt operation (adc_actor c) (adc_key c) d ''distributor'' (dst_id updated) now db1) (\<lambda>db2.
                and_then (append_audit event ''distributor'' (dst_id updated) (adc_actor c) now db2)
                  (append_outbox event (''distribution.'' @ operation @ '':'' @ adc_key c) (dst_id updated) now))))) db)"

section \<open>Exceptions as the administrator sees them\<close>

datatype reconcile_target = Target_None | Target_Split | Target_Unfreeze

record admin_exception =
  aex_id :: int64
  aex_commission_id :: int64
  aex_settlement_id :: int64
  aex_kind :: exception_kind
  aex_status :: exception_status
  aex_reason :: string
  aex_evidence :: string
  aex_instruction_ref :: string
  aex_target :: reconcile_target
  aex_unpaid_due :: int64
  aex_already_paid :: int64
  aex_amount :: int64
  aex_version :: int64

definition valid_unfreeze_reference :: "string \<Rightarrow> bool" where
  "valid_unfreeze_reference v \<longleftrightarrow>
     has_prefix v ''psunfreeze_'' \<and> list_all is_digit (drop 11 v) \<and> 11 < length v"

text \<open>\<open>ParseInt\<close> and the comparison with the printed number: digits without a leading zero.\<close>

definition valid_instruction_reference :: "string \<Rightarrow> bool" where
  "valid_instruction_reference v \<longleftrightarrow>
     has_prefix v ''psinst_''
     \<and> (case parse_digits64 (drop 7 v) of None \<Rightarrow> False | Some i \<Rightarrow> 0 < i \<and> v = ''psinst_'' @ format_int i)"

definition admin_reconcile_target :: "exception_kind \<Rightarrow> string \<Rightarrow> string \<Rightarrow> reconcile_target" where
  "admin_reconcile_target kind evidence instruction =
     (if kind = Ex_Unfreeze_Failed \<and> valid_unfreeze_reference evidence then Target_Unfreeze
      else if valid_instruction_reference instruction then Target_Split else Target_None)"

definition admin_exception_of :: "commission_db \<Rightarrow> commission_exception \<Rightarrow> admin_exception" where
  "admin_exception_of db e =
     (let instruction = (case find (\<lambda>s. stl_id s = exn_settlement_id e) (dd_settlements db) of None \<Rightarrow> []
                         | Some s \<Rightarrow> stl_instruction_ref s) in
      \<lparr>aex_id = exn_id e, aex_commission_id = exn_commission_id e, aex_settlement_id = exn_settlement_id e,
       aex_kind = exn_kind e, aex_status = exn_status e, aex_reason = exn_reason e, aex_evidence = exn_evidence e,
       aex_instruction_ref = instruction,
       aex_target = admin_reconcile_target (exn_kind e) (exn_evidence e) instruction,
       aex_unpaid_due = exn_unpaid_due e, aex_already_paid = exn_already_paid e, aex_amount = exn_amount e,
       aex_version = exn_version e\<rparr>)"

definition read_admin_exception :: "int64 \<Rightarrow> commission_db \<Rightarrow> dist_error + admin_exception" where
  "read_admin_exception i db =
     (if i < 1 then Inl Dist_Invalid
      else case find (\<lambda>e. exn_id e = i) (dd_exceptions db) of None \<Rightarrow> Inl Dist_Not_Found
      | Some e \<Rightarrow>
          (let a = admin_exception_of db e in
           if aex_commission_id a < 1 \<or> aex_settlement_id a < 0 \<or> aex_reason a \<noteq> trim_space (aex_reason a) \<or> aex_reason a = []
              \<or> 500 < length (aex_reason a) \<or> aex_evidence a \<noteq> trim_space (aex_evidence a) \<or> 500 < length (aex_evidence a)
              \<or> aex_instruction_ref a \<noteq> trim_space (aex_instruction_ref a) \<or> 200 < length (aex_instruction_ref a)
              \<or> aex_version a < 1 \<or> aex_amount a < 0 \<or> aex_unpaid_due a < 0 \<or> aex_already_paid a < 0
           then Inl Dist_Unavailable else Inr a))"

definition update_admin_exception ::
  "admin_exception \<Rightarrow> int64 \<Rightarrow> time \<Rightarrow> commission_db \<Rightarrow> dist_error + (admin_exception \<times> commission_db)" where
  "update_admin_exception a expected at db =
     (if aex_id a < 1 \<or> expected < 1 \<or> aex_version a \<noteq> next_version expected \<or> aex_reason a \<noteq> trim_space (aex_reason a)
         \<or> aex_reason a = [] \<or> 500 < length (aex_reason a) \<or> aex_evidence a \<noteq> trim_space (aex_evidence a)
         \<or> 500 < length (aex_evidence a) \<or> aex_amount a < 0 \<or> is_zero at then Inl Dist_Invalid
      else case find (\<lambda>e. exn_id e = aex_id a) (dd_exceptions db) of None \<Rightarrow> Inl Dist_Conflict
      | Some old \<Rightarrow>
          if exn_version old \<noteq> expected then Inl Dist_Conflict
          else let new = old\<lparr>exn_status := aex_status a, exn_reason := aex_reason a, exn_evidence := aex_evidence a,
                             exn_amount := aex_amount a, exn_version := aex_version a, exn_updated_at := utc at\<rparr> in
            if \<not> exception_check new then Inl Dist_Conflict
            else Inr (a, db\<lparr>dd_exceptions := map (\<lambda>e. if exn_id e = aex_id a then new else e) (dd_exceptions db)\<rparr>))"

definition lock_commission_then_exception :: "int64 \<Rightarrow> commission_db \<Rightarrow> dist_error + (admin_exception \<times> commission)" where
  "lock_commission_then_exception i db =
     and_then (read_admin_exception i db) (\<lambda>initial.
       and_then (read_commission (aex_commission_id initial) db) (\<lambda>c.
         and_then (read_admin_exception i db) (\<lambda>current.
           if aex_commission_id current \<noteq> com_id c then Inl Dist_Conflict else Inr (current, c))))"

section \<open>Recovery and liability\<close>

definition can_record_exception :: "exception_status \<Rightarrow> bool" where
  "can_record_exception s \<longleftrightarrow> s = Exs_Open \<or> s = Exs_Resolved"

text \<open>What of the paid amount lost its basis and is not yet handled.\<close>

definition after_sales_available :: "admin_exception \<Rightarrow> commission \<Rightarrow> int64 \<Rightarrow> int64" where
  "after_sales_available e c recorded =
     (if recorded < 0 \<or> com_paid_minor c < 1 then 0
      else let total = (if aex_kind e = Ex_Buyer_Refund then wrap64 (com_paid_minor c - com_payable_minor c)
                        else if aex_kind e = Ex_Qualification_Revoked \<and> aex_reason e = ''qualification_revoked_after_paid''
                        then com_paid_minor c else 0)
           in if total \<le> recorded then 0 else wrap64 (total - recorded))"

definition after_sales_actionable :: "admin_exception \<Rightarrow> commission \<Rightarrow> int64 \<Rightarrow> bool" where
  "after_sales_actionable e c recorded \<longleftrightarrow>
     can_record_exception (aex_status e) \<and> com_status c \<noteq> ComCancelled \<and> com_status c \<noteq> ComZero
     \<and> 0 < after_sales_available e c recorded"

text \<open>The operation, the status it leaves, its event and the adjustment it records.\<close>

datatype handling = Recovery | Merchant_Liability

fun handling_operation :: "handling \<Rightarrow> string" where
  "handling_operation Recovery = ''recovery''"
| "handling_operation Merchant_Liability = ''merchant_liability''"

fun handling_status :: "handling \<Rightarrow> exception_status" where
  "handling_status Recovery = Exs_Recovery_Recorded"
| "handling_status Merchant_Liability = Exs_Liability_Recorded"

fun handling_event :: "handling \<Rightarrow> string" where
  "handling_event Recovery = ''distribution.recovery_recorded.v1''"
| "handling_event Merchant_Liability = ''distribution.merchant_liability_recorded.v1''"

fun handling_adjustment :: "handling \<Rightarrow> adjustment_kind" where
  "handling_adjustment Recovery = Adj_Manual_Recovery"
| "handling_adjustment Merchant_Liability = Adj_Merchant_Liability"

definition record_exception_amount ::
  "admin_digest \<Rightarrow> commission_env \<Rightarrow> handling \<Rightarrow> admin_exception_command \<Rightarrow> commission_db \<Rightarrow> dist_error + commission_db" where
  "record_exception_amount digest env h c db =
     (let d = digest (handling_operation h) [(''amount_minor'', Val_Int (aec_amount c)),
                (''evidence_reference'', Val_Text (aec_evidence c)), (''exception_id'', Val_Int (aec_exception_id c)),
                (''expected_version'', Val_Int (aec_expected c)), (''reason'', Val_Text (aec_reason c))];
          now = utc (cev_now env) in
      once (handling_operation h) (aec_actor c) (aec_key c) d (\<lambda>db.
        and_then (lock_commission_then_exception (aec_exception_id c) db) (\<lambda>(current, commission).
          and_then (sum_recorded_handling (com_id commission) db) (\<lambda>handled.
            if aex_version current \<noteq> aec_expected c \<or> \<not> after_sales_actionable current commission handled
               \<or> \<not> can_record_exception (aex_status current) \<or> after_sales_available current commission handled < aec_amount c
            then Inl Dist_Conflict
            else and_then (update_admin_exception (current\<lparr>aex_version := next_version (aex_version current),
                             aex_status := handling_status h\<rparr>) (aec_expected c) now db) (\<lambda>(updated, db1).
              and_then (append_adjustment \<lparr>adj_commission_id = com_id commission, adj_kind = handling_adjustment h,
                          adj_delta = aec_amount c, adj_resulting = com_payable_minor commission, adj_reason = aec_reason c,
                          adj_source = aec_evidence c, adj_at = now\<rparr> db1) (\<lambda>db2.
                and_then (append_receipt (handling_operation h) (aec_actor c) (aec_key c) d ''exception'' (aex_id updated) now db2)
                  (\<lambda>db3. and_then (append_audit (handling_event h) ''exception'' (aex_id updated) (aec_actor c) now db3)
                    (append_outbox (handling_event h) (''distribution.'' @ handling_operation h @ '':'' @ aec_key c)
                       (aex_id updated) now))))))) db)"

definition record_recovery ::
  "admin_digest \<Rightarrow> commission_env \<Rightarrow> admin_exception_command \<Rightarrow> commission_db \<Rightarrow> dist_error + commission_db" where
  "record_recovery digest env c db =
     (if \<not> valid_exception_command c True True \<or> aec_reason c \<noteq> ''manual_recovery'' then Inl Dist_Conflict
      else record_exception_amount digest env Recovery c db)"

definition record_merchant_liability ::
  "admin_digest \<Rightarrow> commission_env \<Rightarrow> admin_exception_command \<Rightarrow> commission_db \<Rightarrow> dist_error + commission_db" where
  "record_merchant_liability digest env c db =
     (if \<not> valid_exception_command c True False then Inl Dist_Conflict
      else record_exception_amount digest env Merchant_Liability c db)"

section \<open>Reconciling an exception\<close>

definition has_outstanding_liability :: "commission \<Rightarrow> bool" where
  "has_outstanding_liability c \<longleftrightarrow>
     com_status c \<noteq> ComCancelled \<and> com_status c \<noteq> ComZero \<and> com_paid_minor c < com_payable_minor c"

definition actionable_exception :: "admin_exception \<Rightarrow> bool" where
  "actionable_exception e \<longleftrightarrow>
     aex_kind e \<in> {Ex_Settlement_Unknown, Ex_Settlement_Not_Paid, Ex_Settlement_Deadline, Ex_Receiver_Unavailable,
                  Ex_Qualification_Revoked, Ex_Buyer_Refund, Ex_Unfreeze_Failed}"

fun valid_reconcile_target :: "reconcile_target \<Rightarrow> admin_exception \<Rightarrow> bool" where
  "valid_reconcile_target Target_Split e = (aex_instruction_ref e \<noteq> [])"
| "valid_reconcile_target Target_Unfreeze e = (aex_kind e = Ex_Unfreeze_Failed \<and> aex_evidence e \<noteq> [])"
| "valid_reconcile_target Target_None e = False"

definition reconcile_actionable :: "admin_exception \<Rightarrow> commission \<Rightarrow> bool" where
  "reconcile_actionable e c \<longleftrightarrow>
     actionable_exception e \<and> valid_reconcile_target (aex_target e) e
     \<and> (aex_target e = Target_Unfreeze \<or> has_outstanding_liability c)"

text \<open>Of Payment's answer the command keeps whether it succeeded; the rest goes into the audit
  payload.\<close>

fun reconcile_payment :: "commission_env \<Rightarrow> reconcile_target \<Rightarrow> admin_exception \<Rightarrow> dist_error + bool" where
  "reconcile_payment env Target_Split e =
     and_then (cev_reconcile env (aex_instruction_ref e)) (\<lambda>i.
       if shi_reference i \<noteq> aex_instruction_ref e then Inl Dist_Conflict else Inr (shi_confirmed_success i))"
| "reconcile_payment env Target_Unfreeze e =
     and_then (cev_reconcile_unfreeze env (aex_evidence e)) (\<lambda>u.
       if ufz_reference u \<noteq> aex_evidence e then Inl Dist_Conflict
       else Inr (ufz_outcome_known u \<and> ufz_state u = ''succeeded''))"
| "reconcile_payment env Target_None e = Inl Dist_Conflict"

text \<open>The last unit of work: \<open>target\<close> and \<open>succeeded\<close> are what was read and observed before.\<close>

definition record_reconciliation ::
  "admin_digest \<Rightarrow> commission_env \<Rightarrow> admin_exception_command \<Rightarrow> reconcile_target \<Rightarrow> bool \<Rightarrow> commission_db \<Rightarrow> dist_error + commission_db" where
  "record_reconciliation digest env c target succeeded db =
     (let d = digest ''exception_reconcile'' [(''exception_id'', Val_Int (aec_exception_id c)),
                (''expected_version'', Val_Int (aec_expected c))];
          now = utc (cev_now env) in
      once ''exception_reconcile'' (aec_actor c) (aec_key c) d (\<lambda>db.
        and_then (lock_commission_then_exception (aec_exception_id c) db) (\<lambda>(current, commission).
          if aex_version current \<noteq> aec_expected c \<or> \<not> reconcile_actionable current commission \<or> aex_target current \<noteq> target
          then Inl Dist_Conflict
          else and_then (update_admin_exception (current\<lparr>aex_version := next_version (aex_version current),
                           aex_status := if succeeded then Exs_Resolved else Exs_Open\<rparr>) (aec_expected c) now db) (\<lambda>(updated, db1).
            and_then (append_receipt ''exception_reconcile'' (aec_actor c) (aec_key c) d ''exception'' (aex_id updated) now db1)
              (\<lambda>db2. and_then (append_audit ''distribution.exception_reconciled.v1'' ''exception'' (aex_id updated)
                                (aec_actor c) now db2)
                (append_outbox ''distribution.exception_reconciled.v1'' (''distribution.exception_reconcile:'' @ aec_key c)
                   (aex_id updated) now))))) db)"

definition reconcile_exception ::
  "admin_digest \<Rightarrow> commission_env \<Rightarrow> admin_exception_command \<Rightarrow> commission_db \<Rightarrow> dist_error + commission_db" where
  "reconcile_exception digest env c db =
     (if \<not> valid_exception_command c False False then Inl Dist_Conflict
      else let d = digest ''exception_reconcile'' [(''exception_id'', Val_Int (aec_exception_id c)),
                     (''expected_version'', Val_Int (aec_expected c))] in
        once ''exception_reconcile'' (aec_actor c) (aec_key c) d (\<lambda>db.
          and_then (read_admin_exception (aec_exception_id c) db) (\<lambda>initial.
            and_then (read_commission (aex_commission_id initial) db) (\<lambda>commission.
              if aex_version initial \<noteq> aec_expected c \<or> \<not> reconcile_actionable initial commission then Inl Dist_Conflict
              else and_then (reconcile_payment env (aex_target initial) initial) (\<lambda>succeeded.
                record_reconciliation digest env c (aex_target initial) succeeded db)))) db)"

end
