(* ===== verification/Data_Refinement.thy ===== *)
theory Data_Refinement
  imports Prelude
begin

text \<open>
  A concrete system whose steps are, seen through a family of views, runs of an abstract one.
  An invariant or a relation proved of the abstract steps then holds of every view along every
  concrete run.
\<close>

locale data_refinement =
  fixes inv :: "'s \<Rightarrow> bool"
    and step :: "'s \<Rightarrow> 's \<Rightarrow> bool"
    and view :: "'i \<Rightarrow> 's \<Rightarrow> 'a"
    and astep :: "'a \<Rightarrow> 'a \<Rightarrow> bool"
  assumes step_inv: "inv s \<Longrightarrow> step s t \<Longrightarrow> inv t"
    and step_view: "inv s \<Longrightarrow> step s t \<Longrightarrow> astep\<^sup>*\<^sup>* (view i s) (view i t)"
begin

lemma run_inv: "step\<^sup>*\<^sup>* s t \<Longrightarrow> inv s \<Longrightarrow> inv t"
  by (induction rule: rtranclp_induct) (auto intro: step_inv)

lemma run_view: "step\<^sup>*\<^sup>* s t \<Longrightarrow> inv s \<Longrightarrow> astep\<^sup>*\<^sup>* (view i s) (view i t)"
proof (induction rule: rtranclp_induct)
  case (step t u)
  then show ?case using step_view [OF run_inv [OF step(1)]] by (meson rtranclp_trans)
qed simp

lemma view_relation:
  assumes "step\<^sup>*\<^sup>* s t" "inv s" "P (view i s)"
    and keeps: "\<And>a b. P a \<Longrightarrow> astep a b \<Longrightarrow> P b \<and> R a b"
    and refl: "\<And>a. R a a" and trans: "\<And>a b c. R a b \<Longrightarrow> R b c \<Longrightarrow> R a c"
  shows "P (view i t) \<and> R (view i s) (view i t)"
  using run_view [OF assms(1,2), of i] assms(3)
proof (induction rule: rtranclp_induct)
  case (step b c)
  then show ?case using keeps trans by blast
qed (simp add: refl)

end

end
