(* ===== verification/Commission_Books.thy ===== *)
theory Commission_Books
  imports Commission_Refund Commission_Admin Data_Refinement
begin

text \<open>
  The books of one commission, the abstract specification of the distribution services: its row,
  the sum of the adjustments of its value, what of it was recovered or borne by the merchant,
  its settlements and the splits Payment accepted for it. \<open>book_step\<close> says how they may change:
  the value only with an adjustment of the same size, a split only with the settlement that
  fixes its amount, a payment only of a settlement's amount, handling only up to what was paid.
  \<open>book_inv\<close> is what follows. The lemmas of the second half are the effects of the statements of
  the store on the books; \<open>moves\<close> is the claim, proved per unit of work in \<open>Commission_System\<close>,
  that it takes the books of every commission through abstract steps.
\<close>

section \<open>The abstract books\<close>

record book =
  bk_row :: "commission option"
  bk_value :: int
  bk_handled :: int
  bk_settlements :: "int64 list"
  bk_requests :: "int64 list"

definition empty_book :: book where
  "empty_book = \<lparr>bk_row = None, bk_value = 0, bk_handled = 0, bk_settlements = [], bk_requests = []\<rparr>"

text \<open>The commands of the domain that neither submit nor pay; a reprice uses the paid amount.\<close>

fun recheck_command :: "commission_command \<Rightarrow> commission \<Rightarrow> bool" where
  "recheck_command (Reprice _ original _ _) c = (original = com_original_paid_minor c)"
| "recheck_command (BeginSettlement _ _) c = False"
| "recheck_command (ConfirmPaid _ _ _) c = False"
| "recheck_command _ c = True"

inductive book_step :: "book \<Rightarrow> book \<Rightarrow> bool" where
  Opened: "b = empty_book \<Longrightarrow> new_commission a paid t = Inr c \<Longrightarrow> paid \<le> max_int64
    \<Longrightarrow> book_step b (b\<lparr>bk_row := Some (c\<lparr>com_id := i\<rparr>)\<rparr>)"
| Changed: "bk_row b = Some c \<Longrightarrow> commission_exec k c = Inr d \<Longrightarrow> recheck_command k c \<Longrightarrow>
    book_step b (b\<lparr>bk_row := Some (written_commission d c),
                   bk_value := bk_value b + (com_payable_minor d - com_payable_minor c)\<rparr>)"
| Submitted: "bk_row b = Some c \<Longrightarrow> begin_settlement c v t = Inr d \<Longrightarrow>
    book_step b (b\<lparr>bk_row := Some (written_commission d c), bk_settlements := bk_settlements b @ [com_payable_minor d],
                   bk_requests := bk_requests b @ [com_payable_minor d]\<rparr>)"
| Paid: "bk_row b = Some c \<Longrightarrow> confirm_receiver_paid c v amount t = Inr d \<Longrightarrow> amount \<in> set (bk_settlements b) \<Longrightarrow>
    book_step b (b\<lparr>bk_row := Some (written_commission d c)\<rparr>)"
| Handled: "bk_row b = Some c \<Longrightarrow> 0 < amount \<Longrightarrow> amount \<le> com_paid_minor c - bk_handled b \<Longrightarrow>
    book_step b (b\<lparr>bk_handled := bk_handled b + amount\<rparr>)"

section \<open>What the abstract steps keep\<close>

definition terms_ok :: "commission \<Rightarrow> bool" where
  "terms_ok c \<longleftrightarrow>
     0 \<le> com_refunded_minor c \<and> com_refunded_minor c \<le> com_original_paid_minor c \<and> com_original_paid_minor c \<le> max_int64
     \<and> 0 \<le> com_rate c \<and> com_rate c \<le> 3000 \<and> com_initial_minor c = com_original_paid_minor c * com_rate c div 10000
     \<and> com_payable_minor c \<le> com_initial_minor c \<and> is_int64 (com_version c)"

definition book_inv :: "book \<Rightarrow> bool" where
  "book_inv b \<longleftrightarrow>
     (case bk_row b of None \<Rightarrow> b = empty_book
      | Some c \<Rightarrow> commission_inv c \<and> terms_ok c
          \<and> com_payable_minor c = com_initial_minor c + bk_value b
          \<and> 0 \<le> bk_handled b \<and> bk_handled b \<le> com_paid_minor c
          \<and> bk_settlements b = bk_requests b \<and> length (bk_requests b) \<le> 1
          \<and> (com_status c \<in> {ComPending, ComHeld, ComZero} \<longrightarrow> bk_requests b = [])
          \<and> (\<forall>a\<in>set (bk_requests b). 1 \<le> a \<and> a \<le> com_initial_minor c)
          \<and> (com_status c = ComSettling \<longrightarrow> bk_requests b = [com_payable_minor c])
          \<and> (0 < com_paid_minor c \<longrightarrow> bk_requests b = [com_paid_minor c]))"

text \<open>What no step takes back.\<close>

definition book_kept :: "book \<Rightarrow> book \<Rightarrow> bool" where
  "book_kept b b' \<longleftrightarrow>
     bk_handled b \<le> bk_handled b' \<and> (\<exists>rs. bk_requests b' = bk_requests b @ rs)
     \<and> (\<forall>c. bk_row b = Some c \<longrightarrow> (\<exists>d. bk_row b' = Some d \<and> commission_kept c d))"

lemma written_commission_fields [simp]:
  "com_id (written_commission d c) = com_id c" "com_status (written_commission d c) = com_status d"
  "com_payable_minor (written_commission d c) = com_payable_minor d" "com_paid_minor (written_commission d c) = com_paid_minor d"
  "com_refunded_minor (written_commission d c) = com_refunded_minor d" "com_version (written_commission d c) = com_version d"
  "com_updated_at (written_commission d c) = com_updated_at d" "com_initial_minor (written_commission d c) = com_initial_minor c"
  "com_rate (written_commission d c) = com_rate c" "com_due_at (written_commission d c) = com_due_at c"
  "com_original_paid_minor (written_commission d c) = com_original_paid_minor c"
  "com_order_id (written_commission d c) = com_order_id c" "com_distributor_id (written_commission d c) = com_distributor_id c"
  "com_attribution_id (written_commission d c) = com_attribution_id c"
  by (simp_all add: written_commission_def)

text \<open>A recheck keeps the amounts, drops the payable one, or computes it from what is left.\<close>

lemma recheck_amounts:
  assumes "recheck_command k c" "commission_exec k c = Inr d" "0 \<le> com_refunded_minor c" "com_refunded_minor c \<le> com_original_paid_minor c"
  shows "0 \<le> com_refunded_minor d \<and> com_refunded_minor d \<le> com_original_paid_minor c
    \<and> (com_payable_minor d = com_payable_minor c \<or> com_payable_minor d = 0
       \<or> calculate_commission (wrap64 (com_original_paid_minor c - com_refunded_minor d)) (com_rate c) = Inr (com_payable_minor d))"
  using assms by (cases k) (auto simp: commission_ops split: if_splits)

lemma commission_exec_terms:
  assumes "commission_inv c" "terms_ok c" "recheck_command k c" "commission_exec k c = Inr d"
  shows "terms_ok (written_commission d c)"
proof -
  note t = assms(2) [unfolded terms_ok_def]
  have "com_version d = next_version (com_version c)" using commission_exec_version [OF assms(4)] by simp
  then have v: "is_int64 (com_version d)" by (simp add: next_version_def)
  from t have a: "0 \<le> com_refunded_minor d" "com_refunded_minor d \<le> com_original_paid_minor c"
    and p: "com_payable_minor d = com_payable_minor c \<or> com_payable_minor d = 0
       \<or> calculate_commission (wrap64 (com_original_paid_minor c - com_refunded_minor d)) (com_rate c) = Inr (com_payable_minor d)"
    using recheck_amounts [OF assms(3,4)] by auto
  have "com_payable_minor d \<le> com_initial_minor c"
    using p
  proof (elim disjE)
    assume "com_payable_minor d = 0"
    moreover have "0 \<le> com_payable_minor c" using assms(1) by (simp add: commission_inv_def)
    ultimately show ?thesis using t by linarith
  next
    assume k: "calculate_commission (wrap64 (com_original_paid_minor c - com_refunded_minor d)) (com_rate c) = Inr (com_payable_minor d)"
    have "wrap64 (com_original_paid_minor c - com_refunded_minor d) = com_original_paid_minor c - com_refunded_minor d"
      using a t by simp
    with calculate_commission_exact(4) [OF k]
    have "com_payable_minor d = (com_original_paid_minor c - com_refunded_minor d) * com_rate c div 10000" by simp
    moreover have "(com_original_paid_minor c - com_refunded_minor d) * com_rate c \<le> com_original_paid_minor c * com_rate c"
      using a t by (intro mult_right_mono) auto
    ultimately show ?thesis using t zdiv_mono1 by auto
  qed (use t in simp)
  with t v a show ?thesis by (simp add: terms_ok_def)
qed

lemma commission_ids [simp]: "com_id (touch at c) = com_id c" "com_id (cancelled r c) = com_id c"
  by (simp_all add: touch_def cancelled_def)

lemma commission_exec_id: "commission_exec k c = Inr d \<Longrightarrow> com_id d = com_id c \<and> com_due_at d = com_due_at c"
  by (cases k) (auto simp: commission_ops split: if_splits)

lemma recheck_paid: "commission_exec k c = Inr d \<Longrightarrow> recheck_command k c \<Longrightarrow> com_paid_minor d = com_paid_minor c"
  by (cases k) (auto simp: commission_ops split: if_splits)

lemma recheck_status: "commission_exec k c = Inr d \<Longrightarrow> recheck_command k c \<Longrightarrow> com_status d \<noteq> ComSettling
    \<and> (com_status d \<in> {ComPending, ComHeld, ComZero} \<longrightarrow> com_status c \<in> {ComPending, ComHeld, ComZero})"
  by (cases k) (auto simp: commission_ops split: if_splits)

lemma commission_inv_written [simp]:
  "com_due_at d = com_due_at c \<Longrightarrow> commission_inv (written_commission d c) = commission_inv d"
  by (cases "com_status d") (simp_all add: commission_inv_def)

lemma book_invI:
  assumes "bk_row b = Some c" "commission_inv c" "terms_ok c"
    "com_payable_minor c = com_initial_minor c + bk_value b"
    "0 \<le> bk_handled b" "bk_handled b \<le> com_paid_minor c" "bk_settlements b = bk_requests b" "length (bk_requests b) \<le> 1"
    "com_status c \<in> {ComPending, ComHeld, ComZero} \<Longrightarrow> bk_requests b = []"
    "\<forall>a\<in>set (bk_requests b). 1 \<le> a \<and> a \<le> com_initial_minor c"
    "com_status c = ComSettling \<Longrightarrow> bk_requests b = [com_payable_minor c]"
    "0 < com_paid_minor c \<Longrightarrow> bk_requests b = [com_paid_minor c]"
  shows "book_inv b"
  using assms by (simp add: book_inv_def)

lemma book_invD:
  assumes "book_inv b" "bk_row b = Some c"
  shows "commission_inv c" "terms_ok c" "com_payable_minor c = com_initial_minor c + bk_value b"
    "0 \<le> bk_handled b" "bk_handled b \<le> com_paid_minor c" "bk_settlements b = bk_requests b" "length (bk_requests b) \<le> 1"
    "com_status c \<in> {ComPending, ComHeld, ComZero} \<Longrightarrow> bk_requests b = []"
    "\<forall>a\<in>set (bk_requests b). 1 \<le> a \<and> a \<le> com_initial_minor c"
    "com_status c = ComSettling \<Longrightarrow> bk_requests b = [com_payable_minor c]"
    "0 < com_paid_minor c \<Longrightarrow> bk_requests b = [com_paid_minor c]"
  using assms by (simp_all add: book_inv_def)

lemma new_commission_terms:
  assumes "new_commission a paid t = Inr c" "paid \<le> max_int64"
  shows "terms_ok c \<and> com_payable_minor c = com_initial_minor c \<and> com_paid_minor c = 0
         \<and> (com_status c = ComZero \<or> com_status c = ComPending)"
proof -
  from assms obtain m where m: "calculate_commission paid (at_rate a) = Inr m"
    and c: "com_initial_minor c = m" "com_payable_minor c = m" "com_original_paid_minor c = paid" "com_refunded_minor c = 0"
      "com_rate c = at_rate a" "com_version c = 1" "com_paid_minor c = 0" "com_status c = (if m = 0 then ComZero else ComPending)"
    by (auto simp: new_commission_def and_then_eq_Inr)
  note e = calculate_commission_exact [OF m]
  show ?thesis
    unfolding terms_ok_def using c e assms(2) by (simp add: is_int64_def)
qed

lemma opened_book:
  assumes "new_commission a paid t = Inr c" "paid \<le> max_int64"
  shows "book_inv (empty_book\<lparr>bk_row := Some (c\<lparr>com_id := i\<rparr>)\<rparr>)"
proof -
  note n = new_commission_inv [OF assms(1)] new_commission_terms [OF assms]
  then have "commission_inv (c\<lparr>com_id := i\<rparr>)" "terms_ok (c\<lparr>com_id := i\<rparr>)"
    by (cases "com_status c"; simp add: commission_inv_def terms_ok_def)+
  then show ?thesis
    by (rule book_invI [rotated]) (use n in \<open>auto simp: empty_book_def\<close>)
qed

lemma changed_book:
  assumes b: "book_inv b" "bk_row b = Some c" and k: "commission_exec k c = Inr d" "recheck_command k c"
  shows "book_inv (b\<lparr>bk_row := Some (written_commission d c), bk_value := bk_value b + (com_payable_minor d - com_payable_minor c)\<rparr>)"
proof -
  note i = book_invD [OF b]
  note r = recheck_paid [OF k] recheck_status [OF k] commission_exec_id [OF k(1)]
  note t = commission_exec_terms [OF i(1,2) k(2,1)] commission_exec_inv [OF i(1) k(1)]
  show ?thesis
    by (rule book_invI [where c = "written_commission d c"]) (use i(3-11) t r in \<open>simp_all\<close>)
qed

lemma submitted_book:
  assumes b: "book_inv b" "bk_row b = Some c" and k: "begin_settlement c v t = Inr d"
  shows "book_inv (b\<lparr>bk_row := Some (written_commission d c), bk_settlements := bk_settlements b @ [com_payable_minor d],
                    bk_requests := bk_requests b @ [com_payable_minor d]\<rparr>)"
proof -
  note i = book_invD [OF b]
  have inv: "commission_inv d" using commission_exec_inv [OF i(1), of "BeginSettlement v t" d] k by simp
  from k have d: "com_status c = ComPending" "1 \<le> com_payable_minor c" "com_status d = ComSettling"
    "com_payable_minor d = com_payable_minor c" "com_paid_minor d = com_paid_minor c" "com_due_at d = com_due_at c"
    "com_refunded_minor d = com_refunded_minor c" "com_version d = next_version (com_version c)"
    by (auto simp: begin_settlement_def)
  from d(1) i(1,8) have c: "com_paid_minor c = 0" "bk_requests b = []" by (auto simp: commission_inv_def)
  show ?thesis
    by (rule book_invI [where c = "written_commission d c"])
      (use i(2-7) inv d c in \<open>simp_all add: terms_ok_def next_version_def\<close>)
qed

lemma paid_book:
  assumes b: "book_inv b" "bk_row b = Some c" "amount \<in> set (bk_settlements b)" and k: "confirm_receiver_paid c v amount t = Inr d"
  shows "book_inv (b\<lparr>bk_row := Some (written_commission d c)\<rparr>)"
proof -
  note i = book_invD [OF b(1,2)]
  have inv: "commission_inv d" using commission_exec_inv [OF i(1), of "ConfirmPaid v amount t" d] k by simp
  from k have d: "com_status c = ComSettling \<or> com_status c = ComException" "com_status d = ComPaid"
    "com_payable_minor d = com_payable_minor c" "com_paid_minor d = amount" "com_due_at d = com_due_at c"
    "com_refunded_minor d = com_refunded_minor c" "com_version d = next_version (com_version c)"
    "com_status c = ComException \<longrightarrow> com_paid_minor c = 0" "1 \<le> amount"
    by (auto simp: confirm_receiver_paid_def)
  from d(1,8) i(1) have p: "com_paid_minor c = 0" by (auto simp: commission_inv_def)
  from b(3) i(6,7) have l: "bk_requests b = [amount]" by (cases "bk_requests b") auto
  show ?thesis
    by (rule book_invI [where c = "written_commission d c"])
      (use i(2-6,9) inv d p l in \<open>simp_all add: terms_ok_def next_version_def\<close>)
qed

lemma book_step_inv: "book_step b b' \<Longrightarrow> book_inv b \<Longrightarrow> book_inv b'"
proof (induction rule: book_step.induct)
  case (Opened b a paid t c i)
  then show ?case using opened_book by simp
next
  case (Handled b c amount)
  then show ?case by (auto simp: book_inv_def)
qed (auto intro: changed_book submitted_book paid_book)

lemma commission_kept_written: "commission_kept c d \<Longrightarrow> commission_kept c (written_commission d c)"
  by (simp add: commission_kept_def)

lemma book_step_kept:
  assumes "book_step b b'" "book_inv b"
  shows "book_inv b' \<and> book_kept b b'"
proof -
  have "book_kept b b'"
    using assms
  proof (induction rule: book_step.induct)
    case (Opened b a paid t c i)
    then show ?case by (simp add: book_kept_def empty_book_def)
  next
    case (Changed b c k d)
    with commission_exec_kept [of c k d] show ?case
      by (auto simp: book_kept_def book_inv_def intro: commission_kept_written)
  next
    case (Submitted b c v t d)
    with commission_exec_kept [of c "BeginSettlement v t" d] show ?case
      by (auto simp: book_kept_def book_inv_def intro: commission_kept_written)
  next
    case (Paid b c v amount t d)
    with commission_exec_kept [of c "ConfirmPaid v amount t" d] show ?case
      by (auto simp: book_kept_def book_inv_def intro: commission_kept_written)
  next
    case (Handled b c amount)
    then show ?case by (auto simp: book_kept_def commission_kept_def)
  qed
  with book_step_inv [OF assms] show ?thesis by blast
qed

lemma commission_kept_refl [simp]: "commission_kept c c"
  by (simp add: commission_kept_def)

lemma commission_kept_trans: "commission_kept c d \<Longrightarrow> commission_kept d e \<Longrightarrow> commission_kept c e"
  unfolding commission_kept_def by fastforce

lemma book_kept_refl: "book_kept b b"
  by (simp add: book_kept_def)

lemma book_kept_trans: "book_kept a b \<Longrightarrow> book_kept b c \<Longrightarrow> book_kept a c"
  unfolding book_kept_def by (fastforce intro: commission_kept_trans)

section \<open>The books in the tables\<close>

definition is_value_adjustment :: "adjustment \<Rightarrow> bool" where
  "is_value_adjustment a \<longleftrightarrow> adj_kind a = Adj_Buyer_Refund \<or> adj_kind a = Adj_Qualification_Revoke"

definition adjustment_sum :: "bool \<Rightarrow> int64 \<Rightarrow> adjustment list \<Rightarrow> int" where
  "adjustment_sum value i as =
     sum_list (map adj_delta (filter (\<lambda>a. adj_commission_id a = i \<and> is_value_adjustment a = value) as))"

definition settlement_amounts :: "commission_db \<Rightarrow> (int64 \<times> int64) list" where
  "settlement_amounts db = map (\<lambda>s. (stl_commission_id s, stl_amount s)) (dd_settlements db)"

definition book :: "int64 \<Rightarrow> commission_db \<Rightarrow> book" where
  "book i db =
     \<lparr>bk_row = commission_row i db, bk_value = adjustment_sum True i (dd_adjustments db),
      bk_handled = adjustment_sum False i (dd_adjustments db),
      bk_settlements = map snd (filter (\<lambda>p. fst p = i) (settlement_amounts db)),
      bk_requests = map shr_amount (filter (\<lambda>r. shr_settlement_ref r = settlement_reference i) (dd_requests db))\<rparr>"

lemma bk_row_book [simp]: "bk_row (book i db) = commission_row i db"
  by (simp add: book_def)

definition books_ok :: "commission_db \<Rightarrow> bool" where
  "books_ok db \<longleftrightarrow>
     1 \<le> dd_next_commission db \<and> distinct (map com_id (dd_commissions db))
     \<and> (\<forall>j\<ge>dd_next_commission db. book j db = empty_book) \<and> (\<forall>j. book_inv (book j db))"

definition same_commission_ids :: "commission_db \<Rightarrow> commission_db \<Rightarrow> bool" where
  "same_commission_ids db db' \<longleftrightarrow> dd_next_commission db' = dd_next_commission db \<and> map com_id (dd_commissions db') = map com_id (dd_commissions db)"

definition moves :: "commission_db \<Rightarrow> commission_db \<Rightarrow> bool" where
  "moves db db' \<longleftrightarrow> (books_ok db \<longrightarrow> books_ok db' \<and> (\<forall>j. book_step\<^sup>*\<^sup>* (book j db) (book j db')))"

lemma moves_refl [simp]: "moves db db"
  by (simp add: moves_def)

lemma moves_trans: "moves db db1 \<Longrightarrow> moves db1 db2 \<Longrightarrow> moves db db2"
  unfolding moves_def by (meson rtranclp_trans)

text \<open>At most one step of a commission that exists, and nothing for the others.\<close>

lemma moves_step:
  assumes "same_commission_ids db db'"
    and "books_ok db \<Longrightarrow> \<forall>j. book j db' = book j db \<or> bk_row (book j db) \<noteq> None \<and> book_step (book j db) (book j db')"
  shows "moves db db'"
  unfolding moves_def
proof (intro impI conjI allI)
  assume ok: "books_ok db"
  note s = assms(2) [OF ok, THEN spec]
  have empty: "bk_row empty_book = None" by (simp add: empty_book_def)
  have e: "book j db' = empty_book" if "dd_next_commission db \<le> j" for j
  proof -
    from that ok have "book j db = empty_book" by (auto simp: books_ok_def)
    with s [of j] empty show ?thesis by auto
  qed
  have i: "book_inv (book j db')" for j
  proof -
    have "book_inv (book j db)" using ok by (simp add: books_ok_def)
    with s [of j] book_step_inv show ?thesis by auto
  qed
  from ok e i assms(1) show "books_ok db'" by (simp add: books_ok_def same_commission_ids_def)
  show "book_step\<^sup>*\<^sup>* (book j db) (book j db')" for j
    using s [of j] by auto
qed

section \<open>Statements that leave the books alone\<close>

definition same_books :: "commission_db \<Rightarrow> commission_db \<Rightarrow> bool" where
  "same_books db db' \<longleftrightarrow>
     dd_commissions db' = dd_commissions db \<and> dd_next_commission db' = dd_next_commission db
     \<and> dd_adjustments db' = dd_adjustments db \<and> settlement_amounts db' = settlement_amounts db
     \<and> dd_requests db' = dd_requests db"

named_theorems book_frame \<open>statements that leave the books alone\<close>

lemma same_books_refl [simp]: "same_books db db"
  by (simp add: same_books_def)

lemma same_books_trans: "same_books db db1 \<Longrightarrow> same_books db1 db2 \<Longrightarrow> same_books db db2"
  by (simp add: same_books_def)

lemma same_books_book: "same_books db db' \<Longrightarrow> book j db' = book j db"
  by (simp add: same_books_def book_def commission_row_def)

lemma same_books_row: "same_books db db' \<Longrightarrow> commission_row j db' = commission_row j db"
  by (simp add: same_books_def commission_row_def)

lemma same_books_moves: "same_books db db' \<Longrightarrow> moves db db'"
proof (rule moves_step)
  assume s: "same_books db db'"
  then show "same_commission_ids db db'" by (simp add: same_books_def same_commission_ids_def)
  show "\<forall>j. book j db' = book j db \<or> bk_row (book j db) \<noteq> None \<and> book_step (book j db) (book j db')"
    using same_books_book [OF s] by simp
qed

lemma append_audit_frame [book_frame]: "append_audit e a i who at db = Inr db' \<Longrightarrow> same_books db db'"
  by (auto simp: append_audit_def same_books_def settlement_amounts_def split: if_splits)

lemma append_outbox_frame [book_frame]: "append_outbox e k i at db = Inr db' \<Longrightarrow> same_books db db'"
  by (auto simp: append_outbox_def same_books_def settlement_amounts_def split: if_splits)

lemma audit_within_frame [book_frame]: "audit_within e a i who at db = Inr db' \<Longrightarrow> same_books db db'"
  by (auto simp: audit_within_def and_then_eq_Inr intro: same_books_trans dest!: book_frame)

lemma refund_record_within_frame [book_frame]: "refund_record_within e i r at db = Inr db' \<Longrightarrow> same_books db db'"
  by (auto simp: refund_record_within_def and_then_eq_Inr intro: same_books_trans dest!: book_frame)

lemma insert_exception_frame [book_frame]: "insert_exception e db = Inr (x, db') \<Longrightarrow> same_books db db'"
  by (auto simp: insert_exception_def and_then_eq_Inr Let_def same_books_def settlement_amounts_def split: if_splits)

lemma resolve_exceptions_frame [book_frame]: "resolve_exceptions P at db = Inr (x, db') \<Longrightarrow> same_books db db'"
  by (auto simp: resolve_exceptions_def Let_def same_books_def settlement_amounts_def split: if_splits)

lemma enqueue_due_frame [book_frame]: "enqueue_commission_due i at db = Inr db' \<Longrightarrow> same_books db db'"
  by (auto simp: enqueue_commission_due_def same_books_def settlement_amounts_def split: if_splits)

lemma enqueue_recheck_frame [book_frame]: "enqueue_refund_recheck a db = Inr db' \<Longrightarrow> same_books db db'"
  by (auto simp: enqueue_refund_recheck_def same_books_def settlement_amounts_def split: if_splits)

lemma unfreeze_frame [book_frame]: "unfreeze_remaining env r db = Inr (x, db') \<Longrightarrow> same_books db db'"
  by (auto simp: unfreeze_remaining_def and_then_eq_Inr same_books_def settlement_amounts_def)

lemma append_receipt_frame [book_frame]: "append_receipt a b c d e i at db = Inr db' \<Longrightarrow> same_books db db'"
  by (auto simp: append_receipt_def same_books_def settlement_amounts_def split: if_splits)

lemma update_admin_exception_frame [book_frame]: "update_admin_exception a v at db = Inr (x, db') \<Longrightarrow> same_books db db'"
  by (auto simp: update_admin_exception_def Let_def same_books_def settlement_amounts_def split: if_splits option.splits)

lemma set_distributor_enabled_frame [book_frame]: "set_distributor_enabled i v e at db = Inr (x, db') \<Longrightarrow> same_books db db'"
  by (auto simp: set_distributor_enabled_def Let_def same_books_def settlement_amounts_def split: if_splits option.splits)

lemma resolve_deadline_warning_frame [book_frame]: "resolve_deadline_warning o' n db = Inr db' \<Longrightarrow> same_books db db'"
  by (auto simp: resolve_deadline_warning_def and_then_eq_Inr split: if_splits dest: book_frame)

lemma resolve_business_frame [book_frame]: "resolve_open_business_exceptions i at db = Inr (x, db') \<Longrightarrow> same_books db db'"
  by (auto simp: resolve_open_business_exceptions_def and_then_eq_Inr dest: book_frame)

lemma for_each_frame:
  "(\<And>x db db'. f x db = Inr db' \<Longrightarrow> same_books db db') \<Longrightarrow> for_each f xs db = Inr db' \<Longrightarrow> same_books db db'"
proof (induction xs arbitrary: db)
  case (Cons x xs)
  then obtain db1 where "f x db = Inr db1" "for_each f xs db1 = Inr db'" by (auto simp: and_then_eq_Inr)
  with Cons show ?case using same_books_trans by blast
qed simp

section \<open>Statements that change the books\<close>

definition put_row :: "int64 \<Rightarrow> commission \<Rightarrow> commission_db \<Rightarrow> commission_db \<Rightarrow> bool" where
  "put_row i r db db' \<longleftrightarrow>
     (\<forall>j. commission_row j db' = (if j = i then Some r else commission_row j db))
     \<and> same_commission_ids db db' \<and> dd_adjustments db' = dd_adjustments db
     \<and> settlement_amounts db' = settlement_amounts db \<and> dd_requests db' = dd_requests db"

lemma put_row_book: "put_row i r db db' \<Longrightarrow> book j db' = (if j = i then (book j db)\<lparr>bk_row := Some r\<rparr> else book j db)"
  by (simp add: put_row_def book_def)

lemma find_row_replaced:
  "com_id new = i \<Longrightarrow> find (\<lambda>c. com_id c = i) cs = Some old
   \<Longrightarrow> find (\<lambda>c. com_id c = j) (map (\<lambda>e. if com_id e = i then new else e) cs) = (if j = i then Some new else find (\<lambda>c. com_id c = j) cs)"
proof (induction cs)
  case (Cons c cs)
  have "find (\<lambda>c. com_id c = j) (map (\<lambda>e. if com_id e = i then new else e) cs) = find (\<lambda>c. com_id c = j) cs" if "j \<noteq> i" for cs
    using that Cons.prems(1) by (induction cs) auto
  with Cons show ?case by (auto split: if_splits)
qed simp

lemma commission_row_id: "commission_row i db = Some c \<Longrightarrow> com_id c = i"
  by (auto simp: commission_row_def dest: find_Some_pred)

lemma update_commission_row:
  assumes "update_commission d v db = Inr (r, db')"
  shows "\<exists>old. commission_row (com_id d) db = Some old \<and> com_version old = v \<and> com_version d = next_version v
           \<and> r = written_commission d old \<and> put_row (com_id d) r db db'"
proof -
  from assms obtain old db1 where o: "commission_row (com_id d) db = Some old" "com_version old = v" "com_version d = next_version v"
    and w: "resolve_deadline_warning old (written_commission d old) db = Inr db1" "r = written_commission d old"
      "db' = db1\<lparr>dd_commissions := map (\<lambda>e. if com_id e = com_id d then r else e) (dd_commissions db1)\<rparr>"
    by (auto simp: update_commission_def Let_def and_then_eq_Inr scan_commission_def split: option.splits)
  have s: "same_books db db1" by (rule resolve_deadline_warning_frame [OF w(1)])
  have i: "com_id r = com_id d" using commission_row_id [OF o(1)] w(2) by simp
  have "commission_row j db' = (if j = com_id d then Some r else commission_row j db)" for j
    using find_row_replaced [OF i, of "dd_commissions db" old j] o(1) s w(3) by (simp add: commission_row_def same_books_def)
  moreover have "map com_id (map (\<lambda>e. if com_id e = com_id d then r else e) cs) = map com_id cs" for cs
    using i by (induction cs) auto
  ultimately have "put_row (com_id d) r db db'"
    using s w(3) by (simp add: put_row_def same_books_def same_commission_ids_def settlement_amounts_def)
  with o w(2) show ?thesis by blast
qed

definition add_adjustment :: "int64 \<Rightarrow> bool \<Rightarrow> int \<Rightarrow> commission_db \<Rightarrow> commission_db \<Rightarrow> bool" where
  "add_adjustment i value delta db db' \<longleftrightarrow>
     (\<forall>j. book j db' = (if j = i then if value then (book j db)\<lparr>bk_value := bk_value (book j db) + delta\<rparr>
                                  else (book j db)\<lparr>bk_handled := bk_handled (book j db) + delta\<rparr> else book j db))
     \<and> same_commission_ids db db' \<and> (\<forall>j. commission_row j db' = commission_row j db)"

lemma append_adjustment_effect:
  assumes "append_adjustment a db = Inr db'"
  shows "add_adjustment (adj_commission_id a) (is_value_adjustment a) (adj_delta a) db db'"
  using assms
  by (auto simp: append_adjustment_def add_adjustment_def book_def adjustment_sum_def commission_row_def settlement_amounts_def same_commission_ids_def
      split: if_splits)

text \<open>The differences the services compute do not overflow.\<close>

lemma terms_payable:
  assumes "terms_ok c" "commission_inv c"
  shows "0 \<le> com_payable_minor c" "com_payable_minor c \<le> max_int64"
proof -
  have "com_original_paid_minor c * com_rate c \<le> com_original_paid_minor c * 10000"
    using assms(1) by (intro mult_left_mono) (auto simp: terms_ok_def)
  then have "com_original_paid_minor c * com_rate c div 10000 \<le> com_original_paid_minor c" by simp
  then show "com_payable_minor c \<le> max_int64" using assms(1) by (simp add: terms_ok_def)
  show "0 \<le> com_payable_minor c" using assms(2) by (simp add: commission_inv_def)
qed

lemma payable_difference:
  assumes ok: "books_ok db" and row: "commission_row i db = Some c"
    and k: "commission_exec k c = Inr d" "recheck_command k c"
  shows "wrap64 (com_payable_minor d - com_payable_minor c) = com_payable_minor d - com_payable_minor c"
proof -
  have "book_inv (book i db)" "bk_row (book i db) = Some c" using ok row by (auto simp: books_ok_def)
  note i = book_invD [OF this]
  note t = commission_exec_terms [OF i(1,2) k(2,1)] commission_exec_inv [OF i(1) k(1)]
  have "commission_inv (written_commission d c)" using t(2) commission_exec_id [OF k(1)] by simp
  from terms_payable [OF t(1) this] terms_payable [OF i(2,1)] show ?thesis by simp
qed

lemma moves_changed:
  assumes row: "commission_row i db = Some c" and k: "commission_exec k c = Inr d" "recheck_command k c"
    and nxt: "same_commission_ids db db'"
    and book: "\<And>j. book j db' = (if j = i then (book j db)\<lparr>bk_row := Some (written_commission d c),
        bk_value := bk_value (book j db) + wrap64 (com_payable_minor d - com_payable_minor c)\<rparr> else book j db)"
  shows "moves db db'"
proof (rule moves_step [OF nxt])
  assume ok: "books_ok db"
  have r: "bk_row (book i db) = Some c" using row by simp
  have "book_step (book i db) (book i db')"
    using book_step.Changed [OF r k] payable_difference [OF ok row k] book [of i] by simp
  with r book show "\<forall>j. book j db' = book j db \<or> bk_row (book j db) \<noteq> None \<and> book_step (book j db) (book j db')" by auto
qed

lemma update_commission_known:
  assumes "update_commission d v db = Inr (r, db')" "commission_row i db = Some c" "com_id d = i"
  shows "r = written_commission d c" "put_row i r db db'" "com_version c = v" "com_version d = next_version v"
  using update_commission_row [OF assms(1)] assms(2,3) by auto

text \<open>An update whose amount is unchanged.\<close>

lemma moves_update:
  assumes row: "commission_row i db = Some c" and k: "commission_exec k c = Inr d" "recheck_command k c"
    and u: "update_commission d v db = Inr (r, db')" and same: "com_payable_minor d = com_payable_minor c"
  shows "moves db db'" "commission_row i db' = Some r" "r = written_commission d c"
proof -
  have "com_id d = i" using commission_exec_id [OF k(1)] commission_row_id [OF row] by simp
  note u' = update_commission_known [OF u row this]
  show "r = written_commission d c" by (rule u'(1))
  show "commission_row i db' = Some r" using u'(2) by (simp add: put_row_def)
  have "same_commission_ids db db'" using u'(2) by (simp add: put_row_def)
  then show "moves db db'"
    by (rule moves_changed [OF row k]) (simp add: put_row_book [OF u'(2)] u'(1) same wrap64_def)
qed

text \<open>An adjustment and the update it belongs to, in either order.\<close>

lemma moves_adjusted:
  assumes row: "commission_row i db = Some c" and k: "commission_exec k c = Inr d" "recheck_command k c"
    and a: "append_adjustment a db = Inr db1" "adj_commission_id a = i" "is_value_adjustment a"
      "adj_delta a = wrap64 (com_payable_minor d - com_payable_minor c)"
    and u: "update_commission d v db1 = Inr (r, db')"
  shows "moves db db'" "commission_row i db' = Some r" "r = written_commission d c"
proof -
  note e = append_adjustment_effect [OF a(1), unfolded a(2,4)]
  have id: "com_id d = i" using commission_exec_id [OF k(1)] commission_row_id [OF row] by simp
  have row1: "commission_row i db1 = Some c" using e row by (simp add: add_adjustment_def)
  note u' = update_commission_known [OF u row1 id]
  show "r = written_commission d c" by (rule u'(1))
  show "commission_row i db' = Some r" using u'(2) by (simp add: put_row_def)
  have "same_commission_ids db db'" using u'(2) e by (simp add: put_row_def add_adjustment_def same_commission_ids_def)
  then show "moves db db'"
    using e a(3) by (intro moves_changed [OF row k]) (simp_all add: put_row_book [OF u'(2)] u'(1) add_adjustment_def)
qed

lemma moves_adjusted_after:
  assumes row: "commission_row i db = Some c" and k: "commission_exec k c = Inr d" "recheck_command k c"
    and u: "update_commission d v db = Inr (r, db1)" and s: "same_books db1 db2"
    and a: "append_adjustment a db2 = Inr db'" "adj_commission_id a = i" "is_value_adjustment a"
      "adj_delta a = wrap64 (com_payable_minor d - com_payable_minor c)"
  shows "moves db db'"
proof -
  note e = append_adjustment_effect [OF a(1), unfolded a(2,4)]
  have id: "com_id d = i" using commission_exec_id [OF k(1)] commission_row_id [OF row] by simp
  note u' = update_commission_known [OF u row id]
  have "same_commission_ids db db'"
    using u'(2) e s by (simp add: put_row_def add_adjustment_def same_books_def same_commission_ids_def)
  then show ?thesis
    using e a(3) same_books_book [OF s]
    by (intro moves_changed [OF row k]) (simp_all add: put_row_book [OF u'(2)] u'(1) add_adjustment_def)
qed

end
