(* ===== verification/Commission_System.thy ===== *)
theory Commission_System
  imports Commission_Books
begin

text \<open>
  Every unit of work of the distribution services takes the books through abstract steps.
\<close>

section \<open>Reading\<close>

lemma moves_frame: "moves db db1 \<Longrightarrow> same_books db1 db2 \<Longrightarrow> moves db db2"
  using moves_trans same_books_moves by blast

lemma frame_moves: "same_books db db1 \<Longrightarrow> moves db1 db2 \<Longrightarrow> moves db db2"
  using moves_trans same_books_moves by blast

lemma find_Some_mem: "find P xs = Some x \<Longrightarrow> x \<in> set xs \<and> P x"
  by (induction xs) (auto split: if_splits)

lemma joined_commission: "joined db c = Some x \<Longrightarrow> scx_commission x = c"
  by (auto simp: joined_def split: option.splits)

lemma read_settlement_context_row:
  assumes "read_settlement_context i db = Inr x"
  shows "commission_row i db = Some (scx_commission x)" "com_id (scx_commission x) = i"
proof -
  from assms obtain c where c: "commission_row i db = Some c" "joined db c = Some x"
    by (auto simp: read_settlement_context_def scan_settlement_context_def split: option.splits)
  with joined_commission show "commission_row i db = Some (scx_commission x)" by blast
  then show "com_id (scx_commission x) = i" by (rule commission_row_id)
qed

lemma read_latest_settlement_amount:
  assumes "read_latest_settlement i db = Inr s"
  shows "stl_amount s \<in> set (bk_settlements (book i db))"
proof -
  from assms have "find (\<lambda>s. stl_commission_id s = i) (rev (dd_settlements db)) = Some s"
    by (auto simp: read_latest_settlement_def scan_settlement_def split: option.splits)
  then have "s \<in> set (dd_settlements db)" "stl_commission_id s = i" using find_Some_mem by fastforce+
  then have "(i, stl_amount s) \<in> set (settlement_amounts db)" by (force simp: settlement_amounts_def)
  then show ?thesis by (force simp: book_def)
qed

section \<open>Holds, exceptions and warnings\<close>

lemma hold_within_moves:
  assumes "commission_row i db = Some c" "hold_within c reason now db = Inr db'"
  shows "moves db db'"
proof (cases "com_status c = ComHeld")
  case False
  with assms obtain d r db1 where d: "hold c (com_version c) reason now = Inr d"
    and u: "update_commission d (com_version c) db = Inr (r, db1)" and f: "audit_within ''distribution.commission_held.v1'' ''commission'' (com_id c) worker_actor now db1 = Inr db'"
    by (auto simp: hold_within_def and_then_eq_Inr)
  have "moves db db1"
    by (rule moves_update(1) [OF assms(1) _ _ u, of "Hold (com_version c) reason now"]) (use d in \<open>auto simp: hold_def\<close>)
  then show ?thesis using audit_within_frame [OF f] by (rule moves_frame)
qed (use assms in \<open>simp add: hold_within_def\<close>)

lemma ensure_exception_moves:
  assumes "commission_row i db = Some c" "ensure_exception c reason now db = Inr (n, db')"
  shows "moves db db'"
proof (cases "com_status c = ComException")
  case False
  with assms obtain r where d: "mark_exception c (com_version c) reason now = Inr n"
    and u: "update_commission n (com_version c) db = Inr (r, db')"
    by (auto simp: ensure_exception_def and_then_eq_Inr)
  show ?thesis
    by (rule moves_update(1) [OF assms(1) _ _ u, of "MarkException (com_version c) reason now"])
      (use d in \<open>auto simp: mark_exception_def\<close>)
qed (use assms in \<open>simp add: ensure_exception_def\<close>)

lemma open_and_audit_frame:
  assumes "and_then (insert_exception e db) (\<lambda>(x, db1). audit_within ev ag (exn_id x) who at db1) = Inr db'"
  shows "same_books db db'"
proof -
  from assms obtain x db1 where "insert_exception e db = Inr (x, db1)" "audit_within ev ag (exn_id x) who at db1 = Inr db'"
    by (auto simp: and_then_eq_Inr)
  from insert_exception_frame [OF this(1)] audit_within_frame [OF this(2)] show ?thesis by (rule same_books_trans)
qed

lemma mark_exception_within_moves:
  assumes "commission_row i db = Some c" "mark_exception_within c stl kind reason evidence now db = Inr db'"
  shows "moves db db'"
proof -
  from assms(2) obtain n db1 where e: "ensure_exception c reason now db = Inr (n, db1)"
    and f: "(case find_exception_by_evidence (com_id c) kind evidence db1 of Inr _ \<Rightarrow> Inr db1
       | Inl e \<Rightarrow> if e \<noteq> Dist_Not_Found then Inl e
           else (case find_open_exception (com_id c) kind db1 of
             Inr _ \<Rightarrow> Inr db1
           | Inl e \<Rightarrow> if e \<noteq> Dist_Not_Found then Inl e
               else let unpaid = max (wrap64 (com_payable_minor n - com_paid_minor n)) 0 in
                 and_then (insert_exception (open_exception (com_id c) (settlement_id stl) kind unpaid (com_paid_minor n)
                             unpaid reason evidence worker_actor now) db1) (\<lambda>(x, db2).
                   audit_within ''distribution.exception_opened.v1'' ''exception'' (exn_id x) worker_actor now db2))) = Inr db'"
    by (auto simp: mark_exception_within_def and_then_eq_Inr)
  from f have f: "same_books db1 db'"
    by (auto simp: Let_def split: sum.splits if_splits intro: open_and_audit_frame)
  show ?thesis by (rule moves_frame [OF ensure_exception_moves [OF assms(1) e] f])
qed

lemma record_deadline_warning_within_frame:
  "record_deadline_warning_within c stl deadline evidence now db = Inr db' \<Longrightarrow> same_books db db'"
  unfolding record_deadline_warning_within_def
  by (auto split: sum.splits if_splits intro: open_and_audit_frame)

section \<open>The due check\<close>

lemma reprice_within_moves:
  assumes row: "commission_row i db = Some c" and r: "reprice_within c v state now db = Inr (c', db')"
  shows "moves db db'" "commission_row i db' = Some c'"
proof -
  from r obtain d where d: "reprice c (com_version c) (com_original_paid_minor c) (dps_successful_refund state) now = Inr d"
    and u: "and_then (if com_payable_minor d \<noteq> com_payable_minor c
                 then append_adjustment \<lparr>adj_commission_id = com_id c, adj_kind = Adj_Buyer_Refund,
                        adj_delta = wrap64 (com_payable_minor d - com_payable_minor c),
                        adj_resulting = com_payable_minor d, adj_reason = ''buyer_refund'',
                        adj_source = dps_payment_ref state, adj_at = now\<rparr> db
                 else Inr db) (update_commission d v) = Inr (c', db')"
    by (auto simp: reprice_within_def and_then_eq_Inr)
  have k: "commission_exec (Reprice (com_version c) (com_original_paid_minor c) (dps_successful_refund state) now) c = Inr d"
    "recheck_command (Reprice (com_version c) (com_original_paid_minor c) (dps_successful_refund state) now) c"
    using d by simp_all
  have id: "com_id c = i" by (rule commission_row_id [OF row])
  show "moves db db'" "commission_row i db' = Some c'"
  proof -
    have "moves db db' \<and> commission_row i db' = Some c'"
    proof (cases "com_payable_minor d = com_payable_minor c")
      case True
      with u have "update_commission d v db = Inr (c', db')" by simp
      from moves_update [OF row k this True] show ?thesis by simp
    next
      case False
      with u obtain db1 where a: "append_adjustment \<lparr>adj_commission_id = com_id c, adj_kind = Adj_Buyer_Refund,
                        adj_delta = wrap64 (com_payable_minor d - com_payable_minor c),
                        adj_resulting = com_payable_minor d, adj_reason = ''buyer_refund'',
                        adj_source = dps_payment_ref state, adj_at = now\<rparr> db = Inr db1"
        and u1: "update_commission d v db1 = Inr (c', db')" by (auto simp: and_then_eq_Inr)
      from moves_adjusted [OF row k a _ _ _ u1] id show ?thesis by (simp add: is_value_adjustment_def)
    qed
    then show "moves db db'" "commission_row i db' = Some c'" by simp_all
  qed
qed

lemma revoke_within_moves:
  assumes row: "commission_row i db = Some c" and r: "revoke_within value c now db = Inr db'"
  shows "moves db db'"
proof -
  from r obtain d db1 db2 x where d: "cancel_unsettled c (com_version c) ''qualification_revoked'' now = Inr d"
    and a: "append_adjustment \<lparr>adj_commission_id = com_id c, adj_kind = Adj_Qualification_Revoke,
                   adj_delta = wrap64 (com_payable_minor d - com_payable_minor c), adj_resulting = com_payable_minor d,
                   adj_reason = ''qualification_revoked'', adj_source = at_evidence_ref (scx_attribution value), adj_at = now\<rparr> db = Inr db1"
    and u: "update_commission d (com_version c) db1 = Inr (x, db2)"
    and f: "audit_within ''distribution.commission_cancelled.v1'' ''commission'' (com_id c) worker_actor now db2 = Inr db'"
    by (auto simp: revoke_within_def and_then_eq_Inr)
  have "moves db db2"
    by (rule moves_adjusted(1) [OF row _ _ a _ _ _ u, of "CancelUnsettled (com_version c) ''qualification_revoked'' now"])
      (use d commission_row_id [OF row] in \<open>simp_all add: is_value_adjustment_def\<close>)
  then show ?thesis using audit_within_frame [OF f] by (rule moves_frame)
qed

lemma resume_if_held_moves:
  assumes row: "commission_row i db = Some c" and r: "resume_if_held c now db = Inr (c', db')"
  shows "moves db db'" "commission_row i db' = Some c'"
proof -
  have "moves db db' \<and> commission_row i db' = Some c'"
  proof (cases "com_status c = ComHeld")
    case True
    with r obtain d where d: "resume c (com_version c) now = Inr d"
      and u: "update_commission d (wrap64 (com_version d - 1)) db = Inr (c', db')"
      by (auto simp: resume_if_held_def and_then_eq_Inr)
    have "commission_exec (Resume (com_version c) now) c = Inr d" "recheck_command (Resume (com_version c) now) c"
      "com_payable_minor d = com_payable_minor c"
      using d by (auto simp: resume_def)
    from moves_update [OF row this(1,2) u this(3)] show ?thesis by simp
  qed (use row r in \<open>simp add: resume_if_held_def\<close>)
  then show "moves db db'" "commission_row i db' = Some c'" by simp_all
qed

lemma update_settlement_row_frame:
  assumes "update_settlement_row f i v db = Inr (x, db')" "\<And>s. stl_commission_id (f s) = stl_commission_id s \<and> stl_amount (f s) = stl_amount s"
  shows "same_books db db'"
proof -
  from assms(1) have "db' = db\<lparr>dd_settlements := map (\<lambda>e. if stl_id e = i then f e else e) (dd_settlements db)\<rparr>"
    by (auto simp: update_settlement_row_def Let_def and_then_eq_Inr split: option.splits)
  with assms(2) show ?thesis by (simp add: same_books_def settlement_amounts_def)
qed

lemma accept_settlement_frame [book_frame]: "accept_settlement s v db = Inr (x, db') \<Longrightarrow> same_books db db'"
  by (auto simp: accept_settlement_def intro: update_settlement_row_frame)

lemma update_settlement_state_frame [book_frame]: "update_settlement_state s v db = Inr (x, db') \<Longrightarrow> same_books db db'"
  by (auto simp: update_settlement_state_def intro: update_settlement_row_frame)

lemma put_settlement_state_frame [book_frame]: "put_settlement_state s st x now db = Inr db' \<Longrightarrow> same_books db db'"
  by (auto simp: put_settlement_state_def and_then_eq_Inr dest: book_frame)

lemma settlement_reference_inj: "1 \<le> i \<Longrightarrow> settlement_reference i = settlement_reference j \<Longrightarrow> 1 \<le> j \<Longrightarrow> i = j"
  by (simp add: settlement_reference_def format_int_inj)

lemma format_int_inject: "format_int i = format_int j \<longleftrightarrow> i = j"
proof
  have d: "hd (show_nat n) \<noteq> CHR ''-''" for n
  proof -
    have "is_digit (hd (show_nat n))" using show_nat_digits [of n] by (cases "show_nat n") auto
    then show ?thesis by (auto simp: is_digit_def byte_def)
  qed
  assume e: "format_int i = format_int j"
  then have "(i < 0) = (j < 0)"
    using d [of "nat i"] d [of "nat j"] by (cases "i < 0"; cases "j < 0"; simp add: format_int_def; metis list.sel(1))
  with e show "i = j" by (auto simp: format_int_def show_nat_inj split: if_splits)
qed simp

lemma settlement_reference_inject [simp]: "settlement_reference i = settlement_reference j \<longleftrightarrow> i = j"
  by (simp add: settlement_reference_def format_int_inject)

lemma insert_settlement_effect:
  assumes "insert_settlement s db = Inr ((p, created), db')"
    and none: "(stl_commission_id s, stl_amount s) \<notin> set (settlement_amounts db)"
  shows "settlement_amounts db' = settlement_amounts db @ [(stl_commission_id s, stl_amount s)]
    \<and> dd_commissions db' = dd_commissions db \<and> dd_next_commission db' = dd_next_commission db
    \<and> dd_adjustments db' = dd_adjustments db \<and> dd_requests db' = dd_requests db"
proof (cases "list_ex (\<lambda>e. stl_reference e = stl_reference s) (dd_settlements db)")
  case True
  from assms(1) True obtain e where e: "read_settlement_by_reference (stl_reference s) db = Inr e"
    "stl_commission_id e = stl_commission_id s" "stl_amount e = stl_amount s"
    by (auto simp: insert_settlement_def and_then_eq_Inr)
  from e(1) have "e \<in> set (dd_settlements db)"
    by (auto simp: read_settlement_by_reference_def scan_settlement_def split: option.splits dest: find_Some_mem)
  then have "(stl_commission_id e, stl_amount e) \<in> set (settlement_amounts db)" by (auto simp: settlement_amounts_def)
  with none e(2,3) show ?thesis by simp
next
  case False
  with assms(1) show ?thesis
    by (auto simp: insert_settlement_def Let_def and_then_eq_Inr settlement_amounts_def)
qed

text \<open>A pending commission has no settlement, so its split is new, and it is the only one.\<close>

lemma submit_settlement_moves:
  assumes row: "commission_row i db = Some c" and s: "submit_settlement env value c customer state now db = Inr db'"
  shows "moves db db'"
proof -
  have id: "com_id c = i" by (rule commission_row_id [OF row])
  from s obtain d S p cr db1 x db2 y db3 z db4 where d: "begin_settlement c (com_version c) now = Inr d"
    and ins: "insert_settlement S db = Inr ((p, cr), db1)" "stl_commission_id S = i" "stl_amount S = com_payable_minor d"
    and acc: "accept_profit_sharing env (sharing_request_for value d customer state) db1 = Inr (x, db2)"
    and st: "accept_settlement y (stl_version p) db2 = Inr (z, db3)"
    and u: "\<exists>r. update_commission d (com_version c) db3 = Inr (r, db4)"
    and f: "audit_within ''distribution.settlement_accepted.v1'' ''settlement'' (stl_id p) worker_actor now db4 = Inr db'"
    using id by (fastforce simp: submit_settlement_def and_then_eq_Inr)
  have did: "com_id d = i" using commission_exec_id [of "BeginSettlement (com_version c) now" c d] d id by simp
  show ?thesis
  proof (rule moves_step)
    from u obtain r where r: "update_commission d (com_version c) db3 = Inr (r, db4)" by blast
    have db2: "db2 = db1\<lparr>dd_requests := dd_requests db1 @ [sharing_request_for value d customer state]\<rparr>"
      using acc by (auto simp: accept_profit_sharing_def and_then_eq_Inr)
    note f3 = accept_settlement_frame [OF st] and f4 = audit_within_frame [OF f]
    {
      assume ok: "books_ok db"
      then have bi: "book_inv (book i db)" by (simp add: books_ok_def)
      have "com_status c = ComPending" using d by (simp add: begin_settlement_def)
      then have "bk_settlements (book i db) = []" using book_invD(6,8) [OF bi, of c] row by simp
      then have none: "(i, a) \<notin> set (settlement_amounts db)" for a by (auto simp: book_def filter_empty_conv)
      note e1 = insert_settlement_effect [OF ins(1), unfolded ins(2,3), OF none]
      have row3: "commission_row i db3 = Some c"
        using e1 f3 row db2 by (simp add: same_books_def commission_row_def)
      note u' = update_commission_known [OF r row3 did]
      have req: "shr_settlement_ref (sharing_request_for value d customer state) = settlement_reference i"
        "shr_amount (sharing_request_for value d customer state) = com_payable_minor d"
        using did by (simp_all add: sharing_request_for_def)
      have b: "book j db' = (if j = i then (book j db)\<lparr>bk_row := Some (written_commission d c),
          bk_settlements := bk_settlements (book j db) @ [com_payable_minor d],
          bk_requests := bk_requests (book j db) @ [com_payable_minor d]\<rparr> else book j db)" for j
      proof -
        have "book j db' = book j db4" by (rule same_books_book [OF f4])
        also have "\<dots> = (if j = i then (book j db3)\<lparr>bk_row := Some (written_commission d c)\<rparr> else book j db3)"
          using put_row_book [OF u'(2)] u'(1) by simp
        also have "book j db3 = (if j = i then (book j db)\<lparr>bk_settlements := bk_settlements (book j db) @ [com_payable_minor d],
          bk_requests := bk_requests (book j db) @ [com_payable_minor d]\<rparr> else book j db)"
          using e1 f3 db2 req by (auto simp: book_def same_books_def settlement_amounts_def commission_row_def)
        finally show ?thesis by simp
      qed
      have "bk_row (book i db) = Some c" using row by simp
      from book_step.Submitted [OF this d] b [of i] have "book_step (book i db) (book i db')" by simp
      with b row show "\<forall>j. book j db' = book j db \<or> bk_row (book j db) \<noteq> None \<and> book_step (book j db) (book j db')"
        by auto
    }
    have "same_commission_ids db db1"
      using ins(1) by (auto simp: insert_settlement_def Let_def and_then_eq_Inr same_commission_ids_def split: if_splits)
    then show "same_commission_ids db db'"
      using f3 f4 db2 update_commission_row [OF r] by (auto simp: same_books_def put_row_def same_commission_ids_def)
  qed
qed

lemma settle_within_moves:
  assumes row: "commission_row i db = Some c" and s: "settle_within env value c state now db = Inr db'"
  shows "moves db db'"
proof -
  from s obtain d rc where g: "read_distributor (com_distributor_id c) db = Inr (d, rc)"
    by (auto simp: settle_within_def and_then_eq_Inr)
  from s g have r: "(case check_within env (dst_customer_id d) (scx_product_id value) (scx_product_type value) of
         Inl _ \<Rightarrow> hold_within c ''qualification_unavailable'' now db
       | Inr q \<Rightarrow>
           if ql_state q = QualUnavailable \<or> ql_state q = QualSuspended \<or> ql_state q = QualConflict
           then hold_within c ''qualification_unavailable'' now db
           else if ql_state q = QualIneligible then revoke_within value c now db
           else if cev_receiver_ready env (dst_customer_id d) (rcv_app_id rc) \<noteq> Inr True
           then hold_within c ''receiver_unavailable'' now db
           else if \<not> dps_split_capable state \<or> is_zero (dps_deadline state) \<or> \<not> now < dps_deadline state
           then mark_exception_within c None Ex_Settlement_Deadline ''split_deadline_unavailable'' (dps_payment_ref state) now db
           else if dps_available state < com_payable_minor c then hold_within c ''split_funds_unavailable'' now db
           else and_then (resume_if_held c now db) (\<lambda>(c', db1).
             submit_settlement env value c' (dst_customer_id d) state now db1)) = Inr db'"
    by (simp add: settle_within_def)
  have submit: "moves db db'" if "and_then (resume_if_held c now db) (\<lambda>(c', db1).
      submit_settlement env value c' (dst_customer_id d) state now db1) = Inr db'"
  proof -
    from that obtain c' db1 where h: "resume_if_held c now db = Inr (c', db1)"
      and g: "submit_settlement env value c' (dst_customer_id d) state now db1 = Inr db'"
      by (auto simp: and_then_eq_Inr)
    from resume_if_held_moves [OF row h] submit_settlement_moves [OF _ g] show ?thesis by (blast intro: moves_trans)
  qed
  note ways = hold_within_moves [OF row] revoke_within_moves [OF row] mark_exception_within_moves [OF row] submit
  show ?thesis
    using r by (cases "check_within env (dst_customer_id d) (scx_product_id value) (scx_product_type value)")
      (auto dest: ways split: if_splits)
qed

lemma prepare_settlement_moves:
  assumes "prepare_settlement env i state db = Inr (retry, db')"
  shows "moves db db'"
proof -
  from assms obtain ctx where v: "read_settlement_context i db = Inr ctx"
    by (auto simp: prepare_settlement_def Let_def and_then_eq_Inr)
  define c where "c = scx_commission ctx"
  note row = read_settlement_context_row [OF v, folded c_def]
  define now where "now = utc (cev_now env)"
  define rest where "rest db1 = (if \<not> dps_confirmed_paid state \<or> dps_payment_ref state = [] \<or> dps_refund_exposure state
             then hold_within c ''payment_or_refund_pending'' now db1
             else if 0 < dps_successful_refund state
             then and_then (reprice_within c (com_version c) state now db1) (\<lambda>(c', db2).
               if com_status c' = ComCancelled
               then audit_within ''distribution.commission_cancelled.v1'' ''commission'' (com_id c') worker_actor now db2
               else settle_within env ctx c' state now db2)
             else settle_within env ctx c state now db1)" for db1
  have e: "(if com_status c \<noteq> ComPending \<and> com_status c \<noteq> ComHeld then Inr (False, db)
      else and_then (record_deadline_warning_within c None (dps_deadline state) (dps_payment_ref state) now db) (\<lambda>db1.
        if now < com_due_at c then Inr (True, db1) else and_then (rest db1) (\<lambda>db2. Inr (False, db2)))) = Inr (retry, db')"
    using assms unfolding prepare_settlement_def Let_def v and_then_simps rest_def c_def now_def .
  show ?thesis
  proof (cases "com_status c \<noteq> ComPending \<and> com_status c \<noteq> ComHeld")
    case True
    with e show ?thesis by simp
  next
    case False
    with e obtain db1 where w: "record_deadline_warning_within c None (dps_deadline state) (dps_payment_ref state) now db = Inr db1"
      and r: "db' = db1 \<or> rest db1 = Inr db'"
      by (auto simp: and_then_eq_Inr split: if_splits)
    note f = record_deadline_warning_within_frame [OF w]
    have row1: "commission_row i db1 = Some c" using row(1) same_books_row [OF f] by simp
    have repriced: "moves db1 db'" if "and_then (reprice_within c (com_version c) state now db1) (\<lambda>(c', db2).
               if com_status c' = ComCancelled
               then audit_within ''distribution.commission_cancelled.v1'' ''commission'' (com_id c') worker_actor now db2
               else settle_within env ctx c' state now db2) = Inr db'"
    proof -
      from that obtain c' db2 where p: "reprice_within c (com_version c) state now db1 = Inr (c', db2)"
        and q: "(if com_status c' = ComCancelled
               then audit_within ''distribution.commission_cancelled.v1'' ''commission'' (com_id c') worker_actor now db2
               else settle_within env ctx c' state now db2) = Inr db'"
        by (auto simp: and_then_eq_Inr)
      note m = reprice_within_moves [OF row1 p]
      from q have "moves db2 db'"
        by (auto split: if_splits dest: settle_within_moves [OF m(2)] audit_within_frame intro: same_books_moves)
      with m(1) show ?thesis by (rule moves_trans)
    qed
    from r [unfolded rest_def] have "moves db1 db'"
      by (auto split: if_splits dest: repriced hold_within_moves [OF row1] settle_within_moves [OF row1])
    with f show ?thesis by (rule frame_moves)
  qed
qed

section \<open>Reconciliation\<close>

lemma confirm_paid_within_moves:
  assumes row: "commission_row i db = Some c" and a: "shi_amount x \<in> set (bk_settlements (book i db))"
    and p: "confirm_paid_within c x now db = Inr db'"
  shows "moves db db'"
proof (cases "com_status c = ComException \<and> 0 < com_paid_minor c")
  case False
  with p obtain d r where d: "confirm_receiver_paid c (com_version c) (shi_amount x) now = Inr d"
    and u: "update_commission d (com_version c) db = Inr (r, db')"
    by (auto simp: confirm_paid_within_def and_then_eq_Inr)
  have id: "com_id d = i"
    using commission_exec_id [of "ConfirmPaid (com_version c) (shi_amount x) now" c d] d commission_row_id [OF row] by simp
  note u' = update_commission_known [OF u row id]
  have "bk_row (book i db) = Some c" using row by simp
  from book_step.Paid [OF this d a] u'(1) put_row_book [OF u'(2), of i] have "book_step (book i db) (book i db')" by simp
  then show ?thesis
    using row put_row_book [OF u'(2)] u'(2) by (intro moves_step) (auto simp: put_row_def)
qed (use p in \<open>simp add: confirm_paid_within_def\<close>)

lemma resolve_business_exceptions_frame [book_frame]:
  assumes "resolve_business_exceptions i now db = Inr db'"
  shows "same_books db db'"
proof -
  from assms obtain es db1 where e: "resolve_open_business_exceptions i now db = Inr (es, db1)"
    and f: "for_each (\<lambda>e. audit_within ''distribution.exception_resolved.v1'' ''exception'' (exn_id e) worker_actor now) es db1 = Inr db'"
    by (auto simp: resolve_business_exceptions_def and_then_eq_Inr)
  have "same_books db1 db'" by (rule for_each_frame [OF _ f]) (rule audit_within_frame)
  with resolve_business_frame [OF e] show ?thesis by (rule same_books_trans)
qed

lemma confirm_unpaid_within_moves:
  assumes row: "commission_row i db = Some (scx_commission value)" and r: "confirm_unpaid_within value reason now db = Inr db'"
  shows "moves db db'"
proof -
  define c where "c = scx_commission value"
  from r obtain d x db1 db2 db3 where d: "confirm_instruction_unpaid c (com_version c) reason now = Inr d"
    and u: "update_commission d (com_version c) db = Inr (x, db1)"
    and e: "resolve_business_exceptions (com_id c) now db1 = Inr db2"
    and a: "(if com_payable_minor d \<noteq> com_payable_minor c
                      then append_adjustment \<lparr>adj_commission_id = com_id c, adj_kind = Adj_Qualification_Revoke,
                             adj_delta = wrap64 (com_payable_minor d - com_payable_minor c),
                             adj_resulting = com_payable_minor d, adj_reason = reason,
                             adj_source = at_evidence_ref (scx_attribution value), adj_at = now\<rparr> db2
                      else Inr db2) = Inr db3"
    and f: "audit_within ''distribution.commission_cancelled.v1'' ''commission'' (com_id c) worker_actor now db3 = Inr db'"
    by (auto simp: confirm_unpaid_within_def Let_def and_then_eq_Inr c_def [symmetric])
  note row = row [folded c_def]
  have k: "commission_exec (ConfirmUnpaid (com_version c) reason now) c = Inr d"
    "recheck_command (ConfirmUnpaid (com_version c) reason now) c" using d by simp_all
  note s = resolve_business_exceptions_frame [OF e]
  have "moves db db3"
  proof (cases "com_payable_minor d = com_payable_minor c")
    case True
    with a have "db3 = db2" by simp
    with moves_update(1) [OF row k u True] s show ?thesis by (blast intro: moves_frame)
  next
    case False
    with a have a: "append_adjustment \<lparr>adj_commission_id = com_id c, adj_kind = Adj_Qualification_Revoke,
                             adj_delta = wrap64 (com_payable_minor d - com_payable_minor c),
                             adj_resulting = com_payable_minor d, adj_reason = reason,
                             adj_source = at_evidence_ref (scx_attribution value), adj_at = now\<rparr> db2 = Inr db3" by simp
    show ?thesis
      by (rule moves_adjusted_after [OF row k u s a]) (use commission_row_id [OF row] in \<open>simp_all add: is_value_adjustment_def\<close>)
  qed
  then show ?thesis using audit_within_frame [OF f] by (rule moves_frame)
qed

lemma apply_reconciliation_moves:
  assumes "apply_reconciliation env i x db = Inr (out, db')"
  shows "moves db db'"
proof -
  from assms obtain ctx s where v: "read_settlement_context i db = Inr ctx" and s: "read_latest_settlement i db = Inr s"
    and am: "shi_amount x = stl_amount s"
    by (auto simp: apply_reconciliation_def Let_def and_then_eq_Inr split: if_splits)
  define c now where "c = scx_commission ctx" and "now = utc (cev_now env)"
  note row = read_settlement_context_row [OF v, folded c_def]
  have a: "shi_amount x \<in> set (bk_settlements (book i db))" using read_latest_settlement_amount [OF s] am by simp
  have after: "moves db db'" if "put_settlement_state s st x now db = Inr db1" "commission_row i db1 = Some c \<Longrightarrow> moves db1 db'" for st db1
    using put_settlement_state_frame [OF that(1)] that(2) row(1) same_books_row frame_moves by metis
  have r: "(if stl_instruction_ref s \<noteq> shi_reference x \<or> shi_amount x \<noteq> stl_amount s
             \<or> shi_currency x \<noteq> stl_currency s then Inl Dist_Conflict
          else if shi_confirmed_success x then
            and_then (confirm_paid_within c x now db) (\<lambda>db1.
              and_then (put_settlement_state s Stl_Succeeded x now db1) (\<lambda>db2.
                and_then (audit_within ''distribution.settlement_paid.v1'' ''commission'' (com_id c) worker_actor now db2)
                  (\<lambda>db3. Inr (Rec_Finalized, db3))))
          else if shi_outcome_known x then
            (if closed_instruction_business_cancellation ctx db \<noteq> [] then
              and_then (put_settlement_state s Stl_Cancelled x now db) (\<lambda>db1.
                and_then (confirm_unpaid_within ctx (closed_instruction_business_cancellation ctx db) now db1)
                  (\<lambda>db2. Inr (Rec_Finalized, db2)))
            else
              and_then (put_settlement_state s Stl_Exception x now db) (\<lambda>db1.
                and_then (mark_exception_within c (Some s) Ex_Settlement_Not_Paid
                            (payment_settlement_failure_reason (shi_failure_class x)) (shi_reference x) now db1)
                  (\<lambda>db2. Inr (Rec_Finalized, db2))))
          else
            and_then (put_settlement_state s Stl_Unknown x now db) (\<lambda>db1.
              and_then (mark_exception_within c (Some s) Ex_Settlement_Unknown ''settlement_outcome_unknown''
                          (shi_reference x) now db1) (\<lambda>db2. Inr (Rec_Unknown, db2)))) = Inr (out, db')"
    using assms unfolding apply_reconciliation_def Let_def v s and_then_simps c_def now_def .
  consider (paid) db1 db2 where "confirm_paid_within c x now db = Inr db1" "put_settlement_state s Stl_Succeeded x now db1 = Inr db2"
      "audit_within ''distribution.settlement_paid.v1'' ''commission'' (com_id c) worker_actor now db2 = Inr db'"
    | (unpaid) st reason db1 where "put_settlement_state s st x now db = Inr db1" "confirm_unpaid_within ctx reason now db1 = Inr db'"
    | (marked) st kind reason db1 where "put_settlement_state s st x now db = Inr db1"
      "mark_exception_within c (Some s) kind reason (shi_reference x) now db1 = Inr db'"
    using r by (auto simp: and_then_eq_Inr split: if_splits)
  then show ?thesis
  proof cases
    case paid
    from confirm_paid_within_moves [OF row(1) a paid(1)] put_settlement_state_frame [OF paid(2)] audit_within_frame [OF paid(3)]
    show ?thesis by (blast intro: moves_frame)
  next
    case unpaid
    show ?thesis by (rule after [OF unpaid(1)]) (rule confirm_unpaid_within_moves [OF _ unpaid(2)], simp add: c_def)
  next
    case marked
    show ?thesis by (rule after [OF marked(1)]) (rule mark_exception_within_moves [OF _ marked(2)])
  qed
qed

lemma record_deadline_warning_frame: "record_deadline_warning env i stl dl db = Inr db' \<Longrightarrow> same_books db db'"
  by (auto simp: record_deadline_warning_def and_then_eq_Inr dest: record_deadline_warning_within_frame)

lemma mark_commission_exception_moves: "mark_commission_exception env i stl kind reason evidence db = Inr db' \<Longrightarrow> moves db db'"
  by (auto simp: mark_commission_exception_def and_then_eq_Inr
      dest: mark_exception_within_moves [rotated] read_settlement_context_row(1))

lemma record_cancelled_unfreeze_failure_frame:
  "record_cancelled_unfreeze_failure env i stl evidence db = Inr db' \<Longrightarrow> same_books db db'"
  unfolding record_cancelled_unfreeze_failure_def Let_def
  by (erule and_then_InrE) (auto split: sum.splits if_splits intro: open_and_audit_frame)

end
