(* ===== verification/Commission_Recheck.thy ===== *)
theory Commission_Recheck
  imports Commission_System
begin

text \<open>
  The units of work of the refund recheck and of the administrator move the books. A recheck
  works on copies of the commissions read when it starts: a copy whose row was written since is
  refused by its version (\<open>fresh_copy\<close>), so a copy that is written is the row.
\<close>

section \<open>Copies\<close>

definition fresh_copy :: "commission \<Rightarrow> commission_db \<Rightarrow> bool" where
  "fresh_copy c db \<longleftrightarrow>
     commission_row (com_id c) db = Some c \<or> (\<exists>r. commission_row (com_id c) db = Some r \<and> com_version r \<noteq> com_version c)"

text \<open>What the recheck of one commission does to the rows.\<close>

definition touches :: "commission \<Rightarrow> commission_db \<Rightarrow> commission_db \<Rightarrow> bool" where
  "touches c db db' \<longleftrightarrow>
     (\<forall>j. j \<noteq> com_id c \<longrightarrow> commission_row j db' = commission_row j db)
     \<and> (commission_row (com_id c) db' = commission_row (com_id c) db
        \<or> (\<exists>r. commission_row (com_id c) db' = Some r \<and> com_version r = next_version (com_version c)))"

definition rechecks :: "commission \<Rightarrow> commission_db \<Rightarrow> commission_db \<Rightarrow> bool" where
  "rechecks c db db' \<longleftrightarrow> moves db db' \<and> touches c db db'"

lemma same_books_rechecks: "same_books db db' \<Longrightarrow> rechecks c db db'"
  by (simp add: rechecks_def touches_def same_books_moves same_books_row)

lemma rechecks_frame: "rechecks c db db1 \<Longrightarrow> same_books db1 db2 \<Longrightarrow> rechecks c db db2"
  using same_books_row [of db1 db2] moves_frame [of db db1 db2] by (simp add: rechecks_def touches_def)

lemma rechecks_fresh:
  assumes "rechecks c db db'" "fresh_copy d db" "is_int64 (com_version d)" "com_id d = com_id c \<longrightarrow> d = c"
  shows "fresh_copy d db'"
proof (cases "com_id d = com_id c")
  case True
  with assms(4) have "d = c" by simp
  with assms(1-3) show ?thesis
    unfolding rechecks_def touches_def fresh_copy_def by (metis next_version_neq)
qed (use assms in \<open>simp add: rechecks_def touches_def fresh_copy_def\<close>)

lemma fresh_copy_row:
  assumes "fresh_copy c db" "update_commission d (com_version c) db1 = Inr (r, db')" "com_id d = com_id c"
    "commission_row (com_id c) db1 = commission_row (com_id c) db"
  shows "commission_row (com_id c) db = Some c"
  using update_commission_row [OF assms(2)] assms(1,3,4) by (auto simp: fresh_copy_def)

lemma update_rechecks:
  assumes f: "fresh_copy c db" and k: "commission_exec k c = Inr d" "recheck_command k c"
    and u: "update_commission d (com_version c) db = Inr (r, db')" and same: "com_payable_minor d = com_payable_minor c"
  shows "rechecks c db db'"
proof -
  have id: "com_id d = com_id c" using commission_exec_id [OF k(1)] by simp
  note row = fresh_copy_row [OF f u id refl]
  note u' = update_commission_known [OF u row id]
  show ?thesis
    unfolding rechecks_def touches_def using moves_update(1) [OF row k u same] u' by (auto simp: put_row_def)
qed

lemma adjusted_rechecks:
  assumes f: "fresh_copy c db" and k: "commission_exec k c = Inr d" "recheck_command k c"
    and a: "append_adjustment a db = Inr db1" "adj_commission_id a = com_id c" "is_value_adjustment a"
      "adj_delta a = wrap64 (com_payable_minor d - com_payable_minor c)"
    and u: "update_commission d (com_version c) db1 = Inr (r, db')"
  shows "rechecks c db db'"
proof -
  have id: "com_id d = com_id c" using commission_exec_id [OF k(1)] by simp
  have rows: "commission_row j db1 = commission_row j db" for j
    using append_adjustment_effect [OF a(1)] by (simp add: add_adjustment_def)
  note row = fresh_copy_row [OF f u id rows]
  note u' = update_commission_known [OF u _ id, unfolded rows, OF row]
  show ?thesis
    unfolding rechecks_def touches_def using moves_adjusted(1) [OF row k a u] u' rows by (auto simp: put_row_def)
qed

lemma refund_adjusted_rechecks:
  assumes f: "fresh_copy c db" and k: "commission_exec k c = Inr d" "recheck_command k c"
    and a: "append_refund_adjustment c d source now db = Inr db1"
    and u: "update_commission d (com_version c) db1 = Inr (r, db')"
  shows "rechecks c db db'"
proof (cases "com_payable_minor d = com_payable_minor c")
  case True
  with a have "db1 = db" by (simp add: append_refund_adjustment_def)
  with update_rechecks [OF f k] u True show ?thesis by blast
next
  case False
  with a have a: "append_adjustment \<lparr>adj_commission_id = com_id c, adj_kind = Adj_Buyer_Refund,
             adj_delta = wrap64 (com_payable_minor d - com_payable_minor c),
             adj_resulting = com_payable_minor d, adj_reason = ''buyer_refund'', adj_source = source, adj_at = now\<rparr> db = Inr db1"
    by (simp add: append_refund_adjustment_def)
  show ?thesis
    by (rule adjusted_rechecks [OF f k a _ _ _ u]) (simp_all add: is_value_adjustment_def)
qed

section \<open>The refund of a commission\<close>

lemma open_refund_exception_frame [book_frame]:
  assumes "open_refund_exception n kind reason receipt source now db = Inr db'"
  shows "same_books db db'"
proof -
  from assms obtain sid x db1 db2 where "insert_exception (open_exception (com_id n) sid kind
                   (max (wrap64 (com_payable_minor n - com_paid_minor n)) 0) (com_paid_minor n)
                   (after_sales_handling n reason) reason source (refund_actor (com_order_id n)) now) db = Inr (x, db1)"
    "refund_record_within ''distribution.exception_opened.v1'' (exn_id x) receipt now db1 = Inr db2"
    "enqueue_commission_due (com_id n) now db2 = Inr db'"
    by (auto simp: open_refund_exception_def and_then_eq_Inr)
  from insert_exception_frame [OF this(1)] refund_record_within_frame [OF this(2)] enqueue_due_frame [OF this(3)]
  show ?thesis using same_books_trans by blast
qed

lemma record_and_enqueue_frame:
  assumes "and_then (refund_record_within e i receipt now db) (enqueue_commission_due j at) = Inr db'"
  shows "same_books db db'"
  using assms by (auto simp: and_then_eq_Inr dest!: refund_record_within_frame enqueue_due_frame intro: same_books_trans)

lemma record_post_submission_refund_rechecks:
  assumes f: "fresh_copy c db" and r: "record_post_submission_refund c n receipt source now db = Inr db'"
  shows "rechecks c db db'"
proof -
  from r obtain d db1 x db2 where d: "refund_after_submission c (com_version c) n ''buyer_refund_after_paid'' now = Inr d"
    and a: "append_refund_adjustment c d source now db = Inr db1" and u: "update_commission d (com_version c) db1 = Inr (x, db2)"
    and o: "open_refund_exception d Ex_Buyer_Refund ''buyer_refund_after_paid'' receipt source now db2 = Inr db'"
    by (auto simp: record_post_submission_refund_def and_then_eq_Inr)
  have "rechecks c db db2"
    by (rule refund_adjusted_rechecks [OF f _ _ a u, of "RefundSubmitted (com_version c) n ''buyer_refund_after_paid'' now"])
      (use d in simp_all)
  then show ?thesis using open_refund_exception_frame [OF o] by (rule rechecks_frame)
qed

lemma apply_buyer_refund_rechecks:
  assumes f: "fresh_copy c db" and r: "apply_buyer_refund c n receipt source now db = Inr db'"
  shows "rechecks c db db'"
proof -
  define priced where "priced = and_then (or_conflict (reprice c (com_version c) (com_original_paid_minor c) n now)) (\<lambda>next.
          and_then (append_refund_adjustment c next source now db) (\<lambda>db1.
            and_then (update_commission next (com_version c) db1) (\<lambda>(_, db2).
              and_then (refund_record_within (if com_status next = ComCancelled then ''distribution.commission_cancelled.v1''
                                       else ''distribution.commission_refund_adjusted.v1'') (com_id next) receipt now db2)
                (enqueue_commission_due (com_id next) now))))"
  define late where "late = and_then (or_conflict (refund_after_finalization c (com_version c) n now)) (\<lambda>next.
          and_then (update_commission next (com_version c) db) (\<lambda>(_, db1).
            and_then (refund_record_within ''distribution.commission_refund_recorded.v1'' (com_id next) receipt now db1) (\<lambda>db2.
              if com_status next = ComCancelled then enqueue_commission_due (com_id next) now db2 else Inr db2)))"
  from r have "db' = db \<or> priced = Inr db' \<or> record_post_submission_refund c n receipt source now db = Inr db' \<or> late = Inr db'"
    unfolding apply_buyer_refund_def priced_def [symmetric] late_def [symmetric] by (simp split: if_splits)
  then consider (none) "db' = db"
    | (reprice) d db1 x db2 e where "reprice c (com_version c) (com_original_paid_minor c) n now = Inr d"
        "append_refund_adjustment c d source now db = Inr db1" "update_commission d (com_version c) db1 = Inr (x, db2)"
        "and_then (refund_record_within e (com_id d) receipt now db2) (enqueue_commission_due (com_id d) now) = Inr db'"
    | (post) "record_post_submission_refund c n receipt source now db = Inr db'"
    | (final) d x db1 where "refund_after_finalization c (com_version c) n now = Inr d"
        "update_commission d (com_version c) db = Inr (x, db1)" "same_books db1 db'"
  proof (elim disjE, goal_cases)
    case 2
    then obtain d db1 x db2 where "reprice c (com_version c) (com_original_paid_minor c) n now = Inr d"
      "append_refund_adjustment c d source now db = Inr db1" "update_commission d (com_version c) db1 = Inr (x, db2)"
      "and_then (refund_record_within (if com_status d = ComCancelled then ''distribution.commission_cancelled.v1''
         else ''distribution.commission_refund_adjusted.v1'') (com_id d) receipt now db2) (enqueue_commission_due (com_id d) now) = Inr db'"
      unfolding priced_def by (elim and_then_InrE) (auto elim!: and_then_InrE)
    then show ?case by (rule 2(2))
  next
    case 4
    then obtain d x db1 db2 where d: "refund_after_finalization c (com_version c) n now = Inr d"
      "update_commission d (com_version c) db = Inr (x, db1)"
      and w: "refund_record_within ''distribution.commission_refund_recorded.v1'' (com_id d) receipt now db1 = Inr db2"
        "(if com_status d = ComCancelled then enqueue_commission_due (com_id d) now db2 else Inr db2) = Inr db'"
      unfolding late_def by (auto elim!: and_then_InrE)
    have "same_books db2 db'" using w(2) enqueue_due_frame by (simp split: if_splits)
    with refund_record_within_frame [OF w(1)] have "same_books db1 db'" by (rule same_books_trans)
    with d show ?case by (rule 4(4))
  qed
  then show ?thesis
  proof cases
    case none
    then show ?thesis by (simp add: same_books_rechecks)
  next
    case reprice
    have "rechecks c db db2"
      by (rule refund_adjusted_rechecks [OF f _ _ reprice(2,3), of "Reprice (com_version c) (com_original_paid_minor c) n now"])
        (use reprice(1) in simp_all)
    then show ?thesis using record_and_enqueue_frame [OF reprice(4)] by (rule rechecks_frame)
  next
    case post
    then show ?thesis by (rule record_post_submission_refund_rechecks [OF f])
  next
    case final
    have "rechecks c db db1"
      by (rule update_rechecks [OF f _ _ final(2), of "RefundFinalized (com_version c) n now"])
        (use final(1) in \<open>auto simp: refund_after_finalization_def\<close>)
    then show ?thesis using final(3) by (rule rechecks_frame)
  qed
qed

section \<open>The qualification of a commission\<close>

lemma ensure_exception_rechecks:
  assumes f: "fresh_copy c db" and r: "ensure_exception c reason now db = Inr (n, db')"
  shows "rechecks c db db'"
proof (cases "com_status c = ComException")
  case False
  with r obtain x where d: "mark_exception c (com_version c) reason now = Inr n"
    and u: "update_commission n (com_version c) db = Inr (x, db')"
    by (auto simp: ensure_exception_def and_then_eq_Inr)
  show ?thesis
    by (rule update_rechecks [OF f _ _ u, of "MarkException (com_version c) reason now"])
      (use d in \<open>auto simp: mark_exception_def\<close>)
qed (use r in \<open>simp add: ensure_exception_def same_books_rechecks\<close>)

lemma mark_qualification_exception_rechecks:
  assumes "fresh_copy c db" "mark_qualification_exception c receipt source reason now db = Inr db'"
  shows "rechecks c db db'"
proof -
  from assms(2) obtain n db1 where "ensure_exception c reason now db = Inr (n, db1)"
    and o: "open_refund_exception n Ex_Qualification_Revoked reason receipt source now db1 = Inr db'"
    unfolding mark_qualification_exception_def by (auto elim!: and_then_InrE)
  from ensure_exception_rechecks [OF assms(1) this(1)] open_refund_exception_frame [OF o] show ?thesis by (rule rechecks_frame)
qed

lemma hold_for_recheck_rechecks:
  assumes f: "fresh_copy c db" and r: "hold_for_recheck c reason receipt now db = Inr db'"
  shows "rechecks c db db'"
proof -
  from r obtain d x db1 where d: "hold c (com_version c) reason now = Inr d"
    and u: "update_commission d (com_version c) db = Inr (x, db1)"
    and w: "refund_record_within ''distribution.commission_held.v1'' (com_id d) receipt now db1 = Inr db'"
    unfolding hold_for_recheck_def by (auto elim!: and_then_InrE)
  have "rechecks c db db1"
    by (rule update_rechecks [OF f _ _ u, of "Hold (com_version c) reason now"]) (use d in \<open>auto simp: hold_def\<close>)
  then show ?thesis using refund_record_within_frame [OF w] by (rule rechecks_frame)
qed

lemma resume_after_recheck_rechecks:
  assumes f: "fresh_copy c db" and r: "resume_after_recheck c receipt now db = Inr db'"
  shows "rechecks c db db'"
proof -
  from r obtain d x db1 where d: "resume c (com_version c) now = Inr d"
    and u: "update_commission d (com_version c) db = Inr (x, db1)"
    and w: "refund_record_within ''distribution.commission_resumed.v1'' (com_id d) receipt now db1 = Inr db'"
    unfolding resume_after_recheck_def by (auto elim!: and_then_InrE)
  have "rechecks c db db1"
    by (rule update_rechecks [OF f _ _ u, of "Resume (com_version c) now"]) (use d in \<open>auto simp: resume_def\<close>)
  then show ?thesis using refund_record_within_frame [OF w] by (rule rechecks_frame)
qed

lemma revoke_for_refund_rechecks:
  assumes f: "fresh_copy c db" and r: "revoke_for_refund c receipt source now db = Inr db'"
  shows "rechecks c db db'"
proof -
  from r obtain d db1 x db2 where d: "cancel_unsettled c (com_version c) ''qualification_revoked'' now = Inr d"
    and a: "append_adjustment \<lparr>adj_commission_id = com_id c, adj_kind = Adj_Qualification_Revoke,
                   adj_delta = wrap64 (- com_payable_minor c), adj_resulting = 0, adj_reason = ''qualification_revoked'',
                   adj_source = source, adj_at = now\<rparr> db = Inr db1"
    and u: "update_commission d (com_version c) db1 = Inr (x, db2)"
    and w: "and_then (refund_record_within ''distribution.commission_cancelled.v1'' (com_id d) receipt now db2)
              (enqueue_commission_due (com_id d) now) = Inr db'"
    unfolding revoke_for_refund_def by (elim and_then_InrE) (auto elim!: and_then_InrE)
  have "com_payable_minor d = 0" using d by (auto simp: cancel_unsettled_def cancelled_def touch_def split: if_splits)
  then have "rechecks c db db2"
    by (intro adjusted_rechecks [OF f _ _ a _ _ _ u, of "CancelUnsettled (com_version c) ''qualification_revoked'' now"])
      (use d in \<open>simp_all add: is_value_adjustment_def\<close>)
  then show ?thesis using record_and_enqueue_frame [OF w] by (rule rechecks_frame)
qed

lemma enqueue_unless_final_frame: "enqueue_unless_final c now db = Inr db' \<Longrightarrow> same_books db db'"
  by (auto simp: enqueue_unless_final_def split: if_splits intro: enqueue_due_frame)

lemma rechecks_refl: "rechecks c db db"
  by (simp add: same_books_rechecks)

lemma rechecks_enqueue: "enqueue_unless_final d now db1 = Inr db' \<Longrightarrow> rechecks c db db1 \<Longrightarrow> rechecks c db db'"
  using enqueue_unless_final_frame rechecks_frame by blast

lemma rechecks_then_frame:
  assumes "and_then r f = Inr db'" "\<And>db1. r = Inr db1 \<Longrightarrow> rechecks c db db1" "\<And>db1. f db1 = Inr db' \<Longrightarrow> same_books db1 db'"
  shows "rechecks c db db'"
  using assms by (auto elim!: and_then_InrE intro: rechecks_frame)

lemma apply_qualification_refund_rechecks:
  assumes f: "fresh_copy (scx_commission value) db" and r: "apply_qualification_refund env receipt source now value db = Inr db'"
  shows "rechecks (scx_commission value) db db'"
proof -
  define c where "c = scx_commission value"
  note f = f [folded c_def]
  note ways = mark_qualification_exception_rechecks [OF f] revoke_for_refund_rechecks [OF f]
  have held: "rechecks c db db'" if "and_then (hold_for_recheck c ''qualification_refund_evidence_pending'' receipt now db)
              (enqueue_commission_due (com_id c) now) = Inr db'"
    using that by (rule rechecks_then_frame) (auto intro: hold_for_recheck_rechecks [OF f] enqueue_due_frame)
  from r obtain d x where "read_distributor (com_distributor_id c) db = Inr (d, x)"
    unfolding apply_qualification_refund_def Let_def c_def by (auto elim!: and_then_InrE)
  with r have "rechecks c db db'"
    unfolding apply_qualification_refund_def Let_def c_def [symmetric]
    by (auto simp: same_books_rechecks dest: ways held split: if_splits)
  then show ?thesis by (simp add: c_def)
qed

lemma apply_buyer_exposure_rechecks:
  assumes f: "fresh_copy c db" and r: "apply_buyer_exposure env event c db = Inr db'"
  shows "rechecks c db db'"
proof -
  note ways = hold_for_recheck_rechecks [OF f] resume_after_recheck_rechecks [OF f]
  show ?thesis
    using r unfolding apply_buyer_exposure_def Let_def
    by (auto simp: rechecks_refl split: if_splits elim!: and_then_InrE) (blast intro: rechecks_enqueue rechecks_refl ways)+
qed

lemma apply_qualification_exposure_rechecks:
  assumes f: "fresh_copy (scx_commission value) db" and r: "apply_qualification_exposure env event value db = Inr db'"
  shows "rechecks (scx_commission value) db db'"
proof -
  define c where "c = scx_commission value"
  note f = f [folded c_def]
  note ways = hold_for_recheck_rechecks [OF f] resume_after_recheck_rechecks [OF f]
  from r obtain d x where "read_distributor (com_distributor_id c) db = Inr (d, x)"
    unfolding apply_qualification_exposure_def Let_def c_def by (auto split: if_splits elim!: and_then_InrE)
  with r have "rechecks c db db'"
    unfolding apply_qualification_exposure_def Let_def c_def [symmetric]
    by (auto simp: same_books_rechecks intro: rechecks_enqueue rechecks_refl ways split: if_splits elim!: and_then_InrE)
  then show ?thesis by (simp add: c_def)
qed

section \<open>The loops of a recheck\<close>

definition copies :: "settlement_context list \<Rightarrow> commission_db \<Rightarrow> bool" where
  "copies vs db \<longleftrightarrow>
     (\<forall>v\<in>set vs. fresh_copy (scx_commission v) db \<and> is_int64 (com_version (scx_commission v))
        \<and> (\<forall>w\<in>set vs. com_id (scx_commission w) = com_id (scx_commission v) \<longrightarrow> scx_commission w = scx_commission v))"

lemma copies_rechecks: "copies vs db \<Longrightarrow> v \<in> set vs \<Longrightarrow> rechecks (scx_commission v) db db' \<Longrightarrow> copies vs db'"
  unfolding copies_def by (auto intro: rechecks_fresh)

text \<open>A recheck of one context, and what a run of several keeps.\<close>

definition context_recheck :: "(settlement_context \<Rightarrow> commission_db \<Rightarrow> dist_error + commission_db) \<Rightarrow> bool" where
  "context_recheck f \<longleftrightarrow>
     (\<forall>v db db'. fresh_copy (scx_commission v) db \<longrightarrow> f v db = Inr db' \<longrightarrow> rechecks (scx_commission v) db db')"

definition runs :: "settlement_context list \<Rightarrow> commission_db \<Rightarrow> commission_db \<Rightarrow> bool" where
  "runs vs db db' \<longleftrightarrow> (copies vs db \<longrightarrow> moves db db' \<and> copies vs db')"

lemma runs_trans: "runs vs db db1 \<Longrightarrow> runs vs db1 db2 \<Longrightarrow> runs vs db db2"
  unfolding runs_def using moves_trans by blast

lemma runs_one: "context_recheck f \<Longrightarrow> v \<in> set vs \<Longrightarrow> f v db = Inr db' \<Longrightarrow> runs vs db db'"
  unfolding runs_def context_recheck_def
  using copies_rechecks [of vs db v db'] by (auto simp: rechecks_def copies_def)

lemma recheck_targets_runs:
  assumes "context_recheck f" "v \<in> set vs"
  shows "recheck_targets f env v ts seen db = Inr (seen', db') \<Longrightarrow> runs vs db db'"
proof (induction ts arbitrary: seen db)
  case (Cons t ts)
  note ih = Cons.IH runs_trans [OF runs_one [OF assms] Cons.IH]
  from Cons.prems show ?case
    by (auto split: if_splits elim!: and_then_InrE intro: ih)
qed (simp add: runs_def)

lemma recheck_contexts_runs:
  assumes "context_recheck f"
  shows "set ws \<subseteq> set vs \<Longrightarrow> recheck_contexts f env ts ws seen db = Inr db' \<Longrightarrow> runs vs db db'"
proof (induction ws arbitrary: seen db)
  case (Cons w ws)
  then show ?case by (auto elim!: and_then_InrE intro: runs_trans recheck_targets_runs [OF assms])
qed (simp add: runs_def)

lemma for_each_runs:
  assumes "context_recheck f"
  shows "set ws \<subseteq> set vs \<Longrightarrow> for_each f ws db = Inr db' \<Longrightarrow> runs vs db db'"
proof (induction ws arbitrary: db)
  case (Cons w ws)
  then show ?case by (auto elim!: and_then_InrE intro: runs_trans runs_one [OF assms])
qed (simp add: runs_def)

lemma find_distinct: "distinct (map g xs) \<Longrightarrow> x \<in> set xs \<Longrightarrow> find (\<lambda>y. g y = g x) xs = Some x"
  by (induction xs) (auto simp: image_iff)

lemma scan_all_eq: "scan_all xs = Inr ys \<Longrightarrow> ys = xs"
  by (induction xs arbitrary: ys) (auto simp: scan_settlement_context_def split: if_splits elim!: and_then_InrE)

lemma listed_copies:
  assumes l: "list_refund_recheck_contexts order scopes db = Inr vs" and ok: "books_ok db"
  shows "copies vs db"
proof -
  have vs: "scx_commission v \<in> set (dd_commissions db)" if "v \<in> set vs" for v
  proof -
    from l that have "v \<in> set (List.map_filter (joined db) (dd_commissions db))"
      by (auto simp: list_refund_recheck_contexts_def split: if_splits dest!: scan_all_eq)
    then show ?thesis by (auto simp: List.map_filter_def joined_commission)
  qed
  have row: "commission_row (com_id c) db = Some c" if "c \<in> set (dd_commissions db)" for c
    unfolding commission_row_def by (rule find_distinct [OF _ that]) (use ok in \<open>simp add: books_ok_def\<close>)
  have v: "is_int64 (com_version c)" if "c \<in> set (dd_commissions db)" for c
    using book_invD(2) [of "book (com_id c) db" c] row [OF that] ok by (simp add: books_ok_def terms_ok_def)
  have "d = c" if "c \<in> set (dd_commissions db)" "d \<in> set (dd_commissions db)" "com_id d = com_id c" for c d
    using row [OF that(1)] row [OF that(2)] that(3) by simp
  with row v vs show ?thesis unfolding copies_def fresh_copy_def by blast
qed

lemma runs_moves: "list_refund_recheck_contexts order scopes db = Inr vs \<Longrightarrow> runs vs db db' \<Longrightarrow> moves db db'"
  using listed_copies unfolding runs_def moves_def by blast

lemma apply_successful_refund_recheck_moves:
  assumes "apply_successful_refund_recheck env args db = Inr db'"
  shows "moves db db'"
proof -
  define now source where "now = utc (rka_occurred_at args)"
    and "source = refund_source (event_ref (rka_order_id args) (rka_receipt_key args))"
  from assms obtain ts vs db1 where l: "list_refund_recheck_contexts (rka_order_id args) (target_scopes ts) db = Inr vs"
    and a: "recheck_contexts (apply_qualification_refund env (rka_receipt_key args) source now) env ts vs [] db = Inr db1"
    and rest: "(case payment_state_within env (rka_order_id args) of Inl _ \<Rightarrow> Inl Dist_Unavailable
             | Inr state \<Rightarrow> if \<not> dps_confirmed_paid state then Inl Dist_Unavailable
                 else for_each (\<lambda>v. apply_buyer_refund (scx_commission v) (dps_successful_refund state) (rka_receipt_key args)
                                      source now) (of_order (rka_order_id args) vs) db1) = Inr db'"
    unfolding apply_successful_refund_recheck_def Let_def now_def [symmetric] source_def [symmetric] by (elim and_then_InrE)
  from rest obtain n where b: "for_each (\<lambda>v. apply_buyer_refund (scx_commission v) n (rka_receipt_key args) source now)
      (of_order (rka_order_id args) vs) db1 = Inr db'"
    by (auto split: sum.splits if_splits)
  have "context_recheck (apply_qualification_refund env (rka_receipt_key args) source now)"
    "context_recheck (\<lambda>v. apply_buyer_refund (scx_commission v) n (rka_receipt_key args) source now)"
    by (simp_all add: context_recheck_def apply_qualification_refund_rechecks apply_buyer_refund_rechecks)
  from recheck_contexts_runs [OF this(1) subset_refl a] for_each_runs [OF this(2) _ b, of vs]
  have "runs vs db db'" by (auto simp: of_order_def intro: runs_trans)
  with l show ?thesis by (rule runs_moves)
qed

lemma apply_refund_exposure_recheck_moves:
  assumes "apply_refund_exposure_recheck env args db = Inr db'"
  shows "moves db db'"
proof -
  define event where "event = \<lparr>exv_order_id = rka_order_id args, exv_refund_id = rka_refund_id args, exv_state = rka_state args,
                   exv_occurred_at = rka_occurred_at args, exv_receipt_key = rka_receipt_key args\<rparr>"
  from assms obtain ts vs db1 where l: "list_refund_recheck_contexts (rka_order_id args) (target_scopes ts) db = Inr vs"
    and a: "recheck_contexts (apply_qualification_exposure env event) env ts vs [] db = Inr db1"
    and b: "for_each (\<lambda>v. apply_buyer_exposure env event (scx_commission v)) (of_order (rka_order_id args) vs) db1 = Inr db'"
    unfolding apply_refund_exposure_recheck_def Let_def event_def [symmetric] by (elim and_then_InrE)
  have "context_recheck (apply_qualification_exposure env event)"
    "context_recheck (\<lambda>v. apply_buyer_exposure env event (scx_commission v))"
    by (simp_all add: context_recheck_def apply_qualification_exposure_rechecks apply_buyer_exposure_rechecks)
  from recheck_contexts_runs [OF this(1) subset_refl a] for_each_runs [OF this(2) _ b, of vs]
  have "runs vs db db'" by (auto simp: of_order_def intro: runs_trans)
  with l show ?thesis by (rule runs_moves)
qed

lemma run_refund_recheck_moves: "run_refund_recheck env args db = Inr db' \<Longrightarrow> moves db db'"
  unfolding run_refund_recheck_def
  by (auto split: if_splits dest: apply_successful_refund_recheck_moves apply_refund_exposure_recheck_moves)

end
