(* ===== verification/Commission_Steps.thy ===== *)
theory Commission_Steps
  imports Commission_Recheck
begin

text \<open>
  The paid event and the administrator's commands move the books; with them every unit of work
  of the distribution services does. \<open>commission_step\<close> lets the units of work of all jobs,
  callbacks and commands interleave, each with its own clock and its own answers of the other
  modules, and the worker's due check is shown to be a sequence of such steps.
\<close>

section \<open>The paid event\<close>

text \<open>Only a commission as \<open>NewCommission\<close> made it has version 1, which the insert demands.\<close>

lemma qualify_new_commission_version:
  assumes "qualify_new_commission c state at = Inr d" "com_version c = 1" "com_version d = 1"
  shows "d = c"
  using assms
  by (auto simp: qualify_new_commission_def cancel_unsettled_def cancelled_def hold_def touch_def next_version_def split: if_splits)

lemma insert_commission_new:
  assumes "insert_commission c db = Inr ((saved, True), db')"
  shows "com_version c = 1" "db' = db\<lparr>dd_commissions := dd_commissions db @ [c\<lparr>com_id := dd_next_commission db\<rparr>],
      dd_next_commission := dd_next_commission db + 1\<rparr>"
  using assms by (auto simp: insert_commission_def commission_insert_ok_def Let_def split: if_splits elim!: and_then_InrE)

lemma insert_commission_old: "insert_commission c db = Inr ((saved, False), db') \<Longrightarrow> db' = db"
  by (auto simp: insert_commission_def Let_def split: if_splits elim!: and_then_InrE)

lemma opened_moves:
  assumes c: "new_commission a paid t = Inr c" "paid \<le> max_int64"
    and i: "insert_commission c db = Inr ((saved, True), db')"
  shows "moves db db'"
  unfolding moves_def
proof (intro impI)
  assume ok: "books_ok db"
  define n where "n = dd_next_commission db"
  note db' = insert_commission_new(2) [OF i, folded n_def]
  have fresh: "book n db = empty_book" using ok by (simp add: books_ok_def n_def)
  then have none: "commission_row n db = None" using bk_row_book [of n db] by (simp add: empty_book_def)
  have new: "n \<notin> com_id ` set (dd_commissions db)"
    using none by (auto simp: commission_row_def find_None_iff)
  have row: "commission_row j db' = (if j = n then Some (c\<lparr>com_id := n\<rparr>) else commission_row j db)" for j
  proof -
    have "find P (xs @ [x]) = (case find P xs of Some y \<Rightarrow> Some y | None \<Rightarrow> if P x then Some x else None)" for P x and xs :: "commission list"
      by (induction xs) auto
    then show ?thesis using none db' by (auto simp: commission_row_def split: option.splits)
  qed
  have b: "book j db' = (if j = n then empty_book\<lparr>bk_row := Some (c\<lparr>com_id := n\<rparr>)\<rparr> else book j db)" for j
  proof -
    have "book j db' = (book j db)\<lparr>bk_row := commission_row j db'\<rparr>" by (simp add: book_def settlement_amounts_def db')
    moreover have "(book j db)\<lparr>bk_row := commission_row j db\<rparr> = book j db" by (simp add: book_def)
    ultimately show ?thesis using row [of j] fresh by simp
  qed
  have step: "book_step empty_book (empty_book\<lparr>bk_row := Some (c\<lparr>com_id := n\<rparr>)\<rparr>)"
    by (rule book_step.Opened [OF refl c])
  have "book_inv (book j db')" for j
  proof -
    have "book_inv (book n db)" "book_inv (book j db)" using ok by (simp_all add: books_ok_def)
    with book_step_inv [OF step] fresh b [of j] show ?thesis by auto
  qed
  then show "books_ok db' \<and> (\<forall>j. book_step\<^sup>*\<^sup>* (book j db) (book j db'))"
    using ok new step b fresh by (auto simp: books_ok_def db' n_def [symmetric])
qed

lemma max_rate_bound: "calculate_commission paid r = Inr m \<Longrightarrow> paid \<le> max_int64"
proof -
  assume "calculate_commission paid r = Inr m"
  then have "0 \<le> paid" "paid \<le> max_int64 div 3000" by (auto simp: calculate_commission_def limits split: if_splits)
  then show ?thesis by (simp add: max_int64_def)
qed

lemma store_new_commission_moves:
  assumes c: "new_commission a paid t = Inr c0" "paid \<le> max_int64" "qualify_new_commission c0 state t = Inr c"
    and s: "store_new_commission event c db = Inr db'"
  shows "moves db db'"
proof -
  from s obtain saved created db1 where i: "insert_commission c db = Inr ((saved, created), db1)"
    and r: "(if \<not> created then Inr db1
       else and_then (if com_status saved = ComPending \<or> com_status saved = ComHeld \<or> com_status saved = ComCancelled
                      then enqueue_commission_due (com_id saved) (com_due_at saved) db1 else Inr db1) (\<lambda>db2.
         and_then (append_audit ''distribution.commission_created.v1'' ''commission'' (com_id saved)
                     (''order-paid-event:'' @ format_int (pe_id event)) (pe_occurred_at event) db2)
           (append_outbox ''distribution.commission_created.v1''
              (''distribution.commission:paid-event:'' @ format_int (pe_id event)) (com_id saved) (pe_occurred_at event)))) = Inr db'"
    unfolding store_new_commission_def by (auto elim!: and_then_InrE)
  show ?thesis
  proof (cases created)
    case False
    with i insert_commission_old have "db1 = db" by auto
    with r False show ?thesis by simp
  next
    case True
    from i True have i: "insert_commission c db = Inr ((saved, True), db1)" by simp
    from r True obtain db2 db3 where "db2 = db1 \<or> enqueue_commission_due (com_id saved) (com_due_at saved) db1 = Inr db2"
      and a: "append_audit ''distribution.commission_created.v1'' ''commission'' (com_id saved)
                     (''order-paid-event:'' @ format_int (pe_id event)) (pe_occurred_at event) db2 = Inr db3"
      and o': "append_outbox ''distribution.commission_created.v1''
              (''distribution.commission:paid-event:'' @ format_int (pe_id event)) (com_id saved) (pe_occurred_at event) db3 = Inr db'"
      by (auto split: if_splits elim!: and_then_InrE)
    then have "same_books db1 db2" using enqueue_due_frame by auto
    with append_audit_frame [OF a] append_outbox_frame [OF o'] have f: "same_books db1 db'" using same_books_trans by blast
    have "com_version c0 = 1" using c(1) by (auto simp: new_commission_def split: if_splits elim!: and_then_InrE)
    with qualify_new_commission_version [OF c(3)] insert_commission_new(1) [OF i] have "c = c0" by simp
    with opened_moves [OF c(1,2)] i f show ?thesis by (blast intro: moves_frame)
  qed
qed

lemma consume_paid_event_moves:
  assumes e: "consume_paid_event env event db = Inr db'"
  shows "moves db db'"
proof (cases "read_attribution_context (pe_order_id event) 1 db")
  case (Inl x)
  with e show ?thesis by (auto simp: consume_paid_event_def split: if_splits)
next
  case (Inr x)
  define a paid where "a = acx_attribution x" and "paid = paid_line_minor (at_order_item_line a) (snap_items (pe_order event))"
  from e Inr obtain c0 c state where c: "new_commission a paid (pe_occurred_at event) = Inr c0"
      "qualify_new_commission c0 state (pe_occurred_at event) = Inr c" "store_new_commission event c db = Inr db'"
    unfolding consume_paid_event_def Let_def a_def paid_def by (auto split: if_splits elim!: and_then_InrE)
  from c(1) obtain m where "calculate_commission paid (at_rate a) = Inr m"
    by (auto simp: new_commission_def split: if_splits elim!: and_then_InrE)
  then have "paid \<le> max_int64" by (rule max_rate_bound)
  with store_new_commission_moves c show ?thesis by blast
qed

section \<open>The administrator\<close>

lemma once_moves:
  assumes "once operation actor key d f db = Inr db'" "\<And>db'. f db = Inr db' \<Longrightarrow> moves db db'"
  shows "moves db db'"
  using assms by (auto simp: once_def split: if_splits elim!: and_then_InrE)

lemma set_distributor_moves:
  assumes "set_distributor digest env c enabled db = Inr db'"
  shows "moves db db'"
proof -
  define op d ev now where "op = (if enabled then ''distributor_enable'' else ''distributor_disable'')"
    and "d = digest op [(''distributor_id'', Val_Int (adc_distributor_id c)), (''enabled'', Val_Bool enabled),
                  (''expected_version'', Val_Int (adc_expected c)), (''reason'', Val_Text (adc_reason c))]"
    and "ev = (if enabled then ''distribution.distributor_enabled.v1'' else ''distribution.distributor_disabled.v1'')"
    and "now = utc (cev_now env)"
  note names = op_def [symmetric] d_def [symmetric] ev_def [symmetric] now_def [symmetric]
  from assms have o1: "once op (adc_actor c) (adc_key c) d (\<lambda>db.
          and_then (read_distributor (adc_distributor_id c) db) (\<lambda>(current, _).
            if dst_version current \<noteq> adc_expected c then Inl Dist_Conflict
            else and_then (set_distributor_enabled (dst_id current) (adc_expected c) enabled (cev_now env) db) (\<lambda>(updated, db1).
              and_then (append_receipt op (adc_actor c) (adc_key c) d ''distributor'' (dst_id updated) now db1) (\<lambda>db2.
                and_then (append_audit ev ''distributor'' (dst_id updated) (adc_actor c) now db2)
                  (append_outbox ev (''distribution.'' @ op @ '':'' @ adc_key c) (dst_id updated) now))))) db = Inr db'"
    unfolding set_distributor_def Let_def names by (simp split: if_splits)
  show ?thesis
    by (rule once_moves [OF o1])
      (auto split: if_splits elim!: and_then_InrE intro!: same_books_moves
        dest!: set_distributor_enabled_frame append_receipt_frame append_audit_frame append_outbox_frame, meson same_books_trans)
qed

lemma record_end_frame:
  assumes "and_then (append_receipt op actor key d kind i now db) (\<lambda>db1.
    and_then (append_audit ev agg i actor now db1) (append_outbox ev k i now)) = Inr db'"
  shows "same_books db db'"
  using assms by (auto elim!: and_then_InrE dest!: append_receipt_frame append_audit_frame append_outbox_frame) (meson same_books_trans)

lemma read_commission_row: "read_commission i db = Inr c \<Longrightarrow> commission_row i db = Some c \<and> com_id c = i"
  using commission_row_id by (auto simp: read_commission_def scan_commission_def split: if_splits option.splits)

lemma admin_exception_row:
  assumes "lock_commission_then_exception i db = Inr (e, c)"
  shows "commission_row (com_id c) db = Some c"
proof -
  from assms obtain j where "read_commission j db = Inr c"
    unfolding lock_commission_then_exception_def by (elim and_then_InrE) (simp split: if_splits)
  then show ?thesis using read_commission_row by blast
qed

lemma recorded_handling:
  assumes "sum_recorded_handling i db = Inr n"
  shows "n = bk_handled (book i db)"
proof -
  have "adj_kind a = Adj_Manual_Recovery \<or> adj_kind a = Adj_Merchant_Liability \<longleftrightarrow> \<not> is_value_adjustment a" for a
    by (cases "adj_kind a") (simp_all add: is_value_adjustment_def)
  with assms show ?thesis
    by (auto simp: sum_recorded_handling_def book_def adjustment_sum_def Let_def split: if_splits)
qed

lemma terms_initial: "terms_ok c \<Longrightarrow> com_initial_minor c \<le> max_int64"
proof -
  assume t: "terms_ok c"
  then have "com_original_paid_minor c * com_rate c \<le> com_original_paid_minor c * 10000"
    by (intro mult_left_mono) (auto simp: terms_ok_def)
  then have "com_original_paid_minor c * com_rate c div 10000 \<le> com_original_paid_minor c" by simp
  with t show ?thesis by (simp add: terms_ok_def)
qed

lemma available_bound:
  assumes i: "book_inv b" "bk_row b = Some c" and a: "amount \<le> after_sales_available e c (bk_handled b)" "0 < amount"
  shows "amount \<le> com_paid_minor c - bk_handled b"
proof -
  note d = book_invD [OF i]
  have z: "0 \<le> com_payable_minor c" "0 \<le> com_paid_minor c" using d(1) by (simp_all add: commission_inv_def)
  have p: "com_paid_minor c \<le> max_int64"
    using d(9,11) terms_initial [OF d(2)] by (cases "0 < com_paid_minor c") auto
  have "wrap64 (com_paid_minor c - com_payable_minor c) = com_paid_minor c - com_payable_minor c"
    using z p terms_payable [OF d(2,1)] by simp
  then show ?thesis
    using a d(4) z p by (auto simp: after_sales_available_def Let_def split: if_splits)
qed

lemma record_exception_amount_moves:
  assumes r: "record_exception_amount digest env h c db = Inr db'" and pos: "0 < aec_amount c"
  shows "moves db db'"
proof -
  define d now where "d = digest (handling_operation h) [(''amount_minor'', Val_Int (aec_amount c)),
                (''evidence_reference'', Val_Text (aec_evidence c)), (''exception_id'', Val_Int (aec_exception_id c)),
                (''expected_version'', Val_Int (aec_expected c)), (''reason'', Val_Text (aec_reason c))]"
    and "now = utc (cev_now env)"
  note r = r [unfolded record_exception_amount_def Let_def, folded d_def now_def]
  define tail where "tail u db2 =
                and_then (append_receipt (handling_operation h) (aec_actor c) (aec_key c) d ''exception'' (aex_id u) now db2)
                  (\<lambda>db3. and_then (append_audit (handling_event h) ''exception'' (aex_id u) (aec_actor c) now db3)
                    (append_outbox (handling_event h) (''distribution.'' @ handling_operation h @ '':'' @ aec_key c)
                       (aex_id u) now))" for u :: admin_exception and db2
  note r = r [folded tail_def]
  show ?thesis
  proof (rule once_moves [OF r])
    fix db'
    assume "and_then (lock_commission_then_exception (aec_exception_id c) db) (\<lambda>(current, commission).
          and_then (sum_recorded_handling (com_id commission) db) (\<lambda>handled.
            if aex_version current \<noteq> aec_expected c \<or> \<not> after_sales_actionable current commission handled
               \<or> \<not> can_record_exception (aex_status current) \<or> after_sales_available current commission handled < aec_amount c
            then Inl Dist_Conflict
            else and_then (update_admin_exception (current\<lparr>aex_version := next_version (aex_version current),
                             aex_status := handling_status h\<rparr>) (aec_expected c) now db) (\<lambda>(updated, db1).
              and_then (append_adjustment \<lparr>adj_commission_id = com_id commission, adj_kind = handling_adjustment h,
                          adj_delta = aec_amount c, adj_resulting = com_payable_minor commission, adj_reason = aec_reason c,
                          adj_source = aec_evidence c, adj_at = now\<rparr> db1) (\<lambda>db2.
                tail updated db2)))) = Inr db'"
    then obtain e com handled u db1 db2 where l: "lock_commission_then_exception (aec_exception_id c) db = Inr (e, com)"
      and s: "sum_recorded_handling (com_id com) db = Inr handled" "aec_amount c \<le> after_sales_available e com handled"
      and x: "update_admin_exception (e\<lparr>aex_version := next_version (aex_version e), aex_status := handling_status h\<rparr>)
                (aec_expected c) now db = Inr (u, db1)"
      and a: "append_adjustment \<lparr>adj_commission_id = com_id com, adj_kind = handling_adjustment h,
                          adj_delta = aec_amount c, adj_resulting = com_payable_minor com, adj_reason = aec_reason c,
                          adj_source = aec_evidence c, adj_at = now\<rparr> db1 = Inr db2"
      and f: "tail u db2 = Inr db'"
      by (auto split: if_splits elim!: and_then_InrE)
    note f = record_end_frame [OF f [unfolded tail_def]]
    note row = admin_exception_row [OF l] and g = update_admin_exception_frame [OF x]
    have ef: "add_adjustment (com_id com) False (aec_amount c) db1 db2"
      using append_adjustment_effect [OF a] by (cases h) (simp_all add: is_value_adjustment_def)
    have "moves db1 db2"
    proof (rule moves_step)
      show "same_commission_ids db1 db2" using ef by (simp add: add_adjustment_def)
      assume ok: "books_ok db1"
      have b: "bk_row (book (com_id com) db1) = Some com" "book_inv (book (com_id com) db1)"
        using row same_books_row [OF g] ok by (simp_all add: books_ok_def)
      have "handled = bk_handled (book (com_id com) db1)"
        using recorded_handling [OF s(1)] same_books_book [OF g] by simp
      with s(2) have "aec_amount c \<le> com_paid_minor com - bk_handled (book (com_id com) db1)"
        using available_bound [OF b(2,1) _ pos] by simp
      from book_step.Handled [OF b(1) pos this] b(1) ef
      show "\<forall>j. book j db2 = book j db1 \<or> bk_row (book j db1) \<noteq> None \<and> book_step (book j db1) (book j db2)"
        by (auto simp: add_adjustment_def)
    qed
    with f g show "moves db db'" by (blast intro: moves_frame frame_moves)
  qed
qed

lemma record_recovery_moves: "record_recovery digest env c db = Inr db' \<Longrightarrow> moves db db'"
  by (auto simp: record_recovery_def valid_exception_command_def split: if_splits intro: record_exception_amount_moves)

lemma record_merchant_liability_moves: "record_merchant_liability digest env c db = Inr db' \<Longrightarrow> moves db db'"
  by (auto simp: record_merchant_liability_def valid_exception_command_def split: if_splits intro: record_exception_amount_moves)

lemma record_reconciliation_moves:
  assumes r: "record_reconciliation digest env c target succeeded db = Inr db'"
  shows "moves db db'"
  by (rule once_moves [OF r [unfolded record_reconciliation_def Let_def]])
    (auto split: if_splits elim!: and_then_InrE intro!: same_books_moves
      dest!: update_admin_exception_frame append_receipt_frame append_audit_frame append_outbox_frame, (meson same_books_trans)+)

section \<open>All units of work\<close>

text \<open>\<open>Elsewhere\<close> is a unit of work of the parts of the module that write the other tables:
  registration, policies and the attribution of orders.\<close>

inductive commission_step :: "commission_db \<Rightarrow> commission_db \<Rightarrow> bool" where
  Order_Paid: "consume_paid_event env event db = Inr db' \<Longrightarrow> commission_step db db'"
| Refund_Settled: "consume_refund_settlement revent db = Inr db' \<Longrightarrow> commission_step db db'"
| Refund_Exposed: "consume_refund_exposure xevent db = Inr db' \<Longrightarrow> commission_step db db'"
| Refund_Rechecked: "run_refund_recheck env args db = Inr db' \<Longrightarrow> commission_step db db'"
| Deadline_Warned: "record_deadline_warning env i stl deadline db = Inr db' \<Longrightarrow> commission_step db db'"
| Settlement_Prepared: "prepare_settlement env i state db = Inr (retry, db') \<Longrightarrow> commission_step db db'"
| Instruction_Reconciled: "apply_reconciliation env i instruction db = Inr (out, db') \<Longrightarrow> commission_step db db'"
| Exception_Marked: "mark_commission_exception env i stl kind reason evidence db = Inr db' \<Longrightarrow> commission_step db db'"
| Release_Failed: "record_cancelled_unfreeze_failure env i stl evidence db = Inr db' \<Longrightarrow> commission_step db db'"
| Rest_Released: "unfreeze_remaining env ureq db = Inr (u, db') \<Longrightarrow> commission_step db db'"
| Distributor_Switched: "set_distributor digest env dc enabled db = Inr db' \<Longrightarrow> commission_step db db'"
| Recovery_Recorded: "record_recovery digest env ec db = Inr db' \<Longrightarrow> commission_step db db'"
| Liability_Recorded: "record_merchant_liability digest env ec db = Inr db' \<Longrightarrow> commission_step db db'"
| Reconciliation_Recorded: "record_reconciliation digest env ec target succeeded db = Inr db' \<Longrightarrow> commission_step db db'"
| Elsewhere: "commission_step db (db\<lparr>dd_policies := ps, dd_attributions := as, dd_distributors := ds\<rparr>)"

lemma enqueue_only_frames:
  "consume_refund_settlement revent db = Inr db' \<Longrightarrow> same_books db db'"
  "consume_refund_exposure xevent db = Inr db' \<Longrightarrow> same_books db db'"
  by (auto simp: consume_refund_settlement_def consume_refund_exposure_def split: if_splits dest: enqueue_recheck_frame)

lemma commission_step_moves: "commission_step db db' \<Longrightarrow> moves db db'"
proof (induction rule: commission_step.induct)
  case (Elsewhere db ps as ds)
  show ?case by (rule same_books_moves) (simp add: same_books_def settlement_amounts_def)
qed (auto intro: consume_paid_event_moves run_refund_recheck_moves prepare_settlement_moves apply_reconciliation_moves
    mark_commission_exception_moves set_distributor_moves record_recovery_moves record_merchant_liability_moves
    record_reconciliation_moves same_books_moves enqueue_only_frames record_deadline_warning_frame
    record_cancelled_unfreeze_failure_frame unfreeze_frame)

lemma books_ok_empty: "books_ok empty_commission_db" "book i empty_commission_db = empty_book"
  by (simp_all add: books_ok_def empty_commission_db_def book_def commission_row_def adjustment_sum_def settlement_amounts_def
      empty_book_def book_inv_def)

interpretation ledger: data_refinement books_ok commission_step book book_step
  by unfold_locales (auto dest: commission_step_moves simp: moves_def)

section \<open>The worker's call\<close>

text \<open>A call is a sequence of steps whatever it returns.\<close>

definition stepped :: "commission_db \<Rightarrow> job_outcome \<times> commission_db \<Rightarrow> bool" where
  "stepped db r \<longleftrightarrow> commission_step\<^sup>*\<^sup>* db (snd r)"

lemma stepped_here [simp]: "stepped db (out, db)"
  by (simp add: stepped_def)

lemma stepped_after: "commission_step db db1 \<Longrightarrow> stepped db1 r \<Longrightarrow> stepped db r"
  unfolding stepped_def by (rule converse_rtranclp_into_rtranclp)

lemma stepped_one: "commission_step db db1 \<Longrightarrow> stepped db (out, db1)"
  by (simp add: stepped_after)

lemma stepped_finish: "(\<And>db1. r = Inr db1 \<Longrightarrow> commission_step db db1) \<Longrightarrow> stepped db (finish r db)"
  by (cases r) (simp_all add: finish_def stepped_one)

lemma release_from_stepped: "stepped db (release_from env value stl payment_ref db)"
proof (cases "unfreeze_remaining env (unfreeze_request_for (com_id (scx_commission value)) payment_ref) db")
  case (Inr x)
  obtain u db1 where x: "x = (u, db1)" by fastforce
  have "stepped db1 (release_from env value stl payment_ref db)"
    unfolding release_from_def Let_def Inr x
    by (cases "cev_reconcile_unfreeze env (ufz_reference u)")
      (auto intro!: stepped_finish intro: commission_step.Release_Failed commission_step.Exception_Marked)
  with Inr x show ?thesis by (blast intro: stepped_after commission_step.Rest_Released)
qed (simp add: release_from_def)

lemma release_remaining_stepped: "stepped db (release_remaining env value stl db)"
  by (cases "cev_preflight_state env (com_order_id (scx_commission value))")
    (simp_all add: release_remaining_def release_from_stepped)

lemma reconcile_and_release_stepped: "stepped db (reconcile_and_release env i instruction db)"
proof (cases "apply_reconciliation env i instruction db")
  case (Inr x)
  obtain out db1 where x: "x = (out, db1)" by fastforce
  have "stepped db1 (reconcile_and_release env i instruction db)"
    unfolding reconcile_and_release_def Inr x
    by (cases out) (auto split: sum.splits simp: release_remaining_stepped)
  with Inr x show ?thesis by (blast intro: stepped_after commission_step.Instruction_Reconciled)
qed (simp add: reconcile_and_release_def)

lemma due_check_after_warning:
  assumes "load_settlement i db = Inr (value, stl)" "warn_first env i value stl db = Inr db1"
  shows "stepped db1 (run_due_check env i db)"
proof -
  have prepared: "stepped db1 (case prepare_settlement env i state db1 of Inl e \<Rightarrow> (Job_Failed e, db1)
      | Inr (retry, db2) \<Rightarrow> (Job_Snooze (if retry then minute else settlement_query_delay), db2))" for state
    by (auto split: sum.splits intro: stepped_one commission_step.Settlement_Prepared)
  have "1 \<le> i"
    using assms(1) by (auto simp: load_settlement_def read_settlement_context_def split: if_splits)
  then show ?thesis
    using assms prepared
    by (simp add: run_due_check_def Let_def release_remaining_stepped reconcile_and_release_stepped split: sum.split)
qed

lemma run_due_check_stepped: "stepped db (run_due_check env i db)"
proof (cases "load_settlement i db")
  case (Inr x)
  obtain v s where x: "x = (v, s)" by fastforce
  show ?thesis
  proof (cases "warn_first env i v s db")
    case (Inr db1)
    then have "db1 = db \<or> commission_step db db1"
      by (auto simp: warn_first_def split: option.splits if_splits intro: commission_step.Deadline_Warned)
    with due_check_after_warning [OF \<open>load_settlement i db = Inr x\<close> [unfolded x] Inr] show ?thesis
      by (auto intro: stepped_after)
  qed (use Inr x in \<open>simp add: run_due_check_def\<close>)
qed (simp add: run_due_check_def)

end
