(* ===== verification/Commission_Gates.thy ===== *)
theory Commission_Gates
  imports Commission_Steps
begin

text \<open>
  What must hold when \<open>prepareSettlement\<close> hands a split to Payment: every other branch of the due
  check accepts no split (\<open>no_request\<close>), and the branch that does has passed all its gates.
\<close>

section \<open>What a submitted split rests on\<close>

text \<open>Everything but the submission leaves the accepted requests and the distributors alone.\<close>

definition no_request :: "commission_db \<Rightarrow> commission_db \<Rightarrow> bool" where
  "no_request db db' \<longleftrightarrow> dd_requests db' = dd_requests db \<and> dd_distributors db' = dd_distributors db"

named_theorems quiet \<open>statements that accept no split\<close>

lemma no_request_refl [simp]: "no_request db db"
  by (simp add: no_request_def)

lemma no_request_trans: "no_request db db1 \<Longrightarrow> no_request db1 db2 \<Longrightarrow> no_request db db2"
  by (simp add: no_request_def)

lemma append_audit_quiet [quiet]: "append_audit e a i who at db = Inr db' \<Longrightarrow> no_request db db'"
  by (auto simp: append_audit_def no_request_def split: if_splits)

lemma append_outbox_quiet [quiet]: "append_outbox e k i at db = Inr db' \<Longrightarrow> no_request db db'"
  by (auto simp: append_outbox_def no_request_def split: if_splits)

lemma audit_within_quiet [quiet]: "audit_within e a i who at db = Inr db' \<Longrightarrow> no_request db db'"
  by (auto simp: audit_within_def elim!: and_then_InrE dest!: append_audit_quiet append_outbox_quiet intro: no_request_trans)

lemma insert_exception_quiet [quiet]: "insert_exception e db = Inr (x, db') \<Longrightarrow> no_request db db'"
  by (auto simp: insert_exception_def Let_def no_request_def split: if_splits elim!: and_then_InrE)

lemma append_adjustment_quiet [quiet]: "append_adjustment a db = Inr db' \<Longrightarrow> no_request db db'"
  by (auto simp: append_adjustment_def no_request_def split: if_splits)

lemma update_commission_quiet [quiet]: "update_commission c v db = Inr (r, db') \<Longrightarrow> no_request db db'"
  by (auto simp: update_commission_def resolve_deadline_warning_def resolve_exceptions_def Let_def no_request_def
      split: if_splits option.splits elim!: and_then_InrE)

lemma open_and_audit_quiet:
  assumes "and_then (insert_exception e db) (\<lambda>(x, db1). audit_within ev ag (exn_id x) who at db1) = Inr db'"
  shows "no_request db db'"
  using assms by (auto elim!: and_then_InrE dest!: quiet intro: no_request_trans)

lemma record_deadline_warning_within_quiet:
  "record_deadline_warning_within c stl deadline evidence now db = Inr db' \<Longrightarrow> no_request db db'"
  unfolding record_deadline_warning_within_def
  by (auto split: sum.splits if_splits intro: open_and_audit_quiet)

lemma hold_within_quiet: "hold_within c reason now db = Inr db' \<Longrightarrow> no_request db db'"
  by (auto simp: hold_within_def split: if_splits elim!: and_then_InrE dest!: quiet intro: no_request_trans)

lemma ensure_exception_quiet: "ensure_exception c reason now db = Inr (n, db') \<Longrightarrow> no_request db db'"
  by (auto simp: ensure_exception_def split: if_splits elim!: and_then_InrE dest: update_commission_quiet)

lemma mark_exception_within_quiet:
  assumes "mark_exception_within c stl kind reason evidence now db = Inr db'"
  shows "no_request db db'"
proof -
  from assms obtain n db1 where e: "ensure_exception c reason now db = Inr (n, db1)"
    and f: "(case find_exception_by_evidence (com_id c) kind evidence db1 of Inr _ \<Rightarrow> Inr db1
       | Inl e \<Rightarrow> if e \<noteq> Dist_Not_Found then Inl e
           else (case find_open_exception (com_id c) kind db1 of
             Inr _ \<Rightarrow> Inr db1
           | Inl e \<Rightarrow> if e \<noteq> Dist_Not_Found then Inl e
               else let unpaid = max (wrap64 (com_payable_minor n - com_paid_minor n)) 0 in
                 and_then (insert_exception (open_exception (com_id c) (settlement_id stl) kind unpaid (com_paid_minor n)
                             unpaid reason evidence worker_actor now) db1) (\<lambda>(x, db2).
                   audit_within ''distribution.exception_opened.v1'' ''exception'' (exn_id x) worker_actor now db2))) = Inr db'"
    by (auto simp: mark_exception_within_def and_then_eq_Inr)
  from f have "no_request db1 db'"
    by (auto simp: Let_def split: sum.splits if_splits intro: open_and_audit_quiet)
  with ensure_exception_quiet [OF e] show ?thesis by (rule no_request_trans)
qed

lemma revoke_within_quiet: "revoke_within value c now db = Inr db' \<Longrightarrow> no_request db db'"
  by (auto simp: revoke_within_def elim!: and_then_InrE dest!: quiet intro: no_request_trans)

lemma resume_if_held_quiet:
  "resume_if_held c now db = Inr (d, db') \<Longrightarrow> no_request db db' \<and> com_payable_minor d = com_payable_minor c"
proof -
  assume r: "resume_if_held c now db = Inr (d, db')"
  show ?thesis
  proof (cases "com_status c = ComHeld")
    case True
    with r obtain n where n: "resume c (com_version c) now = Inr n"
      and u: "update_commission n (wrap64 (com_version n - 1)) db = Inr (d, db')"
      by (auto simp: resume_if_held_def and_then_eq_Inr)
    from update_commission_row [OF u] obtain old where "d = written_commission n old" by blast
    with n update_commission_quiet [OF u] show ?thesis by (auto simp: resume_def split: if_splits)
  qed (use r in \<open>simp add: resume_if_held_def\<close>)
qed

lemma reprice_within_quiet:
  assumes row: "commission_row i db = Some c" and r: "reprice_within c v state now db = Inr (d, db')"
  shows "no_request db db' \<and> commission_row i db' = Some d \<and> com_distributor_id d = com_distributor_id c
    \<and> calculate_commission (wrap64 (com_original_paid_minor c - dps_successful_refund state)) (com_rate c) = Inr (com_payable_minor d)"
proof -
  from r obtain n db1 where n: "reprice c (com_version c) (com_original_paid_minor c) (dps_successful_refund state) now = Inr n"
    and a: "(if com_payable_minor n \<noteq> com_payable_minor c
                 then append_adjustment \<lparr>adj_commission_id = com_id c, adj_kind = Adj_Buyer_Refund,
                        adj_delta = wrap64 (com_payable_minor n - com_payable_minor c),
                        adj_resulting = com_payable_minor n, adj_reason = ''buyer_refund'',
                        adj_source = dps_payment_ref state, adj_at = now\<rparr> db
                 else Inr db) = Inr db1" and u: "update_commission n v db1 = Inr (d, db')"
    unfolding reprice_within_def by (auto simp: and_then_eq_Inr)
  have "db1 = db \<or> (\<exists>x. append_adjustment x db = Inr db1)" using a by (auto split: if_splits)
  then have q: "no_request db db1" and rows: "commission_row i db1 = commission_row i db"
    using append_adjustment_quiet append_adjustment_effect by (auto simp: add_adjustment_def)
  have id: "com_id n = i"
    using commission_exec_id [of "Reprice (com_version c) (com_original_paid_minor c) (dps_successful_refund state) now" c n] n
      commission_row_id [OF row] by simp
  note u' = update_commission_known [OF u _ id, unfolded rows, OF row]
  have "calculate_commission (wrap64 (com_original_paid_minor c - dps_successful_refund state)) (com_rate c) = Inr (com_payable_minor n)"
    using n by (auto simp: reprice_def Let_def touch_def split: if_splits elim!: and_then_InrE)
  with q update_commission_quiet [OF u] u'(1,2) show ?thesis by (auto simp: put_row_def intro: no_request_trans)
qed

lemma submit_settlement_request:
  assumes "submit_settlement env value c customer state now db = Inr db'"
  shows "dd_requests db' = dd_requests db @ [sharing_request_for value c customer state] \<and> 1 \<le> com_payable_minor c"
proof -
  from assms obtain d S p cr db1 x db2 y db3 z db4 where d: "begin_settlement c (com_version c) now = Inr d"
    and ins: "insert_settlement S db = Inr ((p, cr), db1)"
    and acc: "accept_profit_sharing env (sharing_request_for value d customer state) db1 = Inr (x, db2)"
    and st: "accept_settlement y (stl_version p) db2 = Inr (z, db3)"
    and u: "\<exists>r. update_commission d (com_version c) db3 = Inr (r, db4)"
    and f: "audit_within ''distribution.settlement_accepted.v1'' ''settlement'' (stl_id p) worker_actor now db4 = Inr db'"
    by (fastforce simp: submit_settlement_def and_then_eq_Inr)
  have "dd_requests db1 = dd_requests db"
    using ins by (auto simp: insert_settlement_def Let_def split: if_splits elim!: and_then_InrE)
  moreover have "dd_requests db2 = dd_requests db1 @ [sharing_request_for value d customer state]"
    using acc by (auto simp: accept_profit_sharing_def elim!: and_then_InrE)
  moreover have "dd_requests db' = dd_requests db2"
    using accept_settlement_frame [OF st] u audit_within_quiet [OF f] update_commission_quiet
    by (auto simp: same_books_def no_request_def)
  moreover have "sharing_request_for value d customer state = sharing_request_for value c customer state" "1 \<le> com_payable_minor c"
    using d by (auto simp: begin_settlement_def sharing_request_for_def touch_def split: if_splits)
  ultimately show ?thesis by simp
qed

definition settle_gates ::
  "commission_env \<Rightarrow> settlement_context \<Rightarrow> commission \<Rightarrow> payment_state \<Rightarrow> time \<Rightarrow> commission_db \<Rightarrow> commission_db \<Rightarrow> bool" where
  "settle_gates env value c state now db db' \<longleftrightarrow>
     (\<exists>d rc q. read_distributor (com_distributor_id c) db = Inr (d, rc)
        \<and> check_within env (dst_customer_id d) (scx_product_id value) (scx_product_type value) = Inr q \<and> ql_state q = QualEligible
        \<and> cev_receiver_ready env (dst_customer_id d) (rcv_app_id rc) = Inr True
        \<and> dps_split_capable state \<and> now < dps_deadline state
        \<and> 1 \<le> com_payable_minor c \<and> com_payable_minor c \<le> dps_available state
        \<and> dd_requests db' = dd_requests db @ [sharing_request_for value c (dst_customer_id d) state])"

lemma check_within_state:
  assumes "check_within env customer product kind = Inr q"
  shows "ql_state q \<in> {QualEligible, QualUnavailable, QualSuspended, QualConflict, QualIneligible}"
  using assms
  by (auto simp: check_within_def Let_def unavailable_qualification_def qualification_of_def tally_decision_def
      split: if_splits option.splits)

lemma settle_within_gates:
  assumes row: "commission_row i db = Some c" and s: "settle_within env value c state now db = Inr db'"
  shows "no_request db db' \<or> settle_gates env value c state now db db'"
proof -
  from s obtain d rc where g: "read_distributor (com_distributor_id c) db = Inr (d, rc)"
    by (auto simp: settle_within_def and_then_eq_Inr)
  define submit where "submit = and_then (resume_if_held c now db) (\<lambda>(c', db1).
      submit_settlement env value c' (dst_customer_id d) state now db1)"
  from s g have r: "(case check_within env (dst_customer_id d) (scx_product_id value) (scx_product_type value) of
         Inl _ \<Rightarrow> hold_within c ''qualification_unavailable'' now db
       | Inr q \<Rightarrow>
           if ql_state q = QualUnavailable \<or> ql_state q = QualSuspended \<or> ql_state q = QualConflict
           then hold_within c ''qualification_unavailable'' now db
           else if ql_state q = QualIneligible then revoke_within value c now db
           else if cev_receiver_ready env (dst_customer_id d) (rcv_app_id rc) \<noteq> Inr True
           then hold_within c ''receiver_unavailable'' now db
           else if \<not> dps_split_capable state \<or> is_zero (dps_deadline state) \<or> \<not> now < dps_deadline state
           then mark_exception_within c None Ex_Settlement_Deadline ''split_deadline_unavailable'' (dps_payment_ref state) now db
           else if dps_available state < com_payable_minor c then hold_within c ''split_funds_unavailable'' now db
           else submit) = Inr db'"
    unfolding submit_def by (simp add: settle_within_def)
  have req: "1 \<le> com_payable_minor c \<and> dd_requests db' = dd_requests db @ [sharing_request_for value c (dst_customer_id d) state]"
    if "submit = Inr db'"
  proof -
    from that obtain c' db1 where h: "resume_if_held c now db = Inr (c', db1)"
      and b: "submit_settlement env value c' (dst_customer_id d) state now db1 = Inr db'"
      unfolding submit_def by (auto elim!: and_then_InrE)
    have "com_id c' = com_id c" using resume_if_held_moves(2) [OF row h] commission_row_id row by metis
    with submit_settlement_request [OF b] resume_if_held_quiet [OF h] show ?thesis
      by (simp add: sharing_request_for_def no_request_def)
  qed
  note ways = hold_within_quiet revoke_within_quiet mark_exception_within_quiet
  show ?thesis
  proof (cases "check_within env (dst_customer_id d) (scx_product_id value) (scx_product_type value)")
    case (Inr q)
    note all = check_within_state [OF Inr]
    from r Inr have "no_request db db' \<or> submit = Inr db' \<and> ql_state q = QualEligible
        \<and> cev_receiver_ready env (dst_customer_id d) (rcv_app_id rc) = Inr True
        \<and> dps_split_capable state \<and> now < dps_deadline state \<and> com_payable_minor c \<le> dps_available state"
      using all by (auto dest: ways split: if_splits)
    with g Inr req show ?thesis unfolding settle_gates_def by blast
  next
    case (Inl x)
    with r show ?thesis by (auto dest: ways)
  qed
qed

lemma prepare_settlement_gates:
  assumes p: "prepare_settlement env i state db = Inr (retry, db')" and new: "dd_requests db' \<noteq> dd_requests db"
  shows "\<exists>ctx c. read_settlement_context i db = Inr ctx \<and> commission_row i db = Some (scx_commission ctx)
    \<and> com_due_at (scx_commission ctx) \<le> cev_now env
    \<and> dps_confirmed_paid state \<and> dps_payment_ref state \<noteq> [] \<and> \<not> dps_refund_exposure state
    \<and> com_id c = i \<and> com_distributor_id c = com_distributor_id (scx_commission ctx)
    \<and> (if 0 < dps_successful_refund state
        then calculate_commission (wrap64 (com_original_paid_minor (scx_commission ctx) - dps_successful_refund state))
               (com_rate (scx_commission ctx)) = Inr (com_payable_minor c)
        else c = scx_commission ctx)
    \<and> settle_gates env ctx c state (cev_now env) db db'"
proof -
  from p obtain ctx where v: "read_settlement_context i db = Inr ctx"
    by (auto simp: prepare_settlement_def Let_def and_then_eq_Inr)
  define c where "c = scx_commission ctx"
  note row = read_settlement_context_row [OF v, folded c_def]
  define now where "now = utc (cev_now env)"
  define priced where "priced db1 = and_then (reprice_within c (com_version c) state now db1) (\<lambda>(c', db2).
               if com_status c' = ComCancelled
               then audit_within ''distribution.commission_cancelled.v1'' ''commission'' (com_id c') worker_actor now db2
               else settle_within env ctx c' state now db2)" for db1
  define rest where "rest db1 = (if \<not> dps_confirmed_paid state \<or> dps_payment_ref state = [] \<or> dps_refund_exposure state
             then hold_within c ''payment_or_refund_pending'' now db1
             else if 0 < dps_successful_refund state then priced db1
             else settle_within env ctx c state now db1)" for db1
  have e: "(if com_status c \<noteq> ComPending \<and> com_status c \<noteq> ComHeld then Inr (False, db)
      else and_then (record_deadline_warning_within c None (dps_deadline state) (dps_payment_ref state) now db) (\<lambda>db1.
        if now < com_due_at c then Inr (True, db1) else and_then (rest db1) (\<lambda>db2. Inr (False, db2)))) = Inr (retry, db')"
    using p unfolding prepare_settlement_def Let_def v and_then_simps rest_def priced_def c_def now_def .
  with new obtain db1 where w: "record_deadline_warning_within c None (dps_deadline state) (dps_payment_ref state) now db = Inr db1"
    and r: "db' = db1 \<or> com_due_at c \<le> now \<and> rest db1 = Inr db'"
    by (auto simp: and_then_eq_Inr split: if_splits)
  note q = record_deadline_warning_within_quiet [OF w]
  have row1: "commission_row i db1 = Some c" using row(1) same_books_row [OF record_deadline_warning_within_frame [OF w]] by simp
  have moved: "settle_gates env ctx d state now db db'" if "settle_gates env ctx d state now db2 db'" "no_request db1 db2" for d db2
    using no_request_trans [OF q that(2)] that(1) by (simp add: settle_gates_def no_request_def read_distributor_def)
  from r new q have r: "com_due_at c \<le> now" "rest db1 = Inr db'" by (auto simp: no_request_def)
  have n1: "\<not> no_request db1 db'" using q new by (simp add: no_request_def)
  with r(2) have ok: "dps_confirmed_paid state" "dps_payment_ref state \<noteq> []" "\<not> dps_refund_exposure state"
    and s: "if 0 < dps_successful_refund state then priced db1 = Inr db' else settle_within env ctx c state now db1 = Inr db'"
    unfolding rest_def by (auto dest: hold_within_quiet split: if_splits)
  have "\<exists>d. com_id d = i \<and> com_distributor_id d = com_distributor_id c
    \<and> (if 0 < dps_successful_refund state
        then calculate_commission (wrap64 (com_original_paid_minor c - dps_successful_refund state)) (com_rate c) = Inr (com_payable_minor d)
        else d = c) \<and> settle_gates env ctx d state now db db'"
  proof (cases "0 < dps_successful_refund state")
    case True
    with s obtain d db2 where a: "reprice_within c (com_version c) state now db1 = Inr (d, db2)"
      and b: "(if com_status d = ComCancelled
               then audit_within ''distribution.commission_cancelled.v1'' ''commission'' (com_id d) worker_actor now db2
               else settle_within env ctx d state now db2) = Inr db'"
      unfolding priced_def by (auto elim!: and_then_InrE)
    note rq = reprice_within_quiet [OF row1 a]
    from b have "no_request db2 db' \<or> settle_gates env ctx d state now db2 db'"
      using rq settle_within_gates audit_within_quiet by (auto split: if_splits)
    with n1 rq have "settle_gates env ctx d state now db2 db'" using no_request_trans by blast
    with moved rq have "settle_gates env ctx d state now db db'" "com_id d = i" using commission_row_id by blast+
    with rq True show ?thesis by auto
  next
    case False
    with s have "settle_within env ctx c state now db1 = Inr db'" by simp
    with settle_within_gates [OF row1 this] n1 have "settle_gates env ctx c state now db1 db'" by blast
    with moved False row(2) show ?thesis by auto
  qed
  with v row r ok show ?thesis by (auto simp: c_def now_def)
qed

end
