(* ===== verification/Commission_Sample.thy ===== *)
theory Commission_Sample
  imports Commission_Gates
begin

text \<open>
  A run of the services on concrete tables: an attributed order of 1200 is paid, its commission
  of 180 falls due, the split is accepted by Payment and confirmed. The properties of the
  services are applied to the databases of this run.
\<close>

section \<open>A sample run\<close>

definition sample_event_paid :: paid_event where
  "sample_event_paid = \<lparr>pe_id = 9, pe_order_id = 7, pe_order_version = 2, pe_outbox_id = 5, pe_checkout_product_id = 0,
     pe_checkout_gross_minor = 0, pe_checkout_payable_minor = 0, pe_checkout_product_type = [],
     pe_activity_digest = [], pe_promotion_digest = [], pe_occurred_at = 100, pe_source_digest = ''digest'',
     pe_order = snapshot sample_paid\<rparr>"

definition sample_tables :: commission_db where
  "sample_tables = empty_commission_db\<lparr>
     dd_policies := [\<lparr>plr_id = 8, plr_policy = \<lparr>pol_product_id = 5, pol_product_type = TypeStandard, pol_enabled = True,
       pol_rate = 1500, pol_wait_days = 7, pol_version = 1, pol_created_at = 10, pol_updated_at = 10\<rparr>\<rparr>],
     dd_attributions := [\<lparr>atr_attribution = sample_attribution, atr_policy_id = 8\<rparr>],
     dd_distributors := [\<lparr>dsr_distributor = \<lparr>dst_id = 2, dst_customer_id = 21, dst_public_no = ''D00002'',
       dst_agreement_version = ''v1'', dst_enabled = True, dst_registered_at = 20, dst_version = 1\<rparr>,
       dsr_receiver = \<lparr>rcv_ready = True, rcv_reason = [], rcv_reference = ''R1'', rcv_app_id = ''wx1'', rcv_checked_at = 20\<rparr>\<rparr>]\<rparr>"

definition sample_payment_state :: payment_state where
  "sample_payment_state = \<lparr>dps_payment_ref = ''payment-1'', dps_confirmed_paid = True, dps_split_capable = True,
     dps_refund_exposure = False, dps_deadline = sample_due + 10 * 24 * hour, dps_original = 1299, dps_available = 389,
     dps_payer = 21, dps_beneficiary = 21, dps_successful_refund = 0, dps_requested_refund = 0, dps_processing_refund = 0,
     dps_unknown_refund = 0, dps_confirmed_at = 90, dps_updated_at = 90\<rparr>"

definition sample_instruction :: split_instruction where
  "sample_instruction = \<lparr>shi_reference = ''psinst_1'', shi_settlement_ref = ''dstl_commission_1'', shi_payment_ref = ''payment-1'',
     shi_state = ''accepted'', shi_effect_ref = ''effect-1'', shi_failure_class = [], shi_amount = 180, shi_currency = ''CNY'',
     shi_confirmed_success = True, shi_outcome_known = True, shi_deadline = sample_due + 10 * 24 * hour, shi_version = 1,
     shi_updated_at = 90\<rparr>"

definition sample_purchase :: purchase_evidence where
  "sample_purchase = \<lparr>pue_order_id = 3, pue_product_id = 5, pue_item_line = 1, pue_payer = 21, pue_beneficiary = 21,
     pue_item_paid = 1299, pue_confirmed_at = 90, pue_origin = ''native''\<rparr>"

definition sample_env :: "time \<Rightarrow> commission_env" where
  "sample_env now = \<lparr>cev_now = now, cev_lineage = (\<lambda>_. Some [21]), cev_purchases = (\<lambda>_ _ _. Some [sample_purchase]),
     cev_refund_evidence = (\<lambda>_. Inr []), cev_payment_state = (\<lambda>_. Inr sample_payment_state),
     cev_preflight_state = (\<lambda>_. Inr sample_payment_state), cev_receiver_ready = (\<lambda>_ _. Inr True),
     cev_accept = (\<lambda>_. Inr sample_instruction), cev_reconcile = (\<lambda>_. Inr sample_instruction),
     cev_unfreeze = (\<lambda>_. Inl Dist_Nothing_To_Unfreeze), cev_reconcile_unfreeze = (\<lambda>_. Inl Dist_Unavailable)\<rparr>"


definition sample_row :: commission where
  "sample_row = sample_commission\<lparr>com_id := 1, com_original_paid_minor := 1200, com_initial_minor := 180, com_payable_minor := 180\<rparr>"

definition sample_opened :: commission_db where
  "sample_opened = sample_tables\<lparr>dd_commissions := [sample_row], dd_next_commission := 2,
     dd_audit := [\<lparr>dau_event = ''distribution.commission_created.v1'', dau_aggregate = ''commission'', dau_aggregate_id = 1,
                   dau_actor = ''order-paid-event:9'', dau_at = 100\<rparr>],
     dd_outbox := [\<lparr>dob_event = ''distribution.commission_created.v1'', dob_key = ''distribution.commission:paid-event:9'',
                    dob_aggregate_id = 1, dob_at = 100\<rparr>],
     dd_due_tasks := [(1, sample_due)]\<rparr>"

definition sample_context :: settlement_context where
  "sample_context = \<lparr>scx_commission = sample_row, scx_attribution = sample_attribution, scx_product_id = 5,
     scx_product_type = TypeStandard\<rparr>"

definition sample_submitting :: commission where
  "sample_submitting = sample_row\<lparr>com_status := ComSettling, com_version := 2, com_updated_at := sample_due + 1\<rparr>"

definition sample_planned :: settlement where
  "sample_planned = \<lparr>stl_id = 1, stl_commission_id = 1, stl_reference = ''dstl_commission_1'', stl_payment_ref = ''payment-1'',
     stl_instruction_ref = [], stl_effect_ref = [], stl_state = Stl_Planned, stl_amount = 180, stl_currency = ''CNY'',
     stl_deadline = Some (sample_due + 10 * 24 * hour), stl_version = 1, stl_created_at = sample_due + 1,
     stl_updated_at = sample_due + 1\<rparr>"

definition sample_accepted :: settlement where
  "sample_accepted = sample_planned\<lparr>stl_instruction_ref := ''psinst_1'', stl_effect_ref := ''effect-1'',
     stl_state := Stl_Accepted, stl_version := 2\<rparr>"

definition sample_split :: sharing_request where
  "sample_split = sharing_request_for sample_context sample_row 21 sample_payment_state"

definition sample_settling :: commission_db where
  "sample_settling = sample_opened\<lparr>dd_commissions := [sample_submitting], dd_settlements := [sample_accepted],
     dd_next_settlement := 2, dd_requests := [sample_split],
     dd_audit := dd_audit sample_opened @ [\<lparr>dau_event = ''distribution.settlement_accepted.v1'', dau_aggregate = ''settlement'',
       dau_aggregate_id = 1, dau_actor = worker_actor, dau_at = sample_due + 1\<rparr>],
     dd_outbox := dd_outbox sample_opened @ [\<lparr>dob_event = ''distribution.settlement_accepted.v1'',
       dob_key = ''distribution.settlement_accepted.v1:1:-6794759778871345051'', dob_aggregate_id = 1, dob_at = sample_due + 1\<rparr>]\<rparr>"


lemma sample_digits: "format_int 1 = ''1''" "format_int 3 = ''3''" "format_int 9 = ''9''"
  "format_int (unix_nano (sample_due + 1)) = ''-6794759778871345051''" "format_int (unix_nano (sample_due + 2)) = ''-6794759778871345050''"
proof -
  have d: "digit_char 0 = CHR ''0''" "digit_char 1 = CHR ''1''" "digit_char (Suc 0) = CHR ''1''" "digit_char 3 = CHR ''3''"
    "digit_char 4 = CHR ''4''" "digit_char 5 = CHR ''5''" "digit_char 6 = CHR ''6''" "digit_char 7 = CHR ''7''"
    "digit_char 8 = CHR ''8''" "digit_char 9 = CHR ''9''"
    by code_simp+
  have u: "unix_nano (sample_due + 1) = -6794759778871345051" "unix_nano (sample_due + 2) = -6794759778871345050"
    by (simp_all add: unix_nano_def unix_epoch_def sample_due_def wrap64_def nanoseconds_per_second_def)
  show "format_int 1 = ''1''" "format_int 3 = ''3''" "format_int 9 = ''9''"
    "format_int (unix_nano (sample_due + 1)) = ''-6794759778871345051''" "format_int (unix_nano (sample_due + 2)) = ''-6794759778871345050''"
    unfolding u by (simp_all add: format_int_def show_nat.simps d)
qed

lemmas sample_tables_facts = sample_tables_def empty_commission_db_def sample_attribution_def valid_attribution_def
  attribution_facts_valid_def valid_product_type_def valid_commission_status_def ascii_text limits

lemma sample_qualified:
  "t \<noteq> 0 \<Longrightarrow> check_within (sample_env t) 21 5 TypeStandard = Inr (qualification_of QualEligible ''valid_paid_purchase'' ''order:3:item:1'' t)"
  by (simp add: check_within_def sample_env_def sample_purchase_def tally_purchase_def malformed_purchase_def sample_payment_state_def
    refund_in_flight_def purchase_reference_def tally_decision_def tally_start_def sample_digits ascii_text valid_product_type_def)

section \<open>The order is paid\<close>

lemma sample_opens: "consume_paid_event (sample_env 100) sample_event_paid sample_tables = Inr sample_opened"
proof -
  have v: "valid_paid_event sample_event_paid"
    by (simp add: valid_paid_event_def valid_order_fact_def sample_event_paid_def snapshot_def sample_paid_def sample_order_def
        numeral_eq_Suc)
  have r: "read_attribution_context 7 1 sample_tables = Inr \<lparr>acx_attribution = sample_attribution, acx_customer = 21, acx_product_id = 5,
        acx_product_type = TypeStandard\<rparr>"
    by (simp add: read_attribution_context_def sample_tables_facts)
  have c: "new_commission sample_attribution 1200 100 = Inr (sample_row\<lparr>com_id := 0\<rparr>)"
   by (simp add: new_commission_def sample_tables_facts calculate_commission_def sample_row_def sample_commission_def duration_defs)
  have p: "paid_line_minor 1 (snap_items (pe_order sample_event_paid)) = 1200"
    by (simp add: paid_line_minor_def sample_event_paid_def snapshot_def sample_paid_def sample_order_def sample_item_def)
  have s: "store_new_commission sample_event_paid (sample_row\<lparr>com_id := 0\<rparr>) sample_tables = Inr sample_opened"
    by (simp add: store_new_commission_def sample_event_paid_def insert_commission_def sample_row_def sample_commission_def commission_insert_ok_def
       sample_tables_facts commission_check_def scan_commission_def Let_def rune_count_def
       enqueue_commission_due_def append_audit_def append_outbox_def sample_digits btrimmed_def sample_opened_def sample_due_def)
  have q: "qualify_new_commission (sample_row\<lparr>com_id := 0\<rparr>) QualEligible 100 = Inr (sample_row\<lparr>com_id := 0\<rparr>)"
    by (simp add: qualify_new_commission_def)
  have e: "pe_order_id sample_event_paid = 7" "pe_occurred_at sample_event_paid = 100" "snap_amount (pe_order sample_event_paid) = \<lparr>amount_minor = 1200, currency = ''CNY''\<rparr>"
    "at_order_id sample_attribution = 7" "at_order_item_line sample_attribution = 1"
    by (simp_all add: sample_event_paid_def snapshot_def sample_paid_def sample_order_def sample_attribution_def)
  show ?thesis
    using sample_qualified [of 100] by (simp add: consume_paid_event_def v e r p c q s qualification_of_def or_conflict_def)
qed

section \<open>The split is submitted\<close>

lemma sample_inserts:
  "insert_settlement (sample_planned\<lparr>stl_id := 0\<rparr>) sample_opened = Inr ((sample_planned, True),
     sample_opened\<lparr>dd_settlements := [sample_planned], dd_next_settlement := 2\<rparr>)"
  by (simp add: insert_settlement_def sample_planned_def sample_opened_def sample_tables_def empty_commission_db_def ascii_text
    scan_settlement_def sample_due_def Let_def rune_count_def)

lemma sample_accepts:
  "accept_settlement sample_accepted 1 (sample_opened\<lparr>dd_settlements := [sample_planned], dd_next_settlement := 2, dd_requests := rs\<rparr>) =
   Inr (sample_accepted, sample_opened\<lparr>dd_settlements := [sample_accepted], dd_next_settlement := 2, dd_requests := rs\<rparr>)"
  by code_simp

lemma sample_updates:
  "update_commission sample_submitting 1 (sample_opened\<lparr>dd_settlements := [sample_accepted], dd_next_settlement := 2, dd_requests := rs\<rparr>) =
   Inr (sample_submitting, sample_opened\<lparr>dd_settlements := [sample_accepted], dd_next_settlement := 2, dd_requests := rs, dd_commissions := [sample_submitting]\<rparr>)"
  by code_simp

lemma sample_reads:
  "read_settlement_context 1 sample_opened = Inr sample_context"
  "read_distributor 2 sample_opened = Inr (dsr_distributor (hd (dd_distributors sample_tables)), dsr_receiver (hd (dd_distributors sample_tables)))"
  by (simp_all add: read_settlement_context_def commission_row_def sample_opened_def joined_def
    sample_row_def sample_commission_def scan_settlement_context_def sample_context_def read_distributor_def
    scan_distributor_def valid_distributor_def valid_receiver_def sample_tables_facts)

lemma sample_begins: "begin_settlement sample_row 1 (sample_due + 1) = Inr sample_submitting"
  "record_deadline_warning_within sample_row None (dps_deadline sample_payment_state) ''payment-1'' (sample_due + 1) sample_opened = Inr sample_opened"
  by code_simp+

lemma sample_audits:
  "audit_within ''distribution.settlement_accepted.v1'' ''settlement'' 1 worker_actor (sample_due + 1)
     (sample_opened\<lparr>dd_settlements := [sample_accepted], dd_next_settlement := 2, dd_requests := [sample_split], dd_commissions := [sample_submitting]\<rparr>)
   = Inr sample_settling"
proof -
  have "sample_due + 1 \<noteq> 0" by (simp add: sample_due_def)
  then show ?thesis
    by (simp add: audit_within_def append_audit_def append_outbox_def sample_digits worker_actor_def btrimmed_def sample_settling_def
      sample_opened_def sample_tables_def empty_commission_db_def rune_count_def ascii_text)
qed

lemma sample_submits: "submit_settlement (sample_env (sample_due + 1)) sample_context sample_row 21 sample_payment_state (sample_due + 1) sample_opened = Inr sample_settling"
proof -
  have v: "com_version sample_row = 1" "com_id sample_row = 1" "com_payable_minor sample_submitting = 180" "settlement_reference 1 = ''dstl_commission_1''"
    by (simp_all add: sample_row_def sample_commission_def sample_submitting_def settlement_reference_def sample_digits)
  have p: "\<lparr>stl_id = 0, stl_commission_id = 1, stl_reference = ''dstl_commission_1'',
                   stl_payment_ref = dps_payment_ref sample_payment_state, stl_instruction_ref = [], stl_effect_ref = [],
                   stl_state = Stl_Planned, stl_amount = 180, stl_currency = ''CNY'',
                   stl_deadline = Some (dps_deadline sample_payment_state), stl_version = 1, stl_created_at = sample_due + 1, stl_updated_at = sample_due + 1\<rparr>
     = sample_planned\<lparr>stl_id := 0\<rparr>"
    by (simp add: sample_planned_def sample_payment_state_def)
  have a: "sample_planned\<lparr>stl_instruction_ref := shi_reference sample_instruction,
                       stl_effect_ref := shi_effect_ref sample_instruction, stl_state := Stl_Accepted,
                       stl_deadline := deadline_pointer (shi_deadline sample_instruction),
                       stl_version := 2, stl_updated_at := sample_due + 1\<rparr> = sample_accepted"
    by (simp add: sample_planned_def sample_accepted_def sample_instruction_def deadline_pointer_def sample_due_def duration_defs next_version_def limits)
  have r: "sharing_request_for sample_context sample_submitting 21 sample_payment_state = sample_split"
    by (simp add: sample_split_def sharing_request_for_def sample_submitting_def)
  have "stl_id sample_planned = 1" "stl_version sample_planned = 1" "cev_accept (sample_env (sample_due + 1)) r = Inr sample_instruction" for r
    by (simp_all add: sample_planned_def sample_env_def)
  moreover have "dd_requests sample_opened = []"
    by (simp add: sample_opened_def sample_tables_def empty_commission_db_def)
  ultimately show ?thesis
    by (simp add: submit_settlement_def sample_begins v p sample_inserts accept_profit_sharing_def r a sample_accepts sample_updates sample_audits
      or_conflict_def)
qed

lemma sample_prepares:
  "prepare_settlement (sample_env (sample_due + 1)) 1 sample_payment_state sample_opened = Inr (False, sample_settling)"
proof -
  have c: "scx_commission sample_context = sample_row" "com_status sample_row = ComPending" "com_distributor_id sample_row = 2"
    "com_due_at sample_row = sample_due" "com_payable_minor sample_row = 180" "scx_product_id sample_context = 5"
    "scx_product_type sample_context = TypeStandard"
    by (simp_all add: sample_context_def sample_row_def sample_commission_def sample_due_def)
  have p: "dps_confirmed_paid sample_payment_state" "dps_payment_ref sample_payment_state = ''payment-1''" "\<not> dps_refund_exposure sample_payment_state"
    "dps_successful_refund sample_payment_state = 0" "dps_split_capable sample_payment_state" "dps_available sample_payment_state = 389"
    "dps_deadline sample_payment_state = sample_due + 10 * 24 * hour"
    by (simp_all add: sample_payment_state_def)
  have e: "cev_now (sample_env t) = t" "cev_receiver_ready (sample_env t) a b = Inr True" for t a b
    by (simp_all add: sample_env_def)
  have d: "dst_customer_id (dsr_distributor (hd (dd_distributors sample_tables))) = 21"
    by (simp add: sample_tables_def)
  have t: "sample_due + 1 \<noteq> 0" "sample_due + 240 * hour \<noteq> 0" "1 < 240 * hour"
    by (simp_all add: sample_due_def duration_defs)
  have q: "check_within (sample_env (sample_due + 1)) 21 5 TypeStandard
      = Inr (qualification_of QualEligible ''valid_paid_purchase'' ''order:3:item:1'' (sample_due + 1))"
    by (rule sample_qualified [OF t(1)])
  have "settle_within (sample_env (sample_due + 1)) sample_context sample_row sample_payment_state (sample_due + 1) sample_opened = Inr sample_settling"
    by (simp add: settle_within_def c sample_reads d q qualification_of_def e p t resume_if_held_def sample_submits del: add_left_cancel)
  then show ?thesis
    using sample_begins(2) by (simp add: prepare_settlement_def Let_def sample_reads c e p)
qed

section \<open>The split is paid\<close>

definition sample_paid_db :: commission_db where
  "sample_paid_db = sample_settling\<lparr>
     dd_commissions := [sample_submitting\<lparr>com_status := ComPaid, com_paid_minor := 180, com_version := 3, com_updated_at := sample_due + 2\<rparr>],
     dd_settlements := [sample_accepted\<lparr>stl_state := Stl_Succeeded, stl_version := 3, stl_updated_at := sample_due + 2\<rparr>],
     dd_audit := dd_audit sample_settling @ [\<lparr>dau_event = ''distribution.settlement_paid.v1'', dau_aggregate = ''commission'',
       dau_aggregate_id = 1, dau_actor = worker_actor, dau_at = sample_due + 2\<rparr>],
     dd_outbox := dd_outbox sample_settling @ [\<lparr>dob_event = ''distribution.settlement_paid.v1'',
       dob_key = ''distribution.settlement_paid.v1:1:-6794759778871345050'', dob_aggregate_id = 1, dob_at = sample_due + 2\<rparr>]\<rparr>"

lemma sample_reconciles:
  "apply_reconciliation (sample_env (sample_due + 2)) 1 sample_instruction sample_settling = Inr (Rec_Finalized, sample_paid_db)"
proof -
  define pre where "pre rs a b = sample_opened\<lparr>dd_commissions := [sample_submitting], dd_settlements := [sample_accepted],
     dd_next_settlement := 2, dd_requests := rs, dd_audit := a, dd_outbox := b\<rparr>" for rs a b
  define mid where "mid rs a b = sample_opened\<lparr>dd_commissions := [sample_submitting\<lparr>com_status := ComPaid, com_paid_minor := 180, com_version := 3,
     com_updated_at := sample_due + 2\<rparr>], dd_settlements := [sample_accepted],
     dd_next_settlement := 2, dd_requests := rs, dd_audit := a, dd_outbox := b\<rparr>" for rs a b
  have r: "read_settlement_context 1 (pre rs a b) = Inr (sample_context\<lparr>scx_commission := sample_submitting\<rparr>)" for rs a b
    by (simp add: read_settlement_context_def commission_row_def sample_opened_def joined_def pre_def
      sample_submitting_def sample_row_def sample_commission_def scan_settlement_context_def sample_context_def sample_tables_facts)
  have s: "read_latest_settlement 1 (pre rs a b) = Inr sample_accepted" for rs a b unfolding pre_def by code_simp
  have c: "confirm_paid_within sample_submitting sample_instruction (sample_due + 2) (pre rs a b) = Inr (mid rs a b)" for rs a b
    unfolding pre_def mid_def by code_simp
  have u: "put_settlement_state sample_accepted Stl_Succeeded sample_instruction (sample_due + 2) (mid rs a b)
     = Inr ((mid rs a b)\<lparr>dd_settlements := [sample_accepted\<lparr>stl_state := Stl_Succeeded, stl_version := 3, stl_updated_at := sample_due + 2\<rparr>]\<rparr>)" for rs a b
    unfolding mid_def by code_simp
  have p: "sample_settling = pre [sample_split] (dd_audit sample_settling) (dd_outbox sample_settling)"
    by (simp add: sample_settling_def pre_def)
  have f: "audit_within ''distribution.settlement_paid.v1'' ''commission'' 1 worker_actor (sample_due + 2)
     ((mid [sample_split] (dd_audit sample_settling) (dd_outbox sample_settling))\<lparr>dd_settlements := [sample_accepted\<lparr>stl_state := Stl_Succeeded, stl_version := 3, stl_updated_at := sample_due + 2\<rparr>]\<rparr>)
    = Inr sample_paid_db"
  proof -
    have "sample_due + 2 \<noteq> 0" by (simp add: sample_due_def)
    then show ?thesis
      by (simp add: audit_within_def append_audit_def append_outbox_def sample_digits worker_actor_def btrimmed_def sample_settling_def mid_def
        sample_paid_db_def sample_opened_def sample_tables_def empty_commission_db_def rune_count_def ascii_text)
  qed
  have "com_id sample_submitting = 1" by (simp add: sample_submitting_def sample_row_def)
  moreover have "stl_instruction_ref sample_accepted = shi_reference sample_instruction" "shi_amount sample_instruction = stl_amount sample_accepted"
    "shi_currency sample_instruction = stl_currency sample_accepted" "shi_confirmed_success sample_instruction" "cev_now (sample_env t) = t" for t
    by (simp_all add: sample_accepted_def sample_planned_def sample_instruction_def sample_env_def)
  ultimately show ?thesis
    by (subst p) (simp add: apply_reconciliation_def Let_def r s c u f)
qed

end
