(* ===== verification/Commission_Due.thy ===== *)
theory Commission_Due
  imports Commission_Sample
begin

text \<open>
  What a due check leaves behind: the warning it owes, the split it may submit, the release of
  what remains of the payment and the answer that tells the queue when to look again. The answer
  is a decision over what the commission is and what the other modules say (\<open>due_answer\<close>), the
  effects are followed through the units of work of \<open>run_due_check\<close>.
\<close>

section \<open>The decisions of a due check\<close>

text \<open>The provider has closed the split, paid or not.\<close>

definition split_closed :: "commission_env \<Rightarrow> settlement option \<Rightarrow> bool" where
  "split_closed env stl \<longleftrightarrow>
     (case cev_reconcile env (settlement_instruction_ref stl) of Inl _ \<Rightarrow> False
      | Inr x \<Rightarrow> shi_confirmed_success x \<or> shi_outcome_known x)"

text \<open>Nothing more will be paid for the commission, so the rest of the payment can be released.\<close>

definition may_release :: "commission_env \<Rightarrow> commission \<Rightarrow> settlement option \<Rightarrow> bool" where
  "may_release env c stl \<longleftrightarrow>
     com_status c \<in> {ComPaid, ComCancelled}
     \<or> com_status c \<in> {ComSettling, ComException} \<and> settlement_instruction_ref stl \<noteq> [] \<and> split_closed env stl"

text \<open>The payment that is released: of the settlement, else as Payment knows it for the order.\<close>

definition released_payment :: "commission_env \<Rightarrow> commission \<Rightarrow> settlement option \<Rightarrow> string" where
  "released_payment env c stl =
     (if settlement_payment_ref stl \<noteq> [] then settlement_payment_ref stl
      else case cev_preflight_state env (com_order_id c) of Inl _ \<Rightarrow> [] | Inr state \<Rightarrow> dps_payment_ref state)"

definition release_accepted :: "commission_env \<Rightarrow> commission \<Rightarrow> settlement option \<Rightarrow> bool" where
  "release_accepted env c stl \<longleftrightarrow> released_payment env c stl \<noteq> []
     \<and> (case cev_unfreeze env (unfreeze_request_for (com_id c) (released_payment env c stl)) of Inl _ \<Rightarrow> False | Inr _ \<Rightarrow> True)"

definition release_answer :: "commission_env \<Rightarrow> int64 \<Rightarrow> string \<Rightarrow> job_outcome" where
  "release_answer env i payment_ref =
     (if payment_ref = [] then Job_Snooze (15 * minute)
      else case cev_unfreeze env (unfreeze_request_for i payment_ref) of
        Inl e \<Rightarrow> if e = Dist_Nothing_To_Unfreeze then Job_Done else Job_Snooze (15 * minute)
      | Inr u \<Rightarrow> (case cev_reconcile_unfreeze env (ufz_reference u) of
          Inl _ \<Rightarrow> Job_Snooze (5 * minute)
        | Inr x \<Rightarrow> if ufz_outcome_known x then Job_Done else Job_Snooze (5 * minute)))"

text \<open>The release was refused for good.\<close>

definition release_failed :: "commission_env \<Rightarrow> commission \<Rightarrow> settlement option \<Rightarrow> bool" where
  "release_failed env c stl \<longleftrightarrow> released_payment env c stl \<noteq> []
     \<and> (case cev_unfreeze env (unfreeze_request_for (com_id c) (released_payment env c stl)) of Inl _ \<Rightarrow> False
        | Inr u \<Rightarrow> (case cev_reconcile_unfreeze env (ufz_reference u) of Inl _ \<Rightarrow> False
            | Inr x \<Rightarrow> ufz_outcome_known x \<and> ufz_state x \<noteq> ''succeeded''))"

definition due_answer :: "commission_env \<Rightarrow> commission \<Rightarrow> settlement option \<Rightarrow> job_outcome" where
  "due_answer env c stl =
     (if may_release env c stl then release_answer env (com_id c) (released_payment env c stl)
      else if com_status c = ComZero then Job_Done
      else if com_status c \<in> {ComSettling, ComException}
      then if settlement_instruction_ref stl = [] then Job_Done else Job_Snooze (5 * minute)
      else case cev_preflight_state env (com_order_id c) of
        Inl _ \<Rightarrow> Job_Snooze (15 * minute)
      | Inr _ \<Rightarrow> Job_Snooze (if cev_now env < com_due_at c then minute else 5 * minute))"

text \<open>A split deadline within a day, of the latest settlement or as Payment reports it.\<close>

definition warning_owed :: "commission_env \<Rightarrow> commission \<Rightarrow> settlement option \<Rightarrow> bool" where
  "warning_owed env c stl \<longleftrightarrow> com_paid_minor c = 0
     \<and> (deadline_imminent (settlement_deadline stl) (cev_now env)
        \<or> com_status c \<in> {ComPending, ComHeld}
          \<and> (case cev_preflight_state env (com_order_id c) of Inl _ \<Rightarrow> False
             | Inr state \<Rightarrow> deadline_imminent (Some (dps_deadline state)) (cev_now env)))"

definition warned :: "int64 \<Rightarrow> commission_db \<Rightarrow> bool" where
  "warned i db \<longleftrightarrow>
     list_ex (\<lambda>e. exn_commission_id e = i \<and> exn_kind e = Ex_Deadline_Imminent \<and> exn_status e = Exs_Open) (dd_exceptions db)"

definition failure_recorded :: "int64 \<Rightarrow> commission_db \<Rightarrow> bool" where
  "failure_recorded i db \<longleftrightarrow> list_ex (\<lambda>e. exn_commission_id e = i \<and> exn_kind e = Ex_Unfreeze_Failed) (dd_exceptions db)"

section \<open>Statements that release nothing\<close>

text \<open>\<open>still\<close>: the commission is not written; \<open>wrote\<close>: it is left with this status. A warning stays
  open, unless the commission is paid or cancelled.\<close>

definition still :: "int64 \<Rightarrow> commission_db \<Rightarrow> commission_db \<Rightarrow> bool" where
  "still i db db' \<longleftrightarrow> dd_unfreezes db' = dd_unfreezes db \<and> commission_row i db' = commission_row i db
     \<and> (warned i db \<longrightarrow> warned i db')"

definition wrote :: "int64 \<Rightarrow> commission_status \<Rightarrow> commission_db \<Rightarrow> commission_db \<Rightarrow> bool" where
  "wrote i s db db' \<longleftrightarrow> dd_unfreezes db' = dd_unfreezes db
     \<and> (\<exists>d. commission_row i db' = Some d \<and> com_status d = s)
     \<and> (warned i db \<longrightarrow> warned i db' \<or> s \<in> {ComPaid, ComCancelled})"

named_theorems stills \<open>statements that do not write the commission\<close>

lemma still_refl [simp]: "still i db db"
  by (simp add: still_def)

lemma still_trans: "still i db db1 \<Longrightarrow> still i db1 db2 \<Longrightarrow> still i db db2"
  by (simp add: still_def)

lemma still_wrote: "still i db db1 \<Longrightarrow> wrote i s db1 db2 \<Longrightarrow> wrote i s db db2"
  by (auto simp: still_def wrote_def)

lemma wrote_still: "wrote i s db db1 \<Longrightarrow> still i db1 db2 \<Longrightarrow> wrote i s db db2"
  by (auto simp: still_def wrote_def)

lemma wrote_wrote: "wrote i s db db1 \<Longrightarrow> s \<notin> {ComPaid, ComCancelled} \<Longrightarrow> wrote i s' db1 db2 \<Longrightarrow> wrote i s' db db2"
  by (auto simp: wrote_def)

lemma still_status: "still i db db' \<Longrightarrow> commission_row i db = Some c \<Longrightarrow> wrote i (com_status c) db db'"
  by (auto simp: still_def wrote_def)

lemma append_audit_still [stills]: "append_audit e a k who at db = Inr db' \<Longrightarrow> still i db db'"
  by (auto simp: append_audit_def still_def warned_def commission_row_def split: if_splits)

lemma append_outbox_still [stills]: "append_outbox e k j at db = Inr db' \<Longrightarrow> still i db db'"
  by (auto simp: append_outbox_def still_def warned_def commission_row_def split: if_splits)

lemma audit_within_still [stills]:
  assumes "audit_within e a k who at db = Inr db'"
  shows "still i db db'"
proof -
  from assms obtain db1 j where "append_audit e a k who at db = Inr db1" "append_outbox e j k at db1 = Inr db'"
    by (auto simp: audit_within_def elim!: and_then_InrE)
  then show ?thesis by (blast intro: still_trans stills)
qed

lemma insert_exception_still [stills]: "insert_exception e db = Inr (x, db') \<Longrightarrow> still i db db'"
  by (auto simp: insert_exception_def Let_def still_def warned_def commission_row_def split: if_splits elim!: and_then_InrE)

lemma append_adjustment_still [stills]: "append_adjustment a db = Inr db' \<Longrightarrow> still i db db'"
  by (auto simp: append_adjustment_def still_def warned_def commission_row_def split: if_splits)

lemma resolve_business_still [stills]: "resolve_open_business_exceptions j at db = Inr (x, db') \<Longrightarrow> still i db db'"
  by (auto simp: resolve_open_business_exceptions_def resolve_exceptions_def Let_def still_def warned_def commission_row_def
      list_ex_iff split: if_splits elim!: and_then_InrE)

lemma update_settlement_row_still [stills]: "update_settlement_row f j v db = Inr (x, db') \<Longrightarrow> still i db db'"
  by (auto simp: update_settlement_row_def Let_def still_def warned_def commission_row_def
      split: option.splits if_splits elim!: and_then_InrE)

lemma put_settlement_state_still [stills]: "put_settlement_state s st x now db = Inr db' \<Longrightarrow> still i db db'"
  by (auto simp: put_settlement_state_def update_settlement_state_def split: if_splits elim!: and_then_InrE intro: stills)

lemma accept_settlement_still [stills]: "accept_settlement s v db = Inr (x, db') \<Longrightarrow> still i db db'"
  by (auto simp: accept_settlement_def split: if_splits intro: stills)

lemma insert_settlement_still [stills]: "insert_settlement s db = Inr (x, db') \<Longrightarrow> still i db db'"
  by (auto simp: insert_settlement_def Let_def still_def warned_def commission_row_def split: if_splits elim!: and_then_InrE)

lemma accept_profit_sharing_still [stills]: "accept_profit_sharing env r db = Inr (x, db') \<Longrightarrow> still i db db'"
  by (auto simp: accept_profit_sharing_def still_def warned_def commission_row_def elim!: and_then_InrE)

lemma resolve_deadline_warning_still:
  assumes "resolve_deadline_warning old new db = Inr db'"
  shows "dd_unfreezes db' = dd_unfreezes db" "com_status new \<notin> {ComPaid, ComCancelled} \<Longrightarrow> db' = db"
  using assms by (auto simp: resolve_deadline_warning_def resolve_exceptions_def Let_def split: if_splits elim!: and_then_InrE)

lemma update_commission_wrote:
  assumes u: "update_commission d v db = Inr (r, db')" and id: "com_id d = i"
  shows "wrote i (com_status d) db db' \<and> commission_row i db' = Some r \<and> com_status r = com_status d"
proof -
  from update_commission_row [OF u] id obtain old where r: "r = written_commission d old" "put_row i r db db'" by blast
  then have row: "commission_row i db' = Some r" "com_status r = com_status d" by (simp_all add: put_row_def written_commission_def)
  from u obtain old db1 where w: "resolve_deadline_warning old (written_commission d old) db = Inr db1"
    and e: "dd_exceptions db' = dd_exceptions db1" "dd_unfreezes db' = dd_unfreezes db1"
    by (auto simp: update_commission_def Let_def split: if_splits option.splits elim!: and_then_InrE)
  note s = resolve_deadline_warning_still [OF w]
  have "warned i db'" if "com_status d \<notin> {ComPaid, ComCancelled}" "warned i db"
    using s(2) that e by (simp add: written_commission_def warned_def)
  with row e s(1) show ?thesis by (auto simp: wrote_def)
qed

section \<open>Warnings and recorded failures\<close>

lemma latest_exception_found: "latest_exception P db = Inr x \<Longrightarrow> list_ex P (dd_exceptions db)"
  using find_Some_mem [of P "rev (dd_exceptions db)"]
  by (auto simp: latest_exception_def scan_exception_def list_ex_iff split: option.splits if_splits)

lemma insert_exception_added: "insert_exception e db = Inr (x, db') \<Longrightarrow> \<exists>n. e\<lparr>exn_id := n\<rparr> \<in> set (dd_exceptions db')"
  by (auto simp: insert_exception_def Let_def split: if_splits elim!: and_then_InrE)

lemma audit_within_exceptions: "audit_within e a k who at db = Inr db' \<Longrightarrow> dd_exceptions db' = dd_exceptions db"
  by (auto simp: audit_within_def append_audit_def append_outbox_def split: if_splits elim!: and_then_InrE)

text \<open>An exception that was looked for and opened when there was none is there.\<close>

lemma opened_exception:
  assumes "(case find_open_exception i kind db of
        Inr _ \<Rightarrow> Inr db
      | Inl e \<Rightarrow> if e \<noteq> Dist_Not_Found then Inl e
          else and_then (insert_exception x db) (\<lambda>(y, db1). audit_within ev ag (exn_id y) who at db1)) = Inr db'"
    and "exn_commission_id x = i" "exn_kind x = kind" "exn_status x = Exs_Open"
  shows "list_ex (\<lambda>e. exn_commission_id e = i \<and> exn_kind e = kind \<and> exn_status e = Exs_Open) (dd_exceptions db')"
proof (cases "find_open_exception i kind db")
  case (Inl e)
  with assms(1) obtain y db1 where i: "insert_exception x db = Inr (y, db1)" "audit_within ev ag (exn_id y) who at db1 = Inr db'"
    by (auto split: if_splits elim!: and_then_InrE)
  from insert_exception_added [OF i(1)] obtain n where "x\<lparr>exn_id := n\<rparr> \<in> set (dd_exceptions db1)" by blast
  with audit_within_exceptions [OF i(2)] assms(2-) show ?thesis
    unfolding list_ex_iff by (intro bexI [of _ "x\<lparr>exn_id := n\<rparr>"]) simp_all
next
  case (Inr e)
  with assms(1) show ?thesis by (auto simp: find_open_exception_def split: if_splits dest: latest_exception_found)
qed

lemma open_and_audit_still:
  assumes "and_then (insert_exception e db) (\<lambda>(x, db1). audit_within ev ag (exn_id x) who at db1) = Inr db'"
  shows "still i db db'"
  using assms by (auto elim!: and_then_InrE intro: still_trans stills)

lemma open_exception_simps [simp]:
  "exn_commission_id (open_exception c s k u p a r e who t) = c" "exn_kind (open_exception c s k u p a r e who t) = k"
  "exn_status (open_exception c s k u p a r e who t) = Exs_Open"
  by (simp_all add: open_exception_def)

lemma record_deadline_warning_within_warns:
  assumes "record_deadline_warning_within c stl deadline evidence now db = Inr db'"
  shows "still i db db'"
    "com_id c = i \<Longrightarrow> com_paid_minor c = 0 \<Longrightarrow> deadline_imminent (Some deadline) now \<Longrightarrow> warned i db'"
proof -
  show "still i db db'"
    using assms unfolding record_deadline_warning_within_def
    by (auto split: sum.splits if_splits intro: open_and_audit_still)
  assume "com_id c = i" "com_paid_minor c = 0" "deadline_imminent (Some deadline) now"
  moreover from this(3) have "deadline_imminent (deadline_pointer deadline) now"
    by (auto simp: deadline_imminent_def deadline_pointer_def)
  ultimately show "warned i db'"
    using assms unfolding record_deadline_warning_within_def warned_def by (auto intro!: opened_exception)
qed

section \<open>Preparing a settlement\<close>

lemma hold_within_wrote:
  assumes row: "commission_row i db = Some c" and h: "hold_within c reason now db = Inr db'"
  shows "wrote i ComHeld db db'"
proof (cases "com_status c = ComHeld")
  case True
  with h have "db' = db" by (simp add: hold_within_def)
  with still_status [OF still_refl row] True show ?thesis by simp
next
  case False
  with h obtain d r db1 where d: "hold c (com_version c) reason now = Inr d"
    and u: "update_commission d (com_version c) db = Inr (r, db1)"
    and f: "audit_within ''distribution.commission_held.v1'' ''commission'' (com_id c) worker_actor now db1 = Inr db'"
    by (auto simp: hold_within_def and_then_eq_Inr)
  have "com_id d = i \<and> com_status d = ComHeld" using d commission_row_id [OF row] by (auto simp: hold_def touch_def split: if_splits)
  with update_commission_wrote [OF u] have "wrote i ComHeld db db1" by metis
  then show ?thesis using audit_within_still [OF f] by (rule wrote_still)
qed

lemma ensure_exception_wrote:
  assumes row: "commission_row i db = Some c" and h: "ensure_exception c reason now db = Inr (n, db')"
  shows "wrote i ComException db db'"
proof (cases "com_status c = ComException")
  case True
  with h have "db' = db" by (simp add: ensure_exception_def)
  with still_status [OF still_refl row] True show ?thesis by simp
next
  case False
  with h obtain r where d: "mark_exception c (com_version c) reason now = Inr n"
    and u: "update_commission n (com_version c) db = Inr (r, db')"
    by (auto simp: ensure_exception_def and_then_eq_Inr)
  have "com_id n = i \<and> com_status n = ComException" using d commission_row_id [OF row] by (auto simp: mark_exception_def touch_def split: if_splits)
  with update_commission_wrote [OF u] show ?thesis by metis
qed

text \<open>An exception found by its evidence or among the open ones, or opened.\<close>

lemma mark_exception_within_wrote:
  assumes row: "commission_row i db = Some c" and m: "mark_exception_within c stl kind reason evidence now db = Inr db'"
  shows "wrote i ComException db db'" "list_ex (\<lambda>e. exn_commission_id e = i \<and> exn_kind e = kind) (dd_exceptions db')"
proof -
  from m obtain n db1 where e: "ensure_exception c reason now db = Inr (n, db1)"
    and f: "(case find_exception_by_evidence (com_id c) kind evidence db1 of Inr _ \<Rightarrow> Inr db1
       | Inl e \<Rightarrow> if e \<noteq> Dist_Not_Found then Inl e
           else (case find_open_exception (com_id c) kind db1 of
             Inr _ \<Rightarrow> Inr db1
           | Inl e \<Rightarrow> if e \<noteq> Dist_Not_Found then Inl e
               else let unpaid = max (wrap64 (com_payable_minor n - com_paid_minor n)) 0 in
                 and_then (insert_exception (open_exception (com_id c) (settlement_id stl) kind unpaid (com_paid_minor n)
                             unpaid reason evidence worker_actor now) db1) (\<lambda>(x, db2).
                   audit_within ''distribution.exception_opened.v1'' ''exception'' (exn_id x) worker_actor now db2))) = Inr db'"
    by (auto simp: mark_exception_within_def and_then_eq_Inr)
  from f have "still i db1 db'" by (auto simp: Let_def split: sum.splits if_splits intro: open_and_audit_still)
  with ensure_exception_wrote [OF row e] show "wrote i ComException db db'" by (rule wrote_still)
  have id: "com_id c = i" by (rule commission_row_id [OF row])
  show "list_ex (\<lambda>e. exn_commission_id e = i \<and> exn_kind e = kind) (dd_exceptions db')"
  proof (cases "find_exception_by_evidence i kind evidence db1")
    case (Inl x)
    define u where "u = max (wrap64 (com_payable_minor n - com_paid_minor n)) 0"
    define g where "g = (case find_open_exception i kind db1 of
             Inr _ \<Rightarrow> Inr db1
           | Inl e \<Rightarrow> if e \<noteq> Dist_Not_Found then Inl e
               else and_then (insert_exception (open_exception i (settlement_id stl) kind u (com_paid_minor n) u reason evidence
                 worker_actor now) db1) (\<lambda>(x, db2).
                   audit_within ''distribution.exception_opened.v1'' ''exception'' (exn_id x) worker_actor now db2))"
    from f [unfolded Let_def id, folded u_def, folded g_def] Inl have "(if x \<noteq> Dist_Not_Found then Inl x else g) = Inr db'" by simp
    then have "g = Inr db'" by (simp split: if_splits)
    from opened_exception [OF this [unfolded g_def]] show ?thesis by (auto simp: list_ex_iff)
  next
    case (Inr x)
    then show ?thesis
      using f id by (auto simp: find_exception_by_evidence_def list_ex_iff split: if_splits dest!: latest_exception_found)
  qed
qed

lemma revoke_within_wrote:
  assumes row: "commission_row i db = Some c" and r: "revoke_within value c now db = Inr db'"
  shows "wrote i ComCancelled db db'"
proof -
  from r obtain d a db1 db2 x where d: "cancel_unsettled c (com_version c) ''qualification_revoked'' now = Inr d"
    and a: "append_adjustment a db = Inr db1" and u: "update_commission d (com_version c) db1 = Inr (x, db2)"
    and f: "audit_within ''distribution.commission_cancelled.v1'' ''commission'' (com_id c) worker_actor now db2 = Inr db'"
    by (auto simp: revoke_within_def and_then_eq_Inr)
  have "com_id d = i \<and> com_status d = ComCancelled"
    using d commission_row_id [OF row] by (auto simp: cancel_unsettled_def cancelled_def touch_def split: if_splits)
  with update_commission_wrote [OF u] have "wrote i ComCancelled db1 db2" by metis
  with append_adjustment_still [OF a] audit_within_still [OF f] show ?thesis by (blast intro: still_wrote wrote_still)
qed

lemma reprice_within_wrote:
  assumes row: "commission_row i db = Some c" and r: "reprice_within c v state now db = Inr (d, db')"
    and open': "com_status c \<in> {ComPending, ComHeld}"
  shows "wrote i (com_status d) db db' \<and> commission_row i db' = Some d \<and> com_status d \<in> {ComPending, ComHeld, ComCancelled}"
proof -
  from r obtain n db1 where n: "reprice c (com_version c) (com_original_paid_minor c) (dps_successful_refund state) now = Inr n"
    and a: "db1 = db \<or> (\<exists>x. append_adjustment x db = Inr db1)" and u: "update_commission n v db1 = Inr (d, db')"
    unfolding reprice_within_def by (auto simp: and_then_eq_Inr split: if_splits)
  have "com_id n = i" "com_status n \<in> {ComPending, ComHeld, ComCancelled}"
    using n commission_row_id [OF row] open' by (auto simp: reprice_def Let_def touch_def split: if_splits elim!: and_then_InrE)
  moreover have "still i db db1" using a append_adjustment_still by auto
  ultimately show ?thesis using update_commission_wrote [OF u] by (auto intro: still_wrote)
qed

lemma resume_if_held_wrote:
  assumes row: "commission_row i db = Some c" and r: "resume_if_held c now db = Inr (d, db')"
  shows "wrote i (com_status d) db db' \<and> commission_row i db' = Some d
    \<and> com_status d = (if com_status c = ComHeld then ComPending else com_status c)"
proof (cases "com_status c = ComHeld")
  case True
  with r obtain n where n: "resume c (com_version c) now = Inr n"
    and u: "update_commission n (wrap64 (com_version n - 1)) db = Inr (d, db')"
    by (auto simp: resume_if_held_def and_then_eq_Inr)
  have "com_id n = i \<and> com_status n = ComPending"
    using n commission_row_id [OF row] by (auto simp: resume_def touch_def split: if_splits)
  with update_commission_wrote [OF u] True show ?thesis by auto
next
  case False
  with r row still_status [OF still_refl row] show ?thesis by (simp add: resume_if_held_def)
qed

lemma submit_settlement_wrote:
  assumes row: "commission_row i db = Some c" and s: "submit_settlement env value c customer state now db = Inr db'"
  shows "wrote i ComSettling db db'"
proof -
  from s obtain d S p cr db1 x db2 y db3 r z db4 where d: "begin_settlement c (com_version c) now = Inr d"
    and ins: "insert_settlement S db = Inr ((p, cr), db1)"
    and acc: "accept_profit_sharing env (sharing_request_for value d customer state) db1 = Inr (x, db2)"
    and st: "accept_settlement y (stl_version p) db2 = Inr (z, db3)"
    and u: "update_commission d (com_version c) db3 = Inr (r, db4)"
    and f: "audit_within ''distribution.settlement_accepted.v1'' ''settlement'' (stl_id p) worker_actor now db4 = Inr db'"
    by (fastforce simp: submit_settlement_def and_then_eq_Inr)
  have "com_id d = i \<and> com_status d = ComSettling"
    using d commission_row_id [OF row] by (auto simp: begin_settlement_def touch_def split: if_splits)
  with update_commission_wrote [OF u] have "wrote i ComSettling db3 db4" by metis
  moreover have "still i db db3"
    using insert_settlement_still [OF ins] accept_profit_sharing_still [OF acc] accept_settlement_still [OF st]
    by (blast intro: still_trans)
  ultimately show ?thesis using audit_within_still [OF f] by (blast intro: still_wrote wrote_still)
qed

lemma settle_within_wrote:
  assumes row: "commission_row i db = Some c" and open': "com_status c \<in> {ComPending, ComHeld}"
    and s: "settle_within env value c state now db = Inr db'"
  shows "\<exists>s. wrote i s db db' \<and> (dd_requests db' \<noteq> dd_requests db \<longrightarrow> s = ComSettling) \<and> s \<noteq> ComPaid"
proof -
  from s obtain d rc where g: "read_distributor (com_distributor_id c) db = Inr (d, rc)"
    by (auto simp: settle_within_def and_then_eq_Inr)
  define submit where "submit = and_then (resume_if_held c now db) (\<lambda>(c', db1).
      submit_settlement env value c' (dst_customer_id d) state now db1)"
  from s g have r: "(case check_within env (dst_customer_id d) (scx_product_id value) (scx_product_type value) of
         Inl _ \<Rightarrow> hold_within c ''qualification_unavailable'' now db
       | Inr q \<Rightarrow>
           if ql_state q = QualUnavailable \<or> ql_state q = QualSuspended \<or> ql_state q = QualConflict
           then hold_within c ''qualification_unavailable'' now db
           else if ql_state q = QualIneligible then revoke_within value c now db
           else if cev_receiver_ready env (dst_customer_id d) (rcv_app_id rc) \<noteq> Inr True
           then hold_within c ''receiver_unavailable'' now db
           else if \<not> dps_split_capable state \<or> is_zero (dps_deadline state) \<or> \<not> now < dps_deadline state
           then mark_exception_within c None Ex_Settlement_Deadline ''split_deadline_unavailable'' (dps_payment_ref state) now db
           else if dps_available state < com_payable_minor c then hold_within c ''split_funds_unavailable'' now db
           else submit) = Inr db'"
    unfolding submit_def by (simp add: settle_within_def)
  have submitted: "wrote i ComSettling db db'" if "submit = Inr db'"
  proof -
    from that obtain c' db1 where h: "resume_if_held c now db = Inr (c', db1)"
      and b: "submit_settlement env value c' (dst_customer_id d) state now db1 = Inr db'"
      unfolding submit_def by (auto elim!: and_then_InrE)
    note w = resume_if_held_wrote [OF row h]
    have "com_status c' \<notin> {ComPaid, ComCancelled}" using w open' by auto
    with w submit_settlement_wrote [OF _ b] show ?thesis by (blast intro: wrote_wrote)
  qed
  have held: "\<exists>s. wrote i s db db' \<and> (dd_requests db' \<noteq> dd_requests db \<longrightarrow> s = ComSettling) \<and> s \<noteq> ComPaid"
    if "hold_within c reason now db = Inr db'" for reason
    using hold_within_wrote [OF row that] hold_within_quiet [OF that] by (auto simp: no_request_def)
  have revoked: "\<exists>s. wrote i s db db' \<and> (dd_requests db' \<noteq> dd_requests db \<longrightarrow> s = ComSettling) \<and> s \<noteq> ComPaid"
    if "revoke_within value c now db = Inr db'"
    using revoke_within_wrote [OF row that] revoke_within_quiet [OF that] by (auto simp: no_request_def)
  have marked: "\<exists>s. wrote i s db db' \<and> (dd_requests db' \<noteq> dd_requests db \<longrightarrow> s = ComSettling) \<and> s \<noteq> ComPaid"
    if "mark_exception_within c None Ex_Settlement_Deadline ''split_deadline_unavailable'' (dps_payment_ref state) now db = Inr db'"
    using mark_exception_within_wrote(1) [OF row that] mark_exception_within_quiet [OF that] by (auto simp: no_request_def)
  show ?thesis
    using r by (cases "check_within env (dst_customer_id d) (scx_product_id value) (scx_product_type value)")
      (auto split: if_splits intro: held revoked marked submitted)
qed

lemma prepare_settlement_wrote:
  assumes p: "prepare_settlement env i state db = Inr (retry, db')" and row: "commission_row i db = Some c"
    and open': "com_status c \<in> {ComPending, ComHeld}"
  shows "\<exists>s. wrote i s db db' \<and> (dd_requests db' \<noteq> dd_requests db \<longrightarrow> s = ComSettling) \<and> s \<noteq> ComPaid"
    "retry \<longleftrightarrow> cev_now env < com_due_at c"
    "com_paid_minor c = 0 \<Longrightarrow> deadline_imminent (Some (dps_deadline state)) (cev_now env) \<Longrightarrow>
      \<exists>s. wrote i s db db' \<and> (warned i db' \<or> s = ComCancelled)"
proof -
  from p obtain ctx where v: "read_settlement_context i db = Inr ctx"
    by (auto simp: prepare_settlement_def Let_def and_then_eq_Inr)
  have ctx: "scx_commission ctx = c" using read_settlement_context_row(1) [OF v] row by simp
  define now where "now = utc (cev_now env)"
  define priced where "priced db1 = and_then (reprice_within c (com_version c) state now db1) (\<lambda>(c', db2).
               if com_status c' = ComCancelled
               then audit_within ''distribution.commission_cancelled.v1'' ''commission'' (com_id c') worker_actor now db2
               else settle_within env ctx c' state now db2)" for db1
  define rest where "rest db1 = (if \<not> dps_confirmed_paid state \<or> dps_payment_ref state = [] \<or> dps_refund_exposure state
             then hold_within c ''payment_or_refund_pending'' now db1
             else if 0 < dps_successful_refund state then priced db1
             else settle_within env ctx c state now db1)" for db1
  have e: "(if com_status c \<noteq> ComPending \<and> com_status c \<noteq> ComHeld then Inr (False, db)
      else and_then (record_deadline_warning_within c None (dps_deadline state) (dps_payment_ref state) now db) (\<lambda>db1.
        if now < com_due_at c then Inr (True, db1) else and_then (rest db1) (\<lambda>db2. Inr (False, db2)))) = Inr (retry, db')"
    using p unfolding prepare_settlement_def Let_def v and_then_simps rest_def priced_def ctx now_def .
  from e open' obtain db1 where w: "record_deadline_warning_within c None (dps_deadline state) (dps_payment_ref state) now db = Inr db1"
    and r: "if now < com_due_at c then retry \<and> db' = db1 else \<not> retry \<and> rest db1 = Inr db'"
    by (auto simp: and_then_eq_Inr split: if_splits)
  have utc: "now = cev_now env" by (simp add: now_def)
  from r show "retry \<longleftrightarrow> cev_now env < com_due_at c" by (auto simp: utc split: if_splits)
  note q = record_deadline_warning_within_quiet [OF w] and warn = record_deadline_warning_within_warns [OF w, of i]
  have row1: "commission_row i db1 = Some c" using warn(1) row by (simp add: still_def)
  have priced: "\<exists>s. wrote i s db1 db' \<and> (dd_requests db' \<noteq> dd_requests db1 \<longrightarrow> s = ComSettling) \<and> s \<noteq> ComPaid" if "priced db1 = Inr db'"
  proof -
    from that obtain d db2 where a: "reprice_within c (com_version c) state now db1 = Inr (d, db2)"
      and b: "(if com_status d = ComCancelled
               then audit_within ''distribution.commission_cancelled.v1'' ''commission'' (com_id d) worker_actor now db2
               else settle_within env ctx d state now db2) = Inr db'"
      unfolding priced_def by (auto elim!: and_then_InrE)
    note m = reprice_within_wrote [OF row1 a open'] and mq = reprice_within_quiet [OF row1 a]
    show ?thesis
    proof (cases "com_status d = ComCancelled")
      case True
      with b have f: "audit_within ''distribution.commission_cancelled.v1'' ''commission'' (com_id d) worker_actor now db2 = Inr db'" by simp
      have "wrote i (com_status d) db1 db'" using m audit_within_still [OF f] by (blast intro: wrote_still)
      with True audit_within_quiet [OF f] mq show ?thesis by (auto simp: no_request_def)
    next
      case False
      with m have o: "com_status d \<in> {ComPending, ComHeld}" by auto
      from b False have b: "settle_within env ctx d state now db2 = Inr db'" by simp
      from m have "commission_row i db2 = Some d" by simp
      from settle_within_wrote [OF this o b] obtain s where "wrote i s db2 db'"
        "dd_requests db' \<noteq> dd_requests db2 \<longrightarrow> s = ComSettling" "s \<noteq> ComPaid" by blast
      moreover from m o have "wrote i s db1 db'" if "wrote i s db2 db'" using wrote_wrote [OF _ _ that] by auto
      ultimately show ?thesis using mq by (auto simp: no_request_def)
    qed
  qed
  have "\<exists>s. wrote i s db1 db' \<and> (dd_requests db' \<noteq> dd_requests db1 \<longrightarrow> s = ComSettling) \<and> s \<noteq> ComPaid"
  proof (cases "now < com_due_at c")
    case True
    with r open' still_status [OF still_refl row1] show ?thesis by auto
  next
    case False
    with r have "rest db1 = Inr db'" by simp
    then consider "hold_within c ''payment_or_refund_pending'' now db1 = Inr db'" | "priced db1 = Inr db'"
      | "settle_within env ctx c state now db1 = Inr db'" unfolding rest_def by (auto split: if_splits)
    then show ?thesis
    proof cases
      case 1
      with hold_within_wrote [OF row1 1] hold_within_quiet [OF 1] show ?thesis by (auto simp: no_request_def)
    next
      case 2
      then show ?thesis by (rule priced)
    next
      case 3
      with settle_within_wrote [OF row1 open'] show ?thesis by blast
    qed
  qed
  then obtain s where s: "wrote i s db1 db'" "dd_requests db' \<noteq> dd_requests db1 \<longrightarrow> s = ComSettling" "s \<noteq> ComPaid" by blast
  have sw: "wrote i s db db'" using still_wrote [OF warn(1) s(1)] .
  with s(2,3) q show "\<exists>s. wrote i s db db' \<and> (dd_requests db' \<noteq> dd_requests db \<longrightarrow> s = ComSettling) \<and> s \<noteq> ComPaid"
    by (auto simp: no_request_def)
  assume "com_paid_minor c = 0" "deadline_imminent (Some (dps_deadline state)) (cev_now env)"
  with warn(2) commission_row_id [OF row] have "warned i db1" by (simp add: utc)
  with s(1,3) sw show "\<exists>s. wrote i s db db' \<and> (warned i db' \<or> s = ComCancelled)" by (auto simp: wrote_def)
qed

section \<open>Reconciling\<close>

text \<open>Everything but a submission keeps the payments of the settlements.\<close>

definition settlement_refs :: "commission_db \<Rightarrow> (int64 \<times> string) list" where
  "settlement_refs db = map (\<lambda>s. (stl_commission_id s, stl_payment_ref s)) (dd_settlements db)"

lemma latest_payment_ref:
  assumes "settlement_refs db' = settlement_refs db" "read_latest_settlement i db = Inr s" "read_latest_settlement i db' = Inr s'"
  shows "stl_payment_ref s' = stl_payment_ref s"
proof -
  have f: "map_option stl_payment_ref (find (\<lambda>s. stl_commission_id s = i) xs)
      = map_option snd (find (\<lambda>p. fst p = i) (map (\<lambda>s. (stl_commission_id s, stl_payment_ref s)) xs))" for xs
    by (induction xs) auto
  have r: "find (\<lambda>s. stl_commission_id s = i) (rev (dd_settlements d)) = Some x" if "read_latest_settlement i d = Inr x" for d x
    using that by (auto simp: read_latest_settlement_def scan_settlement_def split: if_splits option.splits)
  have "Some (stl_payment_ref x) = map_option snd (find (\<lambda>p. fst p = i) (rev (settlement_refs d)))"
    if "read_latest_settlement i d = Inr x" for d x
    using f [of "rev (dd_settlements d)"] r [OF that] by (simp add: settlement_refs_def rev_map)
  from this [OF assms(2)] this [OF assms(3)] assms(1) show ?thesis by (metis option.inject)
qed

named_theorems same_refs \<open>statements that keep the payments of the settlements\<close>

lemma audit_within_refs [same_refs]: "audit_within e a k who at db = Inr db' \<Longrightarrow> settlement_refs db' = settlement_refs db"
  by (auto simp: audit_within_def append_audit_def append_outbox_def settlement_refs_def split: if_splits elim!: and_then_InrE)

lemma insert_exception_refs [same_refs]: "insert_exception e db = Inr (x, db') \<Longrightarrow> settlement_refs db' = settlement_refs db"
  by (auto simp: insert_exception_def Let_def settlement_refs_def split: if_splits elim!: and_then_InrE)

lemma append_adjustment_refs [same_refs]: "append_adjustment a db = Inr db' \<Longrightarrow> settlement_refs db' = settlement_refs db"
  by (auto simp: append_adjustment_def settlement_refs_def split: if_splits)

lemma resolve_exceptions_refs [same_refs]: "resolve_exceptions P at db = Inr (x, db') \<Longrightarrow> settlement_refs db' = settlement_refs db"
  by (auto simp: resolve_exceptions_def Let_def settlement_refs_def split: if_splits)

lemma update_commission_refs [same_refs]: "update_commission c v db = Inr (r, db') \<Longrightarrow> settlement_refs db' = settlement_refs db"
  by (auto simp: update_commission_def resolve_deadline_warning_def resolve_exceptions_def Let_def settlement_refs_def
      split: if_splits option.splits elim!: and_then_InrE)

lemma put_settlement_state_refs [same_refs]: "put_settlement_state s st x now db = Inr db' \<Longrightarrow> settlement_refs db' = settlement_refs db"
  by (auto simp: put_settlement_state_def update_settlement_state_def update_settlement_row_def Let_def settlement_refs_def
      split: if_splits option.splits elim!: and_then_InrE)

lemma ensure_exception_refs [same_refs]: "ensure_exception c reason now db = Inr (n, db') \<Longrightarrow> settlement_refs db' = settlement_refs db"
  by (auto simp: ensure_exception_def split: if_splits elim!: and_then_InrE dest: same_refs)

lemma open_and_audit_refs:
  assumes "and_then (insert_exception e db) (\<lambda>(x, db1). audit_within ev ag (exn_id x) who at db1) = Inr db'"
  shows "settlement_refs db' = settlement_refs db"
  using assms by (auto elim!: and_then_InrE dest!: same_refs)

lemma mark_exception_within_refs [same_refs]:
  assumes m: "mark_exception_within c stl kind reason evidence now db = Inr db'"
  shows "settlement_refs db' = settlement_refs db"
proof -
  from m obtain n db1 where "ensure_exception c reason now db = Inr (n, db1)"
    and f: "(case find_exception_by_evidence (com_id c) kind evidence db1 of Inr _ \<Rightarrow> Inr db1
       | Inl e \<Rightarrow> if e \<noteq> Dist_Not_Found then Inl e
           else (case find_open_exception (com_id c) kind db1 of
             Inr _ \<Rightarrow> Inr db1
           | Inl e \<Rightarrow> if e \<noteq> Dist_Not_Found then Inl e
               else let unpaid = max (wrap64 (com_payable_minor n - com_paid_minor n)) 0 in
                 and_then (insert_exception (open_exception (com_id c) (settlement_id stl) kind unpaid (com_paid_minor n)
                             unpaid reason evidence worker_actor now) db1) (\<lambda>(x, db2).
                   audit_within ''distribution.exception_opened.v1'' ''exception'' (exn_id x) worker_actor now db2))) = Inr db'"
    by (auto simp: mark_exception_within_def and_then_eq_Inr)
  moreover from f have "settlement_refs db' = settlement_refs db1"
    by (auto simp: Let_def split: sum.splits if_splits intro: open_and_audit_refs)
  ultimately show ?thesis by (simp add: ensure_exception_refs)
qed

lemma confirm_paid_within_quiet: "confirm_paid_within c x now db = Inr db' \<Longrightarrow> no_request db db'"
  by (auto simp: confirm_paid_within_def split: if_splits elim!: and_then_InrE dest: update_commission_quiet)

lemma put_settlement_state_quiet: "put_settlement_state s st x now db = Inr db' \<Longrightarrow> no_request db db'"
  by (auto simp: put_settlement_state_def update_settlement_state_def update_settlement_row_def Let_def no_request_def
      split: if_splits option.splits elim!: and_then_InrE)

lemma confirm_paid_within_wrote:
  assumes row: "commission_row i db = Some c" and p: "confirm_paid_within c x now db = Inr db'"
  shows "\<exists>s. wrote i s db db' \<and> s \<in> {ComPaid, ComException}" "settlement_refs db' = settlement_refs db"
proof -
  have "(\<exists>s. wrote i s db db' \<and> s \<in> {ComPaid, ComException}) \<and> settlement_refs db' = settlement_refs db"
  proof (cases "com_status c = ComException \<and> 0 < com_paid_minor c")
    case True
    with p still_status [OF still_refl row] show ?thesis by (auto simp: confirm_paid_within_def)
  next
    case False
    with p obtain d r where d: "confirm_receiver_paid c (com_version c) (shi_amount x) now = Inr d"
      and u: "update_commission d (com_version c) db = Inr (r, db')"
      by (auto simp: confirm_paid_within_def and_then_eq_Inr)
    have "com_id d = i \<and> com_status d = ComPaid"
      using d commission_row_id [OF row] by (auto simp: confirm_receiver_paid_def touch_def split: if_splits)
    with update_commission_wrote [OF u, of i] update_commission_refs [OF u] show ?thesis by auto
  qed
  then show "\<exists>s. wrote i s db db' \<and> s \<in> {ComPaid, ComException}" "settlement_refs db' = settlement_refs db" by simp_all
qed

lemma for_each_audit_still:
  "for_each (\<lambda>e. audit_within ev ag (exn_id e) who at) es db = Inr db' \<Longrightarrow> still i db db' \<and> settlement_refs db' = settlement_refs db"
proof (induction es arbitrary: db)
  case (Cons e es)
  then obtain db1 where "audit_within ev ag (exn_id e) who at db = Inr db1"
    "still i db1 db' \<and> settlement_refs db' = settlement_refs db1" by (auto elim!: and_then_InrE)
  then show ?case using audit_within_refs by (metis audit_within_still still_trans)
qed simp

lemma resolve_business_exceptions_still:
  assumes "resolve_business_exceptions j now db = Inr db'"
  shows "still i db db'" "settlement_refs db' = settlement_refs db"
proof -
  from assms obtain es db1 where e: "resolve_open_business_exceptions j now db = Inr (es, db1)"
    and f: "for_each (\<lambda>e. audit_within ''distribution.exception_resolved.v1'' ''exception'' (exn_id e) worker_actor now) es db1 = Inr db'"
    by (auto simp: resolve_business_exceptions_def and_then_eq_Inr)
  from e have "settlement_refs db1 = settlement_refs db"
    by (auto simp: resolve_open_business_exceptions_def split: if_splits elim!: and_then_InrE dest: same_refs)
  with resolve_business_still [OF e, of i] for_each_audit_still [OF f, of i]
  show "still i db db'" "settlement_refs db' = settlement_refs db" by (auto intro: still_trans)
qed

lemma confirm_unpaid_within_wrote:
  assumes row: "commission_row i db = Some (scx_commission value)" and r: "confirm_unpaid_within value reason now db = Inr db'"
  shows "wrote i ComCancelled db db'" "settlement_refs db' = settlement_refs db"
proof -
  define c where "c = scx_commission value"
  from r obtain d x db1 db2 db3 where d: "confirm_instruction_unpaid c (com_version c) reason now = Inr d"
    and u: "update_commission d (com_version c) db = Inr (x, db1)"
    and e: "resolve_business_exceptions (com_id c) now db1 = Inr db2"
    and a: "(if com_payable_minor d \<noteq> com_payable_minor c
                      then append_adjustment \<lparr>adj_commission_id = com_id c, adj_kind = Adj_Qualification_Revoke,
                             adj_delta = wrap64 (com_payable_minor d - com_payable_minor c),
                             adj_resulting = com_payable_minor d, adj_reason = reason,
                             adj_source = at_evidence_ref (scx_attribution value), adj_at = now\<rparr> db2
                      else Inr db2) = Inr db3"
    and f: "audit_within ''distribution.commission_cancelled.v1'' ''commission'' (com_id c) worker_actor now db3 = Inr db'"
    by (auto simp: confirm_unpaid_within_def Let_def and_then_eq_Inr c_def [symmetric])
  from a have a: "db3 = db2 \<or> (\<exists>a. append_adjustment a db2 = Inr db3)" by (auto split: if_splits)
  have "com_id d = i \<and> com_status d = ComCancelled"
    using d commission_row_id [OF row] by (auto simp: confirm_instruction_unpaid_def cancelled_def touch_def c_def split: if_splits)
  with update_commission_wrote [OF u] have "wrote i ComCancelled db db1" by metis
  moreover have "still i db2 db3" using a append_adjustment_still by auto
  ultimately show "wrote i ComCancelled db db'"
    using resolve_business_exceptions_still(1) [OF e] audit_within_still [OF f] by (blast intro: wrote_still)
  show "settlement_refs db' = settlement_refs db"
    using a update_commission_refs [OF u] resolve_business_exceptions_still(2) [OF e] audit_within_refs [OF f] append_adjustment_refs
    by auto
qed

lemma confirm_unpaid_within_requests:
  assumes r: "confirm_unpaid_within value reason now db = Inr db'"
  shows "dd_requests db' = dd_requests db"
proof -
  define c where "c = scx_commission value"
  from r obtain d x db1 db2 db3 where u: "update_commission d (com_version c) db = Inr (x, db1)"
    and e: "resolve_business_exceptions (com_id c) now db1 = Inr db2"
    and a: "(if com_payable_minor d \<noteq> com_payable_minor c
                      then append_adjustment \<lparr>adj_commission_id = com_id c, adj_kind = Adj_Qualification_Revoke,
                             adj_delta = wrap64 (com_payable_minor d - com_payable_minor c),
                             adj_resulting = com_payable_minor d, adj_reason = reason,
                             adj_source = at_evidence_ref (scx_attribution value), adj_at = now\<rparr> db2
                      else Inr db2) = Inr db3"
    and f: "audit_within ''distribution.commission_cancelled.v1'' ''commission'' (com_id c) worker_actor now db3 = Inr db'"
    by (auto simp: confirm_unpaid_within_def Let_def and_then_eq_Inr c_def [symmetric])
  from a have "no_request db2 db3" by (auto split: if_splits dest: append_adjustment_quiet)
  with update_commission_quiet [OF u] resolve_business_exceptions_frame [OF e] audit_within_quiet [OF f]
  show ?thesis by (simp add: no_request_def same_books_def)
qed

lemma apply_reconciliation_requests:
  assumes "apply_reconciliation env i x db = Inr (out, db')"
  shows "dd_requests db' = dd_requests db"
  using assms unfolding apply_reconciliation_def Let_def
  by (auto simp: no_request_def split: if_splits elim!: and_then_InrE
      dest!: confirm_paid_within_quiet put_settlement_state_quiet audit_within_quiet mark_exception_within_quiet confirm_unpaid_within_requests)

lemma apply_reconciliation_wrote:
  assumes a: "apply_reconciliation env i x db = Inr (out, db')" and row: "commission_row i db = Some c"
  shows "(\<exists>s. wrote i s db db' \<and> s \<in> {ComPaid, ComCancelled, ComException} \<and> (out = Rec_Unknown \<longrightarrow> s = ComException))
    \<and> settlement_refs db' = settlement_refs db
    \<and> (out = Rec_Finalized \<longleftrightarrow> shi_confirmed_success x \<or> shi_outcome_known x)"
proof -
  from a obtain ctx s where v: "read_settlement_context i db = Inr ctx" and s: "read_latest_settlement i db = Inr s"
    by (auto simp: apply_reconciliation_def Let_def and_then_eq_Inr split: if_splits)
  define now where "now = utc (cev_now env)"
  have c: "scx_commission ctx = c" using read_settlement_context_row(1) [OF v] row by simp
  have r: "(if stl_instruction_ref s \<noteq> shi_reference x \<or> shi_amount x \<noteq> stl_amount s
             \<or> shi_currency x \<noteq> stl_currency s then Inl Dist_Conflict
          else if shi_confirmed_success x then
            and_then (confirm_paid_within c x now db) (\<lambda>db1.
              and_then (put_settlement_state s Stl_Succeeded x now db1) (\<lambda>db2.
                and_then (audit_within ''distribution.settlement_paid.v1'' ''commission'' (com_id c) worker_actor now db2)
                  (\<lambda>db3. Inr (Rec_Finalized, db3))))
          else if shi_outcome_known x then
            (if closed_instruction_business_cancellation ctx db \<noteq> [] then
              and_then (put_settlement_state s Stl_Cancelled x now db) (\<lambda>db1.
                and_then (confirm_unpaid_within ctx (closed_instruction_business_cancellation ctx db) now db1)
                  (\<lambda>db2. Inr (Rec_Finalized, db2)))
            else
              and_then (put_settlement_state s Stl_Exception x now db) (\<lambda>db1.
                and_then (mark_exception_within c (Some s) Ex_Settlement_Not_Paid
                            (payment_settlement_failure_reason (shi_failure_class x)) (shi_reference x) now db1)
                  (\<lambda>db2. Inr (Rec_Finalized, db2))))
          else
            and_then (put_settlement_state s Stl_Unknown x now db) (\<lambda>db1.
              and_then (mark_exception_within c (Some s) Ex_Settlement_Unknown ''settlement_outcome_unknown''
                          (shi_reference x) now db1) (\<lambda>db2. Inr (Rec_Unknown, db2)))) = Inr (out, db')"
    using a unfolding apply_reconciliation_def Let_def v s and_then_simps c now_def .
  consider (paid) db1 db2 where "confirm_paid_within c x now db = Inr db1" "put_settlement_state s Stl_Succeeded x now db1 = Inr db2"
      "audit_within ''distribution.settlement_paid.v1'' ''commission'' (com_id c) worker_actor now db2 = Inr db'"
      "out = Rec_Finalized" "shi_confirmed_success x"
    | (unpaid) st reason db1 where "put_settlement_state s st x now db = Inr db1" "confirm_unpaid_within ctx reason now db1 = Inr db'"
      "out = Rec_Finalized" "shi_outcome_known x"
    | (marked) st kind reason db1 where "put_settlement_state s st x now db = Inr db1"
      "mark_exception_within c (Some s) kind reason (shi_reference x) now db1 = Inr db'"
      "out = Rec_Finalized \<longleftrightarrow> shi_confirmed_success x \<or> shi_outcome_known x"
    using r by (auto simp: and_then_eq_Inr split: if_splits)
  then show ?thesis
  proof cases
    case paid
    from confirm_paid_within_wrote(1) [OF row paid(1)] obtain t where t: "wrote i t db db1" "t \<in> {ComPaid, ComException}" by blast
    then have "wrote i t db db'" using put_settlement_state_still [OF paid(2)] audit_within_still [OF paid(3)] by (blast intro: wrote_still)
    with t(2) paid(4,5) confirm_paid_within_wrote(2) [OF row paid(1)] put_settlement_state_refs [OF paid(2)] audit_within_refs [OF paid(3)]
    show ?thesis by auto
  next
    case unpaid
    have st: "still i db db1" by (rule put_settlement_state_still [OF unpaid(1)])
    then have "commission_row i db1 = Some (scx_commission ctx)" using row c by (simp add: still_def)
    note u = confirm_unpaid_within_wrote [OF this unpaid(2)]
    from still_wrote [OF st u(1)] u(2) unpaid(3,4) put_settlement_state_refs [OF unpaid(1)] show ?thesis by auto
  next
    case marked
    have st: "still i db db1" by (rule put_settlement_state_still [OF marked(1)])
    then have "commission_row i db1 = Some c" using row by (simp add: still_def)
    note m = mark_exception_within_wrote(1) [OF this marked(2)]
    from still_wrote [OF st m] mark_exception_within_refs [OF marked(2)] marked(3) put_settlement_state_refs [OF marked(1)]
    show ?thesis by auto
  qed
qed

section \<open>Releasing\<close>

lemma release_from_effect:
  assumes r: "release_from env value stl payment db = (out, db')" and ok: "\<forall>e. out \<noteq> Job_Failed e"
    and row: "commission_row i db = Some d" and id: "com_id (scx_commission value) = i" and p: "payment \<noteq> []"
  shows "out = release_answer env i payment"
    "dd_unfreezes db' = dd_unfreezes db @ (case cev_unfreeze env (unfreeze_request_for i payment) of Inl _ \<Rightarrow> []
       | Inr _ \<Rightarrow> [unfreeze_request_for i payment])"
    "dd_requests db' = dd_requests db" "warned i db \<Longrightarrow> warned i db'"
    "\<exists>d'. commission_row i db' = Some d' \<and> com_status d' \<in> {com_status d, ComException}"
    "cev_unfreeze env (unfreeze_request_for i payment) = Inr u \<Longrightarrow> cev_reconcile_unfreeze env (ufz_reference u) = Inr x \<Longrightarrow>
      ufz_outcome_known x \<Longrightarrow> ufz_state x \<noteq> ''succeeded'' \<Longrightarrow> failure_recorded i db'"
proof -
  define q where "q = unfreeze_request_for i payment"
  note delays = due_check_retry_delay_def settlement_query_delay_def
  have "out = release_answer env i payment
    \<and> dd_unfreezes db' = dd_unfreezes db @ (case cev_unfreeze env q of Inl _ \<Rightarrow> [] | Inr _ \<Rightarrow> [q])
    \<and> dd_requests db' = dd_requests db \<and> (warned i db \<longrightarrow> warned i db')
    \<and> (\<exists>d'. commission_row i db' = Some d' \<and> com_status d' \<in> {com_status d, ComException})
    \<and> (\<forall>u x. cev_unfreeze env q = Inr u \<longrightarrow> cev_reconcile_unfreeze env (ufz_reference u) = Inr x \<longrightarrow>
          ufz_outcome_known x \<longrightarrow> ufz_state x \<noteq> ''succeeded'' \<longrightarrow> failure_recorded i db')"
  proof (cases "cev_unfreeze env q")
    case (Inl e)
    with r p row id show ?thesis
      by (auto simp: release_from_def Let_def unfreeze_remaining_def q_def release_answer_def delays split: if_splits)
  next
    case (Inr u)
    define db1 where "db1 = db\<lparr>dd_unfreezes := dd_unfreezes db @ [q]\<rparr>"
    define c where "c = scx_commission value"
    have b: "dd_unfreezes db1 = dd_unfreezes db @ [q]" "dd_requests db1 = dd_requests db" "warned i db1 = warned i db"
      "commission_row i db1 = Some d"
      using row by (simp_all add: db1_def warned_def commission_row_def)
    from r have r: "(case cev_reconcile_unfreeze env (ufz_reference u) of
             Inl _ \<Rightarrow> (Job_Snooze settlement_query_delay, db1)
           | Inr x \<Rightarrow>
               if \<not> ufz_outcome_known x then (Job_Snooze settlement_query_delay, db1)
               else if ufz_state x = ''succeeded'' then (Job_Done, db1)
               else finish (if com_status c = ComCancelled
                            then record_cancelled_unfreeze_failure env i stl (ufz_reference x) db1
                            else mark_commission_exception env i stl Ex_Unfreeze_Failed ''unfreeze_final_failed''
                                   (ufz_reference x) db1) db1) = (out, db')"
      unfolding release_from_def Let_def unfreeze_remaining_def id q_def [symmetric] Inr and_then_simps sum.case prod.case
        db1_def c_def .
    show ?thesis
    proof (cases "\<exists>x. cev_reconcile_unfreeze env (ufz_reference u) = Inr x \<and> ufz_outcome_known x \<and> ufz_state x \<noteq> ''succeeded''")
      case False
      with r Inr b p have "db' = db1 \<and> out = release_answer env i payment"
        by (auto simp: release_answer_def delays q_def [symmetric] split: sum.splits if_splits)
      with False Inr b show ?thesis by auto
    next
      case True
      then obtain x where x: "cev_reconcile_unfreeze env (ufz_reference u) = Inr x" "ufz_outcome_known x" "ufz_state x \<noteq> ''succeeded''"
        by blast
      with r ok have o: "out = Job_Done" and m: "(if com_status c = ComCancelled
                            then record_cancelled_unfreeze_failure env i stl (ufz_reference x) db1
                            else mark_commission_exception env i stl Ex_Unfreeze_Failed ''unfreeze_final_failed''
                                   (ufz_reference x) db1) = Inr db'"
        by (auto simp: finish_def split: sum.splits)
      have "(warned i db1 \<longrightarrow> warned i db') \<and> dd_unfreezes db' = dd_unfreezes db1 \<and> dd_requests db' = dd_requests db1
        \<and> (\<exists>d'. commission_row i db' = Some d' \<and> com_status d' \<in> {com_status d, ComException}) \<and> failure_recorded i db'"
      proof (cases "com_status c = ComCancelled")
        case True
        with m have "record_cancelled_unfreeze_failure env i stl (ufz_reference x) db1 = Inr db'" by simp
        then obtain ctx where v: "read_settlement_context i db1 = Inr ctx"
          and g: "(if com_status (scx_commission ctx) \<noteq> ComCancelled \<or> com_payable_minor (scx_commission ctx) \<noteq> 0 then Inl Dist_Conflict
       else case find_open_exception (com_id (scx_commission ctx)) Ex_Unfreeze_Failed db1 of
         Inr _ \<Rightarrow> Inr db1
       | Inl e \<Rightarrow> if e \<noteq> Dist_Not_Found then Inl e
           else and_then (insert_exception (open_exception (com_id (scx_commission ctx)) (settlement_id stl) Ex_Unfreeze_Failed 0
                            (com_paid_minor (scx_commission ctx)) 0 ''unfreeze_final_failed'' (ufz_reference x) worker_actor
                            (utc (cev_now env))) db1) (\<lambda>(y, db2).
             audit_within ''distribution.unfreeze_failure_opened.v1'' ''exception'' (exn_id y) worker_actor (utc (cev_now env)) db2)) = Inr db'"
          unfolding record_cancelled_unfreeze_failure_def Let_def by (rule and_then_InrE)
        from g have f: "(case find_open_exception (com_id (scx_commission ctx)) Ex_Unfreeze_Failed db1 of
         Inr _ \<Rightarrow> Inr db1
       | Inl e \<Rightarrow> if e \<noteq> Dist_Not_Found then Inl e
           else and_then (insert_exception (open_exception (com_id (scx_commission ctx)) (settlement_id stl) Ex_Unfreeze_Failed 0
                            (com_paid_minor (scx_commission ctx)) 0 ''unfreeze_final_failed'' (ufz_reference x) worker_actor
                            (utc (cev_now env))) db1) (\<lambda>(y, db2).
             audit_within ''distribution.unfreeze_failure_opened.v1'' ''exception'' (exn_id y) worker_actor (utc (cev_now env)) db2)) = Inr db'"
          by (metis (no_types, lifting) sum.distinct(1))
        have "still i db1 db'" using f by (auto split: sum.splits if_splits intro: open_and_audit_still)
        moreover have "dd_requests db' = dd_requests db1"
          using f by (auto simp: no_request_def split: sum.splits if_splits dest!: open_and_audit_quiet)
        moreover have "failure_recorded i db'"
          using opened_exception [OF f] read_settlement_context_row(2) [OF v] by (auto simp: failure_recorded_def list_ex_iff)
        ultimately show ?thesis using b by (auto simp: still_def)
      next
        case False
        with m obtain ctx where v: "read_settlement_context i db1 = Inr ctx"
          and f: "mark_exception_within (scx_commission ctx) stl Ex_Unfreeze_Failed ''unfreeze_final_failed'' (ufz_reference x)
             (utc (cev_now env)) db1 = Inr db'"
          by (auto simp: mark_commission_exception_def elim!: and_then_InrE)
        note row1 = read_settlement_context_row(1) [OF v]
        from mark_exception_within_wrote [OF row1 f] mark_exception_within_quiet [OF f]
        show ?thesis by (auto simp: wrote_def no_request_def failure_recorded_def)
      qed
      with o b Inr x p show ?thesis by (auto simp: release_answer_def q_def)
    qed
  qed
  from this [unfolded q_def] show "out = release_answer env i payment"
    "dd_unfreezes db' = dd_unfreezes db @ (case cev_unfreeze env (unfreeze_request_for i payment) of Inl _ \<Rightarrow> []
       | Inr _ \<Rightarrow> [unfreeze_request_for i payment])"
    "dd_requests db' = dd_requests db" "warned i db \<Longrightarrow> warned i db'"
    "\<exists>d'. commission_row i db' = Some d' \<and> com_status d' \<in> {com_status d, ComException}"
    "cev_unfreeze env (unfreeze_request_for i payment) = Inr u \<Longrightarrow> cev_reconcile_unfreeze env (ufz_reference u) = Inr x \<Longrightarrow>
      ufz_outcome_known x \<Longrightarrow> ufz_state x \<noteq> ''succeeded'' \<Longrightarrow> failure_recorded i db'"
    by blast+
qed

lemma release_remaining_effect:
  assumes r: "release_remaining env value stl db = (out, db')" and ok: "\<forall>e. out \<noteq> Job_Failed e"
    and row: "commission_row i db = Some d" and c: "scx_commission value = c" "com_id c = i"
  shows "out = release_answer env i (released_payment env c stl)"
    "dd_unfreezes db' = dd_unfreezes db @ (if release_accepted env c stl then [unfreeze_request_for i (released_payment env c stl)] else [])"
    "dd_requests db' = dd_requests db" "warned i db \<Longrightarrow> warned i db'"
    "\<exists>d'. commission_row i db' = Some d' \<and> com_status d' \<in> {com_status d, ComException}"
    "release_failed env c stl \<Longrightarrow> failure_recorded i db'"
proof -
  have "out = release_answer env i (released_payment env c stl)
    \<and> dd_unfreezes db' = dd_unfreezes db @ (if release_accepted env c stl then [unfreeze_request_for i (released_payment env c stl)] else [])
    \<and> dd_requests db' = dd_requests db \<and> (warned i db \<longrightarrow> warned i db')
    \<and> (\<exists>d'. commission_row i db' = Some d' \<and> com_status d' \<in> {com_status d, ComException})
    \<and> (release_failed env c stl \<longrightarrow> failure_recorded i db')"
  proof (cases "released_payment env c stl = []")
    case True
    then have "out = Job_Snooze (15 * minute) \<and> db' = db"
      using r c
      by (auto simp: release_remaining_def released_payment_def due_check_retry_delay_def split: if_splits sum.splits)
    with True row show ?thesis by (simp add: release_answer_def release_accepted_def release_failed_def)
  next
    case False
    then have "release_remaining env value stl db = release_from env value stl (released_payment env c stl) db"
      using c by (auto simp: release_remaining_def released_payment_def split: if_splits sum.splits)
    with r have "release_from env value stl (released_payment env c stl) db = (out, db')" by simp
    note e = release_from_effect [OF this ok row _ False, unfolded c, OF refl]
    show ?thesis
    proof (intro conjI impI)
      show "dd_unfreezes db' = dd_unfreezes db
        @ (if release_accepted env c stl then [unfreeze_request_for i (released_payment env c stl)] else [])"
        using e(2) False c(2) by (simp add: release_accepted_def split: sum.splits)
      show "failure_recorded i db'" if "release_failed env c stl"
        using that e(6) False c(2) by (auto simp: release_failed_def split: sum.splits)
    qed (use e in auto)
  qed
  then show "out = release_answer env i (released_payment env c stl)"
    "dd_unfreezes db' = dd_unfreezes db @ (if release_accepted env c stl then [unfreeze_request_for i (released_payment env c stl)] else [])"
    "dd_requests db' = dd_requests db" "warned i db \<Longrightarrow> warned i db'"
    "\<exists>d'. commission_row i db' = Some d' \<and> com_status d' \<in> {com_status d, ComException}"
    "release_failed env c stl \<Longrightarrow> failure_recorded i db'"
    by simp_all
qed

section \<open>The whole check\<close>

lemma load_settlement_reads:
  assumes "load_settlement i db = Inr (value, stl)" "scx_commission value = c"
  shows "1 \<le> i" "read_settlement_context i db = Inr value" "commission_row i db = Some c" "com_id c = i"
    "stl = Some s \<Longrightarrow> read_latest_settlement i db = Inr s \<and> stl_payment_ref s \<noteq> []"
proof -
  from assms(1) show v: "read_settlement_context i db = Inr value"
    by (auto simp: load_settlement_def split: sum.splits if_splits elim!: and_then_InrE)
  then show "1 \<le> i" by (auto simp: read_settlement_context_def split: if_splits)
  from read_settlement_context_row [OF v] assms(2) show "commission_row i db = Some c" "com_id c = i" by simp_all
  assume "stl = Some s"
  with assms(1) have "read_latest_settlement i db = Inr s"
    by (auto simp: load_settlement_def split: sum.splits if_splits elim!: and_then_InrE)
  then show "read_latest_settlement i db = Inr s \<and> stl_payment_ref s \<noteq> []"
    by (auto simp: read_latest_settlement_def scan_settlement_def split: if_splits option.splits)
qed

lemma known_status:
  assumes "load_settlement i db = Inr (value, stl)" "scx_commission value = c"
  shows "valid_commission_status (com_status c)"
  using load_settlement_reads(2,3) [OF assms] assms(2) joined_commission
  by (auto simp: read_settlement_context_def scan_settlement_context_def split: if_splits option.splits)

lemma warn_first_effect:
  assumes w: "warn_first env i value stl db = Inr db1" and l: "load_settlement i db = Inr (value, stl)" "scx_commission value = c"
  shows "still i db db1" "settlement_refs db1 = settlement_refs db" "dd_requests db1 = dd_requests db"
    "com_paid_minor c = 0 \<Longrightarrow> deadline_imminent (settlement_deadline stl) (cev_now env) \<Longrightarrow> warned i db1"
proof -
  note r = load_settlement_reads [OF l]
  have "still i db db1 \<and> settlement_refs db1 = settlement_refs db \<and> dd_requests db1 = dd_requests db
    \<and> (com_paid_minor c = 0 \<longrightarrow> deadline_imminent (settlement_deadline stl) (cev_now env) \<longrightarrow> warned i db1)"
  proof (cases "com_paid_minor c = 0 \<and> deadline_imminent (settlement_deadline stl) (cev_now env)")
    case True
    then obtain d where d: "settlement_deadline stl = Some d" by (auto simp: deadline_imminent_def split: option.splits)
    with w True l(2) r(2) have f: "record_deadline_warning_within c stl d (settlement_payment_ref stl) (cev_now env) db = Inr db1"
      by (auto simp: warn_first_def record_deadline_warning_def)
    have "settlement_refs db1 = settlement_refs db"
      using f unfolding record_deadline_warning_within_def by (auto split: sum.splits if_splits dest: open_and_audit_refs)
    with True d record_deadline_warning_within_warns [OF f, of i] record_deadline_warning_within_quiet [OF f] r(4)
    show ?thesis by (simp add: no_request_def)
  next
    case False
    with w l(2) have "db1 = db" by (auto simp: warn_first_def split: option.splits if_splits)
    with False show ?thesis by auto
  qed
  then show "still i db db1" "settlement_refs db1 = settlement_refs db" "dd_requests db1 = dd_requests db"
    "com_paid_minor c = 0 \<Longrightarrow> deadline_imminent (settlement_deadline stl) (cev_now env) \<Longrightarrow> warned i db1" by auto
qed

text \<open>What the check owes, whichever way it goes.\<close>

definition due_duties ::
  "commission_env \<Rightarrow> int64 \<Rightarrow> commission \<Rightarrow> settlement option \<Rightarrow> commission_db \<Rightarrow> job_outcome \<Rightarrow> commission_db \<Rightarrow> commission \<Rightarrow> bool" where
  "due_duties env i c stl db out db' d \<longleftrightarrow>
     out = due_answer env c stl
     \<and> (warning_owed env c stl \<longrightarrow> warned i db' \<or> may_release env c stl \<and> com_status c \<in> {ComSettling, ComException}
          \<or> com_status c \<in> {ComPending, ComHeld} \<and> com_status d = ComCancelled)
     \<and> dd_unfreezes db' = dd_unfreezes db
          @ (if may_release env c stl \<and> release_accepted env c stl then [unfreeze_request_for i (released_payment env c stl)] else [])
     \<and> (may_release env c stl \<and> release_failed env c stl \<longrightarrow> failure_recorded i db')
     \<and> (dd_requests db' \<noteq> dd_requests db \<longrightarrow>
          com_status c \<in> {ComPending, ComHeld} \<and> com_due_at c \<le> cev_now env \<and> com_status d = ComSettling)
     \<and> (may_release env c stl \<longrightarrow> com_status d \<in> {ComPaid, ComCancelled, ComException})
     \<and> (com_status c = ComZero \<longrightarrow> com_status d = ComZero)
     \<and> (\<not> may_release env c stl \<longrightarrow> com_status c \<in> {ComSettling, ComException} \<longrightarrow>
          (case cev_reconcile env (settlement_instruction_ref stl) of
             Inr _ \<Rightarrow> if settlement_instruction_ref stl = [] then com_status d = com_status c else com_status d = ComException
           | Inl _ \<Rightarrow> com_status d = com_status c))"

lemma preflight_answer:
  "com_status c \<in> {ComPending, ComHeld} \<Longrightarrow> due_answer env c stl = (case cev_preflight_state env (com_order_id c) of
        Inl _ \<Rightarrow> Job_Snooze (15 * minute)
      | Inr _ \<Rightarrow> Job_Snooze (if cev_now env < com_due_at c then minute else 5 * minute)) \<and> \<not> may_release env c stl"
  by (auto simp: due_answer_def may_release_def)

lemma due_check_prepares:
  assumes l: "load_settlement i db = Inr (value, stl)" "scx_commission value = c" and w: "warn_first env i value stl db = Inr db1"
    and st: "com_status c \<in> {ComPending, ComHeld}"
    and r: "(case cev_preflight_state env (com_order_id c) of
        Inl _ \<Rightarrow> (Job_Snooze due_check_retry_delay, db1)
      | Inr state \<Rightarrow> (case prepare_settlement env i state db1 of
           Inl e \<Rightarrow> (Job_Failed e, db1)
         | Inr (retry, db2) \<Rightarrow> (Job_Snooze (if retry then minute else settlement_query_delay), db2))) = (out, db')"
    and ok: "\<forall>e. out \<noteq> Job_Failed e"
  shows "\<exists>d. commission_row i db' = Some d \<and> due_duties env i c stl db out db' d"
proof -
  note f = warn_first_effect [OF w l] and a = preflight_answer [OF st, of env stl]
  have row1: "commission_row i db1 = Some c" using f(1) load_settlement_reads(3) [OF l] by (simp add: still_def)
  have u1: "dd_unfreezes db1 = dd_unfreezes db" using f(1) by (simp add: still_def)
  have ns: "com_status c \<notin> {ComSettling, ComException}" using st by auto
  show ?thesis
  proof (cases "cev_preflight_state env (com_order_id c)")
    case (Inl e)
    with r have "db' = db1" "out = Job_Snooze (15 * minute)" by (simp_all add: due_check_retry_delay_def)
    with Inl a row1 u1 f(3,4) ns show ?thesis by (auto simp: due_duties_def warning_owed_def)
  next
    case (Inr state)
    with r ok obtain retry where p: "prepare_settlement env i state db1 = Inr (retry, db')"
      and o: "out = Job_Snooze (if retry then minute else settlement_query_delay)"
      by (cases "prepare_settlement env i state db1") auto
    note m = prepare_settlement_wrote [OF p row1 st]
    from m(1) obtain s where s: "wrote i s db1 db'" "dd_requests db' \<noteq> dd_requests db1 \<longrightarrow> s = ComSettling" "s \<noteq> ComPaid" by blast
    then obtain d where d: "commission_row i db' = Some d" "com_status d = s" by (auto simp: wrote_def)
    have due: "com_due_at c \<le> cev_now env" if "dd_requests db' \<noteq> dd_requests db1"
      using prepare_settlement_gates [OF p that] row1 by auto
    have warn: "warned i db' \<or> s = ComCancelled" if "warning_owed env c stl"
    proof -
      from that Inr have "com_paid_minor c = 0" "deadline_imminent (settlement_deadline stl) (cev_now env)
          \<or> deadline_imminent (Some (dps_deadline state)) (cev_now env)" by (auto simp: warning_owed_def)
      then show ?thesis using f(4) s m(3) d by (auto simp: wrote_def)
    qed
    from s(1) u1 have u: "dd_unfreezes db' = dd_unfreezes db" by (simp add: wrote_def)
    have "out = due_answer env c stl" using a Inr o m(2) by (simp add: settlement_query_delay_def)
    with a d s u warn due f(3) ns st show ?thesis by (auto simp: due_duties_def)
  qed
qed

lemma due_check_releases:
  assumes l: "load_settlement i db = Inr (value, stl)" "scx_commission value = c" and w: "warn_first env i value stl db = Inr db1"
    and st: "com_status c \<in> {ComPaid, ComCancelled}"
    and r: "release_remaining env value stl db1 = (out, db')" and ok: "\<forall>e. out \<noteq> Job_Failed e"
  shows "\<exists>d. commission_row i db' = Some d \<and> due_duties env i c stl db out db' d"
proof -
  note f = warn_first_effect [OF w l] and id = load_settlement_reads(4) [OF l]
  have row1: "commission_row i db1 = Some c" using f(1) load_settlement_reads(3) [OF l] by (simp add: still_def)
  have u1: "dd_unfreezes db1 = dd_unfreezes db" using f(1) by (simp add: still_def)
  have m: "may_release env c stl" using st by (simp add: may_release_def)
  note e = release_remaining_effect [OF r ok row1 l(2) id]
  from e(5) obtain d where d: "commission_row i db' = Some d" "com_status d \<in> {com_status c, ComException}" by blast
  have "out = due_answer env c stl" using e(1) m id by (simp add: due_answer_def)
  moreover have "warned i db'" if "warning_owed env c stl"
    using that st f(4) e(4) by (auto simp: warning_owed_def)
  ultimately show ?thesis using m d st e(2,3,6) u1 f(3) by (auto simp: due_duties_def)
qed

lemma due_check_reconciles:
  assumes l: "load_settlement i db = Inr (value, stl)" "scx_commission value = c" and w: "warn_first env i value stl db = Inr db1"
    and st: "com_status c \<in> {ComSettling, ComException}" and ins: "settlement_instruction_ref stl \<noteq> []"
    and x: "cev_reconcile env (settlement_instruction_ref stl) = Inr x"
    and r: "reconcile_and_release env i x db1 = (out, db')" and ok: "\<forall>e. out \<noteq> Job_Failed e"
  shows "\<exists>d. commission_row i db' = Some d \<and> due_duties env i c stl db out db' d"
proof -
  note f = warn_first_effect [OF w l] and id = load_settlement_reads(4) [OF l]
  have row1: "commission_row i db1 = Some c" using f(1) load_settlement_reads(3) [OF l] by (simp add: still_def)
  have u1: "dd_unfreezes db1 = dd_unfreezes db" using f(1) by (simp add: still_def)
  from r ok obtain rec db2 where a: "apply_reconciliation env i x db1 = Inr (rec, db2)"
    by (cases "apply_reconciliation env i x db1") (auto simp: reconcile_and_release_def)
  from apply_reconciliation_wrote [OF a row1] obtain s where s: "wrote i s db1 db2" "s \<in> {ComPaid, ComCancelled, ComException}"
    "rec = Rec_Unknown \<Longrightarrow> s = ComException" and refs: "settlement_refs db2 = settlement_refs db1"
    and fin: "rec = Rec_Finalized \<longleftrightarrow> shi_confirmed_success x \<or> shi_outcome_known x" by blast
  have m: "may_release env c stl \<longleftrightarrow> rec = Rec_Finalized"
    using st ins x fin by (auto simp: may_release_def split_closed_def)
  have q2: "dd_requests db2 = dd_requests db1" using apply_reconciliation_requests [OF a] .
  from s(1) obtain d2 where d2: "commission_row i db2 = Some d2" "com_status d2 = s" by (auto simp: wrote_def)
  have warn1: "warned i db1" if "warning_owed env c stl" using that st f(4) by (auto simp: warning_owed_def)
  show ?thesis
  proof (cases rec)
    case Rec_Unknown
    with r a have o: "out = Job_Snooze (5 * minute)" "db' = db2"
      by (auto simp: reconcile_and_release_def settlement_query_delay_def)
    have nm: "\<not> may_release env c stl" using m Rec_Unknown by simp
    have "out = due_answer env c stl" using o nm st ins by (auto simp: due_answer_def)
    moreover have "warned i db2" if "warning_owed env c stl"
      using warn1 [OF that] s(1) s(3) [OF Rec_Unknown] by (auto simp: wrote_def)
    ultimately show ?thesis
      using o nm d2 s(3) [OF Rec_Unknown] s(1) q2 f(3) u1 x ins st by (auto simp: due_duties_def wrote_def)
  next
    case Rec_Finalized
    with r a ok obtain v' s' where v: "read_settlement_context i db2 = Inr v'" and s': "read_latest_settlement i db2 = Inr s'"
      and rr: "release_remaining env v' (Some s') db2 = (out, db')"
      unfolding reconcile_and_release_def by (auto simp: and_then_def split: sum.splits)
    from ins obtain t where t: "stl = Some t" by (cases stl) (auto simp: settlement_instruction_ref_def)
    note lt = load_settlement_reads(5) [OF l t]
    have p: "stl_payment_ref s' = stl_payment_ref t"
      using latest_payment_ref [OF _ _ s'] refs f(2) lt by simp
    have c': "com_id (scx_commission v') = i" using read_settlement_context_row(2) [OF v] .
    have rp: "released_payment env (scx_commission v') (Some s') = released_payment env c stl"
      using p lt t by (simp add: released_payment_def settlement_payment_ref_def)
    have same: "release_accepted env (scx_commission v') (Some s') = release_accepted env c stl"
      "release_failed env (scx_commission v') (Some s') = release_failed env c stl"
      using rp c' id by (simp_all add: release_accepted_def release_failed_def)
    note e = release_remaining_effect [OF rr ok d2(1) refl c', unfolded rp same]
    from e(5) obtain d where d: "commission_row i db' = Some d" "com_status d \<in> {s, ComException}" using d2(2) by auto
    have m: "may_release env c stl" using m Rec_Finalized by simp
    have "out = due_answer env c stl" using e(1) m id by (simp add: due_answer_def)
    with m d s(1,2) e(2,3,6) u1 q2 f(3) st show ?thesis by (auto simp: due_duties_def wrote_def)
  qed
qed

lemma run_due_check_duties:
  assumes r: "run_due_check env i db = (out, db')" and ok: "\<forall>e. out \<noteq> Job_Failed e"
    and l: "load_settlement i db = Inr (value, stl)" "scx_commission value = c"
  shows "\<exists>d. commission_row i db' = Some d \<and> due_duties env i c stl db out db' d"
proof -
  from r ok l load_settlement_reads(1) [OF l] obtain db1 where w: "warn_first env i value stl db = Inr db1"
    by (cases "warn_first env i value stl db") (auto simp: run_due_check_def)
  have e: "(if com_status c = ComPaid \<or> com_status c = ComCancelled then release_remaining env value stl db1
       else if com_status c = ComZero then (Job_Done, db1)
       else if com_status c = ComSettling \<or> com_status c = ComException then
         if settlement_instruction_ref stl = [] then (Job_Done, db1)
         else (case cev_reconcile env (settlement_instruction_ref stl) of
                 Inl _ \<Rightarrow> (Job_Snooze settlement_query_delay, db1)
               | Inr instruction \<Rightarrow> reconcile_and_release env i instruction db1)
       else (case cev_preflight_state env (com_order_id c) of
               Inl _ \<Rightarrow> (Job_Snooze due_check_retry_delay, db1)
             | Inr state \<Rightarrow>
                 (case prepare_settlement env i state db1 of
                    Inl e \<Rightarrow> (Job_Failed e, db1)
                  | Inr (retry, db2) \<Rightarrow>
                      (Job_Snooze (if retry then minute else settlement_query_delay), db2)))) = (out, db')"
    using r load_settlement_reads(1) [OF l] unfolding run_due_check_def l w sum.case prod.case Let_def by simp
  note f = warn_first_effect [OF w l]
  have here: "\<exists>d. commission_row i db1 = Some d \<and> due_duties env i c stl db out db1 d"
    if "out = due_answer env c stl" "\<not> may_release env c stl" "com_status c \<notin> {ComPending, ComHeld}"
      "com_status c = ComZero \<or> settlement_instruction_ref stl = [] \<or> (\<exists>e. cev_reconcile env (settlement_instruction_ref stl) = Inl e)"
  proof -
    have "warned i db1" if "warning_owed env c stl" using that f(4) \<open>com_status c \<notin> {ComPending, ComHeld}\<close>
      by (auto simp: warning_owed_def)
    with that f(1,3) load_settlement_reads(3) [OF l] show ?thesis by (auto simp: due_duties_def still_def split: sum.splits)
  qed
  consider "com_status c \<in> {ComPaid, ComCancelled}" | "com_status c = ComZero" | "com_status c \<in> {ComSettling, ComException}"
    | "com_status c \<in> {ComPending, ComHeld}"
    using known_status [OF l] by (cases "com_status c") (auto simp: valid_commission_status_def)
  then show ?thesis
  proof cases
    case 1
    with e have "release_remaining env value stl db1 = (out, db')" by auto
    with due_check_releases [OF l w 1 _ ok] show ?thesis .
  next
    case 2
    with e show ?thesis using here by (auto simp: due_duties_def due_answer_def may_release_def)
  next
    case 3
    show ?thesis
    proof (cases "settlement_instruction_ref stl = [] \<or> (\<exists>e. cev_reconcile env (settlement_instruction_ref stl) = Inl e)")
      case True
      then have nm: "\<not> may_release env c stl" using 3 by (auto simp: may_release_def split_closed_def)
      then have "db' = db1" "out = due_answer env c stl"
        using e True 3 by (auto simp: due_answer_def settlement_query_delay_def split: if_splits)
      with here nm True 3 show ?thesis by auto
    next
      case False
      then obtain x where x: "cev_reconcile env (settlement_instruction_ref stl) = Inr x" and ins: "settlement_instruction_ref stl \<noteq> []"
        by (cases "cev_reconcile env (settlement_instruction_ref stl)") auto
      with e 3 have "reconcile_and_release env i x db1 = (out, db')" by auto
      with due_check_reconciles [OF l w 3 ins x _ ok] show ?thesis .
    qed
  next
    case 4
    with e show ?thesis by (intro due_check_prepares [OF l w 4 _ ok]) auto
  qed
qed

lemma not_done:
  "due_answer env c stl = Job_Done \<Longrightarrow> \<not> may_release env c stl \<Longrightarrow>
    com_status c = ComZero \<or> com_status c \<in> {ComSettling, ComException} \<and> settlement_instruction_ref stl = []"
  by (auto simp: due_answer_def split: if_splits sum.splits)

end
