(* ===== verification/Commission_Properties.thy ===== *)
theory Commission_Properties
  imports Commission_Due
begin

text \<open>
  The properties of the distribution services. Those of the first part hold in every state the
  units of work reach from empty tables, by the interpretation \<open>ledger\<close> of \<open>Commission_Steps\<close>;
  the others are about single units of work.
\<close>

section \<open>The sample run\<close>

lemma sample_reachable:
  "commission_step\<^sup>*\<^sup>* empty_commission_db sample_opened" "commission_step\<^sup>*\<^sup>* sample_opened sample_paid_db"
proof -
  have "sample_tables = empty_commission_db\<lparr>dd_policies := dd_policies sample_tables, dd_attributions := dd_attributions sample_tables,
      dd_distributors := dd_distributors sample_tables\<rparr>"
    by (simp add: sample_tables_def)
  with commission_step.Elsewhere have "commission_step empty_commission_db sample_tables" by metis
  with commission_step.Order_Paid [OF sample_opens] show "commission_step\<^sup>*\<^sup>* empty_commission_db sample_opened"
    by (meson rtranclp.rtrancl_refl rtranclp.rtrancl_into_rtrancl)
  from commission_step.Settlement_Prepared [OF sample_prepares] commission_step.Instruction_Reconciled [OF sample_reconciles]
  show "commission_step\<^sup>*\<^sup>* sample_opened sample_paid_db"
    by (meson rtranclp.rtrancl_refl rtranclp.rtrancl_into_rtrancl)
qed

lemma sample_reachable_paid: "commission_step\<^sup>*\<^sup>* empty_commission_db sample_paid_db"
  using sample_reachable by (rule rtranclp_trans)

lemma sample_rows:
  "commission_row 1 sample_opened = Some sample_row"
  "\<exists>c. commission_row 1 sample_paid_db = Some c \<and> com_paid_minor c = 180 \<and> com_payable_minor c = 180"
  by (simp_all add: commission_row_def sample_opened_def sample_paid_db_def sample_submitting_def sample_row_def sample_commission_def)

section \<open>The books along every run\<close>

lemma reachable_books_ok: "commission_step\<^sup>*\<^sup>* empty_commission_db db \<Longrightarrow> books_ok db"
  using ledger.run_inv books_ok_empty(1) by blast

lemma reachable_book: "commission_step\<^sup>*\<^sup>* empty_commission_db db \<Longrightarrow> book_inv (book i db)"
  using reachable_books_ok by (simp add: books_ok_def)

lemma kept_books:
  assumes "commission_step\<^sup>*\<^sup>* empty_commission_db db" "commission_step\<^sup>*\<^sup>* db db'"
  shows "book_kept (book i db) (book i db')"
  using ledger.view_relation [OF assms(2) reachable_books_ok [OF assms(1)], of book_inv i book_kept]
    book_step_kept book_kept_refl book_kept_trans reachable_book [OF assms(1)] by blast

text \<open>
  C9: Whatever paid events, due checks, refund rechecks, warnings, reconciliations and commands
  of administrators interleave, the tables of the distribution module are, for every
  commission, a run of the abstract books: the value changes only with an adjustment of the
  same size, a split is accepted only together with its settlement, a payment is that of a
  settlement, and what is recovered or borne by the merchant stays within what was paid.
\<close>

theorem commission_runs_refine_books:
  assumes "commission_step\<^sup>*\<^sup>* empty_commission_db db"
  shows "book_step\<^sup>*\<^sup>* empty_book (book i db)"
  using ledger.run_view [of empty_commission_db db i] assms books_ok_empty by simp

theorem commission_runs_refine_books_witness:
  "book_step\<^sup>*\<^sup>* empty_book (book 1 sample_paid_db) \<and> bk_row (book 1 sample_paid_db) \<noteq> None"
  using commission_runs_refine_books [OF sample_reachable_paid, of 1] sample_rows(2) by auto

text \<open>
  C4: The adjustments explain the amounts. In every reachable state a commission is worth its
  initial amount plus the recorded adjustments of its value, stays between zero and the
  initial amount, which is at most three tenths of what was paid, and what was recovered or
  borne by the merchant for it never exceeds what was paid out.
\<close>

theorem commission_ledger:
  assumes "commission_step\<^sup>*\<^sup>* empty_commission_db db" "commission_row i db = Some c"
  shows "com_payable_minor c = com_initial_minor c + adjustment_sum True i (dd_adjustments db)
    \<and> 0 \<le> com_payable_minor c \<and> com_payable_minor c \<le> com_initial_minor c
    \<and> com_initial_minor c = com_original_paid_minor c * com_rate c div 10000
    \<and> 10 * com_initial_minor c \<le> 3 * com_original_paid_minor c
    \<and> 0 \<le> adjustment_sum False i (dd_adjustments db) \<and> adjustment_sum False i (dd_adjustments db) \<le> com_paid_minor c"
proof -
  have b: "book_inv (book i db)" "bk_row (book i db) = Some c" using reachable_book [OF assms(1)] assms(2) by simp_all
  note d = book_invD [OF b]
  have "com_original_paid_minor c * com_rate c \<le> com_original_paid_minor c * 3000"
    using d(2) by (intro mult_left_mono) (auto simp: terms_ok_def)
  then have "10 * (com_original_paid_minor c * com_rate c div 10000) \<le> 3 * com_original_paid_minor c" by linarith
  then show ?thesis using d(2-5) terms_payable [OF d(2,1)] by (simp add: book_def terms_ok_def)
qed

theorem commission_ledger_witness:
  "com_payable_minor sample_row = 180 + adjustment_sum True 1 (dd_adjustments sample_opened) \<and> 10 * 180 \<le> 3 * (1200 :: int)"
  using commission_ledger [OF sample_reachable(1) sample_rows(1)] by (simp add: sample_row_def)

text \<open>
  C3: A commission is split once. In every reachable state Payment has accepted at most one
  split for a commission; its amount is between one unit and the initial amount, none exists
  before the settlement, it is what is payable while the settlement runs, and an amount is
  recorded as paid only if it is the amount of that split.
\<close>

theorem one_split_per_commission:
  assumes "commission_step\<^sup>*\<^sup>* empty_commission_db db" "commission_row i db = Some c"
  shows "length (filter (\<lambda>r. shr_settlement_ref r = settlement_reference i) (dd_requests db)) \<le> 1
    \<and> (\<forall>r\<in>set (dd_requests db). shr_settlement_ref r = settlement_reference i \<longrightarrow>
         1 \<le> shr_amount r \<and> shr_amount r \<le> com_initial_minor c
         \<and> com_status c \<notin> {ComPending, ComHeld, ComZero}
         \<and> (com_status c = ComSettling \<longrightarrow> shr_amount r = com_payable_minor c))
    \<and> (0 < com_paid_minor c \<longrightarrow>
         (\<exists>r\<in>set (dd_requests db). shr_settlement_ref r = settlement_reference i \<and> shr_amount r = com_paid_minor c))"
proof -
  have b: "book_inv (book i db)" "bk_row (book i db) = Some c" using reachable_book [OF assms(1)] assms(2) by simp_all
  note d = book_invD [OF b]
  define rs where "rs = filter (\<lambda>r. shr_settlement_ref r = settlement_reference i) (dd_requests db)"
  have rs: "bk_requests (book i db) = map shr_amount rs" by (simp add: book_def rs_def)
  have mem: "r \<in> set rs \<longleftrightarrow> r \<in> set (dd_requests db) \<and> shr_settlement_ref r = settlement_reference i" for r
    by (auto simp: rs_def)
  have l: "length rs \<le> 1" using d(7) rs by simp
  have a: "1 \<le> shr_amount r \<and> shr_amount r \<le> com_initial_minor c \<and> com_status c \<notin> {ComPending, ComHeld, ComZero}
         \<and> (com_status c = ComSettling \<longrightarrow> shr_amount r = com_payable_minor c)" if "r \<in> set rs" for r
  proof -
    from that l have "rs = [r]" by (cases rs) auto
    then show ?thesis using d(8-10) rs by auto
  qed
  have p: "\<exists>r\<in>set rs. shr_amount r = com_paid_minor c" if "0 < com_paid_minor c"
    using d(11) [OF that] rs by auto
  from l a p show ?thesis unfolding rs_def [symmetric] using mem by blast
qed

theorem one_split_per_commission_witness:
  "\<exists>r\<in>set (dd_requests sample_paid_db). shr_settlement_ref r = settlement_reference 1 \<and> shr_amount r = 180"
  using sample_rows(2) one_split_per_commission [OF sample_reachable_paid, of 1] by force

text \<open>
  C10: Nothing is taken back. Along every run from a reachable state a commission keeps its
  order, distributor, rate, initial and original amounts and its due date, an amount once
  paid stays as it is, a cancelled or zero commission stays so, an accepted split stays
  accepted, and what was recovered or borne by the merchant does not shrink.
\<close>

theorem nothing_taken_back:
  assumes "commission_step\<^sup>*\<^sup>* empty_commission_db db" "commission_step\<^sup>*\<^sup>* db db'" "commission_row i db = Some c"
  shows "\<exists>d. commission_row i db' = Some d \<and> commission_kept c d
    \<and> adjustment_sum False i (dd_adjustments db) \<le> adjustment_sum False i (dd_adjustments db')
    \<and> set (bk_requests (book i db)) \<subseteq> set (bk_requests (book i db'))"
  using kept_books [OF assms(1,2), of i] assms(3) by (auto simp: book_kept_def) (auto simp: book_def)

theorem nothing_taken_back_witness: "\<exists>d. commission_row 1 sample_paid_db = Some d \<and> commission_kept sample_row d"
  using nothing_taken_back [OF sample_reachable sample_rows(1)] by blast

text \<open>
  C13: A due check that does not fail does what it owes. Its answer to the queue (done, or to be
  repeated after one, five or fifteen minutes) depends only on the status, the due time and
  the settlement of the commission and on what Payment says, by a fixed decision table. An
  imminent split deadline of an unpaid commission leaves an open warning, unless this check
  cancels the commission or finds its split closed. The rest of the payment is released, once
  and for the right payment, exactly when nothing more will be paid and Payment takes the
  request, and a release refused for good is recorded as an exception. A split is handed to
  Payment only when the commission was pending or held and due, and it is settling then. A split
  whose outcome is unknown leaves an exception, and a job that is done leaves no commission
  waiting: it is zero, paid, cancelled or an exception, or it has no instruction to ask about.
\<close>

theorem due_check_duties:
  assumes "run_due_check env i db = (out, db')" "\<forall>e. out \<noteq> Job_Failed e"
    and "load_settlement i db = Inr (value, stl)" "scx_commission value = c"
  shows "\<exists>d. commission_row i db' = Some d \<and> out = due_answer env c stl
    \<and> (warning_owed env c stl \<longrightarrow> warned i db' \<or> may_release env c stl \<and> com_status c \<in> {ComSettling, ComException}
         \<or> com_status c \<in> {ComPending, ComHeld} \<and> com_status d = ComCancelled)
    \<and> dd_unfreezes db' = dd_unfreezes db
         @ (if may_release env c stl \<and> release_accepted env c stl then [unfreeze_request_for i (released_payment env c stl)] else [])
    \<and> (may_release env c stl \<and> release_failed env c stl \<longrightarrow> failure_recorded i db')
    \<and> (dd_requests db' \<noteq> dd_requests db \<longrightarrow>
         com_status c \<in> {ComPending, ComHeld} \<and> com_due_at c \<le> cev_now env \<and> com_status d = ComSettling)
    \<and> (com_status c \<in> {ComSettling, ComException} \<and> settlement_instruction_ref stl \<noteq> [] \<and> \<not> split_closed env stl
         \<and> (\<exists>x. cev_reconcile env (settlement_instruction_ref stl) = Inr x) \<longrightarrow> com_status d = ComException)
    \<and> (out = Job_Done \<longrightarrow> com_status d \<in> {ComZero, ComPaid, ComCancelled, ComException}
         \<or> com_status c = ComSettling \<and> settlement_instruction_ref stl = [])"
proof -
  from run_due_check_duties [OF assms] obtain d where row: "commission_row i db' = Some d" and "due_duties env i c stl db out db' d"
    by blast
  note d = this(2) [unfolded due_duties_def]
  have done': "com_status d \<in> {ComZero, ComPaid, ComCancelled, ComException} \<or> com_status c = ComSettling \<and> settlement_instruction_ref stl = []"
    if "out = Job_Done"
  proof (cases "may_release env c stl")
    case False
    with that d not_done [of env c stl] consider "com_status c = ComZero"
      | "com_status c \<in> {ComSettling, ComException}" "settlement_instruction_ref stl = []" by auto
    then show ?thesis using d False by cases (auto split: sum.splits)
  qed (use d in blast)
  have unknown: "com_status d = ComException" if "com_status c \<in> {ComSettling, ComException}"
    "settlement_instruction_ref stl \<noteq> []" "\<not> split_closed env stl" "cev_reconcile env (settlement_instruction_ref stl) = Inr x" for x
  proof -
    have "\<not> may_release env c stl" using that by (auto simp: may_release_def)
    with d that show ?thesis by auto
  qed
  show ?thesis
    by (intro exI [of _ d] conjI impI; (elim conjE exE)?) (use row d done' unknown in blast)+
qed

definition sample_unfreeze :: sharing_unfreeze where
  "sample_unfreeze = \<lparr>ufz_reference = ''unfreeze_1'', ufz_payment_ref = ''payment-1'', ufz_state = ''succeeded'',
     ufz_effect_ref = ''effect-2'', ufz_outcome_known = True, ufz_version = 1, ufz_updated_at = 90\<rparr>"

definition releasing_env :: "time \<Rightarrow> commission_env" where
  "releasing_env now = (sample_env now)\<lparr>cev_unfreeze := \<lambda>_. Inr sample_unfreeze, cev_reconcile_unfreeze := \<lambda>_. Inr sample_unfreeze\<rparr>"

lemma sample_checks_split:
  "load_settlement 1 sample_opened = Inr (sample_context, None)"
  "run_due_check (sample_env (sample_due + 1)) 1 sample_opened = (Job_Snooze (5 * minute), sample_settling)"
proof -
  have "dd_settlements sample_opened = []" by (simp add: sample_opened_def sample_tables_def empty_commission_db_def)
  then show l: "load_settlement 1 sample_opened = Inr (sample_context, None)"
    by (simp add: load_settlement_def sample_reads(1) read_latest_settlement_def)
  have c: "scx_commission sample_context = sample_row" "com_status sample_row = ComPending"
    by (simp_all add: sample_context_def sample_row_def sample_commission_def)
  have "cev_preflight_state (sample_env t) x = Inr sample_payment_state" for t x by (simp add: sample_env_def)
  then show "run_due_check (sample_env (sample_due + 1)) 1 sample_opened = (Job_Snooze (5 * minute), sample_settling)"
    by (simp add: run_due_check_def l warn_first_def settlement_deadline_def c sample_prepares settlement_query_delay_def)
qed

lemma sample_checks_release:
  "\<exists>value s db. load_settlement 1 sample_paid_db = Inr (value, Some s) \<and> com_status (scx_commission value) = ComPaid
     \<and> com_id (scx_commission value) = 1 \<and> stl_payment_ref s = ''payment-1''
     \<and> run_due_check (releasing_env (sample_due + 3)) 1 sample_paid_db = (Job_Done, db)"
proof -
  define c where "c = sample_submitting\<lparr>com_status := ComPaid, com_paid_minor := 180, com_version := 3, com_updated_at := sample_due + 2\<rparr>"
  define s where "s = sample_accepted\<lparr>stl_state := Stl_Succeeded, stl_version := 3, stl_updated_at := sample_due + 2\<rparr>"
  have f: "com_status c = ComPaid" "com_id c = 1" "com_paid_minor c = 180" "stl_payment_ref s = ''payment-1''"
    by (simp_all add: c_def s_def sample_submitting_def sample_row_def sample_accepted_def sample_planned_def)
  have r: "read_settlement_context 1 sample_paid_db = Inr (sample_context\<lparr>scx_commission := c\<rparr>)"
    by (simp add: read_settlement_context_def commission_row_def joined_def sample_paid_db_def sample_settling_def sample_opened_def c_def
      sample_submitting_def sample_row_def sample_commission_def scan_settlement_context_def sample_context_def sample_tables_facts)
  have "dd_settlements sample_paid_db = [s]" by (simp add: sample_paid_db_def s_def)
  moreover have "scan_settlement s = Inr s" "stl_commission_id s = 1"
    by (simp_all add: scan_settlement_def s_def sample_accepted_def sample_planned_def sample_due_def)
  ultimately have l: "load_settlement 1 sample_paid_db = Inr (sample_context\<lparr>scx_commission := c\<rparr>, Some s)"
    by (simp add: load_settlement_def r read_latest_settlement_def)
  have "\<exists>db. run_due_check (releasing_env (sample_due + 3)) 1 sample_paid_db = (Job_Done, db)"
    by (simp add: run_due_check_def l f warn_first_def release_remaining_def settlement_payment_ref_def release_from_def
      unfreeze_remaining_def releasing_env_def sample_unfreeze_def split: option.split)
  with l f show ?thesis by auto
qed

theorem due_check_duties_witness:
  "dd_unfreezes (snd (run_due_check (sample_env (sample_due + 1)) 1 sample_opened)) = []
    \<and> (\<exists>db. run_due_check (releasing_env (sample_due + 3)) 1 sample_paid_db = (Job_Done, db)
         \<and> dd_unfreezes db = [unfreeze_request_for 1 ''payment-1''])"
proof -
  have n: "dd_unfreezes sample_opened = []" "dd_unfreezes sample_paid_db = []"
    by (simp_all add: sample_paid_db_def sample_settling_def sample_opened_def sample_tables_def empty_commission_db_def)
  have "\<not> may_release e (scx_commission sample_context) None" for e
    by (simp add: may_release_def sample_context_def sample_row_def sample_commission_def)
  with due_check_duties [OF sample_checks_split(2) _ sample_checks_split(1) refl] n
  have split_left: "dd_unfreezes (snd (run_due_check (sample_env (sample_due + 1)) 1 sample_opened)) = []" by (auto simp: sample_checks_split(2))
  from sample_checks_release obtain v s db where l: "load_settlement 1 sample_paid_db = Inr (v, Some s)"
    and f: "com_status (scx_commission v) = ComPaid" "com_id (scx_commission v) = 1" "stl_payment_ref s = ''payment-1''"
    and r: "run_due_check (releasing_env (sample_due + 3)) 1 sample_paid_db = (Job_Done, db)" by blast
  have p: "released_payment (releasing_env (sample_due + 3)) (scx_commission v) (Some s) = ''payment-1''"
    "may_release (releasing_env (sample_due + 3)) (scx_commission v) (Some s)"
    using f by (simp_all add: released_payment_def settlement_payment_ref_def may_release_def)
  moreover have "release_accepted (releasing_env (sample_due + 3)) (scx_commission v) (Some s)"
    by (simp add: release_accepted_def p) (simp add: releasing_env_def)
  ultimately have "dd_unfreezes db = [unfreeze_request_for 1 ''payment-1'']"
    using due_check_duties [OF r _ l refl] n by auto
  with split_left r show ?thesis by blast
qed

text \<open>
  C8: Money leaves only through all gates. When a due check hands a split to Payment, the
  commission was due, the payment confirmed and free of refunds under way, the distributor
  still eligible on a proved purchase and its receiver ready, Payment could split before
  the deadline and had the funds; the split goes to the distributor's customer for that
  payment and is worth what is left of the commission after the refunds.
\<close>

theorem split_gates:
  assumes "prepare_settlement env i state db = Inr (retry, db')" "dd_requests db' \<noteq> dd_requests db"
  shows "\<exists>x c d receiver q r. read_settlement_context i db = Inr x \<and> c = scx_commission x \<and> com_due_at c \<le> cev_now env
    \<and> dps_confirmed_paid state \<and> dps_payment_ref state \<noteq> [] \<and> \<not> dps_refund_exposure state
    \<and> read_distributor (com_distributor_id c) db = Inr (d, receiver)
    \<and> check_within env (dst_customer_id d) (scx_product_id x) (scx_product_type x) = Inr q \<and> ql_state q = QualEligible
    \<and> cev_receiver_ready env (dst_customer_id d) (rcv_app_id receiver) = Inr True
    \<and> dps_split_capable state \<and> cev_now env < dps_deadline state
    \<and> dd_requests db' = dd_requests db @ [r]
    \<and> shr_settlement_ref r = settlement_reference i \<and> shr_payment_ref r = dps_payment_ref state
    \<and> shr_recipient r = dst_customer_id d \<and> 1 \<le> shr_amount r \<and> shr_amount r \<le> dps_available state
    \<and> (if 0 < dps_successful_refund state
        then calculate_commission (wrap64 (com_original_paid_minor c - dps_successful_refund state)) (com_rate c) = Inr (shr_amount r)
        else shr_amount r = com_payable_minor c)"
proof -
  from prepare_settlement_gates [OF assms] obtain ctx c where g: "read_settlement_context i db = Inr ctx"
    "com_due_at (scx_commission ctx) \<le> cev_now env" "dps_confirmed_paid state" "dps_payment_ref state \<noteq> []"
    "\<not> dps_refund_exposure state" "com_id c = i" "com_distributor_id c = com_distributor_id (scx_commission ctx)"
    and a: "if 0 < dps_successful_refund state
        then calculate_commission (wrap64 (com_original_paid_minor (scx_commission ctx) - dps_successful_refund state))
               (com_rate (scx_commission ctx)) = Inr (com_payable_minor c)
        else c = scx_commission ctx"
    and s: "settle_gates env ctx c state (cev_now env) db db'" by blast
  from s obtain d rc q where "read_distributor (com_distributor_id c) db = Inr (d, rc)"
    "check_within env (dst_customer_id d) (scx_product_id ctx) (scx_product_type ctx) = Inr q" "ql_state q = QualEligible"
    "cev_receiver_ready env (dst_customer_id d) (rcv_app_id rc) = Inr True" "dps_split_capable state"
    "cev_now env < dps_deadline state" "1 \<le> com_payable_minor c" "com_payable_minor c \<le> dps_available state"
    "dd_requests db' = dd_requests db @ [sharing_request_for ctx c (dst_customer_id d) state]"
    by (auto simp: settle_gates_def)
  with g a show ?thesis
    by (intro exI [of _ ctx] exI [of _ "scx_commission ctx"] exI [of _ d] exI [of _ rc] exI [of _ q]
        exI [of _ "sharing_request_for ctx c (dst_customer_id d) state"])
      (auto simp: sharing_request_for_def)
qed

theorem split_gates_witness:
  "\<exists>r. dd_requests sample_settling = dd_requests sample_opened @ [r] \<and> shr_amount r \<le> 389"
proof -
  have "dd_requests sample_settling \<noteq> dd_requests sample_opened"
    by (simp add: sample_settling_def sample_opened_def sample_tables_def empty_commission_db_def)
  from split_gates [OF sample_prepares this] show ?thesis by (auto simp: sample_payment_state_def)
qed

text \<open>
  C11: The qualification check answers eligible exactly when the customer's lineage is known and
  contains it, and Order reports a purchase of this product by and for customers of the
  lineage that Payment confirms as paid at the same instant, with no refund made or under way.
\<close>

theorem qualification_exact:
  assumes "check_within env customer product kind = Inr q"
  shows "ql_state q = QualEligible \<longleftrightarrow>
    (\<exists>roots purchases e. cev_lineage env customer = Some roots \<and> customer \<in> set roots
       \<and> length roots \<le> 100 \<and> (\<forall>r\<in>set roots. 1 \<le> r)
       \<and> cev_purchases env (sort (remdups roots)) product kind = Some purchases \<and> e \<in> set purchases
       \<and> pue_product_id e = product \<and> 1 \<le> pue_item_paid e \<and> pue_payer e \<in> set roots \<and> pue_beneficiary e \<in> set roots
       \<and> proves_purchase env roots product e)"
proof -
  have v: "pue_product_id e = product \<and> 1 \<le> pue_item_paid e \<and> pue_payer e \<in> set roots \<and> pue_beneficiary e \<in> set roots"
    if "proves_purchase env roots product e" for roots e
    using that by (auto simp: proves_purchase_def malformed_purchase_def)
  have u: "ql_state (unavailable_qualification now r) \<noteq> QualEligible" for now r
    by (simp add: unavailable_qualification_def)
  have s: "ql_state (qualification_of st r e now) = st" for st r e now by (simp add: qualification_of_def)
  show ?thesis
  proof (cases "cev_lineage env customer")
    case None
    with assms u show ?thesis by (auto simp: check_within_def Let_def split: if_splits)
  next
    case (Some roots)
    show ?thesis
    proof (cases "roots = [] \<or> 100 < length roots \<or> list_ex (\<lambda>r. r < 1) roots \<or> customer \<notin> set roots")
      case True
      with assms Some u s show ?thesis by (auto simp: check_within_def Let_def list_ex_iff split: if_splits)
    next
      case ok: False
      show ?thesis
      proof (cases "cev_purchases env (sort (remdups roots)) product kind")
        case None
        with assms Some ok u show ?thesis by (auto simp: check_within_def Let_def split: if_splits)
      next
        case (Some purchases)
        obtain t where t: "tally_purchases env roots product purchases tally_start = Some t"
          "tly_eligible_ref t \<noteq> [] \<longleftrightarrow> (\<exists>e\<in>set purchases. proves_purchase env roots product e)"
          using tally_purchases_eligible [of env roots product purchases tally_start] by (auto simp: tally_start_def)
        have "ql_state q = QualEligible \<longleftrightarrow> (\<exists>e\<in>set purchases. proves_purchase env roots product e)"
          using assms Some ok \<open>cev_lineage env customer = Some roots\<close> t s tally_decision_eligible
          by (auto simp: check_within_def Let_def split: if_splits)
        with Some ok \<open>cev_lineage env customer = Some roots\<close> v show ?thesis
          by (auto simp: list_ex_iff not_less Bex_def)
      qed
    qed
  qed
qed

theorem qualification_exact_witness: "\<exists>e\<in>set [sample_purchase]. proves_purchase (sample_env 100) [21] 5 e"
proof -
  have "check_within (sample_env 100) 21 5 TypeStandard
      = Inr (qualification_of QualEligible ''valid_paid_purchase'' ''order:3:item:1'' 100)"
    by (rule sample_qualified) simp
  from qualification_exact [OF this] show ?thesis by (simp add: qualification_of_def sample_env_def)
qed

text \<open>
  C36: An order with a commission can only be paid while its distributor is eligible. When the
  qualification check fails, is suspended or answers ineligible, the paid event is refused,
  with it the settlement of the payment: the commission that was to be kept as held or
  cancelled already has version 2, and the insert admits version 1 only.
\<close>

theorem paid_event_needs_eligibility:
  assumes "read_attribution_context (pe_order_id event) 1 db = Inr x"
    and "new_commission (acx_attribution x) (paid_line_minor (at_order_item_line (acx_attribution x)) (snap_items (pe_order event)))
           (pe_occurred_at event) = Inr c" "com_status c = ComPending"
    and "\<forall>q. check_within env (acx_customer x) (acx_product_id x) (acx_product_type x) = Inr q \<longrightarrow> ql_state q \<noteq> QualEligible"
  shows "\<exists>e. consume_paid_event env event db = Inl e"
proof (rule ccontr)
  define state where "state = (case check_within env (acx_customer x) (acx_product_id x) (acx_product_type x) of
                            Inl _ \<Rightarrow> QualUnavailable | Inr q \<Rightarrow> ql_state q)"
  have st: "state \<noteq> QualEligible" using assms(4) by (auto simp: state_def split: sum.splits)
  assume "\<not> ?thesis"
  then obtain db' where "consume_paid_event env event db = Inr db'" by (cases "consume_paid_event env event db") auto
  with assms(1,2) obtain d where d: "qualify_new_commission c state (pe_occurred_at event) = Inr d"
    and s: "store_new_commission event d db = Inr db'"
    unfolding consume_paid_event_def Let_def state_def by (auto split: if_splits elim!: and_then_InrE)
  have v: "com_version c = 1" using assms(2) by (auto simp: new_commission_def split: if_splits elim!: and_then_InrE)
  with d st assms(3) have "com_version d \<noteq> 1"
    by (auto simp: qualify_new_commission_def cancel_unsettled_def cancelled_def hold_def touch_def next_version_def split: if_splits)
  then have "\<nexists>y. insert_commission d db = Inr y" by (simp add: insert_commission_def commission_insert_ok_def)
  with s show False by (auto simp: store_new_commission_def elim!: and_then_InrE)
qed

theorem paid_event_needs_eligibility_witness:
  "\<exists>e. consume_paid_event (sample_env 100\<lparr>cev_lineage := \<lambda>_. None\<rparr>) sample_event_paid sample_tables = Inl e"
proof (rule paid_event_needs_eligibility)
  let ?x = "\<lparr>acx_attribution = sample_attribution, acx_customer = 21, acx_product_id = 5, acx_product_type = TypeStandard\<rparr>"
  show "read_attribution_context (pe_order_id sample_event_paid) 1 sample_tables = Inr ?x"
    by (simp add: read_attribution_context_def sample_event_paid_def sample_tables_facts)
  show "new_commission (acx_attribution ?x) (paid_line_minor (at_order_item_line (acx_attribution ?x)) (snap_items (pe_order sample_event_paid)))
     (pe_occurred_at sample_event_paid) = Inr (sample_row\<lparr>com_id := 0\<rparr>)"
    by (simp add: new_commission_def sample_tables_facts calculate_commission_def sample_row_def sample_commission_def duration_defs
      paid_line_minor_def sample_event_paid_def snapshot_def sample_paid_def sample_order_def sample_item_def)
  show "com_status (sample_row\<lparr>com_id := 0\<rparr>) = ComPending" by (simp add: sample_row_def sample_commission_def)
  show "\<forall>q. check_within (sample_env 100\<lparr>cev_lineage := \<lambda>_. None\<rparr>) (acx_customer ?x) (acx_product_id ?x) (acx_product_type ?x) = Inr q
      \<longrightarrow> ql_state q \<noteq> QualEligible"
    by (simp add: check_within_def sample_env_def unavailable_qualification_def)
qed

text \<open>
  C37: A late refund is refused. The recheck of a successful refund writes at the instant of the
  refund, which the provider reports, while holds, settlements and payments are written with
  the worker's clock. Whenever a commission of the order was written later than the refund was
  made, and the refunded total it records differs from the one Payment reports, the recheck
  fails, whatever the status of the commission. It is refused for as long as both hold: until
  a due check that reprices a pending or held commission, or the recheck of a younger refund,
  has recorded the total.
\<close>

theorem late_refund_refused:
  assumes "rka_state args = ''successful''" "payment_state_within env (rka_order_id args) = Inr state"
    and "c \<in> set (dd_commissions db)" "com_order_id c = rka_order_id args" "joined db c \<noteq> None"
    and "dps_successful_refund state \<noteq> com_refunded_minor c" "rka_occurred_at args < com_updated_at c"
  shows "\<exists>e. run_refund_recheck env args db = Inl e"
proof (rule ccontr)
  define now source where "now = utc (rka_occurred_at args)"
    and "source = refund_source (event_ref (rka_order_id args) (rka_receipt_key args))"
  have late: "apply_buyer_refund c (dps_successful_refund state) (rka_receipt_key args) source now db1 \<noteq> Inr db2" for db1 db2
    using assms(6,7)
    by (auto simp: apply_buyer_refund_def record_post_submission_refund_def reprice_def refund_after_submission_def
        refund_after_finalization_def bad_instant_def now_def split: if_splits elim!: and_then_InrE)
  have loop: "for_each (\<lambda>v. apply_buyer_refund (scx_commission v) (dps_successful_refund state) (rka_receipt_key args) source now) vs db1 \<noteq> Inr db2"
    if "v \<in> set vs" "scx_commission v = c" for v vs db1 db2
    using that late [folded that(2)] by (induction vs arbitrary: db1) (auto elim!: and_then_InrE)
  assume "\<not> ?thesis"
  then obtain db' where r: "run_refund_recheck env args db = Inr db'" by (cases "run_refund_recheck env args db") auto
  then have "apply_successful_refund_recheck env args db = Inr db'"
    using assms(1) by (auto simp: run_refund_recheck_def split: if_splits)
  then obtain ts vs db1 where l: "list_refund_recheck_contexts (rka_order_id args) (target_scopes ts) db = Inr vs"
    and b: "(case payment_state_within env (rka_order_id args) of Inl _ \<Rightarrow> Inl Dist_Unavailable
             | Inr state \<Rightarrow> if \<not> dps_confirmed_paid state then Inl Dist_Unavailable
                 else for_each (\<lambda>v. apply_buyer_refund (scx_commission v) (dps_successful_refund state) (rka_receipt_key args)
                                      source now) (of_order (rka_order_id args) vs) db1) = Inr db'"
    unfolding apply_successful_refund_recheck_def Let_def now_def [symmetric] source_def [symmetric] by (elim and_then_InrE)
  from assms(5) obtain v where v: "joined db c = Some v" by blast
  then have "scx_commission v = c" by (rule joined_commission)
  moreover have "v \<in> set (List.map_filter (joined db) (dd_commissions db))"
    using v assms(3) by (force simp: List.map_filter_def)
  ultimately have "v \<in> set (of_order (rka_order_id args) vs)"
    using l assms(4) by (auto simp: list_refund_recheck_contexts_def of_order_def split: if_splits dest!: scan_all_eq)
  with loop \<open>scx_commission v = c\<close> b assms(2) show False by (auto split: if_splits)
qed

theorem late_refund_refused_witness:
  "\<exists>e. run_refund_recheck (sample_env 300\<lparr>cev_payment_state := \<lambda>_. Inr (sample_payment_state\<lparr>dps_successful_refund := 500\<rparr>)\<rparr>)
     \<lparr>rka_order_id = 7, rka_refund_id = 0, rka_state = ''successful'', rka_occurred_at = 99, rka_receipt_key = ''refund-1''\<rparr> sample_opened = Inl e"
  by (rule late_refund_refused [where c = sample_row and state = "sample_payment_state\<lparr>dps_successful_refund := 500\<rparr>"])
    (simp_all add: payment_state_within_def sample_env_def sample_opened_def sample_row_def sample_commission_def joined_def
      sample_tables_def sample_payment_state_def sample_attribution_def)

section \<open>Receipts of the administrator's commands\<close>

definition receipted :: "string \<Rightarrow> string \<Rightarrow> string \<Rightarrow> string \<Rightarrow> operation_receipt list \<Rightarrow> bool" where
  "receipted operation actor key digest rs \<longleftrightarrow>
     (\<exists>r. find (\<lambda>r. orc_operation r = operation \<and> orc_actor r = actor \<and> orc_key r = key) rs = Some r
        \<and> orc_digest r = digest \<and> 1 \<le> orc_result_id r \<and> valid_receipt_result (orc_result_kind r))"

lemma find_extend_Some: "find P xs = Some x \<Longrightarrow> find P (xs @ ys) = Some x"
  by (induction xs) (auto split: if_splits)

lemma find_extend_None: "find P xs = None \<Longrightarrow> find P (xs @ ys) = find P ys"
  by (induction xs) (auto split: if_splits)

lemma receipted_extend: "receipted op' actor key d rs \<Longrightarrow> receipted op' actor key d (rs @ rs')"
  unfolding receipted_def by (auto dest: find_extend_Some [where ys = rs'])

lemma receipted_answers:
  assumes "receipted op' actor key d (dd_receipts db)" "op' \<noteq> []" "actor \<noteq> []" "valid_admin_text key 16 200"
  shows "once op' actor key d' f db = (if d' = d then Inr db else Inl Dist_Conflict)"
  using assms by (auto simp: receipted_def once_def admin_replay_def read_receipt_def)

lemma append_receipt_receipted:
  assumes "append_receipt op' actor key d kind i at db = Inr db'"
  shows "receipted op' actor key d (dd_receipts db')"
proof -
  from assms have n: "find (\<lambda>r. orc_operation r = op' \<and> orc_actor r = actor \<and> orc_key r = key) (dd_receipts db) = None"
    by (auto simp: append_receipt_def find_None_iff list_ex_iff split: if_splits)
  from assms find_extend_None [OF n] show ?thesis
    by (auto simp: append_receipt_def receipted_def split: if_splits)
qed

lemma once_receipted:
  assumes "once op' actor key d f db = Inr db'" "\<And>db'. f db = Inr db' \<Longrightarrow> receipted op' actor key d (dd_receipts db')"
  shows "receipted op' actor key d (dd_receipts db')"
  using assms by (auto simp: once_def admin_replay_def read_receipt_def receipted_def split: if_splits option.splits elim!: and_then_InrE)

definition handling_digest :: "admin_digest \<Rightarrow> handling \<Rightarrow> admin_exception_command \<Rightarrow> string" where
  "handling_digest digest h c = digest (handling_operation h) [(''amount_minor'', Val_Int (aec_amount c)),
                (''evidence_reference'', Val_Text (aec_evidence c)), (''exception_id'', Val_Int (aec_exception_id c)),
                (''expected_version'', Val_Int (aec_expected c)), (''reason'', Val_Text (aec_reason c))]"

lemma record_end_receipted:
  assumes "and_then (append_receipt op' actor key d kind i now db) (\<lambda>db1.
    and_then (append_audit ev agg i actor now db1) (append_outbox ev k i now)) = Inr db'"
  shows "receipted op' actor key d (dd_receipts db')"
proof -
  from assms obtain db1 where a: "append_receipt op' actor key d kind i now db = Inr db1"
    and b: "and_then (append_audit ev agg i actor now db1) (append_outbox ev k i now) = Inr db'" by (rule and_then_InrE)
  from b have "dd_receipts db' = dd_receipts db1"
    by (auto simp: append_audit_def append_outbox_def split: if_splits elim!: and_then_InrE)
  with append_receipt_receipted [OF a] show ?thesis by simp
qed

lemma record_exception_amount_receipted:
  assumes "record_exception_amount digest env h c db = Inr db'"
  shows "receipted (handling_operation h) (aec_actor c) (aec_key c) (handling_digest digest h c) (dd_receipts db')"
proof -
  define now d where "now = utc (cev_now env)" and "d = handling_digest digest h c"
  define tail where "tail u db2 =
                and_then (append_receipt (handling_operation h) (aec_actor c) (aec_key c) d ''exception'' (aex_id u) now db2)
                  (\<lambda>db3. and_then (append_audit (handling_event h) ''exception'' (aex_id u) (aec_actor c) now db3)
                    (append_outbox (handling_event h) (''distribution.'' @ handling_operation h @ '':'' @ aec_key c)
                       (aex_id u) now))" for u :: admin_exception and db2
  note r = assms [unfolded record_exception_amount_def Let_def, folded handling_digest_def, folded d_def now_def, folded tail_def]
  have t: "receipted (handling_operation h) (aec_actor c) (aec_key c) d (dd_receipts db')" if "tail u db2 = Inr db'" for u db2 db'
    using that unfolding tail_def by (rule record_end_receipted)
  show ?thesis
    unfolding d_def [symmetric]
    by (rule once_receipted [OF r]) (auto split: if_splits elim!: and_then_InrE dest: t)
qed

text \<open>
  C12: A recovery or a liability of the merchant is recorded once. After a command of an
  administrator succeeded, in every later state with its receipt the same command again is
  answered without recording anything, whatever happened to the exception since, and another
  command of the same operation under the same key, one whose digest differs, is refused.
\<close>

theorem handling_recorded_once:
  assumes "record_merchant_liability digest env c db = Inr db1 \<and> h = Merchant_Liability
      \<or> record_recovery digest env c db = Inr db1 \<and> h = Recovery"
    and "dd_receipts db2 = dd_receipts db1 @ rs"
    and "aec_actor d = aec_actor c" "aec_key d = aec_key c"
  shows "record_exception_amount digest env2 h d db2 =
    (if handling_digest digest h d = handling_digest digest h c then Inr db2 else Inl Dist_Conflict)"
proof -
  from assms(1) have r: "record_exception_amount digest env h c db = Inr db1" and v: "valid_exception_command c True (h = Recovery)"
    by (auto simp: record_merchant_liability_def record_recovery_def split: if_splits)
  have rec: "receipted (handling_operation h) (aec_actor d) (aec_key d) (handling_digest digest h c) (dd_receipts db2)"
    using receipted_extend [OF record_exception_amount_receipted [OF r]] assms(2-4) by simp
  have ne: "handling_operation h \<noteq> []" "aec_actor d \<noteq> []" "valid_admin_text (aec_key d) 16 200"
    using v assms(3,4) by (cases h; auto simp: valid_exception_command_def valid_admin_text_def)+
  show ?thesis
    unfolding record_exception_amount_def Let_def handling_digest_def [symmetric] by (rule receipted_answers [OF rec ne])
qed

definition sample_refund_db :: commission_db where
  "sample_refund_db = sample_opened\<lparr>
     dd_commissions := [sample_row\<lparr>com_status := ComException, com_paid_minor := 180, com_payable_minor := 80, com_exception_reason := ''refund''\<rparr>],
     dd_exceptions := [\<lparr>exn_id = 1, exn_commission_id = 1, exn_settlement_id = 0, exn_kind = Ex_Buyer_Refund, exn_status = Exs_Open,
       exn_unpaid_due = 0, exn_already_paid = 180, exn_amount = 100, exn_reason = ''buyer_refund_after_paid'', exn_evidence = ''order:7'',
       exn_actor = ''order-refund:7'', exn_version = 1, exn_created_at = 200, exn_updated_at = 200\<rparr>]\<rparr>"

definition sample_liability :: admin_exception_command where
  "sample_liability = \<lparr>aec_exception_id = 1, aec_expected = 1, aec_amount = 60, aec_actor = ''admin-1'', aec_reason = ''goodwill'',
     aec_evidence = [], aec_key = ''liability-key-0001''\<rparr>"

lemma sample_liability_recorded:
  "\<exists>db. record_merchant_liability (\<lambda>_ _. ''digest'') (sample_env 300) sample_liability sample_refund_db = Inr db"
proof -
  have v: "valid_exception_command sample_liability True False"
    by (simp add: valid_exception_command_def sample_liability_def valid_admin_text_def ascii_text)
  have l: "lock_commission_then_exception 1 sample_refund_db
    = Inr (admin_exception_of sample_refund_db (hd (dd_exceptions sample_refund_db)), hd (dd_commissions sample_refund_db))"
    by (simp add: lock_commission_then_exception_def read_admin_exception_def sample_refund_db_def admin_exception_of_def Let_def
      read_commission_def commission_row_def scan_commission_def sample_row_def sample_commission_def sample_tables_facts sample_opened_def)
  have c: "aec_exception_id sample_liability = 1" "aec_expected sample_liability = 1" "aec_amount sample_liability = 60"
    "aec_actor sample_liability = ''admin-1''" "aec_reason sample_liability = ''goodwill''" "aec_evidence sample_liability = []"
    "aec_key sample_liability = ''liability-key-0001''"
    by (simp_all add: sample_liability_def)
  have k: "dd_receipts sample_refund_db = []" "valid_admin_text ''liability-key-0001'' 16 200"
    by (simp_all add: sample_refund_db_def sample_opened_def sample_tables_def empty_commission_db_def valid_admin_text_def ascii_text)
  show ?thesis
    by (simp add: record_merchant_liability_def v record_exception_amount_def Let_def once_def admin_replay_def read_receipt_def c l k)
      (simp add: c valid_admin_text_def ascii_text sample_refund_db_def sample_opened_def sample_tables_def empty_commission_db_def
        sum_recorded_handling_def admin_exception_of_def sample_row_def sample_commission_def after_sales_actionable_def can_record_exception_def
        after_sales_available_def Let_def update_admin_exception_def exception_check_def sample_env_def append_adjustment_def append_receipt_def
        valid_receipt_result_def append_audit_def append_outbox_def btrimmed_def rune_count_def next_version_def limits)
qed

theorem handling_recorded_once_witness:
  "\<exists>db. record_merchant_liability (\<lambda>_ _. ''digest'') (sample_env 300) sample_liability sample_refund_db = Inr db
    \<and> record_exception_amount (\<lambda>_ _. ''digest'') (sample_env 400) Merchant_Liability sample_liability db = Inr db"
proof -
  from sample_liability_recorded obtain db
    where r: "record_merchant_liability (\<lambda>_ _. ''digest'') (sample_env 300) sample_liability sample_refund_db = Inr db" by blast
  from handling_recorded_once [of "\<lambda>_ _. ''digest''" "sample_env 300" sample_liability sample_refund_db db Merchant_Liability db "[]"
      sample_liability "sample_env 400"] r show ?thesis by simp
qed

end
