(* ===== verification/Spec2Isabelle.thy ===== *)
theory Spec2Isabelle
  imports Order_Service Payment_Domain Distribution_Domain Referral_Domain Effect_Properties Idempotency_Properties
    Tag_Domain Groupops_Domain Access_Guessing Access_Ranks Commission_Properties
begin

text \<open>
  AI-CRM v3 is the CRM of one enterprise, a Go server (\<open>src/cmd/aicrm\<close>) over PostgreSQL. Each
  module of \<open>src/internal\<close> has a \<open>domain\<close> package of pure rules, an \<open>app\<close> package of services, a
  \<open>store\<close> of SQL statements and HTTP handlers; modules call each other through \<open>port\<close> packages.
  A service runs its reads and writes inside one transaction of the unit of work. Everything that
  leaves the system (messages, payments, refunds, tag changes) goes through one kernel of
  external effects. This development models the parts where a mistake costs money, sends
  something twice or lets the wrong person in.

  \<^bold>\<open>Go.\<close> \<open>Prelude\<close> has the integers (\<open>int64\<close> is \<open>int\<close> with \<open>wrap64\<close> where the code may
  overflow, truncating division), times as nanoseconds, and results as sums \<open>error + value\<close>
  chained by \<open>and_then\<close>. Strings are byte lists. \<open>Go_Strings\<close>, \<open>Go_Utf8\<close>, \<open>Go_Time\<close>, \<open>Go_Json\<close>,
  \<open>Go_Json_Data\<close>, \<open>Json_Scan\<close>, \<open>Go_Sha256\<close> and \<open>Go_Crypto\<close> model what the source uses of the standard
  library: UTF-8 decoding and trimming, calendar dates, JSON checking, decoding and marshalling
  with a proved round trip, SHA-256, HMAC, base 64. Errors of wrapped text are compared by their
  sentinel only.

  \<^bold>\<open>Orders and payments.\<close> \<open>Order_Domain\<close> is \<open>internal/order/domain/order.go\<close>; \<open>Order_Service\<close> is
  \<open>SettlePaymentWithin\<close> of \<open>internal/order/app/service.go\<close> with the statements of
  \<open>internal/order/store\<close> it runs, the participants (coupon, entitlement, referral) being
  parameters. The settlement refines a ledger per order, refunds are conserved and the effects
  of the first payment happen once. \<open>Payment_Domain\<close> is \<open>internal/payment/domain\<close>: the state
  machines of payments, refunds and profit sharing. \<open>Distribution_Domain\<close> and \<open>Referral_Domain\<close>
  are the commission, campaign and sales rules. \<open>Versioned\<close> has the shared argument about
  optimistic versions.

  \<^bold>\<open>Commissions.\<close> The services of \<open>internal/distribution\<close> run on the tables of
  \<open>Commission_Store\<close>: a paid order opens the commission of its distributor, due checks settle it
  through a split that Payment accepts (\<open>Commission_Settlement\<close>) if the distributor still
  qualifies (\<open>Commission_Qualification\<close>), refunds recheck it (\<open>Commission_Refund\<close>), administrators
  record what happens to amounts overpaid (\<open>Commission_Admin\<close>). \<open>Commission_Books\<close> is the abstract
  specification, the books of one commission and the steps they admit; \<open>Commission_System\<close> and
  \<open>Commission_Recheck\<close> show unit by unit that the tables follow it, \<open>Commission_Steps\<close> puts all
  units into one step relation and interprets the locale of \<open>Data_Refinement\<close> on it,
  \<open>Commission_Gates\<close> shows what a split rests on, \<open>Commission_Sample\<close> runs an example,
  \<open>Commission_Due\<close> follows one due check through its units (its answer, its warning, what it
  submits and what it releases), and \<open>Commission_Properties\<close> has the results, among them two ways in which the code refuses a payment
  or a refund.

  \<^bold>\<open>External effects.\<close> \<open>Effect_Port\<close> is the contract (\<open>internal/externaleffects/port\<close>),
  \<open>Effect_Kernel\<close> the transactions of the repository and the worker, on explicit tables.
  \<open>Effect_Life\<close> is the abstract life of one effect, its steps conditioned on the kind of the
  effect; \<open>Effect_Refinement\<close> shows that every transaction refines it, \<open>Effect_System\<close> runs transactions, workers and provider calls in any
  interleaving with a log of the calls that no table has, \<open>Effect_Safety\<close>, \<open>Effect_Acceptance\<close>
  and \<open>Effect_Properties\<close> state what follows: no call after an execution, one worker at a time,
  single steps along the table of the states, idempotent acceptance, an end to automatic retries
  and to abandoned attempts.

  \<^bold>\<open>Idempotency.\<close> \<open>Idempotency\<close> is \<open>internal/platform/idempotency\<close>; \<open>Idempotency_Contract\<close> states
  the store's contract as a locale and interprets it on the SQL store; \<open>Idempotency_Properties\<close>
  has the properties of the service over it.

  \<^bold>\<open>Access.\<close> \<open>Access_Domain\<close>, \<open>Access_Store\<close>, \<open>Access_Login\<close>, \<open>Access_Governance\<close> and
  \<open>Access_Management\<close> are \<open>internal/access\<close>: accounts, roles, sessions, sign-in with its rate
  limit, the governed commands, the older ones and the projection of staff, on the tables of
  the store with the deferred checks of the migrations. \<open>Access_System\<close> puts every command into
  one step relation and shows what a step keeps; \<open>Fencing\<close> is the contract of a credential that
  names a version, interpreted on accounts and sessions in \<open>Access_Properties\<close>;
  \<open>Access_Guessing\<close> bounds the guesses between two successful sign-ins of a name from an address,
  \<open>Access_Ranks\<close> shows who may change whose account.

  \<^bold>\<open>Content rules.\<close> \<open>Tag_Domain\<close> (\<open>internal/tag/domain\<close>) and \<open>Groupops_Domain\<close>
  (\<open>internal/groupops/domain\<close>): catalogues, plans, nodes, webhook messages, the scan of documents
  for forbidden keys.

  \<^bold>\<open>Transactions.\<close> A transaction is a function on its tables; an error leaves them unchanged.
  Rows the code locks serialise the transactions that write them, so a transaction is one step;
  what happens outside transactions (provider calls, reads before the lock) is a step of its
  own. Constraints of the migrations that a modelled statement can violate are written out.

  \<^bold>\<open>Bounds.\<close> The JSON checkers take fuel: twice the length of the text plus one is always
  enough (\<open>json_fuel_enough\<close>, \<open>read_value_enough\<close>), and Go's nesting limit of 10000 is part of the
  model. Everything else recurses on its data.

  \<^bold>\<open>Parameters.\<close> Clocks of the service and of the database, random bytes, Unicode tables beyond
  ASCII, the Argon2 hasher, the digest of an administrator's command, the provider adapters,
  collation checks and the participants of other modules (for commissions the record
  \<open>commission_env\<close>: lineages, purchases, the states and answers of Payment) are arguments of the
  definitions. No property assumes anything of them that is
  not a premise of its statement.

  \<^bold>\<open>Not modelled.\<close> HTTP handlers, SQL that only reads for pages, provider clients, migration
  programmes and the browser client: input and output around the rules above. Of access: the
  parsing of owner scopes and address ranges (\<open>net/netip\<close>), machine clients and their signed
  tokens, the cursor of the employee directory. Of orders: creation, import and listing. Of
  the distribution services: registration, promotion links, policies and read models, and that
  the job queue drops a job it already holds.
  The other modules of \<open>src/internal\<close> (segments, surveys, channels, media, customers,
  automation) are planned or thin.
\<close>

end
